(* ===== verification/Prelude.thy ===== *)
theory Prelude
  imports Main "HOL-Library.Word"
begin

text \<open>
  Shared vocabulary of the development: the Go types the sources use, the errors
  they return, little-endian byte strings, and the reader type in which the
  decoders are written, with the generic lemmas on them.

  A Go \<^verbatim>\<open>string\<close> and a Go \<^verbatim>\<open>[]byte\<close> are byte lists, so
  \<^verbatim>\<open>len\<close> is \<^term>\<open>length\<close>. A \<^verbatim>\<open>nil\<close> slice and an empty one are the
  same list, except in the fields the code compares with \<^verbatim>\<open>nil\<close>, which are
  options. Sized integers are words: signed and unsigned ones share the type and
  are read by \<^term>\<open>sint\<close> or \<^term>\<open>uint\<close>, as a Go conversion between them keeps
  the bits. Go's \<^verbatim>\<open>int\<close>, used for lengths and configured limits only, is
  \<^typ>\<open>int\<close>. Floating-point values are their IEEE 754 bit patterns. A
  \<^verbatim>\<open>time.Time\<close> is its count of nanoseconds since the Unix epoch.
\<close>

unbundle bit_operations_syntax

named_theorems emits_intros \<open>introduction rules for what an encoder step writes\<close>
named_theorems parses_intros \<open>introduction rules for what a reader recognises\<close>
named_theorems parses_steps \<open>one reader call at the head of a method body\<close>
named_theorems within_intros \<open>introduction rules for readers that stay inside the buffer\<close>
named_theorems reader_simps \<open>unfolding rules for the reader combinators\<close>

section \<open>Go types\<close>

type_synonym byte = "8 word"
type_synonym gostring = "byte list"
type_synonym uint8 = "8 word"
type_synonym int8 = "8 word"
type_synonym uint16 = "16 word"
type_synonym int16 = "16 word"
type_synonym uint32 = "32 word"
type_synonym int32 = "32 word"
type_synonym uint64 = "64 word"
type_synonym int64 = "64 word"
type_synonym float32 = "32 word"
type_synonym float64 = "64 word"
type_synonym gotime = int
type_synonym StatusCode = "32 word"

text \<open>
  An error value: a \<^verbatim>\<open>CodecError\<close> carries the status code a peer is told about
  (its message text is for logs and is left out); \<open>PlainError\<close> is an error made by
  \<^verbatim>\<open>fmt.Errorf\<close>; \<open>OutOfFuel\<close> is no error of the program but marks a recursion of
  the model that was cut short, and the development proves that no reader run by the
  program returns it.
\<close>

datatype go_error = CodecError StatusCode | PlainError | OutOfFuel

section \<open>Little-endian integers\<close>

text \<open>\<^verbatim>\<open>binary.LittleEndian\<close>: the low byte first.\<close>

primrec le_bytes :: "nat \<Rightarrow> 'a::len word \<Rightarrow> byte list" where
  "le_bytes 0 w = []"
| "le_bytes (Suc n) w = ucast w # le_bytes n (drop_bit 8 w)"

primrec le_word :: "byte list \<Rightarrow> 'a::len word" where
  "le_word [] = 0"
| "le_word (b # bs) = ucast b OR push_bit 8 (le_word bs)"

lemma length_le_bytes [simp]: "length (le_bytes n w) = n"
  by (induction n arbitrary: w) auto

lemma le_word_le_bytes: "le_word (le_bytes n w) = take_bit (8 * n) w"
proof (induction n arbitrary: w)
  case (Suc n)
  have "ucast (ucast w :: byte) OR push_bit 8 (take_bit (8 * n) (drop_bit 8 w)) = take_bit (8 * Suc n) w"
    by (rule bit_eqI) (auto simp: bit_simps)
  then show ?case by (simp add: Suc)
qed simp

lemma le_word_le_bytes_full:
  assumes "LENGTH('a::len) = 8 * n"
  shows "le_word (le_bytes n w) = (w :: 'a word)"
  unfolding le_word_le_bytes assms [symmetric] by (rule bit_eqI) (auto simp: bit_simps dest: bit_imp_le_length)

lemma le_bytes_take_bit: "8 * n \<le> m \<Longrightarrow> le_bytes n (take_bit m w) = le_bytes n w"
proof (induction n arbitrary: w m)
  case (Suc n)
  have "ucast (take_bit m w) = (ucast w :: byte)"
    by (rule bit_eqI) (use Suc.prems in \<open>auto simp: bit_simps\<close>)
  moreover have "drop_bit 8 (take_bit m w) = take_bit (m - 8) (drop_bit 8 w)"
    by (simp add: drop_bit_take_bit)
  moreover have "8 * n \<le> m - 8" using Suc.prems by simp
  ultimately show ?case by (simp add: Suc.IH)
qed simp

lemma le_bytes_le_word:
  "8 * length bs \<le> LENGTH('a::len) \<Longrightarrow> le_bytes (length bs) (le_word bs :: 'a word) = bs"
proof (induction bs)
  case (Cons b bs)
  have "ucast (ucast b OR push_bit 8 (le_word bs :: 'a word)) = b"
    by (rule bit_eqI) (use Cons.prems in \<open>auto simp: bit_simps\<close>)
  moreover have "drop_bit 8 (ucast b OR push_bit 8 (le_word bs)) = (take_bit (LENGTH('a) - 8) (le_word bs) :: 'a word)"
    by (rule bit_eqI) (use Cons.prems in \<open>auto simp: bit_simps dest: bit_imp_le_length\<close>)
  moreover have "8 * length bs \<le> LENGTH('a) - 8" using Cons.prems by simp
  ultimately show ?case using Cons by (simp add: le_bytes_take_bit)
qed simp

lemma le_word_inj:
  assumes "length xs = length ys" and "8 * length xs \<le> LENGTH('a::len)"
    and "le_word xs = (le_word ys :: 'a word)"
  shows "xs = ys"
proof -
  have "xs = le_bytes (length xs) (le_word xs :: 'a word)"
    using assms(2) by (rule le_bytes_le_word [symmetric])
  also have "\<dots> = le_bytes (length ys) (le_word ys :: 'a word)"
    unfolding assms(1) assms(3) ..
  also have "\<dots> = ys"
    by (rule le_bytes_le_word) (simp only: assms(1) [symmetric] assms(2))
  finally show ?thesis .
qed

lemma le_word_roundtrips [simp]:
  "le_word (le_bytes 1 (w8 :: 8 word)) = w8"
  "le_word (le_bytes 2 (w16 :: 16 word)) = w16"
  "le_word (le_bytes 4 (w32 :: 32 word)) = w32"
  "le_word (le_bytes 8 (w64 :: 64 word)) = w64"
  by (rule le_word_le_bytes_full, simp)+

section \<open>Go integer arithmetic\<close>

text \<open>
  Where the sources compute with \<^verbatim>\<open>int64\<close> (a \<^verbatim>\<open>time.Duration\<close> is one), the model uses
  integers and writes the wrap-around of a result as \<open>i64\<close>. Go's division truncates
  toward zero.
\<close>

definition i64 :: "int \<Rightarrow> int" where
  "i64 x = signed_take_bit 63 x"

definition MaxInt64 :: int where "MaxInt64 = 9223372036854775807"

lemma i64_id: "- MaxInt64 - 1 \<le> x \<Longrightarrow> x \<le> MaxInt64 \<Longrightarrow> i64 x = x"
  by (simp add: i64_def MaxInt64_def signed_take_bit_int_eq_self)

lemma i64_nonneg: "0 \<le> x \<Longrightarrow> x \<le> MaxInt64 \<Longrightarrow> i64 x = x"
  by (rule i64_id) (simp_all add: MaxInt64_def)

definition go_quot :: "int \<Rightarrow> int \<Rightarrow> int" where
  "go_quot a b = sgn a * sgn b * (\<bar>a\<bar> div \<bar>b\<bar>)"

definition go_rem :: "int \<Rightarrow> int \<Rightarrow> int" where
  "go_rem a b = a - b * go_quot a b"

lemma go_quot_nonneg: "0 \<le> a \<Longrightarrow> 0 < b \<Longrightarrow> go_quot a b = a div b"
  by (cases "a = 0") (auto simp: go_quot_def)

lemma go_rem_nonneg: "0 \<le> a \<Longrightarrow> 0 < b \<Longrightarrow> go_rem a b = a mod b"
  by (simp add: go_rem_def go_quot_nonneg minus_mult_div_eq_mod)

end
