(* ===== verification/Binary.thy ===== *)
theory Binary
  imports Prelude
begin

text \<open>
  The UA Binary encoder and decoder of \<^verbatim>\<open>src/internal/opcua/binary.go\<close> and the
  DateTime conversions of \<^verbatim>\<open>src/internal/opcua/datetime.go\<close>.

  An encoder is a state with a sticky error; every \<^verbatim>\<open>Write\<close> method is a function
  on it, with the value first. A decoder is a position in a fixed buffer; every
  \<^verbatim>\<open>Read\<close> method is a reader, which returns an error or a value and the decoder
  after it. \<open>emits\<close> says what a write appends and exactly when it succeeds,
  \<open>parses\<close> says what a reader recognises, and \<open>within\<close> says that a reader keeps
  inside its buffer; all three compose along the code's own sequencing. The locale
  \<open>ua_codec\<close> joins a writer and a reader of one type and gives their round trip.
\<close>

section \<open>Status codes and limits\<close>

definition StatusBadEncodingError :: StatusCode where "StatusBadEncodingError = 0x80060000"
definition StatusBadDecodingError :: StatusCode where "StatusBadDecodingError = 0x80070000"
definition StatusBadEncodingLimitsExceeded :: StatusCode where
  "StatusBadEncodingLimitsExceeded = 0x80080000"

definition nullLength :: int32 where "nullLength = - 1"

definition minimumNestingDepth :: int where "minimumNestingDepth = 100"

definition MaxInt32 :: int where "MaxInt32 = 2147483647"

record BinaryLimits =
  MaxMessageBytes :: int
  MaxStringBytes :: int
  MaxByteStringBytes :: int
  MaxArrayLength :: int
  MaxNestingDepth :: int

definition DefaultBinaryLimits :: BinaryLimits where
  "DefaultBinaryLimits = \<lparr>
     MaxMessageBytes = 2 * 2 ^ 20,
     MaxStringBytes = 64 * 2 ^ 10,
     MaxByteStringBytes = 256 * 2 ^ 10,
     MaxArrayLength = 4096,
     MaxNestingDepth = minimumNestingDepth\<rparr>"

definition validate_limits :: "BinaryLimits \<Rightarrow> go_error option" where
  "validate_limits L =
     (if MaxMessageBytes L \<le> 0 \<or> MaxStringBytes L \<le> 0 \<or> MaxByteStringBytes L \<le> 0 \<or>
         MaxArrayLength L \<le> 0 \<or> MaxNestingDepth L \<le> 0 then Some PlainError
      else if MaxNestingDepth L < minimumNestingDepth then Some PlainError
      else if MaxMessageBytes L > MaxInt32 \<or> MaxStringBytes L > MaxInt32 \<or>
         MaxByteStringBytes L > MaxInt32 \<or> MaxArrayLength L > MaxInt32 then Some PlainError
      else if MaxStringBytes L > MaxMessageBytes L \<or> MaxByteStringBytes L > MaxMessageBytes L
         then Some PlainError
      else None)"

definition decodingError :: go_error where "decodingError = CodecError StatusBadDecodingError"
definition limitsError :: go_error where "limitsError = CodecError StatusBadEncodingLimitsExceeded"
definition encodingError :: go_error where "encodingError = CodecError StatusBadEncodingError"

section \<open>The encoder\<close>

record Encoder =
  ebuffer :: "byte list"
  elimits :: BinaryLimits
  edepth :: int
  eerr :: "go_error option"

definition NewEncoder :: "BinaryLimits \<Rightarrow> go_error + Encoder" where
  "NewEncoder L = (case validate_limits L of
       Some er \<Rightarrow> Inl er
     | None \<Rightarrow> Inr \<lparr>ebuffer = [], elimits = L, edepth = 0, eerr = None\<rparr>)"

definition Bytes :: "Encoder \<Rightarrow> go_error + byte list" where
  "Bytes e = (case eerr e of Some er \<Rightarrow> Inl er | None \<Rightarrow> Inr (ebuffer e))"

definition efail :: "go_error \<Rightarrow> Encoder \<Rightarrow> Encoder" where
  "efail er e = (if eerr e = None then e\<lparr>eerr := Some er\<rparr> else e)"

definition ewrite :: "byte list \<Rightarrow> Encoder \<Rightarrow> Encoder" where
  "ewrite data e =
     (if eerr e \<noteq> None then e
      else if int (length (ebuffer e)) + int (length data) > MaxMessageBytes (elimits e)
        then efail limitsError e
      else e\<lparr>ebuffer := ebuffer e @ data\<rparr>)"

text \<open>Consecutive writes of one method body, in source order.\<close>

definition seqw :: "(Encoder \<Rightarrow> Encoder) list \<Rightarrow> Encoder \<Rightarrow> Encoder" where
  "seqw ws e = fold (\<lambda>w e'. w e') ws e"

definition WriteBoolean :: "bool \<Rightarrow> Encoder \<Rightarrow> Encoder" where
  "WriteBoolean v = (if v then ewrite [1] else ewrite [0])"

definition WriteSByte :: "int8 \<Rightarrow> Encoder \<Rightarrow> Encoder" where
  "WriteSByte v = ewrite [v]"

definition WriteByteValue :: "byte \<Rightarrow> Encoder \<Rightarrow> Encoder" where
  "WriteByteValue v = ewrite [v]"

definition WriteUInt16 :: "uint16 \<Rightarrow> Encoder \<Rightarrow> Encoder" where
  "WriteUInt16 v = ewrite (le_bytes 2 v)"

definition WriteInt16 :: "int16 \<Rightarrow> Encoder \<Rightarrow> Encoder" where
  "WriteInt16 v = WriteUInt16 v"

definition WriteUInt32 :: "uint32 \<Rightarrow> Encoder \<Rightarrow> Encoder" where
  "WriteUInt32 v = ewrite (le_bytes 4 v)"

definition WriteInt32 :: "int32 \<Rightarrow> Encoder \<Rightarrow> Encoder" where
  "WriteInt32 v = WriteUInt32 v"

definition WriteUInt64 :: "uint64 \<Rightarrow> Encoder \<Rightarrow> Encoder" where
  "WriteUInt64 v = ewrite (le_bytes 8 v)"

definition WriteInt64 :: "int64 \<Rightarrow> Encoder \<Rightarrow> Encoder" where
  "WriteInt64 v = WriteUInt64 v"

text \<open>\<^verbatim>\<open>math.IsNaN\<close> on the bit pattern: all exponent bits set, fraction not zero.\<close>

definition isNaN32 :: "float32 \<Rightarrow> bool" where
  "isNaN32 w \<longleftrightarrow> w AND 0x7F800000 = 0x7F800000 \<and> w AND 0x007FFFFF \<noteq> 0"

definition isNaN64 :: "float64 \<Rightarrow> bool" where
  "isNaN64 w \<longleftrightarrow> w AND 0x7FF0000000000000 = 0x7FF0000000000000 \<and> w AND 0x000FFFFFFFFFFFFF \<noteq> 0"

definition quietNaN32 :: uint32 where "quietNaN32 = 0xFFC00000"
definition quietNaN64 :: uint64 where "quietNaN64 = 0xFFF8000000000000"

definition WriteFloat :: "float32 \<Rightarrow> Encoder \<Rightarrow> Encoder" where
  "WriteFloat v = (if isNaN32 v then WriteUInt32 quietNaN32 else WriteUInt32 v)"

definition WriteDouble :: "float64 \<Rightarrow> Encoder \<Rightarrow> Encoder" where
  "WriteDouble v = (if isNaN64 v then WriteUInt64 quietNaN64 else WriteUInt64 v)"

definition WriteStatusCode :: "StatusCode \<Rightarrow> Encoder \<Rightarrow> Encoder" where
  "WriteStatusCode c = WriteUInt32 c"

definition WriteString :: "gostring \<Rightarrow> Encoder \<Rightarrow> Encoder" where
  "WriteString v e =
     (if int (length v) > MaxStringBytes (elimits e) then efail limitsError e
      else seqw [WriteInt32 (of_nat (length v)), ewrite v] e)"

definition WriteNullString :: "Encoder \<Rightarrow> Encoder" where
  "WriteNullString = WriteInt32 nullLength"

definition WriteOptionalString :: "gostring \<Rightarrow> Encoder \<Rightarrow> Encoder" where
  "WriteOptionalString v = (if v = [] then WriteNullString else WriteString v)"

definition WriteByteString :: "byte list \<Rightarrow> Encoder \<Rightarrow> Encoder" where
  "WriteByteString v e =
     (if int (length v) > MaxByteStringBytes (elimits e) then efail limitsError e
      else seqw [WriteInt32 (of_nat (length v)), ewrite v] e)"

definition WriteNullByteString :: "Encoder \<Rightarrow> Encoder" where
  "WriteNullByteString = WriteInt32 nullLength"

text \<open>\<^verbatim>\<open>Data4\<close> is an array of eight bytes, kept as eight components.\<close>

record Guid =
  Data1 :: uint32
  Data2 :: uint16
  Data3 :: uint16
  Data4 :: "byte \<times> byte \<times> byte \<times> byte \<times> byte \<times> byte \<times> byte \<times> byte"

fun data4_bytes ::
    "byte \<times> byte \<times> byte \<times> byte \<times> byte \<times> byte \<times> byte \<times> byte \<Rightarrow> byte list" where
  "data4_bytes (a, b, c, d, e, f, g, h) = [a, b, c, d, e, f, g, h]"

definition WriteGuid :: "Guid \<Rightarrow> Encoder \<Rightarrow> Encoder" where
  "WriteGuid v = seqw
     [WriteUInt32 (Data1 v), WriteUInt16 (Data2 v), WriteUInt16 (Data3 v),
      ewrite (data4_bytes (Data4 v))]"

definition WriteArrayLength :: "int \<Rightarrow> Encoder \<Rightarrow> Encoder" where
  "WriteArrayLength n e =
     (if n < 0 then efail encodingError e
      else if n > MaxArrayLength (elimits e) then efail limitsError e
      else WriteInt32 (of_int n) e)"

definition WriteNullArray :: "Encoder \<Rightarrow> Encoder" where
  "WriteNullArray = WriteInt32 nullLength"

definition EncoderEnter :: "Encoder \<Rightarrow> Encoder" where
  "EncoderEnter e =
     (if eerr e \<noteq> None then e
      else if edepth e \<ge> MaxNestingDepth (elimits e) then efail limitsError e
      else e\<lparr>edepth := edepth e + 1\<rparr>)"

definition EncoderLeave :: "Encoder \<Rightarrow> Encoder" where
  "EncoderLeave e = (if edepth e > 0 then e\<lparr>edepth := edepth e - 1\<rparr> else e)"

section \<open>The decoder\<close>

record Decoder =
  dbuffer :: "byte list"
  doffset :: nat
  dlimits :: BinaryLimits
  ddepth :: int

type_synonym 'a reader = "Decoder \<Rightarrow> go_error + 'a \<times> Decoder"

definition NewDecoder :: "byte list \<Rightarrow> BinaryLimits \<Rightarrow> go_error + Decoder" where
  "NewDecoder data L = (case validate_limits L of
       Some er \<Rightarrow> Inl er
     | None \<Rightarrow>
         if int (length data) > MaxMessageBytes L then Inl limitsError
         else Inr \<lparr>dbuffer = data, doffset = 0, dlimits = L, ddepth = 0\<rparr>)"

definition Remaining :: "Decoder \<Rightarrow> int" where
  "Remaining d = int (length (dbuffer d)) - int (doffset d)"

definition Done :: "Decoder \<Rightarrow> bool" where
  "Done d \<longleftrightarrow> Remaining d = 0"

text \<open>
  The readers' plumbing: \<open>rbind\<close> is the \<^verbatim>\<open>if err != nil { return err }\<close> after a call.
\<close>

definition rreturn :: "'a \<Rightarrow> 'a reader" where
  "rreturn v d = Inr (v, d)"

definition rfail :: "go_error \<Rightarrow> 'a reader" where
  "rfail er d = Inl er"

definition rbind :: "'a reader \<Rightarrow> ('a \<Rightarrow> 'b reader) \<Rightarrow> 'b reader" where
  "rbind r f d = (case r d of Inl er \<Rightarrow> Inl er | Inr (v, d') \<Rightarrow> f v d')"

definition dtake :: "int \<Rightarrow> byte list reader" where
  "dtake count d =
     (if count < 0 \<or> count > Remaining d then Inl decodingError
      else Inr (take (nat count) (drop (doffset d) (dbuffer d)),
                d\<lparr>doffset := doffset d + nat count\<rparr>))"

definition ReadBoolean :: "bool reader" where
  "ReadBoolean = rbind (dtake 1) (\<lambda>raw. rreturn (raw ! 0 \<noteq> 0))"

definition ReadSByte :: "int8 reader" where
  "ReadSByte = rbind (dtake 1) (\<lambda>raw. rreturn (raw ! 0))"

definition ReadByteValue :: "byte reader" where
  "ReadByteValue = rbind (dtake 1) (\<lambda>raw. rreturn (raw ! 0))"

definition ReadUInt16 :: "uint16 reader" where
  "ReadUInt16 = rbind (dtake 2) (\<lambda>raw. rreturn (le_word raw))"

definition ReadInt16 :: "int16 reader" where
  "ReadInt16 = ReadUInt16"

definition ReadUInt32 :: "uint32 reader" where
  "ReadUInt32 = rbind (dtake 4) (\<lambda>raw. rreturn (le_word raw))"

definition ReadInt32 :: "int32 reader" where
  "ReadInt32 = ReadUInt32"

definition ReadUInt64 :: "uint64 reader" where
  "ReadUInt64 = rbind (dtake 8) (\<lambda>raw. rreturn (le_word raw))"

definition ReadInt64 :: "int64 reader" where
  "ReadInt64 = ReadUInt64"

definition ReadFloat :: "float32 reader" where
  "ReadFloat = rbind ReadUInt32 (\<lambda>v. rreturn v)"

definition ReadDouble :: "float64 reader" where
  "ReadDouble = rbind ReadUInt64 (\<lambda>v. rreturn v)"

definition ReadStatusCode :: "StatusCode reader" where
  "ReadStatusCode = rbind ReadUInt32 (\<lambda>v. rreturn v)"

text \<open>A length prefix: \<^term>\<open>None\<close> is the null length.\<close>

definition readLength :: "int \<Rightarrow> int option reader" where
  "readLength bound = rbind ReadInt32 (\<lambda>raw.
     if raw = nullLength then rreturn None
     else if sint raw < 0 then rfail decodingError
     else if sint raw > bound then rfail limitsError
     else rreturn (Some (sint raw)))"

definition ReadString :: "gostring option reader" where
  "ReadString d = rbind (readLength (MaxStringBytes (dlimits d))) (\<lambda>len.
     case len of
       None \<Rightarrow> rreturn None
     | Some n \<Rightarrow> rbind (dtake n) (\<lambda>raw. rreturn (Some raw))) d"

definition ReadByteString :: "byte list option reader" where
  "ReadByteString d = rbind (readLength (MaxByteStringBytes (dlimits d))) (\<lambda>len.
     case len of
       None \<Rightarrow> rreturn None
     | Some n \<Rightarrow> rbind (dtake n) (\<lambda>raw. rreturn (Some raw))) d"

definition ReadGuid :: "Guid reader" where
  "ReadGuid =
     rbind ReadUInt32 (\<lambda>d1. rbind ReadUInt16 (\<lambda>d2. rbind ReadUInt16 (\<lambda>d3.
     rbind (dtake 8) (\<lambda>raw. rreturn
       \<lparr>Data1 = d1, Data2 = d2, Data3 = d3,
        Data4 = (raw ! 0, raw ! 1, raw ! 2, raw ! 3, raw ! 4, raw ! 5, raw ! 6, raw ! 7)\<rparr>))))"

definition ReadArrayLength :: "int \<Rightarrow> int option reader" where
  "ReadArrayLength elementBytes d = rbind (readLength (MaxArrayLength (dlimits d))) (\<lambda>len d'.
     case len of
       None \<Rightarrow> rreturn None d'
     | Some n \<Rightarrow>
         if elementBytes > 0 \<and> n * elementBytes > Remaining d' then rfail decodingError d'
         else rreturn (Some n) d') d"

definition DecoderEnter :: "unit reader" where
  "DecoderEnter d =
     (if ddepth d \<ge> MaxNestingDepth (dlimits d) then Inl limitsError
      else Inr ((), d\<lparr>ddepth := ddepth d + 1\<rparr>))"

definition DecoderLeave :: "Decoder \<Rightarrow> Decoder" where
  "DecoderLeave d = (if ddepth d > 0 then d\<lparr>ddepth := ddepth d - 1\<rparr> else d)"

section \<open>DateTime\<close>

definition dateTimeTicksPerSecond :: int where "dateTimeTicksPerSecond = 10000000"
definition dateTimeEpochOffsetSeconds :: int where "dateTimeEpochOffsetSeconds = 11644473600"
definition DateTimeMin :: int64 where "DateTimeMin = 0"
definition DateTimeMax :: int64 where "DateTimeMax = 0x7FFFFFFFFFFFFFFF"

text \<open>Nanoseconds in a second, and \<^verbatim>\<open>Unix\<close> and \<^verbatim>\<open>Nanosecond\<close> of an instant.\<close>

definition nsPerSecond :: int where "nsPerSecond = 1000000000"

definition time_Unix :: "gotime \<Rightarrow> int" where "time_Unix t = t div nsPerSecond"
definition time_Nanosecond :: "gotime \<Rightarrow> int" where "time_Nanosecond t = t mod nsPerSecond"

text \<open>The zero \<^verbatim>\<open>time.Time\<close>: January 1, year 1, 00:00:00 UTC.\<close>

definition zeroTime :: gotime where "zeroTime = - 62135596800 * nsPerSecond"

text \<open>1601-01-01 00:00:00 UTC and 9999-12-31 23:59:59 UTC.\<close>

definition dateTimeLowerBound :: gotime where
  "dateTimeLowerBound = - 11644473600 * nsPerSecond"
definition dateTimeUpperBound :: gotime where
  "dateTimeUpperBound = 253402300799 * nsPerSecond"

definition EncodeDateTime :: "gotime \<Rightarrow> int64" where
  "EncodeDateTime t =
     (if \<not> t > dateTimeLowerBound then DateTimeMin
      else if \<not> t < dateTimeUpperBound then DateTimeMax
      else let seconds = time_Unix t + dateTimeEpochOffsetSeconds
           in of_int (seconds * dateTimeTicksPerSecond + time_Nanosecond t div 100))"

definition DecodeDateTime :: "int64 \<Rightarrow> gotime" where
  "DecodeDateTime ticks =
     (if sint ticks \<le> sint DateTimeMin then dateTimeLowerBound
      else if ticks = DateTimeMax then dateTimeUpperBound
      else let seconds = sint ticks div dateTimeTicksPerSecond - dateTimeEpochOffsetSeconds;
               nanoseconds = (sint ticks mod dateTimeTicksPerSecond) * 100;
               decoded = seconds * nsPerSecond + nanoseconds
           in if decoded > dateTimeUpperBound then dateTimeUpperBound else decoded)"

definition WriteDateTime :: "gotime \<Rightarrow> Encoder \<Rightarrow> Encoder" where
  "WriteDateTime t = WriteInt64 (EncodeDateTime t)"

definition ReadDateTime :: "gotime reader" where
  "ReadDateTime = rbind ReadInt64 (\<lambda>raw. rreturn (DecodeDateTime raw))"


section \<open>What a write appends\<close>

text \<open>An encoder under limits \<open>L\<close> whose buffer respects the message bound.\<close>

definition enc_wf :: "BinaryLimits \<Rightarrow> Encoder \<Rightarrow> bool" where
  "enc_wf L e \<longleftrightarrow> elimits e = L \<and> int (length (ebuffer e)) \<le> MaxMessageBytes L"

definition emits :: "BinaryLimits \<Rightarrow> (Encoder \<Rightarrow> Encoder) \<Rightarrow> bool \<Rightarrow> byte list \<Rightarrow> bool" where
  "emits L w ok bs \<longleftrightarrow> (\<forall>e. enc_wf L e \<longrightarrow>
     (eerr e \<noteq> None \<longrightarrow> w e = e) \<and>
     enc_wf L (w e) \<and> edepth (w e) = edepth e \<and>
     (eerr e = None \<longrightarrow>
        (eerr (w e) = None \<longleftrightarrow>
           ok \<and> int (length (ebuffer e)) + int (length bs) \<le> MaxMessageBytes L)) \<and>
     (eerr (w e) = None \<longrightarrow> ebuffer (w e) = ebuffer e @ bs))"

lemma emitsD:
  assumes "emits L w ok bs" and "enc_wf L e"
  shows "eerr e \<noteq> None \<Longrightarrow> w e = e" "enc_wf L (w e)" "edepth (w e) = edepth e"
    "eerr e = None \<Longrightarrow> eerr (w e) = None \<longleftrightarrow>
       ok \<and> int (length (ebuffer e)) + int (length bs) \<le> MaxMessageBytes L"
    "eerr (w e) = None \<Longrightarrow> ebuffer (w e) = ebuffer e @ bs"
  using assms unfolding emits_def by blast+

lemma emits_ewrite [emits_intros]: "emits L (ewrite bs) True bs"
  by (auto simp: emits_def ewrite_def efail_def enc_wf_def)

lemma emits_efail [emits_intros]: "emits L (efail er) False bs"
  by (auto simp: emits_def efail_def enc_wf_def)

lemma emits_skip: "emits L (\<lambda>e. e) True []"
  by (auto simp: emits_def enc_wf_def)

lemma seqw_Nil [simp]: "seqw [] = (\<lambda>e. e)"
  by (rule ext) (simp add: seqw_def)

lemma seqw_Cons: "seqw (w # ws) = (\<lambda>e. seqw ws (w e))"
  by (rule ext) (simp add: seqw_def)

lemma emits_seqw_Nil [emits_intros]: "emits L (seqw []) True []"
  by (simp add: emits_skip)

lemma emits_comp:
  assumes "emits L w ok1 b1" and "emits L v ok2 b2"
  shows "emits L (\<lambda>e. v (w e)) (ok1 \<and> ok2) (b1 @ b2)"
  unfolding emits_def
proof (intro allI impI)
  fix e :: Encoder assume e: "enc_wf L e"
  note w = emitsD [OF assms(1) e]
  note v = emitsD [OF assms(2) w(2)]
  show "(eerr e \<noteq> None \<longrightarrow> v (w e) = e) \<and> enc_wf L (v (w e)) \<and> edepth (v (w e)) = edepth e \<and>
     (eerr e = None \<longrightarrow> (eerr (v (w e)) = None \<longleftrightarrow> (ok1 \<and> ok2) \<and>
        int (length (ebuffer e)) + int (length (b1 @ b2)) \<le> MaxMessageBytes L)) \<and>
     (eerr (v (w e)) = None \<longrightarrow> ebuffer (v (w e)) = ebuffer e @ b1 @ b2)"
  proof (cases "eerr (w e)")
    case None
    then have "eerr e = None" using w(1) by (cases "eerr e") auto
    then show ?thesis using None w v by auto
  next
    case (Some er)
    then show ?thesis using w v by auto
  qed
qed

lemma emits_seqw_Cons [emits_intros]:
  assumes "emits L w ok1 b1" and "emits L (seqw ws) ok2 b2"
  shows "emits L (seqw (w # ws)) (ok1 \<and> ok2) (b1 @ b2)"
  unfolding seqw_Cons by (rule emits_comp [OF assms])

lemma emits_If [emits_intros]:
  assumes "c \<Longrightarrow> emits L w ok1 b1" and "\<not> c \<Longrightarrow> emits L v ok2 b2"
  shows "emits L (if c then w else v) (if c then ok1 else ok2) (if c then b1 else b2)"
  using assms by simp

lemma emits_guard:
  assumes "emits L w ok bs"
  shows "emits L (\<lambda>e. if c (elimits e) then efail er e else w e) (\<not> c L \<and> ok) bs"
  using assms unfolding emits_def by (auto simp: efail_def enc_wf_def)

lemma emits_cong: "emits L w ok bs \<Longrightarrow> ok = ok' \<Longrightarrow> (ok' \<Longrightarrow> bs = bs') \<Longrightarrow> emits L w ok' bs'"
  by (cases ok') (auto simp: emits_def)

section \<open>What a reader recognises\<close>

definition pending :: "Decoder \<Rightarrow> byte list" where
  "pending d = drop (doffset d) (dbuffer d)"

definition dec_wf :: "Decoder \<Rightarrow> bool" where
  "dec_wf d \<longleftrightarrow> doffset d \<le> length (dbuffer d)"

definition advance :: "nat \<Rightarrow> Decoder \<Rightarrow> Decoder" where
  "advance n d = d\<lparr>doffset := doffset d + n\<rparr>"

definition parses :: "BinaryLimits \<Rightarrow> 'a reader \<Rightarrow> byte list \<Rightarrow> 'a \<Rightarrow> bool" where
  "parses L r bs v \<longleftrightarrow> (\<forall>d rest. dec_wf d \<longrightarrow> dlimits d = L \<longrightarrow> pending d = bs @ rest \<longrightarrow>
     r d = Inr (v, advance (length bs) d))"

lemma advance_simps [simp]:
  "dbuffer (advance n d) = dbuffer d" "dlimits (advance n d) = dlimits d"
  "doffset (advance n d) = doffset d + n" "ddepth (advance n d) = ddepth d"
  "advance 0 d = d" "advance m (advance n d) = advance (n + m) d"
  by (simp_all add: advance_def)

lemma pending_advance_drop: "pending (advance n d) = drop n (pending d)"
  by (simp add: pending_def add.commute)

lemma pending_advance: "pending d = bs @ rest \<Longrightarrow> pending (advance (length bs) d) = rest"
  by (simp add: pending_advance_drop)

lemma dec_wf_advance: "dec_wf d \<Longrightarrow> pending d = bs @ rest \<Longrightarrow> dec_wf (advance (length bs) d)"
proof -
  assume wf: "dec_wf d" and p: "pending d = bs @ rest"
  have "length (dbuffer d) - doffset d = length bs + length rest"
    using arg_cong [OF p, of length] by (simp add: pending_def)
  with wf show ?thesis by (auto simp: dec_wf_def)
qed

lemma Remaining_pending: "dec_wf d \<Longrightarrow> Remaining d = int (length (pending d))"
  by (simp add: Remaining_def pending_def dec_wf_def of_nat_diff)

lemma parsesD:
  "parses L r bs v \<Longrightarrow> dec_wf d \<Longrightarrow> dlimits d = L \<Longrightarrow> pending d = bs @ rest \<Longrightarrow>
   r d = Inr (v, advance (length bs) d)"
  unfolding parses_def by blast

lemma parses_rreturn [parses_intros]: "parses L (rreturn v) [] v"
  by (simp add: parses_def rreturn_def)

lemma parses_rbind:
  assumes "parses L r b1 v" and "parses L (f v) b2 w"
  shows "parses L (rbind r f) (b1 @ b2) w"
  unfolding parses_def
proof (intro allI impI)
  fix d rest assume d: "dec_wf d" "dlimits d = L" "pending d = (b1 @ b2) @ rest"
  have "r d = Inr (v, advance (length b1) d)"
    using assms(1) d by (auto intro: parsesD)
  moreover have "f v (advance (length b1) d) = Inr (w, advance (length b2) (advance (length b1) d))"
    using assms(2) by (rule parsesD [where rest = rest])
      (use d in \<open>auto intro: dec_wf_advance pending_advance\<close>)
  ultimately show "rbind r f d = Inr (w, advance (length (b1 @ b2)) d)"
    by (simp add: rbind_def)
qed

lemma parses_rbind_return [parses_intros]:
  "parses L r bs v \<Longrightarrow> f v = rreturn w \<Longrightarrow> parses L (rbind r f) bs w"
  using parses_rbind [of L r bs v f "[]" w] parses_rreturn [of L w] by simp

lemma parses_rbind_last: "parses L r bs v \<Longrightarrow> parses L (f v) [] w \<Longrightarrow> parses L (rbind r f) bs w"
  using parses_rbind [of L r bs v f "[]" w] by simp

lemma parses_rreturnI [parses_steps]: "v = w \<Longrightarrow> parses L (rreturn v) [] w"
  by (simp add: parses_rreturn)

lemma parses_dtake [parses_intros]: "n = int (length bs) \<Longrightarrow> parses L (dtake n) bs bs"
  by (auto simp: parses_def dtake_def Remaining_pending advance_def pending_def [symmetric])

lemma parses_limits:
  "(\<And>d. dlimits d = L \<Longrightarrow> r d = r' d) \<Longrightarrow> parses L r' bs v \<Longrightarrow> parses L r bs v"
  by (auto simp: parses_def)

section \<open>Readers that stay inside the buffer\<close>

text \<open>
  A reader never moves backwards or past the end, changes neither the buffer nor the
  limits, and is not cut short by the model.
\<close>

definition within :: "'a reader \<Rightarrow> bool" where
  "within r \<longleftrightarrow> (\<forall>d. dec_wf d \<longrightarrow> (case r d of
       Inl er \<Rightarrow> er \<noteq> OutOfFuel
     | Inr (v, d') \<Rightarrow> dbuffer d' = dbuffer d \<and> dlimits d' = dlimits d \<and> ddepth d' = ddepth d \<and>
         doffset d \<le> doffset d' \<and> dec_wf d'))"

text \<open>A reader that consumes at least one byte when it succeeds.\<close>

definition consumes :: "'a reader \<Rightarrow> bool" where
  "consumes r \<longleftrightarrow> (\<forall>d v d'. dec_wf d \<longrightarrow> r d = Inr (v, d') \<longrightarrow> doffset d < doffset d')"

lemma withinD:
  assumes "within r" and "dec_wf d" and "r d = Inr (v, d')"
  shows "dbuffer d' = dbuffer d" "dlimits d' = dlimits d" "ddepth d' = ddepth d"
    "doffset d \<le> doffset d'" "dec_wf d'"
proof -
  have "case r d of
       Inl er \<Rightarrow> er \<noteq> OutOfFuel
     | Inr (v, d') \<Rightarrow> dbuffer d' = dbuffer d \<and> dlimits d' = dlimits d \<and> ddepth d' = ddepth d \<and>
         doffset d \<le> doffset d' \<and> dec_wf d'"
    using assms(1,2) unfolding within_def by blast
  with assms(3) show "dbuffer d' = dbuffer d" "dlimits d' = dlimits d" "ddepth d' = ddepth d"
    "doffset d \<le> doffset d'" "dec_wf d'" by simp_all
qed

lemma within_no_fuel: "within r \<Longrightarrow> dec_wf d \<Longrightarrow> r d \<noteq> Inl OutOfFuel"
  unfolding within_def by fastforce

lemma within_rreturn [within_intros]: "within (rreturn v)"
  by (simp add: within_def rreturn_def)

lemma within_rfail [within_intros]: "er \<noteq> OutOfFuel \<Longrightarrow> within (rfail er)"
  by (simp add: within_def rfail_def)

lemma within_rfail_codec [within_intros]:
  "within (rfail decodingError)" "within (rfail limitsError)" "within (rfail (CodecError c))"
  by (simp_all add: within_rfail decodingError_def limitsError_def)

lemma within_case_prod [within_intros]: "(\<And>a b. within (f a b)) \<Longrightarrow> within (case p of (a, b) \<Rightarrow> f a b)"
  by (cases p) simp

lemma within_rbind [within_intros]:
  assumes "within r" and "\<And>v. within (f v)"
  shows "within (rbind r f)"
  unfolding within_def
proof (intro allI impI)
  fix d assume wf: "dec_wf d"
  show "case rbind r f d of
       Inl er \<Rightarrow> er \<noteq> OutOfFuel
     | Inr (v, d') \<Rightarrow> dbuffer d' = dbuffer d \<and> dlimits d' = dlimits d \<and> ddepth d' = ddepth d \<and>
         doffset d \<le> doffset d' \<and> dec_wf d'"
  proof (cases "r d")
    case (Inl er)
    then show ?thesis using within_no_fuel [OF assms(1) wf] by (auto simp: rbind_def)
  next
    case (Inr p)
    obtain v d1 where p: "p = (v, d1)" by (cases p)
    note d1 = withinD [OF assms(1) wf Inr [unfolded p]]
    have "case f v d1 of
       Inl er \<Rightarrow> er \<noteq> OutOfFuel
     | Inr (v, d') \<Rightarrow> dbuffer d' = dbuffer d1 \<and> dlimits d' = dlimits d1 \<and> ddepth d' = ddepth d1 \<and>
         doffset d1 \<le> doffset d' \<and> dec_wf d'"
      using assms(2) [of v] d1(5) unfolding within_def by blast
    then show ?thesis using Inr p d1 by (auto simp: rbind_def split: sum.splits)
  qed
qed

lemma within_dtake [within_intros]: "within (dtake n)"
  by (auto simp: within_def dtake_def dec_wf_def Remaining_def decodingError_def)

lemma within_If [within_intros]: "(c \<Longrightarrow> within r) \<Longrightarrow> (\<not> c \<Longrightarrow> within s) \<Longrightarrow> within (if c then r else s)"
  by simp

lemma within_case_option [within_intros]:
  "(x = None \<Longrightarrow> within r) \<Longrightarrow> (\<And>y. x = Some y \<Longrightarrow> within (s y)) \<Longrightarrow>
   within (case x of None \<Rightarrow> r | Some y \<Rightarrow> s y)"
  by (cases x) auto

lemma within_limits: "(\<And>L. within (r L)) \<Longrightarrow> within (\<lambda>d. r (dlimits d) d)"
  unfolding within_def by blast

lemma consumes_rbind:
  assumes "within r" and "consumes r" and "\<And>v. within (f v)"
  shows "consumes (rbind r f)"
  unfolding consumes_def
proof (intro allI impI)
  fix d w d2 assume wf: "dec_wf d" and e: "rbind r f d = Inr (w, d2)"
  then obtain v d1 where r: "r d = Inr (v, d1)" and f: "f v d1 = Inr (w, d2)"
    by (auto simp: rbind_def split: sum.splits)
  have "doffset d < doffset d1" using assms(2) wf r unfolding consumes_def by blast
  also have "doffset d1 \<le> doffset d2"
    using withinD(4) [OF assms(3) _ f] withinD(5) [OF assms(1) wf r] by blast
  finally show "doffset d < doffset d2" .
qed

lemma consumes_dtake: "0 < n \<Longrightarrow> consumes (dtake n)"
  by (auto simp: consumes_def dtake_def split: if_splits)


section \<open>Readers that agree while few bytes are left\<close>

text \<open>
  \<open>agree_below k r s\<close>: on decoders with fewer than \<open>k\<close> bytes left, the two readers
  return the same and behave as \<open>within\<close> demands. A recursive reader whose every
  level consumes a byte agrees with a model that bounds the recursion by the bytes
  left.
\<close>

definition behaved :: "Decoder \<Rightarrow> go_error + 'a \<times> Decoder \<Rightarrow> bool" where
  "behaved d x = (case x of
       Inl er \<Rightarrow> er \<noteq> OutOfFuel
     | Inr (v, d') \<Rightarrow> dbuffer d' = dbuffer d \<and> dlimits d' = dlimits d \<and> ddepth d' = ddepth d \<and>
         doffset d \<le> doffset d' \<and> dec_wf d')"

lemma within_behaved: "within r \<longleftrightarrow> (\<forall>d. dec_wf d \<longrightarrow> behaved d (r d))"
  by (simp add: within_def behaved_def)

definition agree_below :: "nat \<Rightarrow> 'a reader \<Rightarrow> 'a reader \<Rightarrow> bool" where
  "agree_below k r s \<longleftrightarrow>
     (\<forall>d. dec_wf d \<longrightarrow> length (pending d) < k \<longrightarrow> r d = s d \<and> behaved d (r d))"

named_theorems agree_intros \<open>introduction rules for agreement below a bound\<close>

lemma agreeD:
  assumes "agree_below k r s" and "dec_wf d" and "length (pending d) < k"
  shows "r d = s d" "behaved d (r d)"
  using assms unfolding agree_below_def by blast+

lemma agree_within: "within r \<Longrightarrow> agree_below k r r"
  by (simp add: agree_below_def within_behaved)

lemma agree_zero: "agree_below 0 r s"
  by (simp add: agree_below_def)

lemma behaved_pending:
  "behaved d (Inr (v, d')) \<Longrightarrow> length (pending d') \<le> length (pending d)"
  by (auto simp: behaved_def pending_def)

lemma behaved_trans:
  "behaved d (Inr (v, d1)) \<Longrightarrow> behaved d1 x \<Longrightarrow> behaved d x"
  unfolding behaved_def by (cases x) auto

lemma agree_rbind [agree_intros]:
  assumes "agree_below k r s" and "\<And>v. agree_below k (f v) (g v)"
  shows "agree_below k (rbind r f) (rbind s g)"
  unfolding agree_below_def
proof (intro allI impI)
  fix d assume d: "dec_wf d" "length (pending d) < k"
  then have r: "r d = s d" "behaved d (r d)" using assms(1) by (auto simp: agree_below_def)
  show "rbind r f d = rbind s g d \<and> behaved d (rbind r f d)"
  proof (cases "r d")
    case (Inl er)
    then show ?thesis using r by (simp add: rbind_def behaved_def)
  next
    case (Inr p)
    obtain v d1 where p: "p = (v, d1)" by (cases p)
    have b: "behaved d (Inr (v, d1))" using r(2) Inr p by simp
    then have "dec_wf d1" "length (pending d1) < k"
      using d behaved_pending [OF b] by (auto simp: behaved_def)
    then have fg: "f v d1 = g v d1" "behaved d1 (f v d1)"
      using assms(2) [of v] by (auto simp: agree_below_def)
    show ?thesis using Inr p r(1) fg(1) behaved_trans [OF b fg(2)] by (simp add: rbind_def)
  qed
qed

lemma agree_consume:
  assumes "within r" and "consumes r" and "\<And>v. agree_below k (f v) (g v)"
  shows "agree_below (Suc k) (rbind r f) (rbind r g)"
  unfolding agree_below_def
proof (intro allI impI)
  fix d assume d: "dec_wf d" "length (pending d) < Suc k"
  have r: "behaved d (r d)" using assms(1) d(1) by (simp add: within_behaved)
  show "rbind r f d = rbind r g d \<and> behaved d (rbind r f d)"
  proof (cases "r d")
    case (Inl er)
    then show ?thesis using r by (simp add: rbind_def behaved_def)
  next
    case (Inr p)
    obtain v d1 where p: "p = (v, d1)" by (cases p)
    have b: "behaved d (Inr (v, d1))" using r Inr p by simp
    have "doffset d < doffset d1" using assms(2) d(1) Inr p unfolding consumes_def by blast
    then have "dec_wf d1" "length (pending d1) < k"
      using d b by (auto simp: behaved_def pending_def dec_wf_def)
    then have fg: "f v d1 = g v d1" "behaved d1 (f v d1)"
      using assms(3) [of v] by (auto simp: agree_below_def)
    show ?thesis using Inr p fg(1) behaved_trans [OF b fg(2)] by (simp add: rbind_def)
  qed
qed

lemma agree_mono: "agree_below k r s \<Longrightarrow> j \<le> k \<Longrightarrow> agree_below j r s"
  by (auto simp: agree_below_def)

lemma agree_If [agree_intros]:
  "(c \<Longrightarrow> agree_below k r s) \<Longrightarrow> (\<not> c \<Longrightarrow> agree_below k r' s') \<Longrightarrow>
   agree_below k (if c then r else r') (if c then s else s')"
  by simp

lemma agree_case_option [agree_intros]:
  "(x = None \<Longrightarrow> agree_below k r s) \<Longrightarrow> (\<And>y. x = Some y \<Longrightarrow> agree_below k (f y) (g y)) \<Longrightarrow>
   agree_below k (case x of None \<Rightarrow> r | Some y \<Rightarrow> f y) (case x of None \<Rightarrow> s | Some y \<Rightarrow> g y)"
  by (cases x) auto

end
