(* ===== verification/Codec.thy ===== *)
theory Codec
  imports Binary
begin

text \<open>
  The interface between a writer and a reader of one UA type, and the primitive
  types of \<^verbatim>\<open>src/internal/opcua/binary.go\<close> as its instances. \<open>wire\<close> is the byte
  string OPC 10000-6 gives a value, \<open>ok\<close> the values the codec accepts under its
  limits, and \<open>norm\<close> what a reader makes of the encoding of a value: the value
  itself, up to the normalisations the encoding prescribes.
\<close>

locale ua_codec_on =
  fixes wr :: "'a \<Rightarrow> Encoder \<Rightarrow> Encoder"
    and rd :: "'a reader"
    and wire :: "'a \<Rightarrow> byte list"
    and ok :: "BinaryLimits \<Rightarrow> 'a \<Rightarrow> bool"
    and norm :: "'a \<Rightarrow> 'a"
    and readable :: "BinaryLimits \<Rightarrow> 'a \<Rightarrow> bool"
  assumes on_emits: "emits L (wr v) (ok L v) (wire v)"
    and on_parses: "validate_limits L = None \<Longrightarrow> ok L v \<Longrightarrow> readable L v \<Longrightarrow> parses L rd (wire v) (norm v)"
    and on_within: "within rd"
begin

lemma fresh_success:
  assumes "NewEncoder L = Inr e"
  shows "Bytes (wr v e) = Inr bs \<longleftrightarrow> ok L v \<and> int (length (wire v)) \<le> MaxMessageBytes L \<and> bs = wire v"
proof -
  have e: "enc_wf L e" "eerr e = None" "ebuffer e = []"
    using assms by (auto simp: NewEncoder_def enc_wf_def validate_limits_def split: if_splits)
  note w = emitsD [OF on_emits [of L v] e(1)]
  show ?thesis
    using w(4,5) e by (auto simp: Bytes_def split: option.splits)
qed

lemma roundtrip_on:
  assumes "NewEncoder L = Inr e" and "Bytes (wr v e) = Inr bs" and "readable L v"
  shows "\<exists>d d'. NewDecoder bs L = Inr d \<and> rd d = Inr (norm v, d') \<and> Done d'"
proof -
  have L: "validate_limits L = None"
    using assms(1) by (auto simp: NewEncoder_def split: option.splits)
  have bs: "ok L v" "int (length (wire v)) \<le> MaxMessageBytes L" "bs = wire v"
    using assms fresh_success by auto
  let ?d = "\<lparr>dbuffer = bs, doffset = 0, dlimits = L, ddepth = 0\<rparr>"
  have "NewDecoder bs L = Inr ?d"
    using L bs by (simp add: NewDecoder_def)
  moreover have "rd ?d = Inr (norm v, advance (length (wire v)) ?d)"
    by (rule parsesD [OF on_parses [OF L bs(1) assms(3)], where rest = "[]"])
      (simp_all add: dec_wf_def pending_def bs)
  moreover have "Done (advance (length (wire v)) ?d)"
    by (simp add: Done_def Remaining_def bs)
  ultimately show ?thesis by blast
qed

lemma prefix_free_on:
  assumes L: "validate_limits L = None" and v: "ok L v" "readable L v" and w: "ok L w" "readable L w"
    and eq: "wire v @ x = wire w @ y"
  shows "norm v = norm w \<and> wire v = wire w"
proof -
  let ?d = "\<lparr>dbuffer = wire v @ x, doffset = 0, dlimits = L, ddepth = 0\<rparr>"
  have "rd ?d = Inr (norm v, advance (length (wire v)) ?d)"
    by (rule parsesD [OF on_parses [OF L v], where rest = x]) (simp_all add: dec_wf_def pending_def)
  moreover have "rd ?d = Inr (norm w, advance (length (wire w)) ?d)"
    by (rule parsesD [OF on_parses [OF L w], where rest = y]) (simp_all add: dec_wf_def pending_def eq)
  ultimately have "norm v = norm w" and "length (wire v) = length (wire w)"
    by (auto dest: arg_cong [where f = doffset])
  with eq show ?thesis by (auto simp: append_eq_append_conv)
qed

end

text \<open>
  Most readers take back everything their writer accepts. The Variant reader does
  not: its writer accepts arrays and dimensions that the reader refuses, which is why
  the general interface has \<open>readable\<close>.
\<close>

locale ua_codec =
  fixes wr :: "'a \<Rightarrow> Encoder \<Rightarrow> Encoder"
    and rd :: "'a reader"
    and wire :: "'a \<Rightarrow> byte list"
    and ok :: "BinaryLimits \<Rightarrow> 'a \<Rightarrow> bool"
    and norm :: "'a \<Rightarrow> 'a"
  assumes wr_emits: "emits L (wr v) (ok L v) (wire v)"
    and rd_parses: "validate_limits L = None \<Longrightarrow> ok L v \<Longrightarrow> parses L rd (wire v) (norm v)"
    and rd_within: "within rd"

sublocale ua_codec \<subseteq> general: ua_codec_on wr rd wire ok norm "\<lambda>_ _. True"
  by unfold_locales (auto intro: wr_emits rd_parses rd_within)

context ua_codec
begin

lemmas roundtrip = general.roundtrip_on [OF _ _ TrueI]
lemmas prefix_free = general.prefix_free_on [OF _ _ TrueI _ TrueI]

end

text \<open>
  A \<^verbatim>\<open>for\<close> loop over the elements of a slice, writing each, and the loop that reads a
  given number of elements.
\<close>

definition write_each :: "('a \<Rightarrow> Encoder \<Rightarrow> Encoder) \<Rightarrow> 'a list \<Rightarrow> Encoder \<Rightarrow> Encoder" where
  "write_each wr vs = fold wr vs"

primrec read_count :: "'a reader \<Rightarrow> nat \<Rightarrow> 'a list reader" where
  "read_count rd 0 = rreturn []"
| "read_count rd (Suc n) = rbind rd (\<lambda>v. rbind (read_count rd n) (\<lambda>vs. rreturn (v # vs)))"

lemma emits_write_each [emits_intros]:
  assumes "\<And>v. v \<in> set vs \<Longrightarrow> emits L (wr v) (ok v) (wire v)"
  shows "emits L (write_each wr vs) (list_all ok vs) (concat (map wire vs))"
  using assms
proof (induction vs)
  case Nil
  show ?case by (simp add: write_each_def emits_skip id_def)
next
  case (Cons v vs)
  have "emits L (\<lambda>e. write_each wr vs (wr v e)) (ok v \<and> list_all ok vs) (wire v @ concat (map wire vs))"
    by (rule emits_comp) (use Cons in auto)
  then show ?case by (simp add: write_each_def comp_def)
qed

lemma parses_read_count:
  assumes "\<And>v. v \<in> set vs \<Longrightarrow> parses L rd (wire v) (norm v)"
  shows "parses L (read_count rd (length vs)) (concat (map wire vs)) (map norm vs)"
  using assms
proof (induction vs)
  case Nil
  show ?case by (simp add: parses_rreturn)
next
  case (Cons v vs)
  have "parses L (rbind (read_count rd (length vs)) (\<lambda>us. rreturn (norm v # us)))
      (concat (map wire vs)) (norm v # map norm vs)"
    by (rule parses_rbind_return) (use Cons in auto)
  then show ?case
    by (auto intro!: parses_rbind Cons.prems)
qed

lemma within_read_count [within_intros]: "within rd \<Longrightarrow> within (read_count rd n)"
  by (induction n) (auto intro!: within_intros)


section \<open>The fixed-width types\<close>

lemma parses_le16 [parses_intros]: "parses L ReadUInt16 (le_bytes 2 v) v"
  unfolding ReadUInt16_def by (rule parses_rbind_return [OF parses_dtake]) simp_all

lemma parses_le32 [parses_intros]: "parses L ReadUInt32 (le_bytes 4 v) v"
  unfolding ReadUInt32_def by (rule parses_rbind_return [OF parses_dtake]) simp_all

lemma parses_le64 [parses_intros]: "parses L ReadUInt64 (le_bytes 8 v) v"
  unfolding ReadUInt64_def by (rule parses_rbind_return [OF parses_dtake]) simp_all

lemma parses_byte [parses_intros]: "parses L ReadByteValue [v] v"
  unfolding ReadByteValue_def by (rule parses_rbind_return [OF parses_dtake]) simp_all

lemma parses_byte_bind [parses_steps]:
  "parses L (f b) bs v \<Longrightarrow> parses L (rbind ReadByteValue f) (b # bs) v"
  using parses_rbind [OF parses_byte, of L f b bs v] by simp

lemma parses_bool: "parses L ReadBoolean [v] (v \<noteq> 0)"
  unfolding ReadBoolean_def by (rule parses_rbind_return [OF parses_dtake]) simp_all

lemma within_fixed [within_intros]:
  "within ReadBoolean" "within ReadSByte" "within ReadByteValue" "within ReadUInt16"
  "within ReadInt16" "within ReadUInt32" "within ReadInt32" "within ReadUInt64"
  "within ReadInt64" "within ReadFloat" "within ReadDouble" "within ReadStatusCode"
  "within ReadGuid" "within ReadDateTime"
  unfolding ReadBoolean_def ReadSByte_def ReadByteValue_def ReadUInt16_def ReadInt16_def
    ReadUInt32_def ReadInt32_def ReadUInt64_def ReadInt64_def ReadFloat_def ReadDouble_def
    ReadStatusCode_def ReadGuid_def ReadDateTime_def
  by (intro within_intros)+

lemma consumes_ReadByteValue: "consumes ReadByteValue"
  unfolding ReadByteValue_def by (intro consumes_rbind within_intros consumes_dtake) simp

abbreviation always_ok :: "BinaryLimits \<Rightarrow> 'a \<Rightarrow> bool" where
  "always_ok L v \<equiv> True"

definition bool_wire :: "bool \<Rightarrow> byte list" where
  "bool_wire b = [if b then 1 else 0]"

interpretation boolean_codec: ua_codec WriteBoolean ReadBoolean bool_wire always_ok id
proof unfold_locales
  show "emits L (WriteBoolean v) True (bool_wire v)" for L v
    by (simp add: WriteBoolean_def bool_wire_def emits_ewrite)
  show "parses L ReadBoolean (bool_wire v) (id v)" for L v
    using parses_bool [of L 1] parses_bool [of L 0] by (simp add: bool_wire_def)
qed (rule within_intros)

interpretation sbyte_codec: ua_codec WriteSByte ReadSByte "\<lambda>v. [v]" always_ok id
  by unfold_locales (auto simp: WriteSByte_def ReadSByte_def
      intro!: emits_intros within_intros parses_rbind_return parses_dtake)

interpretation byte_codec: ua_codec WriteByteValue ReadByteValue "\<lambda>v. [v]" always_ok id
  by unfold_locales (auto simp: WriteByteValue_def intro!: emits_intros within_intros parses_intros)

interpretation uint16_codec: ua_codec WriteUInt16 ReadUInt16 "le_bytes 2" always_ok id
  by unfold_locales (auto simp: WriteUInt16_def intro!: emits_ewrite within_fixed parses_le16)

interpretation int16_codec: ua_codec WriteInt16 ReadInt16 "le_bytes 2" always_ok id
  unfolding WriteInt16_def ReadInt16_def by (rule uint16_codec.ua_codec_axioms)

interpretation uint32_codec: ua_codec WriteUInt32 ReadUInt32 "le_bytes 4" always_ok id
  by unfold_locales (auto simp: WriteUInt32_def intro!: emits_ewrite within_fixed parses_le32)

interpretation int32_codec: ua_codec WriteInt32 ReadInt32 "le_bytes 4" always_ok id
  unfolding WriteInt32_def ReadInt32_def by (rule uint32_codec.ua_codec_axioms)

interpretation uint64_codec: ua_codec WriteUInt64 ReadUInt64 "le_bytes 8" always_ok id
  by unfold_locales (auto simp: WriteUInt64_def intro!: emits_ewrite within_fixed parses_le64)

interpretation int64_codec: ua_codec WriteInt64 ReadInt64 "le_bytes 8" always_ok id
  unfolding WriteInt64_def ReadInt64_def by (rule uint64_codec.ua_codec_axioms)

interpretation statuscode_codec: ua_codec WriteStatusCode ReadStatusCode "le_bytes 4" always_ok id
  unfolding WriteStatusCode_def ReadStatusCode_def
  by unfold_locales (auto simp: WriteUInt32_def intro!: emits_ewrite within_intros parses_rbind_return parses_le32)

definition float_norm :: "float32 \<Rightarrow> float32" where
  "float_norm v = (if isNaN32 v then quietNaN32 else v)"

definition double_norm :: "float64 \<Rightarrow> float64" where
  "double_norm v = (if isNaN64 v then quietNaN64 else v)"

interpretation float_codec:
  ua_codec WriteFloat ReadFloat "\<lambda>v. le_bytes 4 (float_norm v)" always_ok float_norm
  by unfold_locales
    (auto simp: WriteFloat_def ReadFloat_def float_norm_def WriteUInt32_def
      intro!: emits_ewrite within_intros parses_rbind_return parses_le32)

interpretation double_codec:
  ua_codec WriteDouble ReadDouble "\<lambda>v. le_bytes 8 (double_norm v)" always_ok double_norm
  by unfold_locales
    (auto simp: WriteDouble_def ReadDouble_def double_norm_def WriteUInt64_def
      intro!: emits_ewrite within_intros parses_rbind_return parses_le64)

definition datetime_norm :: "gotime \<Rightarrow> gotime" where
  "datetime_norm t = DecodeDateTime (EncodeDateTime t)"

interpretation datetime_codec:
  ua_codec WriteDateTime ReadDateTime "\<lambda>t. le_bytes 8 (EncodeDateTime t)" always_ok datetime_norm
  by unfold_locales
    (auto simp: WriteDateTime_def ReadDateTime_def datetime_norm_def WriteInt64_def ReadInt64_def
      WriteUInt64_def intro!: emits_ewrite within_intros parses_rbind_return parses_le64)

lemmas scalar_emits [emits_intros] =
  boolean_codec.wr_emits sbyte_codec.wr_emits byte_codec.wr_emits uint16_codec.wr_emits
  int16_codec.wr_emits uint32_codec.wr_emits int32_codec.wr_emits uint64_codec.wr_emits
  int64_codec.wr_emits statuscode_codec.wr_emits float_codec.wr_emits double_codec.wr_emits
  datetime_codec.wr_emits

definition guid_wire :: "Guid \<Rightarrow> byte list" where
  "guid_wire g = le_bytes 4 (Data1 g) @ le_bytes 2 (Data2 g) @ le_bytes 2 (Data3 g) @ data4_bytes (Data4 g)"

lemma length_data4_bytes [simp]: "length (data4_bytes x) = 8"
  by (cases x) auto

lemma data4_of_bytes:
  "r = data4_bytes x \<Longrightarrow> (r ! 0, r ! 1, r ! 2, r ! 3, r ! 4, r ! 5, r ! 6, r ! 7) = x"
  by (cases x rule: data4_bytes.cases) simp

lemma parses_guid: "parses L ReadGuid (guid_wire g) g"
  unfolding ReadGuid_def guid_wire_def
proof (intro parses_rbind [OF parses_le32] parses_rbind [OF parses_le16])
  let ?r = "data4_bytes (Data4 g)"
  show "parses L (rbind (dtake 8) (\<lambda>raw. rreturn
      \<lparr>Data1 = Data1 g, Data2 = Data2 g, Data3 = Data3 g,
       Data4 = (raw ! 0, raw ! 1, raw ! 2, raw ! 3, raw ! 4, raw ! 5, raw ! 6, raw ! 7)\<rparr>)) ?r g"
  proof (rule parses_rbind_return)
    show "parses L (dtake 8) ?r ?r" by (rule parses_dtake) simp
    have "\<lparr>Data1 = Data1 g, Data2 = Data2 g, Data3 = Data3 g, Data4 = Data4 g\<rparr> = g"
      by (cases g) simp
    then show "rreturn \<lparr>Data1 = Data1 g, Data2 = Data2 g, Data3 = Data3 g,
       Data4 = (?r ! 0, ?r ! 1, ?r ! 2, ?r ! 3, ?r ! 4, ?r ! 5, ?r ! 6, ?r ! 7)\<rparr> = rreturn g"
      by (simp only: data4_of_bytes [OF refl])
  qed
qed

interpretation guid_codec: ua_codec WriteGuid ReadGuid guid_wire always_ok id
proof unfold_locales
  show "emits L (WriteGuid v) True (guid_wire v)" for L v
    unfolding WriteGuid_def guid_wire_def
    by (rule emits_cong, (rule emits_intros)+) simp_all
qed (auto intro: parses_guid within_intros)

section \<open>Strings and byte strings\<close>

lemma sint_of_nat32: "int n \<le> MaxInt32 \<Longrightarrow> sint (of_nat n :: 32 word) = int n"
  by (simp add: MaxInt32_def signed_of_nat signed_take_bit_int_eq_self)

lemma of_nat32_not_null: "int n \<le> MaxInt32 \<Longrightarrow> (of_nat n :: 32 word) \<noteq> nullLength"
proof
  assume n: "int n \<le> MaxInt32" and "(of_nat n :: 32 word) = nullLength"
  then have "sint (of_nat n :: 32 word) = - 1" by (simp add: nullLength_def)
  with sint_of_nat32 [OF n] show False by simp
qed

lemma parses_readLength:
  assumes "int n \<le> bound" and "bound \<le> MaxInt32"
  shows "parses L (readLength bound) (le_bytes 4 (of_nat n :: 32 word)) (Some (int n))"
  unfolding readLength_def ReadInt32_def
  by (rule parses_rbind_return [OF parses_le32])
    (use assms in \<open>simp add: sint_of_nat32 of_nat32_not_null\<close>)

lemma parses_readLength_null: "parses L (readLength bound) (le_bytes 4 nullLength) None"
  unfolding readLength_def ReadInt32_def by (rule parses_rbind_return [OF parses_le32]) simp

lemma validated_bounds:
  assumes "validate_limits L = None"
  shows "0 < MaxMessageBytes L" "MaxStringBytes L \<le> MaxInt32" "MaxByteStringBytes L \<le> MaxInt32"
    "MaxArrayLength L \<le> MaxInt32" "MaxMessageBytes L \<le> MaxInt32"
    "0 < MaxStringBytes L" "0 < MaxByteStringBytes L" "0 < MaxArrayLength L"
    "minimumNestingDepth \<le> MaxNestingDepth L"
  using assms by (auto simp: validate_limits_def split: if_splits)

text \<open>The wire form that String, ByteString and XmlElement share.\<close>

definition lenbytes_wire :: "byte list \<Rightarrow> byte list" where
  "lenbytes_wire s = le_bytes 4 (of_nat (length s) :: 32 word) @ s"

definition string_ok :: "BinaryLimits \<Rightarrow> gostring \<Rightarrow> bool" where
  "string_ok L s \<longleftrightarrow> int (length s) \<le> MaxStringBytes L"

definition bytestring_ok :: "BinaryLimits \<Rightarrow> byte list \<Rightarrow> bool" where
  "bytestring_ok L s \<longleftrightarrow> int (length s) \<le> MaxByteStringBytes L"

lemma parses_lenbytes:
  assumes "int (length s) \<le> bound" and "bound \<le> MaxInt32"
  shows "parses L (rbind (readLength bound) (\<lambda>len. case len of
       None \<Rightarrow> rreturn None | Some n \<Rightarrow> rbind (dtake n) (\<lambda>raw. rreturn (Some raw))))
     (lenbytes_wire s) (Some s)"
  unfolding lenbytes_wire_def
  by (rule parses_rbind [OF parses_readLength [OF assms]])
    (auto intro!: parses_rbind_return parses_dtake)

lemma parses_ReadString [parses_intros]:
  assumes "validate_limits L = None" and "string_ok L s"
  shows "parses L ReadString (lenbytes_wire s) (Some s)"
  by (rule parses_limits [where r' = "rbind (readLength (MaxStringBytes L)) _"])
    (use assms in \<open>auto simp: ReadString_def string_ok_def intro!: parses_lenbytes dest: validated_bounds\<close>)

lemma parses_ReadByteString [parses_intros]:
  assumes "validate_limits L = None" and "bytestring_ok L s"
  shows "parses L ReadByteString (lenbytes_wire s) (Some s)"
  by (rule parses_limits [where r' = "rbind (readLength (MaxByteStringBytes L)) _"])
    (use assms in \<open>auto simp: ReadByteString_def bytestring_ok_def intro!: parses_lenbytes dest: validated_bounds\<close>)

lemma parses_lenbytes_null:
  "parses L (rbind (readLength bound) (\<lambda>len. case len of
       None \<Rightarrow> rreturn None | Some n \<Rightarrow> rbind (dtake n) (\<lambda>raw. rreturn (Some raw))))
     (le_bytes 4 nullLength) None"
  by (rule parses_rbind_return [OF parses_readLength_null]) simp

lemma parses_null_strings [parses_intros]:
  "parses L ReadString (le_bytes 4 nullLength) None"
  "parses L ReadByteString (le_bytes 4 nullLength) None"
  by (rule parses_limits [OF _ parses_lenbytes_null], simp add: ReadString_def)
    (rule parses_limits [OF _ parses_lenbytes_null], simp add: ReadByteString_def)

lemma within_readLength [within_intros]: "within (readLength bound)"
  unfolding readLength_def by (intro within_intros)

lemma within_strings [within_intros]: "within ReadString" "within ReadByteString"
proof -
  have w: "within (rbind (readLength b) (\<lambda>len. case len of
       None \<Rightarrow> rreturn None | Some n \<Rightarrow> rbind (dtake n) (\<lambda>raw. rreturn (Some raw))))" for b
    by (intro within_intros)
  show "within ReadString"
    unfolding ReadString_def by (rule within_limits [where r = "\<lambda>L. rbind (readLength (MaxStringBytes L)) _"]) (rule w)
  show "within ReadByteString"
    unfolding ReadByteString_def by (rule within_limits [where r = "\<lambda>L. rbind (readLength (MaxByteStringBytes L)) _"]) (rule w)
qed

text \<open>
  Most callers treat a null string as the empty one: \<^verbatim>\<open>if isNull { value = "" }\<close>.
\<close>

definition orEmpty :: "'a list option reader \<Rightarrow> 'a list reader" where
  "orEmpty r = rbind r (\<lambda>v. rreturn (case v of None \<Rightarrow> [] | Some s \<Rightarrow> s))"

lemma within_orEmpty [within_intros]: "within r \<Longrightarrow> within (orEmpty r)"
  unfolding orEmpty_def by (intro within_intros)

lemma emits_WriteString [emits_intros]: "emits L (WriteString s) (string_ok L s) (lenbytes_wire s)"
proof -
  have "emits L (seqw [WriteInt32 (of_nat (length s)), ewrite s]) True (lenbytes_wire s)"
    unfolding lenbytes_wire_def by (rule emits_cong, (rule emits_intros)+) simp_all
  from emits_guard [OF this, of "\<lambda>L. int (length s) > MaxStringBytes L" limitsError]
  show ?thesis unfolding WriteString_def [abs_def] by (rule emits_cong) (auto simp: string_ok_def)
qed

lemma emits_WriteByteString [emits_intros]:
  "emits L (WriteByteString s) (bytestring_ok L s) (lenbytes_wire s)"
proof -
  have "emits L (seqw [WriteInt32 (of_nat (length s)), ewrite s]) True (lenbytes_wire s)"
    unfolding lenbytes_wire_def by (rule emits_cong, (rule emits_intros)+) simp_all
  from emits_guard [OF this, of "\<lambda>L. int (length s) > MaxByteStringBytes L" limitsError]
  show ?thesis unfolding WriteByteString_def [abs_def] by (rule emits_cong) (auto simp: bytestring_ok_def)
qed

interpretation string_codec: ua_codec WriteString "orEmpty ReadString" lenbytes_wire string_ok id
  by unfold_locales
    (auto simp: orEmpty_def intro!: emits_WriteString within_intros parses_rbind_return parses_ReadString)

interpretation bytestring_codec:
  ua_codec WriteByteString "orEmpty ReadByteString" lenbytes_wire bytestring_ok id
  by unfold_locales
    (auto simp: orEmpty_def intro!: emits_WriteByteString within_intros parses_rbind_return parses_ReadByteString)

lemmas primitive_parses =
  uint16_codec.rd_parses [simplified] int16_codec.rd_parses [simplified]
  uint32_codec.rd_parses [simplified] int32_codec.rd_parses [simplified]
  uint64_codec.rd_parses [simplified] int64_codec.rd_parses [simplified]
  statuscode_codec.rd_parses [simplified] float_codec.rd_parses [simplified]
  double_codec.rd_parses [simplified] datetime_codec.rd_parses [simplified]
  guid_codec.rd_parses [simplified] string_codec.rd_parses [simplified]
  bytestring_codec.rd_parses [simplified]

lemmas primitive_steps [parses_steps] =
  primitive_parses [THEN parses_rbind] primitive_parses [THEN parses_rbind_last]

lemmas string_emits [emits_intros] = guid_codec.wr_emits


section \<open>Arrays\<close>

text \<open>
  \<^verbatim>\<open>ReadArrayLength\<close> checks the count against the bytes that remain, so it is
  recognised together with the elements that follow it.
\<close>

lemma parses_ReadArrayLength:
  assumes L: "validate_limits L = None" and n: "int n \<le> MaxArrayLength L"
    and size: "k * int n \<le> int (length bs)" and f: "parses L (f (Some (int n))) bs v"
  shows "parses L (rbind (ReadArrayLength k) f) (le_bytes 4 (of_nat n :: 32 word) @ bs) v"
  unfolding parses_def
proof (intro allI impI)
  let ?w = "le_bytes 4 (of_nat n :: 32 word)"
  fix d rest assume d: "dec_wf d" "dlimits d = L" "pending d = (?w @ bs) @ rest"
  let ?d = "advance (length ?w) d"
  have len: "readLength (MaxArrayLength (dlimits d)) d = Inr (Some (int n), ?d)"
    by (rule parsesD [OF parses_readLength]) (use n d validated_bounds [OF L] in auto)
  have wf: "dec_wf ?d" by (rule dec_wf_advance) (use d in auto)
  have p: "pending ?d = bs @ rest" by (rule pending_advance) (use d in auto)
  have "int n * k \<le> Remaining ?d"
    unfolding Remaining_pending [OF wf] p using size by (simp add: mult.commute)
  then have "ReadArrayLength k d = Inr (Some (int n), ?d)"
    by (simp add: ReadArrayLength_def rbind_def len rreturn_def)
  moreover have "f (Some (int n)) ?d = Inr (v, advance (length bs) ?d)"
    by (rule parsesD [OF f wf _ p]) (simp add: d)
  ultimately show "rbind (ReadArrayLength k) f d = Inr (v, advance (length (?w @ bs)) d)"
    by (simp add: rbind_def)
qed

lemma parses_ReadArrayLength_null:
  assumes "parses L (f None) bs v"
  shows "parses L (rbind (ReadArrayLength k) f) (le_bytes 4 nullLength @ bs) v"
proof -
  have "parses L (rbind (readLength (MaxArrayLength L)) (\<lambda>len d'. case len of
       None \<Rightarrow> rreturn None d'
     | Some n \<Rightarrow> if k > 0 \<and> n * k > Remaining d' then rfail decodingError d' else rreturn (Some n) d'))
     (le_bytes 4 nullLength) None"
    by (rule parses_rbind_return [OF parses_readLength_null]) (auto simp: fun_eq_iff)
  then have "parses L (ReadArrayLength k) (le_bytes 4 nullLength) None"
    by (rule parses_limits [rotated]) (simp add: ReadArrayLength_def)
  then show ?thesis using assms by (rule parses_rbind)
qed

lemma within_ReadArrayLength [within_intros]: "within (ReadArrayLength k)"
proof -
  have "within (\<lambda>d'. case len of
       None \<Rightarrow> rreturn None d'
     | Some n \<Rightarrow> if k > 0 \<and> n * k > Remaining d' then rfail decodingError d' else rreturn (Some n) d')" for len
    by (cases len) (auto simp: within_def rreturn_def rfail_def decodingError_def)
  then show ?thesis
    unfolding ReadArrayLength_def
    by (intro within_limits [where r = "\<lambda>L. rbind (readLength (MaxArrayLength L)) _"] within_intros)
qed

lemma emits_WriteArrayLength [emits_intros]:
  "emits L (WriteArrayLength (int n)) (int n \<le> MaxArrayLength L) (le_bytes 4 (of_nat n :: 32 word))"
proof -
  have "emits L (WriteInt32 (of_nat n)) True (le_bytes 4 (of_nat n :: 32 word))"
    by (rule emits_intros)
  from emits_guard [OF this, of "\<lambda>L. int n > MaxArrayLength L" limitsError]
  have "emits L (\<lambda>e. if int n > MaxArrayLength (elimits e) then efail limitsError e
       else WriteInt32 (of_nat n) e) (int n \<le> MaxArrayLength L) (le_bytes 4 (of_nat n :: 32 word))"
    by (rule emits_cong) auto
  then show ?thesis by (simp add: WriteArrayLength_def [abs_def] cong: if_cong)
qed

lemma emits_nulls [emits_intros]:
  "emits L WriteNullArray True (le_bytes 4 nullLength)"
  "emits L WriteNullString True (le_bytes 4 nullLength)"
  "emits L WriteNullByteString True (le_bytes 4 nullLength)"
  unfolding WriteNullArray_def WriteNullString_def WriteNullByteString_def by (rule emits_intros)+

text \<open>
  A length-prefixed array, as the bodies of most service messages have them: the loop that
  writes the elements of a slice, the one that reads them, and what each makes of a nil
  slice. \<open>read_array\<close> keeps the difference between a null and an empty array; \<open>read_list\<close>
  is for the slices of which the program only uses the elements.
\<close>

definition write_array :: "('a \<Rightarrow> Encoder \<Rightarrow> Encoder) \<Rightarrow> 'a list \<Rightarrow> Encoder \<Rightarrow> Encoder" where
  "write_array wr vs = seqw [WriteArrayLength (int (length vs)), write_each wr vs]"

definition write_nilable :: "('a \<Rightarrow> Encoder \<Rightarrow> Encoder) \<Rightarrow> 'a list option \<Rightarrow> Encoder \<Rightarrow> Encoder" where
  "write_nilable wr t = (case t of None \<Rightarrow> WriteNullArray | Some vs \<Rightarrow> write_array wr vs)"

definition read_array :: "int \<Rightarrow> 'a reader \<Rightarrow> 'a list option reader" where
  "read_array k rd = rbind (ReadArrayLength k) (\<lambda>len. case len of
     None \<Rightarrow> rreturn None
   | Some n \<Rightarrow> rbind (read_count rd (nat n)) (\<lambda>xs. rreturn (Some xs)))"

definition read_list :: "int \<Rightarrow> 'a reader \<Rightarrow> 'a list reader" where
  "read_list k rd = rbind (read_array k rd) (\<lambda>t. rreturn (case t of None \<Rightarrow> [] | Some xs \<Rightarrow> xs))"

definition array_wire :: "('a \<Rightarrow> byte list) \<Rightarrow> 'a list \<Rightarrow> byte list" where
  "array_wire wire vs = le_bytes 4 (of_nat (length vs) :: 32 word) @ concat (map wire vs)"

definition nilable_wire :: "('a \<Rightarrow> byte list) \<Rightarrow> 'a list option \<Rightarrow> byte list" where
  "nilable_wire wire t = (case t of None \<Rightarrow> le_bytes 4 nullLength | Some vs \<Rightarrow> array_wire wire vs)"

definition array_ok :: "(BinaryLimits \<Rightarrow> 'a \<Rightarrow> bool) \<Rightarrow> BinaryLimits \<Rightarrow> 'a list \<Rightarrow> bool" where
  "array_ok ok L vs \<longleftrightarrow> int (length vs) \<le> MaxArrayLength L \<and> list_all (ok L) vs"

definition nilable_ok :: "(BinaryLimits \<Rightarrow> 'a \<Rightarrow> bool) \<Rightarrow> BinaryLimits \<Rightarrow> 'a list option \<Rightarrow> bool" where
  "nilable_ok ok L t = (case t of None \<Rightarrow> True | Some vs \<Rightarrow> array_ok ok L vs)"

lemma within_read_array [within_intros]: "within rd \<Longrightarrow> within (read_array k rd)"
  unfolding read_array_def by (intro within_intros)

lemma within_read_list [within_intros]: "within rd \<Longrightarrow> within (read_list k rd)"
  unfolding read_list_def by (intro within_intros)

text \<open>
  Elements whose encodings have at least \<open>minsz\<close> bytes, the factor with which the reader
  checks the announced length against the bytes that remain.
\<close>

locale ua_array_on = ua_codec_on +
  fixes minsz :: int
  assumes minsz: "ok L v \<Longrightarrow> readable L v \<Longrightarrow> minsz \<le> int (length (wire v))"
begin

lemma wire_size:
  "list_all (ok L) vs \<Longrightarrow> list_all (readable L) vs \<Longrightarrow>
    minsz * int (length vs) \<le> int (length (concat (map wire vs)))"
  using minsz by (induction vs) (auto simp: algebra_simps intro: add_mono)

lemma array_emits: "emits L (write_array wr vs) (array_ok ok L vs) (array_wire wire vs)"
  unfolding write_array_def by (rule emits_cong, (rule emits_intros on_emits)+) (auto simp: array_ok_def array_wire_def)

lemma nilable_emits: "emits L (write_nilable wr t) (nilable_ok ok L t) (nilable_wire wire t)"
  by (cases t) (simp_all add: write_nilable_def nilable_ok_def nilable_wire_def array_emits emits_nulls)

lemma array_parses:
  assumes L: "validate_limits L = None" and ok: "array_ok ok L vs" and r: "list_all (readable L) vs"
  shows "parses L (read_array minsz rd) (array_wire wire vs) (Some (map norm vs))"
  unfolding read_array_def array_wire_def using L
proof (rule parses_ReadArrayLength)
  show "int (length vs) \<le> MaxArrayLength L" using ok by (simp add: array_ok_def)
  show "minsz * int (length vs) \<le> int (length (concat (map wire vs)))"
    using ok r by (intro wire_size [of L]) (simp_all add: array_ok_def)
  have "parses L (read_count rd (length vs)) (concat (map wire vs)) (map norm vs)"
    using ok r by (intro parses_read_count on_parses [OF L]) (auto simp: list_all_iff array_ok_def)
  then show "parses L (case Some (int (length vs)) of
       None \<Rightarrow> rreturn None
     | Some n \<Rightarrow> rbind (read_count rd (nat n)) (\<lambda>xs. rreturn (Some xs)))
     (concat (map wire vs)) (Some (map norm vs))"
    by (auto intro: parses_rbind_return)
qed

lemma nilable_parses:
  assumes "validate_limits L = None" and "nilable_ok ok L t"
    and "case t of None \<Rightarrow> True | Some vs \<Rightarrow> list_all (readable L) vs"
  shows "parses L (read_array minsz rd) (nilable_wire wire t) (map_option (map norm) t)"
proof (cases t)
  case None
  then show ?thesis
    unfolding read_array_def nilable_wire_def
    by (simp, intro parses_ReadArrayLength_null [where bs = "[]", simplified]) (simp add: parses_rreturn)
next
  case (Some vs)
  then show ?thesis using assms array_parses [of L vs] by (simp add: nilable_wire_def nilable_ok_def)
qed

lemma list_parses:
  assumes "validate_limits L = None" and "array_ok ok L vs" and "list_all (readable L) vs"
  shows "parses L (read_list minsz rd) (array_wire wire vs) (map norm vs)"
  unfolding read_list_def by (rule parses_rbind_return [OF array_parses [OF assms]]) simp

end

text \<open>The same for a codec that reads back everything it writes.\<close>

locale ua_array = ua_codec +
  fixes minsz :: int
  assumes minimum: "ok L v \<Longrightarrow> minsz \<le> int (length (wire v))"

sublocale ua_array \<subseteq> elements: ua_array_on wr rd wire ok norm "\<lambda>_ _. True" minsz
  by unfold_locales (rule minimum)

context ua_array
begin

lemmas array_emits = elements.array_emits
lemmas nilable_emits = elements.nilable_emits

lemma array_parses:
  "validate_limits L = None \<Longrightarrow> array_ok ok L vs \<Longrightarrow>
    parses L (read_array minsz rd) (array_wire wire vs) (Some (map norm vs))"
  by (rule elements.array_parses) (simp_all add: list_all_iff)

lemma nilable_parses:
  "validate_limits L = None \<Longrightarrow> nilable_ok ok L t \<Longrightarrow>
    parses L (read_array minsz rd) (nilable_wire wire t) (map_option (map norm) t)"
  by (rule elements.nilable_parses) (auto simp: list_all_iff split: option.split)

lemma list_parses:
  "validate_limits L = None \<Longrightarrow> array_ok ok L vs \<Longrightarrow>
    parses L (read_list minsz rd) (array_wire wire vs) (map norm vs)"
  by (rule elements.list_parses) (simp_all add: list_all_iff)

end

interpretation string_array: ua_array WriteString "orEmpty ReadString" lenbytes_wire string_ok id 4
  by unfold_locales (simp add: lenbytes_wire_def)

lemmas string_array_steps [parses_steps] =
  string_array.nilable_parses [unfolded list.map_id0 option.map_id0 id_apply, THEN parses_rbind]
  string_array.nilable_parses [unfolded list.map_id0 option.map_id0 id_apply, THEN parses_rbind_last]
lemmas string_array_emits [emits_intros] = string_array.nilable_emits

section \<open>Strings that are null when empty\<close>

definition optional_wire :: "byte list \<Rightarrow> byte list" where
  "optional_wire v = (if v = [] then le_bytes 4 nullLength else lenbytes_wire v)"

definition optional_ok :: "(BinaryLimits \<Rightarrow> byte list \<Rightarrow> bool) \<Rightarrow> BinaryLimits \<Rightarrow> byte list \<Rightarrow> bool" where
  "optional_ok ok L v \<longleftrightarrow> v = [] \<or> ok L v"

text \<open>The writers' choice between a null and a non-empty ByteString.\<close>

definition write_optional_bytes :: "byte list \<Rightarrow> Encoder \<Rightarrow> Encoder" where
  "write_optional_bytes v = (if v = [] then WriteNullByteString else WriteByteString v)"

lemma emits_optional [emits_intros]:
  "emits L (WriteOptionalString v) (optional_ok string_ok L v) (optional_wire v)"
  "emits L (write_optional_bytes v) (optional_ok bytestring_ok L v) (optional_wire v)"
  unfolding WriteOptionalString_def write_optional_bytes_def optional_wire_def optional_ok_def
  by (rule emits_cong, (rule emits_intros)+, auto)+

lemma parses_optional:
  assumes "validate_limits L = None"
  shows "optional_ok string_ok L v \<Longrightarrow> parses L (orEmpty ReadString) (optional_wire v) v"
    and "optional_ok bytestring_ok L v \<Longrightarrow> parses L (orEmpty ReadByteString) (optional_wire v) v"
  using assms unfolding optional_wire_def optional_ok_def orEmpty_def
  by (auto intro!: parses_rbind_return parses_intros)

lemmas optional_steps [parses_steps] =
  parses_optional [THEN parses_rbind] parses_optional [THEN parses_rbind_last]

end
