(* ===== verification/DateTime.thy ===== *)
theory DateTime
  imports Codec
begin

text \<open>
  What \<^verbatim>\<open>EncodeDateTime\<close> and \<^verbatim>\<open>DecodeDateTime\<close> of
  \<^verbatim>\<open>src/internal/opcua/datetime.go\<close> compute: no product wraps, both saturate at the
  two reserved values, and between the bounds a round trip only drops the part of an
  instant below 100 nanoseconds.
\<close>

lemmas datetime_consts = dateTimeTicksPerSecond_def dateTimeEpochOffsetSeconds_def nsPerSecond_def
  dateTimeLowerBound_def dateTimeUpperBound_def

lemma sint_of_int64:
  "- (2 ^ 63) \<le> k \<Longrightarrow> k < 2 ^ 63 \<Longrightarrow> sint (of_int k :: 64 word) = k"
  by (simp add: signed_of_int signed_take_bit_int_eq_self)

lemma DateTime_sints [simp]: "sint DateTimeMin = 0" "sint DateTimeMax = 9223372036854775807"
  by (simp_all add: DateTimeMin_def DateTimeMax_def)

text \<open>The tick count is the distance from 1601 in 100 nanosecond intervals.\<close>

lemma ticks_eq:
  "(time_Unix t + dateTimeEpochOffsetSeconds) * dateTimeTicksPerSecond + time_Nanosecond t div 100 =
   (t - dateTimeLowerBound) div 100"
proof -
  have "10000000 * (t div 1000000000) + 116444736000000000 + (t mod 1000000000) div 100 =
      (t mod 1000000000 + 100 * (10000000 * (t div 1000000000) + 116444736000000000)) div 100"
    by (simp only: div_mult_self2)
  also have "t mod 1000000000 + 100 * (10000000 * (t div 1000000000) + 116444736000000000) =
      t + 11644473600000000000"
    using div_mult_mod_eq [of t 1000000000] by (simp only: distrib_left)
  finally show ?thesis
    by (simp add: datetime_consts time_Unix_def time_Nanosecond_def algebra_simps)
qed

lemma sint_EncodeDateTime:
  assumes "dateTimeLowerBound < t" and "t < dateTimeUpperBound"
  shows "sint (EncodeDateTime t) = (t - dateTimeLowerBound) div 100"
proof -
  have "0 \<le> (t - dateTimeLowerBound) div 100" and "(t - dateTimeLowerBound) div 100 < 2 ^ 63"
    using assms by (simp_all add: datetime_consts div_less_iff_less_mult pos_imp_zdiv_nonneg_iff)
  then have "sint (of_int ((t - dateTimeLowerBound) div 100) :: 64 word) = (t - dateTimeLowerBound) div 100"
    by (intro sint_of_int64) simp_all
  moreover have "EncodeDateTime t = of_int ((t - dateTimeLowerBound) div 100)"
    unfolding ticks_eq [symmetric] using assms by (simp add: EncodeDateTime_def Let_def)
  ultimately show ?thesis by simp
qed

text \<open>The instant a tick count stands for, before \<^verbatim>\<open>DecodeDateTime\<close> saturates.\<close>

lemma decoded_eq:
  "(k div dateTimeTicksPerSecond - dateTimeEpochOffsetSeconds) * nsPerSecond +
   (k mod dateTimeTicksPerSecond) * 100 = dateTimeLowerBound + 100 * k"
proof -
  have "100 * k = 1000000000 * (k div 10000000) + 100 * (k mod 10000000)"
    using div_mult_mod_eq [of k 10000000] by linarith
  then show ?thesis unfolding datetime_consts by (simp add: algebra_simps)
qed

lemma DecodeDateTime_mid:
  assumes "0 < sint w" and "dateTimeLowerBound + 100 * sint w \<le> dateTimeUpperBound"
  shows "DecodeDateTime w = dateTimeLowerBound + 100 * sint w"
proof -
  have "w \<noteq> DateTimeMax" using assms(2) by (auto simp: datetime_consts)
  then show ?thesis using assms by (simp add: DecodeDateTime_def Let_def decoded_eq)
qed

text \<open>
  Claim C37 A DateTime written and read back is the instant truncated to 100 nanoseconds,
  saturated at 1601-01-01 and 9999-12-31 23:59:59.
\<close>

theorem datetime_roundtrip:
  "DecodeDateTime (EncodeDateTime t) =
     (if t \<le> dateTimeLowerBound then dateTimeLowerBound
      else if dateTimeUpperBound \<le> t then dateTimeUpperBound
      else t - t mod 100)"
proof -
  consider (low) "t \<le> dateTimeLowerBound" | (high) "dateTimeUpperBound \<le> t" "dateTimeLowerBound < t"
    | (mid) "dateTimeLowerBound < t" "t < dateTimeUpperBound" by linarith
  then show ?thesis
  proof cases
    case low
    then show ?thesis by (simp add: EncodeDateTime_def DecodeDateTime_def)
  next
    case high
    then show ?thesis by (simp add: EncodeDateTime_def DecodeDateTime_def)
  next
    case mid
    let ?k = "(t - dateTimeLowerBound) div 100"
    have k: "sint (EncodeDateTime t) = ?k" using mid by (rule sint_EncodeDateTime)
    have m: "dateTimeLowerBound + 100 * ?k = t - t mod 100"
    proof -
      have "(t - dateTimeLowerBound) mod 100 = t mod 100"
        unfolding datetime_consts using mod_mult_self1 [of t "116444736000000000" 100]
        by (simp add: algebra_simps)
      then have "100 * ?k = (t - dateTimeLowerBound) - t mod 100"
        using minus_mod_eq_mult_div [of "t - dateTimeLowerBound" 100] by simp
      then show ?thesis by simp
    qed
    show ?thesis
    proof (cases "0 < ?k")
      case True
      have "t mod 100 \<ge> 0" by simp
      then have "dateTimeLowerBound + 100 * ?k \<le> dateTimeUpperBound" using m mid by linarith
      then show ?thesis using True k m mid by (simp add: DecodeDateTime_mid)
    next
      case False
      then have "?k = 0" using mid by (simp add: pos_imp_zdiv_nonneg_iff order_antisym)
      then show ?thesis using k m mid by (simp add: DecodeDateTime_def)
    qed
  qed
qed

text \<open>
  Encoding keeps the order of instants, so no arithmetic in it wraps.
\<close>

theorem EncodeDateTime_mono:
  "t \<le> u \<Longrightarrow> sint (EncodeDateTime t) \<le> sint (EncodeDateTime u)"
proof -
  assume tu: "t \<le> u"
  have b: "0 \<le> sint (EncodeDateTime s) \<and> sint (EncodeDateTime s) \<le> 9223372036854775807" for s
  proof (cases "dateTimeLowerBound < s \<and> s < dateTimeUpperBound")
    case True
    then show ?thesis using sint_EncodeDateTime [of s] sint_less [of "EncodeDateTime s"]
      by (simp add: pos_imp_zdiv_nonneg_iff)
  qed (auto simp: EncodeDateTime_def)
  consider "t \<le> dateTimeLowerBound" | "dateTimeUpperBound \<le> u"
    | "dateTimeLowerBound < t" "u < dateTimeUpperBound" by linarith
  then show ?thesis
  proof cases
    case 1
    then show ?thesis using b [of u] by (simp add: EncodeDateTime_def)
  next
    case 2
    then have "sint (EncodeDateTime u) = 9223372036854775807"
      by (simp add: EncodeDateTime_def datetime_consts)
    then show ?thesis using b [of t] by simp
  next
    case 3
    then show ?thesis using tu by (simp add: sint_EncodeDateTime zdiv_mono1)
  qed
qed

theorem EncodeDateTime_mono_witness:
  "(0 :: int) \<le> 1700000000000000000 \<and>
   sint (EncodeDateTime 0) \<le> sint (EncodeDateTime 1700000000000000000)"
  using EncodeDateTime_mono [of 0 1700000000000000000] by simp

end
