(* ===== verification/DaTypes.thy ===== *)
theory DaTypes
  imports Prelude
begin

text \<open>
  The scalar types of \<^verbatim>\<open>src/internal/opcda\<close>: VARTYPE with its symbolic names
  (\<^verbatim>\<open>vartype.go\<close>), HRESULT (\<^verbatim>\<open>hresult.go\<close>) and the adapter's error codes
  (\<^verbatim>\<open>errors.go\<close>). Error messages are not modelled: an error is its code.
\<close>

section \<open>Errors\<close>

datatype ErrorCode =
    CodeNotFound | CodeInternalError | CodeDAMethodFailed | CodeInvalidRequest
  | CodeMethodNotAllowed | CodeRequestBodyTooLarge | CodeUnsupportedMediaType
  | CodeUnsupportedContentEncoding | CodeBrowserOriginRejected | CodeUntrustedHost
  | CodeDuplicateJSONField | CodeJSONDepthLimitExceeded | CodeRequestLimitExceeded
  | CodeQueueFull | CodeRuntimeUnavailable | CodeRuntimeDeadline | CodeWriteDisabled
  | CodeBrowseUnsupported | CodePropertiesUnsupported | CodeBrowseResultLimitExceeded
  | CodeDetectionResultLimitExceeded | CodeUnsupportedVarType | CodeTypeMismatch
  | CodeInvalidValue | CodeItemIDTooLong | CodeBSTRTooLong | CodeArrayTooLarge
  | CodeRegisteredItemLimit | CodeInternalResultMismatch | CodeSubscriptionLimit
  | CodeSubscriptionNotFound | CodeSubscriptionInvalidated | CodeSubscribeUnsupported

type_synonym HRESULT = int32

text \<open>
  An \<^verbatim>\<open>error\<close> is an \<^verbatim>\<open>AdapterError\<close>, a \<^verbatim>\<open>SourceError\<close> or one that \<^verbatim>\<open>fmt.Errorf\<close> made.
\<close>

datatype da_error = AdapterError ErrorCode | SourceError HRESULT | OtherError

definition AsSourceError :: "da_error option \<Rightarrow> HRESULT option" where
  "AsSourceError er = (case er of Some (SourceError hr) \<Rightarrow> Some hr | _ \<Rightarrow> None)"

section \<open>HRESULT\<close>

definition SOK :: HRESULT where "SOK = 0"
definition SFalse :: HRESULT where "SFalse = 1"
definition ENoInterface :: HRESULT where "ENoInterface = -2147467262"
definition ENotImpl :: HRESULT where "ENotImpl = -2147467263"
definition ConnectENoConnection :: HRESULT where "ConnectENoConnection = -2147220992"

definition HR_Succeeded :: "HRESULT \<Rightarrow> bool" where "HR_Succeeded hr \<longleftrightarrow> sint hr \<ge> 0"
definition HR_Failed :: "HRESULT \<Rightarrow> bool" where "HR_Failed hr \<longleftrightarrow> sint hr < 0"

section \<open>Strings\<close>

text \<open>The bytes of a literal of the source, and \<^verbatim>\<open>%d\<close> of a non-negative integer.\<close>

definition lit :: "string \<Rightarrow> gostring" where
  "lit s = map (\<lambda>c. of_char c) s"

fun decimal :: "nat \<Rightarrow> gostring" where
  "decimal n = (if n < 10 then [of_nat (48 + n)] else decimal (n div 10) @ [of_nat (48 + n mod 10)])"

declare decimal.simps [simp del]

section \<open>VARTYPE\<close>

type_synonym DAVarType = uint16

definition VTEmpty :: DAVarType where "VTEmpty = 0"
definition VTNull :: DAVarType where "VTNull = 1"
definition VTI2 :: DAVarType where "VTI2 = 2"
definition VTI4 :: DAVarType where "VTI4 = 3"
definition VTR4 :: DAVarType where "VTR4 = 4"
definition VTR8 :: DAVarType where "VTR8 = 5"
definition VTCY :: DAVarType where "VTCY = 6"
definition VTDate :: DAVarType where "VTDate = 7"
definition VTBSTR :: DAVarType where "VTBSTR = 8"
definition VTError :: DAVarType where "VTError = 10"
definition VTBool :: DAVarType where "VTBool = 11"
definition VTVariant :: DAVarType where "VTVariant = 12"
definition VTDecimal :: DAVarType where "VTDecimal = 14"
definition VTI1 :: DAVarType where "VTI1 = 16"
definition VTUI1 :: DAVarType where "VTUI1 = 17"
definition VTUI2 :: DAVarType where "VTUI2 = 18"
definition VTUI4 :: DAVarType where "VTUI4 = 19"
definition VTI8 :: DAVarType where "VTI8 = 20"
definition VTUI8 :: DAVarType where "VTUI8 = 21"
definition VTInt :: DAVarType where "VTInt = 22"
definition VTUInt :: DAVarType where "VTUInt = 23"
definition VTArray :: DAVarType where "VTArray = 0x2000"
definition VTByRef :: DAVarType where "VTByRef = 0x4000"
definition VTTypeMask :: DAVarType where "VTTypeMask = 0x0FFF"

lemmas vt_defs = VTEmpty_def VTNull_def VTI2_def VTI4_def VTR4_def VTR8_def VTCY_def VTDate_def
  VTBSTR_def VTError_def VTBool_def VTVariant_def VTDecimal_def VTI1_def VTUI1_def VTUI2_def
  VTUI4_def VTI8_def VTUI8_def VTInt_def VTUInt_def

definition VT_Base :: "DAVarType \<Rightarrow> DAVarType" where "VT_Base vt = vt AND VTTypeMask"
definition VT_IsArray :: "DAVarType \<Rightarrow> bool" where "VT_IsArray vt \<longleftrightarrow> vt AND VTArray \<noteq> 0"
definition VT_IsByRef :: "DAVarType \<Rightarrow> bool" where "VT_IsByRef vt \<longleftrightarrow> vt AND VTByRef \<noteq> 0"

definition VT_DecodesAs :: "DAVarType \<Rightarrow> DAVarType" where
  "VT_DecodesAs vt = (let b = VT_Base vt in
     if b = VTInt \<or> b = VTError then VTI4
     else if b = VTUInt then VTUI4
     else b)"

definition varTypeNames :: "(DAVarType \<times> gostring) list" where
  "varTypeNames =
    [(VTEmpty, lit ''VT_EMPTY''), (VTNull, lit ''VT_NULL''), (VTI2, lit ''VT_I2''),
     (VTI4, lit ''VT_I4''), (VTR4, lit ''VT_R4''), (VTR8, lit ''VT_R8''), (VTCY, lit ''VT_CY''),
     (VTDate, lit ''VT_DATE''), (VTBSTR, lit ''VT_BSTR''), (VTError, lit ''VT_ERROR''),
     (VTBool, lit ''VT_BOOL''), (VTVariant, lit ''VT_VARIANT''), (VTDecimal, lit ''VT_DECIMAL''),
     (VTI1, lit ''VT_I1''), (VTUI1, lit ''VT_UI1''), (VTUI2, lit ''VT_UI2''),
     (VTUI4, lit ''VT_UI4''), (VTI8, lit ''VT_I8''), (VTUI8, lit ''VT_UI8''),
     (VTInt, lit ''VT_INT''), (VTUInt, lit ''VT_UINT'')]"

definition varTypesByName :: "(gostring \<times> DAVarType) list" where
  "varTypesByName = map (\<lambda>(vt, name). (name, vt)) varTypeNames"

definition VT_Name :: "DAVarType \<Rightarrow> gostring" where
  "VT_Name vt = (case map_of varTypeNames (VT_Base vt) of
       Some name \<Rightarrow> name
     | None \<Rightarrow> lit ''VT_UNKNOWN_'' @ decimal (unat (VT_Base vt)))"

definition VT_String :: "DAVarType \<Rightarrow> gostring" where
  "VT_String vt = VT_Name vt @
     (if VT_IsArray vt then lit ''|VT_ARRAY'' else []) @
     (if VT_IsByRef vt then lit ''|VT_BYREF'' else [])"

text \<open>\<^verbatim>\<open>strings.LastIndex(name, "|")\<close> and the two slices around it.\<close>

definition bar :: byte where "bar = 124"

definition cutLastVarTypeSuffix :: "gostring \<Rightarrow> (gostring \<times> gostring) option" where
  "cutLastVarTypeSuffix name =
     (if bar \<notin> set name then None
      else let suffix = rev (takeWhile (\<lambda>b. b \<noteq> bar) (rev name))
           in Some (take (length name - length suffix - 1) name, suffix))"

lemma cutLast_append: "bar \<notin> set b \<Longrightarrow> cutLastVarTypeSuffix (a @ bar # b) = Some (a, b)"
  by (simp add: cutLastVarTypeSuffix_def takeWhile_append1 takeWhile_append2 Let_def)
    (subst takeWhile_append2; auto)+

lemma cutLast_shorter: "cutLastVarTypeSuffix n = Some (a, b) \<Longrightarrow> length a < length n"
  by (auto simp: cutLastVarTypeSuffix_def Let_def intro!: diff_less length_pos_if_in_set split: if_splits)

text \<open>The loop of \<^verbatim>\<open>ParseDAVarType\<close>, with its variables \<^verbatim>\<open>base\<close> and \<^verbatim>\<open>flags\<close>.\<close>

function parseSuffixes :: "gostring \<Rightarrow> DAVarType \<Rightarrow> da_error + gostring \<times> DAVarType" where
  "parseSuffixes base flags = (case cutLastVarTypeSuffix base of
       None \<Rightarrow> Inr (base, flags)
     | Some (remaining, suffix) \<Rightarrow>
         if suffix = lit ''VT_ARRAY'' then parseSuffixes remaining (flags OR VTArray)
         else if suffix = lit ''VT_BYREF'' then parseSuffixes remaining (flags OR VTByRef)
         else Inl OtherError)"
  by auto
termination
  by (relation "measure (\<lambda>(base, _). length base)") (auto dest: cutLast_shorter)

declare parseSuffixes.simps [simp del]

definition ParseDAVarType :: "gostring \<Rightarrow> da_error + DAVarType" where
  "ParseDAVarType name = (case parseSuffixes name 0 of
       Inl er \<Rightarrow> Inl er
     | Inr (base, flags) \<Rightarrow>
         (case map_of varTypesByName base of
            None \<Rightarrow> Inl OtherError
          | Some vt \<Rightarrow> Inr (vt OR flags)))"

section \<open>Laws of the names\<close>

lemma cutLast_none: "bar \<notin> set n \<Longrightarrow> cutLastVarTypeSuffix n = None"
  by (simp add: cutLastVarTypeSuffix_def)

lemma parseSuffixes_base: "bar \<notin> set n \<Longrightarrow> parseSuffixes n flags = Inr (n, flags)"
  by (subst parseSuffixes.simps) (simp add: cutLast_none)

lemma lit_suffixes:
  "lit ''|VT_ARRAY'' = bar # lit ''VT_ARRAY''" "lit ''|VT_BYREF'' = bar # lit ''VT_BYREF''"
  "bar \<notin> set (lit ''VT_ARRAY'')" "bar \<notin> set (lit ''VT_BYREF'')" "lit ''VT_ARRAY'' \<noteq> lit ''VT_BYREF''"
  by code_simp+

lemma parseSuffixes_array:
  "parseSuffixes (n @ lit ''|VT_ARRAY'') flags = parseSuffixes n (flags OR VTArray)"
  by (subst parseSuffixes.simps) (simp add: cutLast_append lit_suffixes)

lemma parseSuffixes_byref:
  "parseSuffixes (n @ lit ''|VT_BYREF'') flags = parseSuffixes n (flags OR VTByRef)"
  by (subst parseSuffixes.simps) (simp add: cutLast_append lit_suffixes lit_suffixes(5) [symmetric])

lemma decimal_digits: "b \<in> set (decimal n) \<Longrightarrow> \<exists>k < 10. b = of_nat (48 + k)"
proof (induction n rule: decimal.induct)
  case (1 n)
  show ?case
  proof (cases "n < 10")
    case True
    with 1(2) show ?thesis by (subst (asm) decimal.simps) (auto intro!: exI [of _ n])
  next
    case False
    with 1(2) have "b \<in> set (decimal (n div 10)) \<or> b = of_nat (48 + n mod 10)"
      by (subst (asm) decimal.simps) auto
    then show ?thesis
    proof
      assume "b \<in> set (decimal (n div 10))"
      then show ?thesis by (rule 1(1) [OF False])
    next
      assume "b = of_nat (48 + n mod 10)"
      then show ?thesis by (intro exI [of _ "n mod 10"]) simp
    qed
  qed
qed

lemma decimal_no_bar: "bar \<notin> set (decimal n)"
proof
  assume "bar \<in> set (decimal n)"
  from decimal_digits [OF this] obtain k where k: "k < 10" "bar = of_nat (48 + k)" by blast
  have "unat (of_nat (48 + k) :: byte) = 48 + k"
    using k(1) by (simp only: unat_of_nat) simp
  moreover have "unat bar = 124" by (simp add: bar_def)
  ultimately show False using k by simp
qed

lemma decimal_ne: "decimal n \<noteq> []"
  by (subst decimal.simps) simp

lemma varTypeNames_facts:
  "list_all (\<lambda>(vt, name). bar \<notin> set name \<and> length name \<le> 10 \<and>
     map_of varTypesByName name = Some vt) varTypeNames"
  by code_simp

lemma VT_Name_known:
  assumes "map_of varTypeNames (VT_Base vt) = Some name"
  shows "VT_Name vt = name" "bar \<notin> set name" "map_of varTypesByName name = Some (VT_Base vt)"
  using assms varTypeNames_facts map_of_SomeD [OF assms] by (auto simp: VT_Name_def list_all_iff)

lemma varTypesByName_length: "map_of varTypesByName name = Some vt \<Longrightarrow> length name \<le> 10"
  using varTypeNames_facts by (auto simp: varTypesByName_def list_all_iff dest!: map_of_SomeD)

lemma lit_unknown: "length (lit ''VT_UNKNOWN_'') = 11" "bar \<notin> set (lit ''VT_UNKNOWN_'')"
  by code_simp+

lemma VT_Name_unknown:
  assumes "map_of varTypeNames (VT_Base vt) = None"
  shows "bar \<notin> set (VT_Name vt)" "map_of varTypesByName (VT_Name vt) = None"
proof -
  have n: "VT_Name vt = lit ''VT_UNKNOWN_'' @ decimal (unat (VT_Base vt))"
    using assms by (simp add: VT_Name_def)
  then show "bar \<notin> set (VT_Name vt)" by (simp add: lit_unknown decimal_no_bar)
  have "length (VT_Name vt) > 10" using n by (simp add: lit_unknown)
  then show "map_of varTypesByName (VT_Name vt) = None"
    using varTypesByName_length [of "VT_Name vt"] by (cases "map_of varTypesByName (VT_Name vt)") auto
qed

lemma VT_Name_no_bar: "bar \<notin> set (VT_Name vt)"
  by (cases "map_of varTypeNames (VT_Base vt)") (simp_all add: VT_Name_known VT_Name_unknown)

lemma parseSuffixes_String:
  "parseSuffixes (VT_String vt) 0 = Inr (VT_Name vt,
     (if VT_IsArray vt then VTArray else 0) OR (if VT_IsByRef vt then VTByRef else 0))"
  using parseSuffixes_byref [of "VT_Name vt @ lit ''|VT_ARRAY''" 0]
    parseSuffixes_byref [of "VT_Name vt" 0] parseSuffixes_array [of "VT_Name vt"]
  by (simp add: VT_String_def parseSuffixes_base VT_Name_no_bar or.commute)

lemma single_flag: "vt AND 2 ^ n = (if vt AND 2 ^ n \<noteq> 0 then 2 ^ n else 0)" for vt :: uint16
  by (rule bit_eqI) (auto simp: bit_simps and_exp_eq_0_iff_not_bit)

lemma flags_rebuilt:
  "VT_Base vt OR ((if VT_IsArray vt then VTArray else 0) OR (if VT_IsByRef vt then VTByRef else 0)) =
   vt AND 0x6FFF"
proof -
  have p: "VTArray = 2 ^ 13" "VTByRef = 2 ^ 14" by (simp_all add: VTArray_def VTByRef_def)
  have "vt AND VTArray = (if VT_IsArray vt then VTArray else 0)"
    "vt AND VTByRef = (if VT_IsByRef vt then VTByRef else 0)"
    unfolding VT_IsArray_def VT_IsByRef_def p by (rule single_flag)+
  then have "VT_Base vt OR ((if VT_IsArray vt then VTArray else 0) OR (if VT_IsByRef vt then VTByRef else 0)) =
      vt AND (VTTypeMask OR (VTArray OR VTByRef))"
    unfolding VT_Base_def by (simp add: bit.conj_disj_distrib)
  then show ?thesis by (simp add: VTTypeMask_def VTArray_def VTByRef_def)
qed

text \<open>
  Parsing what \<^verbatim>\<open>String\<close> writes gives the VARTYPE back, for every 16-bit
  value whose base type has a name, less the two bits (\<^verbatim>\<open>0x1000\<close>, \<^verbatim>\<open>0x8000\<close>) that
  \<^verbatim>\<open>String\<close> does not print; for every other value it is refused.
\<close>
theorem parse_String:
  "ParseDAVarType (VT_String vt) =
     (if map_of varTypeNames (VT_Base vt) = None then Inl OtherError else Inr (vt AND 0x6FFF))"
  by (cases "map_of varTypeNames (VT_Base vt)")
    (simp_all add: ParseDAVarType_def parseSuffixes_String VT_Name_known VT_Name_unknown flags_rebuilt)

end
