(* ===== verification/Utf8.thy ===== *)
theory Utf8
  imports DaTypes
begin

text \<open>
  The part of Go's UTF-8 and UTF-16 handling the sources use: ranging over a string
  rune by rune, \<^verbatim>\<open>utf8.ValidString\<close>, and the count of UTF-16 code units of
  \<^verbatim>\<open>src/internal/opcda/array.go\<close>.
\<close>

section \<open>Decoding one rune\<close>

definition continuation :: "byte \<Rightarrow> bool" where
  "continuation b \<longleftrightarrow> 0x80 \<le> unat b \<and> unat b \<le> 0xBF"

text \<open>
  \<^verbatim>\<open>utf8.DecodeRuneInString\<close> of a non-empty string: the rune and its width, or
  \<^term>\<open>None\<close> where Go reports the invalid encoding \<^verbatim>\<open>(RuneError, 1)\<close>. The ranges of
  the second byte exclude overlong forms, surrogates and values above \<^verbatim>\<open>U+10FFFF\<close>.
\<close>

fun decodeRune :: "byte list \<Rightarrow> (nat \<times> nat) option" where
  "decodeRune [] = None"
| "decodeRune (b0 # bs) = (let x = unat b0 in
     if x < 0x80 then Some (x, 1)
     else if 0xC2 \<le> x \<and> x \<le> 0xDF then
       (case bs of b1 # _ \<Rightarrow>
          if continuation b1 then Some ((x - 0xC0) * 64 + (unat b1 - 0x80), 2) else None
        | _ \<Rightarrow> None)
     else if 0xE0 \<le> x \<and> x \<le> 0xEF then
       (case bs of b1 # b2 # _ \<Rightarrow>
          if continuation b1 \<and> continuation b2 \<and> (x = 0xE0 \<longrightarrow> 0xA0 \<le> unat b1) \<and>
             (x = 0xED \<longrightarrow> unat b1 \<le> 0x9F)
          then Some ((x - 0xE0) * 4096 + (unat b1 - 0x80) * 64 + (unat b2 - 0x80), 3) else None
        | _ \<Rightarrow> None)
     else if 0xF0 \<le> x \<and> x \<le> 0xF4 then
       (case bs of b1 # b2 # b3 # _ \<Rightarrow>
          if continuation b1 \<and> continuation b2 \<and> continuation b3 \<and>
             (x = 0xF0 \<longrightarrow> 0x90 \<le> unat b1) \<and> (x = 0xF4 \<longrightarrow> unat b1 \<le> 0x8F)
          then Some ((x - 0xF0) * 262144 + (unat b1 - 0x80) * 4096 + (unat b2 - 0x80) * 64 +
                 (unat b3 - 0x80), 4) else None
        | _ \<Rightarrow> None)
     else None)"

declare decodeRune.simps(2) [simp del]

lemma decodeRune_width: "decodeRune s = Some (c, n) \<Longrightarrow> 0 < n \<and> n \<le> length s"
  by (cases s) (auto simp: decodeRune.simps(2) Let_def split: if_splits list.splits)

section \<open>Strings\<close>

definition RuneError :: nat where "RuneError = 0xFFFD"

text \<open>\<^verbatim>\<open>for _, character := range value\<close>: an invalid byte yields one replacement character.\<close>

function runes :: "gostring \<Rightarrow> nat list" where
  "runes s = (if s = [] then [] else
     (case decodeRune s of
        None \<Rightarrow> RuneError # runes (drop 1 s)
      | Some (c, n) \<Rightarrow> c # runes (drop n s)))"
  by auto
termination
proof (relation "measure length")
  fix s :: gostring assume "s \<noteq> []" "decodeRune s = None"
  then show "(drop 1 s, s) \<in> measure length" by (cases s) auto
next
  fix s :: gostring and p c n assume "s \<noteq> []" "decodeRune s = Some p" "(c, n) = p"
  then show "(drop n s, s) \<in> measure length" using decodeRune_width [of s c n] by auto
qed simp

declare runes.simps [simp del]

function ValidString :: "gostring \<Rightarrow> bool" where
  "ValidString s = (if s = [] then True else
     (case decodeRune s of None \<Rightarrow> False | Some (c, n) \<Rightarrow> ValidString (drop n s)))"
  by auto
termination
proof (relation "measure length")
  fix s :: gostring and p c n assume "s \<noteq> []" "decodeRune s = Some p" "(c, n) = p"
  then show "(drop n s, s) \<in> measure length" using decodeRune_width [of s c n] by auto
qed simp

declare ValidString.simps [simp del]

lemma runes_code [code]:
  "runes [] = []"
  "runes (b # bs) = (case decodeRune (b # bs) of
      None \<Rightarrow> RuneError # runes (drop 1 (b # bs))
    | Some (c, n) \<Rightarrow> c # runes (drop n (b # bs)))"
  by (simp_all add: runes.simps [of "[]"] runes.simps [of "b # bs"])

lemma ValidString_code [code]:
  "ValidString [] = True"
  "ValidString (b # bs) = (case decodeRune (b # bs) of
      None \<Rightarrow> False | Some (c, n) \<Rightarrow> ValidString (drop n (b # bs)))"
  by (simp_all add: ValidString.simps [of "[]"] ValidString.simps [of "b # bs"])

definition utf16CodeUnits :: "gostring \<Rightarrow> nat" where
  "utf16CodeUnits value = fold (\<lambda>character units.
     (let units' = units + 1 in if character > 0xFFFF then units' + 1 else units')) (runes value) 0"

section \<open>The encodings as specifications\<close>

definition scalar_value :: "nat \<Rightarrow> bool" where
  "scalar_value c \<longleftrightarrow> c < 0xD800 \<or> 0xE000 \<le> c \<and> c \<le> 0x10FFFF"

definition utf8_encode_rune :: "nat \<Rightarrow> byte list" where
  "utf8_encode_rune c =
     (if c < 0x80 then [of_nat c]
      else if c < 0x800 then [of_nat (0xC0 + c div 64), of_nat (0x80 + c mod 64)]
      else if c < 0x10000 then
        [of_nat (0xE0 + c div 4096), of_nat (0x80 + c div 64 mod 64), of_nat (0x80 + c mod 64)]
      else [of_nat (0xF0 + c div 262144), of_nat (0x80 + c div 4096 mod 64),
            of_nat (0x80 + c div 64 mod 64), of_nat (0x80 + c mod 64)])"

definition utf8_encode :: "nat list \<Rightarrow> gostring" where
  "utf8_encode cs = concat (map utf8_encode_rune cs)"

text \<open>\<^verbatim>\<open>utf16.Encode\<close>: one code unit in the basic plane, a surrogate pair above it.\<close>

definition utf16_encode_rune :: "nat \<Rightarrow> uint16 list" where
  "utf16_encode_rune c =
     (if c < 0x10000 then [of_nat c]
      else [of_nat (0xD800 + (c - 0x10000) div 1024), of_nat (0xDC00 + (c - 0x10000) mod 1024)])"

definition utf16_encode :: "nat list \<Rightarrow> uint16 list" where
  "utf16_encode cs = concat (map utf16_encode_rune cs)"

lemma unat_byte: "n < 256 \<Longrightarrow> unat (of_nat n :: byte) = n"
  by (simp only: unat_of_nat) simp

lemma mod64_le: "c mod 64 \<le> 63" for c :: nat
  using mod_less_divisor [of 64 c] by linarith

lemma decodeRune_encode:
  assumes "scalar_value c"
  shows "decodeRune (utf8_encode_rune c @ rest) = Some (c, length (utf8_encode_rune c))"
proof -
  consider "c < 0x80" | "0x80 \<le> c" "c < 0x800" | "0x800 \<le> c" "c < 0x10000" | "0x10000 \<le> c" "c \<le> 0x10FFFF"
    using assms unfolding scalar_value_def by linarith
  then show ?thesis
  proof cases
    case 1
    then show ?thesis
      by (simp add: utf8_encode_rune_def decodeRune.simps(2) Let_def unat_byte del: of_nat_add)
  next
    case 2
    then have d: "2 \<le> c div 64" "c div 64 < 32" by (auto simp: less_mult_imp_div_less div_le_mono [of 128 c 64, simplified])
    have m: "c mod 64 < 64" by simp
    show ?thesis
      using 2 d m by (simp add: utf8_encode_rune_def decodeRune.simps(2) Let_def unat_byte continuation_def mod64_le del: of_nat_add)
  next
    case 3
    have q: "c = 64 * (c div 64) + c mod 64" "c div 64 = 64 * (c div 4096) + c div 64 mod 64"
      using div_mult_mod_eq [of "c div 64" 64] by (simp_all add: div_mult2_eq [symmetric])
    have m: "c mod 64 < 64" "c div 64 mod 64 < 64" by simp_all
    have d: "c div 4096 < 16" using 3 q m by linarith
    have z: "c div 4096 = 0 \<Longrightarrow> 32 \<le> c div 64 mod 64" using 3 q m by linarith
    have s: "c div 4096 = 13 \<Longrightarrow> c div 64 mod 64 \<le> 31"
      using 3 q m assms unfolding scalar_value_def by linarith
    have r: "c div 4096 * 4096 + c div 64 mod 64 * 64 + c mod 64 = c" using q by linarith
    show ?thesis
      using 3 d m z s r
      by (simp add: utf8_encode_rune_def decodeRune.simps(2) Let_def unat_byte continuation_def mod64_le del: of_nat_add)
  next
    case 4
    have q: "c = 64 * (c div 64) + c mod 64" "c div 64 = 64 * (c div 4096) + c div 64 mod 64"
      "c div 4096 = 64 * (c div 262144) + c div 4096 mod 64"
      using div_mult_mod_eq [of "c div 64" 64] div_mult_mod_eq [of "c div 4096" 64]
      by (simp_all add: div_mult2_eq [symmetric])
    have m: "c mod 64 < 64" "c div 64 mod 64 < 64" "c div 4096 mod 64 < 64" by simp_all
    have d: "c div 262144 \<le> 4" using 4 q m by linarith
    have z: "c div 262144 = 0 \<Longrightarrow> 16 \<le> c div 4096 mod 64" using 4 q m by linarith
    have s: "c div 262144 = 4 \<Longrightarrow> c div 4096 mod 64 \<le> 15" using 4 q m by linarith
    have r: "c div 262144 * 262144 + c div 4096 mod 64 * 4096 + c div 64 mod 64 * 64 + c mod 64 = c"
      using q by linarith
    show ?thesis
      using 4 d m z s r
      by (simp add: utf8_encode_rune_def decodeRune.simps(2) Let_def unat_byte continuation_def mod64_le del: of_nat_add)
  qed
qed

lemma encode_ne: "utf8_encode_rune c \<noteq> []"
  by (simp add: utf8_encode_rune_def)

lemma runes_encode:
  "list_all scalar_value cs \<Longrightarrow> runes (utf8_encode cs) = cs \<and> ValidString (utf8_encode cs)"
proof (induction cs)
  case Nil
  show ?case by (simp add: utf8_encode_def runes.simps ValidString.simps)
next
  case (Cons c cs)
  then show ?case
    by (subst runes.simps, subst ValidString.simps) (simp add: utf8_encode_def encode_ne decodeRune_encode)
qed

text \<open>The converse: a valid string is the encoding of its runes, and each is a scalar value.\<close>

lemma byte_of_unat: "unat b = n \<Longrightarrow> b = of_nat n" for b :: byte
  by (metis of_nat_unat ucast_id)

lemma continuationE:
  assumes "continuation b"
  obtains y where "y < 64" "unat b = 0x80 + y" "b = of_nat (0x80 + y)"
proof
  show "unat b - 0x80 < 64" "unat b = 0x80 + (unat b - 0x80)" "b = of_nat (0x80 + (unat b - 0x80))"
    using assms by (auto simp: continuation_def intro!: byte_of_unat simp del: of_nat_add of_nat_diff)
qed

lemma leadE:
  assumes "k \<le> unat (b :: byte)"
  obtains z where "unat b = k + z" "b = of_nat (k + z)"
  using assms by (metis byte_of_unat le_add_diff_inverse)

lemma digits64:
  fixes q r :: nat assumes "r < 64"
  shows "(q * 64 + r) div 64 = q" "(q * 64 + r) mod 64 = r"
  using assms by simp_all

lemma decodeRune_inverse:
  assumes "decodeRune s = Some (c, n)"
  shows "scalar_value c \<and> take n s = utf8_encode_rune c"
proof -
  obtain b0 bs where s: "s = b0 # bs" using assms by (cases s) auto
  let ?x = "unat b0"
  consider "?x < 0x80" | "0xC2 \<le> ?x" "?x \<le> 0xDF" | "0xE0 \<le> ?x" "?x \<le> 0xEF" | "0xF0 \<le> ?x" "?x \<le> 0xF4"
    using assms by (auto simp: s decodeRune.simps(2) Let_def split: if_splits)
  then show ?thesis
  proof cases
    case 1
    with assms show ?thesis
      by (auto simp: s decodeRune.simps(2) Let_def scalar_value_def utf8_encode_rune_def)
  next
    case 2
    with assms obtain b1 bs' where b: "bs = b1 # bs'" "continuation b1" "n = 2"
      and c: "c = (?x - 0xC0) * 64 + (unat b1 - 0x80)"
      by (auto simp: s decodeRune.simps(2) Let_def split: if_splits list.splits)
    have "0xC0 \<le> ?x" using 2 by simp
    then obtain z where z: "?x = 0xC0 + z" "b0 = of_nat (0xC0 + z)" by (rule leadE)
    obtain y1 where y1: "y1 < 64" "unat b1 = 0x80 + y1" "b1 = of_nat (0x80 + y1)"
      using b(2) by (rule continuationE)
    have c': "c = z * 64 + y1" using c z(1) y1(2) by simp
    have "c div 64 = z" "c mod 64 = y1" using digits64 [OF y1(1), of z] c' by auto
    moreover have "0x80 \<le> c" "c < 0x800" using 2 y1(1) z(1) c' by auto
    ultimately show ?thesis
      using b(3) by (simp add: s b(1) z(2) y1(3) scalar_value_def utf8_encode_rune_def del: of_nat_add)
  next
    case 3
    with assms obtain b1 b2 bs' where b: "bs = b1 # b2 # bs'" "continuation b1" "continuation b2" "n = 3"
      and x: "?x = 0xE0 \<Longrightarrow> 0xA0 \<le> unat b1" "?x = 0xED \<Longrightarrow> unat b1 \<le> 0x9F"
      and c: "c = (?x - 0xE0) * 4096 + (unat b1 - 0x80) * 64 + (unat b2 - 0x80)"
      by (auto simp: s decodeRune.simps(2) Let_def split: if_splits list.splits)
    obtain z where z: "?x = 0xE0 + z" "b0 = of_nat (0xE0 + z)" using 3(1) by (rule leadE)
    obtain y1 where y1: "y1 < 64" "unat b1 = 0x80 + y1" "b1 = of_nat (0x80 + y1)"
      using b(2) by (rule continuationE)
    obtain y2 where y2: "y2 < 64" "unat b2 = 0x80 + y2" "b2 = of_nat (0x80 + y2)"
      using b(3) by (rule continuationE)
    have k: "c = 4096 * z + 64 * y1 + y2" using c z(1) y1(2) y2(2) by simp
    then have c': "c = (z * 64 + y1) * 64 + y2" by simp
    have e: "c div 64 = z * 64 + y1" "c mod 64 = y2" unfolding c' by (rule digits64 [OF y2(1)])+
    have "c div 4096 = z" "c div 64 mod 64 = y1"
      using digits64 [OF y1(1), of z] e(1) div_mult2_eq [of c 64 64] by simp_all
    moreover have "0x800 \<le> c" using x(1) z(1) y1(2) k by (cases "z = 0") auto
    moreover have "c < 0x10000" using 3 z(1) y1(1) y2(1) k by linarith
    moreover have "scalar_value c"
    proof (cases "z = 13")
      case True
      then have "y1 \<le> 31" using x(2) z(1) y1(2) by auto
      with True show ?thesis using y2(1) k unfolding scalar_value_def by linarith
    next
      case False
      then have "z \<le> 12 \<or> 14 \<le> z" by linarith
      then show ?thesis using 3 z(1) y1(1) y2(1) k unfolding scalar_value_def by linarith
    qed
    ultimately show ?thesis
      using b(4) e by (simp add: s b(1) z(2) y1(3) y2(3) utf8_encode_rune_def del: of_nat_add)
  next
    case 4
    with assms obtain b1 b2 b3 bs' where b: "bs = b1 # b2 # b3 # bs'" "continuation b1" "continuation b2"
      "continuation b3" "n = 4"
      and x: "?x = 0xF0 \<Longrightarrow> 0x90 \<le> unat b1" "?x = 0xF4 \<Longrightarrow> unat b1 \<le> 0x8F"
      and c: "c = (?x - 0xF0) * 262144 + (unat b1 - 0x80) * 4096 + (unat b2 - 0x80) * 64 + (unat b3 - 0x80)"
      by (auto simp: s decodeRune.simps(2) Let_def split: if_splits list.splits)
    obtain z where z: "?x = 0xF0 + z" "b0 = of_nat (0xF0 + z)" using 4(1) by (rule leadE)
    obtain y1 where y1: "y1 < 64" "unat b1 = 0x80 + y1" "b1 = of_nat (0x80 + y1)"
      using b(2) by (rule continuationE)
    obtain y2 where y2: "y2 < 64" "unat b2 = 0x80 + y2" "b2 = of_nat (0x80 + y2)"
      using b(3) by (rule continuationE)
    obtain y3 where y3: "y3 < 64" "unat b3 = 0x80 + y3" "b3 = of_nat (0x80 + y3)"
      using b(4) by (rule continuationE)
    have c': "c = ((z * 64 + y1) * 64 + y2) * 64 + y3" using c z(1) y1(2) y2(2) y3(2) by simp
    have e: "c div 64 = (z * 64 + y1) * 64 + y2" "c mod 64 = y3"
      unfolding c' by (rule digits64 [OF y3(1)])+
    have e2: "c div 4096 = z * 64 + y1" "c div 64 mod 64 = y2"
      using digits64 [OF y2(1), of "z * 64 + y1"] e(1) div_mult2_eq [of c 64 64] by simp_all
    have "c div 262144 = z" "c div 4096 mod 64 = y1"
      using digits64 [OF y1(1), of z] e2(1) div_mult2_eq [of c 4096 64] by simp_all
    moreover have lo: "0x10000 \<le> c" using x(1) z(1) y1(2) c' by (cases "z = 0") auto
    moreover have "c \<le> 0x10FFFF"
      using x(2) 4 z(1) y1(1,2) y2(1) y3(1) c' by (cases "z = 4") auto
    moreover have "scalar_value c" using calculation unfolding scalar_value_def by linarith
    ultimately show ?thesis
      using b(5) e e2 by (simp add: s b(1) z(2) y1(3) y2(3) y3(3) utf8_encode_rune_def del: of_nat_add)
  qed
qed

lemma ValidString_encode:
  "ValidString s \<Longrightarrow> list_all scalar_value (runes s) \<and> s = utf8_encode (runes s)"
proof (induction s rule: runes.induct)
  case (1 s)
  show ?case
  proof (cases "s = []")
    case True
    then show ?thesis by (simp add: runes.simps utf8_encode_def)
  next
    case False
    with 1(3) obtain c n where d: "decodeRune s = Some (c, n)" and v: "ValidString (drop n s)"
      by (subst (asm) ValidString.simps) (auto split: option.splits)
    have "list_all scalar_value (runes (drop n s)) \<and> drop n s = utf8_encode (runes (drop n s))"
      using 1(2) [OF False d refl v] .
    moreover have "s = take n s @ drop n s" by simp
    moreover have "runes s = c # runes (drop n s)" by (subst runes.simps) (simp add: False d)
    ultimately show ?thesis
      using decodeRune_inverse [OF d] by (auto simp: utf8_encode_def)
  qed
qed

section \<open>Properties\<close>

lemma utf16_units_fold:
  "fold (\<lambda>character units. (let units' = units + 1 in if character > 0xFFFF then units' + 1 else units')) cs u =
   u + length (utf16_encode cs)"
  by (induction cs arbitrary: u) (auto simp: utf16_encode_def utf16_encode_rune_def Let_def)

lemma utf16CodeUnits_runes: "utf16CodeUnits s = length (utf16_encode (runes s))"
  unfolding utf16CodeUnits_def utf16_units_fold by simp

text \<open>
  A string passes \<^verbatim>\<open>utf8.ValidString\<close> exactly when it is the UTF-8 text of some
  Unicode scalar values, which are then the runes a \<^verbatim>\<open>range\<close> over it yields; and without
  encoding anything, \<^verbatim>\<open>utf16CodeUnits\<close> counts the code units \<^verbatim>\<open>utf16.Encode\<close> makes of them.
\<close>
theorem utf16CodeUnits_counts:
  "(ValidString s \<longleftrightarrow> list_all scalar_value (runes s) \<and> s = utf8_encode (runes s)) \<and>
   utf16CodeUnits s = length (utf16_encode (runes s))"
  using ValidString_encode runes_encode utf16CodeUnits_runes by metis

end
