(* ===== verification/DaArrays.thy ===== *)
theory DaArrays
  imports Utf8
begin

text \<open>
  SAFEARRAY values and the checks a written value passes:
  \<^verbatim>\<open>src/internal/opcda/array.go\<close> and \<^verbatim>\<open>src/internal/opcda/write_value.go\<close>. The Go
  \<^verbatim>\<open>any\<close> that carries a DA value is \<open>da_value\<close>, one constructor for each dynamic type
  the package stores or asserts.
\<close>

record DADimension =
  LowerBound :: int32
  Length :: uint32

datatype da_value =
    DNil
  | DBool bool | DInt8 int8 | DUInt8 uint8 | DInt16 int16 | DUInt16 uint16
  | DInt32 int32 | DUInt32 uint32 | DInt64 int64 | DUInt64 uint64
  | DFloat32 float32 | DFloat64 float64 | DString gostring
  | DArray DAArray
and DAArray = DAArray (ElementType: DAVarType) (Dimensions: "DADimension list") (Elements: "da_value list")

record ArrayLimits =
  MaxElements :: int
  MaxDimensions :: int
  MaxBSTRCodeUnits :: int
  MaxArrayBSTRCodeUnits :: int

text \<open>The loop of \<^verbatim>\<open>ElementCount\<close>: \<^verbatim>\<open>count\<close> is a \<^verbatim>\<open>uint64\<close>.\<close>

fun elementCountLoop :: "uint64 \<Rightarrow> uint64 \<Rightarrow> DADimension list \<Rightarrow> da_error + uint64" where
  "elementCountLoop maximum count [] = Inr count"
| "elementCountLoop maximum count (dimension # rest) =
     (if Length dimension = 0 then Inl (AdapterError CodeInvalidValue)
      else let count' = count * ucast (Length dimension)
           in if count' > maximum then Inl (AdapterError CodeArrayTooLarge)
              else elementCountLoop maximum count' rest)"

definition ElementCount :: "DAArray \<Rightarrow> int \<Rightarrow> da_error + uint64" where
  "ElementCount array maximum =
     (if maximum \<le> 0 then Inl (AdapterError CodeInvalidValue)
      else elementCountLoop (of_int maximum) 1 (Dimensions array))"

fun matchesLoop :: "uint64 \<Rightarrow> uint64 \<Rightarrow> DADimension list \<Rightarrow> da_error option" where
  "matchesLoop carried described [] =
     (if described \<noteq> carried then Some (AdapterError CodeInvalidValue) else None)"
| "matchesLoop carried described (dimension # rest) =
     (if Length dimension = 0 then Some (AdapterError CodeInvalidValue)
      else let described' = described * ucast (Length dimension)
           in if described' > carried then Some (AdapterError CodeInvalidValue)
              else matchesLoop carried described' rest)"

definition MatchesItsShape :: "DAArray \<Rightarrow> da_error option" where
  "MatchesItsShape array =
     (if Dimensions array = [] then Some (AdapterError CodeInvalidValue)
      else matchesLoop (of_nat (length (Elements array))) 1 (Dimensions array))"

text \<open>
  \<^verbatim>\<open>validateScalarValue\<close>: an error, or the number of UTF-16 code units of a string and
  zero for everything else.
\<close>

definition exact :: "bool \<Rightarrow> da_error + nat" where
  "exact valid = (if \<not> valid then Inl (AdapterError CodeInvalidValue) else Inr 0)"

definition validateScalarValue :: "DAVarType \<Rightarrow> da_value \<Rightarrow> int \<Rightarrow> da_error + nat" where
  "validateScalarValue varType v maxBSTR = (let b = VT_Base varType in
     if b = VTEmpty \<or> b = VTNull then exact (case v of DNil \<Rightarrow> True | _ \<Rightarrow> False)
     else if b = VTI1 then exact (case v of DInt8 _ \<Rightarrow> True | _ \<Rightarrow> False)
     else if b = VTUI1 then exact (case v of DUInt8 _ \<Rightarrow> True | _ \<Rightarrow> False)
     else if b = VTI2 then exact (case v of DInt16 _ \<Rightarrow> True | _ \<Rightarrow> False)
     else if b = VTUI2 then exact (case v of DUInt16 _ \<Rightarrow> True | _ \<Rightarrow> False)
     else if b = VTI4 \<or> b = VTInt \<or> b = VTError then exact (case v of DInt32 _ \<Rightarrow> True | _ \<Rightarrow> False)
     else if b = VTUI4 \<or> b = VTUInt then exact (case v of DUInt32 _ \<Rightarrow> True | _ \<Rightarrow> False)
     else if b = VTI8 then exact (case v of DInt64 _ \<Rightarrow> True | _ \<Rightarrow> False)
     else if b = VTUI8 then exact (case v of DUInt64 _ \<Rightarrow> True | _ \<Rightarrow> False)
     else if b = VTR4 then exact (case v of DFloat32 _ \<Rightarrow> True | _ \<Rightarrow> False)
     else if b = VTR8 then exact (case v of DFloat64 _ \<Rightarrow> True | _ \<Rightarrow> False)
     else if b = VTBool then exact (case v of DBool _ \<Rightarrow> True | _ \<Rightarrow> False)
     else if b = VTBSTR then
       (case v of
          DString s \<Rightarrow>
            if \<not> ValidString s then Inl (AdapterError CodeInvalidValue)
            else let units = utf16CodeUnits s
                 in if int units > maxBSTR then Inl (AdapterError CodeBSTRTooLong) else Inr units
        | _ \<Rightarrow> exact False)
     else Inl (AdapterError CodeUnsupportedVarType))"

text \<open>
  The loop of \<^verbatim>\<open>Validate\<close> over the elements. \<^verbatim>\<open>arrayElementError\<close> keeps the code of
  the element's error.
\<close>

fun validateElements :: "DAVarType \<Rightarrow> ArrayLimits \<Rightarrow> int \<Rightarrow> da_value list \<Rightarrow> da_error option" where
  "validateElements t limits bstrUnits [] = None"
| "validateElements t limits bstrUnits (element # rest) =
     (case validateScalarValue t element (MaxBSTRCodeUnits limits) of
        Inl er \<Rightarrow> Some er
      | Inr units \<Rightarrow>
          let bstrUnits' = bstrUnits + int units
          in if bstrUnits' > MaxArrayBSTRCodeUnits limits then Some (AdapterError CodeBSTRTooLong)
             else validateElements t limits bstrUnits' rest)"

definition Array_Validate :: "DAArray \<Rightarrow> ArrayLimits \<Rightarrow> da_error option" where
  "Array_Validate array limits =
     (if MaxDimensions limits \<le> 0 \<or> MaxElements limits \<le> 0 \<or> MaxBSTRCodeUnits limits \<le> 0 \<or>
         MaxArrayBSTRCodeUnits limits \<le> 0 then Some (AdapterError CodeInvalidValue)
      else if VT_IsArray (ElementType array) \<or> VT_IsByRef (ElementType array)
        then Some (AdapterError CodeUnsupportedVarType)
      else if Dimensions array = [] then Some (AdapterError CodeInvalidValue)
      else if int (length (Dimensions array)) > MaxDimensions limits
        then Some (AdapterError CodeArrayTooLarge)
      else case ElementCount array (MaxElements limits) of
        Inl er \<Rightarrow> Some er
      | Inr _ \<Rightarrow>
          (case MatchesItsShape array of
             Some er \<Rightarrow> Some er
           | None \<Rightarrow> validateElements (ElementType array) limits 0 (Elements array)))"

definition validateWriteValue :: "DAVarType \<Rightarrow> da_value \<Rightarrow> ArrayLimits \<Rightarrow> da_error option" where
  "validateWriteValue varType v limits =
     (if VT_IsByRef varType then Some (AdapterError CodeUnsupportedVarType)
      else if VT_IsArray varType then
        (case v of
           DArray array \<Rightarrow>
             if ElementType array \<noteq> VT_Base varType then Some (AdapterError CodeTypeMismatch)
             else Array_Validate array limits
         | _ \<Rightarrow> Some (AdapterError CodeInvalidValue))
      else case validateScalarValue varType v (MaxBSTRCodeUnits limits) of
        Inl er \<Rightarrow> Some er | Inr _ \<Rightarrow> None)"

section \<open>The product of the dimensions\<close>

definition shape_positive :: "DADimension list \<Rightarrow> bool" where
  "shape_positive ds \<longleftrightarrow> list_all (\<lambda>d. Length d \<noteq> 0) ds"

definition shape_product :: "DADimension list \<Rightarrow> nat" where
  "shape_product ds = prod_list (map (\<lambda>d. unat (Length d)) ds)"

lemma shape_simps [simp]:
  "shape_product [] = 1" "shape_product (d # ds) = unat (Length d) * shape_product ds"
  "shape_positive []" "shape_positive (d # ds) \<longleftrightarrow> Length d \<noteq> 0 \<and> shape_positive ds"
  by (simp_all add: shape_product_def shape_positive_def)

lemma shape_product_pos: "shape_positive ds \<Longrightarrow> 0 < shape_product ds"
  by (induction ds) (auto simp: unat_gt_0)

text \<open>With a factor of at most \<open>2^32\<close> a step of the \<^verbatim>\<open>uint64\<close> product does not wrap.\<close>

lemma unat_widen32: "unat (ucast (l :: uint32) :: uint64) = unat l"
proof -
  have "unat l < 2 ^ LENGTH(32)" by (rule unsigned_less)
  then show ?thesis by (simp add: unsigned_ucast_eq take_bit_nat_eq_self)
qed

lemma count_step:
  fixes count :: uint64 and l :: uint32
  assumes "unat count \<le> 2 ^ 32"
  shows "unat (count * ucast l) = unat count * unat l"
proof -
  have "unat l < 2 ^ LENGTH(32)" by (rule unsigned_less)
  then have l: "unat l < 2 ^ 32" by simp
  have "unat count * unat l \<le> 2 ^ 32 * unat l" using assms by simp
  also have "\<dots> < 2 ^ 32 * 2 ^ 32" using l by simp
  finally have "unat count * unat l < 2 ^ 64" by simp
  then show ?thesis using unat_mult_lem [of count "ucast l"] by (simp add: unat_widen32)
qed

lemma product_mono: "0 < p \<Longrightarrow> shape_positive ds \<Longrightarrow> p \<le> p * shape_product ds"
  using shape_product_pos [of ds] by simp

lemma elementCountLoop_iff:
  assumes "unat maximum \<le> 2 ^ 32" and "0 < unat count" and "unat count \<le> unat maximum"
  shows "elementCountLoop maximum count ds = Inr n \<longleftrightarrow>
    shape_positive ds \<and> unat count * shape_product ds \<le> unat maximum \<and> unat n = unat count * shape_product ds"
  using assms(2,3)
proof (induction ds arbitrary: count)
  case Nil
  then show ?case by (auto simp: word_unat_eq_iff)
next
  case (Cons d ds)
  let ?c = "count * ucast (Length d)"
  have u: "unat ?c = unat count * unat (Length d)"
    by (rule count_step) (use Cons.prems assms(1) in auto)
  show ?case
  proof (cases "Length d = 0 \<or> ?c > maximum")
    case True
    moreover have "\<not> (shape_positive ds \<and> unat count * (unat (Length d) * shape_product ds) \<le> unat maximum)"
      if "Length d \<noteq> 0" "?c > maximum"
    proof
      assume a: "shape_positive ds \<and> unat count * (unat (Length d) * shape_product ds) \<le> unat maximum"
      have "unat ?c \<le> unat ?c * shape_product ds"
        using a that(1) Cons.prems by (intro product_mono) (auto simp: u unat_gt_0)
      also have "\<dots> \<le> unat maximum" using a by (simp add: u mult.assoc)
      finally show False using that(2) by (simp add: word_less_nat_alt)
    qed
    ultimately show ?thesis by (auto simp: Let_def)
  next
    case False
    then have "0 < unat ?c" "unat ?c \<le> unat maximum"
      using Cons.prems by (auto simp: u unat_gt_0 word_less_nat_alt not_less)
    from Cons.IH [OF this] False show ?thesis by (simp add: Let_def u mult.assoc)
  qed
qed

text \<open>\<^verbatim>\<open>MatchesItsShape\<close> is the count against the number of elements carried.\<close>

lemma matchesLoop_count:
  "matchesLoop carried described ds = None \<longleftrightarrow> elementCountLoop carried described ds = Inr carried"
  by (induction ds arbitrary: described) (auto simp: Let_def)

lemma matchesLoop_iff:
  assumes "unat carried \<le> 2 ^ 32" and "0 < unat carried"
  shows "matchesLoop carried 1 ds = None \<longleftrightarrow> shape_positive ds \<and> shape_product ds = unat carried"
  using elementCountLoop_iff [of carried 1 ds carried] assms by (auto simp: matchesLoop_count)

lemma matchesLoop_zero: "matchesLoop 0 1 ds \<noteq> None"
proof (cases ds)
  case (Cons d ds')
  have "(ucast (Length d) :: uint64) \<noteq> 0" if "Length d \<noteq> 0"
  proof
    assume "(ucast (Length d) :: uint64) = 0"
    then have "unat (Length d) = 0" using unat_widen32 [of "Length d"] by simp
    with that show False by (simp add: unat_eq_0)
  qed
  then show ?thesis by (simp add: Cons Let_def word_gt_0)
qed simp

section \<open>Elements\<close>

text \<open>The UTF-16 code units an element counts for.\<close>

fun element_units :: "da_value \<Rightarrow> nat" where
  "element_units (DString s) = utf16CodeUnits s"
| "element_units _ = 0"

text \<open>The VARTYPE whose scalars have the Go type of a value, after \<^verbatim>\<open>DecodesAs\<close>.\<close>

fun native_types :: "da_value \<Rightarrow> DAVarType list" where
  "native_types DNil = [VTEmpty, VTNull]"
| "native_types (DBool _) = [VTBool]"
| "native_types (DInt8 _) = [VTI1]"
| "native_types (DUInt8 _) = [VTUI1]"
| "native_types (DInt16 _) = [VTI2]"
| "native_types (DUInt16 _) = [VTUI2]"
| "native_types (DInt32 _) = [VTI4]"
| "native_types (DUInt32 _) = [VTUI4]"
| "native_types (DInt64 _) = [VTI8]"
| "native_types (DUInt64 _) = [VTUI8]"
| "native_types (DFloat32 _) = [VTR4]"
| "native_types (DFloat64 _) = [VTR8]"
| "native_types (DString _) = [VTBSTR]"
| "native_types (DArray _) = []"

definition element_ok :: "DAVarType \<Rightarrow> int \<Rightarrow> da_value \<Rightarrow> bool" where
  "element_ok t maxBSTR v \<longleftrightarrow> VT_DecodesAs t \<in> set (native_types v) \<and>
     (case v of DString s \<Rightarrow> ValidString s \<and> int (utf16CodeUnits s) \<le> maxBSTR | _ \<Rightarrow> True)"

lemma validateScalarValue_eq:
  "validateScalarValue t v m = Inr n \<longleftrightarrow> element_ok t m v \<and> n = element_units v"
proof -
  have *: "validateScalarValue t v m = Inr n \<longleftrightarrow> element_ok t m v \<and> n = element_units v"
    if "VT_Base t = b" for b
    using that unfolding validateScalarValue_def element_ok_def VT_DecodesAs_def Let_def exact_def that
    by (cases v; auto simp: vt_defs split: if_splits)
  show ?thesis by (rule * [OF refl])
qed

lemma validateElements_iff:
  "validateElements t limits u es = None \<longleftrightarrow>
     list_all (element_ok t (MaxBSTRCodeUnits limits)) es \<and>
     (es \<noteq> [] \<longrightarrow> u + int (sum_list (map element_units es)) \<le> MaxArrayBSTRCodeUnits limits)"
proof (induction es arbitrary: u)
  case (Cons e es)
  show ?case
  proof (cases "validateScalarValue t e (MaxBSTRCodeUnits limits)")
    case (Inl er)
    then show ?thesis
      using validateScalarValue_eq [of t e "MaxBSTRCodeUnits limits" "element_units e"] by simp
  next
    case (Inr n)
    moreover have "element_ok t (MaxBSTRCodeUnits limits) e" "n = element_units e"
      using Inr by (auto simp: validateScalarValue_eq)
    ultimately show ?thesis
      by (cases "es = []") (auto simp: Let_def Cons.IH add.assoc)
  qed
qed simp

section \<open>Properties\<close>

text \<open>
  A scalar is accepted for a VARTYPE exactly when its Go type is the one the
  decoder uses for that VARTYPE (\<^verbatim>\<open>DecodesAs\<close>), with a string valid UTF-8 and within the
  limit on code units; nothing is widened, narrowed or coerced. The result is the number
  of code units.
\<close>
theorem validateScalarValue_exact:
  "(case validateScalarValue t v m of Inr n \<Rightarrow> element_ok t m v \<and> n = element_units v
    | Inl er \<Rightarrow> \<not> element_ok t m v)"
  using validateScalarValue_eq [of t v m "element_units v"] validateScalarValue_eq [of t v m]
  by (cases "validateScalarValue t v m") auto

definition array_spec :: "DAArray \<Rightarrow> ArrayLimits \<Rightarrow> bool" where
  "array_spec a limits \<longleftrightarrow>
     \<not> VT_IsArray (ElementType a) \<and> \<not> VT_IsByRef (ElementType a) \<and>
     Dimensions a \<noteq> [] \<and> int (length (Dimensions a)) \<le> MaxDimensions limits \<and>
     shape_positive (Dimensions a) \<and> shape_product (Dimensions a) = length (Elements a) \<and>
     int (length (Elements a)) \<le> MaxElements limits \<and>
     list_all (element_ok (ElementType a) (MaxBSTRCodeUnits limits)) (Elements a) \<and>
     int (sum_list (map element_units (Elements a))) \<le> MaxArrayBSTRCodeUnits limits"

lemma Array_Validate_iff:
  assumes "0 < MaxDimensions limits" and "0 < MaxElements limits" and "0 < MaxBSTRCodeUnits limits"
    and "0 < MaxArrayBSTRCodeUnits limits" and "MaxElements limits \<le> 2 ^ 32"
    and "length (Elements a) \<le> 2 ^ 32"
  shows "Array_Validate a limits = None \<longleftrightarrow> array_spec a limits"
proof -
  let ?ds = "Dimensions a" and ?n = "length (Elements a)"
  obtain m where m: "MaxElements limits = int m" "0 < m" "m \<le> 2 ^ 32"
    using assms(2,5) by (cases "MaxElements limits") auto
  have u: "unat (of_nat k :: uint64) = k" if "k \<le> 2 ^ 32" for k
    using that by (simp add: unat_of_nat)
  have count: "(\<exists>k. ElementCount a (int m) = Inr k) \<longleftrightarrow> shape_positive ?ds \<and> shape_product ?ds \<le> m"
    using elementCountLoop_iff [of "of_nat m" 1 ?ds] u [OF m(3)] m(2,3) u [of "shape_product ?ds"]
    by (auto simp: ElementCount_def intro: order_trans)
  have shape: "MatchesItsShape a = None \<longleftrightarrow> shape_positive ?ds \<and> shape_product ?ds = ?n" if "?ds \<noteq> []"
  proof (cases "?n = 0")
    case True
    then show ?thesis
      using matchesLoop_zero [of ?ds] shape_product_pos [of ?ds] that by (auto simp: MatchesItsShape_def)
  next
    case False
    then show ?thesis
      using matchesLoop_iff [of "of_nat ?n" ?ds] u [OF assms(6)] assms(6) that
      by (simp add: MatchesItsShape_def)
  qed
  have ne: "shape_positive ?ds \<Longrightarrow> shape_product ?ds = ?n \<Longrightarrow> Elements a \<noteq> []"
    using shape_product_pos [of ?ds] by auto
  show ?thesis
    using assms(1-4) count shape ne unfolding Array_Validate_def array_spec_def m(1)
    by (auto simp: validateElements_iff split: sum.splits option.splits)
qed

text \<open>
  Claim C37: a written value is accepted exactly when its VARTYPE is not by reference and
  either it is a scalar of that type, or it is an array of it whose dimensions, multiplied
  out as integers, describe the elements it carries, with every dimension positive, every
  element a scalar of the element type, and all configured bounds kept. The \<^verbatim>\<open>uint64\<close>
  products do not wrap, for element bounds of up to \<open>2^32\<close> (the runtime's ceiling is
  65536).
\<close>
theorem validateWriteValue_exact:
  assumes "0 < MaxDimensions limits" and "0 < MaxElements limits" and "0 < MaxBSTRCodeUnits limits"
    and "0 < MaxArrayBSTRCodeUnits limits" and "MaxElements limits \<le> 2 ^ 32"
    and "case v of DArray a \<Rightarrow> length (Elements a) \<le> 2 ^ 32 | _ \<Rightarrow> True"
  shows "validateWriteValue t v limits = None \<longleftrightarrow> \<not> VT_IsByRef t \<and>
    (if VT_IsArray t
     then (case v of DArray a \<Rightarrow> ElementType a = VT_Base t \<and> array_spec a limits | _ \<Rightarrow> False)
     else element_ok t (MaxBSTRCodeUnits limits) v)"
proof -
  have scalar: "(case validateScalarValue t v (MaxBSTRCodeUnits limits) of Inl er \<Rightarrow> Some er | Inr _ \<Rightarrow> None) = None
      \<longleftrightarrow> element_ok t (MaxBSTRCodeUnits limits) v"
    using validateScalarValue_eq [of t v "MaxBSTRCodeUnits limits"]
    by (cases "validateScalarValue t v (MaxBSTRCodeUnits limits)") auto
  show ?thesis
    using assms(6) unfolding validateWriteValue_def scalar [symmetric]
    by (auto simp: Array_Validate_iff [OF assms(1-5)] split: da_value.splits if_splits)
qed

definition write_sample :: DAArray where
  "write_sample = DAArray VTBSTR [\<lparr>LowerBound = 1, Length = 2\<rparr>, \<lparr>LowerBound = 0, Length = 1\<rparr>]
     [DString [104, 105], DString [0xF0, 0x9F, 0x98, 0x80]]"

definition write_limits :: ArrayLimits where
  "write_limits = \<lparr>MaxElements = 1024, MaxDimensions = 4, MaxBSTRCodeUnits = 65536,
     MaxArrayBSTRCodeUnits = 65536\<rparr>"

theorem validateWriteValue_exact_witness:
  "validateWriteValue (VTBSTR OR VTArray) (DArray write_sample) write_limits = None \<and>
   array_spec write_sample write_limits"
proof -
  have "validateWriteValue (VTBSTR OR VTArray) (DArray write_sample) write_limits = None"
    by (simp add: validateWriteValue_def VT_IsByRef_def VT_IsArray_def VT_Base_def VTTypeMask_def VTArray_def
        VTByRef_def vt_defs write_sample_def write_limits_def Array_Validate_def ElementCount_def
        MatchesItsShape_def validateScalarValue_def utf16CodeUnits_def runes_code ValidString_code
        decodeRune.simps(2) continuation_def)
  moreover have "VT_IsArray (VTBSTR OR VTArray)" by code_simp
  ultimately show ?thesis
    using validateWriteValue_exact [of write_limits "DArray write_sample" "VTBSTR OR VTArray"]
    by (simp add: write_limits_def write_sample_def)
qed

end
