(* ===== verification/Tables.thy ===== *)
theory Tables
  imports Main "HOL-Library.AList"
begin

text \<open>
  Go maps whose size the program looks at, as association lists with distinct keys:
  \<^verbatim>\<open>m[k] = v\<close> is \<open>AList.update\<close>, \<^verbatim>\<open>delete(m, k)\<close> is \<open>AList.delete\<close>, and a loop that deletes
  entries while ranging over the map is \<open>filter\<close>. \<open>table_wf P\<close> says that every entry
  satisfies \<open>P\<close>; the lemmas give what each change keeps of it.
\<close>

definition table_wf :: "('k \<Rightarrow> 'v \<Rightarrow> bool) \<Rightarrow> ('k \<times> 'v) list \<Rightarrow> bool" where
  "table_wf P al \<longleftrightarrow> distinct (map fst al) \<and> list_all (\<lambda>(k, v). P k v) al"

lemma alist_update_new: "map_of al k = None \<Longrightarrow> AList.update k v al = al @ [(k, v)]"
  by (induction al) auto

lemma alist_update_old: "map_of al k \<noteq> None \<Longrightarrow> map fst (AList.update k v al) = map fst al"
  by (induction al) auto

lemma alist_update_set: "p \<in> set (AList.update k v al) \<Longrightarrow> p = (k, v) \<or> p \<in> set al"
  by (induction al) (auto split: if_splits)

lemma length_update_old: "map_of al k = Some x \<Longrightarrow> length (AList.update k v al) = length al"
  using arg_cong [OF alist_update_old [of al k v], of length] by simp

lemma length_update:
  "length (AList.update k v al) = (if map_of al k = None then Suc (length al) else length al)"
  by (induction al) auto

lemma length_delete:
  assumes "distinct (map fst al)"
  shows "length (AList.delete k al) = (if map_of al k = None then length al else length al - 1)"
  using assms
proof (induction al)
  case (Cons p al)
  show ?case
  proof (cases "fst p = k")
    case True
    then have "map_of al k = None" using Cons.prems by (auto simp: map_of_eq_None_iff)
    then show ?thesis using Cons True by simp
  next
    case False
    have "map_of al k \<noteq> None \<Longrightarrow> 0 < length al" by (cases al) auto
    then show ?thesis using Cons False by auto
  qed
qed simp

lemma table_wf_empty [simp]: "table_wf P []"
  by (simp add: table_wf_def)

lemma table_wf_update: "table_wf P al \<Longrightarrow> P k v \<Longrightarrow> table_wf P (AList.update k v al)"
  by (auto simp: table_wf_def list_all_iff distinct_update dest!: alist_update_set)

lemma table_wf_filter: "table_wf P al \<Longrightarrow> table_wf P (filter Q al)"
  by (auto simp: table_wf_def list_all_iff distinct_map_filter)

lemma table_wf_delete: "table_wf P al \<Longrightarrow> table_wf P (AList.delete k al)"
  unfolding AList.delete_eq by (rule table_wf_filter)

lemma table_wf_lookup: "table_wf P al \<Longrightarrow> map_of al k = Some v \<Longrightarrow> P k v"
  by (auto simp: table_wf_def list_all_iff dest: map_of_SomeD)

lemma table_wf_mono: "table_wf P al \<Longrightarrow> (\<And>k v. P k v \<Longrightarrow> Q k v) \<Longrightarrow> table_wf Q al"
  by (auto simp: table_wf_def list_all_iff)

lemma table_wf_distinct: "table_wf P al \<Longrightarrow> distinct (map fst al)"
  by (simp add: table_wf_def)

lemma table_wf_iff_lookup:
  "table_wf P al \<longleftrightarrow> distinct (map fst al) \<and> (\<forall>k v. map_of al k = Some v \<longrightarrow> P k v)"
  by (auto simp: table_wf_def list_all_iff dest: map_of_SomeD)

lemma table_wf_change:
  assumes "table_wf P al" and "Q k v" and "\<And>k' v'. k' \<noteq> k \<Longrightarrow> P k' v' \<Longrightarrow> Q k' v'"
  shows "table_wf Q (AList.update k v al)"
  using assms by (auto simp: table_wf_iff_lookup distinct_update update_conv')

lemma map_of_filter:
  assumes "distinct (map fst al)"
  shows "map_of (filter (\<lambda>(k, v). Q k v) al) k =
    (case map_of al k of None \<Rightarrow> None | Some v \<Rightarrow> if Q k v then Some v else None)"
  using assms by (induction al) (auto split: option.splits simp: map_of_eq_None_iff image_iff)

text \<open>Counting the entries of a list, for the requests a session has open.\<close>

lemma count_list_remove1:
  "count_list (remove1 x xs) y = (if y = x then count_list xs y - 1 else count_list xs y)"
  by (induction xs) (auto simp: count_list_0_iff Suc_diff_le)

lemma count_list_pos: "0 < count_list xs x \<longleftrightarrow> x \<in> set xs"
  using count_list_0_iff [of xs x] by auto

end
