(* ===== verification/DaRuntime.thy ===== *)
theory DaRuntime
  imports DaArrays Tables
begin

text \<open>
  The platform-independent part of the DA runtime: its configuration and limits
  (\<^verbatim>\<open>src/internal/opcda/runtime.go\<close>), the reconnect delay
  (\<^verbatim>\<open>src/internal/opcda/reconnect.go\<close>) and the cache of item registrations
  (\<^verbatim>\<open>src/internal/opcda/registration.go\<close>).
\<close>

type_synonym DAItemID = gostring

section \<open>Limits and configuration\<close>

text \<open>
  \<^verbatim>\<open>Limits\<close>. The two fields that \<^verbatim>\<open>ArrayLimits\<close> also has carry an \<open>R\<close> here.
\<close>

record Limits =
  CommandQueue :: int
  MaxReadItems :: int
  MaxWriteItems :: int
  MaxBrowseEntries :: int
  MaxBrowseDepth :: int
  MaxRegisteredItems :: int
  MaxItemIDBytes :: int
  RMaxBSTRCodeUnits :: int
  MaxSubscriptions :: int
  MaxSubscriptionItems :: int
  MaxItemProperties :: int
  MaxArrayElements :: int
  MaxArrayDimensions :: int
  RMaxArrayBSTRCodeUnits :: int

definition DefaultLimits :: Limits where
  "DefaultLimits = \<lparr>
     CommandQueue = 64, MaxReadItems = 100, MaxWriteItems = 100, MaxBrowseEntries = 1000,
     MaxBrowseDepth = 64, MaxRegisteredItems = 1024, MaxItemIDBytes = 1024,
     RMaxBSTRCodeUnits = 65536, MaxSubscriptions = 16, MaxSubscriptionItems = 100,
     MaxItemProperties = 64, MaxArrayElements = 1024, MaxArrayDimensions = 4,
     RMaxArrayBSTRCodeUnits = 65536\<rparr>"

definition Limits_ArrayLimits :: "Limits \<Rightarrow> ArrayLimits" where
  "Limits_ArrayLimits l = \<lparr>
     MaxElements = MaxArrayElements l,
     MaxDimensions = MaxArrayDimensions l,
     MaxBSTRCodeUnits = RMaxBSTRCodeUnits l,
     MaxArrayBSTRCodeUnits = RMaxArrayBSTRCodeUnits l\<rparr>"

definition maximumRuntimeDuration :: int where "maximumRuntimeDuration = 24 * 3600 * 10 ^ 9"
definition maximumBatchBSTRUnits :: uint64 where "maximumBatchBSTRUnits = push_bit 20 8"
definition maximumBrowseBSTRUnits :: uint64 where "maximumBrowseBSTRUnits = push_bit 20 128"
definition maximumBatchItemIDBytes :: uint64 where "maximumBatchItemIDBytes = push_bit 20 64"
definition maximumCacheItemIDBytes :: uint64 where "maximumCacheItemIDBytes = push_bit 20 128"
definition maximumSubscriptionBSTRUnits :: uint64 where "maximumSubscriptionBSTRUnits = push_bit 20 128"
definition maximumSubscriptionItemIDBytes :: uint64 where "maximumSubscriptionItemIDBytes = push_bit 20 64"
definition maximumBatchArrayElements :: uint64 where "maximumBatchArrayElements = push_bit 20 1"
definition maximumBatchArrayBSTRUnits :: uint64 where "maximumBatchArrayBSTRUnits = push_bit 20 8"

text \<open>The conversion \<^verbatim>\<open>uint64(x)\<close> of an \<^verbatim>\<open>int\<close>.\<close>

definition u64 :: "int \<Rightarrow> uint64" where "u64 x = of_int x"

definition limits_positive :: "Limits \<Rightarrow> bool" where
  "limits_positive l \<longleftrightarrow> \<not> (CommandQueue l \<le> 0 \<or> MaxReadItems l \<le> 0 \<or> MaxWriteItems l \<le> 0 \<or>
     MaxBrowseEntries l \<le> 0 \<or> MaxBrowseDepth l \<le> 0 \<or> MaxRegisteredItems l \<le> 0 \<or>
     MaxItemIDBytes l \<le> 0 \<or> RMaxBSTRCodeUnits l \<le> 0 \<or> MaxSubscriptions l \<le> 0 \<or>
     MaxSubscriptionItems l \<le> 0 \<or> MaxItemProperties l \<le> 0 \<or> MaxArrayElements l \<le> 0 \<or>
     MaxArrayDimensions l \<le> 0 \<or> RMaxArrayBSTRCodeUnits l \<le> 0)"

definition limits_below_ceiling :: "Limits \<Rightarrow> bool" where
  "limits_below_ceiling l \<longleftrightarrow> \<not> (CommandQueue l > 4096 \<or> MaxReadItems l > 10000 \<or>
     MaxWriteItems l > 10000 \<or> MaxBrowseEntries l > 100000 \<or> MaxBrowseDepth l > 256 \<or>
     MaxRegisteredItems l > 1000000 \<or> MaxItemIDBytes l > 65536 \<or> RMaxBSTRCodeUnits l > 1048576 \<or>
     MaxSubscriptions l > 256 \<or> MaxSubscriptionItems l > 10000 \<or> MaxItemProperties l > 1024 \<or>
     MaxArrayElements l > 65536 \<or> MaxArrayDimensions l > 16 \<or> RMaxArrayBSTRCodeUnits l > 1048576)"

definition Limits_validate :: "Limits \<Rightarrow> da_error option" where
  "Limits_validate l =
     (if \<not> limits_positive l then Some OtherError
      else if \<not> limits_below_ceiling l then Some OtherError
      else if u64 (MaxReadItems l) * u64 (RMaxBSTRCodeUnits l) > maximumBatchBSTRUnits \<or>
        u64 (MaxWriteItems l) * u64 (RMaxBSTRCodeUnits l) > maximumBatchBSTRUnits then Some OtherError
      else if u64 (MaxBrowseEntries l) * u64 (RMaxBSTRCodeUnits l) * 2 > maximumBrowseBSTRUnits
        then Some OtherError
      else if u64 (MaxReadItems l) * u64 (MaxItemIDBytes l) > maximumBatchItemIDBytes \<or>
        u64 (MaxWriteItems l) * u64 (MaxItemIDBytes l) > maximumBatchItemIDBytes then Some OtherError
      else if u64 (MaxReadItems l) * u64 (MaxArrayElements l) > maximumBatchArrayElements \<or>
        u64 (MaxWriteItems l) * u64 (MaxArrayElements l) > maximumBatchArrayElements then Some OtherError
      else if u64 (MaxReadItems l) * u64 (RMaxArrayBSTRCodeUnits l) > maximumBatchArrayBSTRUnits \<or>
        u64 (MaxWriteItems l) * u64 (RMaxArrayBSTRCodeUnits l) > maximumBatchArrayBSTRUnits
        then Some OtherError
      else if u64 (MaxRegisteredItems l) * u64 (MaxItemIDBytes l) > maximumCacheItemIDBytes
        then Some OtherError
      else if u64 (MaxSubscriptions l) * u64 (MaxSubscriptionItems l) * u64 (RMaxBSTRCodeUnits l) >
        maximumSubscriptionBSTRUnits then Some OtherError
      else if u64 (MaxSubscriptions l) * u64 (MaxSubscriptionItems l) * u64 (MaxItemIDBytes l) >
        maximumSubscriptionItemIDBytes then Some OtherError
      else None)"

record SourceConfig =
  ProgID :: gostring
  CLSID :: gostring

record Config =
  Source :: SourceConfig
  WriteEnabled :: bool
  cLimits :: Limits
  ReconnectInitial :: int
  ReconnectMax :: int
  COMCallWatchdog :: int
  CollectTimings :: bool

definition second :: int where "second = 10 ^ 9"

definition Config_withDefaults :: "Config \<Rightarrow> Config" where
  "Config_withDefaults c = c\<lparr>
     ReconnectInitial := (if ReconnectInitial c = 0 then second else ReconnectInitial c),
     ReconnectMax := (if ReconnectMax c = 0 then 30 * second else ReconnectMax c),
     COMCallWatchdog := (if COMCallWatchdog c = 0 then 30 * second else COMCallWatchdog c)\<rparr>"

definition Config_validate :: "Config \<Rightarrow> da_error option" where
  "Config_validate c = (case Limits_validate (cLimits c) of
       Some er \<Rightarrow> Some er
     | None \<Rightarrow>
         if ReconnectInitial c \<le> 0 \<or> ReconnectMax c \<le> 0 \<or> COMCallWatchdog c \<le> 0 then Some OtherError
         else if ReconnectInitial c > ReconnectMax c then Some OtherError
         else if ReconnectMax c > maximumRuntimeDuration \<or> COMCallWatchdog c > maximumRuntimeDuration
           then Some OtherError
         else None)"

definition ValidateForConfiguration :: "Config \<Rightarrow> da_error option" where
  "ValidateForConfiguration c = Config_validate (Config_withDefaults c)"

section \<open>Reconnect\<close>

definition connectionLossCodes :: "HRESULT list" where
  "connectionLossCodes = [-2147418106, -2147418105, -2147418094, -2147417848, -2147220995,
     -2147023174, -2147023170, -2147023169]"

definition isConnectionLossHRESULT :: "HRESULT \<Rightarrow> bool" where
  "isConnectionLossHRESULT hr \<longleftrightarrow> hr \<in> set connectionLossCodes"

definition isConnectionLoss :: "da_error option \<Rightarrow> bool" where
  "isConnectionLoss er = (case AsSourceError er of None \<Rightarrow> False | Some hr \<Rightarrow> isConnectionLossHRESULT hr)"

text \<open>The loop of \<^verbatim>\<open>reconnectDelay\<close>, over the attempts still to count.\<close>

fun backoff :: "nat \<Rightarrow> int \<Rightarrow> int \<Rightarrow> int" where
  "backoff 0 base maximum = base"
| "backoff (Suc n) base maximum =
     (if base < maximum
      then backoff n (if base > go_quot maximum 2 then maximum else i64 (base * 2)) maximum
      else base)"

text \<open>The rest of \<^verbatim>\<open>reconnectDelay\<close>: the jitter on the capped base.\<close>

definition jitteredDelay :: "int \<Rightarrow> int \<Rightarrow> int \<Rightarrow> int \<Rightarrow> int" where
  "jitteredDelay base initial maximum permille =
     (let finish = (\<lambda>delay. let d = (if delay \<le> 0 then initial else delay)
                           in if d > maximum then maximum else d)
      in if permille \<le> 1000 then finish (i64 (go_quot base 1000 * permille))
         else let extra = i64 (go_quot base 1000 * (permille - 1000))
              in if base \<ge> i64 (maximum - extra) then maximum else finish (i64 (base + extra)))"

definition reconnectDelay :: "uint32 \<Rightarrow> int \<Rightarrow> int \<Rightarrow> uint64 \<Rightarrow> int" where
  "reconnectDelay attempt initial maximum jitterValue =
     (let b = backoff (unat attempt) initial maximum;
          base = (if b > maximum then maximum else b)
      in jitteredDelay base initial maximum (uint (800 + jitterValue mod 401)))"

section \<open>The registration cache\<close>

record DAAccessRights =
  arRaw :: uint32
  arRead :: bool
  arWrite :: bool

text \<open>A value with its quality, timestamp and rights, as a read or a notification delivers it.\<close>

record DAValue =
  davItemID :: DAItemID
  davVarType :: DAVarType
  davValue :: da_value
  QualityRaw :: uint16
  Timestamp :: gotime
  TimestampPresent :: bool
  davHRESULT :: HRESULT
  davAccessRights :: "DAAccessRights option"

record itemRegistration =
  ItemID :: DAItemID
  ServerHandle :: uint32
  CanonicalType :: DAVarType
  AccessRights :: DAAccessRights
  Generation :: uint64

text \<open>The Go map is an association list with distinct keys, so \<^verbatim>\<open>len\<close> is its length.\<close>

record registrationCache =
  cmaximum :: int
  cgeneration :: uint64
  citems :: "(DAItemID \<times> itemRegistration) list"

definition newRegistrationCache :: "int \<Rightarrow> uint64 \<Rightarrow> registrationCache" where
  "newRegistrationCache maximum generation =
     \<lparr>cmaximum = maximum, cgeneration = generation, citems = []\<rparr>"

definition cache_get :: "registrationCache \<Rightarrow> DAItemID \<Rightarrow> itemRegistration option" where
  "cache_get cache itemID = (case map_of (citems cache) itemID of
       None \<Rightarrow> None
     | Some registration \<Rightarrow>
         if Generation registration \<noteq> cgeneration cache then None else Some registration)"

definition cache_put :: "registrationCache \<Rightarrow> itemRegistration \<Rightarrow> bool \<times> registrationCache" where
  "cache_put cache registration =
     (if Generation registration \<noteq> cgeneration cache then (False, cache)
      else if map_of (citems cache) (ItemID registration) = None \<and>
              int (length (citems cache)) \<ge> cmaximum cache then (False, cache)
      else (True, cache\<lparr>citems := AList.update (ItemID registration) registration (citems cache)\<rparr>))"

definition cache_remaining :: "registrationCache \<Rightarrow> int" where
  "cache_remaining cache = (let remaining = cmaximum cache - int (length (citems cache))
     in if remaining < 0 then 0 else remaining)"

definition cache_reset :: "registrationCache \<Rightarrow> uint64 \<Rightarrow> registrationCache" where
  "cache_reset cache generation = cache\<lparr>cgeneration := generation, citems := []\<rparr>"

section \<open>Laws of the limits\<close>

lemma u64_mult: "u64 a * u64 b = u64 (a * b)" "u64 a * 2 = u64 (a * 2)"
  by (simp_all add: u64_def)

lemma u64_greater: "0 \<le> p \<Longrightarrow> p < 2 ^ 64 \<Longrightarrow> u64 p > c \<longleftrightarrow> p > uint c"
  by (simp add: u64_def word_less_def uint_word_of_int)

lemma product_bound: "0 < a \<Longrightarrow> a \<le> m \<Longrightarrow> 0 < b \<Longrightarrow> b \<le> n \<Longrightarrow> 0 \<le> a * b \<and> a * b \<le> m * n" for a b m n :: int
  by (auto intro: mult_mono)

definition within_budgets :: "Limits \<Rightarrow> bool" where
  "within_budgets l \<longleftrightarrow>
     max (MaxReadItems l) (MaxWriteItems l) * RMaxBSTRCodeUnits l \<le> 8 * 2 ^ 20 \<and>
     2 * MaxBrowseEntries l * RMaxBSTRCodeUnits l \<le> 128 * 2 ^ 20 \<and>
     max (MaxReadItems l) (MaxWriteItems l) * MaxItemIDBytes l \<le> 64 * 2 ^ 20 \<and>
     max (MaxReadItems l) (MaxWriteItems l) * MaxArrayElements l \<le> 2 ^ 20 \<and>
     max (MaxReadItems l) (MaxWriteItems l) * RMaxArrayBSTRCodeUnits l \<le> 8 * 2 ^ 20 \<and>
     MaxRegisteredItems l * MaxItemIDBytes l \<le> 128 * 2 ^ 20 \<and>
     MaxSubscriptions l * MaxSubscriptionItems l * RMaxBSTRCodeUnits l \<le> 128 * 2 ^ 20 \<and>
     MaxSubscriptions l * MaxSubscriptionItems l * MaxItemIDBytes l \<le> 64 * 2 ^ 20"

lemma budget_pair:
  assumes "0 < a" "a \<le> m" "0 < b" "b \<le> n" "m * n < 2 ^ 64"
  shows "u64 (a * b) > c \<longleftrightarrow> a * b > uint c"
  using product_bound [OF assms(1-4)] assms(5) by (intro u64_greater) auto

lemma budget_triple:
  assumes "0 < a" "a \<le> m" "0 < b" "b \<le> n" "0 < d" "d \<le> k" "m * n * k < 2 ^ 64"
  shows "u64 (a * b * d) > c \<longleftrightarrow> a * b * d > uint c"
proof (rule u64_greater)
  have "0 < a * b" "a * b \<le> m * n" using product_bound [OF assms(1-4)] assms(1,3) by auto
  from product_bound [OF this assms(5,6)] assms(7)
  show "0 \<le> a * b * d" "a * b * d < 2 ^ 64" by auto
qed

lemma max_mult_le: "0 \<le> c \<Longrightarrow> max a b * c \<le> k \<longleftrightarrow> a * c \<le> k \<and> b * c \<le> k" for a b c k :: int
  using mult_right_mono [of a b c] mult_right_mono [of b a c] by (auto simp: max_def)

text \<open>
  Claim C38: limits pass validation exactly when all are positive, none exceeds its ceiling,
  and every aggregate budget (what one batch, one Browse, the registration cache, and all
  subscriptions together may hold) is kept as a product of integers: no \<^verbatim>\<open>uint64\<close>
  product wraps.
\<close>
theorem Limits_validate_exact:
  "Limits_validate l = None \<longleftrightarrow> limits_positive l \<and> limits_below_ceiling l \<and> within_budgets l"
proof (cases "limits_positive l \<and> limits_below_ceiling l")
  case False
  then show ?thesis by (auto simp: Limits_validate_def)
next
  case True
  note b = True [unfolded limits_positive_def limits_below_ceiling_def]
  have budgets:
    "u64 (MaxReadItems l * RMaxBSTRCodeUnits l) > maximumBatchBSTRUnits \<longleftrightarrow>
       MaxReadItems l * RMaxBSTRCodeUnits l > uint maximumBatchBSTRUnits"
    "u64 (MaxWriteItems l * RMaxBSTRCodeUnits l) > maximumBatchBSTRUnits \<longleftrightarrow>
       MaxWriteItems l * RMaxBSTRCodeUnits l > uint maximumBatchBSTRUnits"
    "u64 (MaxReadItems l * MaxItemIDBytes l) > maximumBatchItemIDBytes \<longleftrightarrow>
       MaxReadItems l * MaxItemIDBytes l > uint maximumBatchItemIDBytes"
    "u64 (MaxWriteItems l * MaxItemIDBytes l) > maximumBatchItemIDBytes \<longleftrightarrow>
       MaxWriteItems l * MaxItemIDBytes l > uint maximumBatchItemIDBytes"
    "u64 (MaxReadItems l * MaxArrayElements l) > maximumBatchArrayElements \<longleftrightarrow>
       MaxReadItems l * MaxArrayElements l > uint maximumBatchArrayElements"
    "u64 (MaxWriteItems l * MaxArrayElements l) > maximumBatchArrayElements \<longleftrightarrow>
       MaxWriteItems l * MaxArrayElements l > uint maximumBatchArrayElements"
    "u64 (MaxReadItems l * RMaxArrayBSTRCodeUnits l) > maximumBatchArrayBSTRUnits \<longleftrightarrow>
       MaxReadItems l * RMaxArrayBSTRCodeUnits l > uint maximumBatchArrayBSTRUnits"
    "u64 (MaxWriteItems l * RMaxArrayBSTRCodeUnits l) > maximumBatchArrayBSTRUnits \<longleftrightarrow>
       MaxWriteItems l * RMaxArrayBSTRCodeUnits l > uint maximumBatchArrayBSTRUnits"
    "u64 (MaxRegisteredItems l * MaxItemIDBytes l) > maximumCacheItemIDBytes \<longleftrightarrow>
       MaxRegisteredItems l * MaxItemIDBytes l > uint maximumCacheItemIDBytes"
    by (rule budget_pair [where m = 1000000 and n = 1048576]; use b in simp)+
  have triples:
    "u64 (MaxBrowseEntries l * RMaxBSTRCodeUnits l * 2) > maximumBrowseBSTRUnits \<longleftrightarrow>
       MaxBrowseEntries l * RMaxBSTRCodeUnits l * 2 > uint maximumBrowseBSTRUnits"
    "u64 (MaxSubscriptions l * MaxSubscriptionItems l * RMaxBSTRCodeUnits l) > maximumSubscriptionBSTRUnits \<longleftrightarrow>
       MaxSubscriptions l * MaxSubscriptionItems l * RMaxBSTRCodeUnits l > uint maximumSubscriptionBSTRUnits"
    "u64 (MaxSubscriptions l * MaxSubscriptionItems l * MaxItemIDBytes l) > maximumSubscriptionItemIDBytes \<longleftrightarrow>
       MaxSubscriptions l * MaxSubscriptionItems l * MaxItemIDBytes l > uint maximumSubscriptionItemIDBytes"
    by (rule budget_triple [where m = 100000 and n = 1048576 and k = 1048576]; use b in simp)+
  have maxima: "uint maximumBatchBSTRUnits = 8 * 2 ^ 20" "uint maximumBrowseBSTRUnits = 128 * 2 ^ 20"
    "uint maximumBatchItemIDBytes = 64 * 2 ^ 20" "uint maximumBatchArrayElements = 2 ^ 20"
    "uint maximumBatchArrayBSTRUnits = 8 * 2 ^ 20" "uint maximumCacheItemIDBytes = 128 * 2 ^ 20"
    "uint maximumSubscriptionBSTRUnits = 128 * 2 ^ 20" "uint maximumSubscriptionItemIDBytes = 64 * 2 ^ 20"
    by (code_simp)+
  have "0 \<le> RMaxBSTRCodeUnits l" "0 \<le> MaxItemIDBytes l" "0 \<le> MaxArrayElements l"
    "0 \<le> RMaxArrayBSTRCodeUnits l" using b by auto
  note pairs = this [THEN max_mult_le]
  show ?thesis
    unfolding Limits_validate_def within_budgets_def u64_mult budgets triples maxima pairs
    using True by (auto simp: not_less mult.commute mult.left_commute)
qed

section \<open>Laws of the reconnect delay\<close>

text \<open>The loop computes the capped power of two without overflow.\<close>

lemma backoff_eq:
  assumes "0 < base" and "base \<le> maximum" and "maximum \<le> MaxInt64"
  shows "backoff n base maximum = min maximum (base * 2 ^ n)"
  using assms(1,2)
proof (induction n arbitrary: base)
  case 0
  then show ?case by simp
next
  case (Suc n)
  let ?next = "if base > go_quot maximum 2 then maximum else i64 (base * 2)"
  have q: "go_quot maximum 2 = maximum div 2" using Suc.prems by (simp add: go_quot_nonneg)
  show ?case
  proof (cases "base < maximum")
    case False
    then have "base = maximum" using Suc.prems by simp
    moreover have "base * 1 \<le> base * 2 ^ Suc n"
      using Suc.prems one_le_power [of "2 :: int" "Suc n"] by (intro mult_left_mono) auto
    ultimately show ?thesis by (simp add: min_def)
  next
    case True
    show ?thesis
    proof (cases "base > maximum div 2")
      case big: True
      have "maximum < base * 2" using big by linarith
      also have "base * 2 * 1 \<le> base * 2 * 2 ^ n"
        using Suc.prems one_le_power [of "2 :: int" n] by (intro mult_left_mono) auto
      finally have "maximum \<le> base * 2 ^ Suc n" by (simp add: mult.assoc)
      moreover have "backoff n maximum maximum = maximum" by (cases n) auto
      ultimately show ?thesis using True big by (simp add: q min_def)
    next
      case small: False
      then have "base * 2 \<le> maximum" by linarith
      moreover from this have "i64 (base * 2) = base * 2"
        by (intro i64_nonneg) (use Suc.prems assms(3) in auto)
      ultimately show ?thesis
        using True small Suc.IH [of "base * 2"] Suc.prems by (simp add: q mult.assoc)
    qed
  qed
qed

lemma permille_range: "800 \<le> uint (800 + j mod 401)" "uint (800 + j mod 401) \<le> 1200" for j :: uint64
proof -
  have m: "0 \<le> uint (j mod 401)" "uint (j mod 401) < 401"
    by (simp_all add: uint_mod_distrib)
  then have "uint (800 + j mod 401) = 800 + uint (j mod 401)"
    by (simp add: uint_word_ariths)
  with m show "800 \<le> uint (800 + j mod 401)" "uint (800 + j mod 401) \<le> 1200" by auto
qed

lemma jitteredDelay_bounds:
  assumes base: "0 < base" "base \<le> maximum" and i: "0 < initial" "initial \<le> maximum"
    and m: "maximum \<le> MaxInt64" and p: "800 \<le> p" "p \<le> 1200"
  defines "delay \<equiv> jitteredDelay base initial maximum p"
  shows "0 < delay \<and> delay \<le> maximum \<and>
    (1000 \<le> base \<longrightarrow> base div 1000 * 800 \<le> delay \<and> delay \<le> base + base div 1000 * 200)"
proof -
  let ?k = "base div 1000"
  have k: "go_quot base 1000 = ?k" "0 \<le> ?k" "?k * 1000 \<le> base"
    using base(1) by (simp_all add: go_quot_nonneg)
  have scaled: "?k * q \<le> ?k * r" if "q \<le> r" for q r
    using that k(2) by (rule mult_left_mono)
  show ?thesis
  proof (cases "p \<le> 1000")
    case True
    have le: "0 \<le> ?k * p" "?k * p \<le> base" using k(2,3) p(1) scaled [OF True] by auto
    then have "i64 (?k * p) = ?k * p" using base(2) m by (intro i64_nonneg) auto
    then have d: "delay = (if ?k * p \<le> 0 then initial else ?k * p)"
      using True base i le by (simp add: delay_def jitteredDelay_def Let_def k(1))
    have "1000 \<le> base \<Longrightarrow> 0 < ?k" by (simp add: pos_imp_zdiv_pos_iff)
    then show ?thesis
      using d p(1) base i le k(2,3) scaled [OF p(1)] by (auto simp: mult_le_0_iff)
  next
    case False
    let ?e = "?k * (p - 1000)"
    have e: "0 \<le> ?e" "?e \<le> ?k * 200"
      using False p(2) k(2) scaled [of "p - 1000" 200] by auto
    have e': "?e \<le> base" using e(2) k(2,3) by linarith
    have w: "i64 ?e = ?e" "i64 (maximum - ?e) = maximum - ?e"
      using e(1) e' base m by (auto intro!: i64_nonneg)
    show ?thesis
    proof (cases "base \<ge> maximum - ?e")
      case True
      then have "delay = maximum"
        using False by (simp add: delay_def jitteredDelay_def Let_def k(1) w)
      then show ?thesis using True base k(2,3) e by auto
    next
      case big: False
      have "i64 (base + ?e) = base + ?e"
        using big e(1) base m by (intro i64_nonneg) auto
      moreover have "\<not> base + ?e \<le> 0" using base(1) e(1) by linarith
      ultimately have "delay = base + ?e"
        using big False by (simp add: delay_def jitteredDelay_def Let_def k(1) w)
      then show ?thesis using big e base k(2,3) by auto
    qed
  qed
qed

text \<open>
  For every attempt count and jitter, with \<open>0 < initial \<le> maximum\<close> in the range
  of a \<^verbatim>\<open>time.Duration\<close>, the delay is positive and at most the maximum, and from a
  microsecond on it lies within 80 to 120 percent (computed on whole thousandths) of
  \<open>min maximum (initial * 2 ^ attempt)\<close>. No intermediate \<^verbatim>\<open>int64\<close> wraps.
\<close>
theorem reconnectDelay_bounds:
  fixes attempt :: uint32 and jitter :: uint64 and initial maximum :: int
  assumes "0 < initial" and "initial \<le> maximum" and "maximum \<le> MaxInt64"
  shows "let base = min maximum (initial * 2 ^ unat attempt);
             delay = reconnectDelay attempt initial maximum jitter
    in 0 < delay \<and> delay \<le> maximum \<and>
       (1000 \<le> base \<longrightarrow> base div 1000 * 800 \<le> delay \<and> delay \<le> base + base div 1000 * 200)"
proof -
  let ?base = "min maximum (initial * 2 ^ unat attempt)"
  have "reconnectDelay attempt initial maximum jitter =
      jitteredDelay ?base initial maximum (uint (800 + jitter mod 401))"
    using backoff_eq [OF assms] by (simp add: reconnectDelay_def Let_def)
  moreover have "0 < ?base" "?base \<le> maximum" using assms by auto
  ultimately show ?thesis
    using jitteredDelay_bounds [OF _ _ assms permille_range] by (simp add: Let_def)
qed

theorem reconnectDelay_bounds_witness:
  "0 < reconnectDelay 3 (10 ^ 9) (30 * 10 ^ 9) 7 \<and> reconnectDelay 3 (10 ^ 9) (30 * 10 ^ 9) 7 \<le> 30 * 10 ^ 9"
  using reconnectDelay_bounds [of "10 ^ 9" "30 * 10 ^ 9" 3 7] by (simp add: MaxInt64_def Let_def)

section \<open>Laws of the registration cache\<close>

text \<open>
  What the runtime relies on: a cache that answers what was put last for an item in the
  current generation, keeps to its maximum, and forgets everything on a reset.
\<close>

locale item_cache =
  fixes inv :: "'c \<Rightarrow> bool"
    and get :: "'c \<Rightarrow> DAItemID \<Rightarrow> itemRegistration option"
    and put :: "'c \<Rightarrow> itemRegistration \<Rightarrow> bool \<times> 'c"
    and remaining :: "'c \<Rightarrow> int"
    and reset :: "'c \<Rightarrow> uint64 \<Rightarrow> 'c"
    and generation :: "'c \<Rightarrow> uint64"
  assumes put_inv: "inv c \<Longrightarrow> inv (snd (put c r))"
    and put_generation: "generation (snd (put c r)) = generation c"
    and put_accepts: "inv c \<Longrightarrow> fst (put c r) \<longleftrightarrow>
      Generation r = generation c \<and> (get c (ItemID r) \<noteq> None \<or> remaining c > 0)"
    and put_get: "inv c \<Longrightarrow> fst (put c r) \<Longrightarrow> get (snd (put c r)) = (get c)(ItemID r \<mapsto> r)"
    and put_refused: "\<not> fst (put c r) \<Longrightarrow> snd (put c r) = c"
    and put_remaining: "inv c \<Longrightarrow> fst (put c r) \<Longrightarrow>
      remaining (snd (put c r)) = remaining c - (if get c (ItemID r) = None then 1 else 0)"
    and get_current: "inv c \<Longrightarrow> get c i = Some r \<Longrightarrow> Generation r = generation c \<and> ItemID r = i"
    and remaining_nonneg: "0 \<le> remaining c"
    and reset_get: "get (reset c g) i = None"
    and reset_generation: "generation (reset c g) = g"
    and reset_inv: "inv c \<Longrightarrow> inv (reset c g)"
begin

text \<open>Registering a batch, one item after the other.\<close>

primrec puts :: "'c \<Rightarrow> itemRegistration list \<Rightarrow> 'c" where
  "puts c [] = c"
| "puts c (r # rs) = puts (snd (put c r)) rs"

lemma puts_inv: "inv c \<Longrightarrow> inv (puts c rs)" "generation (puts c rs) = generation c"
  by (induction rs arbitrary: c) (auto simp: put_inv put_generation)

lemma puts_other: "inv c \<Longrightarrow> i \<notin> ItemID ` set rs \<Longrightarrow> get (puts c rs) i = get c i"
proof (induction rs arbitrary: c)
  case (Cons r rs)
  have "get (snd (put c r)) i = get c i"
    using Cons.prems put_get [of c r] put_refused [of c r] by (cases "fst (put c r)") auto
  then show ?case using Cons by (simp add: put_inv)
qed simp

text \<open>
  A batch of new items of the current generation that fits in what remains is all
  retrievable afterwards.
\<close>

lemma puts_get:
  assumes "inv c" and "distinct (map ItemID rs)" and "\<forall>r \<in> set rs. Generation r = generation c"
    and "\<forall>r \<in> set rs. get c (ItemID r) = None" and "int (length rs) \<le> remaining c"
    and "r \<in> set rs"
  shows "get (puts c rs) (ItemID r) = Some r"
  using assms
proof (induction rs arbitrary: c)
  case (Cons x xs)
  let ?c = "snd (put c x)"
  have acc: "fst (put c x)" using Cons.prems by (auto simp: put_accepts)
  have g: "get ?c = (get c)(ItemID x \<mapsto> x)" by (rule put_get [OF Cons.prems(1) acc])
  have c: "inv ?c" "generation ?c = generation c" "remaining ?c = remaining c - 1"
    using Cons.prems put_remaining [OF Cons.prems(1) acc] by (auto simp: put_inv put_generation)
  show ?case
  proof (cases "r = x")
    case True
    have "ItemID x \<notin> ItemID ` set xs" using Cons.prems(2) by simp
    then show ?thesis using True puts_other [OF c(1), of "ItemID x" xs] g by simp
  next
    case False
    have "get (puts ?c xs) (ItemID r) = Some r"
      by (rule Cons.IH) (use Cons.prems False c g in \<open>auto simp: image_iff\<close>)
    then show ?thesis by simp
  qed
qed simp

end

definition cache_inv :: "registrationCache \<Rightarrow> bool" where
  "cache_inv c \<longleftrightarrow> distinct (map fst (citems c)) \<and>
     list_all (\<lambda>(i, r). ItemID r = i \<and> Generation r = cgeneration c) (citems c) \<and>
     (0 \<le> cmaximum c \<longrightarrow> int (length (citems c)) \<le> cmaximum c)"

lemma cache_get_eq: "cache_inv c \<Longrightarrow> cache_get c i = map_of (citems c) i"
  by (auto simp: cache_get_def cache_inv_def list_all_iff split: option.splits dest!: map_of_SomeD)

lemma cache_put_inv: "cache_inv c \<Longrightarrow> cache_inv (snd (cache_put c r))"
proof (cases "fst (cache_put c r)")
  case True
  assume c: "cache_inv c"
  let ?P = "\<lambda>i r. ItemID r = i \<and> Generation r = cgeneration c"
  let ?al = "AList.update (ItemID r) r (citems c)"
  have p: "snd (cache_put c r) = c\<lparr>citems := ?al\<rparr>" and g: "Generation r = cgeneration c"
    and room: "map_of (citems c) (ItemID r) = None \<Longrightarrow> int (length (citems c)) < cmaximum c"
    using True by (auto simp: cache_put_def split: if_splits)
  have "table_wf ?P (citems c)" using c by (simp add: cache_inv_def table_wf_def)
  then have "table_wf ?P ?al" using g by (intro table_wf_update) auto
  moreover have "0 \<le> cmaximum c \<longrightarrow> int (length ?al) \<le> cmaximum c"
    using c room by (auto simp: cache_inv_def length_update)
  ultimately show ?thesis by (simp add: p cache_inv_def table_wf_def)
next
  case False
  then show "cache_inv c \<Longrightarrow> ?thesis" by (auto simp: cache_put_def split: if_splits)
qed

interpretation registrations:
  item_cache cache_inv cache_get cache_put cache_remaining cache_reset cgeneration
proof unfold_locales
  fix c r i g
  show "cgeneration (snd (cache_put c r)) = cgeneration c"
    by (simp add: cache_put_def)
  show "\<not> fst (cache_put c r) \<Longrightarrow> snd (cache_put c r) = c"
    by (auto simp: cache_put_def split: if_splits)
  show "0 \<le> cache_remaining c"
    by (simp add: cache_remaining_def Let_def)
  show "cache_get (cache_reset c g) i = None" "cgeneration (cache_reset c g) = g"
    by (simp_all add: cache_get_def cache_reset_def)
  assume c: "cache_inv c"
  then show "cache_inv (snd (cache_put c r))" by (rule cache_put_inv)
  show "fst (cache_put c r) \<longleftrightarrow> Generation r = cgeneration c \<and>
      (cache_get c (ItemID r) \<noteq> None \<or> cache_remaining c > 0)"
    by (auto simp: cache_put_def cache_get_eq [OF c] cache_remaining_def Let_def)
  show "cache_inv (cache_reset c g)"
    by (simp add: cache_inv_def cache_reset_def)
  show "cache_get c i = Some r \<Longrightarrow> Generation r = cgeneration c \<and> ItemID r = i"
    using c by (auto simp: cache_get_eq [OF c] cache_inv_def list_all_iff dest!: map_of_SomeD)
  assume acc: "fst (cache_put c r)"
  show "cache_get (snd (cache_put c r)) = (cache_get c)(ItemID r \<mapsto> r)"
    using cache_put_inv [OF c, of r] acc
    by (auto simp: fun_eq_iff cache_get_eq [OF c] cache_get_eq update_conv' cache_put_def split: if_splits)
  show "cache_remaining (snd (cache_put c r)) =
      cache_remaining c - (if cache_get c (ItemID r) = None then 1 else 0)"
    using acc by (cases "map_of (citems c) (ItemID r)")
      (auto simp: cache_get_eq [OF c] cache_put_def cache_remaining_def Let_def alist_update_new
        length_update_old split: if_splits)
qed

text \<open>
  Claim C36: in every cache the operations can build, within its maximum, an item put is
  found as put and the others as before; a put is refused, changing nothing, exactly when
  it is of another generation, or new in a full cache; no lookup returns an entry of
  another generation.
\<close>
theorem registration_cache_correct:
  assumes "cache_inv c"
  shows "cache_inv (snd (cache_put c r)) \<and>
    (fst (cache_put c r) \<longleftrightarrow> Generation r = cgeneration c \<and>
       (cache_get c (ItemID r) \<noteq> None \<or> cache_remaining c > 0)) \<and>
    cache_get (snd (cache_put c r)) =
      (if fst (cache_put c r) then (cache_get c)(ItemID r \<mapsto> r) else cache_get c) \<and>
    (\<forall>x. cache_get c i = Some x \<longrightarrow> Generation x = cgeneration c \<and> ItemID x = i) \<and>
    cache_inv (cache_reset c g) \<and> cache_get (cache_reset c g) i = None"
  using assms registrations.put_inv registrations.put_accepts registrations.put_get
    registrations.put_refused registrations.get_current registrations.reset_get registrations.reset_inv
  by (auto simp: Let_def)

definition registration_sample :: itemRegistration where
  "registration_sample = \<lparr>ItemID = [65], ServerHandle = 7, CanonicalType = VTR8,
     AccessRights = \<lparr>arRaw = 3, arRead = True, arWrite = True\<rparr>, Generation = 2\<rparr>"

theorem registration_cache_correct_witness:
  "fst (cache_put (newRegistrationCache 1 2) registration_sample) \<and>
   cache_get (snd (cache_put (newRegistrationCache 1 2) registration_sample)) [65] =
     Some registration_sample"
proof -
  have "cache_inv (newRegistrationCache 1 2)" by code_simp
  from registration_cache_correct [OF this, of registration_sample "[65]" 0]
  show ?thesis
    by (simp add: registration_sample_def cache_remaining_def newRegistrationCache_def)
qed

end
