(* ===== verification/NodeIds.thy ===== *)
theory NodeIds
  imports DateTime
begin

text \<open>
  The identifiers and headers of \<^verbatim>\<open>src/internal/opcua/nodeid.go\<close>: NodeId,
  ExpandedNodeId, QualifiedName, LocalizedText, ExtensionObject, DiagnosticInfo and
  the request and response headers. Each group has the writer and the reader, the
  wire format the specification gives the type, and the codec that joins them.
\<close>

section \<open>NodeId\<close>

text \<open>\<^verbatim>\<open>NodeIDType\<close> is an unsigned byte; four of its values are named.\<close>

type_synonym NodeIDType = "8 word"

definition NodeIDTypeNumeric :: NodeIDType where "NodeIDTypeNumeric = 0"
definition NodeIDTypeString :: NodeIDType where "NodeIDTypeString = 1"
definition NodeIDTypeGuid :: NodeIDType where "NodeIDTypeGuid = 2"
definition NodeIDTypeOpaque :: NodeIDType where "NodeIDTypeOpaque = 3"

definition nodeIDEncodingTwoByte :: byte where "nodeIDEncodingTwoByte = 0x00"
definition nodeIDEncodingFourByte :: byte where "nodeIDEncodingFourByte = 0x01"
definition nodeIDEncodingNumeric :: byte where "nodeIDEncodingNumeric = 0x02"
definition nodeIDEncodingString :: byte where "nodeIDEncodingString = 0x03"
definition nodeIDEncodingGuid :: byte where "nodeIDEncodingGuid = 0x04"
definition nodeIDEncodingByteString :: byte where "nodeIDEncodingByteString = 0x05"
definition nodeIDEncodingMask :: byte where "nodeIDEncodingMask = 0x3F"
definition nodeIDFlagNamespaceURI :: byte where "nodeIDFlagNamespaceURI = 0x80"
definition nodeIDFlagServerIndex :: byte where "nodeIDFlagServerIndex = 0x40"

record NodeID =
  Namespace :: uint16
  Type :: NodeIDType
  Numeric :: uint32
  StringID :: gostring
  nGuid :: Guid
  Opaque :: "byte list"

definition zeroGuid :: Guid where
  "zeroGuid = \<lparr>Data1 = 0, Data2 = 0, Data3 = 0, Data4 = (0, 0, 0, 0, 0, 0, 0, 0)\<rparr>"

definition zeroNodeID :: NodeID where
  "zeroNodeID = \<lparr>Namespace = 0, Type = 0, Numeric = 0, StringID = [], nGuid = zeroGuid, Opaque = []\<rparr>"

definition NumericNodeID :: "uint16 \<Rightarrow> uint32 \<Rightarrow> NodeID" where
  "NumericNodeID ns i = zeroNodeID\<lparr>Namespace := ns, Type := NodeIDTypeNumeric, Numeric := i\<rparr>"

definition StringNodeID :: "uint16 \<Rightarrow> gostring \<Rightarrow> NodeID" where
  "StringNodeID ns i = zeroNodeID\<lparr>Namespace := ns, Type := NodeIDTypeString, StringID := i\<rparr>"

definition NodeID_IsNull :: "NodeID \<Rightarrow> bool" where
  "NodeID_IsNull n \<longleftrightarrow> Namespace n = 0 \<and> Type n = NodeIDTypeNumeric \<and> Numeric n = 0"

definition NodeID_Equal :: "NodeID \<Rightarrow> NodeID \<Rightarrow> bool" where
  "NodeID_Equal n m =
     (if Namespace n \<noteq> Namespace m \<or> Type n \<noteq> Type m then False
      else if Type n = NodeIDTypeString then StringID n = StringID m
      else if Type n = NodeIDTypeGuid then nGuid n = nGuid m
      else if Type n = NodeIDTypeOpaque then Opaque n = Opaque m
      else Numeric n = Numeric m)"

definition writeNodeIDWithFlags :: "NodeID \<Rightarrow> byte \<Rightarrow> Encoder \<Rightarrow> Encoder" where
  "writeNodeIDWithFlags v flags =
     (if Type v = NodeIDTypeNumeric then
        (if flags = 0 \<and> Namespace v = 0 \<and> Numeric v \<le> 0xFF then
           seqw [WriteByteValue nodeIDEncodingTwoByte, WriteByteValue (ucast (Numeric v))]
         else if flags = 0 \<and> Namespace v \<le> 0xFF \<and> Numeric v \<le> 0xFFFF then
           seqw [WriteByteValue nodeIDEncodingFourByte, WriteByteValue (ucast (Namespace v)),
                 WriteUInt16 (ucast (Numeric v))]
         else
           seqw [WriteByteValue (nodeIDEncodingNumeric OR flags), WriteUInt16 (Namespace v),
                 WriteUInt32 (Numeric v)])
      else if Type v = NodeIDTypeString then
        seqw [WriteByteValue (nodeIDEncodingString OR flags), WriteUInt16 (Namespace v),
              WriteString (StringID v)]
      else if Type v = NodeIDTypeGuid then
        seqw [WriteByteValue (nodeIDEncodingGuid OR flags), WriteUInt16 (Namespace v),
              WriteGuid (nGuid v)]
      else if Type v = NodeIDTypeOpaque then
        seqw [WriteByteValue (nodeIDEncodingByteString OR flags), WriteUInt16 (Namespace v),
              WriteByteString (Opaque v)]
      else efail encodingError)"

definition WriteNodeID :: "NodeID \<Rightarrow> Encoder \<Rightarrow> Encoder" where
  "WriteNodeID v = writeNodeIDWithFlags v 0"

definition readNodeIDWithFlags :: "(NodeID \<times> byte) reader" where
  "readNodeIDWithFlags = rbind ReadByteValue (\<lambda>encoding.
     let flags = encoding AND NOT nodeIDEncodingMask;
         form = encoding AND nodeIDEncodingMask
     in if form = nodeIDEncodingTwoByte then
          rbind ReadByteValue (\<lambda>i. rreturn (NumericNodeID 0 (ucast i), flags))
        else if form = nodeIDEncodingFourByte then
          rbind ReadByteValue (\<lambda>ns. rbind ReadUInt16 (\<lambda>i.
            rreturn (NumericNodeID (ucast ns) (ucast i), flags)))
        else if form = nodeIDEncodingNumeric then
          rbind ReadUInt16 (\<lambda>ns. rbind ReadUInt32 (\<lambda>i.
            rreturn (NumericNodeID ns i, flags)))
        else if form = nodeIDEncodingString then
          rbind ReadUInt16 (\<lambda>ns. rbind (orEmpty ReadString) (\<lambda>i.
            rreturn (StringNodeID ns i, flags)))
        else if form = nodeIDEncodingGuid then
          rbind ReadUInt16 (\<lambda>ns. rbind ReadGuid (\<lambda>i.
            rreturn (zeroNodeID\<lparr>Namespace := ns, Type := NodeIDTypeGuid, nGuid := i\<rparr>, flags)))
        else if form = nodeIDEncodingByteString then
          rbind ReadUInt16 (\<lambda>ns. rbind (orEmpty ReadByteString) (\<lambda>i.
            rreturn (zeroNodeID\<lparr>Namespace := ns, Type := NodeIDTypeOpaque, Opaque := i\<rparr>, flags)))
        else rfail decodingError)"

definition ReadNodeID :: "NodeID reader" where
  "ReadNodeID = rbind readNodeIDWithFlags (\<lambda>(v, flags).
     if flags \<noteq> 0 then rfail decodingError else rreturn v)"

section \<open>ExpandedNodeId\<close>

record ExpandedNodeID =
  xNodeID :: NodeID
  xNamespaceURI :: gostring
  xHasNamespaceURI :: bool
  xServerIndex :: uint32
  xHasServerIndex :: bool

definition expanded_flags :: "ExpandedNodeID \<Rightarrow> byte" where
  "expanded_flags v =
     (if xHasNamespaceURI v then nodeIDFlagNamespaceURI else 0) OR
     (if xHasServerIndex v then nodeIDFlagServerIndex else 0)"

definition WriteExpandedNodeID :: "ExpandedNodeID \<Rightarrow> Encoder \<Rightarrow> Encoder" where
  "WriteExpandedNodeID v =
     (let node = (if xHasNamespaceURI v then (xNodeID v)\<lparr>Namespace := 0\<rparr> else xNodeID v)
      in seqw
        [writeNodeIDWithFlags node (expanded_flags v),
         if xHasNamespaceURI v then WriteString (xNamespaceURI v) else seqw [],
         if xHasServerIndex v then WriteUInt32 (xServerIndex v) else seqw []])"

definition ReadExpandedNodeID :: "ExpandedNodeID reader" where
  "ReadExpandedNodeID = rbind readNodeIDWithFlags (\<lambda>(node, flags).
     rbind (if flags AND nodeIDFlagNamespaceURI \<noteq> 0 then orEmpty ReadString else rreturn []) (\<lambda>uri.
     rbind (if flags AND nodeIDFlagServerIndex \<noteq> 0 then ReadUInt32 else rreturn 0) (\<lambda>index.
     rreturn \<lparr>xNodeID = node, xNamespaceURI = uri,
        xHasNamespaceURI = (flags AND nodeIDFlagNamespaceURI \<noteq> 0),
        xServerIndex = index, xHasServerIndex = (flags AND nodeIDFlagServerIndex \<noteq> 0)\<rparr>)))"

section \<open>QualifiedName, LocalizedText, ExtensionObject\<close>

record QualifiedName =
  qNamespace :: uint16
  qName :: gostring

definition WriteQualifiedName :: "QualifiedName \<Rightarrow> Encoder \<Rightarrow> Encoder" where
  "WriteQualifiedName v = seqw [WriteUInt16 (qNamespace v), WriteString (qName v)]"

definition ReadQualifiedName :: "QualifiedName reader" where
  "ReadQualifiedName = rbind ReadUInt16 (\<lambda>ns. rbind (orEmpty ReadString) (\<lambda>name.
     rreturn \<lparr>qNamespace = ns, qName = name\<rparr>))"

definition localizedTextHasLocale :: byte where "localizedTextHasLocale = 0x01"
definition localizedTextHasText :: byte where "localizedTextHasText = 0x02"

record LocalizedText =
  lLocale :: gostring
  lText :: gostring

definition localized_mask :: "LocalizedText \<Rightarrow> byte" where
  "localized_mask v =
     (if lLocale v \<noteq> [] then localizedTextHasLocale else 0) OR
     (if lText v \<noteq> [] then localizedTextHasText else 0)"

definition WriteLocalizedText :: "LocalizedText \<Rightarrow> Encoder \<Rightarrow> Encoder" where
  "WriteLocalizedText v = (let mask = localized_mask v in seqw
     [WriteByteValue mask,
      if mask AND localizedTextHasLocale \<noteq> 0 then WriteString (lLocale v) else seqw [],
      if mask AND localizedTextHasText \<noteq> 0 then WriteString (lText v) else seqw []])"

definition ReadLocalizedText :: "LocalizedText reader" where
  "ReadLocalizedText = rbind ReadByteValue (\<lambda>mask.
     rbind (if mask AND localizedTextHasLocale \<noteq> 0 then orEmpty ReadString else rreturn []) (\<lambda>locale.
     rbind (if mask AND localizedTextHasText \<noteq> 0 then orEmpty ReadString else rreturn []) (\<lambda>text.
     rreturn \<lparr>lLocale = locale, lText = text\<rparr>)))"

definition ExtensionObjectNoBody :: byte where "ExtensionObjectNoBody = 0x00"
definition ExtensionObjectByteString :: byte where "ExtensionObjectByteString = 0x01"
definition ExtensionObjectXMLElement :: byte where "ExtensionObjectXMLElement = 0x02"

record ExtensionObject =
  TypeID :: NodeID
  Encoding :: byte
  Body :: "byte list"

definition NullExtensionObject :: ExtensionObject where
  "NullExtensionObject = \<lparr>TypeID = NumericNodeID 0 0, Encoding = ExtensionObjectNoBody, Body = []\<rparr>"

definition WriteExtensionObject :: "ExtensionObject \<Rightarrow> Encoder \<Rightarrow> Encoder" where
  "WriteExtensionObject v = seqw
     [WriteNodeID (TypeID v),
      if Encoding v = ExtensionObjectNoBody then WriteByteValue ExtensionObjectNoBody
      else if Encoding v = ExtensionObjectByteString \<or> Encoding v = ExtensionObjectXMLElement then
        seqw [WriteByteValue (Encoding v), WriteByteString (Body v)]
      else efail encodingError]"

definition ReadExtensionObject :: "ExtensionObject reader" where
  "ReadExtensionObject = rbind ReadNodeID (\<lambda>typeID. rbind ReadByteValue (\<lambda>encoding.
     if encoding = ExtensionObjectNoBody then
       rreturn \<lparr>TypeID = typeID, Encoding = encoding, Body = []\<rparr>
     else if encoding = ExtensionObjectByteString \<or> encoding = ExtensionObjectXMLElement then
       rbind (orEmpty ReadByteString) (\<lambda>body.
         rreturn \<lparr>TypeID = typeID, Encoding = encoding, Body = body\<rparr>)
     else rfail decodingError))"


section \<open>Codecs of the identifiers\<close>

lemma nodeid_types [simp]:
  "NodeIDTypeString \<noteq> NodeIDTypeNumeric" "NodeIDTypeGuid \<noteq> NodeIDTypeNumeric"
  "NodeIDTypeOpaque \<noteq> NodeIDTypeNumeric" "NodeIDTypeGuid \<noteq> NodeIDTypeString"
  "NodeIDTypeOpaque \<noteq> NodeIDTypeString" "NodeIDTypeOpaque \<noteq> NodeIDTypeGuid"
  by (simp_all add: NodeIDTypeNumeric_def NodeIDTypeString_def NodeIDTypeGuid_def NodeIDTypeOpaque_def)

definition nodeid_wire :: "byte \<Rightarrow> NodeID \<Rightarrow> byte list" where
  "nodeid_wire flags v =
     (if Type v = NodeIDTypeNumeric then
        (if flags = 0 \<and> Namespace v = 0 \<and> Numeric v \<le> 0xFF then [0x00, ucast (Numeric v)]
         else if flags = 0 \<and> Namespace v \<le> 0xFF \<and> Numeric v \<le> 0xFFFF then
           [0x01, ucast (Namespace v)] @ le_bytes 2 (ucast (Numeric v) :: 16 word)
         else [0x02 OR flags] @ le_bytes 2 (Namespace v) @ le_bytes 4 (Numeric v))
      else if Type v = NodeIDTypeString then
        [0x03 OR flags] @ le_bytes 2 (Namespace v) @ lenbytes_wire (StringID v)
      else if Type v = NodeIDTypeGuid then
        [0x04 OR flags] @ le_bytes 2 (Namespace v) @ guid_wire (nGuid v)
      else [0x05 OR flags] @ le_bytes 2 (Namespace v) @ lenbytes_wire (Opaque v))"

definition nodeid_ok :: "BinaryLimits \<Rightarrow> NodeID \<Rightarrow> bool" where
  "nodeid_ok L v \<longleftrightarrow>
     Type v = NodeIDTypeNumeric \<or> Type v = NodeIDTypeGuid \<or>
     (Type v = NodeIDTypeString \<and> string_ok L (StringID v)) \<or>
     (Type v = NodeIDTypeOpaque \<and> bytestring_ok L (Opaque v))"

text \<open>Only the identifier field the type selects is on the wire.\<close>

definition nodeid_norm :: "NodeID \<Rightarrow> NodeID" where
  "nodeid_norm v =
     (if Type v = NodeIDTypeNumeric then NumericNodeID (Namespace v) (Numeric v)
      else if Type v = NodeIDTypeString then StringNodeID (Namespace v) (StringID v)
      else if Type v = NodeIDTypeGuid then
        zeroNodeID\<lparr>Namespace := Namespace v, Type := NodeIDTypeGuid, nGuid := nGuid v\<rparr>
      else zeroNodeID\<lparr>Namespace := Namespace v, Type := NodeIDTypeOpaque, Opaque := Opaque v\<rparr>)"

lemmas nodeid_encoding_defs = nodeIDEncodingTwoByte_def nodeIDEncodingFourByte_def
  nodeIDEncodingNumeric_def nodeIDEncodingString_def nodeIDEncodingGuid_def
  nodeIDEncodingByteString_def nodeIDEncodingMask_def

lemma emits_writeNodeIDWithFlags [emits_intros]:
  "emits L (writeNodeIDWithFlags v flags) (nodeid_ok L v) (nodeid_wire flags v)"
  unfolding writeNodeIDWithFlags_def
  by (rule emits_cong, (rule emits_intros)+)
    (auto simp: nodeid_ok_def nodeid_wire_def nodeid_encoding_defs)

lemma masked_or:
  fixes c f m :: byte
  assumes "f AND m = 0" and "c AND m = c"
  shows "(c OR f) AND m = c" "(c OR f) AND NOT m = f"
proof -
  have f: "\<not> (bit f n \<and> bit m n)" for n
    using arg_cong [OF assms(1), of "\<lambda>x. bit x n"] by (simp add: bit_simps)
  have c: "bit c n \<Longrightarrow> bit m n" for n
    using arg_cong [OF assms(2), of "\<lambda>x. bit x n"] by (simp add: bit_simps)
  show "(c OR f) AND m = c" "(c OR f) AND NOT m = f"
    by (rule bit_eqI, use f c in \<open>auto simp: bit_simps dest: bit_imp_le_length\<close>)+
qed

lemma nodeid_form:
  fixes flags :: byte
  assumes "flags AND nodeIDEncodingMask = 0"
  shows "(2 OR flags) AND nodeIDEncodingMask = 2" "(3 OR flags) AND nodeIDEncodingMask = 3"
    "(4 OR flags) AND nodeIDEncodingMask = 4" "(5 OR flags) AND nodeIDEncodingMask = 5"
    "(2 OR flags) AND NOT nodeIDEncodingMask = flags" "(3 OR flags) AND NOT nodeIDEncodingMask = flags"
    "(4 OR flags) AND NOT nodeIDEncodingMask = flags" "(5 OR flags) AND NOT nodeIDEncodingMask = flags"
  by (rule masked_or [OF assms], simp add: nodeIDEncodingMask_def)+

lemma ucast_small:
  "(i :: 32 word) \<le> 0xFF \<Longrightarrow> ucast (ucast i :: 8 word) = i"
  "(i :: 32 word) \<le> 0xFFFF \<Longrightarrow> ucast (ucast i :: 16 word) = i"
  "(n :: 16 word) \<le> 0xFF \<Longrightarrow> ucast (ucast n :: 8 word) = n"
  by (simp_all add: word_uint_eq_iff unsigned_ucast_eq unsigned_take_bit_eq take_bit_int_eq_self word_le_def)

lemma parses_readNodeIDWithFlags:
  assumes L: "validate_limits L = None" and ok: "nodeid_ok L v" and f: "flags AND nodeIDEncodingMask = 0"
  shows "parses L readNodeIDWithFlags (nodeid_wire flags v) (nodeid_norm v, flags)"
proof -
  note defs = readNodeIDWithFlags_def nodeid_wire_def nodeid_norm_def Let_def nodeid_encoding_defs
  note form = nodeid_form [OF f, unfolded nodeIDEncodingMask_def, simplified]
  consider (two) "Type v = NodeIDTypeNumeric" "flags = 0 \<and> Namespace v = 0 \<and> Numeric v \<le> 0xFF"
    | (four) "Type v = NodeIDTypeNumeric" "\<not> (flags = 0 \<and> Namespace v = 0 \<and> Numeric v \<le> 0xFF)"
        "flags = 0 \<and> Namespace v \<le> 0xFF \<and> Numeric v \<le> 0xFFFF"
    | (num) "Type v = NodeIDTypeNumeric" "\<not> (flags = 0 \<and> Namespace v = 0 \<and> Numeric v \<le> 0xFF)"
        "\<not> (flags = 0 \<and> Namespace v \<le> 0xFF \<and> Numeric v \<le> 0xFFFF)"
    | (guid) "Type v = NodeIDTypeGuid"
    | (str) "Type v = NodeIDTypeString" "string_ok L (StringID v)"
    | (opq) "Type v = NodeIDTypeOpaque" "bytestring_ok L (Opaque v)"
    using ok unfolding nodeid_ok_def by blast
  then show ?thesis
  proof cases
    case two
    then show ?thesis
      by (simp add: defs, intro parses_steps, simp, intro parses_steps, simp add: ucast_small)
  next
    case four
    then show ?thesis
      by (simp only: defs if_True if_False simp_thms append.simps)
        (intro parses_steps L, simp, intro parses_steps L, simp add: ucast_small)
  next
    case num
    then show ?thesis
      by (simp only: defs if_True if_False simp_thms append.simps)
        (intro parses_steps L, simp add: form, intro parses_steps L, simp)
  next
    case guid
    then show ?thesis
      by (simp only: defs nodeid_types if_True if_False simp_thms append.simps)
        (intro parses_steps L, simp add: form, intro parses_steps L, simp)
  next
    case str
    then show ?thesis
      by (simp only: defs nodeid_types if_True if_False simp_thms append.simps)
        (intro parses_steps L, simp add: form, intro parses_steps L, simp_all)
  next
    case opq
    then show ?thesis
      by (simp only: defs nodeid_types if_True if_False simp_thms append.simps)
        (intro parses_steps L, simp add: form, intro parses_steps L, simp_all)
  qed
qed


lemma within_readNodeIDWithFlags [within_intros]: "within readNodeIDWithFlags"
  unfolding readNodeIDWithFlags_def Let_def by (intro within_intros)

lemma within_ReadNodeID [within_intros]: "within ReadNodeID"
  unfolding ReadNodeID_def by (intro within_intros)

interpretation nodeid_codec: ua_codec WriteNodeID ReadNodeID "nodeid_wire 0" nodeid_ok nodeid_norm
proof unfold_locales
  show "emits L (WriteNodeID v) (nodeid_ok L v) (nodeid_wire 0 v)" for L v
    unfolding WriteNodeID_def by (rule emits_intros)
  show "parses L ReadNodeID (nodeid_wire 0 v) (nodeid_norm v)"
    if "validate_limits L = None" "nodeid_ok L v" for L v
    unfolding ReadNodeID_def
    by (rule parses_rbind_return [OF parses_readNodeIDWithFlags [OF that]]) simp_all
qed (rule within_intros)

lemmas nodeid_emits [emits_intros] = nodeid_codec.wr_emits
lemmas nodeid_steps [parses_steps] =
  nodeid_codec.rd_parses [THEN parses_rbind] nodeid_codec.rd_parses [THEN parses_rbind_last]

text \<open>Equality of node identifiers is equality of what is on the wire.\<close>

lemma NodeID_Equal_norm:
  "nodeid_ok L n \<Longrightarrow> nodeid_ok L m \<Longrightarrow> NodeID_Equal n m \<longleftrightarrow> nodeid_norm n = nodeid_norm m"
  by (auto simp: NodeID_Equal_def nodeid_norm_def nodeid_ok_def NumericNodeID_def StringNodeID_def
      zeroNodeID_def NodeIDTypeNumeric_def NodeIDTypeString_def NodeIDTypeGuid_def
      NodeIDTypeOpaque_def split: if_splits)

definition expanded_wire :: "ExpandedNodeID \<Rightarrow> byte list" where
  "expanded_wire v =
     nodeid_wire (expanded_flags v)
       (if xHasNamespaceURI v then (xNodeID v)\<lparr>Namespace := 0\<rparr> else xNodeID v) @
     (if xHasNamespaceURI v then lenbytes_wire (xNamespaceURI v) else []) @
     (if xHasServerIndex v then le_bytes 4 (xServerIndex v) else [])"

definition expanded_ok :: "BinaryLimits \<Rightarrow> ExpandedNodeID \<Rightarrow> bool" where
  "expanded_ok L v \<longleftrightarrow> nodeid_ok L (xNodeID v) \<and> (xHasNamespaceURI v \<longrightarrow> string_ok L (xNamespaceURI v))"

definition expanded_norm :: "ExpandedNodeID \<Rightarrow> ExpandedNodeID" where
  "expanded_norm v = \<lparr>
     xNodeID = nodeid_norm (if xHasNamespaceURI v then (xNodeID v)\<lparr>Namespace := 0\<rparr> else xNodeID v),
     xNamespaceURI = (if xHasNamespaceURI v then xNamespaceURI v else []),
     xHasNamespaceURI = xHasNamespaceURI v,
     xServerIndex = (if xHasServerIndex v then xServerIndex v else 0),
     xHasServerIndex = xHasServerIndex v\<rparr>"

lemma nodeid_ok_namespace [simp]: "nodeid_ok L (v\<lparr>Namespace := n\<rparr>) = nodeid_ok L v"
  by (simp add: nodeid_ok_def)

lemma expanded_flags_bits:
  "expanded_flags v AND nodeIDEncodingMask = 0"
  "expanded_flags v AND nodeIDFlagNamespaceURI \<noteq> 0 \<longleftrightarrow> xHasNamespaceURI v"
  "expanded_flags v AND nodeIDFlagServerIndex \<noteq> 0 \<longleftrightarrow> xHasServerIndex v"
  by (auto simp: expanded_flags_def nodeIDEncodingMask_def nodeIDFlagNamespaceURI_def
      nodeIDFlagServerIndex_def)

text \<open>Fields that a mask selects: absent ones read as their zero value.\<close>

lemma parses_flagged [parses_steps]:
  assumes "c \<Longrightarrow> parses L r b v" and "parses L (f (if c then v else z)) b2 w"
  shows "parses L (rbind (if c then r else rreturn z) f) ((if c then b else []) @ b2) w"
  using parses_rbind [of L "if c then r else rreturn z" "if c then b else []" "if c then v else z" f b2 w]
    assms by (cases c) (auto simp: parses_rreturn)

lemma parses_flagged_last [parses_steps]:
  assumes "c \<Longrightarrow> parses L r b v" and "parses L (f (if c then v else z)) [] w"
  shows "parses L (rbind (if c then r else rreturn z) f) (if c then b else []) w"
  using parses_rbind_last [of L "if c then r else rreturn z" "if c then b else []" "if c then v else z" f w]
    assms by (cases c) (auto simp: parses_rreturn)

interpretation expanded_codec:
  ua_codec WriteExpandedNodeID ReadExpandedNodeID expanded_wire expanded_ok expanded_norm
proof unfold_locales
  show "emits L (WriteExpandedNodeID v) (expanded_ok L v) (expanded_wire v)" for L v
    unfolding WriteExpandedNodeID_def Let_def
    by (rule emits_cong, (rule emits_intros)+) (auto simp: expanded_ok_def expanded_wire_def)
  show "parses L ReadExpandedNodeID (expanded_wire v) (expanded_norm v)"
    if L: "validate_limits L = None" and ok: "expanded_ok L v" for L v
  proof -
    have n: "nodeid_ok L (if xHasNamespaceURI v then (xNodeID v)\<lparr>Namespace := 0\<rparr> else xNodeID v)"
      using ok by (simp add: expanded_ok_def)
    show ?thesis
      unfolding ReadExpandedNodeID_def expanded_wire_def
      by (rule parses_rbind [OF parses_readNodeIDWithFlags [OF L n expanded_flags_bits(1)]],
          simp only: prod.case expanded_flags_bits, intro parses_steps)
        (use ok L in \<open>auto simp: expanded_norm_def expanded_ok_def intro: primitive_parses\<close>)
  qed
  show "within ReadExpandedNodeID"
    unfolding ReadExpandedNodeID_def by (intro within_intros)
qed

definition qname_wire :: "QualifiedName \<Rightarrow> byte list" where
  "qname_wire v = le_bytes 2 (qNamespace v) @ lenbytes_wire (qName v)"

definition qname_ok :: "BinaryLimits \<Rightarrow> QualifiedName \<Rightarrow> bool" where
  "qname_ok L v = string_ok L (qName v)"

interpretation qname_codec: ua_codec WriteQualifiedName ReadQualifiedName qname_wire qname_ok id
proof unfold_locales
  show "emits L (WriteQualifiedName v) (qname_ok L v) (qname_wire v)" for L v
    unfolding WriteQualifiedName_def
    by (rule emits_cong, (rule emits_intros)+) (auto simp: qname_ok_def qname_wire_def)
  show "parses L ReadQualifiedName (qname_wire v) (id v)"
    if "validate_limits L = None" and "qname_ok L v" for L v
    unfolding ReadQualifiedName_def qname_wire_def
    by (intro parses_steps) (use that in \<open>simp_all add: qname_ok_def\<close>)
  show "within ReadQualifiedName"
    unfolding ReadQualifiedName_def by (intro within_intros)
qed

definition ltext_wire :: "LocalizedText \<Rightarrow> byte list" where
  "ltext_wire v = localized_mask v #
     (if lLocale v \<noteq> [] then lenbytes_wire (lLocale v) else []) @
     (if lText v \<noteq> [] then lenbytes_wire (lText v) else [])"

definition ltext_ok :: "BinaryLimits \<Rightarrow> LocalizedText \<Rightarrow> bool" where
  "ltext_ok L v \<longleftrightarrow> (lLocale v \<noteq> [] \<longrightarrow> string_ok L (lLocale v)) \<and> (lText v \<noteq> [] \<longrightarrow> string_ok L (lText v))"

lemma localized_mask_bits:
  "localized_mask v AND localizedTextHasLocale \<noteq> 0 \<longleftrightarrow> lLocale v \<noteq> []"
  "localized_mask v AND localizedTextHasText \<noteq> 0 \<longleftrightarrow> lText v \<noteq> []"
  by (auto simp: localized_mask_def localizedTextHasLocale_def localizedTextHasText_def)

interpretation ltext_codec: ua_codec WriteLocalizedText ReadLocalizedText ltext_wire ltext_ok id
proof unfold_locales
  show "emits L (WriteLocalizedText v) (ltext_ok L v) (ltext_wire v)" for L v
    unfolding WriteLocalizedText_def Let_def localized_mask_bits
    by (rule emits_cong, (rule emits_intros)+) (auto simp: ltext_ok_def ltext_wire_def)
  show "parses L ReadLocalizedText (ltext_wire v) (id v)"
    if "validate_limits L = None" and "ltext_ok L v" for L v
    unfolding ReadLocalizedText_def ltext_wire_def
    by (rule parses_steps, simp only: localized_mask_bits, intro parses_steps)
      (use that in \<open>auto simp: ltext_ok_def intro: primitive_parses\<close>)
  show "within ReadLocalizedText"
    unfolding ReadLocalizedText_def by (intro within_intros)
qed

definition extobj_wire :: "ExtensionObject \<Rightarrow> byte list" where
  "extobj_wire v = nodeid_wire 0 (TypeID v) @
     (if Encoding v = ExtensionObjectNoBody then [Encoding v] else Encoding v # lenbytes_wire (Body v))"

definition extobj_ok :: "BinaryLimits \<Rightarrow> ExtensionObject \<Rightarrow> bool" where
  "extobj_ok L v \<longleftrightarrow> nodeid_ok L (TypeID v) \<and>
     (Encoding v = ExtensionObjectNoBody \<or>
      (Encoding v = ExtensionObjectByteString \<or> Encoding v = ExtensionObjectXMLElement) \<and>
       bytestring_ok L (Body v))"

definition extobj_norm :: "ExtensionObject \<Rightarrow> ExtensionObject" where
  "extobj_norm v = \<lparr>TypeID = nodeid_norm (TypeID v), Encoding = Encoding v,
     Body = (if Encoding v = ExtensionObjectNoBody then [] else Body v)\<rparr>"

interpretation extobj_codec:
  ua_codec WriteExtensionObject ReadExtensionObject extobj_wire extobj_ok extobj_norm
proof unfold_locales
  show "emits L (WriteExtensionObject v) (extobj_ok L v) (extobj_wire v)" for L v
    unfolding WriteExtensionObject_def
    by (rule emits_cong, (rule emits_intros)+) (auto simp: extobj_ok_def extobj_wire_def)
  show "parses L ReadExtensionObject (extobj_wire v) (extobj_norm v)"
    if L: "validate_limits L = None" and ok: "extobj_ok L v" for L v
  proof (cases "Encoding v = ExtensionObjectNoBody")
    case True
    then show ?thesis
      unfolding ReadExtensionObject_def extobj_wire_def
      by (simp, intro parses_steps L)
        (use ok in \<open>auto simp: extobj_ok_def extobj_norm_def intro!: parses_steps\<close>)
  next
    case False
    then show ?thesis
      unfolding ReadExtensionObject_def extobj_wire_def
      by (simp, intro parses_steps L)
        (use ok L in \<open>auto simp: extobj_ok_def extobj_norm_def intro!: parses_rbind_return primitive_parses\<close>)
  qed
  show "within ReadExtensionObject"
    unfolding ReadExtensionObject_def by (intro within_intros)
qed

lemmas name_emits [emits_intros] =
  expanded_codec.wr_emits qname_codec.wr_emits ltext_codec.wr_emits extobj_codec.wr_emits
lemmas name_within [within_intros] =
  expanded_codec.rd_within qname_codec.rd_within ltext_codec.rd_within extobj_codec.rd_within

section \<open>Properties\<close>

text \<open>
  An ExpandedNodeId that a fresh encoder writes is read back to the last byte, in
  each of the identifier forms, with the namespace URI and server index it carried (a
  namespace URI replaces the namespace index, and fields the form does not use are cleared).
\<close>
theorem expanded_nodeid_roundtrip:
  assumes "NewEncoder L = Inr e" and "Bytes (WriteExpandedNodeID v e) = Inr bs"
  shows "\<exists>d d'. NewDecoder bs L = Inr d \<and> ReadExpandedNodeID d = Inr (expanded_norm v, d') \<and> Done d'"
  using assms by (rule expanded_codec.roundtrip)

definition expanded_sample :: ExpandedNodeID where
  "expanded_sample = \<lparr>xNodeID = StringNodeID 3 [65, 66], xNamespaceURI = [], xHasNamespaceURI = False,
     xServerIndex = 7, xHasServerIndex = True\<rparr>"

theorem expanded_nodeid_roundtrip_witness:
  "\<exists>d d'. NewDecoder (expanded_wire expanded_sample) DefaultBinaryLimits = Inr d \<and>
     ReadExpandedNodeID d = Inr (expanded_sample, d') \<and> Done d'"
proof -
  let ?e = "\<lparr>ebuffer = [], elimits = DefaultBinaryLimits, edepth = 0, eerr = None\<rparr>"
  have "NewEncoder DefaultBinaryLimits = Inr ?e" by code_simp
  moreover have "Bytes (WriteExpandedNodeID expanded_sample ?e) = Inr (expanded_wire expanded_sample)"
    by code_simp
  moreover have "expanded_norm expanded_sample = expanded_sample" by code_simp
  ultimately show ?thesis using expanded_nodeid_roundtrip by metis
qed

end
