(* ===== verification/Headers.thy ===== *)
theory Headers
  imports NodeIds
begin

text \<open>
  DiagnosticInfo and the request and response headers of
  \<^verbatim>\<open>src/internal/opcua/nodeid.go\<close>. DiagnosticInfo nests in itself; both directions
  stop at the eleventh level, and the reader's recursion is on that level.
\<close>

section \<open>DiagnosticInfo\<close>

definition diagnosticHasSymbolicID :: byte where "diagnosticHasSymbolicID = 0x01"
definition diagnosticHasNamespace :: byte where "diagnosticHasNamespace = 0x02"
definition diagnosticHasLocalizedText :: byte where "diagnosticHasLocalizedText = 0x04"
definition diagnosticHasLocale :: byte where "diagnosticHasLocale = 0x08"
definition diagnosticHasAdditional :: byte where "diagnosticHasAdditional = 0x10"
definition diagnosticHasInnerStatus :: byte where "diagnosticHasInnerStatus = 0x20"
definition diagnosticHasInnerDiag :: byte where "diagnosticHasInnerDiag = 0x40"

lemmas diagnostic_bits = diagnosticHasSymbolicID_def diagnosticHasNamespace_def
  diagnosticHasLocalizedText_def diagnosticHasLocale_def diagnosticHasAdditional_def
  diagnosticHasInnerStatus_def diagnosticHasInnerDiag_def

definition MinDiagnosticRecursion :: int where "MinDiagnosticRecursion = 4"
definition MaxDiagnosticRecursion :: int where "MaxDiagnosticRecursion = 10"

datatype DiagnosticInfo = DiagnosticInfo
  (SymbolicID: int32) (HasSymbolicID: bool)
  (dNamespaceURI: int32) (HasNamespaceURI: bool)
  (dLocale: int32) (HasLocale: bool)
  (dLocalizedText: int32) (HasLocalizedText: bool)
  (AdditionalInfo: gostring) (HasAdditionalInfo: bool)
  (InnerStatusCode: StatusCode) (HasInnerStatusCode: bool)
  (InnerDiagnosticInfo: "DiagnosticInfo option")

lemma size_InnerDiagnosticInfo [termination_simp]:
  "InnerDiagnosticInfo v = Some inner \<Longrightarrow> size inner < size v"
  by (cases v) simp

definition zeroDiagnosticInfo :: DiagnosticInfo where
  "zeroDiagnosticInfo = DiagnosticInfo 0 False 0 False 0 False 0 False [] False 0 False None"

definition diag_mask :: "DiagnosticInfo \<Rightarrow> byte" where
  "diag_mask v =
     (if HasSymbolicID v then diagnosticHasSymbolicID else 0) OR
     (if HasNamespaceURI v then diagnosticHasNamespace else 0) OR
     (if HasLocalizedText v then diagnosticHasLocalizedText else 0) OR
     (if HasLocale v then diagnosticHasLocale else 0) OR
     (if HasAdditionalInfo v then diagnosticHasAdditional else 0) OR
     (if HasInnerStatusCode v then diagnosticHasInnerStatus else 0) OR
     (if InnerDiagnosticInfo v \<noteq> None then diagnosticHasInnerDiag else 0)"

function writeDiagnosticInfo :: "DiagnosticInfo \<Rightarrow> int \<Rightarrow> Encoder \<Rightarrow> Encoder" where
  "writeDiagnosticInfo v depth =
     (if depth > MaxDiagnosticRecursion then efail limitsError
      else seqw
        [WriteByteValue (diag_mask v),
         if HasSymbolicID v then WriteInt32 (SymbolicID v) else seqw [],
         if HasNamespaceURI v then WriteInt32 (dNamespaceURI v) else seqw [],
         if HasLocale v then WriteInt32 (dLocale v) else seqw [],
         if HasLocalizedText v then WriteInt32 (dLocalizedText v) else seqw [],
         if HasAdditionalInfo v then WriteString (AdditionalInfo v) else seqw [],
         if HasInnerStatusCode v then WriteStatusCode (InnerStatusCode v) else seqw [],
         case InnerDiagnosticInfo v of
           None \<Rightarrow> seqw []
         | Some inner \<Rightarrow> writeDiagnosticInfo inner (depth + 1)])"
  by pat_completeness auto
termination
  by (relation "measure (\<lambda>(v, depth). nat (11 - depth))") (auto simp: MaxDiagnosticRecursion_def)

definition WriteDiagnosticInfo :: "DiagnosticInfo \<Rightarrow> Encoder \<Rightarrow> Encoder" where
  "WriteDiagnosticInfo v = writeDiagnosticInfo v 0"

function readDiagnosticInfo :: "int \<Rightarrow> DiagnosticInfo reader" where
  "readDiagnosticInfo depth =
     (if depth > MaxDiagnosticRecursion then rfail limitsError
      else rbind ReadByteValue (\<lambda>mask.
        rbind (if mask AND diagnosticHasSymbolicID \<noteq> 0 then ReadInt32 else rreturn 0) (\<lambda>symbolic.
        rbind (if mask AND diagnosticHasNamespace \<noteq> 0 then ReadInt32 else rreturn 0) (\<lambda>namespace.
        rbind (if mask AND diagnosticHasLocale \<noteq> 0 then ReadInt32 else rreturn 0) (\<lambda>locale.
        rbind (if mask AND diagnosticHasLocalizedText \<noteq> 0 then ReadInt32 else rreturn 0) (\<lambda>text.
        rbind (if mask AND diagnosticHasAdditional \<noteq> 0 then orEmpty ReadString else rreturn []) (\<lambda>info.
        rbind (if mask AND diagnosticHasInnerStatus \<noteq> 0 then ReadStatusCode else rreturn 0) (\<lambda>status.
        rbind (if mask AND diagnosticHasInnerDiag \<noteq> 0
               then rbind (readDiagnosticInfo (depth + 1)) (\<lambda>i. rreturn (Some i))
               else rreturn None) (\<lambda>inner.
        rreturn (DiagnosticInfo
          symbolic (mask AND diagnosticHasSymbolicID \<noteq> 0)
          namespace (mask AND diagnosticHasNamespace \<noteq> 0)
          locale (mask AND diagnosticHasLocale \<noteq> 0)
          text (mask AND diagnosticHasLocalizedText \<noteq> 0)
          info (mask AND diagnosticHasAdditional \<noteq> 0)
          status (mask AND diagnosticHasInnerStatus \<noteq> 0)
          inner))))))))))"
  by pat_completeness auto
termination
  by (relation "measure (\<lambda>depth. nat (11 - depth))") (auto simp: MaxDiagnosticRecursion_def)

declare writeDiagnosticInfo.simps [simp del] readDiagnosticInfo.simps [simp del]

definition ReadDiagnosticInfo :: "DiagnosticInfo reader" where
  "ReadDiagnosticInfo = readDiagnosticInfo 0"

section \<open>Request and response headers\<close>

record RequestHeader =
  AuthenticationToken :: NodeID
  rqTimestamp :: gotime
  rqRequestHandle :: uint32
  ReturnDiagnostics :: uint32
  AuditEntryID :: gostring
  TimeoutHint :: uint32
  rqAdditionalHeader :: ExtensionObject

text \<open>The string table is compared with \<^verbatim>\<open>nil\<close>, so it is an option.\<close>

record ResponseHeader =
  rsTimestamp :: gotime
  rsRequestHandle :: uint32
  ServiceResult :: StatusCode
  ServiceDiagnostics :: DiagnosticInfo
  StringTable :: "gostring list option"
  rsAdditionalHeader :: ExtensionObject

definition WriteRequestHeader :: "RequestHeader \<Rightarrow> Encoder \<Rightarrow> Encoder" where
  "WriteRequestHeader h = seqw
     [WriteNodeID (AuthenticationToken h),
      WriteDateTime (rqTimestamp h),
      WriteUInt32 (rqRequestHandle h),
      WriteUInt32 (ReturnDiagnostics h),
      WriteString (AuditEntryID h),
      WriteUInt32 (TimeoutHint h),
      WriteExtensionObject (rqAdditionalHeader h)]"

definition ReadRequestHeader :: "RequestHeader reader" where
  "ReadRequestHeader =
     rbind ReadNodeID (\<lambda>token.
     rbind ReadDateTime (\<lambda>ts.
     rbind ReadUInt32 (\<lambda>handle.
     rbind ReadUInt32 (\<lambda>diagnostics.
     rbind (orEmpty ReadString) (\<lambda>audit.
     rbind ReadUInt32 (\<lambda>hint.
     rbind ReadExtensionObject (\<lambda>additional.
     rreturn \<lparr>AuthenticationToken = token, rqTimestamp = ts, rqRequestHandle = handle,
       ReturnDiagnostics = diagnostics, AuditEntryID = audit, TimeoutHint = hint,
       rqAdditionalHeader = additional\<rparr>)))))))"

definition WriteResponseHeader :: "ResponseHeader \<Rightarrow> Encoder \<Rightarrow> Encoder" where
  "WriteResponseHeader h = seqw
     [WriteDateTime (rsTimestamp h),
      WriteUInt32 (rsRequestHandle h),
      WriteStatusCode (ServiceResult h),
      WriteDiagnosticInfo (ServiceDiagnostics h),
      write_nilable WriteString (StringTable h),
      WriteExtensionObject (rsAdditionalHeader h)]"

definition readStringTable :: "gostring list option reader" where
  "readStringTable = read_array 4 (orEmpty ReadString)"

definition ReadResponseHeader :: "ResponseHeader reader" where
  "ReadResponseHeader =
     rbind ReadDateTime (\<lambda>ts.
     rbind ReadUInt32 (\<lambda>handle.
     rbind ReadStatusCode (\<lambda>result.
     rbind ReadDiagnosticInfo (\<lambda>diagnostics.
     rbind readStringTable (\<lambda>table.
     rbind ReadExtensionObject (\<lambda>additional.
     rreturn \<lparr>rsTimestamp = ts, rsRequestHandle = handle, ServiceResult = result,
       ServiceDiagnostics = diagnostics, StringTable = table, rsAdditionalHeader = additional\<rparr>))))))"


section \<open>The codec of DiagnosticInfo\<close>

fun diag_wire :: "DiagnosticInfo \<Rightarrow> byte list" where
  "diag_wire v = diag_mask v #
     (if HasSymbolicID v then le_bytes 4 (SymbolicID v) else []) @
     (if HasNamespaceURI v then le_bytes 4 (dNamespaceURI v) else []) @
     (if HasLocale v then le_bytes 4 (dLocale v) else []) @
     (if HasLocalizedText v then le_bytes 4 (dLocalizedText v) else []) @
     (if HasAdditionalInfo v then lenbytes_wire (AdditionalInfo v) else []) @
     (if HasInnerStatusCode v then le_bytes 4 (InnerStatusCode v) else []) @
     (case InnerDiagnosticInfo v of None \<Rightarrow> [] | Some inner \<Rightarrow> diag_wire inner)"

text \<open>Nesting is bounded and the text fits; \<open>depth\<close> is the level the value stands at.\<close>

fun diag_ok :: "BinaryLimits \<Rightarrow> int \<Rightarrow> DiagnosticInfo \<Rightarrow> bool" where
  "diag_ok L depth v \<longleftrightarrow> depth \<le> MaxDiagnosticRecursion \<and>
     (HasAdditionalInfo v \<longrightarrow> string_ok L (AdditionalInfo v)) \<and>
     (case InnerDiagnosticInfo v of None \<Rightarrow> True | Some inner \<Rightarrow> diag_ok L (depth + 1) inner)"

fun diag_norm :: "DiagnosticInfo \<Rightarrow> DiagnosticInfo" where
  "diag_norm v = DiagnosticInfo
     (if HasSymbolicID v then SymbolicID v else 0) (HasSymbolicID v)
     (if HasNamespaceURI v then dNamespaceURI v else 0) (HasNamespaceURI v)
     (if HasLocale v then dLocale v else 0) (HasLocale v)
     (if HasLocalizedText v then dLocalizedText v else 0) (HasLocalizedText v)
     (if HasAdditionalInfo v then AdditionalInfo v else []) (HasAdditionalInfo v)
     (if HasInnerStatusCode v then InnerStatusCode v else 0) (HasInnerStatusCode v)
     (case InnerDiagnosticInfo v of None \<Rightarrow> None | Some inner \<Rightarrow> Some (diag_norm inner))"

declare diag_wire.simps [simp del] diag_ok.simps [simp del] diag_norm.simps [simp del]

lemma if_and: "(if c then a else 0) AND b = (if c then a AND b else (0 :: byte))"
  by simp

lemma diag_mask_bits:
  "diag_mask v AND diagnosticHasSymbolicID \<noteq> 0 \<longleftrightarrow> HasSymbolicID v"
  "diag_mask v AND diagnosticHasNamespace \<noteq> 0 \<longleftrightarrow> HasNamespaceURI v"
  "diag_mask v AND diagnosticHasLocale \<noteq> 0 \<longleftrightarrow> HasLocale v"
  "diag_mask v AND diagnosticHasLocalizedText \<noteq> 0 \<longleftrightarrow> HasLocalizedText v"
  "diag_mask v AND diagnosticHasAdditional \<noteq> 0 \<longleftrightarrow> HasAdditionalInfo v"
  "diag_mask v AND diagnosticHasInnerStatus \<noteq> 0 \<longleftrightarrow> HasInnerStatusCode v"
  "diag_mask v AND diagnosticHasInnerDiag \<noteq> 0 \<longleftrightarrow> InnerDiagnosticInfo v \<noteq> None"
  by (simp_all add: diag_mask_def diagnostic_bits bit.conj_disj_distrib2 if_and cong: if_cong)

lemma emits_writeDiagnosticInfo:
  "emits L (writeDiagnosticInfo v depth) (diag_ok L depth v) (diag_wire v)"
proof (induction v depth rule: writeDiagnosticInfo.induct)
  case (1 v depth)
  show ?case
  proof (cases "depth > MaxDiagnosticRecursion")
    case True
    then show ?thesis
      by (simp add: writeDiagnosticInfo.simps [of v depth] diag_ok.simps [of L depth v] emits_efail)
  next
    case False
    have inner: "emits L (case InnerDiagnosticInfo v of None \<Rightarrow> seqw []
          | Some inner \<Rightarrow> writeDiagnosticInfo inner (depth + 1))
        (case InnerDiagnosticInfo v of None \<Rightarrow> True | Some inner \<Rightarrow> diag_ok L (depth + 1) inner)
        (case InnerDiagnosticInfo v of None \<Rightarrow> [] | Some inner \<Rightarrow> diag_wire inner)"
      using 1 False by (auto simp: emits_skip split: option.split)
    show ?thesis
      unfolding writeDiagnosticInfo.simps [of v depth] diag_ok.simps [of L depth v] diag_wire.simps [of v]
      by (simp only: False if_False, rule emits_cong, (rule inner | rule emits_intros)+)
        (use False in auto)
  qed
qed

lemma parses_readDiagnosticInfo:
  assumes L: "validate_limits L = None"
  shows "diag_ok L depth v \<Longrightarrow> parses L (readDiagnosticInfo depth) (diag_wire v) (diag_norm v)"
proof (induction v arbitrary: depth rule: diag_norm.induct)
  case (1 v)
  have depth: "\<not> depth > MaxDiagnosticRecursion"
    and info: "HasAdditionalInfo v \<Longrightarrow> string_ok L (AdditionalInfo v)"
    using "1.prems" by (simp_all add: diag_ok.simps [of L depth v])
  have inner: "parses L (if InnerDiagnosticInfo v \<noteq> None
         then rbind (readDiagnosticInfo (depth + 1)) (\<lambda>i. rreturn (Some i)) else rreturn None)
      (case InnerDiagnosticInfo v of None \<Rightarrow> [] | Some inner \<Rightarrow> diag_wire inner)
      (case InnerDiagnosticInfo v of None \<Rightarrow> None | Some inner \<Rightarrow> Some (diag_norm inner))"
    using "1.IH" "1.prems" by (auto simp: diag_ok.simps [of L depth v] parses_rreturn
        intro!: parses_rbind_return split: option.splits)
  show ?case
    unfolding readDiagnosticInfo.simps [of depth] diag_wire.simps [of v]
    by (simp only: depth if_False, rule parses_steps, simp only: diag_mask_bits,
        (rule parses_rbind_last [OF inner] | rule parses_steps primitive_parses L | erule info)+)
      (simp add: diag_norm.simps [of v])
qed

lemma within_readDiagnosticInfo: "within (readDiagnosticInfo depth)"
proof (induction depth rule: readDiagnosticInfo.induct)
  case (1 depth)
  show ?case
    by (subst readDiagnosticInfo.simps, intro within_intros) (use 1 in auto)
qed

interpretation diag_codec:
  ua_codec WriteDiagnosticInfo ReadDiagnosticInfo diag_wire "\<lambda>L. diag_ok L 0" diag_norm
  unfolding WriteDiagnosticInfo_def ReadDiagnosticInfo_def
  by unfold_locales (auto intro: emits_writeDiagnosticInfo parses_readDiagnosticInfo within_readDiagnosticInfo)


section \<open>The codecs of the headers\<close>

lemmas header_emits [emits_intros] = diag_codec.wr_emits
lemmas header_within [within_intros] = diag_codec.rd_within
lemmas header_steps [parses_steps] =
  extobj_codec.rd_parses [THEN parses_rbind] extobj_codec.rd_parses [THEN parses_rbind_last]
  diag_codec.rd_parses [THEN parses_rbind] diag_codec.rd_parses [THEN parses_rbind_last]

definition request_header_wire :: "RequestHeader \<Rightarrow> byte list" where
  "request_header_wire h = nodeid_wire 0 (AuthenticationToken h) @
     le_bytes 8 (EncodeDateTime (rqTimestamp h)) @ le_bytes 4 (rqRequestHandle h) @
     le_bytes 4 (ReturnDiagnostics h) @ lenbytes_wire (AuditEntryID h) @
     le_bytes 4 (TimeoutHint h) @ extobj_wire (rqAdditionalHeader h)"

definition request_header_ok :: "BinaryLimits \<Rightarrow> RequestHeader \<Rightarrow> bool" where
  "request_header_ok L h \<longleftrightarrow> nodeid_ok L (AuthenticationToken h) \<and> string_ok L (AuditEntryID h) \<and>
     extobj_ok L (rqAdditionalHeader h)"

definition request_header_norm :: "RequestHeader \<Rightarrow> RequestHeader" where
  "request_header_norm h = h\<lparr>AuthenticationToken := nodeid_norm (AuthenticationToken h),
     rqTimestamp := datetime_norm (rqTimestamp h),
     rqAdditionalHeader := extobj_norm (rqAdditionalHeader h)\<rparr>"

interpretation request_header_codec:
  ua_codec WriteRequestHeader ReadRequestHeader request_header_wire request_header_ok request_header_norm
proof unfold_locales
  show "emits L (WriteRequestHeader h) (request_header_ok L h) (request_header_wire h)" for L h
    unfolding WriteRequestHeader_def
    by (rule emits_cong, (rule emits_intros)+) (auto simp: request_header_ok_def request_header_wire_def)
  show "parses L ReadRequestHeader (request_header_wire h) (request_header_norm h)"
    if "validate_limits L = None" and "request_header_ok L h" for L h
    unfolding ReadRequestHeader_def request_header_wire_def
    by (intro parses_steps) (use that in \<open>simp_all add: request_header_ok_def request_header_norm_def\<close>)
  show "within ReadRequestHeader"
    unfolding ReadRequestHeader_def by (intro within_intros)
qed

definition response_header_wire :: "ResponseHeader \<Rightarrow> byte list" where
  "response_header_wire h =
     le_bytes 8 (EncodeDateTime (rsTimestamp h)) @ le_bytes 4 (rsRequestHandle h) @
     le_bytes 4 (ServiceResult h) @ diag_wire (ServiceDiagnostics h) @
     nilable_wire lenbytes_wire (StringTable h) @ extobj_wire (rsAdditionalHeader h)"

definition response_header_ok :: "BinaryLimits \<Rightarrow> ResponseHeader \<Rightarrow> bool" where
  "response_header_ok L h \<longleftrightarrow> diag_ok L 0 (ServiceDiagnostics h) \<and> nilable_ok string_ok L (StringTable h) \<and>
     extobj_ok L (rsAdditionalHeader h)"

definition response_header_norm :: "ResponseHeader \<Rightarrow> ResponseHeader" where
  "response_header_norm h = h\<lparr>rsTimestamp := datetime_norm (rsTimestamp h),
     ServiceDiagnostics := diag_norm (ServiceDiagnostics h),
     rsAdditionalHeader := extobj_norm (rsAdditionalHeader h)\<rparr>"

interpretation response_header_codec:
  ua_codec WriteResponseHeader ReadResponseHeader response_header_wire response_header_ok response_header_norm
proof unfold_locales
  show "emits L (WriteResponseHeader h) (response_header_ok L h) (response_header_wire h)" for L h
    unfolding WriteResponseHeader_def
    by (rule emits_cong, (rule emits_intros)+) (auto simp: response_header_ok_def response_header_wire_def)
  show "parses L ReadResponseHeader (response_header_wire h) (response_header_norm h)"
    if L: "validate_limits L = None" and ok: "response_header_ok L h" for L h
    unfolding ReadResponseHeader_def readStringTable_def response_header_wire_def
    by (intro parses_steps) (use L ok in \<open>simp_all add: response_header_ok_def response_header_norm_def\<close>)
  show "within ReadResponseHeader"
    unfolding ReadResponseHeader_def readStringTable_def by (intro within_intros)
qed

section \<open>Properties\<close>

text \<open>
  A request header that a fresh encoder writes is read back to the last byte, with
  its timestamp in ticks of 100 ns.
\<close>
theorem request_header_roundtrip:
  assumes "NewEncoder L = Inr e" and "Bytes (WriteRequestHeader h e) = Inr bs"
  shows "\<exists>d d'. NewDecoder bs L = Inr d \<and> ReadRequestHeader d = Inr (request_header_norm h, d') \<and> Done d'"
  using assms by (rule request_header_codec.roundtrip)

definition request_header_sample :: RequestHeader where
  "request_header_sample = \<lparr>AuthenticationToken = NumericNodeID 0 4096, rqTimestamp = 1700000000000000000,
     rqRequestHandle = 9, ReturnDiagnostics = 0, AuditEntryID = [97], TimeoutHint = 1000,
     rqAdditionalHeader = NullExtensionObject\<rparr>"

definition header_encoder :: Encoder where
  "header_encoder = \<lparr>ebuffer = [], elimits = DefaultBinaryLimits, edepth = 0, eerr = None\<rparr>"

lemma header_encoder_new: "NewEncoder DefaultBinaryLimits = Inr header_encoder" by code_simp

theorem request_header_roundtrip_witness:
  "\<exists>d d'. NewDecoder (request_header_wire request_header_sample) DefaultBinaryLimits = Inr d \<and>
     ReadRequestHeader d = Inr (request_header_sample, d') \<and> Done d'"
proof -
  have "Bytes (WriteRequestHeader request_header_sample header_encoder) =
      Inr (request_header_wire request_header_sample)" by code_simp
  moreover have "request_header_norm request_header_sample = request_header_sample" by code_simp
  ultimately show ?thesis using request_header_roundtrip [OF header_encoder_new] by metis
qed

text \<open>
  The same for a response header, with its nested DiagnosticInfo and its string
  table, null or not.
\<close>
theorem response_header_roundtrip:
  assumes "NewEncoder L = Inr e" and "Bytes (WriteResponseHeader h e) = Inr bs"
  shows "\<exists>d d'. NewDecoder bs L = Inr d \<and> ReadResponseHeader d = Inr (response_header_norm h, d') \<and> Done d'"
  using assms by (rule response_header_codec.roundtrip)

definition response_header_sample :: ResponseHeader where
  "response_header_sample = \<lparr>rsTimestamp = 1700000000000000000, rsRequestHandle = 9, ServiceResult = 0x80310000,
     ServiceDiagnostics = zeroDiagnosticInfo, StringTable = Some [[97], []],
     rsAdditionalHeader = NullExtensionObject\<rparr>"

theorem response_header_roundtrip_witness:
  "\<exists>d d'. NewDecoder (response_header_wire response_header_sample) DefaultBinaryLimits = Inr d \<and>
     ReadResponseHeader d = Inr (response_header_sample, d') \<and> Done d'"
proof -
  have "Bytes (WriteResponseHeader response_header_sample header_encoder) =
      Inr (response_header_wire response_header_sample)" by code_simp
  moreover have "response_header_norm response_header_sample = response_header_sample" by code_simp
  ultimately show ?thesis using response_header_roundtrip [OF header_encoder_new] by metis
qed

end
