(* ===== verification/Variants.thy ===== *)
theory Variants
  imports Headers
begin

text \<open>
  Variant and DataValue of \<^verbatim>\<open>src/internal/opcua/variant.go\<close>. A \<^verbatim>\<open>Variant.Value\<close> has
  the Go type \<^verbatim>\<open>any\<close>: \<open>go_value\<close> has one constructor for each dynamic type the code
  stores there or asserts, and the type assertions are functions to an option.

  \<^verbatim>\<open>ReadVariant\<close> and \<^verbatim>\<open>ReadDataValue\<close> call each other, and nothing but the buffer
  bounds how deep. The model runs them with fuel, one unit for each Variant inside a
  DataValue; every Variant costs a byte, so the bytes that remain are fuel enough, the
  fuel never runs out, and \<open>ReadVariant\<close> satisfies the recursive equation of the
  source (\<open>ReadVariant_unfold\<close>).
\<close>

section \<open>Types\<close>

type_synonym BuiltInTypeID = "8 word"

definition BuiltInNull :: BuiltInTypeID where "BuiltInNull = 0"
definition BuiltInBoolean :: BuiltInTypeID where "BuiltInBoolean = 1"
definition BuiltInSByte :: BuiltInTypeID where "BuiltInSByte = 2"
definition BuiltInByte :: BuiltInTypeID where "BuiltInByte = 3"
definition BuiltInInt16 :: BuiltInTypeID where "BuiltInInt16 = 4"
definition BuiltInUInt16 :: BuiltInTypeID where "BuiltInUInt16 = 5"
definition BuiltInInt32 :: BuiltInTypeID where "BuiltInInt32 = 6"
definition BuiltInUInt32 :: BuiltInTypeID where "BuiltInUInt32 = 7"
definition BuiltInInt64 :: BuiltInTypeID where "BuiltInInt64 = 8"
definition BuiltInUInt64 :: BuiltInTypeID where "BuiltInUInt64 = 9"
definition BuiltInFloat :: BuiltInTypeID where "BuiltInFloat = 10"
definition BuiltInDouble :: BuiltInTypeID where "BuiltInDouble = 11"
definition BuiltInString :: BuiltInTypeID where "BuiltInString = 12"
definition BuiltInDateTime :: BuiltInTypeID where "BuiltInDateTime = 13"
definition BuiltInGuid :: BuiltInTypeID where "BuiltInGuid = 14"
definition BuiltInByteString :: BuiltInTypeID where "BuiltInByteString = 15"
definition BuiltInXMLElement :: BuiltInTypeID where "BuiltInXMLElement = 16"
definition BuiltInNodeID :: BuiltInTypeID where "BuiltInNodeID = 17"
definition BuiltInExpandedNodeID :: BuiltInTypeID where "BuiltInExpandedNodeID = 18"
definition BuiltInStatusCode :: BuiltInTypeID where "BuiltInStatusCode = 19"
definition BuiltInQualifiedName :: BuiltInTypeID where "BuiltInQualifiedName = 20"
definition BuiltInLocalizedText :: BuiltInTypeID where "BuiltInLocalizedText = 21"
definition BuiltInExtensionObject :: BuiltInTypeID where "BuiltInExtensionObject = 22"
definition BuiltInDataValue :: BuiltInTypeID where "BuiltInDataValue = 23"
definition BuiltInVariant :: BuiltInTypeID where "BuiltInVariant = 24"
definition BuiltInDiagnosticInfo :: BuiltInTypeID where "BuiltInDiagnosticInfo = 25"
definition builtInMaxAssigned :: BuiltInTypeID where "builtInMaxAssigned = 25"
definition builtInMaxReserved :: BuiltInTypeID where "builtInMaxReserved = 31"

lemmas builtin_defs = BuiltInNull_def BuiltInBoolean_def BuiltInSByte_def BuiltInByte_def
  BuiltInInt16_def BuiltInUInt16_def BuiltInInt32_def BuiltInUInt32_def BuiltInInt64_def
  BuiltInUInt64_def BuiltInFloat_def BuiltInDouble_def BuiltInString_def BuiltInDateTime_def
  BuiltInGuid_def BuiltInByteString_def BuiltInXMLElement_def BuiltInNodeID_def
  BuiltInExpandedNodeID_def BuiltInStatusCode_def BuiltInQualifiedName_def
  BuiltInLocalizedText_def BuiltInExtensionObject_def BuiltInDataValue_def BuiltInVariant_def
  BuiltInDiagnosticInfo_def

definition variantTypeMask :: byte where "variantTypeMask = 0x3F"
definition variantArrayDimensions :: byte where "variantArrayDimensions = 0x40"
definition variantArrayValues :: byte where "variantArrayValues = 0x80"

datatype go_value =
    GNil
  | GBool bool | GInt8 int8 | GUInt8 uint8 | GInt16 int16 | GUInt16 uint16
  | GInt32 int32 | GUInt32 uint32 | GInt64 int64 | GUInt64 uint64
  | GFloat32 float32 | GFloat64 float64 | GString gostring | GTime gotime | GGuid Guid
  | GBytes "byte list" | GStatusCode StatusCode | GNodeID NodeID
  | GExpandedNodeID ExpandedNodeID | GQualifiedName QualifiedName
  | GLocalizedText LocalizedText | GExtensionObject ExtensionObject
  | GDataValue DataValue | GDiagnosticInfo DiagnosticInfo
  | GBools "bool list" | GInt8s "int8 list" | GInt16s "int16 list" | GUInt16s "uint16 list"
  | GInt32s "int32 list" | GUInt32s "uint32 list" | GInt64s "int64 list" | GUInt64s "uint64 list"
  | GFloat32s "float32 list" | GFloat64s "float64 list" | GStrings "gostring list"
  | GExtensionObjects "ExtensionObject list"
and Variant = Variant
    (vType: BuiltInTypeID) (vValue: go_value) (IsArray: bool) (ArrayDimensions: "int32 list")
and DataValue = DataValue
    (dvValue: Variant) (dvStatus: StatusCode)
    (SourceTimestamp: gotime) (SourcePicoseconds: uint16)
    (ServerTimestamp: gotime) (ServerPicoseconds: uint16)

definition NullVariant :: Variant where
  "NullVariant = Variant BuiltInNull GNil False []"

definition Variant_IsNull :: "Variant \<Rightarrow> bool" where
  "Variant_IsNull v \<longleftrightarrow> vType v = BuiltInNull"

section \<open>Writing\<close>

text \<open>\<^verbatim>\<open>writeVariantValue[T]\<close>: the argument is the result of the assertion \<^verbatim>\<open>value.Value.(T)\<close>.\<close>

definition writeVariantValue :: "'a option \<Rightarrow> ('a \<Rightarrow> Encoder \<Rightarrow> Encoder) \<Rightarrow> Encoder \<Rightarrow> Encoder" where
  "writeVariantValue typed write = (case typed of
       None \<Rightarrow> efail encodingError
     | Some v \<Rightarrow> write v)"

definition writeVariantScalar :: "Variant \<Rightarrow> Encoder \<Rightarrow> Encoder" where
  "writeVariantScalar v = (let t = vType v; x = vValue v in
     if t = BuiltInBoolean then
       writeVariantValue (case x of GBool y \<Rightarrow> Some y | _ \<Rightarrow> None) WriteBoolean
     else if t = BuiltInSByte then
       writeVariantValue (case x of GInt8 y \<Rightarrow> Some y | _ \<Rightarrow> None) WriteSByte
     else if t = BuiltInByte then
       writeVariantValue (case x of GUInt8 y \<Rightarrow> Some y | _ \<Rightarrow> None) WriteByteValue
     else if t = BuiltInInt16 then
       writeVariantValue (case x of GInt16 y \<Rightarrow> Some y | _ \<Rightarrow> None) WriteInt16
     else if t = BuiltInUInt16 then
       writeVariantValue (case x of GUInt16 y \<Rightarrow> Some y | _ \<Rightarrow> None) WriteUInt16
     else if t = BuiltInInt32 then
       writeVariantValue (case x of GInt32 y \<Rightarrow> Some y | _ \<Rightarrow> None) WriteInt32
     else if t = BuiltInUInt32 then
       writeVariantValue (case x of GUInt32 y \<Rightarrow> Some y | _ \<Rightarrow> None) WriteUInt32
     else if t = BuiltInInt64 then
       writeVariantValue (case x of GInt64 y \<Rightarrow> Some y | _ \<Rightarrow> None) WriteInt64
     else if t = BuiltInUInt64 then
       writeVariantValue (case x of GUInt64 y \<Rightarrow> Some y | _ \<Rightarrow> None) WriteUInt64
     else if t = BuiltInFloat then
       writeVariantValue (case x of GFloat32 y \<Rightarrow> Some y | _ \<Rightarrow> None) WriteFloat
     else if t = BuiltInDouble then
       writeVariantValue (case x of GFloat64 y \<Rightarrow> Some y | _ \<Rightarrow> None) WriteDouble
     else if t = BuiltInString then
       writeVariantValue (case x of GString y \<Rightarrow> Some y | _ \<Rightarrow> None) WriteString
     else if t = BuiltInDateTime then
       writeVariantValue (case x of GTime y \<Rightarrow> Some y | _ \<Rightarrow> None) WriteDateTime
     else if t = BuiltInGuid then
       writeVariantValue (case x of GGuid y \<Rightarrow> Some y | _ \<Rightarrow> None) WriteGuid
     else if t = BuiltInByteString then
       writeVariantValue (case x of GBytes y \<Rightarrow> Some y | _ \<Rightarrow> None) WriteByteString
     else if t = BuiltInStatusCode then
       writeVariantValue (case x of GStatusCode y \<Rightarrow> Some y | _ \<Rightarrow> None) WriteStatusCode
     else if t = BuiltInNodeID then
       writeVariantValue (case x of GNodeID y \<Rightarrow> Some y | _ \<Rightarrow> None) WriteNodeID
     else if t = BuiltInQualifiedName then
       writeVariantValue (case x of GQualifiedName y \<Rightarrow> Some y | _ \<Rightarrow> None) WriteQualifiedName
     else if t = BuiltInLocalizedText then
       writeVariantValue (case x of GLocalizedText y \<Rightarrow> Some y | _ \<Rightarrow> None) WriteLocalizedText
     else if t = BuiltInExtensionObject then
       writeVariantValue (case x of GExtensionObject y \<Rightarrow> Some y | _ \<Rightarrow> None) WriteExtensionObject
     else efail encodingError)"

text \<open>The element count, or \<^term>\<open>None\<close> where the slice does not match the declared type.\<close>

definition variantArrayLength :: "Variant \<Rightarrow> nat option" where
  "variantArrayLength v = (let t = vType v; x = vValue v in
     if t = BuiltInBoolean then (case x of GBools y \<Rightarrow> Some (length y) | _ \<Rightarrow> None)
     else if t = BuiltInSByte then (case x of GInt8s y \<Rightarrow> Some (length y) | _ \<Rightarrow> None)
     else if t = BuiltInByte then (case x of GBytes y \<Rightarrow> Some (length y) | _ \<Rightarrow> None)
     else if t = BuiltInInt16 then (case x of GInt16s y \<Rightarrow> Some (length y) | _ \<Rightarrow> None)
     else if t = BuiltInUInt16 then (case x of GUInt16s y \<Rightarrow> Some (length y) | _ \<Rightarrow> None)
     else if t = BuiltInInt32 then (case x of GInt32s y \<Rightarrow> Some (length y) | _ \<Rightarrow> None)
     else if t = BuiltInUInt32 then (case x of GUInt32s y \<Rightarrow> Some (length y) | _ \<Rightarrow> None)
     else if t = BuiltInInt64 then (case x of GInt64s y \<Rightarrow> Some (length y) | _ \<Rightarrow> None)
     else if t = BuiltInUInt64 then (case x of GUInt64s y \<Rightarrow> Some (length y) | _ \<Rightarrow> None)
     else if t = BuiltInFloat then (case x of GFloat32s y \<Rightarrow> Some (length y) | _ \<Rightarrow> None)
     else if t = BuiltInDouble then (case x of GFloat64s y \<Rightarrow> Some (length y) | _ \<Rightarrow> None)
     else if t = BuiltInString then (case x of GStrings y \<Rightarrow> Some (length y) | _ \<Rightarrow> None)
     else None)"

definition writeVariantArrayElements :: "Variant \<Rightarrow> Encoder \<Rightarrow> Encoder" where
  "writeVariantArrayElements v = (case vValue v of
       GBools y \<Rightarrow> write_each WriteBoolean y
     | GInt8s y \<Rightarrow> write_each WriteSByte y
     | GBytes y \<Rightarrow> write_each WriteByteValue y
     | GInt16s y \<Rightarrow> write_each WriteInt16 y
     | GUInt16s y \<Rightarrow> write_each WriteUInt16 y
     | GInt32s y \<Rightarrow> write_each WriteInt32 y
     | GUInt32s y \<Rightarrow> write_each WriteUInt32 y
     | GInt64s y \<Rightarrow> write_each WriteInt64 y
     | GUInt64s y \<Rightarrow> write_each WriteUInt64 y
     | GFloat32s y \<Rightarrow> write_each WriteFloat y
     | GFloat64s y \<Rightarrow> write_each WriteDouble y
     | GStrings y \<Rightarrow> write_each WriteString y
     | _ \<Rightarrow> seqw [])"

definition writeVariantArray :: "Variant \<Rightarrow> Encoder \<Rightarrow> Encoder" where
  "writeVariantArray v = (case variantArrayLength v of
       None \<Rightarrow> efail encodingError
     | Some n \<Rightarrow>
         (let multidimensional = length (ArrayDimensions v) > 1;
              mask = vType v OR variantArrayValues OR
                (if multidimensional then variantArrayDimensions else 0)
          in seqw
            [WriteByteValue mask,
             WriteInt32 (of_nat n),
             writeVariantArrayElements v,
             if multidimensional then
               seqw [WriteInt32 (of_nat (length (ArrayDimensions v))),
                     write_each WriteInt32 (ArrayDimensions v)]
             else seqw []]))"

definition WriteVariant :: "Variant \<Rightarrow> Encoder \<Rightarrow> Encoder" where
  "WriteVariant v =
     (if IsArray v then writeVariantArray v
      else if vType v = BuiltInNull then WriteByteValue 0
      else if vType v > builtInMaxAssigned then efail encodingError
      else seqw [WriteByteValue (vType v), writeVariantScalar v])"

definition dataValueHasValue :: byte where "dataValueHasValue = 0x01"
definition dataValueHasStatus :: byte where "dataValueHasStatus = 0x02"
definition dataValueHasSourceTimestamp :: byte where "dataValueHasSourceTimestamp = 0x04"
definition dataValueHasServerTimestamp :: byte where "dataValueHasServerTimestamp = 0x08"
definition dataValueHasSourcePicoseconds :: byte where "dataValueHasSourcePicoseconds = 0x10"
definition dataValueHasServerPicoseconds :: byte where "dataValueHasServerPicoseconds = 0x20"

definition maxPicoseconds :: uint16 where "maxPicoseconds = 9999"

definition StatusGood :: StatusCode where "StatusGood = 0"

definition atDateTimeBound :: "gotime \<Rightarrow> bool" where
  "atDateTimeBound t \<longleftrightarrow> EncodeDateTime t = DateTimeMin \<or> EncodeDateTime t = DateTimeMax"

definition clampPicoseconds :: "uint16 \<Rightarrow> uint16" where
  "clampPicoseconds v = (if v > maxPicoseconds then maxPicoseconds else v)"

text \<open>The mask \<^verbatim>\<open>WriteDataValue\<close> computes before it writes anything.\<close>

definition datavalue_mask :: "DataValue \<Rightarrow> byte" where
  "datavalue_mask v =
     (if \<not> Variant_IsNull (dvValue v) then dataValueHasValue else 0) OR
     (if dvStatus v \<noteq> StatusGood then dataValueHasStatus else 0) OR
     (if SourceTimestamp v \<noteq> zeroTime then dataValueHasSourceTimestamp else 0) OR
     (if SourceTimestamp v \<noteq> zeroTime \<and> SourcePicoseconds v \<noteq> 0 \<and>
         \<not> atDateTimeBound (SourceTimestamp v) then dataValueHasSourcePicoseconds else 0) OR
     (if ServerTimestamp v \<noteq> zeroTime then dataValueHasServerTimestamp else 0) OR
     (if ServerTimestamp v \<noteq> zeroTime \<and> ServerPicoseconds v \<noteq> 0 \<and>
         \<not> atDateTimeBound (ServerTimestamp v) then dataValueHasServerPicoseconds else 0)"

definition WriteDataValue :: "DataValue \<Rightarrow> Encoder \<Rightarrow> Encoder" where
  "WriteDataValue v = (let mask = datavalue_mask v in seqw
     [WriteByteValue mask,
      if mask AND dataValueHasValue \<noteq> 0 then WriteVariant (dvValue v) else seqw [],
      if mask AND dataValueHasStatus \<noteq> 0 then WriteStatusCode (dvStatus v) else seqw [],
      if mask AND dataValueHasSourceTimestamp \<noteq> 0 then WriteDateTime (SourceTimestamp v) else seqw [],
      if mask AND dataValueHasSourcePicoseconds \<noteq> 0 then WriteUInt16 (SourcePicoseconds v) else seqw [],
      if mask AND dataValueHasServerTimestamp \<noteq> 0 then WriteDateTime (ServerTimestamp v) else seqw [],
      if mask AND dataValueHasServerPicoseconds \<noteq> 0 then WriteUInt16 (ServerPicoseconds v) else seqw []])"

section \<open>Reading\<close>

text \<open>
  The loop of \<^verbatim>\<open>readArrayDimensions\<close>, over 64-bit integers: \<open>elements\<close> and
  \<open>product\<close> are read as signed.
\<close>

primrec readDimensions :: "nat \<Rightarrow> int64 \<Rightarrow> int64 \<Rightarrow> int64 reader" where
  "readDimensions 0 elements product = rreturn product"
| "readDimensions (Suc n) elements product = rbind ReadInt32 (\<lambda>dimension.
     if sint dimension \<le> 0 then rfail decodingError
     else let product' = product * scast dimension
          in if sint product' > sint elements then rfail decodingError
             else readDimensions n elements product')"

definition readArrayDimensions :: "int \<Rightarrow> unit reader" where
  "readArrayDimensions arrayLength = rbind (ReadArrayLength 4) (\<lambda>count. case count of
       None \<Rightarrow> rfail decodingError
     | Some n \<Rightarrow>
         if n = 0 then rfail decodingError
         else let elements = of_int arrayLength :: int64
              in rbind (readDimensions (nat n) elements 1) (\<lambda>product.
                   if product \<noteq> elements then rfail decodingError else rreturn ()))"

text \<open>\<^verbatim>\<open>skipBuiltIn\<close>, given the reader of a DataValue.\<close>

definition skipBuiltIn :: "DataValue reader \<Rightarrow> BuiltInTypeID \<Rightarrow> go_value reader" where
  "skipBuiltIn readDataValue t =
     (if t = BuiltInBoolean then rbind ReadBoolean (\<lambda>v. rreturn (GBool v))
      else if t = BuiltInSByte then rbind ReadSByte (\<lambda>v. rreturn (GInt8 v))
      else if t = BuiltInByte then rbind ReadByteValue (\<lambda>v. rreturn (GUInt8 v))
      else if t = BuiltInInt16 then rbind ReadInt16 (\<lambda>v. rreturn (GInt16 v))
      else if t = BuiltInUInt16 then rbind ReadUInt16 (\<lambda>v. rreturn (GUInt16 v))
      else if t = BuiltInInt32 then rbind ReadInt32 (\<lambda>v. rreturn (GInt32 v))
      else if t = BuiltInUInt32 then rbind ReadUInt32 (\<lambda>v. rreturn (GUInt32 v))
      else if t = BuiltInInt64 then rbind ReadInt64 (\<lambda>v. rreturn (GInt64 v))
      else if t = BuiltInUInt64 then rbind ReadUInt64 (\<lambda>v. rreturn (GUInt64 v))
      else if t = BuiltInFloat then rbind ReadFloat (\<lambda>v. rreturn (GFloat32 v))
      else if t = BuiltInDouble then rbind ReadDouble (\<lambda>v. rreturn (GFloat64 v))
      else if t = BuiltInString \<or> t = BuiltInXMLElement then
        rbind ReadString (\<lambda>v. rreturn (case v of None \<Rightarrow> GNil | Some s \<Rightarrow> GString s))
      else if t = BuiltInDateTime then rbind ReadDateTime (\<lambda>v. rreturn (GTime v))
      else if t = BuiltInGuid then rbind ReadGuid (\<lambda>v. rreturn (GGuid v))
      else if t = BuiltInByteString then
        rbind ReadByteString (\<lambda>v. rreturn (case v of None \<Rightarrow> GNil | Some s \<Rightarrow> GBytes s))
      else if t = BuiltInStatusCode then rbind ReadStatusCode (\<lambda>v. rreturn (GStatusCode v))
      else if t = BuiltInNodeID then rbind ReadNodeID (\<lambda>v. rreturn (GNodeID v))
      else if t = BuiltInExpandedNodeID then rbind ReadExpandedNodeID (\<lambda>v. rreturn (GExpandedNodeID v))
      else if t = BuiltInQualifiedName then rbind ReadQualifiedName (\<lambda>v. rreturn (GQualifiedName v))
      else if t = BuiltInLocalizedText then rbind ReadLocalizedText (\<lambda>v. rreturn (GLocalizedText v))
      else if t = BuiltInExtensionObject then rbind ReadExtensionObject (\<lambda>v. rreturn (GExtensionObject v))
      else if t = BuiltInDataValue then rbind readDataValue (\<lambda>v. rreturn (GDataValue v))
      else if t = BuiltInDiagnosticInfo then rbind ReadDiagnosticInfo (\<lambda>v. rreturn (GDiagnosticInfo v))
      else if t = BuiltInVariant then rfail decodingError
      else rbind ReadByteString (\<lambda>v. rreturn (case v of None \<Rightarrow> GNil | Some s \<Rightarrow> GBytes s)))"

text \<open>The body of \<^verbatim>\<open>ReadVariant\<close>, given the reader of a DataValue.\<close>

definition ReadVariant_body :: "DataValue reader \<Rightarrow> Variant reader" where
  "ReadVariant_body readDataValue = rbind ReadByteValue (\<lambda>mask.
     let typeID = mask AND variantTypeMask
     in if typeID = BuiltInNull then rreturn NullVariant
        else if typeID > builtInMaxReserved then rfail decodingError
        else if mask AND variantArrayValues \<noteq> 0 then
          rbind (ReadArrayLength 1) (\<lambda>len.
            rbind (read_count (skipBuiltIn readDataValue typeID)
                     (case len of None \<Rightarrow> 0 | Some n \<Rightarrow> nat n)) (\<lambda>_.
            rbind (if mask AND variantArrayDimensions \<noteq> 0
                   then readArrayDimensions (case len of None \<Rightarrow> 0 | Some n \<Rightarrow> n)
                   else rreturn ()) (\<lambda>_.
            rreturn (Variant typeID GNil True []))))
        else if mask AND variantArrayDimensions \<noteq> 0 then rfail decodingError
        else rbind (skipBuiltIn readDataValue typeID) (\<lambda>value.
          rreturn (Variant typeID value False [])))"

text \<open>The body of \<^verbatim>\<open>ReadDataValue\<close>, given the reader of a Variant.\<close>

definition ReadDataValue_body :: "Variant reader \<Rightarrow> DataValue reader" where
  "ReadDataValue_body readVariant = rbind ReadByteValue (\<lambda>mask.
     rbind (if mask AND dataValueHasValue \<noteq> 0 then readVariant else rreturn NullVariant) (\<lambda>value.
     rbind (if mask AND dataValueHasStatus \<noteq> 0 then ReadStatusCode else rreturn StatusGood) (\<lambda>status.
     rbind (if mask AND dataValueHasSourceTimestamp \<noteq> 0 then ReadDateTime else rreturn zeroTime) (\<lambda>source.
     rbind (if mask AND dataValueHasSourcePicoseconds \<noteq> 0
            then rbind ReadUInt16 (\<lambda>p. rreturn (clampPicoseconds p)) else rreturn 0) (\<lambda>sourcePico.
     rbind (if mask AND dataValueHasServerTimestamp \<noteq> 0 then ReadDateTime else rreturn zeroTime) (\<lambda>server.
     rbind (if mask AND dataValueHasServerPicoseconds \<noteq> 0
            then rbind ReadUInt16 (\<lambda>p. rreturn (clampPicoseconds p)) else rreturn 0) (\<lambda>serverPico.
     rreturn (DataValue value status source sourcePico server serverPico))))))))"

primrec readVariant_fuel :: "nat \<Rightarrow> Variant reader" where
  "readVariant_fuel 0 = rfail OutOfFuel"
| "readVariant_fuel (Suc n) = ReadVariant_body (ReadDataValue_body (readVariant_fuel n))"

definition ReadVariant :: "Variant reader" where
  "ReadVariant d = readVariant_fuel (Suc (length (pending d))) d"

definition ReadDataValue :: "DataValue reader" where
  "ReadDataValue = ReadDataValue_body ReadVariant"

end
