(* ===== verification/DaMapping.thy ===== *)
theory DaMapping
  imports Variants DaArrays
begin

text \<open>
  The mapping from OPC DA to OPC UA: status codes and their bit fields
  (\<^verbatim>\<open>src/internal/opcua/statuscode.go\<close>), and the DA types, qualities and item errors
  (\<^verbatim>\<open>src/internal/opcua/mapping.go\<close>).
\<close>

section \<open>Status codes\<close>

definition severityMask :: StatusCode where "severityMask = 0xC0000000"
definition infoTypeMask :: StatusCode where "infoTypeMask = 0x00000C00"
definition limitBitsMask :: StatusCode where "limitBitsMask = 0x00000300"
definition semanticsChangedMask :: StatusCode where "semanticsChangedMask = 0x00004000"

definition SeverityGood :: uint32 where "SeverityGood = 0"
definition SeverityUncertain :: uint32 where "SeverityUncertain = 1"
definition SeverityBad :: uint32 where "SeverityBad = 2"
definition SeverityReserved :: uint32 where "SeverityReserved = 3"

definition InfoTypeDataValue :: uint32 where "InfoTypeDataValue = 1"
definition LimitNone :: uint32 where "LimitNone = 0"

definition StatusUncertain :: StatusCode where "StatusUncertain = 0x40000000"
definition StatusBad :: StatusCode where "StatusBad = 0x80000000"
definition StatusGoodLocalOverride :: StatusCode where "StatusGoodLocalOverride = 0x00960000"
definition StatusGoodClamped :: StatusCode where "StatusGoodClamped = 0x00300000"
definition StatusUncertainSubNormal :: StatusCode where "StatusUncertainSubNormal = 0x40950000"
definition StatusUncertainSensorNotAccurate :: StatusCode where "StatusUncertainSensorNotAccurate = 0x40930000"
definition StatusUncertainEngineeringUnitsExceeded :: StatusCode where
  "StatusUncertainEngineeringUnitsExceeded = 0x40940000"
definition StatusUncertainLastUsableValue :: StatusCode where "StatusUncertainLastUsableValue = 0x40900000"
definition StatusUncertainNoCommunicationLastUsableValue :: StatusCode where
  "StatusUncertainNoCommunicationLastUsableValue = 0x408F0000"
definition StatusBadConfigurationError :: StatusCode where "StatusBadConfigurationError = 0x80890000"
definition StatusBadNotConnected :: StatusCode where "StatusBadNotConnected = 0x808A0000"
definition StatusBadNoCommunication :: StatusCode where "StatusBadNoCommunication = 0x80310000"
definition StatusBadDeviceFailure :: StatusCode where "StatusBadDeviceFailure = 0x808B0000"
definition StatusBadSensorFailure :: StatusCode where "StatusBadSensorFailure = 0x808C0000"
definition StatusBadOutOfService :: StatusCode where "StatusBadOutOfService = 0x808D0000"
definition StatusBadWaitingForInitialData :: StatusCode where "StatusBadWaitingForInitialData = 0x80320000"
definition StatusBadNotReadable :: StatusCode where "StatusBadNotReadable = 0x803A0000"
definition StatusBadNotWritable :: StatusCode where "StatusBadNotWritable = 0x803B0000"
definition StatusBadNodeIdUnknown :: StatusCode where "StatusBadNodeIdUnknown = 0x80340000"
definition StatusBadNodeIdInvalid :: StatusCode where "StatusBadNodeIdInvalid = 0x80330000"
definition StatusBadAttributeIDInvalid :: StatusCode where "StatusBadAttributeIDInvalid = 0x80350000"
definition StatusBadTypeMismatch :: StatusCode where "StatusBadTypeMismatch = 0x80740000"
definition StatusBadOutOfRange :: StatusCode where "StatusBadOutOfRange = 0x803C0000"
definition StatusBadOutOfMemory :: StatusCode where "StatusBadOutOfMemory = 0x80030000"
definition StatusBadWriteNotSupported :: StatusCode where "StatusBadWriteNotSupported = 0x80730000"
definition StatusBadUnexpectedError :: StatusCode where "StatusBadUnexpectedError = 0x80010000"

lemmas status_defs = StatusGood_def StatusUncertain_def StatusBad_def StatusGoodLocalOverride_def
  StatusGoodClamped_def StatusUncertainSubNormal_def StatusUncertainSensorNotAccurate_def
  StatusUncertainEngineeringUnitsExceeded_def StatusUncertainLastUsableValue_def
  StatusUncertainNoCommunicationLastUsableValue_def StatusBadConfigurationError_def
  StatusBadNotConnected_def StatusBadNoCommunication_def StatusBadDeviceFailure_def
  StatusBadSensorFailure_def StatusBadOutOfService_def StatusBadWaitingForInitialData_def
  StatusBadNotReadable_def StatusBadNotWritable_def StatusBadNodeIdUnknown_def
  StatusBadNodeIdInvalid_def StatusBadAttributeIDInvalid_def StatusBadTypeMismatch_def
  StatusBadOutOfRange_def StatusBadOutOfMemory_def StatusBadWriteNotSupported_def
  StatusBadUnexpectedError_def

definition Severity :: "StatusCode \<Rightarrow> uint32" where
  "Severity code = drop_bit 30 (code AND severityMask)"

definition IsGood :: "StatusCode \<Rightarrow> bool" where "IsGood code \<longleftrightarrow> Severity code = SeverityGood"
definition IsUncertain :: "StatusCode \<Rightarrow> bool" where "IsUncertain code \<longleftrightarrow> Severity code = SeverityUncertain"
definition IsBad :: "StatusCode \<Rightarrow> bool" where
  "IsBad code \<longleftrightarrow> Severity code = SeverityBad \<or> Severity code = SeverityReserved"

definition InfoType :: "StatusCode \<Rightarrow> uint32" where
  "InfoType code = drop_bit 10 (code AND infoTypeMask)"

definition LimitBits :: "StatusCode \<Rightarrow> uint32" where
  "LimitBits code = (if InfoType code \<noteq> InfoTypeDataValue then LimitNone
     else drop_bit 8 (code AND limitBitsMask))"

definition WithLimitBits :: "StatusCode \<Rightarrow> uint32 \<Rightarrow> StatusCode" where
  "WithLimitBits code limit =
     (let cleared = code AND NOT (infoTypeMask OR limitBitsMask)
      in if limit = LimitNone then cleared
         else cleared OR push_bit 10 InfoTypeDataValue OR push_bit 8 (limit AND 0x3))"

definition WithSemanticsChanged :: "StatusCode \<Rightarrow> StatusCode" where
  "WithSemanticsChanged code = code OR semanticsChangedMask"

definition HasSemanticsChanged :: "StatusCode \<Rightarrow> bool" where
  "HasSemanticsChanged code \<longleftrightarrow> code AND semanticsChangedMask \<noteq> 0"

section \<open>Types\<close>

datatype DataType =
    DataTypeBoolean | DataTypeSByte | DataTypeByte | DataTypeInt16 | DataTypeUInt16
  | DataTypeInt32 | DataTypeUInt32 | DataTypeInt64 | DataTypeUInt64 | DataTypeFloat
  | DataTypeDouble | DataTypeString | DataTypeDecimal | DataTypeNull

definition dataTypeFromTableA2 :: "DAVarType \<Rightarrow> DataType option" where
  "dataTypeFromTableA2 varType = (let b = VT_Base varType in
     if b = VTEmpty \<or> b = VTNull then Some DataTypeNull
     else if b = VTI1 then Some DataTypeSByte
     else if b = VTUI1 then Some DataTypeByte
     else if b = VTI2 then Some DataTypeInt16
     else if b = VTUI2 then Some DataTypeUInt16
     else if b = VTI4 then Some DataTypeInt32
     else if b = VTUI4 then Some DataTypeUInt32
     else if b = VTI8 then Some DataTypeInt64
     else if b = VTUI8 then Some DataTypeUInt64
     else if b = VTR4 then Some DataTypeFloat
     else if b = VTR8 then Some DataTypeDouble
     else if b = VTBool then Some DataTypeBoolean
     else if b = VTBSTR then Some DataTypeString
     else if b = VTDecimal then Some DataTypeDecimal
     else if b = VTDate then Some DataTypeDouble
     else None)"

definition DataTypeFor :: "DAVarType \<Rightarrow> DataType option" where
  "DataTypeFor varType = (if VT_IsArray varType \<or> VT_IsByRef varType then None
     else dataTypeFromTableA2 (VT_DecodesAs varType))"

section \<open>Quality\<close>

definition qualityLimitMask :: uint16 where "qualityLimitMask = 0x03"
definition qualityMainAndSub :: uint16 where "qualityMainAndSub = 0xFC"

definition QualityBad :: uint16 where "QualityBad = 0x00"
definition QualityConfigError :: uint16 where "QualityConfigError = 0x04"
definition QualityNotConnected :: uint16 where "QualityNotConnected = 0x08"
definition QualityDeviceFailure :: uint16 where "QualityDeviceFailure = 0x0C"
definition QualitySensorFailure :: uint16 where "QualitySensorFailure = 0x10"
definition QualityLastKnown :: uint16 where "QualityLastKnown = 0x14"
definition QualityCommFailure :: uint16 where "QualityCommFailure = 0x18"
definition QualityOutOfService :: uint16 where "QualityOutOfService = 0x1C"
definition QualityWaitingForInitialData :: uint16 where "QualityWaitingForInitialData = 0x20"
definition QualityUncertain :: uint16 where "QualityUncertain = 0x40"
definition QualityLastUsable :: uint16 where "QualityLastUsable = 0x44"
definition QualitySensorCal :: uint16 where "QualitySensorCal = 0x50"
definition QualityEGUExceeded :: uint16 where "QualityEGUExceeded = 0x54"
definition QualitySubNormal :: uint16 where "QualitySubNormal = 0x58"
definition QualityGood :: uint16 where "QualityGood = 0xC0"
definition QualityLocalOverride :: uint16 where "QualityLocalOverride = 0xD8"

lemmas quality_defs = QualityBad_def QualityConfigError_def QualityNotConnected_def
  QualityDeviceFailure_def QualitySensorFailure_def QualityLastKnown_def QualityCommFailure_def
  QualityOutOfService_def QualityWaitingForInitialData_def QualityUncertain_def
  QualityLastUsable_def QualitySensorCal_def QualityEGUExceeded_def QualitySubNormal_def
  QualityGood_def QualityLocalOverride_def

definition mainQualityStatusCode :: "uint16 \<Rightarrow> StatusCode" where
  "mainQualityStatusCode mainAndSub =
     (if mainAndSub AND 0xC0 = 0xC0 then StatusGood
      else if mainAndSub AND 0xC0 = 0x40 then StatusUncertain
      else StatusBad)"

text \<open>The \<^verbatim>\<open>switch\<close> of \<^verbatim>\<open>StatusCodeForQuality\<close>.\<close>

definition qualityStatusCode :: "uint16 \<Rightarrow> StatusCode" where
  "qualityStatusCode mainAndSub =
     (if mainAndSub = QualityGood then StatusGood
      else if mainAndSub = QualityLocalOverride then StatusGoodLocalOverride
      else if mainAndSub = QualityUncertain then StatusUncertain
      else if mainAndSub = QualitySubNormal then StatusUncertainSubNormal
      else if mainAndSub = QualitySensorCal then StatusUncertainSensorNotAccurate
      else if mainAndSub = QualityEGUExceeded then StatusUncertainEngineeringUnitsExceeded
      else if mainAndSub = QualityLastUsable then StatusUncertainLastUsableValue
      else if mainAndSub = QualityBad then StatusBad
      else if mainAndSub = QualityConfigError then StatusBadConfigurationError
      else if mainAndSub = QualityNotConnected then StatusBadNotConnected
      else if mainAndSub = QualityCommFailure then StatusBadNoCommunication
      else if mainAndSub = QualityDeviceFailure then StatusBadDeviceFailure
      else if mainAndSub = QualitySensorFailure then StatusBadSensorFailure
      else if mainAndSub = QualityLastKnown then StatusUncertainNoCommunicationLastUsableValue
      else if mainAndSub = QualityOutOfService then StatusBadOutOfService
      else if mainAndSub = QualityWaitingForInitialData then StatusBadWaitingForInitialData
      else mainQualityStatusCode mainAndSub)"

definition StatusCodeForQuality :: "uint16 \<Rightarrow> StatusCode" where
  "StatusCodeForQuality raw =
     WithLimitBits (qualityStatusCode (raw AND qualityMainAndSub)) (ucast (raw AND qualityLimitMask))"

definition QualityVendorBits :: "uint16 \<Rightarrow> uint8" where
  "QualityVendorBits raw = ucast (drop_bit 8 raw)"

section \<open>Item errors\<close>

definition OPCEBadRights :: HRESULT where "OPCEBadRights = -1073479674"
definition OPCEUnknownItemID :: HRESULT where "OPCEUnknownItemID = -1073479673"
definition OPCEInvalidHandle :: HRESULT where "OPCEInvalidHandle = -1073479679"
definition OPCEBadType :: HRESULT where "OPCEBadType = -1073479676"
definition OPCEInvalidItemID :: HRESULT where "OPCEInvalidItemID = -1073479672"
definition OPCERange :: HRESULT where "OPCERange = -1073479669"
definition OPCEInvalidPID :: HRESULT where "OPCEInvalidPID = -1073479165"
definition OPCENotSupported :: HRESULT where "OPCENotSupported = -1073478650"
definition OPCSClamp :: HRESULT where "OPCSClamp = 262158"
definition EOutOfMemory :: HRESULT where "EOutOfMemory = -2147024882"
definition EAccessDenied :: HRESULT where "EAccessDenied = -2147024891"
definition DispETypeMismatch :: HRESULT where "DispETypeMismatch = -2147352571"
definition DispEOverflow :: HRESULT where "DispEOverflow = -2147352566"

definition StatusCodeForReadError :: "HRESULT \<Rightarrow> StatusCode" where
  "StatusCodeForReadError hr =
     (if HR_Succeeded hr then StatusGood
      else if hr = OPCEBadRights then StatusBadNotReadable
      else if hr = EOutOfMemory then StatusBadOutOfMemory
      else if hr = OPCEInvalidHandle \<or> hr = OPCEUnknownItemID then StatusBadNodeIdUnknown
      else if hr = OPCEInvalidItemID then StatusBadNodeIdInvalid
      else if hr = OPCEInvalidPID then StatusBadAttributeIDInvalid
      else if hr = EAccessDenied then StatusBadOutOfService
      else StatusBadUnexpectedError)"

definition StatusCodeForWriteError :: "HRESULT \<Rightarrow> StatusCode" where
  "StatusCodeForWriteError hr =
     (if hr = OPCSClamp then StatusGoodClamped
      else if HR_Succeeded hr then StatusGood
      else if hr = OPCEBadRights then StatusBadNotWritable
      else if hr = DispETypeMismatch \<or> hr = OPCEBadType then StatusBadTypeMismatch
      else if hr = OPCERange \<or> hr = DispEOverflow then StatusBadOutOfRange
      else if hr = EOutOfMemory then StatusBadOutOfMemory
      else if hr = OPCEInvalidHandle \<or> hr = OPCEUnknownItemID then StatusBadNodeIdUnknown
      else if hr = OPCEInvalidItemID \<or> hr = OPCEInvalidPID then StatusBadNodeIdInvalid
      else if hr = OPCENotSupported then StatusBadWriteNotSupported
      else StatusBadUnexpectedError)"

section \<open>Laws of the bit fields\<close>

text \<open>The masks as runs of two bits.\<close>

lemma mask_fields:
  "severityMask = push_bit 30 (mask 2)" "infoTypeMask = push_bit 10 (mask 2)"
  "limitBitsMask = push_bit 8 (mask 2)" "(3 :: uint32) = mask 2" "(3 :: uint16) = mask 2"
  "semanticsChangedMask = push_bit 14 1"
  by (simp_all add: severityMask_def infoTypeMask_def limitBitsMask_def semanticsChangedMask_def
      mask_eq_exp_minus_1 push_bit_eq_mult)

lemma bit_single:
  "bit (1024 :: int) n \<longleftrightarrow> n = 10" "bit (16384 :: int) n \<longleftrightarrow> n = 14"
  "bit (1024 :: nat) n \<longleftrightarrow> n = 10" "bit (16384 :: nat) n \<longleftrightarrow> n = 14"
  using bit_exp_iff [of 10 n, where ?'a = int] bit_exp_iff [of 14 n, where ?'a = int]
    bit_exp_iff [of 10 n, where ?'a = nat] bit_exp_iff [of 14 n, where ?'a = nat]
  by auto

lemmas status_fields = WithLimitBits_def Let_def LimitNone_def InfoTypeDataValue_def mask_fields

lemma Severity_WithLimitBits: "Severity (WithLimitBits code limit) = Severity code"
proof -
  have "WithLimitBits code limit AND severityMask = code AND severityMask"
    unfolding status_fields by (rule bit_word_eqI) (auto simp: bit_simps bit_single)
  then show ?thesis by (simp add: Severity_def)
qed

lemma Severity_WithSemanticsChanged: "Severity (WithSemanticsChanged code) = Severity code"
proof -
  have "WithSemanticsChanged code AND severityMask = code AND severityMask"
    unfolding WithSemanticsChanged_def mask_fields by (rule bit_word_eqI) (auto simp: bit_simps bit_single)
  then show ?thesis by (simp add: Severity_def)
qed

lemma InfoType_WithLimitBits:
  "InfoType (WithLimitBits code limit) = (if limit = LimitNone then 0 else InfoTypeDataValue)"
proof (cases "limit = 0")
  case True
  then show ?thesis
    unfolding InfoType_def status_fields by (intro bit_word_eqI) (auto simp: bit_simps bit_single)
next
  case False
  have "WithLimitBits code limit AND infoTypeMask = push_bit 10 1"
    using False unfolding status_fields by (intro bit_word_eqI) (auto simp: bit_simps bit_single)
  then show ?thesis using False by (simp add: InfoType_def LimitNone_def InfoTypeDataValue_def)
qed

lemma LimitBits_WithLimitBits:
  assumes l: "limit AND mask 2 = limit"
  shows "LimitBits (WithLimitBits code limit) = limit"
proof (cases "limit = 0")
  case True
  then show ?thesis by (simp add: LimitBits_def InfoType_WithLimitBits LimitNone_def InfoTypeDataValue_def)
next
  case False
  have "WithLimitBits code limit AND limitBitsMask = push_bit 8 (limit AND mask 2)"
    using False unfolding status_fields by (intro bit_word_eqI) (auto simp: bit_simps bit_single)
  then have "drop_bit 8 (WithLimitBits code limit AND limitBitsMask) = drop_bit 8 (push_bit 8 (limit AND mask 2))"
    by simp
  also have "\<dots> = limit AND mask 2" by (rule bit_word_eqI) (auto simp: bit_simps)
  finally show ?thesis using False by (simp add: LimitBits_def InfoType_WithLimitBits LimitNone_def l)
qed

section \<open>Properties\<close>

text \<open>The main quality, bits 6 and 7 of a DA quality.\<close>

definition main_severity :: "uint16 \<Rightarrow> uint32" where
  "main_severity raw =
     (if raw AND 0xC0 = 0xC0 then SeverityGood
      else if raw AND 0xC0 = 0x40 then SeverityUncertain
      else SeverityBad)"

lemmas severity_defs = SeverityGood_def SeverityUncertain_def SeverityBad_def

lemma Severity_codes:
  "Severity StatusGood = SeverityGood" "Severity StatusGoodLocalOverride = SeverityGood"
  "Severity StatusUncertain = SeverityUncertain" "Severity StatusUncertainSubNormal = SeverityUncertain"
  "Severity StatusUncertainSensorNotAccurate = SeverityUncertain"
  "Severity StatusUncertainEngineeringUnitsExceeded = SeverityUncertain"
  "Severity StatusUncertainLastUsableValue = SeverityUncertain"
  "Severity StatusUncertainNoCommunicationLastUsableValue = SeverityUncertain"
  "Severity StatusBad = SeverityBad" "Severity StatusBadConfigurationError = SeverityBad"
  "Severity StatusBadNotConnected = SeverityBad" "Severity StatusBadNoCommunication = SeverityBad"
  "Severity StatusBadDeviceFailure = SeverityBad" "Severity StatusBadSensorFailure = SeverityBad"
  "Severity StatusBadOutOfService = SeverityBad" "Severity StatusBadWaitingForInitialData = SeverityBad"
  by code_simp+

lemma qualityStatusCode_severity:
  "Severity (qualityStatusCode q) = (if q = QualityLastKnown then SeverityUncertain else main_severity q)"
  unfolding qualityStatusCode_def main_severity_def mainQualityStatusCode_def quality_defs
  by (simp add: Severity_codes)

text \<open>
  Claim C40: for each of the 65536 DA qualities, the status code has the severity of the
  main quality (good, uncertain, bad, with the undefined fourth value bad), except that
  LAST_KNOWN becomes uncertain; it carries the limit field as its limit bits; and nothing
  in it depends on the vendor byte.
\<close>
theorem StatusCodeForQuality_faithful:
  "Severity (StatusCodeForQuality raw) =
     (if raw AND 0xFC = QualityLastKnown then SeverityUncertain else main_severity raw) \<and>
   LimitBits (StatusCodeForQuality raw) = ucast (raw AND 3) \<and>
   StatusCodeForQuality raw = StatusCodeForQuality (raw AND 0xFF)"
proof -
  have q: "main_severity (raw AND 0xFC) = main_severity raw"
    by (simp add: main_severity_def and.assoc)
  have l: "ucast (raw AND 3) AND mask 2 = (ucast (raw AND 3) :: uint32)"
    unfolding mask_fields by (rule bit_word_eqI) (auto simp: bit_simps)
  show ?thesis
    by (simp add: StatusCodeForQuality_def Severity_WithLimitBits qualityStatusCode_severity
        LimitBits_WithLimitBits [OF l] qualityMainAndSub_def qualityLimitMask_def q and.assoc)
qed

lemma Severity_errors:
  "IsGood StatusGood" "IsGood StatusGoodClamped" "IsBad StatusBadNotReadable" "IsBad StatusBadNotWritable"
  "IsBad StatusBadOutOfMemory" "IsBad StatusBadNodeIdUnknown" "IsBad StatusBadNodeIdInvalid"
  "IsBad StatusBadAttributeIDInvalid" "IsBad StatusBadOutOfService" "IsBad StatusBadUnexpectedError"
  "IsBad StatusBadTypeMismatch" "IsBad StatusBadOutOfRange" "IsBad StatusBadWriteNotSupported"
  by code_simp+

text \<open>
  A DA item error is reported as a bad status code and a success as a good one, in
  both directions; the only good code that is not plain Good tells that a written value
  was clamped.
\<close>
theorem item_errors_severity:
  "(if HR_Succeeded hr then IsGood (StatusCodeForReadError hr) else IsBad (StatusCodeForReadError hr)) \<and>
   (if HR_Succeeded hr then IsGood (StatusCodeForWriteError hr) else IsBad (StatusCodeForWriteError hr)) \<and>
   (HR_Succeeded hr \<longleftrightarrow> StatusCodeForReadError hr = StatusGood) \<and>
   (StatusCodeForWriteError hr = StatusGoodClamped \<longleftrightarrow> hr = OPCSClamp)"
proof -
  have clamp: "HR_Succeeded OPCSClamp" by code_simp
  then have "if HR_Succeeded hr then IsGood (StatusCodeForReadError hr) else IsBad (StatusCodeForReadError hr)"
    "if HR_Succeeded hr then IsGood (StatusCodeForWriteError hr) else IsBad (StatusCodeForWriteError hr)"
    by (simp_all add: StatusCodeForReadError_def StatusCodeForWriteError_def Severity_errors)
  moreover have "\<not> IsBad StatusGood" "\<not> IsBad StatusGoodClamped" "StatusGood \<noteq> StatusGoodClamped"
    by code_simp+
  moreover have "HR_Succeeded hr \<Longrightarrow> StatusCodeForReadError hr = StatusGood"
    "HR_Succeeded hr \<Longrightarrow> StatusCodeForWriteError hr = (if hr = OPCSClamp then StatusGoodClamped else StatusGood)"
    "hr = OPCSClamp \<Longrightarrow> StatusCodeForWriteError hr = StatusGoodClamped"
    by (simp_all add: StatusCodeForReadError_def StatusCodeForWriteError_def)
  ultimately show ?thesis
    using clamp by (cases "HR_Succeeded hr"; cases "hr = OPCSClamp") auto
qed

end
