(* ===== verification/VariantLaws.thy ===== *)
theory VariantLaws
  imports Variants
begin

text \<open>
  Laws of the Variant and DataValue codec: the fuel of the model never shows, the
  readers stay inside the buffer, what the writers emit, and which encodings the
  readers take back to what.
\<close>

section \<open>The fuel is enough\<close>

lemma within_DiagnosticInfo [within_intros]: "within ReadDiagnosticInfo"
  by (rule diag_codec.rd_within)

lemma within_readDimensions [within_intros]: "within (readDimensions n elements product)"
  by (induction n arbitrary: product) (auto simp: Let_def intro!: within_intros)

lemma within_readArrayDimensions [within_intros]: "within (readArrayDimensions n)"
  unfolding readArrayDimensions_def Let_def by (intro within_intros)

lemma agree_read_count [agree_intros]:
  "agree_below k r s \<Longrightarrow> agree_below k (read_count r n) (read_count s n)"
  by (induction n) (auto intro!: agree_intros agree_within within_intros)

lemma agree_skipBuiltIn [agree_intros]:
  "agree_below k r s \<Longrightarrow> agree_below k (skipBuiltIn r t) (skipBuiltIn s t)"
  unfolding skipBuiltIn_def by (intro agree_intros; (assumption | intro agree_within within_intros))

lemma agree_ReadVariant_body:
  "agree_below k r s \<Longrightarrow> agree_below (Suc k) (ReadVariant_body r) (ReadVariant_body s)"
  unfolding ReadVariant_body_def Let_def
  by (intro agree_consume within_fixed consumes_ReadByteValue agree_intros)
    (assumption | intro agree_within within_intros)+

lemma agree_ReadDataValue_body [agree_intros]:
  "agree_below k r s \<Longrightarrow> agree_below k (ReadDataValue_body r) (ReadDataValue_body s)"
  unfolding ReadDataValue_body_def
  by (intro agree_intros) (assumption | intro agree_within within_intros)+

lemma readVariant_fuel_agree:
  "k \<le> n \<Longrightarrow> k \<le> m \<Longrightarrow> agree_below k (readVariant_fuel n) (readVariant_fuel m)"
proof (induction k arbitrary: n m)
  case 0
  show ?case by (rule agree_zero)
next
  case (Suc k)
  then obtain n' m' where "n = Suc n'" "m = Suc m'" "k \<le> n'" "k \<le> m'"
    by (metis Suc_le_D Suc_le_mono)
  then show ?case by (simp add: agree_ReadVariant_body agree_ReadDataValue_body Suc.IH)
qed

lemma ReadVariant_agree: "k \<le> n \<Longrightarrow> agree_below k ReadVariant (readVariant_fuel n)"
  unfolding agree_below_def ReadVariant_def
proof (intro allI impI)
  fix d assume n: "k \<le> n" and d: "dec_wf d" "length (pending d) < k"
  have "agree_below (Suc (length (pending d))) (readVariant_fuel (Suc (length (pending d))))
      (readVariant_fuel n)"
    by (rule readVariant_fuel_agree) (use n d in auto)
  from agreeD [OF this d(1) lessI]
  show "readVariant_fuel (Suc (length (pending d))) d = readVariant_fuel n d \<and>
      behaved d (readVariant_fuel (Suc (length (pending d))) d)"
    by blast
qed

lemma within_ReadVariant [within_intros]: "within ReadVariant"
  unfolding within_behaved
proof (intro allI impI)
  fix d assume "dec_wf d"
  then show "behaved d (ReadVariant d)"
    by (rule agreeD(2) [OF ReadVariant_agree [OF order_refl] _ lessI])
qed

lemma within_ReadDataValue [within_intros]: "within ReadDataValue"
  unfolding ReadDataValue_def ReadDataValue_body_def by (intro within_intros)

text \<open>The recursive equation of the source.\<close>

lemma ReadVariant_unfold:
  assumes "dec_wf d"
  shows "ReadVariant d = ReadVariant_body ReadDataValue d"
proof -
  let ?n = "length (pending d)"
  have "agree_below (Suc ?n) (ReadVariant_body (ReadDataValue_body ReadVariant))
      (ReadVariant_body (ReadDataValue_body (readVariant_fuel ?n)))"
    by (intro agree_ReadVariant_body agree_ReadDataValue_body ReadVariant_agree) simp
  with assms show ?thesis
    by (simp add: agree_below_def ReadVariant_def ReadDataValue_def)
qed

lemma parses_ReadVariant: "parses L (ReadVariant_body ReadDataValue) bs v \<Longrightarrow> parses L ReadVariant bs v"
  by (auto simp: parses_def ReadVariant_unfold)

section \<open>Scalars\<close>

text \<open>
  What the writer accepts of each dynamic type: the type id it must be declared with,
  the bytes, the bound, and the value a reader gives back.
\<close>

fun scalar_type :: "go_value \<Rightarrow> BuiltInTypeID option" where
  "scalar_type (GBool _) = Some BuiltInBoolean"
| "scalar_type (GInt8 _) = Some BuiltInSByte"
| "scalar_type (GUInt8 _) = Some BuiltInByte"
| "scalar_type (GInt16 _) = Some BuiltInInt16"
| "scalar_type (GUInt16 _) = Some BuiltInUInt16"
| "scalar_type (GInt32 _) = Some BuiltInInt32"
| "scalar_type (GUInt32 _) = Some BuiltInUInt32"
| "scalar_type (GInt64 _) = Some BuiltInInt64"
| "scalar_type (GUInt64 _) = Some BuiltInUInt64"
| "scalar_type (GFloat32 _) = Some BuiltInFloat"
| "scalar_type (GFloat64 _) = Some BuiltInDouble"
| "scalar_type (GString _) = Some BuiltInString"
| "scalar_type (GTime _) = Some BuiltInDateTime"
| "scalar_type (GGuid _) = Some BuiltInGuid"
| "scalar_type (GBytes _) = Some BuiltInByteString"
| "scalar_type (GStatusCode _) = Some BuiltInStatusCode"
| "scalar_type (GNodeID _) = Some BuiltInNodeID"
| "scalar_type (GQualifiedName _) = Some BuiltInQualifiedName"
| "scalar_type (GLocalizedText _) = Some BuiltInLocalizedText"
| "scalar_type (GExtensionObject _) = Some BuiltInExtensionObject"
| "scalar_type _ = None"

fun scalar_wire :: "go_value \<Rightarrow> byte list" where
  "scalar_wire (GBool y) = bool_wire y"
| "scalar_wire (GInt8 y) = [y]"
| "scalar_wire (GUInt8 y) = [y]"
| "scalar_wire (GInt16 y) = le_bytes 2 y"
| "scalar_wire (GUInt16 y) = le_bytes 2 y"
| "scalar_wire (GInt32 y) = le_bytes 4 y"
| "scalar_wire (GUInt32 y) = le_bytes 4 y"
| "scalar_wire (GInt64 y) = le_bytes 8 y"
| "scalar_wire (GUInt64 y) = le_bytes 8 y"
| "scalar_wire (GFloat32 y) = le_bytes 4 (float_norm y)"
| "scalar_wire (GFloat64 y) = le_bytes 8 (double_norm y)"
| "scalar_wire (GString y) = lenbytes_wire y"
| "scalar_wire (GTime y) = le_bytes 8 (EncodeDateTime y)"
| "scalar_wire (GGuid y) = guid_wire y"
| "scalar_wire (GBytes y) = lenbytes_wire y"
| "scalar_wire (GStatusCode y) = le_bytes 4 y"
| "scalar_wire (GNodeID y) = nodeid_wire 0 y"
| "scalar_wire (GQualifiedName y) = qname_wire y"
| "scalar_wire (GLocalizedText y) = ltext_wire y"
| "scalar_wire (GExtensionObject y) = extobj_wire y"
| "scalar_wire _ = []"

fun scalar_ok :: "BinaryLimits \<Rightarrow> go_value \<Rightarrow> bool" where
  "scalar_ok L (GString y) = string_ok L y"
| "scalar_ok L (GBytes y) = bytestring_ok L y"
| "scalar_ok L (GNodeID y) = nodeid_ok L y"
| "scalar_ok L (GQualifiedName y) = qname_ok L y"
| "scalar_ok L (GLocalizedText y) = ltext_ok L y"
| "scalar_ok L (GExtensionObject y) = extobj_ok L y"
| "scalar_ok L _ = True"

fun scalar_norm :: "go_value \<Rightarrow> go_value" where
  "scalar_norm (GFloat32 y) = GFloat32 (float_norm y)"
| "scalar_norm (GFloat64 y) = GFloat64 (double_norm y)"
| "scalar_norm (GTime y) = GTime (datetime_norm y)"
| "scalar_norm (GNodeID y) = GNodeID (nodeid_norm y)"
| "scalar_norm (GExtensionObject y) = GExtensionObject (extobj_norm y)"
| "scalar_norm x = x"

lemma scalar_type_assigned: "scalar_type x = Some t \<Longrightarrow> 0 < t \<and> t \<le> builtInMaxAssigned"
  by (cases x) (auto simp: builtin_defs builtInMaxAssigned_def)

lemma writeVariantScalar_matches:
  assumes "scalar_type (vValue v) \<noteq> Some (vType v)"
  shows "writeVariantScalar v = efail encodingError"
  using assms unfolding writeVariantScalar_def Let_def writeVariantValue_def
  by (cases "vValue v") simp_all

lemma emits_writeVariantScalar [emits_intros]:
  "emits L (writeVariantScalar v) (scalar_type (vValue v) = Some (vType v) \<and> scalar_ok L (vValue v))
     (scalar_wire (vValue v))"
proof (cases "scalar_type (vValue v) = Some (vType v)")
  case False
  then show ?thesis by (simp add: writeVariantScalar_matches emits_efail)
next
  case True
  have "emits L (writeVariantScalar v) (scalar_ok L (vValue v)) (scalar_wire (vValue v))"
    using True [symmetric] unfolding writeVariantScalar_def Let_def writeVariantValue_def
    by (cases "vValue v") (simp_all add: builtin_defs scalar_emits emits_intros
        nodeid_codec.wr_emits qname_codec.wr_emits ltext_codec.wr_emits extobj_codec.wr_emits)
  then show ?thesis using True by simp
qed

lemma parses_skipBuiltIn_scalar:
  assumes L: "validate_limits L = None" and t: "scalar_type x = Some t" and ok: "scalar_ok L x"
  shows "parses L (skipBuiltIn r t) (scalar_wire x) (scalar_norm x)"
proof -
  note p = parses_rbind_return
  show ?thesis
    using t [symmetric] ok unfolding skipBuiltIn_def
    by (cases x) (simp_all add: builtin_defs L
        p [OF boolean_codec.rd_parses [OF L]] p [OF sbyte_codec.rd_parses [OF L]]
        p [OF byte_codec.rd_parses [OF L]] p [OF int16_codec.rd_parses [OF L]]
        p [OF uint16_codec.rd_parses [OF L]] p [OF int32_codec.rd_parses [OF L]]
        p [OF uint32_codec.rd_parses [OF L]] p [OF int64_codec.rd_parses [OF L]]
        p [OF uint64_codec.rd_parses [OF L]] p [OF float_codec.rd_parses [OF L]]
        p [OF double_codec.rd_parses [OF L]] p [OF datetime_codec.rd_parses [OF L]]
        p [OF guid_codec.rd_parses [OF L]] p [OF statuscode_codec.rd_parses [OF L]]
        p [OF parses_ReadString [OF L]] p [OF parses_ReadByteString [OF L]]
        p [OF nodeid_codec.rd_parses [OF L]] p [OF qname_codec.rd_parses [OF L]]
        p [OF ltext_codec.rd_parses [OF L]] p [OF extobj_codec.rd_parses [OF L]])
qed

section \<open>Array dimensions\<close>

definition dims_positive :: "int32 list \<Rightarrow> bool" where
  "dims_positive ds \<longleftrightarrow> list_all (\<lambda>d. sint d > 0) ds"

definition dims_product :: "int32 list \<Rightarrow> int" where
  "dims_product ds = prod_list (map sint ds)"

lemma dims_product_simps [simp]:
  "dims_product [] = 1" "dims_product (d # ds) = sint d * dims_product ds"
  by (simp_all add: dims_product_def)

lemma dims_positive_simps [simp]:
  "dims_positive []" "dims_positive (d # ds) \<longleftrightarrow> sint d > 0 \<and> dims_positive ds"
  by (simp_all add: dims_positive_def)

lemma dims_product_pos: "dims_positive ds \<Longrightarrow> 0 < dims_product ds"
  by (induction ds) auto

text \<open>A step of the product never wraps: both factors are below \<open>2^31\<close>.\<close>

lemma sint_widen: "sint (scast (d :: int32) :: int64) = sint d"
  by transfer simp

lemma product_no_wrap:
  fixes p :: int64 and d :: int32
  assumes "1 \<le> sint p" and "sint p \<le> MaxInt32" and "0 < sint d"
  shows "sint (p * scast d) = sint p * sint d"
proof -
  have d: "sint d < 2 ^ 31" using sint_lt [of d] by simp
  have "sint p * sint d < 2 ^ 31 * 2 ^ 31"
    by (rule mult_strict_mono) (use assms d in \<open>auto simp: MaxInt32_def\<close>)
  moreover have "0 \<le> sint p * sint d" using assms by simp
  ultimately show ?thesis
    by (simp add: sint_word_ariths sint_widen signed_take_bit_int_eq_self)
qed

lemma parses_readDimensions:
  assumes "dims_positive ds" and "1 \<le> sint p" and "sint p * dims_product ds \<le> sint elements"
    and "sint elements \<le> MaxInt32"
  shows "parses L (readDimensions (length ds) elements p) (concat (map (le_bytes 4) ds))
     (of_int (sint p * dims_product ds))"
  using assms
proof (induction ds arbitrary: p)
  case Nil
  then show ?case by (simp add: parses_rreturn)
next
  case (Cons d ds)
  have pos: "0 < sint d" "0 < dims_product ds" using Cons.prems by (auto intro: dims_product_pos)
  have le: "sint p \<le> sint p * sint d" "sint p * sint d \<le> sint p * (sint d * dims_product ds)"
    using pos Cons.prems(2) by (auto simp: mult_le_cancel_left1)
  have "sint p \<le> MaxInt32" using order_trans [OF le] Cons.prems(3,4) by simp
  then have s: "sint (p * scast d) = sint p * sint d"
    by (intro product_no_wrap) (use Cons.prems in auto)
  have "parses L (readDimensions (length ds) elements (p * scast d)) (concat (map (le_bytes 4) ds))
     (of_int (sint (p * scast d) * dims_product ds))"
    by (rule Cons.IH) (use Cons.prems le s order_trans [OF _ le(1)] in \<open>auto simp: mult.assoc\<close>)
  moreover have "\<not> sint elements < sint (p * scast d)" "\<not> sint d \<le> 0"
    using order_trans [OF le(2), of "sint elements"] Cons.prems(3) pos by (auto simp: s)
  ultimately have "parses L (rbind ReadUInt32 (\<lambda>dimension.
       if sint dimension \<le> 0 then rfail decodingError
       else let product' = p * scast dimension
            in if sint product' > sint elements then rfail decodingError
               else readDimensions (length ds) elements product'))
     (le_bytes 4 d @ concat (map (le_bytes 4) ds)) (of_int (sint p * sint d * dims_product ds))"
    by (intro parses_rbind [OF parses_le32]) (simp add: Let_def s)
  then show ?case by (simp add: ReadInt32_def mult.assoc)
qed

lemma dtake_inverse:
  assumes "dtake n d = Inr (raw, d')" and "dec_wf d"
  shows "pending d = raw @ pending d'" "int (length raw) = n" "dec_wf d'"
proof -
  have "d' = advance (nat n) d" "raw = take (nat n) (pending d)" "0 \<le> n" "n \<le> Remaining d"
    using assms(1) by (auto simp: dtake_def advance_def pending_def split: if_splits)
  with assms(2) show "pending d = raw @ pending d'" "int (length raw) = n" "dec_wf d'"
    by (simp_all add: pending_advance_drop Remaining_pending) (simp add: dec_wf_def pending_def)
qed

lemma ReadUInt32_inverse:
  assumes "ReadUInt32 d = Inr (x, d')" and "dec_wf d"
  shows "pending d = le_bytes 4 x @ pending d'" "dec_wf d'"
proof -
  from assms(1) obtain raw where raw: "dtake 4 d = Inr (raw, d')" and x: "x = le_word raw"
    by (auto simp: ReadUInt32_def rbind_def rreturn_def split: sum.splits)
  note t = dtake_inverse [OF raw assms(2)]
  have "le_bytes (length raw) (le_word raw :: 32 word) = raw"
    by (rule le_bytes_le_word) (use t(2) in simp)
  with t x show "pending d = le_bytes 4 x @ pending d'" "dec_wf d'" by auto
qed

text \<open>The converse: what \<open>readDimensions\<close> accepts has that product exactly, as integers.\<close>

lemma readDimensions_sound:
  assumes "readDimensions n elements p d = Inr (q, d')" and "dec_wf d"
    and "1 \<le> sint p" and "sint p \<le> sint elements" and "sint elements \<le> MaxInt32"
  shows "\<exists>ds. length ds = n \<and> pending d = concat (map (le_bytes 4) ds) @ pending d' \<and>
     dims_positive ds \<and> sint q = sint p * dims_product ds \<and> dec_wf d'"
  using assms
proof (induction n arbitrary: p d)
  case 0
  then show ?case by (auto simp: rreturn_def)
next
  case (Suc n)
  from Suc.prems(1) obtain x d1 where x: "ReadInt32 d = Inr (x, d1)" and pos: "0 < sint x"
    and le: "sint (p * scast x) \<le> sint elements"
    and rest: "readDimensions n elements (p * scast x) d1 = Inr (q, d')"
    by (auto simp: rbind_def Let_def rfail_def not_le not_less split: sum.splits if_splits)
  have s: "sint (p * scast x) = sint p * sint x"
    by (rule product_no_wrap) (use Suc.prems pos in auto)
  have d1: "pending d = le_bytes 4 x @ pending d1" "dec_wf d1"
    using ReadUInt32_inverse [OF x [unfolded ReadInt32_def] Suc.prems(2)] by auto
  have "1 \<le> sint p * sint x"
    using mult_mono [of 1 "sint p" 1 "sint x"] Suc.prems(3) pos by simp
  then obtain ds where "length ds = n" "pending d1 = concat (map (le_bytes 4) ds) @ pending d'"
    "dims_positive ds" "sint q = sint p * sint x * dims_product ds" "dec_wf d'"
    using Suc.IH [OF rest d1(2)] le Suc.prems(5) s by auto
  then show ?case
    using d1 pos by (intro exI [of _ "x # ds"]) (auto simp: mult.assoc)
qed

lemma readDimensions_positive:
  assumes "readDimensions (Suc m) elements 1 d = Inr (q, d')"
  shows "1 \<le> sint elements"
  using assms by (auto simp: rbind_def Let_def rfail_def sint_widen split: sum.splits if_splits)

lemma ReadArrayLength_inverse:
  assumes "ReadArrayLength k d = Inr (Some n, d')" and "dec_wf d"
  shows "pending d = le_bytes 4 (of_int n :: 32 word) @ pending d'" "0 \<le> n" "dec_wf d'"
proof -
  from assms(1) obtain x where x: "ReadUInt32 d = Inr (x, d')" "0 \<le> sint x" "n = sint x"
    by (auto simp: ReadArrayLength_def readLength_def ReadInt32_def rbind_def rreturn_def rfail_def
        split: sum.splits option.splits if_splits)
  from ReadUInt32_inverse [OF x(1) assms(2)] x(2,3)
  show "pending d = le_bytes 4 (of_int n :: 32 word) @ pending d'" "0 \<le> n" "dec_wf d'" by auto
qed

section \<open>Arrays\<close>

text \<open>The slices the writer accepts, as the scalars of their elements and with their type id.\<close>

fun array_items :: "go_value \<Rightarrow> go_value list" where
  "array_items (GBools ys) = map GBool ys"
| "array_items (GInt8s ys) = map GInt8 ys"
| "array_items (GBytes ys) = map GUInt8 ys"
| "array_items (GInt16s ys) = map GInt16 ys"
| "array_items (GUInt16s ys) = map GUInt16 ys"
| "array_items (GInt32s ys) = map GInt32 ys"
| "array_items (GUInt32s ys) = map GUInt32 ys"
| "array_items (GInt64s ys) = map GInt64 ys"
| "array_items (GUInt64s ys) = map GUInt64 ys"
| "array_items (GFloat32s ys) = map GFloat32 ys"
| "array_items (GFloat64s ys) = map GFloat64 ys"
| "array_items (GStrings ys) = map GString ys"
| "array_items _ = []"

fun array_type :: "go_value \<Rightarrow> BuiltInTypeID option" where
  "array_type (GBools _) = Some BuiltInBoolean"
| "array_type (GInt8s _) = Some BuiltInSByte"
| "array_type (GBytes _) = Some BuiltInByte"
| "array_type (GInt16s _) = Some BuiltInInt16"
| "array_type (GUInt16s _) = Some BuiltInUInt16"
| "array_type (GInt32s _) = Some BuiltInInt32"
| "array_type (GUInt32s _) = Some BuiltInUInt32"
| "array_type (GInt64s _) = Some BuiltInInt64"
| "array_type (GUInt64s _) = Some BuiltInUInt64"
| "array_type (GFloat32s _) = Some BuiltInFloat"
| "array_type (GFloat64s _) = Some BuiltInDouble"
| "array_type (GStrings _) = Some BuiltInString"
| "array_type _ = None"

lemma array_items_type: "array_type x = Some t \<Longrightarrow> y \<in> set (array_items x) \<Longrightarrow> scalar_type y = Some t"
  by (cases x) auto

lemma variantArrayLength_eq:
  "variantArrayLength v = (if array_type (vValue v) = Some (vType v)
     then Some (length (array_items (vValue v))) else None)"
proof (cases "array_type (vValue v) = Some (vType v)")
  case True
  from True [symmetric] show ?thesis
    unfolding variantArrayLength_def Let_def by (cases "vValue v") (simp_all add: builtin_defs)
next
  case False
  then show ?thesis
    unfolding variantArrayLength_def Let_def by (cases "vValue v") simp_all
qed

lemma concat_map_map: "concat (map f (map g xs)) = concat (map (\<lambda>x. f (g x)) xs)"
  by (simp add: comp_def)

lemma emits_writeVariantArrayElements [emits_intros]:
  "emits L (writeVariantArrayElements v) (list_all (scalar_ok L) (array_items (vValue v)))
     (concat (map scalar_wire (array_items (vValue v))))"
  unfolding writeVariantArrayElements_def
  by (cases "vValue v")
    (auto simp: comp_def list_all_iff emits_skip
      intro!: emits_cong [OF emits_write_each] scalar_emits emits_WriteString)

lemma length_concat_ge: "(\<And>x. x \<in> set xs \<Longrightarrow> x \<noteq> []) \<Longrightarrow> length xs \<le> length (concat xs)"
proof (induction xs)
  case (Cons x xs)
  then have "1 \<le> length x" "length xs \<le> length (concat xs)" by (auto simp: Suc_le_eq)
  then show ?case by simp
qed simp

lemma array_items_wire_ne: "y \<in> set (array_items x) \<Longrightarrow> scalar_wire y \<noteq> []"
  by (cases x) (auto simp: bool_wire_def lenbytes_wire_def dest: arg_cong [where f = length])

section \<open>The Variant codec\<close>

definition multidimensional :: "Variant \<Rightarrow> bool" where
  "multidimensional v \<longleftrightarrow> length (ArrayDimensions v) > 1"

definition array_mask :: "Variant \<Rightarrow> byte" where
  "array_mask v = vType v OR variantArrayValues OR
     (if multidimensional v then variantArrayDimensions else 0)"

definition variant_wire :: "Variant \<Rightarrow> byte list" where
  "variant_wire v =
     (if IsArray v then
        array_mask v # le_bytes 4 (of_nat (length (array_items (vValue v))) :: 32 word) @
        concat (map scalar_wire (array_items (vValue v))) @
        (if multidimensional v then
           le_bytes 4 (of_nat (length (ArrayDimensions v)) :: 32 word) @
           concat (map (le_bytes 4) (ArrayDimensions v))
         else [])
      else if vType v = BuiltInNull then [0]
      else vType v # scalar_wire (vValue v))"

definition variant_ok :: "BinaryLimits \<Rightarrow> Variant \<Rightarrow> bool" where
  "variant_ok L v \<longleftrightarrow>
     (if IsArray v then array_type (vValue v) = Some (vType v) \<and>
        list_all (scalar_ok L) (array_items (vValue v))
      else vType v = BuiltInNull \<or>
        scalar_type (vValue v) = Some (vType v) \<and> scalar_ok L (vValue v))"

text \<open>
  A reader reports an array but not its elements, and a null Variant without whatever
  value its \<^verbatim>\<open>Value\<close> holds.
\<close>

definition variant_norm :: "Variant \<Rightarrow> Variant" where
  "variant_norm v =
     (if IsArray v then Variant (vType v) GNil True []
      else if vType v = BuiltInNull then NullVariant
      else Variant (vType v) (scalar_norm (vValue v)) False [])"

text \<open>
  The arrays the own reader takes back: the writer checks neither the element count nor
  the dimensions against the limits.
\<close>

definition variant_readable :: "BinaryLimits \<Rightarrow> Variant \<Rightarrow> bool" where
  "variant_readable L v \<longleftrightarrow> (IsArray v \<longrightarrow>
     int (length (array_items (vValue v))) \<le> MaxArrayLength L \<and>
     (multidimensional v \<longrightarrow> int (length (ArrayDimensions v)) \<le> MaxArrayLength L \<and>
        dims_positive (ArrayDimensions v) \<and>
        dims_product (ArrayDimensions v) = int (length (array_items (vValue v)))))"

lemma emits_int32s: "emits L (write_each WriteInt32 ds) True (concat (map (le_bytes 4) ds))"
  by (rule emits_cong [OF emits_write_each]) (auto intro: scalar_emits simp: list_all_iff)

lemma emits_writeVariantArray:
  assumes "IsArray v"
  shows "emits L (writeVariantArray v) (variant_ok L v) (variant_wire v)"
proof (cases "array_type (vValue v) = Some (vType v)")
  case True
  show ?thesis
    unfolding writeVariantArray_def variantArrayLength_eq if_P [OF True] option.case Let_def
    by (rule emits_cong, (rule emits_int32s emits_intros)+)
      (auto simp: variant_ok_def variant_wire_def assms True array_mask_def multidimensional_def)
next
  case False
  then show ?thesis
    using assms by (simp add: writeVariantArray_def variantArrayLength_eq variant_ok_def emits_efail)
qed

lemma emits_WriteVariant [emits_intros]: "emits L (WriteVariant v) (variant_ok L v) (variant_wire v)"
proof (cases "IsArray v")
  case True
  then show ?thesis by (simp add: WriteVariant_def emits_writeVariantArray)
next
  case False
  show ?thesis
    unfolding WriteVariant_def if_not_P [OF False]
    by (rule emits_cong, (rule emits_intros)+)
      (auto simp: False variant_ok_def variant_wire_def dest!: scalar_type_assigned)
qed

lemmas variant_masks = variantTypeMask_def variantArrayValues_def variantArrayDimensions_def
  builtInMaxReserved_def

lemma scalar_mask_bits:
  assumes "scalar_type x = Some t"
  shows "t AND variantTypeMask = t" "t AND variantArrayValues = 0" "t AND variantArrayDimensions = 0"
    "t \<noteq> BuiltInNull" "\<not> builtInMaxReserved < t"
  using assms by (cases x; auto simp: builtin_defs variant_masks)+

lemma array_mask_bits:
  assumes "array_type x = Some t"
  shows "(t OR variantArrayValues OR variantArrayDimensions) AND variantTypeMask = t"
    "(t OR variantArrayValues) AND variantTypeMask = t"
    "(t OR variantArrayValues OR variantArrayDimensions) AND variantArrayValues \<noteq> 0"
    "(t OR variantArrayValues) AND variantArrayValues \<noteq> 0"
    "(t OR variantArrayValues OR variantArrayDimensions) AND variantArrayDimensions \<noteq> 0"
    "(t OR variantArrayValues) AND variantArrayDimensions = 0"
    "t \<noteq> BuiltInNull" "\<not> builtInMaxReserved < t"
  using assms by (cases x; auto simp: builtin_defs variant_masks)+

lemma parses_scalar_variant:
  assumes L: "validate_limits L = None" and t: "scalar_type x = Some t" and ok: "scalar_ok L x"
  shows "parses L (ReadVariant_body r) (t # scalar_wire x) (Variant t (scalar_norm x) False [])"
  unfolding ReadVariant_body_def
  by (rule parses_byte_bind)
    (simp add: scalar_mask_bits [OF t] parses_rbind_return [OF parses_skipBuiltIn_scalar [OF L t ok]])

lemma parses_array_items:
  assumes L: "validate_limits L = None" and t: "array_type x = Some t"
    and ok: "list_all (scalar_ok L) (array_items x)"
  shows "parses L (read_count (skipBuiltIn r t) (length (array_items x)))
     (concat (map scalar_wire (array_items x))) (map scalar_norm (array_items x))"
  using ok by (intro parses_read_count parses_skipBuiltIn_scalar L)
    (auto simp: list_all_iff intro: array_items_type [OF t])

lemma parses_readArrayDimensions:
  assumes L: "validate_limits L = None" and len: "1 < length ds" "int (length ds) \<le> MaxArrayLength L"
    and n: "n \<le> MaxArrayLength L" and ds: "dims_positive ds" "dims_product ds = n"
  shows "parses L (readArrayDimensions n)
     (le_bytes 4 (of_nat (length ds) :: 32 word) @ concat (map (le_bytes 4) ds)) ()"
  unfolding readArrayDimensions_def
proof (rule parses_ReadArrayLength [OF L len(2)])
  have "length (concat (map (le_bytes 4) ds)) = 4 * length ds" by (induction ds) auto
  then show "4 * int (length ds) \<le> int (length (concat (map (le_bytes 4) ds)))" by simp
  have n': "0 < n" "n \<le> MaxInt32" using dims_product_pos [OF ds(1)] ds(2) n validated_bounds [OF L] by auto
  then have s: "sint (of_int n :: int64) = n" by (simp add: MaxInt32_def signed_of_int signed_take_bit_int_eq_self)
  have "parses L (readDimensions (length ds) (of_int n) 1) (concat (map (le_bytes 4) ds))
      (of_int (sint (1 :: int64) * dims_product ds))"
    by (rule parses_readDimensions) (use ds n' s in auto)
  then show "parses L (case Some (int (length ds)) of None \<Rightarrow> rfail decodingError
       | Some k \<Rightarrow> if k = 0 then rfail decodingError
           else let elements = of_int n :: int64
                in rbind (readDimensions (nat k) elements 1) (\<lambda>product.
                     if product \<noteq> elements then rfail decodingError else rreturn ()))
     (concat (map (le_bytes 4) ds)) ()"
    using len(1) ds(2) by (auto simp: Let_def intro: parses_rbind_return)
qed

lemma parses_array_variant:
  assumes L: "validate_limits L = None" and v: "IsArray v" "variant_ok L v" "variant_readable L v"
  shows "parses L (ReadVariant_body r) (variant_wire v) (variant_norm v)"
proof -
  let ?xs = "array_items (vValue v)"
  let ?dims = "if multidimensional v then
           le_bytes 4 (of_nat (length (ArrayDimensions v)) :: 32 word) @
           concat (map (le_bytes 4) (ArrayDimensions v)) else []"
  have t: "array_type (vValue v) = Some (vType v)" and ok: "list_all (scalar_ok L) ?xs"
    and n: "int (length ?xs) \<le> MaxArrayLength L"
    using v by (auto simp: variant_ok_def variant_readable_def)
  have "parses L (if multidimensional v then readArrayDimensions (int (length ?xs)) else rreturn ()) ?dims ()"
    using v by (auto simp: variant_readable_def multidimensional_def
        intro!: parses_readArrayDimensions L parses_rreturn)
  then have dims: "parses L (rbind (if array_mask v AND variantArrayDimensions \<noteq> 0
       then readArrayDimensions (int (length ?xs)) else rreturn ())
       (\<lambda>_. rreturn (Variant (vType v) GNil True []))) ?dims (Variant (vType v) GNil True [])"
    by (intro parses_rbind_return) (auto simp: array_mask_def array_mask_bits [OF t])
  have "int (length ?xs) \<le> int (length (concat (map scalar_wire ?xs)))"
    using length_concat_ge [of "map scalar_wire ?xs"] array_items_wire_ne by fastforce
  then have size: "1 * int (length ?xs) \<le> int (length (concat (map scalar_wire ?xs) @ ?dims))"
    by simp
  have "parses L (rbind (ReadArrayLength 1) (\<lambda>len.
            rbind (read_count (skipBuiltIn r (vType v))
                     (case len of None \<Rightarrow> 0 | Some n \<Rightarrow> nat n)) (\<lambda>_.
            rbind (if array_mask v AND variantArrayDimensions \<noteq> 0
                   then readArrayDimensions (case len of None \<Rightarrow> 0 | Some n \<Rightarrow> n)
                   else rreturn ()) (\<lambda>_.
            rreturn (Variant (vType v) GNil True [])))))
      (le_bytes 4 (of_nat (length ?xs) :: 32 word) @ concat (map scalar_wire ?xs) @ ?dims)
      (Variant (vType v) GNil True [])"
    by (rule parses_ReadArrayLength [OF L n size])
      (simp only: option.case nat_int, rule parses_rbind [OF parses_array_items [OF L t ok] dims])
  moreover have "array_mask v AND variantTypeMask = vType v" "array_mask v AND variantArrayValues \<noteq> 0"
    using array_mask_bits [OF t] by (simp_all add: array_mask_def)
  ultimately show ?thesis
    unfolding ReadVariant_body_def variant_wire_def variant_norm_def if_P [OF v(1)]
    by (intro parses_byte_bind)
      (simp only: Let_def array_mask_bits(7,8) [OF t] if_False if_True not_False_eq_True)
qed

lemma parses_variant:
  assumes L: "validate_limits L = None" and v: "variant_ok L v" "variant_readable L v"
  shows "parses L ReadVariant (variant_wire v) (variant_norm v)"
proof (rule parses_ReadVariant, cases "IsArray v")
  case True
  with assms show "parses L (ReadVariant_body ReadDataValue) (variant_wire v) (variant_norm v)"
    by (intro parses_array_variant)
next
  case False
  show "parses L (ReadVariant_body ReadDataValue) (variant_wire v) (variant_norm v)"
  proof (cases "vType v = BuiltInNull")
    case True
    then show ?thesis
      using False unfolding ReadVariant_body_def variant_wire_def variant_norm_def
      by (auto intro!: parses_byte_bind simp: BuiltInNull_def parses_rreturn)
  next
    case nn: False
    then show ?thesis
      using False v(1) L by (auto simp: variant_ok_def variant_wire_def variant_norm_def intro: parses_scalar_variant)
  qed
qed

interpretation variant_codec:
  ua_codec_on WriteVariant ReadVariant variant_wire variant_ok variant_norm variant_readable
  by unfold_locales (auto intro: emits_WriteVariant parses_variant within_ReadVariant)

section \<open>The DataValue codec\<close>

text \<open>
  Picoseconds go out only beside a timestamp that is not at a bound of the DateTime
  range, and come back no larger than \<^term>\<open>maxPicoseconds\<close>.
\<close>

definition has_picoseconds :: "gotime \<Rightarrow> uint16 \<Rightarrow> bool" where
  "has_picoseconds t p \<longleftrightarrow> t \<noteq> zeroTime \<and> p \<noteq> 0 \<and> \<not> atDateTimeBound t"

definition datavalue_wire :: "DataValue \<Rightarrow> byte list" where
  "datavalue_wire v = datavalue_mask v #
     (if Variant_IsNull (dvValue v) then [] else variant_wire (dvValue v)) @
     (if dvStatus v = StatusGood then [] else le_bytes 4 (dvStatus v)) @
     (if SourceTimestamp v = zeroTime then [] else le_bytes 8 (EncodeDateTime (SourceTimestamp v))) @
     (if has_picoseconds (SourceTimestamp v) (SourcePicoseconds v) then le_bytes 2 (SourcePicoseconds v) else []) @
     (if ServerTimestamp v = zeroTime then [] else le_bytes 8 (EncodeDateTime (ServerTimestamp v))) @
     (if has_picoseconds (ServerTimestamp v) (ServerPicoseconds v) then le_bytes 2 (ServerPicoseconds v) else [])"

definition datavalue_ok :: "BinaryLimits \<Rightarrow> DataValue \<Rightarrow> bool" where
  "datavalue_ok L v \<longleftrightarrow> Variant_IsNull (dvValue v) \<or> variant_ok L (dvValue v)"

definition datavalue_readable :: "BinaryLimits \<Rightarrow> DataValue \<Rightarrow> bool" where
  "datavalue_readable L v \<longleftrightarrow> Variant_IsNull (dvValue v) \<or> variant_readable L (dvValue v)"

definition timestamp_norm :: "gotime \<Rightarrow> gotime" where
  "timestamp_norm t = (if t = zeroTime then zeroTime else datetime_norm t)"

definition picoseconds_norm :: "gotime \<Rightarrow> uint16 \<Rightarrow> uint16" where
  "picoseconds_norm t p = (if has_picoseconds t p then min p maxPicoseconds else 0)"

definition datavalue_norm :: "DataValue \<Rightarrow> DataValue" where
  "datavalue_norm v = DataValue
     (if Variant_IsNull (dvValue v) then NullVariant else variant_norm (dvValue v))
     (dvStatus v)
     (timestamp_norm (SourceTimestamp v)) (picoseconds_norm (SourceTimestamp v) (SourcePicoseconds v))
     (timestamp_norm (ServerTimestamp v)) (picoseconds_norm (ServerTimestamp v) (ServerPicoseconds v))"

lemmas datavalue_flags = dataValueHasValue_def dataValueHasStatus_def dataValueHasSourceTimestamp_def
  dataValueHasServerTimestamp_def dataValueHasSourcePicoseconds_def dataValueHasServerPicoseconds_def

lemma flag_bits:
  fixes a b c d e f :: bool
  defines "m \<equiv> (if a then 0x01 else 0) OR (if b then 0x02 else 0) OR (if c then 0x04 else 0) OR
     (if d then 0x10 else 0) OR (if e then 0x08 else 0) OR (if f then 0x20 else (0 :: byte))"
  shows "m AND 0x01 \<noteq> 0 \<longleftrightarrow> a" "m AND 0x02 \<noteq> 0 \<longleftrightarrow> b" "m AND 0x04 \<noteq> 0 \<longleftrightarrow> c"
    "m AND 0x10 \<noteq> 0 \<longleftrightarrow> d" "m AND 0x08 \<noteq> 0 \<longleftrightarrow> e" "m AND 0x20 \<noteq> 0 \<longleftrightarrow> f"
  unfolding m_def by (cases a; cases b; cases c; cases d; cases e; cases f; simp)+

lemma datavalue_mask_bits:
  "datavalue_mask v AND dataValueHasValue \<noteq> 0 \<longleftrightarrow> \<not> Variant_IsNull (dvValue v)"
  "datavalue_mask v AND dataValueHasStatus \<noteq> 0 \<longleftrightarrow> dvStatus v \<noteq> StatusGood"
  "datavalue_mask v AND dataValueHasSourceTimestamp \<noteq> 0 \<longleftrightarrow> SourceTimestamp v \<noteq> zeroTime"
  "datavalue_mask v AND dataValueHasSourcePicoseconds \<noteq> 0 \<longleftrightarrow>
     has_picoseconds (SourceTimestamp v) (SourcePicoseconds v)"
  "datavalue_mask v AND dataValueHasServerTimestamp \<noteq> 0 \<longleftrightarrow> ServerTimestamp v \<noteq> zeroTime"
  "datavalue_mask v AND dataValueHasServerPicoseconds \<noteq> 0 \<longleftrightarrow>
     has_picoseconds (ServerTimestamp v) (ServerPicoseconds v)"
  unfolding datavalue_mask_def datavalue_flags flag_bits has_picoseconds_def by (rule refl)+

lemma emits_WriteDataValue [emits_intros]:
  "emits L (WriteDataValue v) (datavalue_ok L v) (datavalue_wire v)"
  unfolding WriteDataValue_def Let_def datavalue_mask_bits
  by (rule emits_cong, (rule emits_intros)+) (auto simp: datavalue_ok_def datavalue_wire_def)

lemma clampPicoseconds_min: "clampPicoseconds p = min p maxPicoseconds"
  by (auto simp: clampPicoseconds_def)

lemma parses_unless: "(\<not> c \<Longrightarrow> parses L r bs v) \<Longrightarrow> parses L (if \<not> c then r else rreturn w)
    (if c then [] else bs) (if c then w else v)"
  by (simp add: parses_rreturn)

lemma parses_when: "(c \<Longrightarrow> parses L r bs v) \<Longrightarrow> parses L (if c then r else rreturn w)
    (if c then bs else []) (if c then v else w)"
  by (simp add: parses_rreturn)

lemma parses_picoseconds:
  "parses L (rbind ReadUInt16 (\<lambda>p. rreturn (clampPicoseconds p))) (le_bytes 2 p) (min p maxPicoseconds)"
  by (rule parses_rbind_return [OF parses_le16]) (simp add: clampPicoseconds_min)

lemma parses_datavalue:
  assumes L: "validate_limits L = None" and v: "datavalue_ok L v" "datavalue_readable L v"
  shows "parses L ReadDataValue (datavalue_wire v) (datavalue_norm v)"
proof -
  have val: "parses L (if \<not> Variant_IsNull (dvValue v) then ReadVariant else rreturn NullVariant)
      (if Variant_IsNull (dvValue v) then [] else variant_wire (dvValue v))
      (if Variant_IsNull (dvValue v) then NullVariant else variant_norm (dvValue v))"
    using v by (intro parses_unless parses_variant L) (auto simp: datavalue_ok_def datavalue_readable_def)
  note status = parses_unless [OF statuscode_codec.rd_parses [OF L TrueI]]
  note time = parses_unless [OF datetime_codec.rd_parses [OF L TrueI]]
  note picoseconds = parses_when [OF parses_picoseconds]
  show ?thesis
    unfolding ReadDataValue_def ReadDataValue_body_def datavalue_wire_def datavalue_norm_def
      timestamp_norm_def picoseconds_norm_def
    by (rule parses_byte_bind, simp only: datavalue_mask_bits)
      (rule parses_rbind [OF val], rule parses_rbind [OF status], rule parses_rbind [OF time],
       rule parses_rbind [OF picoseconds], rule parses_rbind [OF time],
       rule parses_rbind_last [OF picoseconds], rule parses_rreturnI, simp)
qed

interpretation datavalue_codec:
  ua_codec_on WriteDataValue ReadDataValue datavalue_wire datavalue_ok datavalue_norm datavalue_readable
  by unfold_locales (auto intro: emits_WriteDataValue parses_datavalue within_ReadDataValue)

section \<open>Properties\<close>

text \<open>
  Claim C1: a Variant that a fresh encoder writes, and whose array length and dimensions
  are within the limits, is read back by a decoder under the same limits, to the last
  byte, as the Variant itself up to the normalisations of the encoding (NaN, DateTime
  range, elements of arrays not kept).
\<close>
theorem variant_roundtrip:
  assumes "NewEncoder L = Inr e" and "Bytes (WriteVariant v e) = Inr bs" and "variant_readable L v"
  shows "\<exists>d d'. NewDecoder bs L = Inr d \<and> ReadVariant d = Inr (variant_norm v, d') \<and> Done d'"
  using assms by (rule variant_codec.roundtrip_on)

definition variant_sample :: Variant where
  "variant_sample = Variant BuiltInInt16 (GInt16s [1, 2, 3, 4, 5, 6]) True [2, 3]"

definition default_encoder :: Encoder where
  "default_encoder = \<lparr>ebuffer = [], elimits = DefaultBinaryLimits, edepth = 0, eerr = None\<rparr>"

lemma default_encoder_new: "NewEncoder DefaultBinaryLimits = Inr default_encoder"
  by code_simp

theorem variant_roundtrip_witness:
  "\<exists>d d'. NewDecoder (variant_wire variant_sample) DefaultBinaryLimits = Inr d \<and>
     ReadVariant d = Inr (Variant BuiltInInt16 GNil True [], d') \<and> Done d'"
proof -
  have "Bytes (WriteVariant variant_sample default_encoder) = Inr (variant_wire variant_sample)"
    by code_simp
  moreover have "variant_readable DefaultBinaryLimits variant_sample" by code_simp
  moreover have "variant_norm variant_sample = Variant BuiltInInt16 GNil True []"
    by (simp add: variant_norm_def variant_sample_def)
  ultimately show ?thesis
    using variant_roundtrip [OF default_encoder_new] by metis
qed


definition datavalue_sample :: DataValue where
  "datavalue_sample = DataValue (Variant BuiltInDouble (GFloat64 0x4045000000000000) False [])
     0x80310000 1700000000123456789 12000 zeroTime 5"


text \<open>
  Dimensions are accepted only when there is at least one, every one is
  positive, and their product as integers, without wrap-around in the 64-bit
  accumulator, is the number of elements the array declared.
\<close>
theorem readArrayDimensions_exact:
  assumes "readArrayDimensions n d = Inr (u, d')" and "dec_wf d" and "n \<le> MaxInt32"
    and "0 \<le> n"
  shows "\<exists>ds. ds \<noteq> [] \<and> dims_positive ds \<and> dims_product ds = n \<and>
    pending d = le_bytes 4 (of_nat (length ds) :: 32 word) @ concat (map (le_bytes 4) ds) @ pending d'"
proof -
  have s: "sint (of_int n :: int64) = n"
    using assms(3,4) by (simp add: MaxInt32_def signed_of_int signed_take_bit_int_eq_self)
  from assms(1) obtain k d1 where k: "ReadArrayLength 4 d = Inr (Some k, d1)" "k \<noteq> 0"
    and r: "readDimensions (nat k) (of_int n) 1 d1 = Inr (of_int n, d')"
    by (auto simp: readArrayDimensions_def rbind_def rreturn_def rfail_def Let_def
        split: sum.splits option.splits if_splits)
  note len = ReadArrayLength_inverse [OF k(1) assms(2)]
  have "nat k = Suc (nat k - 1)" using k(2) len(2) by simp
  then have "1 \<le> n"
    using readDimensions_positive [of "nat k - 1"] r s by metis
  then obtain ds where "length ds = nat k" "pending d1 = concat (map (le_bytes 4) ds) @ pending d'"
    "dims_positive ds" "n = dims_product ds"
    using readDimensions_sound [OF r len(3)] s assms(3) by auto
  then show ?thesis
    using len k(2) by (intro exI [of _ ds]) auto
qed

theorem readArrayDimensions_exact_witness:
  "\<exists>d d'. dec_wf d \<and> readArrayDimensions 6 d = Inr ((), d') \<and>
     (\<exists>ds. ds \<noteq> [] \<and> dims_positive ds \<and> dims_product ds = 6 \<and>
       pending d = le_bytes 4 (of_nat (length ds) :: 32 word) @ concat (map (le_bytes 4) ds) @ pending d')"
proof -
  let ?bs = "[2, 0, 0, 0, 2, 0, 0, 0, 3, 0, 0, 0] :: byte list"
  let ?d = "\<lparr>dbuffer = ?bs, doffset = 0, dlimits = DefaultBinaryLimits, ddepth = 0\<rparr>"
  have r: "readArrayDimensions 6 ?d = Inr ((), ?d\<lparr>doffset := 12\<rparr>)" by code_simp
  have d: "dec_wf ?d" by code_simp
  have "6 \<le> MaxInt32" "0 \<le> (6 :: int)" by (simp_all add: MaxInt32_def)
  from r d readArrayDimensions_exact [OF r d this] show ?thesis by blast
qed

text \<open>
  DataValues nested in Variants, \<open>n\<close> deep, in two bytes for each level.
\<close>

primrec nested_variant :: "nat \<Rightarrow> Variant" where
  "nested_variant 0 = NullVariant"
| "nested_variant (Suc n) = Variant BuiltInDataValue
     (GDataValue (DataValue (nested_variant n) StatusGood zeroTime 0 zeroTime 0)) False []"

primrec nested_wire :: "nat \<Rightarrow> byte list" where
  "nested_wire 0 = [0]"
| "nested_wire (Suc n) = BuiltInDataValue # dataValueHasValue # nested_wire n"

lemma parses_nested: "parses L ReadVariant (nested_wire n) (nested_variant n)"
proof (induction n)
  case 0
  show ?case
    by (rule parses_ReadVariant)
      (auto simp: ReadVariant_body_def BuiltInNull_def intro!: parses_byte_bind parses_rreturn)
next
  case (Suc n)
  have "parses L ReadDataValue (dataValueHasValue # nested_wire n)
      (DataValue (nested_variant n) StatusGood zeroTime 0 zeroTime 0)"
    unfolding ReadDataValue_def ReadDataValue_body_def datavalue_flags
    by (rule parses_byte_bind, simp) (intro parses_rbind_last [OF Suc] parses_rbind_last [OF parses_rreturn] parses_rreturn)
  then have "parses L (rbind ReadDataValue (\<lambda>v. rreturn (GDataValue v))) (dataValueHasValue # nested_wire n)
      (GDataValue (DataValue (nested_variant n) StatusGood zeroTime 0 zeroTime 0))"
    by (rule parses_rbind_return) simp
  from parses_rbind_return [OF this, of "\<lambda>x. rreturn (Variant BuiltInDataValue x False [])", OF refl]
  show ?case
    unfolding nested_wire.simps nested_variant.simps
    by (intro parses_ReadVariant, unfold ReadVariant_body_def)
      (rule parses_byte_bind, simp add: builtin_defs variant_masks skipBuiltIn_def)
qed

lemma length_nested_wire: "length (nested_wire n) = 2 * n + 1"
  by (induction n) auto

text \<open>
  \<open>MaxNestingDepth\<close> does not bound the recursion of Variants and DataValues:
  a message with \<open>n\<close> nested DataValues is decoded whenever its \<open>2n + 1\<close> bytes fit,
  at whatever depth. The bound that holds is the size of the message.
\<close>
theorem nesting_bounded_only_by_size:
  assumes "validate_limits L = None" and "int (2 * n + 1) \<le> MaxMessageBytes L"
  shows "\<exists>d d'. NewDecoder (nested_wire n) L = Inr d \<and>
    ReadVariant d = Inr (nested_variant n, d') \<and> Done d'"
proof -
  let ?d = "\<lparr>dbuffer = nested_wire n, doffset = 0, dlimits = L, ddepth = 0\<rparr>"
  have "NewDecoder (nested_wire n) L = Inr ?d"
    using assms by (simp add: NewDecoder_def length_nested_wire)
  moreover have "ReadVariant ?d = Inr (nested_variant n, advance (length (nested_wire n)) ?d)"
    by (rule parsesD [OF parses_nested, where rest = "[]"]) (simp_all add: dec_wf_def pending_def)
  ultimately show ?thesis by (auto simp: Done_def Remaining_def)
qed

theorem nesting_bounded_only_by_size_witness:
  "MaxNestingDepth DefaultBinaryLimits < int 100000 \<and>
   (\<exists>d d'. NewDecoder (nested_wire 100000) DefaultBinaryLimits = Inr d \<and>
     ReadVariant d = Inr (nested_variant 100000, d') \<and> Done d')"
proof
  show "MaxNestingDepth DefaultBinaryLimits < int 100000"
    by (simp add: DefaultBinaryLimits_def minimumNestingDepth_def)
  show "\<exists>d d'. NewDecoder (nested_wire 100000) DefaultBinaryLimits = Inr d \<and>
     ReadVariant d = Inr (nested_variant 100000, d') \<and> Done d'"
    by (rule nesting_bounded_only_by_size)
      (simp_all add: DefaultBinaryLimits_def minimumNestingDepth_def validate_limits_def MaxInt32_def)
qed

end
