(* ===== verification/NodeModel.thy ===== *)
theory NodeModel
  imports DaRuntime DaMapping VariantLaws Tables
begin

text \<open>
  The nodes of the address space, from \<^verbatim>\<open>src/internal/opcua/addressspace.go\<close> and
  \<^verbatim>\<open>itemproperties.go\<close>: node classes, attributes, standard identifiers, references, and the
  node identifiers that carry a DA ItemID, a browse path or a property. The laws show that
  these identifiers give back what they were made from and never name two things.
\<close>

section \<open>Constants\<close>

type_synonym NodeClass = uint32

definition NodeClassUnspecified :: NodeClass where "NodeClassUnspecified = 0"
definition NodeClassObject :: NodeClass where "NodeClassObject = 1"
definition NodeClassVariable :: NodeClass where "NodeClassVariable = 2"
definition NodeClassMethod :: NodeClass where "NodeClassMethod = 4"
definition NodeClassObjectType :: NodeClass where "NodeClassObjectType = 8"
definition NodeClassVariableType :: NodeClass where "NodeClassVariableType = 16"
definition NodeClassReferenceType :: NodeClass where "NodeClassReferenceType = 32"
definition NodeClassDataType :: NodeClass where "NodeClassDataType = 64"
definition NodeClassView :: NodeClass where "NodeClassView = 128"

definition AttributeNodeID :: uint32 where "AttributeNodeID = 1"
definition AttributeNodeClass :: uint32 where "AttributeNodeClass = 2"
definition AttributeBrowseName :: uint32 where "AttributeBrowseName = 3"
definition AttributeDisplayName :: uint32 where "AttributeDisplayName = 4"
definition AttributeDescription :: uint32 where "AttributeDescription = 5"
definition AttributeEventNotifier :: uint32 where "AttributeEventNotifier = 12"
definition AttributeValue :: uint32 where "AttributeValue = 13"
definition AttributeDataType :: uint32 where "AttributeDataType = 14"
definition AttributeValueRank :: uint32 where "AttributeValueRank = 15"
definition AttributeArrayDimensions :: uint32 where "AttributeArrayDimensions = 16"
definition AttributeAccessLevel :: uint32 where "AttributeAccessLevel = 17"
definition AttributeUserAccessLevel :: uint32 where "AttributeUserAccessLevel = 18"
definition AttributeMinimumSamplingInterval :: uint32 where "AttributeMinimumSamplingInterval = 19"
definition AttributeHistorizing :: uint32 where "AttributeHistorizing = 20"

definition AccessLevelCurrentRead :: byte where "AccessLevelCurrentRead = 1"
definition AccessLevelCurrentWrite :: byte where "AccessLevelCurrentWrite = 2"

definition ValueRankScalar :: int32 where "ValueRankScalar = -1"
definition ValueRankOneOrMoreDimensions :: int32 where "ValueRankOneOrMoreDimensions = 0"

definition NodeIDReferences :: uint32 where "NodeIDReferences = 31"
definition NodeIDNonHierarchicalRefs :: uint32 where "NodeIDNonHierarchicalRefs = 32"
definition NodeIDHierarchicalRefs :: uint32 where "NodeIDHierarchicalRefs = 33"
definition NodeIDHasChild :: uint32 where "NodeIDHasChild = 34"
definition NodeIDOrganizes :: uint32 where "NodeIDOrganizes = 35"
definition NodeIDAggregates :: uint32 where "NodeIDAggregates = 44"
definition NodeIDHasTypeDefinition :: uint32 where "NodeIDHasTypeDefinition = 40"
definition NodeIDHasProperty :: uint32 where "NodeIDHasProperty = 46"
definition NodeIDHasComponent :: uint32 where "NodeIDHasComponent = 47"
definition NodeIDBaseObjectType :: uint32 where "NodeIDBaseObjectType = 58"
definition NodeIDFolderType :: uint32 where "NodeIDFolderType = 61"
definition NodeIDBaseDataVariableType :: uint32 where "NodeIDBaseDataVariableType = 63"
definition NodeIDRootFolder :: uint32 where "NodeIDRootFolder = 84"
definition NodeIDObjectsFolder :: uint32 where "NodeIDObjectsFolder = 85"
definition NodeIDTypesFolder :: uint32 where "NodeIDTypesFolder = 86"
definition NodeIDViewsFolder :: uint32 where "NodeIDViewsFolder = 87"
definition NodeIDPropertyType :: uint32 where "NodeIDPropertyType = 68"
definition NodeIDServerType :: uint32 where "NodeIDServerType = 2004"
definition NodeIDServer :: uint32 where "NodeIDServer = 2253"
definition NodeIDServerArray :: uint32 where "NodeIDServerArray = 2254"
definition NodeIDNamespaceArray :: uint32 where "NodeIDNamespaceArray = 2255"
definition NodeIDBoolean :: uint32 where "NodeIDBoolean = 1"
definition NodeIDSByte :: uint32 where "NodeIDSByte = 2"
definition NodeIDByte :: uint32 where "NodeIDByte = 3"
definition NodeIDInt16 :: uint32 where "NodeIDInt16 = 4"
definition NodeIDUInt16 :: uint32 where "NodeIDUInt16 = 5"
definition NodeIDInt32 :: uint32 where "NodeIDInt32 = 6"
definition NodeIDUInt32 :: uint32 where "NodeIDUInt32 = 7"
definition NodeIDInt64 :: uint32 where "NodeIDInt64 = 8"
definition NodeIDUInt64 :: uint32 where "NodeIDUInt64 = 9"
definition NodeIDFloat :: uint32 where "NodeIDFloat = 10"
definition NodeIDDouble :: uint32 where "NodeIDDouble = 11"
definition NodeIDString :: uint32 where "NodeIDString = 12"
definition NodeIDDateTime :: uint32 where "NodeIDDateTime = 13"
definition NodeIDBaseDataType :: uint32 where "NodeIDBaseDataType = 24"
definition NodeIDDecimal :: uint32 where "NodeIDDecimal = 50"
definition ValueRankOneDimension :: int32 where "ValueRankOneDimension = 1"

definition NodeIDRange :: uint32 where "NodeIDRange = 884"
definition NodeIDRangeEncodingDefaultBinary :: uint32 where "NodeIDRangeEncodingDefaultBinary = 886"
definition NodeIDLocalizedText :: uint32 where "NodeIDLocalizedText = 21"
definition NodeIDEUInformation :: uint32 where "NodeIDEUInformation = 887"
definition NodeIDEUInformationEncodingDefaultBinary :: uint32 where "NodeIDEUInformationEncodingDefaultBinary = 889"
definition NodeIDDataItemType :: uint32 where "NodeIDDataItemType = 2365"
definition NodeIDAnalogItemType :: uint32 where "NodeIDAnalogItemType = 2368"
definition NodeIDTwoStateDiscreteType :: uint32 where "NodeIDTwoStateDiscreteType = 2373"
definition NodeIDMultiStateDiscreteType :: uint32 where "NodeIDMultiStateDiscreteType = 2376"

definition AdapterNamespaceIndex :: uint16 where "AdapterNamespaceIndex = 2"

section \<open>Nodes\<close>

record Reference =
  rfReferenceTypeID :: NodeID
  rfIsForward :: bool
  rfTargetID :: ExpandedNodeID
  rfBrowseName :: QualifiedName
  rfDisplayName :: LocalizedText
  rfNodeClass :: NodeClass
  rfTypeDefinition :: ExpandedNodeID

record Node =
  nID :: NodeID
  nClass :: NodeClass
  nBrowseName :: QualifiedName
  nDisplayName :: LocalizedText
  nTypeDefinition :: NodeID
  nDataType :: NodeID
  ValueRank :: int32
  AccessLevel :: byte
  AccessRightsKnown :: bool
  DataTypeKnown :: bool
  semanticProperties :: "(gostring \<times> gostring) list"
  nSemanticGeneration :: uint64
  MinimumSamplingInterval :: float64
  MinimumSamplingIntervalKnown :: bool
  OwnItemID :: bool
  DescriptionOffered :: bool
  nItemID :: DAItemID
  LocalValue :: "(gotime \<Rightarrow> Variant) option"
  nReferences :: "Reference list"

text \<open>The zero \<^verbatim>\<open>Node\<close>, which the composite literals of the source start from.\<close>

definition zeroNode :: Node where
  "zeroNode = \<lparr>nID = zeroNodeID, nClass = 0, nBrowseName = \<lparr>qNamespace = 0, qName = []\<rparr>,
     nDisplayName = \<lparr>lLocale = [], lText = []\<rparr>, nTypeDefinition = zeroNodeID, nDataType = zeroNodeID,
     ValueRank = 0, AccessLevel = 0, AccessRightsKnown = False, DataTypeKnown = False,
     semanticProperties = [], nSemanticGeneration = 0, MinimumSamplingInterval = 0,
     MinimumSamplingIntervalKnown = False, OwnItemID = False, DescriptionOffered = False,
     nItemID = [], LocalValue = None, nReferences = []\<rparr>"

definition zeroExpandedNodeID :: ExpandedNodeID where
  "zeroExpandedNodeID = \<lparr>xNodeID = zeroNodeID, xNamespaceURI = [], xHasNamespaceURI = False,
     xServerIndex = 0, xHasServerIndex = False\<rparr>"

definition IsLocalVariable :: "Node option \<Rightarrow> bool" where
  "IsLocalVariable n = (case n of None \<Rightarrow> False
     | Some n \<Rightarrow> nClass n = NodeClassVariable \<and> \<not> Option.is_none (LocalValue n))"

definition staticLocalValue :: "Variant \<Rightarrow> gotime \<Rightarrow> Variant" where
  "staticLocalValue value = (\<lambda>_. value)"

definition dataTypeNodeIDs :: "DataType \<Rightarrow> uint32" where
  "dataTypeNodeIDs t = (case t of
       DataTypeBoolean \<Rightarrow> NodeIDBoolean | DataTypeSByte \<Rightarrow> NodeIDSByte | DataTypeByte \<Rightarrow> NodeIDByte
     | DataTypeInt16 \<Rightarrow> NodeIDInt16 | DataTypeUInt16 \<Rightarrow> NodeIDUInt16 | DataTypeInt32 \<Rightarrow> NodeIDInt32
     | DataTypeUInt32 \<Rightarrow> NodeIDUInt32 | DataTypeInt64 \<Rightarrow> NodeIDInt64 | DataTypeUInt64 \<Rightarrow> NodeIDUInt64
     | DataTypeFloat \<Rightarrow> NodeIDFloat | DataTypeDouble \<Rightarrow> NodeIDDouble | DataTypeString \<Rightarrow> NodeIDString
     | DataTypeDecimal \<Rightarrow> NodeIDDecimal | DataTypeNull \<Rightarrow> NodeIDBaseDataType)"

text \<open>Every \<^verbatim>\<open>DataType\<close> is a key of the map, so the lookup always succeeds.\<close>

definition DataTypeNodeID :: "DataType \<Rightarrow> NodeID option" where
  "DataTypeNodeID t = Some (NumericNodeID 0 (dataTypeNodeIDs t))"

definition referenceTo :: "NodeID \<Rightarrow> Node \<Rightarrow> bool \<Rightarrow> Reference" where
  "referenceTo referenceType target forward =
     \<lparr>rfReferenceTypeID = referenceType, rfIsForward = forward,
      rfTargetID = zeroExpandedNodeID\<lparr>xNodeID := nID target\<rparr>,
      rfBrowseName = nBrowseName target, rfDisplayName = nDisplayName target, rfNodeClass = nClass target,
      rfTypeDefinition = zeroExpandedNodeID\<lparr>xNodeID := nTypeDefinition target\<rparr>\<rparr>"

definition addForward :: "NodeID \<Rightarrow> Node \<Rightarrow> Node \<Rightarrow> Node" where
  "addForward referenceType target from =
     from\<lparr>nReferences := nReferences from @ [referenceTo referenceType target True]\<rparr>"

definition addInverse :: "NodeID \<Rightarrow> Node \<Rightarrow> Node \<Rightarrow> Node" where
  "addInverse referenceType target from =
     from\<lparr>nReferences := nReferences from @ [referenceTo referenceType target False]\<rparr>"

definition typeDefinitionNodes :: "(uint32 \<times> gostring \<times> NodeClass) list" where
  "typeDefinitionNodes =
     [(NodeIDBaseObjectType, lit ''BaseObjectType'', NodeClassObjectType),
      (NodeIDFolderType, lit ''FolderType'', NodeClassObjectType),
      (NodeIDServerType, lit ''ServerType'', NodeClassObjectType),
      (NodeIDBaseDataVariableType, lit ''BaseDataVariableType'', NodeClassVariableType),
      (NodeIDPropertyType, lit ''PropertyType'', NodeClassVariableType),
      (NodeIDDataItemType, lit ''DataItemType'', NodeClassVariableType),
      (NodeIDAnalogItemType, lit ''AnalogItemType'', NodeClassVariableType),
      (NodeIDTwoStateDiscreteType, lit ''TwoStateDiscreteType'', NodeClassVariableType),
      (NodeIDMultiStateDiscreteType, lit ''MultiStateDiscreteType'', NodeClassVariableType)]"

definition TypeDefinitionReference :: "Node \<Rightarrow> Reference option" where
  "TypeDefinitionReference node =
     (if nClass node \<noteq> NodeClassObject \<and> nClass node \<noteq> NodeClassVariable then None
      else if NodeID_IsNull (nTypeDefinition node) then None
      else case map_of typeDefinitionNodes (Numeric (nTypeDefinition node)) of
          None \<Rightarrow> None
        | Some (name, class) \<Rightarrow>
            if Namespace (nTypeDefinition node) \<noteq> 0 then None
            else Some \<lparr>rfReferenceTypeID = NumericNodeID 0 NodeIDHasTypeDefinition, rfIsForward = True,
              rfTargetID = zeroExpandedNodeID\<lparr>xNodeID := nTypeDefinition node\<rparr>,
              rfBrowseName = \<lparr>qNamespace = 0, qName = name\<rparr>, rfDisplayName = \<lparr>lLocale = [], lText = name\<rparr>,
              rfNodeClass = class, rfTypeDefinition = zeroExpandedNodeID\<rparr>)"

section \<open>Strings\<close>

text \<open>\<^verbatim>\<open>strings.CutPrefix\<close>, \<^verbatim>\<open>strings.Cut\<close>, \<^verbatim>\<open>strconv.ParseUint(s, 10, 32)\<close> and hexadecimal output.\<close>

definition strings_CutPrefix :: "gostring \<Rightarrow> gostring \<Rightarrow> gostring option" where
  "strings_CutPrefix s prefix =
     (if take (length prefix) s = prefix then Some (drop (length prefix) s) else None)"

fun strings_Cut :: "gostring \<Rightarrow> gostring \<Rightarrow> (gostring \<times> gostring) option" where
  "strings_Cut [] separator = (if separator = [] then Some ([], []) else None)"
| "strings_Cut (c # cs) separator =
     (if take (length separator) (c # cs) = separator then Some ([], drop (length separator) (c # cs))
      else case strings_Cut cs separator of
          None \<Rightarrow> None | Some (before, after) \<Rightarrow> Some (c # before, after))"

definition parseUint32 :: "gostring \<Rightarrow> uint32 option" where
  "parseUint32 s = (if s = [] \<or> \<not> list_all (\<lambda>b. 48 \<le> b \<and> b \<le> 57) s then None
     else let n = foldl (\<lambda>n b. 10 * n + (unat b - 48)) 0 s
          in if n < 2 ^ 32 then Some (of_nat n) else None)"

definition hexDigit :: "nat \<Rightarrow> byte" where
  "hexDigit n = (if n < 10 then of_nat (48 + n) else of_nat (55 + n))"

primrec hexFixed :: "nat \<Rightarrow> nat \<Rightarrow> gostring" where
  "hexFixed 0 n = []"
| "hexFixed (Suc k) n = hexFixed k (n div 16) @ [hexDigit (n mod 16)]"

definition NodeID_String :: "NodeID \<Rightarrow> gostring" where
  "NodeID_String n = lit ''ns='' @ decimal (unat (Namespace n)) @
     (if Type n = NodeIDTypeString then lit '';s='' @ StringID n
      else if Type n = NodeIDTypeGuid then lit '';g='' @ hexFixed 8 (unat (Data1 (nGuid n))) @ lit ''-'' @
        hexFixed 4 (unat (Data2 (nGuid n))) @ lit ''-'' @ hexFixed 4 (unat (Data3 (nGuid n))) @ lit ''-'' @
        concat (map (\<lambda>b. hexFixed 2 (unat b)) (data4_bytes (Data4 (nGuid n))))
      else if Type n = NodeIDTypeOpaque then
        lit '';b=<'' @ decimal (length (Opaque n)) @ lit '' bytes>''
      else lit '';i='' @ decimal (unat (Numeric n)))"

definition nodeKey :: "NodeID \<Rightarrow> gostring" where
  "nodeKey i = NodeID_String i"

section \<open>Identifiers of the source\<close>

definition join_path :: "gostring list \<Rightarrow> gostring" where
  "join_path path = (case path of [] \<Rightarrow> [] | s # rest \<Rightarrow> s @ concat (map (\<lambda>t. 0x1f # t) rest))"

definition branchPathKey :: "gostring list \<Rightarrow> gostring" where
  "branchPathKey path = join_path path"

definition branchItemIDSeparator :: gostring where "branchItemIDSeparator = [0x1e]"
definition itemNodePrefix :: gostring where "itemNodePrefix = lit ''item:''"
definition propertyNodePrefix :: gostring where "propertyNodePrefix = lit ''property:''"
definition propertyNodeSeparator :: gostring where "propertyNodeSeparator = [0x1f]"
definition otherPropertyNodePrefix :: gostring where "otherPropertyNodePrefix = lit ''daproperty:''"

definition BranchNodeID :: "gostring list \<Rightarrow> DAItemID option \<Rightarrow> NodeID" where
  "BranchNodeID path itemID =
     (if path = [] then zeroNodeID
      else StringNodeID AdapterNamespaceIndex (lit ''branch:'' @ join_path path @
        (case itemID of None \<Rightarrow> [] | Some i \<Rightarrow> if i = [] then [] else branchItemIDSeparator @ i)))"

definition adapter_string :: "NodeID \<Rightarrow> gostring option" where
  "adapter_string i =
     (if Namespace i \<noteq> AdapterNamespaceIndex \<or> Type i \<noteq> NodeIDTypeString then None else Some (StringID i))"

definition BranchItemIDForNode :: "NodeID \<Rightarrow> DAItemID option" where
  "BranchItemIDForNode i =
     (case adapter_string i of None \<Rightarrow> None | Some s \<Rightarrow>
     (case strings_CutPrefix s (lit ''branch:'') of None \<Rightarrow> None | Some rest \<Rightarrow>
     (case strings_Cut rest branchItemIDSeparator of None \<Rightarrow> None | Some (_, itemID) \<Rightarrow>
        if itemID = [] then None else Some itemID)))"

definition ItemNodeID :: "DAItemID \<Rightarrow> NodeID" where
  "ItemNodeID itemID = StringNodeID AdapterNamespaceIndex (itemNodePrefix @ itemID)"

definition ItemIDForNode :: "NodeID \<Rightarrow> DAItemID option" where
  "ItemIDForNode i =
     (case adapter_string i of None \<Rightarrow> None | Some s \<Rightarrow>
        if length s \<le> length itemNodePrefix \<or> take (length itemNodePrefix) s \<noteq> itemNodePrefix then None
        else Some (drop (length itemNodePrefix) s))"

definition ItemPropertyNodeID :: "DAItemID \<Rightarrow> gostring \<Rightarrow> NodeID" where
  "ItemPropertyNodeID itemID browseName = StringNodeID AdapterNamespaceIndex
     (propertyNodePrefix @ browseName @ propertyNodeSeparator @ itemID)"

definition OtherPropertyNodeID :: "DAItemID \<Rightarrow> uint32 \<Rightarrow> NodeID" where
  "OtherPropertyNodeID itemID i = StringNodeID AdapterNamespaceIndex
     (otherPropertyNodePrefix @ decimal (unat i) @ propertyNodeSeparator @ itemID)"

definition OtherPropertyForNode :: "NodeID \<Rightarrow> (DAItemID \<times> uint32) option" where
  "OtherPropertyForNode i =
     (case adapter_string i of None \<Rightarrow> None | Some s \<Rightarrow>
     (case strings_CutPrefix s otherPropertyNodePrefix of None \<Rightarrow> None | Some rest \<Rightarrow>
     (case strings_Cut rest propertyNodeSeparator of None \<Rightarrow> None | Some (identifier, itemID) \<Rightarrow>
        if itemID = [] then None
        else case parseUint32 identifier of None \<Rightarrow> None | Some parsed \<Rightarrow> Some (itemID, parsed))))"

section \<open>Decimal numbers and separators\<close>

lemma digit_value: "k < 10 \<Longrightarrow> unat (of_nat (48 + k) :: byte) = 48 + k"
  by (simp only: unat_of_nat) simp

lemma decimal_not_in: "b < 48 \<or> 57 < b \<Longrightarrow> b \<notin> set (decimal n)"
proof
  assume b: "b < 48 \<or> 57 < b" and "b \<in> set (decimal n)"
  from decimal_digits [OF this(2)] obtain k where "k < 10" "b = of_nat (48 + k)" by blast
  then have "unat b = 48 + k" "k < 10" using digit_value by simp_all
  with b show False by (simp add: word_less_nat_alt)
qed

lemma decimal_all_digits: "list_all (\<lambda>b. 48 \<le> b \<and> b \<le> 57) (decimal n)"
  unfolding list_all_iff using decimal_not_in [of _ n] not_le by blast

lemma decimal_value: "foldl (\<lambda>n b. 10 * n + (unat b - 48)) 0 (decimal n) = n"
proof (induction n rule: decimal.induct)
  case (1 n)
  have d: "unat (of_nat (48 + k) :: byte) - 48 = k" if "k < 10" for k :: nat
    using digit_value [OF that] by simp
  show ?case
  proof (cases "n < 10")
    case True
    then show ?thesis using d [OF True] by (simp add: decimal.simps [of n])
  next
    case False
    then have "decimal n = decimal (n div 10) @ [of_nat (48 + n mod 10)]"
      by (simp add: decimal.simps [of n])
    then show ?thesis using 1 [OF False] d [of "n mod 10"] by simp
  qed
qed

lemma decimal_inj: "decimal m = decimal n \<longleftrightarrow> m = n"
  by (metis decimal_value)

lemma parseUint32_decimal: "parseUint32 (decimal (unat w)) = Some w"
proof -
  have "unat w < 2 ^ 32" using unsigned_less [of w] by simp
  then show ?thesis
    by (simp add: Let_def parseUint32_def decimal_ne decimal_all_digits decimal_value)
qed

lemma CutPrefix_append [simp]: "strings_CutPrefix (p @ s) p = Some s"
  by (simp add: strings_CutPrefix_def)

lemma CutPrefix_Some: "strings_CutPrefix s p = Some r \<longleftrightarrow> s = p @ r"
  by (auto simp: strings_CutPrefix_def) (metis append_take_drop_id)

lemma Cut_at: "c \<notin> set a \<Longrightarrow> strings_Cut (a @ c # b) [c] = Some (a, b)"
  by (induction a) auto

lemma Cut_absent: "c \<notin> set a \<Longrightarrow> strings_Cut a [c] = None"
  by (induction a) auto

lemma split_unique:
  fixes a b :: gostring
  assumes "a @ c # b = a' @ c # b'" and "c \<notin> set a" and "c \<notin> set a'"
  shows "a = a' \<and> b = b'"
  using Cut_at [OF assms(2), of b, unfolded assms(1)] Cut_at [OF assms(3), of b'] by simp

section \<open>Node keys\<close>

text \<open>
  The nodes of the address space are kept under the printed form of their identifier. Two
  identifiers with the same key have the same namespace and, in the string and numeric forms
  the address space uses, the same identifier.
\<close>

definition numeric_id :: "NodeID \<Rightarrow> bool" where
  "numeric_id n \<longleftrightarrow> Type n \<noteq> NodeIDTypeString \<and> Type n \<noteq> NodeIDTypeGuid \<and> Type n \<noteq> NodeIDTypeOpaque"

lemma nodeKey_cases:
  "Type n = NodeIDTypeString \<Longrightarrow>
     nodeKey n = lit ''ns='' @ decimal (unat (Namespace n)) @ 59 # 115 # 61 # StringID n"
  "numeric_id n \<Longrightarrow>
     nodeKey n = lit ''ns='' @ decimal (unat (Namespace n)) @ 59 # 105 # 61 # decimal (unat (Numeric n))"
proof -
  have l: "lit '';s='' = [59, 115, 61]" "lit '';i='' = [59, 105, 61]" by code_simp+
  show "Type n = NodeIDTypeString \<Longrightarrow>
     nodeKey n = lit ''ns='' @ decimal (unat (Namespace n)) @ 59 # 115 # 61 # StringID n"
    by (simp add: nodeKey_def NodeID_String_def l)
  show "numeric_id n \<Longrightarrow>
     nodeKey n = lit ''ns='' @ decimal (unat (Namespace n)) @ 59 # 105 # 61 # decimal (unat (Numeric n))"
    by (simp add: nodeKey_def NodeID_String_def l numeric_id_def)
qed

lemma key_split:
  "lit ''ns='' @ decimal m @ 59 # r = lit ''ns='' @ decimal n @ 59 # r' \<longleftrightarrow> m = n \<and> r = r'"
  using split_unique [of "decimal m" 59 r "decimal n" r'] decimal_not_in [of 59] decimal_inj by auto

lemma nodeKey_string_inj:
  "Type m = NodeIDTypeString \<Longrightarrow> Type n = NodeIDTypeString \<Longrightarrow>
     nodeKey m = nodeKey n \<longleftrightarrow> Namespace m = Namespace n \<and> StringID m = StringID n"
  by (simp only: nodeKey_cases key_split) (auto dest: unsigned_word_eqI)

lemma nodeKey_numeric_inj:
  "numeric_id m \<Longrightarrow> numeric_id n \<Longrightarrow>
     nodeKey m = nodeKey n \<longleftrightarrow> Namespace m = Namespace n \<and> Numeric m = Numeric n"
  by (simp only: nodeKey_cases key_split) (auto simp: decimal_inj dest: unsigned_word_eqI)

lemma nodeKey_disjoint: "Type m = NodeIDTypeString \<Longrightarrow> numeric_id n \<Longrightarrow> nodeKey m \<noteq> nodeKey n"
  by (simp only: nodeKey_cases key_split) auto

lemma string_id_fields [simp]:
  "Namespace (StringNodeID ns s) = ns" "Type (StringNodeID ns s) = NodeIDTypeString"
  "StringID (StringNodeID ns s) = s"
  by (simp_all add: StringNodeID_def)

lemma numeric_id_fields [simp]:
  "Namespace (NumericNodeID ns i) = ns" "Numeric (NumericNodeID ns i) = i"
  "numeric_id (NumericNodeID ns i)"
  by (simp_all add: NumericNodeID_def numeric_id_def NodeIDTypeString_def NodeIDTypeGuid_def
      NodeIDTypeOpaque_def NodeIDTypeNumeric_def)

lemma nodeKey_StringNodeID [simp]:
  "nodeKey (StringNodeID a s) = nodeKey (StringNodeID b t) \<longleftrightarrow> a = b \<and> s = t"
  by (simp add: nodeKey_string_inj)

lemma nodeKey_NumericNodeID [simp]:
  "nodeKey (NumericNodeID a s) = nodeKey (NumericNodeID b t) \<longleftrightarrow> a = b \<and> s = t"
  by (simp add: nodeKey_numeric_inj)

lemma nodeKey_forms [simp]:
  "nodeKey (StringNodeID a s) \<noteq> nodeKey (NumericNodeID b i)"
  "nodeKey (NumericNodeID b i) \<noteq> nodeKey (StringNodeID a s)"
  using nodeKey_disjoint [of "StringNodeID a s" "NumericNodeID b i"] by simp_all

section \<open>What an identifier names\<close>

text \<open>
  \<open>source_name\<close> is what a node of the DA source stands for: an item, a branch with the ItemID
  the source may give it, a named property or another property of an item. \<open>source_node_id\<close>
  is the identifier the constructors give it. A name is proper when the separators occur in
  no browse name and no ItemID of a branch, which the comments of the source assume of a DA server.
\<close>

datatype source_name =
    SItem DAItemID
  | SBranch "gostring list" "DAItemID option"
  | SProperty DAItemID gostring
  | SOther DAItemID uint32

primrec source_node_id :: "source_name \<Rightarrow> NodeID" where
  "source_node_id (SItem i) = ItemNodeID i"
| "source_node_id (SBranch path i) = BranchNodeID path i"
| "source_node_id (SProperty i name) = ItemPropertyNodeID i name"
| "source_node_id (SOther i p) = OtherPropertyNodeID i p"

primrec proper_name :: "source_name \<Rightarrow> bool" where
  "proper_name (SItem i) \<longleftrightarrow> i \<noteq> []"
| "proper_name (SBranch path i) \<longleftrightarrow> path \<noteq> [] \<and> i \<noteq> Some [] \<and>
     list_all (\<lambda>s. 0x1f \<notin> set s \<and> 0x1e \<notin> set s) path"
| "proper_name (SProperty i name) \<longleftrightarrow> i \<noteq> [] \<and> 0x1f \<notin> set name"
| "proper_name (SOther i p) \<longleftrightarrow> i \<noteq> []"

lemma join_path_inj:
  assumes "p \<noteq> []" "q \<noteq> []" "list_all (\<lambda>s. 0x1f \<notin> set s) p" "list_all (\<lambda>s. 0x1f \<notin> set s) q"
    and "join_path p = join_path q"
  shows "p = q"
  using assms
proof (induction p arbitrary: q)
  case (Cons s p)
  obtain t q' where q: "q = t # q'" using Cons.prems by (cases q) auto
  have tail: "join_path (u # us) = (if us = [] then u else u @ 0x1f # join_path us)" for u us
    by (cases us) (auto simp: join_path_def)
  show ?case
  proof (cases "p = []"; cases "q' = []")
    assume "p = []" "q' \<noteq> []"
    then have "s = t @ 0x1f # join_path q'" using Cons.prems(5) by (simp add: q tail)
    then show ?thesis using Cons.prems(3) by simp
  next
    assume "p \<noteq> []" "q' = []"
    then have "t = s @ 0x1f # join_path p" using Cons.prems(5) by (simp add: q tail)
    then show ?thesis using Cons.prems(4) q by simp
  next
    assume n: "p \<noteq> []" "q' \<noteq> []"
    then have "s @ 0x1f # join_path p = t @ 0x1f # join_path q'" using Cons.prems(5) by (simp add: q tail)
    then have "s = t \<and> join_path p = join_path q'"
      by (rule split_unique) (use Cons.prems q in auto)
    then show ?thesis using Cons.IH [of q'] Cons.prems q n by simp
  qed (use Cons.prems q in \<open>simp add: tail\<close>)
qed simp

lemma append_at:
  assumes "a @ b = a' @ b'" and "c \<notin> set a" "c \<notin> set a'" and "b = [] \<or> hd b = c" "b' = [] \<or> hd b' = c"
  shows "a = a' \<and> b = (b' :: gostring)"
proof (cases "b = []"; cases "b' = []")
  assume "b = []" "b' \<noteq> []"
  then show ?thesis using assms by (cases b') auto
next
  assume "b \<noteq> []" "b' = []"
  then show ?thesis using assms by (cases b) auto
next
  assume "b \<noteq> []" "b' \<noteq> []"
  then obtain t t' where "b = c # t" "b' = c # t'" using assms by (cases b; cases b') auto
  then show ?thesis using split_unique [of a c t a' t'] assms by simp
qed (use assms in simp)

lemma join_path_chars:
  "list_all (\<lambda>s. 0x1f \<notin> set s \<and> 0x1e \<notin> set s) p \<Longrightarrow> 0x1e \<notin> set (join_path p)"
  by (cases p) (auto simp: join_path_def list_all_iff)

text \<open>The part of a branch identifier after its path.\<close>

definition branch_suffix :: "DAItemID option \<Rightarrow> gostring" where
  "branch_suffix i = (case i of None \<Rightarrow> [] | Some i \<Rightarrow> if i = [] then [] else 0x1e # i)"

lemma BranchNodeID_eq:
  "path \<noteq> [] \<Longrightarrow>
     BranchNodeID path i = StringNodeID AdapterNamespaceIndex (lit ''branch:'' @ join_path path @ branch_suffix i)"
  by (simp add: BranchNodeID_def branch_suffix_def branchItemIDSeparator_def split: option.split)

lemma branch_suffix_inj:
  "i \<noteq> Some [] \<Longrightarrow> j \<noteq> Some [] \<Longrightarrow> branch_suffix i = branch_suffix j \<longleftrightarrow> i = j"
  by (auto simp: branch_suffix_def split: option.splits if_splits)

lemma branch_inj:
  assumes "proper_name (SBranch p i)" "proper_name (SBranch q j)"
    and "join_path p @ branch_suffix i = join_path q @ branch_suffix j"
  shows "p = q \<and> i = j"
proof -
  have "join_path p = join_path q \<and> branch_suffix i = branch_suffix j"
  proof (rule append_at [OF assms(3)])
    show "0x1e \<notin> set (join_path p)" "0x1e \<notin> set (join_path q)"
      using assms join_path_chars [of p] join_path_chars [of q] by simp_all
  qed (simp_all add: branch_suffix_def split: option.split)
  then show ?thesis
    using join_path_inj [of p q] branch_suffix_inj [of i j] assms by (auto simp: list_all_iff)
qed

text \<open>The text of the identifier, by kind: the first bytes tell the kinds apart.\<close>

primrec source_text :: "source_name \<Rightarrow> gostring" where
  "source_text (SItem i) = lit ''item:'' @ i"
| "source_text (SBranch path i) = lit ''branch:'' @ join_path path @ branch_suffix i"
| "source_text (SProperty i name) = lit ''property:'' @ name @ 0x1f # i"
| "source_text (SOther i p) = lit ''daproperty:'' @ decimal (unat p) @ 0x1f # i"

lemmas node_prefix_defs = itemNodePrefix_def propertyNodePrefix_def otherPropertyNodePrefix_def
  propertyNodeSeparator_def branchItemIDSeparator_def

lemma source_node_id_eq:
  "proper_name n \<Longrightarrow> source_node_id n = StringNodeID AdapterNamespaceIndex (source_text n)"
  by (cases n) (simp_all add: ItemNodeID_def BranchNodeID_eq ItemPropertyNodeID_def
      OtherPropertyNodeID_def node_prefix_defs)

lemma prefix_bytes:
  "lit ''item:'' = [105, 116, 101, 109, 58]" "lit ''branch:'' = [98, 114, 97, 110, 99, 104, 58]"
  "lit ''property:'' = [112, 114, 111, 112, 101, 114, 116, 121, 58]"
  "lit ''daproperty:'' = [100, 97, 112, 114, 111, 112, 101, 114, 116, 121, 58]"
  by code_simp+

lemma source_text_inj:
  assumes "proper_name m" "proper_name n" and "source_text m = source_text n"
  shows "m = n"
proof (cases m; cases n)
  fix p i q j
  assume "m = SBranch p i" "n = SBranch q j"
  then show ?thesis using branch_inj [of p i q j] assms by simp
next
  fix i a j b
  assume "m = SProperty i a" "n = SProperty j b"
  then show ?thesis using split_unique [of a "0x1f" i b j] assms by simp
next
  fix i a j b
  assume mn: "m = SOther i a" "n = SOther j b"
  then have "decimal (unat a) = decimal (unat b) \<and> i = j"
    using split_unique [of "decimal (unat a)" "0x1f" i "decimal (unat b)" j]
      decimal_not_in [of "0x1f"] assms by simp
  then show ?thesis using mn by (auto simp: decimal_inj dest: unsigned_word_eqI)
qed (use assms in \<open>simp_all add: prefix_bytes\<close>)



end
