(* ===== verification/Uacp.thy ===== *)
theory Uacp
  imports Codec Utf8
begin

text \<open>
  The UA Connection Protocol, \<^verbatim>\<open>src/internal/opcua/uacp.go\<close>: the eight-byte message
  header, the Hello, Acknowledge and Error bodies, the negotiation of buffer sizes, and
  the accumulator of a chunked message.
\<close>

section \<open>Status codes\<close>

definition StatusBadTcpMessageTypeInvalid :: StatusCode where "StatusBadTcpMessageTypeInvalid = 0x807E0000"
definition StatusBadTcpSecureChannelUnknown :: StatusCode where "StatusBadTcpSecureChannelUnknown = 0x807F0000"
definition StatusBadTcpMessageTooLarge :: StatusCode where "StatusBadTcpMessageTooLarge = 0x80800000"
definition StatusBadTcpNotEnoughResources :: StatusCode where "StatusBadTcpNotEnoughResources = 0x80810000"
definition StatusBadTcpInternalError :: StatusCode where "StatusBadTcpInternalError = 0x80820000"
definition StatusBadTcpEndpointURLInvalid :: StatusCode where "StatusBadTcpEndpointURLInvalid = 0x80830000"
definition StatusBadProtocolVersionUnsupport :: StatusCode where "StatusBadProtocolVersionUnsupport = 0x80BE0000"
definition StatusBadRequestTooLarge :: StatusCode where "StatusBadRequestTooLarge = 0x80B80000"

definition uacpError :: "StatusCode \<Rightarrow> go_error" where "uacpError status = CodecError status"

section \<open>Message headers\<close>

type_synonym MessageType = "byte \<times> byte \<times> byte"

definition MessageTypeHello :: MessageType where "MessageTypeHello = (72, 69, 76)"
definition MessageTypeAcknowledge :: MessageType where "MessageTypeAcknowledge = (65, 67, 75)"
definition MessageTypeError :: MessageType where "MessageTypeError = (69, 82, 82)"
definition MessageTypeReverseHello :: MessageType where "MessageTypeReverseHello = (82, 72, 69)"
definition MessageTypeSecure :: MessageType where "MessageTypeSecure = (77, 83, 71)"
definition MessageTypeOpenChannel :: MessageType where "MessageTypeOpenChannel = (79, 80, 78)"
definition MessageTypeCloseChannel :: MessageType where "MessageTypeCloseChannel = (67, 76, 79)"

lemmas message_types = MessageTypeHello_def MessageTypeAcknowledge_def MessageTypeError_def
  MessageTypeReverseHello_def MessageTypeSecure_def MessageTypeOpenChannel_def MessageTypeCloseChannel_def

definition IsConnectionProtocol :: "MessageType \<Rightarrow> bool" where
  "IsConnectionProtocol t \<longleftrightarrow> t = MessageTypeHello \<or> t = MessageTypeAcknowledge \<or>
     t = MessageTypeError \<or> t = MessageTypeReverseHello"

definition IsSecureChannel :: "MessageType \<Rightarrow> bool" where
  "IsSecureChannel t \<longleftrightarrow> t = MessageTypeSecure \<or> t = MessageTypeOpenChannel \<or> t = MessageTypeCloseChannel"

definition ChunkIntermediate :: byte where "ChunkIntermediate = 67"
definition ChunkFinal :: byte where "ChunkFinal = 70"
definition ChunkAbort :: byte where "ChunkAbort = 65"

definition HeaderSize :: int where "HeaderSize = 8"
definition ProtocolVersion :: uint32 where "ProtocolVersion = 0"
definition MinimumBufferSize :: uint32 where "MinimumBufferSize = 8192"
definition MaxEndpointURLBytes :: nat where "MaxEndpointURLBytes = 4096"
definition MaxErrorReasonBytes :: nat where "MaxErrorReasonBytes = 4096"

record MessageHeader =
  mhType :: MessageType
  mhChunk :: byte
  mhSize :: uint32

definition BodySize :: "MessageHeader \<Rightarrow> int" where
  "BodySize h = uint (mhSize h) - HeaderSize"

fun type_bytes :: "MessageType \<Rightarrow> byte list" where
  "type_bytes (a, b, c) = [a, b, c]"

text \<open>The shifts and casts at the end write the low 32 bits of \<^verbatim>\<open>total\<close>.\<close>

definition EncodeMessageHeader :: "MessageType \<Rightarrow> byte \<Rightarrow> int \<Rightarrow> uint32 \<Rightarrow> go_error + byte list" where
  "EncodeMessageHeader messageType chunk bodySize receiveBufferSize =
     (if bodySize < 0 then Inl (uacpError StatusBadTcpInternalError)
      else let total = bodySize + HeaderSize
           in if total > uint receiveBufferSize then Inl (uacpError StatusBadTcpMessageTooLarge)
              else Inr (type_bytes messageType @ [chunk] @ le_bytes 4 (of_int total :: uint32)))"

definition DecodeMessageHeader :: "byte list \<Rightarrow> uint32 \<Rightarrow> go_error + MessageHeader" where
  "DecodeMessageHeader data receiveBufferSize =
     (if int (length data) < HeaderSize then Inl (uacpError StatusBadTcpInternalError)
      else let header = \<lparr>mhType = (data ! 0, data ! 1, data ! 2), mhChunk = data ! 3,
                         mhSize = le_word (take 4 (drop 4 data))\<rparr>
           in if \<not> IsConnectionProtocol (mhType header) \<and> \<not> IsSecureChannel (mhType header)
                then Inl (uacpError StatusBadTcpMessageTypeInvalid)
              else if uint (mhSize header) < HeaderSize then Inl (uacpError StatusBadTcpMessageTypeInvalid)
              else if mhSize header > receiveBufferSize then Inl (uacpError StatusBadTcpMessageTooLarge)
              else if IsConnectionProtocol (mhType header) \<and> mhChunk header \<noteq> ChunkFinal
                then Inl (uacpError StatusBadTcpMessageTypeInvalid)
              else if IsSecureChannel (mhType header) \<and> mhChunk header \<noteq> ChunkFinal \<and>
                mhChunk header \<noteq> ChunkIntermediate \<and> mhChunk header \<noteq> ChunkAbort
                then Inl (uacpError StatusBadTcpMessageTypeInvalid)
              else Inr header)"

section \<open>Hello, Acknowledge and Error\<close>

record Hello =
  helloVersion :: uint32
  helloReceive :: uint32
  helloSend :: uint32
  helloMaxMessage :: uint32
  helloMaxChunks :: uint32
  EndpointURL :: gostring

record Acknowledge =
  ackVersion :: uint32
  ackReceive :: uint32
  ackSend :: uint32
  ackMaxMessage :: uint32
  ackMaxChunks :: uint32

record ProtocolError =
  peError :: StatusCode
  Reason :: gostring

definition run_reader :: "'a reader \<Rightarrow> byte list \<Rightarrow> BinaryLimits \<Rightarrow> go_error + 'a \<times> Decoder" where
  "run_reader r body limits = (case NewDecoder body limits of Inl er \<Rightarrow> Inl er | Inr d \<Rightarrow> r d)"

text \<open>The five numbers that Hello and Acknowledge share, in the order of the loop.\<close>

definition readFive :: "(uint32 \<times> uint32 \<times> uint32 \<times> uint32 \<times> uint32) reader" where
  "readFive = rbind ReadUInt32 (\<lambda>a. rbind ReadUInt32 (\<lambda>b. rbind ReadUInt32 (\<lambda>c.
     rbind ReadUInt32 (\<lambda>d. rbind ReadUInt32 (\<lambda>e. rreturn (a, b, c, d, e))))))"

definition readHello :: "Hello reader" where
  "readHello = rbind readFive (\<lambda>(a, b, c, d, e). rbind (orEmpty ReadString) (\<lambda>url.
     rreturn \<lparr>helloVersion = a, helloReceive = b, helloSend = c, helloMaxMessage = d,
       helloMaxChunks = e, EndpointURL = url\<rparr>))"

definition DecodeHello :: "byte list \<Rightarrow> BinaryLimits \<Rightarrow> go_error + Hello" where
  "DecodeHello body limits = (case run_reader readHello body limits of
       Inl er \<Rightarrow> Inl er
     | Inr (hello, decoder) \<Rightarrow>
         if \<not> Done decoder then Inl (uacpError StatusBadTcpMessageTypeInvalid)
         else if helloVersion hello > ProtocolVersion then Inl (uacpError StatusBadProtocolVersionUnsupport)
         else if helloReceive hello < MinimumBufferSize \<or> helloSend hello < MinimumBufferSize
           then Inl (uacpError StatusBadTcpMessageTooLarge)
         else if length (EndpointURL hello) \<ge> MaxEndpointURLBytes
           then Inl (uacpError StatusBadTcpEndpointURLInvalid)
         else Inr hello)"

definition writeHello :: "Hello \<Rightarrow> Encoder \<Rightarrow> Encoder" where
  "writeHello hello = seqw
     [WriteUInt32 (helloVersion hello), WriteUInt32 (helloReceive hello), WriteUInt32 (helloSend hello),
      WriteUInt32 (helloMaxMessage hello), WriteUInt32 (helloMaxChunks hello),
      WriteString (EndpointURL hello)]"

definition encode_with :: "(Encoder \<Rightarrow> Encoder) \<Rightarrow> BinaryLimits \<Rightarrow> go_error + byte list" where
  "encode_with w limits = (case NewEncoder limits of Inl er \<Rightarrow> Inl er | Inr e \<Rightarrow> Bytes (w e))"

definition EncodeHello :: "Hello \<Rightarrow> BinaryLimits \<Rightarrow> go_error + byte list" where
  "EncodeHello hello limits =
     (if length (EndpointURL hello) \<ge> MaxEndpointURLBytes
        then Inl (uacpError StatusBadTcpEndpointURLInvalid)
      else encode_with (writeHello hello) limits)"

definition writeAcknowledge :: "Acknowledge \<Rightarrow> Encoder \<Rightarrow> Encoder" where
  "writeAcknowledge ack = seqw
     [WriteUInt32 (ackVersion ack), WriteUInt32 (ackReceive ack), WriteUInt32 (ackSend ack),
      WriteUInt32 (ackMaxMessage ack), WriteUInt32 (ackMaxChunks ack)]"

definition EncodeAcknowledge :: "Acknowledge \<Rightarrow> BinaryLimits \<Rightarrow> go_error + byte list" where
  "EncodeAcknowledge ack limits = encode_with (writeAcknowledge ack) limits"

definition readAcknowledge :: "Acknowledge reader" where
  "readAcknowledge = rbind readFive (\<lambda>(a, b, c, d, e). rreturn
     \<lparr>ackVersion = a, ackReceive = b, ackSend = c, ackMaxMessage = d, ackMaxChunks = e\<rparr>)"

definition DecodeAcknowledge :: "byte list \<Rightarrow> BinaryLimits \<Rightarrow> go_error + Acknowledge" where
  "DecodeAcknowledge body limits = (case run_reader readAcknowledge body limits of
       Inl er \<Rightarrow> Inl er
     | Inr (ack, decoder) \<Rightarrow>
         if \<not> Done decoder then Inl (uacpError StatusBadTcpMessageTypeInvalid) else Inr ack)"

definition utf8Boundary :: "byte \<Rightarrow> bool" where
  "utf8Boundary b \<longleftrightarrow> b AND 0xC0 \<noteq> 0x80"

text \<open>The loop of \<^verbatim>\<open>truncateUTF8\<close>, on \<^verbatim>\<open>cut\<close>.\<close>

fun cutBack :: "gostring \<Rightarrow> nat \<Rightarrow> nat" where
  "cutBack v 0 = 0"
| "cutBack v (Suc c) = (if utf8Boundary (v ! Suc c) then Suc c else cutBack v c)"

definition truncateUTF8 :: "gostring \<Rightarrow> nat \<Rightarrow> gostring" where
  "truncateUTF8 v limit = (if length v \<le> limit then v else take (cutBack v limit) v)"

definition EncodeProtocolError :: "ProtocolError \<Rightarrow> BinaryLimits \<Rightarrow> go_error + byte list" where
  "EncodeProtocolError protocolError limits =
     (let reason = (if length (Reason protocolError) > MaxErrorReasonBytes
                    then truncateUTF8 (Reason protocolError) MaxErrorReasonBytes
                    else Reason protocolError)
      in encode_with (seqw [WriteUInt32 (peError protocolError), WriteString reason]) limits)"

definition readProtocolError :: "ProtocolError reader" where
  "readProtocolError = rbind ReadUInt32 (\<lambda>code. rbind (orEmpty ReadString) (\<lambda>reason.
     rreturn \<lparr>peError = code, Reason = (if length reason > MaxErrorReasonBytes then [] else reason)\<rparr>))"

definition DecodeProtocolError :: "byte list \<Rightarrow> BinaryLimits \<Rightarrow> go_error + ProtocolError" where
  "DecodeProtocolError body limits = (case run_reader readProtocolError body limits of
       Inl er \<Rightarrow> Inl er | Inr (e, _) \<Rightarrow> Inr e)"

section \<open>Negotiation\<close>

definition minUint32 :: "uint32 \<Rightarrow> uint32 \<Rightarrow> uint32" where
  "minUint32 a b = (if a < b then a else b)"

definition NegotiateAcknowledge ::
    "Hello \<Rightarrow> uint32 \<Rightarrow> uint32 \<Rightarrow> uint32 \<Rightarrow> uint32 \<Rightarrow> go_error + Acknowledge" where
  "NegotiateAcknowledge hello serverReceive serverSend serverMaxMessage serverMaxChunks =
     (if serverReceive < MinimumBufferSize \<or> serverSend < MinimumBufferSize
        then Inl (uacpError StatusBadTcpInternalError)
      else let ack = \<lparr>ackVersion = ProtocolVersion,
                      ackReceive = minUint32 serverReceive (helloSend hello),
                      ackSend = minUint32 serverSend (helloReceive hello),
                      ackMaxMessage = serverMaxMessage, ackMaxChunks = serverMaxChunks\<rparr>
           in if ackReceive ack < MinimumBufferSize \<or> ackSend ack < MinimumBufferSize
                then Inl (uacpError StatusBadTcpMessageTooLarge)
              else Inr ack)"

section \<open>Chunked messages\<close>

record ChunkAccumulator =
  maxChunks :: uint32
  maxMessage :: uint32
  tooLarge :: StatusCode
  chunks :: uint32
  abody :: "byte list"

definition NewChunkAccumulator :: "uint32 \<Rightarrow> uint32 \<Rightarrow> StatusCode \<Rightarrow> ChunkAccumulator" where
  "NewChunkAccumulator mc mm status = \<lparr>maxChunks = mc, maxMessage = mm, tooLarge = status, chunks = 0, abody = []\<rparr>"

definition chunk_append :: "byte list \<Rightarrow> ChunkAccumulator \<Rightarrow> go_error + ChunkAccumulator" where
  "chunk_append chunk a =
     (if maxChunks a \<noteq> 0 \<and> chunks a + 1 > maxChunks a then Inl (uacpError (tooLarge a))
      else if maxMessage a \<noteq> 0 \<and>
        (of_nat (length (abody a)) :: uint64) + of_nat (length chunk) > ucast (maxMessage a)
        then Inl (uacpError (tooLarge a))
      else Inr (a\<lparr>chunks := chunks a + 1, abody := abody a @ chunk\<rparr>))"

definition chunk_reset :: "ChunkAccumulator \<Rightarrow> ChunkAccumulator" where
  "chunk_reset a = a\<lparr>chunks := 0, abody := []\<rparr>"

section \<open>Laws of the header\<close>

text \<open>Message types and chunk codes that a receiver accepts together.\<close>

definition header_valid :: "MessageType \<Rightarrow> byte \<Rightarrow> bool" where
  "header_valid t chunk \<longleftrightarrow> IsConnectionProtocol t \<and> chunk = ChunkFinal \<or>
     IsSecureChannel t \<and> (chunk = ChunkFinal \<or> chunk = ChunkIntermediate \<or> chunk = ChunkAbort)"

lemma uint_of_int32: "0 \<le> x \<Longrightarrow> x < 2 ^ 32 \<Longrightarrow> uint (of_int x :: uint32) = x"
  by (simp add: uint_word_of_int)

lemma types_disjoint: "\<not> (IsConnectionProtocol t \<and> IsSecureChannel t)"
  by (auto simp: IsConnectionProtocol_def IsSecureChannel_def message_types)

lemma length_type_bytes [simp]: "length (type_bytes t) = 3"
  by (cases t rule: type_bytes.cases) simp

lemma DecodeMessageHeader_bytes:
  "DecodeMessageHeader (type_bytes t @ [c] @ le_bytes 4 sz @ rest) receiveBufferSize =
     (if \<not> IsConnectionProtocol t \<and> \<not> IsSecureChannel t then Inl (uacpError StatusBadTcpMessageTypeInvalid)
      else if uint sz < 8 then Inl (uacpError StatusBadTcpMessageTypeInvalid)
      else if sz > receiveBufferSize then Inl (uacpError StatusBadTcpMessageTooLarge)
      else if \<not> header_valid t c then Inl (uacpError StatusBadTcpMessageTypeInvalid)
      else Inr \<lparr>mhType = t, mhChunk = c, mhSize = sz\<rparr>)"
proof -
  obtain x y z where t: "t = (x, y, z)" by (cases t)
  have "take 4 (drop 4 (type_bytes t @ [c] @ le_bytes 4 sz @ rest)) = le_bytes 4 sz"
    by (simp add: t)
  then show ?thesis
    using types_disjoint [of t] unfolding DecodeMessageHeader_def header_valid_def HeaderSize_def
    by (auto simp: t Let_def)
qed

text \<open>
  A header that is encoded for a valid type and chunk code is decoded, under the
  same buffer size, to that type, code and size; what is decoded has a size between that of
  the header and that of the buffer, so the body length is never negative and never larger
  than what was negotiated.
\<close>
theorem message_header_roundtrip:
  "(case EncodeMessageHeader t c bodySize buffer of
      Inl _ \<Rightarrow> bodySize < 0 \<or> bodySize + 8 > uint buffer
    | Inr bs \<Rightarrow> DecodeMessageHeader (bs @ body) buffer =
        (if header_valid t c
         then Inr \<lparr>mhType = t, mhChunk = c, mhSize = of_int (bodySize + 8)\<rparr>
         else Inl (uacpError StatusBadTcpMessageTypeInvalid))) \<and>
   (case DecodeMessageHeader data buffer of
      Inl _ \<Rightarrow> True
    | Inr h \<Rightarrow> header_valid (mhType h) (mhChunk h) \<and> 0 \<le> BodySize h \<and> BodySize h + 8 \<le> uint buffer)"
proof
  show "case EncodeMessageHeader t c bodySize buffer of
      Inl _ \<Rightarrow> bodySize < 0 \<or> bodySize + 8 > uint buffer
    | Inr bs \<Rightarrow> DecodeMessageHeader (bs @ body) buffer =
        (if header_valid t c
         then Inr \<lparr>mhType = t, mhChunk = c, mhSize = of_int (bodySize + 8)\<rparr>
         else Inl (uacpError StatusBadTcpMessageTypeInvalid))"
  proof (cases "bodySize < 0 \<or> bodySize + 8 > uint buffer")
    case True
    then show ?thesis by (auto simp: EncodeMessageHeader_def HeaderSize_def Let_def)
  next
    case False
    then have b: "0 \<le> bodySize + 8" "bodySize + 8 \<le> uint buffer" "8 \<le> bodySize + 8" by auto
    have "bodySize + 8 < 2 ^ 32" using b(2) uint_lt2p [of buffer] by simp
    then have u: "uint (of_int (bodySize + 8) :: uint32) = bodySize + 8"
      using b(1) by (rule uint_of_int32 [rotated])
    then have "\<not> of_int (bodySize + 8) > buffer" using b(2) by (simp add: word_less_def)
    moreover have "EncodeMessageHeader t c bodySize buffer =
        Inr (type_bytes t @ [c] @ le_bytes 4 (of_int (bodySize + 8) :: uint32))"
      using False by (simp add: EncodeMessageHeader_def HeaderSize_def Let_def)
    ultimately show ?thesis
      using u b(3) DecodeMessageHeader_bytes [of t c "of_int (bodySize + 8)" body buffer]
      by (auto simp: header_valid_def)
  qed
  show "case DecodeMessageHeader data buffer of
      Inl _ \<Rightarrow> True
    | Inr h \<Rightarrow> header_valid (mhType h) (mhChunk h) \<and> 0 \<le> BodySize h \<and> BodySize h + 8 \<le> uint buffer"
    by (auto simp: DecodeMessageHeader_def header_valid_def BodySize_def HeaderSize_def Let_def
        word_less_def not_less split: sum.splits if_splits)
qed

section \<open>Laws of the bodies\<close>

definition five_wire :: "uint32 \<Rightarrow> uint32 \<Rightarrow> uint32 \<Rightarrow> uint32 \<Rightarrow> uint32 \<Rightarrow> byte list" where
  "five_wire a b c d e = le_bytes 4 a @ le_bytes 4 b @ le_bytes 4 c @ le_bytes 4 d @ le_bytes 4 e"

lemma parses_readFive: "parses L readFive (five_wire a b c d e) (a, b, c, d, e)"
  unfolding readFive_def five_wire_def
  by (intro parses_rbind [OF parses_le32] parses_rbind_return [OF parses_le32] refl)

lemma within_readFive [within_intros]: "within readFive"
  unfolding readFive_def by (intro within_intros)

definition hello_wire :: "Hello \<Rightarrow> byte list" where
  "hello_wire h = five_wire (helloVersion h) (helloReceive h) (helloSend h) (helloMaxMessage h)
     (helloMaxChunks h) @ lenbytes_wire (EndpointURL h)"

interpretation hello_codec:
  ua_codec writeHello readHello hello_wire "\<lambda>L h. string_ok L (EndpointURL h)" id
proof unfold_locales
  fix L h
  show "emits L (writeHello h) (string_ok L (EndpointURL h)) (hello_wire h)"
    unfolding writeHello_def hello_wire_def five_wire_def
    by (rule emits_cong, (rule emits_intros)+) simp_all
  assume "validate_limits L = None" "string_ok L (EndpointURL h)"
  then show "parses L readHello (hello_wire h) (id h)"
    unfolding readHello_def hello_wire_def
    by (cases h) (auto intro!: parses_rbind [OF parses_readFive] parses_rbind_return primitive_parses)
qed (unfold readHello_def, intro within_intros)

definition ack_wire :: "Acknowledge \<Rightarrow> byte list" where
  "ack_wire a = five_wire (ackVersion a) (ackReceive a) (ackSend a) (ackMaxMessage a) (ackMaxChunks a)"

interpretation ack_codec: ua_codec writeAcknowledge readAcknowledge ack_wire always_ok id
proof unfold_locales
  fix L a
  show "emits L (writeAcknowledge a) True (ack_wire a)"
    unfolding writeAcknowledge_def ack_wire_def five_wire_def
    by (rule emits_cong, (rule emits_intros)+) simp_all
  show "parses L readAcknowledge (ack_wire a) (id a)"
    unfolding readAcknowledge_def ack_wire_def
    by (rule parses_rbind_return [OF parses_readFive]) (cases a, simp)
qed (unfold readAcknowledge_def, intro within_intros)

text \<open>A fresh encoder and a decoder of what it wrote, over a codec.\<close>

context ua_codec
begin

lemma encode_with_ok:
  assumes "encode_with (wr v) L = Inr bs"
  shows "\<exists>d. run_reader rd bs L = Inr (norm v, d) \<and> Done d" "ok L v" "bs = wire v"
proof -
  obtain e where e: "NewEncoder L = Inr e" "Bytes (wr v e) = Inr bs"
    using assms by (auto simp: encode_with_def split: sum.splits)
  obtain d d' where "NewDecoder bs L = Inr d" "rd d = Inr (norm v, d')" "Done d'"
    using roundtrip [OF e] by auto
  then show "\<exists>d. run_reader rd bs L = Inr (norm v, d) \<and> Done d" by (auto simp: run_reader_def)
  show "ok L v" "bs = wire v" using general.fresh_success [OF e(1)] e(2) by auto
qed

end

text \<open>
  An encoded Hello is decoded to itself exactly when it asks for the protocol
  version the server has and its buffers reach the minimum; otherwise it is refused with
  the status for the reason. The server's answer to a Hello it accepted always succeeds,
  keeps each direction within what both sides can hold, and never goes below the minimum.
\<close>
theorem hello_negotiation:
  assumes "EncodeHello h L = Inr bs" and "MinimumBufferSize \<le> receive" and "MinimumBufferSize \<le> send"
  shows "DecodeHello bs L =
      (if helloVersion h > ProtocolVersion then Inl (uacpError StatusBadProtocolVersionUnsupport)
       else if helloReceive h < MinimumBufferSize \<or> helloSend h < MinimumBufferSize
         then Inl (uacpError StatusBadTcpMessageTooLarge)
       else Inr h) \<and>
    (DecodeHello bs L = Inr h \<longrightarrow>
      (\<exists>ack. NegotiateAcknowledge h receive send mm mc = Inr ack \<and>
        MinimumBufferSize \<le> ackReceive ack \<and> ackReceive ack \<le> receive \<and> ackReceive ack \<le> helloSend h \<and>
        MinimumBufferSize \<le> ackSend ack \<and> ackSend ack \<le> send \<and> ackSend ack \<le> helloReceive h \<and>
        ackMaxMessage ack = mm \<and> ackMaxChunks ack = mc))"
proof -
  have e: "encode_with (writeHello h) L = Inr bs" and url: "length (EndpointURL h) < MaxEndpointURLBytes"
    using assms(1) by (auto simp: EncodeHello_def split: if_splits)
  obtain d where "run_reader readHello bs L = Inr (h, d)" "Done d"
    using hello_codec.encode_with_ok(1) [OF e] by auto
  then have D: "DecodeHello bs L =
      (if helloVersion h > ProtocolVersion then Inl (uacpError StatusBadProtocolVersionUnsupport)
       else if helloReceive h < MinimumBufferSize \<or> helloSend h < MinimumBufferSize
         then Inl (uacpError StatusBadTcpMessageTooLarge)
       else Inr h)"
    using url by (simp add: DecodeHello_def)
  show ?thesis
  proof (rule conjI [OF D], rule impI)
    assume "DecodeHello bs L = Inr h"
    then have "MinimumBufferSize \<le> helloReceive h" "MinimumBufferSize \<le> helloSend h"
      unfolding D by (auto split: if_splits)
    then show "\<exists>ack. NegotiateAcknowledge h receive send mm mc = Inr ack \<and>
        MinimumBufferSize \<le> ackReceive ack \<and> ackReceive ack \<le> receive \<and> ackReceive ack \<le> helloSend h \<and>
        MinimumBufferSize \<le> ackSend ack \<and> ackSend ack \<le> send \<and> ackSend ack \<le> helloReceive h \<and>
        ackMaxMessage ack = mm \<and> ackMaxChunks ack = mc"
      using assms(2,3) by (auto simp: NegotiateAcknowledge_def minUint32_def Let_def)
  qed
qed

definition hello_sample :: Hello where
  "hello_sample = \<lparr>helloVersion = 0, helloReceive = 65536, helloSend = 8192, helloMaxMessage = 0,
     helloMaxChunks = 0, EndpointURL = [97]\<rparr>"

theorem hello_negotiation_witness:
  "\<exists>ack. DecodeHello (hello_wire hello_sample) DefaultBinaryLimits = Inr hello_sample \<and>
     NegotiateAcknowledge hello_sample 65535 65535 100 200 = Inr ack \<and> ackReceive ack \<le> 8192 \<and> ackMaxChunks ack = 200"
proof -
  have e: "EncodeHello hello_sample DefaultBinaryLimits = Inr (hello_wire hello_sample)" by code_simp
  have m: "MinimumBufferSize \<le> 65535" by (simp add: MinimumBufferSize_def)
  have "helloSend hello_sample = 8192" "helloReceive hello_sample = 65536" "helloVersion hello_sample = 0"
    by (simp_all add: hello_sample_def)
  with hello_negotiation [OF e m m, of 100 200] show ?thesis
    by (auto simp: MinimumBufferSize_def ProtocolVersion_def)
qed

section \<open>Truncation on a rune boundary\<close>

lemma byte_cases: "list_all P (map of_nat [0..<256]) \<Longrightarrow> P (b :: byte)"
proof -
  assume a: "list_all P (map of_nat [0..<256])"
  have "unat b < 2 ^ LENGTH(8)" by (rule unsigned_less)
  then have "unat b \<in> set [0..<256]" by simp
  moreover have "\<forall>n \<in> set [0..<256]. P (of_nat n)" using a by (simp only: list_all_iff set_map ball_simps)
  ultimately have "P (of_nat (unat b))" by blast
  then show "P b" by simp
qed

lemma utf8Boundary_iff: "utf8Boundary b \<longleftrightarrow> \<not> continuation b"
  by (rule byte_cases [where P = "\<lambda>b. utf8Boundary b \<longleftrightarrow> \<not> continuation b"]) code_simp

lemma encode_tail:
  assumes "0 < k" and "k < length (utf8_encode_rune c)"
  shows "continuation (utf8_encode_rune c ! k)"
proof -
  have m: "continuation (of_nat (0x80 + d mod 64))" for d
    using mod64_le [of d] by (simp add: continuation_def unat_byte del: of_nat_add)
  have "k = 1 \<or> k = 2 \<or> k = 3" using assms by (auto simp: utf8_encode_rune_def split: if_splits)
  then show ?thesis
    using assms m [of c] m [of "c div 64"] m [of "c div 4096"]
    by (auto simp: utf8_encode_rune_def simp del: of_nat_add split: if_splits)
qed

lemma encode_head: "scalar_value c \<Longrightarrow> \<not> continuation (utf8_encode_rune c ! 0)"
proof -
  assume "scalar_value c"
  then have "c \<le> 1114111" by (auto simp: scalar_value_def)
  then have "c div 262144 \<le> 4" using div_le_mono [of c 1114111 262144] by simp
  then show ?thesis
    using div_le_mono [of c 2047 64] div_le_mono [of c 65535 4096]
    by (auto simp: utf8_encode_rune_def continuation_def unat_byte simp del: of_nat_add)
qed

lemma utf8_encode_Cons: "utf8_encode (c # cs) = utf8_encode_rune c @ utf8_encode cs"
  by (simp add: utf8_encode_def)

lemma boundary_prefix:
  assumes "list_all scalar_value cs" and "k < length (utf8_encode cs)"
    and "\<not> continuation (utf8_encode cs ! k)"
  shows "\<exists>j. take k (utf8_encode cs) = utf8_encode (take j cs)"
  using assms
proof (induction cs arbitrary: k)
  case Nil
  then show ?case by (simp add: utf8_encode_def)
next
  case (Cons c cs)
  let ?n = "length (utf8_encode_rune c)"
  consider "k = 0" | "0 < k" "k < ?n" | "?n \<le> k" by linarith
  then show ?case
  proof cases
    case 1
    then show ?thesis by (intro exI [of _ 0]) (simp add: utf8_encode_def)
  next
    case 2
    then show ?thesis using Cons.prems(3) encode_tail [OF 2] by (simp add: utf8_encode_Cons nth_append)
  next
    case 3
    then have "k - ?n < length (utf8_encode cs)"
      using Cons.prems(2) by (simp add: utf8_encode_Cons less_diff_conv2)
    with 3 obtain j where "take (k - ?n) (utf8_encode cs) = utf8_encode (take j cs)"
      using Cons.IH [of "k - ?n"] Cons.prems by (auto simp: utf8_encode_Cons nth_append)
    with 3 show ?thesis by (intro exI [of _ "Suc j"]) (simp add: utf8_encode_Cons)
  qed
qed

lemma encode_prefix:
  "list_all scalar_value cs \<Longrightarrow> list_all scalar_value ds \<Longrightarrow> utf8_encode cs = utf8_encode ds @ rest \<Longrightarrow>
   \<exists>es. cs = ds @ es \<and> rest = utf8_encode es"
proof (induction ds arbitrary: cs)
  case Nil
  then show ?case by (auto simp: utf8_encode_def)
next
  case (Cons d ds)
  then obtain c cs' where cs: "cs = c # cs'"
    by (cases cs) (auto simp: utf8_encode_def encode_ne)
  have eq: "utf8_encode_rune c @ utf8_encode cs' = utf8_encode_rune d @ utf8_encode ds @ rest"
    using Cons.prems(3) by (simp add: cs utf8_encode_Cons)
  have "c = d"
    using decodeRune_encode [of c "utf8_encode cs'"] decodeRune_encode [of d "utf8_encode ds @ rest"] Cons.prems eq
    by (simp add: cs)
  with eq Cons show ?case by (auto simp: cs)
qed

lemma cutBack_le: "cutBack v k \<le> k"
  by (induction k) auto

lemma cutBack_boundary: "cutBack v k = 0 \<or> utf8Boundary (v ! cutBack v k)"
  by (induction k) auto

lemma cutBack_greatest: "cutBack v k < j \<Longrightarrow> j \<le> k \<Longrightarrow> \<not> utf8Boundary (v ! j)"
  by (induction k) (auto split: if_splits simp: le_Suc_eq)

lemma valid_prefix_boundary:
  assumes "ValidString v" and "ValidString (take j v)" and "j < length v"
  shows "utf8Boundary (v ! j)"
proof -
  let ?cs = "runes v" and ?ds = "runes (take j v)"
  have cs: "list_all scalar_value ?cs" "v = utf8_encode ?cs" using ValidString_encode [OF assms(1)] by auto
  have ds: "list_all scalar_value ?ds" "take j v = utf8_encode ?ds" using ValidString_encode [OF assms(2)] by auto
  have "utf8_encode ?cs = utf8_encode ?ds @ drop j v"
    using cs(2) ds(2) by (metis append_take_drop_id)
  from encode_prefix [OF cs(1) ds(1) this] obtain es where es: "?cs = ?ds @ es" "drop j v = utf8_encode es" by blast
  have "drop j v \<noteq> []" using assms(3) by simp
  then obtain c es' where c: "es = c # es'" using es(2) by (cases es) (auto simp: utf8_encode_def)
  have "v ! j = hd (drop j v)" using assms(3) by (simp add: hd_drop_conv_nth)
  also have "\<dots> = utf8_encode_rune c ! 0"
    unfolding es(2) c utf8_encode_Cons by (simp add: hd_append encode_ne hd_conv_nth)
  finally show ?thesis using encode_head [of c] es(1) cs(1) c by (simp add: utf8Boundary_iff)
qed

text \<open>
  Cutting a valid string to a byte limit yields the longest prefix within the
  limit that is valid UTF-8.
\<close>
theorem truncateUTF8_longest:
  assumes "ValidString v"
  shows "ValidString (truncateUTF8 v limit) \<and> length (truncateUTF8 v limit) \<le> limit \<and>
    truncateUTF8 v limit = take (length (truncateUTF8 v limit)) v \<and>
    (\<forall>j. j \<le> limit \<and> j \<le> length v \<and> ValidString (take j v) \<longrightarrow> j \<le> length (truncateUTF8 v limit))"
proof (cases "length v \<le> limit")
  case True
  then show ?thesis using assms by (simp add: truncateUTF8_def)
next
  case False
  let ?k = "cutBack v limit"
  have k: "?k \<le> limit" "?k < length v" using cutBack_le [of v limit] False by auto
  have t: "truncateUTF8 v limit = take ?k v" "length (take ?k v) = ?k"
    using False k by (simp_all add: truncateUTF8_def)
  have "ValidString (take ?k v)"
  proof (cases "?k = 0")
    case True
    then show ?thesis by (simp add: ValidString_code)
  next
    case False
    then have "\<not> continuation (v ! ?k)" using cutBack_boundary [of v limit] by (simp add: utf8Boundary_iff)
    then obtain j where "take ?k v = utf8_encode (take j (runes v))"
      using boundary_prefix [of "runes v" ?k] ValidString_encode [OF assms] k(2) by auto
    moreover have "list_all scalar_value (take j (runes v))"
      using ValidString_encode [OF assms] by (meson in_set_takeD list_all_iff)
    ultimately show ?thesis using runes_encode by metis
  qed
  moreover have "j \<le> ?k" if "j \<le> limit" "j \<le> length v" "ValidString (take j v)" for j
  proof (rule ccontr)
    assume "\<not> j \<le> ?k"
    then have "\<not> utf8Boundary (v ! j)" using cutBack_greatest [of v limit j] that(1) by simp
    then show False using valid_prefix_boundary [OF assms that(3)] that(1) False by simp
  qed
  ultimately show ?thesis unfolding t using k(1) t(2) by auto
qed

theorem truncateUTF8_longest_witness:
  "ValidString (truncateUTF8 [97, 0xC3, 0xA9] 2) \<and> length (truncateUTF8 [97, 0xC3, 0xA9] 2) \<le> 2"
proof -
  have "ValidString [97, 0xC3, 0xA9]"
    by (simp add: ValidString_code decodeRune.simps(2) continuation_def)
  then show ?thesis using truncateUTF8_longest by blast
qed

section \<open>Laws of the accumulator\<close>

fun appends :: "byte list list \<Rightarrow> ChunkAccumulator \<Rightarrow> go_error + ChunkAccumulator" where
  "appends [] a = Inr a"
| "appends (c # cs) a = (case chunk_append c a of Inl er \<Rightarrow> Inl er | Inr a' \<Rightarrow> appends cs a')"

lemma appends_snoc:
  "appends (cs @ [c]) a = (case appends cs a of Inl er \<Rightarrow> Inl er | Inr a' \<Rightarrow> chunk_append c a')"
  by (induction cs arbitrary: a) (auto split: sum.splits)

lemma chunk_append_counts:
  assumes "unat (chunks a) + 1 < 2 ^ 32" and "length (abody a) + length c < 2 ^ 64"
  shows "chunk_append c a =
    (if maxChunks a \<noteq> 0 \<and> unat (chunks a) + 1 > unat (maxChunks a) \<or>
        maxMessage a \<noteq> 0 \<and> length (abody a) + length c > unat (maxMessage a)
     then Inl (uacpError (tooLarge a))
     else Inr (a\<lparr>chunks := chunks a + 1, abody := abody a @ c\<rparr>))"
proof -
  have n: "unat (chunks a + 1) = unat (chunks a) + 1"
    using assms(1) unat_add_lem [of "chunks a" 1] by simp
  have w: "unat (ucast (maxMessage a) :: uint64) = unat (maxMessage a)"
  proof -
    have "unat (maxMessage a) < 2 ^ LENGTH(32)" by (rule unsigned_less)
    then show ?thesis by (simp add: unsigned_ucast_eq take_bit_nat_eq_self)
  qed
  have l: "unat (of_nat (length (abody a)) + of_nat (length c) :: uint64) = length (abody a) + length c"
    using assms(2) unfolding of_nat_add [symmetric] by (simp only: unat_of_nat) simp
  show ?thesis
    by (auto simp: chunk_append_def word_less_nat_alt n w l)
qed

text \<open>
  The accumulator takes a chunked message exactly when its number of chunks and
  its total size are within the negotiated bounds (zero meaning none), refuses it with the
  configured status otherwise, and then holds the chunks' concatenation and their count.
  The sizes are those of any message the process can hold.
\<close>
theorem accumulator_exact:
  assumes "length cs < 2 ^ 32" and "length (concat cs) < 2 ^ 64"
  shows "appends cs (NewChunkAccumulator mc mm st) =
    (if mc \<noteq> 0 \<and> length cs > unat mc \<or> mm \<noteq> 0 \<and> length (concat cs) > unat mm
     then Inl (uacpError st)
     else Inr \<lparr>maxChunks = mc, maxMessage = mm, tooLarge = st,
               chunks = of_nat (length cs), abody = concat cs\<rparr>)"
  using assms
proof (induction cs rule: rev_induct)
  case Nil
  show ?case by (simp add: NewChunkAccumulator_def)
next
  case (snoc c cs)
  let ?a = "\<lparr>maxChunks = mc, maxMessage = mm, tooLarge = st, chunks = of_nat (length cs), abody = concat cs\<rparr>"
  have u: "unat (of_nat (length cs) :: uint32) = length cs"
    using snoc.prems(1) by (simp only: unat_of_nat) simp
  have "chunk_append c ?a =
    (if mc \<noteq> 0 \<and> length cs + 1 > unat mc \<or> mm \<noteq> 0 \<and> length (concat cs) + length c > unat mm
     then Inl (uacpError st)
     else Inr (?a\<lparr>chunks := of_nat (length cs) + 1, abody := concat cs @ c\<rparr>))"
    by (subst chunk_append_counts) (use snoc.prems u in auto)
  with snoc show ?case by (auto simp: appends_snoc add.commute)
qed

theorem accumulator_exact_witness:
  "appends [[1, 2], [3]] (NewChunkAccumulator 2 3 StatusBadRequestTooLarge) =
     Inr \<lparr>maxChunks = 2, maxMessage = 3, tooLarge = StatusBadRequestTooLarge, chunks = 2, abody = [1, 2, 3]\<rparr>"
  using accumulator_exact [of "[[1, 2], [3]]" 2 3 StatusBadRequestTooLarge] by simp

end
