(* ===== verification/Uasc.thy ===== *)
theory Uasc
  imports Uacp
begin

text \<open>
  UA Secure Conversation framing, \<^verbatim>\<open>src/internal/opcua/uasc.go\<close>: the twelve-byte chunk
  header, the asymmetric security header, the sequence header, and the numbering of
  chunks by a sender and its check by a receiver.
\<close>

definition StatusBadSecurityChecksFailed :: StatusCode where "StatusBadSecurityChecksFailed = 0x80130000"
definition StatusBadSecurityModeRejected :: StatusCode where "StatusBadSecurityModeRejected = 0x80540000"

definition SecureConversationHeaderSize :: int where "SecureConversationHeaderSize = 12"
definition SequenceHeaderSize :: int where "SequenceHeaderSize = 8"
definition MaxSecurityPolicyURIBytes :: int where "MaxSecurityPolicyURIBytes = 255"
definition CertificateThumbprintBytes :: int where "CertificateThumbprintBytes = 20"

section \<open>Chunk headers\<close>

record SecureConversationHeader =
  scType :: MessageType
  scChunk :: byte
  scSize :: uint32
  scChannelID :: uint32

definition EncodeSecureConversationHeader ::
    "SecureConversationHeader \<Rightarrow> int \<Rightarrow> uint32 \<Rightarrow> go_error + byte list" where
  "EncodeSecureConversationHeader header bodySize sendBufferSize =
     (if \<not> IsSecureChannel (scType header) then Inl (uacpError StatusBadTcpMessageTypeInvalid)
      else if scChunk header \<noteq> ChunkFinal \<and> scChunk header \<noteq> ChunkIntermediate \<and>
        scChunk header \<noteq> ChunkAbort then Inl (uacpError StatusBadTcpMessageTypeInvalid)
      else if scType header \<noteq> MessageTypeSecure \<and> scChunk header \<noteq> ChunkFinal
        then Inl (uacpError StatusBadTcpMessageTypeInvalid)
      else if bodySize < 0 then Inl (uacpError StatusBadTcpInternalError)
      else let total = bodySize + SecureConversationHeaderSize
           in if total > uint sendBufferSize then Inl (uacpError StatusBadTcpMessageTooLarge)
              else Inr (type_bytes (scType header) @ [scChunk header] @
                le_bytes 4 (of_int total :: uint32) @ le_bytes 4 (scChannelID header)))"

definition DecodeSecureConversationHeader ::
    "byte list \<Rightarrow> uint32 \<Rightarrow> go_error + SecureConversationHeader" where
  "DecodeSecureConversationHeader data receiveBufferSize =
     (case DecodeMessageHeader data receiveBufferSize of
        Inl er \<Rightarrow> Inl er
      | Inr base \<Rightarrow>
          if \<not> IsSecureChannel (mhType base) then Inl (uacpError StatusBadTcpMessageTypeInvalid)
          else if uint (mhSize base) < SecureConversationHeaderSize
            then Inl (uacpError StatusBadTcpMessageTypeInvalid)
          else if int (length data) < SecureConversationHeaderSize
            then Inl (uacpError StatusBadTcpInternalError)
          else Inr \<lparr>scType = mhType base, scChunk = mhChunk base, scSize = mhSize base,
                    scChannelID = le_word (take 4 (drop 8 data))\<rparr>)"

section \<open>Security and sequence headers\<close>

record AsymmetricSecurityHeader =
  SecurityPolicyURI :: gostring
  SenderCertificate :: "byte list"
  ReceiverCertificateThumbprint :: "byte list"

record SequenceHeader =
  SequenceNumber :: uint32
  RequestID :: uint32

definition securityHeaderLength :: "int \<Rightarrow> int reader" where
  "securityHeaderLength bound = rbind ReadInt32 (\<lambda>raw decoder.
     if raw = 0 \<or> raw = nullLength then rreturn 0 decoder
     else if sint raw < 0 then rfail (uacpError StatusBadSecurityChecksFailed) decoder
     else if sint raw > bound then rfail (uacpError StatusBadSecurityChecksFailed) decoder
     else if sint raw > Remaining decoder then rfail (uacpError StatusBadSecurityChecksFailed) decoder
     else rreturn (sint raw) decoder)"

definition readAsymmetricSecurityHeader :: "int \<Rightarrow> AsymmetricSecurityHeader reader" where
  "readAsymmetricSecurityHeader maxSenderCertificateBytes =
     rbind (securityHeaderLength MaxSecurityPolicyURIBytes) (\<lambda>uriLength.
     rbind (if uriLength > 0 then dtake uriLength else rreturn []) (\<lambda>uri.
     rbind (securityHeaderLength maxSenderCertificateBytes) (\<lambda>certificateLength.
     rbind (if certificateLength > 0 then dtake certificateLength else rreturn []) (\<lambda>certificate.
     rbind (securityHeaderLength CertificateThumbprintBytes) (\<lambda>thumbprintLength.
     rbind (if thumbprintLength > 0 then
              (if thumbprintLength \<noteq> CertificateThumbprintBytes
               then rfail (uacpError StatusBadSecurityChecksFailed) else dtake thumbprintLength)
            else rreturn []) (\<lambda>thumbprint.
     rreturn \<lparr>SecurityPolicyURI = uri, SenderCertificate = certificate,
              ReceiverCertificateThumbprint = thumbprint\<rparr>))))))"

definition DecodeAsymmetricSecurityHeader ::
    "byte list \<Rightarrow> int \<Rightarrow> BinaryLimits \<Rightarrow> go_error + AsymmetricSecurityHeader \<times> int" where
  "DecodeAsymmetricSecurityHeader body maxSenderCertificateBytes limits =
     (case run_reader (readAsymmetricSecurityHeader maxSenderCertificateBytes) body limits of
        Inl er \<Rightarrow> Inl er
      | Inr (header, decoder) \<Rightarrow> Inr (header, int (length body) - Remaining decoder))"

definition writeOptional :: "byte list \<Rightarrow> Encoder \<Rightarrow> Encoder" where
  "writeOptional v = (if v = [] then WriteInt32 nullLength
     else seqw [WriteInt32 (of_nat (length v)), ewrite v])"

definition EncodeAsymmetricSecurityHeader ::
    "AsymmetricSecurityHeader \<Rightarrow> int \<Rightarrow> BinaryLimits \<Rightarrow> go_error + byte list" where
  "EncodeAsymmetricSecurityHeader header maxSenderCertificateBytes limits =
     (if int (length (SecurityPolicyURI header)) > MaxSecurityPolicyURIBytes
        then Inl (uacpError StatusBadSecurityChecksFailed)
      else if int (length (SenderCertificate header)) > maxSenderCertificateBytes
        then Inl (uacpError StatusBadSecurityChecksFailed)
      else if length (ReceiverCertificateThumbprint header) \<noteq> 0 \<and>
        int (length (ReceiverCertificateThumbprint header)) \<noteq> CertificateThumbprintBytes
        then Inl (uacpError StatusBadSecurityChecksFailed)
      else encode_with (seqw [writeOptional (SecurityPolicyURI header),
             writeOptional (SenderCertificate header),
             writeOptional (ReceiverCertificateThumbprint header)]) limits)"

definition MaxSenderCertificateSize :: "int \<Rightarrow> int \<Rightarrow> int \<Rightarrow> int \<Rightarrow> int" where
  "MaxSenderCertificateSize chunkSize securityPolicyURIBytes paddingBytes signatureBytes =
     (let fixedOverhead = SecureConversationHeaderSize + 4 + 4 + 4 + CertificateThumbprintBytes +
            SequenceHeaderSize + 1;
          available = chunkSize - fixedOverhead - securityPolicyURIBytes - paddingBytes - signatureBytes;
          available' = (if paddingBytes > 0 then available - 1 else available)
      in if available' < 0 then 0 else available')"

definition writeSequenceHeader :: "SequenceHeader \<Rightarrow> Encoder \<Rightarrow> Encoder" where
  "writeSequenceHeader h = seqw [WriteUInt32 (SequenceNumber h), WriteUInt32 (RequestID h)]"

definition EncodeSequenceHeader :: "SequenceHeader \<Rightarrow> BinaryLimits \<Rightarrow> go_error + byte list" where
  "EncodeSequenceHeader h limits = encode_with (writeSequenceHeader h) limits"

definition readSequenceHeader :: "SequenceHeader reader" where
  "readSequenceHeader = rbind ReadUInt32 (\<lambda>number. rbind ReadUInt32 (\<lambda>requestID.
     rreturn \<lparr>SequenceNumber = number, RequestID = requestID\<rparr>))"

definition DecodeSequenceHeader :: "byte list \<Rightarrow> BinaryLimits \<Rightarrow> go_error + SequenceHeader" where
  "DecodeSequenceHeader body limits = (case run_reader readSequenceHeader body limits of
       Inl er \<Rightarrow> Inl er | Inr (h, _) \<Rightarrow> Inr h)"

section \<open>Sequence numbers\<close>

datatype SequenceNumbering = SequenceNumberingLegacy | SequenceNumberingZeroBased

definition legacySequenceWrapFloor :: uint32 where "legacySequenceWrapFloor = 4294966271"

record SequenceValidator =
  numbering :: SequenceNumbering
  started :: bool
  last_number :: uint32

definition NewSequenceValidator :: "SequenceNumbering \<Rightarrow> SequenceValidator" where
  "NewSequenceValidator n = \<lparr>numbering = n, started = False, last_number = 0\<rparr>"

definition isValidWrap :: "SequenceValidator \<Rightarrow> uint32 \<Rightarrow> bool" where
  "isValidWrap v number = (case numbering v of
       SequenceNumberingZeroBased \<Rightarrow> last_number v = - 1 \<and> number = 0
     | SequenceNumberingLegacy \<Rightarrow> last_number v > legacySequenceWrapFloor \<and> number < 1024)"

definition sequence_accept :: "uint32 \<Rightarrow> SequenceValidator \<Rightarrow> go_error + SequenceValidator" where
  "sequence_accept number v =
     (if \<not> started v then
        (if numbering v = SequenceNumberingZeroBased \<and> number \<noteq> 0
         then Inl (uacpError StatusBadSecurityChecksFailed)
         else Inr (v\<lparr>started := True, last_number := number\<rparr>))
      else if number = last_number v + 1 \<and> number \<noteq> 0 then Inr (v\<lparr>last_number := number\<rparr>)
      else if isValidWrap v number then Inr (v\<lparr>last_number := number\<rparr>)
      else Inl (uacpError StatusBadSecurityChecksFailed))"

definition sequence_next :: "SequenceValidator \<Rightarrow> uint32 \<times> SequenceValidator" where
  "sequence_next v =
     (let n = (if \<not> started v then
                 (if numbering v = SequenceNumberingZeroBased then 0 else 1)
               else (case numbering v of
                 SequenceNumberingZeroBased \<Rightarrow>
                   if last_number v = - 1 then 0 else last_number v + 1
               | SequenceNumberingLegacy \<Rightarrow>
                   if last_number v > legacySequenceWrapFloor then 0 else last_number v + 1))
      in (n, v\<lparr>started := True, last_number := n\<rparr>))"

section \<open>Security modes\<close>

type_synonym SecurityMode = uint32

definition SecurityModeInvalid :: SecurityMode where "SecurityModeInvalid = 0"
definition SecurityModeNone :: SecurityMode where "SecurityModeNone = 1"
definition SecurityModeSign :: SecurityMode where "SecurityModeSign = 2"
definition SecurityModeSignAndEncrypt :: SecurityMode where "SecurityModeSignAndEncrypt = 3"

definition RequireSupportedSecurityMode :: "SecurityMode \<Rightarrow> go_error option" where
  "RequireSupportedSecurityMode mode =
     (if mode = SecurityModeNone then None else Some (uacpError StatusBadSecurityModeRejected))"

section \<open>Laws\<close>

lemma within_uacp [within_intros]: "within (rfail (uacpError c))"
  by (simp add: uacpError_def within_intros)

text \<open>A length field and the bytes it announces.\<close>

lemma emits_writeOptional [emits_intros]: "emits L (writeOptional v) True (optional_wire v)"
  unfolding writeOptional_def optional_wire_def lenbytes_wire_def
  by (rule emits_cong, (rule emits_intros)+) simp_all

lemma parses_securityHeaderLength_null:
  assumes "parses L (f 0) bs w"
  shows "parses L (rbind (securityHeaderLength bound) f) (le_bytes 4 nullLength @ bs) w"
proof -
  have "parses L (securityHeaderLength bound) (le_bytes 4 nullLength) 0"
    unfolding securityHeaderLength_def ReadInt32_def
    by (rule parses_rbind_return [OF parses_le32]) (simp add: fun_eq_iff)
  then show ?thesis using assms by (rule parses_rbind)
qed

lemma parses_securityHeaderLength:
  assumes v: "v \<noteq> []" "int (length v) \<le> bound" "int (length v) \<le> MaxInt32"
    and f: "parses L (f (int (length v))) (v @ bs) w"
  shows "parses L (rbind (securityHeaderLength bound) f) (lenbytes_wire v @ bs) w"
  unfolding parses_def
proof (intro allI impI)
  let ?l = "of_nat (length v) :: int32"
  fix d rest assume d: "dec_wf d" "dlimits d = L" "pending d = (lenbytes_wire v @ bs) @ rest"
  then have p: "pending d = le_bytes 4 ?l @ v @ bs @ rest" by (simp add: lenbytes_wire_def)
  let ?d = "advance 4 d"
  have r: "ReadInt32 d = Inr (?l, ?d)"
    using parsesD [OF parses_le32 d(1,2) p] by (simp add: ReadInt32_def)
  have wf: "dec_wf ?d" and pd: "pending ?d = v @ bs @ rest"
    using dec_wf_advance [OF d(1) p] pending_advance [OF p] by simp_all
  have s: "sint ?l = int (length v)" "?l \<noteq> nullLength"
    using v(3) by (simp_all add: sint_of_nat32 of_nat32_not_null)
  then have "?l \<noteq> 0" using v(1) by auto
  then have "securityHeaderLength bound d = Inr (int (length v), ?d)"
    using v(2) s wf pd by (simp add: securityHeaderLength_def rbind_def r rreturn_def Remaining_pending)
  moreover have "f (int (length v)) ?d = Inr (w, advance (length (v @ bs)) ?d)"
    by (rule parsesD [OF f wf]) (simp_all add: d pd)
  ultimately show "rbind (securityHeaderLength bound) f d = Inr (w, advance (length (lenbytes_wire v @ bs)) d)"
    by (simp add: rbind_def lenbytes_wire_def add.assoc)
qed

lemma parses_optional_field:
  assumes v: "int (length v) \<le> bound" "int (length v) \<le> MaxInt32" and g: "parses L (g v) bs w"
    and take: "\<And>n. n = int (length v) \<Longrightarrow> v \<noteq> [] \<Longrightarrow> r n = dtake n" and none: "r 0 = rreturn []"
  shows "parses L (rbind (securityHeaderLength bound) (\<lambda>n. rbind (r n) g)) (optional_wire v @ bs) w"
proof (cases "v = []")
  case True
  then show ?thesis
    using g none by (auto simp: optional_wire_def intro!: parses_securityHeaderLength_null
        parses_rbind [where ?b1.0 = "[]", simplified] parses_rreturn)
next
  case False
  have "parses L (rbind (r (int (length v))) g) (v @ bs) w"
    unfolding take [OF refl False] by (rule parses_rbind [where f = g, OF parses_dtake [OF refl]]) (rule g)
  then show ?thesis
    using False v by (simp add: optional_wire_def parses_securityHeaderLength)
qed

definition asymmetric_wire :: "AsymmetricSecurityHeader \<Rightarrow> byte list" where
  "asymmetric_wire h = optional_wire (SecurityPolicyURI h) @ optional_wire (SenderCertificate h) @
     optional_wire (ReceiverCertificateThumbprint h)"

definition asymmetric_ok :: "int \<Rightarrow> AsymmetricSecurityHeader \<Rightarrow> bool" where
  "asymmetric_ok m h \<longleftrightarrow> length (SecurityPolicyURI h) \<le> 255 \<and> int (length (SenderCertificate h)) \<le> m \<and>
     (length (ReceiverCertificateThumbprint h) = 0 \<or> length (ReceiverCertificateThumbprint h) = 20)"

lemma parses_asymmetric:
  assumes "asymmetric_ok m h" and "m \<le> MaxInt32"
  shows "parses L (readAsymmetricSecurityHeader m) (asymmetric_wire h) h"
proof -
  let ?last = "rbind (securityHeaderLength CertificateThumbprintBytes) (\<lambda>thumbprintLength.
     rbind (if thumbprintLength > 0 then
              (if thumbprintLength \<noteq> CertificateThumbprintBytes
               then rfail (uacpError StatusBadSecurityChecksFailed) else dtake thumbprintLength)
            else rreturn []) (\<lambda>thumbprint.
     rreturn \<lparr>SecurityPolicyURI = SecurityPolicyURI h, SenderCertificate = SenderCertificate h,
              ReceiverCertificateThumbprint = thumbprint\<rparr>))"
  have last: "parses L ?last (optional_wire (ReceiverCertificateThumbprint h) @ []) h"
    by (rule parses_optional_field)
      (use assms in \<open>cases h; auto simp: asymmetric_ok_def CertificateThumbprintBytes_def MaxInt32_def
        parses_rreturn\<close>)+
  have "int (length (SenderCertificate h)) \<le> m" "int (length (SenderCertificate h)) \<le> MaxInt32"
    "int (length (SecurityPolicyURI h)) \<le> MaxSecurityPolicyURIBytes" "int (length (SecurityPolicyURI h)) \<le> MaxInt32"
    using assms by (auto simp: asymmetric_ok_def MaxSecurityPolicyURIBytes_def MaxInt32_def)
  then show ?thesis
    using last unfolding readAsymmetricSecurityHeader_def asymmetric_wire_def append_Nil2
    by (intro parses_optional_field) auto
qed

lemma within_securityHeaderLength [within_intros]: "within (securityHeaderLength bound)"
proof -
  have "within (\<lambda>decoder. if raw = 0 \<or> raw = nullLength then rreturn 0 decoder
     else if sint raw < 0 then rfail (uacpError StatusBadSecurityChecksFailed) decoder
     else if sint raw > bound then rfail (uacpError StatusBadSecurityChecksFailed) decoder
     else if sint raw > Remaining decoder then rfail (uacpError StatusBadSecurityChecksFailed) decoder
     else rreturn (sint raw) decoder)" for raw :: int32
    by (auto simp: within_def rreturn_def rfail_def uacpError_def)
  then show ?thesis unfolding securityHeaderLength_def by (intro within_intros)
qed

lemma within_asymmetric: "within (readAsymmetricSecurityHeader m)"
  unfolding readAsymmetricSecurityHeader_def by (intro within_intros)

lemma encode_with_emits:
  assumes "emits L w ok bs" and "encode_with w L = Inr out"
  shows "ok" "out = bs" "validate_limits L = None" "int (length bs) \<le> MaxMessageBytes L"
proof -
  from assms(2) obtain e where e: "NewEncoder L = Inr e" "Bytes (w e) = Inr out"
    by (auto simp: encode_with_def split: sum.splits)
  have e': "enc_wf L e" "eerr e = None" "ebuffer e = []" "validate_limits L = None"
    using e(1) by (auto simp: NewEncoder_def enc_wf_def validate_limits_def split: if_splits)
  note w = emitsD [OF assms(1) e'(1)]
  show "ok" "out = bs" "validate_limits L = None" "int (length bs) \<le> MaxMessageBytes L"
    using w(4,5) e' e(2) by (auto simp: Bytes_def split: option.splits)
qed

text \<open>
  What \<^verbatim>\<open>EncodeAsymmetricSecurityHeader\<close> writes, followed by anything that still
  fits the message limit, is decoded to the same header, and the number of bytes reported
  consumed is the length written, so the sequence header behind it is found.
\<close>
theorem asymmetric_header_roundtrip:
  assumes "EncodeAsymmetricSecurityHeader h m L = Inr bs" and "m \<le> MaxInt32"
    and "int (length (bs @ rest)) \<le> MaxMessageBytes L"
  shows "DecodeAsymmetricSecurityHeader (bs @ rest) m L = Inr (h, int (length bs))"
proof -
  let ?w = "seqw [writeOptional (SecurityPolicyURI h), writeOptional (SenderCertificate h),
             writeOptional (ReceiverCertificateThumbprint h)]"
  have ok: "asymmetric_ok m h" and enc: "encode_with ?w L = Inr bs"
    using assms(1) by (auto simp: EncodeAsymmetricSecurityHeader_def asymmetric_ok_def
        MaxSecurityPolicyURIBytes_def CertificateThumbprintBytes_def split: if_splits)
  have "emits L ?w True (asymmetric_wire h)"
    unfolding asymmetric_wire_def by (rule emits_cong, (rule emits_intros)+) simp_all
  from encode_with_emits [OF this enc] have bs: "bs = asymmetric_wire h" "validate_limits L = None" by auto
  let ?d = "\<lparr>dbuffer = bs @ rest, doffset = 0, dlimits = L, ddepth = 0\<rparr>"
  have "NewDecoder (bs @ rest) L = Inr ?d" using bs(2) assms(3) by (simp add: NewDecoder_def)
  moreover have "readAsymmetricSecurityHeader m ?d = Inr (h, advance (length bs) ?d)"
    unfolding bs(1)
    by (rule parsesD [OF parses_asymmetric [OF ok assms(2)]]) (simp_all add: dec_wf_def pending_def)
  ultimately show ?thesis
    by (simp add: DecodeAsymmetricSecurityHeader_def run_reader_def Remaining_def)
qed

definition asymmetric_sample :: AsymmetricSecurityHeader where
  "asymmetric_sample = \<lparr>SecurityPolicyURI = [104], SenderCertificate = [1, 2],
     ReceiverCertificateThumbprint = []\<rparr>"

theorem asymmetric_header_roundtrip_witness:
  "DecodeAsymmetricSecurityHeader (asymmetric_wire asymmetric_sample @ [9, 9]) 100 DefaultBinaryLimits =
     Inr (asymmetric_sample, 15)"
proof -
  have e: "EncodeAsymmetricSecurityHeader asymmetric_sample 100 DefaultBinaryLimits =
      Inr (asymmetric_wire asymmetric_sample)" by code_simp
  have l: "length (asymmetric_wire asymmetric_sample) = 15" by code_simp
  from asymmetric_header_roundtrip [OF e, of "[9, 9]"] l show ?thesis
    by (simp add: MaxInt32_def DefaultBinaryLimits_def)
qed

text \<open>
  A chunk header that is encoded is decoded, under a receive buffer no smaller
  than the send buffer it was encoded for, to the same type, chunk code and channel, with
  the size of the whole chunk.
\<close>
theorem secure_header_roundtrip:
  assumes "EncodeSecureConversationHeader h bodySize send = Inr bs" and "send \<le> receive"
  shows "DecodeSecureConversationHeader (bs @ body) receive = Inr (h\<lparr>scSize := of_int (bodySize + 12)\<rparr>)"
proof -
  have b: "IsSecureChannel (scType h)" "scChunk h = ChunkFinal \<or> scChunk h = ChunkIntermediate \<or> scChunk h = ChunkAbort"
    "0 \<le> bodySize" "bodySize + 12 \<le> uint send"
    and bs: "bs = type_bytes (scType h) @ [scChunk h] @ le_bytes 4 (of_int (bodySize + 12) :: uint32) @
      le_bytes 4 (scChannelID h)"
    using assms(1) by (auto simp: EncodeSecureConversationHeader_def SecureConversationHeaderSize_def Let_def
        not_less split: if_splits)
  have "bodySize + 12 < 2 ^ 32" using b(4) uint_lt2p [of send] by simp
  then have u: "uint (of_int (bodySize + 12) :: uint32) = bodySize + 12"
    using b(3) by (intro uint_of_int32) auto
  have "\<not> of_int (bodySize + 12) > receive"
    using assms(2) b(4) u by (simp add: word_less_def word_le_def)
  then have "DecodeMessageHeader (bs @ body) receive =
      Inr \<lparr>mhType = scType h, mhChunk = scChunk h, mhSize = of_int (bodySize + 12)\<rparr>"
    using DecodeMessageHeader_bytes [of "scType h" "scChunk h" "of_int (bodySize + 12)"
        "le_bytes 4 (scChannelID h) @ body" receive] b u bs by (auto simp: header_valid_def)
  moreover have "take 4 (drop 8 (bs @ body)) = le_bytes 4 (scChannelID h)"
    by (simp add: bs)
  moreover have "length bs = 12" by (simp add: bs)
  ultimately show ?thesis
    using b u by (simp add: DecodeSecureConversationHeader_def SecureConversationHeaderSize_def)
qed

definition secure_sample :: SecureConversationHeader where
  "secure_sample = \<lparr>scType = MessageTypeSecure, scChunk = ChunkIntermediate, scSize = 0, scChannelID = 77\<rparr>"

theorem secure_header_roundtrip_witness:
  "DecodeSecureConversationHeader ([77, 83, 71, 67, 17, 0, 0, 0, 77, 0, 0, 0] @ [1, 2, 3, 4, 5]) 8192 =
     Inr (secure_sample\<lparr>scSize := 17\<rparr>)"
proof -
  have "EncodeSecureConversationHeader secure_sample 5 8192 = Inr [77, 83, 71, 67, 17, 0, 0, 0, 77, 0, 0, 0]"
    by code_simp
  from secure_header_roundtrip [OF this, of 8192 "[1, 2, 3, 4, 5]"] show ?thesis by simp
qed

text \<open>The numbers of \<open>n\<close> consecutive chunks, and a receiver that checks a list of numbers.\<close>

primrec send_numbers :: "nat \<Rightarrow> SequenceValidator \<Rightarrow> uint32 list \<times> SequenceValidator" where
  "send_numbers 0 v = ([], v)"
| "send_numbers (Suc n) v = (let (x, v') = sequence_next v; (xs, v'') = send_numbers n v' in (x # xs, v''))"

primrec accept_numbers :: "uint32 list \<Rightarrow> SequenceValidator \<Rightarrow> go_error + SequenceValidator" where
  "accept_numbers [] v = Inr v"
| "accept_numbers (x # xs) v = (case sequence_accept x v of Inl er \<Rightarrow> Inl er | Inr v' \<Rightarrow> accept_numbers xs v')"

lemma not_wrapped: "x \<noteq> - 1 \<Longrightarrow> x + 1 \<noteq> 0" for x :: uint32
  by (metis add.commute add.right_inverse add_left_cancel)

lemma next_accepted: "sequence_accept (fst (sequence_next v)) v = Inr (snd (sequence_next v))"
proof (cases "numbering v")
  case SequenceNumberingLegacy
  have "last_number v \<noteq> - 1" if "\<not> legacySequenceWrapFloor < last_number v"
    using that by (auto simp: legacySequenceWrapFloor_def)
  then show ?thesis
    using SequenceNumberingLegacy
    by (auto simp: sequence_accept_def sequence_next_def isValidWrap_def Let_def not_wrapped)
next
  case SequenceNumberingZeroBased
  then show ?thesis
    by (auto simp: sequence_accept_def sequence_next_def isValidWrap_def Let_def not_wrapped)
qed

text \<open>
  Claim C35: under either numbering, whatever number of chunks a sender numbers, past any
  wrap-around, a receiver that has seen the same chunks accepts them all and ends in the
  sender's state. Once started, it accepts only the successor of the last number or a
  wrap to a strictly smaller number, so a repeated chunk is always refused.
\<close>
theorem sequence_numbers_agree:
  "accept_numbers (fst (send_numbers n v)) v = Inr (snd (send_numbers n v)) \<and>
   (started v \<longrightarrow> sequence_accept number v = Inr v' \<longrightarrow>
      number = last_number v + 1 \<and> number \<noteq> 0 \<or> number < last_number v) \<and>
   (started v \<longrightarrow> sequence_accept (last_number v) v = Inl (uacpError StatusBadSecurityChecksFailed))"
proof (intro conjI impI)
  show "accept_numbers (fst (send_numbers n v)) v = Inr (snd (send_numbers n v))"
    by (induction n arbitrary: v) (auto simp: Let_def next_accepted split: prod.splits,
        metis fst_conv next_accepted snd_conv sum.simps(6))
  have ne: "x \<noteq> x + 1" for x :: uint32 by simp
  have big: "x > legacySequenceWrapFloor \<Longrightarrow> y < 1024 \<Longrightarrow> y < x" for x y :: uint32
    by (simp add: legacySequenceWrapFloor_def word_less_nat_alt)
  assume s: "started v"
  show "sequence_accept (last_number v) v = Inl (uacpError StatusBadSecurityChecksFailed)"
    using s ne [of "last_number v"] big [of "last_number v" "last_number v"]
    by (auto simp: sequence_accept_def isValidWrap_def split: SequenceNumbering.splits)
  assume "sequence_accept number v = Inr v'"
  then show "number = last_number v + 1 \<and> number \<noteq> 0 \<or> number < last_number v"
    using s big by (auto simp: sequence_accept_def isValidWrap_def word_gt_0 split: if_splits SequenceNumbering.splits)
qed

definition wrapping_sender :: SequenceValidator where
  "wrapping_sender = \<lparr>numbering = SequenceNumberingLegacy, started = True, last_number = 4294966272\<rparr>"

theorem sequence_numbers_agree_witness:
  "accept_numbers [0, 1] wrapping_sender = Inr (wrapping_sender\<lparr>last_number := 1\<rparr>) \<and>
   sequence_accept 4294966272 wrapping_sender = Inl (uacpError StatusBadSecurityChecksFailed)"
proof -
  have "send_numbers (Suc (Suc 0)) wrapping_sender = ([0, 1], wrapping_sender\<lparr>last_number := 1\<rparr>)"
    by (simp add: wrapping_sender_def sequence_next_def legacySequenceWrapFloor_def)
  with sequence_numbers_agree [of "Suc (Suc 0)" wrapping_sender] show ?thesis
    by (simp add: wrapping_sender_def)
qed

end
