(* ===== verification/Machines.thy ===== *)
theory Machines
  imports Main
begin

text \<open>
  The interface the stateful components share: a machine is a set of starting states and a
  step relation, and what its clients rely on is an invariant of every state it can reach.
  Each registry of the server (secure channels, sessions) interprets the locale on its own
  step relation.
\<close>

inductive reachable :: "('s \<Rightarrow> bool) \<Rightarrow> ('s \<Rightarrow> 's \<Rightarrow> bool) \<Rightarrow> 's \<Rightarrow> bool"
  for start step where
  initial: "start s \<Longrightarrow> reachable start step s"
| later: "reachable start step s \<Longrightarrow> step s t \<Longrightarrow> reachable start step t"

locale state_machine =
  fixes start :: "'s \<Rightarrow> bool"
    and step :: "'s \<Rightarrow> 's \<Rightarrow> bool"
    and inv :: "'s \<Rightarrow> bool"
  assumes start_inv: "start s \<Longrightarrow> inv s"
    and step_inv: "inv s \<Longrightarrow> step s t \<Longrightarrow> inv t"
begin

lemma reachable_inv: "reachable start step s \<Longrightarrow> inv s"
  by (induction rule: reachable.induct) (auto intro: start_inv step_inv)

lemma steps_inv: "step\<^sup>*\<^sup>* s t \<Longrightarrow> inv s \<Longrightarrow> inv t"
  by (induction rule: rtranclp_induct) (auto intro: step_inv)

lemma reachable_steps: "reachable start step s \<longleftrightarrow> (\<exists>s0. start s0 \<and> step\<^sup>*\<^sup>* s0 s)"
proof
  show "reachable start step s \<Longrightarrow> \<exists>s0. start s0 \<and> step\<^sup>*\<^sup>* s0 s"
    by (induction rule: reachable.induct) (auto intro: rtranclp.rtrancl_into_rtrancl)
  assume "\<exists>s0. start s0 \<and> step\<^sup>*\<^sup>* s0 s"
  then obtain s0 where "start s0" "step\<^sup>*\<^sup>* s0 s" by blast
  from this(2,1) show "reachable start step s"
    by (induction rule: rtranclp_induct) (auto intro: reachable.intros)
qed

end

end
