(* ===== verification/Channels.thy ===== *)
theory Channels
  imports Uasc Machines Tables
begin

text \<open>
  The life of secure channels and their tokens, \<^verbatim>\<open>src/internal/opcua/channel.go\<close>. Every
  method of the registry runs with its lock held, so each is one step on the registry.
  The Go map of channels is an association list with distinct keys, in which the channel
  objects are held by value: only the registry has their addresses.
\<close>

section \<open>Tokens and limits\<close>

definition StatusBadSecureChannelIDInvalid :: StatusCode where "StatusBadSecureChannelIDInvalid = 0x80220000"
definition StatusBadSecureChannelClosed :: StatusCode where "StatusBadSecureChannelClosed = 0x80860000"
definition StatusBadSecureChannelTokenUnknown :: StatusCode where "StatusBadSecureChannelTokenUnknown = 0x80870000"

type_synonym TokenRequestType = int32

definition TokenRequestIssue :: TokenRequestType where "TokenRequestIssue = 0"
definition TokenRequestRenew :: TokenRequestType where "TokenRequestRenew = 1"

record ChannelSecurityToken =
  SecureChannelID :: uint32
  TokenID :: uint32
  CreatedAt :: gotime
  RevisedLifetime :: uint32

definition timeMillisecond :: int where "timeMillisecond = 10 ^ 6"

definition ExpiresAt :: "ChannelSecurityToken \<Rightarrow> gotime" where
  "ExpiresAt t = CreatedAt t + i64 (uint (RevisedLifetime t) * timeMillisecond)"

definition expired :: "ChannelSecurityToken \<Rightarrow> gotime \<Rightarrow> bool" where
  "expired t now \<longleftrightarrow> \<not> now < ExpiresAt t"

record ChannelLimits =
  MinLifetime :: int
  MaxLifetime :: int
  MaxChannels :: int

definition DefaultChannelLimits :: ChannelLimits where
  "DefaultChannelLimits = \<lparr>MinLifetime = 10 * 10 ^ 9, MaxLifetime = 10 * 60 * 10 ^ 9, MaxChannels = 16\<rparr>"

definition ChannelLimits_validate :: "ChannelLimits \<Rightarrow> go_error option" where
  "ChannelLimits_validate limits =
     (if MinLifetime limits \<le> 0 \<or> MaxLifetime limits \<le> 0 \<or> MaxChannels limits \<le> 0 then Some PlainError
      else if MinLifetime limits > MaxLifetime limits then Some PlainError
      else if go_quot (MaxLifetime limits) timeMillisecond > 4294967295 then Some PlainError
      else None)"

definition reviseLifetime :: "ChannelLimits \<Rightarrow> uint32 \<Rightarrow> uint32" where
  "reviseLifetime limits requested =
     (let requestedDuration = i64 (uint requested * timeMillisecond);
          d = (if requestedDuration < MinLifetime limits then MinLifetime limits
               else if requestedDuration > MaxLifetime limits then MaxLifetime limits
               else requestedDuration)
      in of_int (go_quot d timeMillisecond))"

section \<open>One channel\<close>

record SecureChannel =
  chID :: uint32
  chMode :: SecurityMode
  chLimits :: ChannelLimits
  chCurrent :: ChannelSecurityToken
  chPrevious :: "ChannelSecurityToken option"
  chClosed :: bool

definition zeroToken :: ChannelSecurityToken where
  "zeroToken = \<lparr>SecureChannelID = 0, TokenID = 0, CreatedAt = zeroTime, RevisedLifetime = 0\<rparr>"

definition PreviousToken :: "SecureChannel \<Rightarrow> ChannelSecurityToken \<times> bool" where
  "PreviousToken c = (case chPrevious c of None \<Rightarrow> (zeroToken, False) | Some t \<Rightarrow> (t, True))"

definition channel_Renew :: "uint32 \<Rightarrow> uint32 \<Rightarrow> gotime \<Rightarrow> SecureChannel \<Rightarrow>
    (go_error + ChannelSecurityToken) \<times> SecureChannel" where
  "channel_Renew tokenID requestedLifetime now c =
     (if chClosed c then (Inl (uacpError StatusBadSecureChannelClosed), c)
      else let t = \<lparr>SecureChannelID = chID c, TokenID = tokenID, CreatedAt = now,
                     RevisedLifetime = reviseLifetime (chLimits c) requestedLifetime\<rparr>
           in (Inr t, c\<lparr>chPrevious := Some (chCurrent c), chCurrent := t\<rparr>))"

definition AcceptToken :: "uint32 \<Rightarrow> gotime \<Rightarrow> SecureChannel \<Rightarrow> go_error option \<times> SecureChannel" where
  "AcceptToken tokenID now c =
     (if chClosed c then (Some (uacpError StatusBadSecureChannelClosed), c)
      else if tokenID = TokenID (chCurrent c) then
        (if expired (chCurrent c) now then (Some (uacpError StatusBadSecureChannelTokenUnknown), c)
         else (None, c\<lparr>chPrevious := None\<rparr>))
      else case chPrevious c of
          None \<Rightarrow> (Some (uacpError StatusBadSecureChannelTokenUnknown), c)
        | Some previous \<Rightarrow>
            if tokenID = TokenID previous then
              (if expired previous now
               then (Some (uacpError StatusBadSecureChannelTokenUnknown), c\<lparr>chPrevious := None\<rparr>)
               else (None, c))
            else (Some (uacpError StatusBadSecureChannelTokenUnknown), c))"

definition Expired :: "gotime \<Rightarrow> SecureChannel \<Rightarrow> bool" where
  "Expired now c =
     (if (case chPrevious c of None \<Rightarrow> False | Some previous \<Rightarrow> \<not> expired previous now) then False
      else expired (chCurrent c) now)"

record ChannelInfo =
  ciID :: uint32
  ciSecurityMode :: SecurityMode
  ciToken :: ChannelSecurityToken
  ciPreviousToken :: ChannelSecurityToken
  ciHasPreviousToken :: bool

definition snapshot :: "SecureChannel \<Rightarrow> ChannelInfo" where
  "snapshot c = \<lparr>ciID = chID c, ciSecurityMode = chMode c, ciToken = chCurrent c,
     ciPreviousToken = fst (PreviousToken c), ciHasPreviousToken = snd (PreviousToken c)\<rparr>"

section \<open>The registry\<close>

record ChannelRegistry =
  rLimits :: ChannelLimits
  rChannels :: "(uint32 \<times> SecureChannel) list"
  nextChannelID :: uint32
  nextTokenID :: uint32

definition NewChannelRegistry :: "ChannelLimits \<Rightarrow> uint32 \<Rightarrow> uint32 \<Rightarrow> go_error + ChannelRegistry" where
  "NewChannelRegistry limits channelIDSeed tokenIDSeed =
     (case ChannelLimits_validate limits of
        Some er \<Rightarrow> Inl er
      | None \<Rightarrow> Inr \<lparr>rLimits = limits, rChannels = [], nextChannelID = channelIDSeed,
                     nextTokenID = tokenIDSeed\<rparr>)"

text \<open>
  The loop of \<^verbatim>\<open>allocateChannelID\<close>, on the counter: \<open>None\<close> when it does not end.
\<close>

partial_function (option) allocateLoop :: "uint32 list \<Rightarrow> uint32 \<Rightarrow> uint32 option" where
  [code]: "allocateLoop taken next =
     (let next' = next + 1
      in if next' = 0 then allocateLoop taken next'
         else if next' \<in> set taken then allocateLoop taken next'
         else Some next')"

definition allocateChannelID :: "ChannelRegistry \<Rightarrow> (uint32 \<times> ChannelRegistry) option" where
  "allocateChannelID r =
     map_option (\<lambda>i. (i, r\<lparr>nextChannelID := i\<rparr>)) (allocateLoop (map fst (rChannels r)) (nextChannelID r))"

definition allocateTokenID :: "ChannelRegistry \<Rightarrow> uint32 \<times> ChannelRegistry" where
  "allocateTokenID r =
     (let n = nextTokenID r + 1; n' = (if n = 0 then 1 else n) in (n', r\<lparr>nextTokenID := n'\<rparr>))"

definition Count :: "ChannelRegistry \<Rightarrow> int" where
  "Count r = int (length (rChannels r))"

text \<open>\<open>None\<close> stands for a call that does not return.\<close>

definition Issue :: "SecurityMode \<Rightarrow> uint32 \<Rightarrow> gotime \<Rightarrow> ChannelRegistry \<Rightarrow>
    ((go_error + ChannelInfo) \<times> ChannelRegistry) option" where
  "Issue mode requestedLifetime now r =
     (case RequireSupportedSecurityMode mode of
        Some er \<Rightarrow> Some (Inl er, r)
      | None \<Rightarrow>
          if Count r \<ge> MaxChannels (rLimits r)
          then Some (Inl (uacpError StatusBadTcpNotEnoughResources), r)
          else (case allocateChannelID r of
              None \<Rightarrow> None
            | Some (i, r1) \<Rightarrow>
                (let (tokenID, r2) = allocateTokenID r1;
                     channel = \<lparr>chID = i, chMode = mode, chLimits = rLimits r,
                       chCurrent = \<lparr>SecureChannelID = i, TokenID = tokenID, CreatedAt = now,
                         RevisedLifetime = reviseLifetime (rLimits r) requestedLifetime\<rparr>,
                       chPrevious = None, chClosed = False\<rparr>
                 in Some (Inr (snapshot channel), r2\<lparr>rChannels := AList.update i channel (rChannels r2)\<rparr>))))"

definition lookupLocked :: "uint32 \<Rightarrow> ChannelRegistry \<Rightarrow> go_error + SecureChannel" where
  "lookupLocked channelID r = (case map_of (rChannels r) channelID of
       None \<Rightarrow> Inl (uacpError StatusBadTcpSecureChannelUnknown)
     | Some channel \<Rightarrow> if chClosed channel then Inl (uacpError StatusBadSecureChannelClosed) else Inr channel)"

definition Renew :: "uint32 \<Rightarrow> uint32 \<Rightarrow> gotime \<Rightarrow> ChannelRegistry \<Rightarrow>
    (go_error + ChannelSecurityToken) \<times> ChannelRegistry" where
  "Renew channelID requestedLifetime now r = (case lookupLocked channelID r of
       Inl er \<Rightarrow> (Inl er, r)
     | Inr channel \<Rightarrow>
         let (tokenID, r1) = allocateTokenID r;
             (result, channel') = channel_Renew tokenID requestedLifetime now channel
         in (result, r1\<lparr>rChannels := AList.update channelID channel' (rChannels r1)\<rparr>))"

definition Lookup :: "uint32 \<Rightarrow> ChannelRegistry \<Rightarrow> go_error + ChannelInfo" where
  "Lookup channelID r = (case lookupLocked channelID r of
       Inl er \<Rightarrow> Inl er | Inr channel \<Rightarrow> Inr (snapshot channel))"

definition Accept :: "uint32 \<Rightarrow> uint32 \<Rightarrow> gotime \<Rightarrow> ChannelRegistry \<Rightarrow>
    (go_error + ChannelInfo) \<times> ChannelRegistry" where
  "Accept channelID tokenID now r = (case lookupLocked channelID r of
       Inl er \<Rightarrow> (Inl er, r)
     | Inr channel \<Rightarrow>
         let (er, channel') = AcceptToken tokenID now channel;
             r' = r\<lparr>rChannels := AList.update channelID channel' (rChannels r)\<rparr>
         in (case er of Some e \<Rightarrow> (Inl e, r') | None \<Rightarrow> (Inr (snapshot channel'), r')))"

definition Close :: "uint32 \<Rightarrow> ChannelRegistry \<Rightarrow> go_error option \<times> ChannelRegistry" where
  "Close channelID r = (case map_of (rChannels r) channelID of
       None \<Rightarrow> (Some (uacpError StatusBadTcpSecureChannelUnknown), r)
     | Some channel \<Rightarrow> (None, r\<lparr>rChannels := AList.delete channelID (rChannels r)\<rparr>))"

text \<open>Deleting from a Go map while ranging over it visits every entry that is kept.\<close>

definition ExpireStale :: "gotime \<Rightarrow> ChannelRegistry \<Rightarrow> int \<times> ChannelRegistry" where
  "ExpireStale now r =
     (int (length (filter (\<lambda>(i, c). Expired now c) (rChannels r))),
      r\<lparr>rChannels := filter (\<lambda>(i, c). \<not> Expired now c) (rChannels r)\<rparr>)"

definition RequireProtocolVersion :: "uint32 \<Rightarrow> uint32 \<Rightarrow> go_error option" where
  "RequireProtocolVersion hello request =
     (if hello = request then None else Some (uacpError StatusBadProtocolVersionUnsupport))"

section \<open>Laws of lifetimes\<close>

lemma reviseLifetime_eq:
  assumes "ChannelLimits_validate L = None"
  shows "uint (reviseLifetime L q) = min (max (uint q * 10 ^ 6) (MinLifetime L)) (MaxLifetime L) div 10 ^ 6"
proof -
  let ?d = "min (max (uint q * 10 ^ 6) (MinLifetime L)) (MaxLifetime L)"
  have L: "0 < MinLifetime L" "MinLifetime L \<le> MaxLifetime L" "MaxLifetime L div 10 ^ 6 \<le> 4294967295"
    using assms by (auto simp: ChannelLimits_validate_def go_quot_nonneg timeMillisecond_def split: if_splits)
  have q: "i64 (uint q * 10 ^ 6) = uint q * 10 ^ 6"
    using uint_lt2p [of q] by (intro i64_nonneg) (auto simp: MaxInt64_def)
  have "reviseLifetime L q = of_int (go_quot ?d (10 ^ 6))"
    unfolding reviseLifetime_def Let_def timeMillisecond_def q using L
    by (intro arg_cong [where f = of_int] arg_cong [where f = "\<lambda>x. go_quot x _"]) auto
  moreover have "0 \<le> ?d" using L by auto
  ultimately have "reviseLifetime L q = of_int (?d div 10 ^ 6)" by (simp add: go_quot_nonneg)
  moreover have "?d div 10 ^ 6 \<le> 4294967295"
    using zdiv_mono1 [of ?d "MaxLifetime L" "10 ^ 6"] L(3) by auto
  moreover have "0 \<le> ?d div 10 ^ 6" using \<open>0 \<le> ?d\<close> by (simp add: pos_imp_zdiv_nonneg_iff)
  ultimately show ?thesis by (simp add: uint_of_int32)
qed

lemma ExpiresAt_eq: "ExpiresAt t = CreatedAt t + uint (RevisedLifetime t) * 10 ^ 6"
  using uint_lt2p [of "RevisedLifetime t"]
  by (simp add: ExpiresAt_def timeMillisecond_def i64_nonneg MaxInt64_def)

section \<open>The allocation loop ends\<close>

definition free_id :: "uint32 list \<Rightarrow> uint32 \<Rightarrow> bool" where
  "free_id taken i \<longleftrightarrow> i \<noteq> 0 \<and> i \<notin> set taken"

lemma allocateLoop_reaches:
  "free_id taken (next + of_nat (Suc k)) \<Longrightarrow> \<exists>i. allocateLoop taken next = Some i \<and> free_id taken i"
proof (induction k arbitrary: "next")
  case 0
  then show ?case by (subst allocateLoop.simps) (auto simp: free_id_def Let_def)
next
  case (Suc k)
  show ?case
  proof (cases "free_id taken (next + 1)")
    case True
    then show ?thesis by (subst allocateLoop.simps) (auto simp: free_id_def Let_def)
  next
    case False
    have "free_id taken ((next + 1) + of_nat (Suc k))" using Suc.prems by (simp add: algebra_simps)
    from Suc.IH [OF this] False show ?thesis
      by (subst allocateLoop.simps) (auto simp: free_id_def Let_def)
  qed
qed

lemma free_id_exists:
  assumes "length taken < 2 ^ 32 - 1"
  shows "\<exists>i. free_id taken i"
proof (rule ccontr)
  assume "\<not> ?thesis"
  then have "UNIV = set (0 # taken)" by (auto simp: free_id_def)
  then have "card (UNIV :: uint32 set) \<le> length (0 # taken)" using card_length by metis
  then show False using assms by (simp add: card_word)
qed

lemma allocateLoop_returns:
  assumes "length taken < 2 ^ 32 - 1"
  shows "\<exists>i. allocateLoop taken next = Some i \<and> free_id taken i"
proof -
  obtain i where i: "free_id taken i" using free_id_exists [OF assms] by blast
  have "next + of_nat (Suc (unat (i - next - 1))) = i" by simp
  with i allocateLoop_reaches show ?thesis by metis
qed

section \<open>The invariant of the registry\<close>

definition token_ok :: "ChannelLimits \<Rightarrow> uint32 \<Rightarrow> ChannelSecurityToken \<Rightarrow> bool" where
  "token_ok L i t \<longleftrightarrow> SecureChannelID t = i \<and> TokenID t \<noteq> 0 \<and>
     MinLifetime L div 10 ^ 6 \<le> uint (RevisedLifetime t) \<and>
     uint (RevisedLifetime t) \<le> MaxLifetime L div 10 ^ 6"

definition channel_ok :: "ChannelLimits \<Rightarrow> uint32 \<Rightarrow> SecureChannel \<Rightarrow> bool" where
  "channel_ok L i c \<longleftrightarrow> i \<noteq> 0 \<and> chID c = i \<and> chMode c = SecurityModeNone \<and> chLimits c = L \<and>
     \<not> chClosed c \<and> token_ok L i (chCurrent c) \<and>
     (case chPrevious c of None \<Rightarrow> True | Some t \<Rightarrow> token_ok L i t)"

definition registry_inv :: "ChannelRegistry \<Rightarrow> bool" where
  "registry_inv r \<longleftrightarrow> ChannelLimits_validate (rLimits r) = None \<and>
     table_wf (channel_ok (rLimits r)) (rChannels r) \<and> Count r \<le> MaxChannels (rLimits r)"

inductive registry_step :: "ChannelRegistry \<Rightarrow> ChannelRegistry \<Rightarrow> bool" where
  issue: "Issue mode lifetime now r = Some (result, r') \<Longrightarrow> registry_step r r'"
| renew: "Renew i lifetime now r = (renewed, r') \<Longrightarrow> registry_step r r'"
| accept: "Accept i token now r = (accepted, r') \<Longrightarrow> registry_step r r'"
| close: "Close i r = (er, r') \<Longrightarrow> registry_step r r'"
| expire: "ExpireStale now r = (n, r') \<Longrightarrow> registry_step r r'"

definition registry_start :: "ChannelRegistry \<Rightarrow> bool" where
  "registry_start r \<longleftrightarrow> (\<exists>limits a b. NewChannelRegistry limits a b = Inr r)"

lemma reviseLifetime_range:
  assumes "ChannelLimits_validate L = None"
  shows "MinLifetime L div 10 ^ 6 \<le> uint (reviseLifetime L q)"
    and "uint (reviseLifetime L q) \<le> MaxLifetime L div 10 ^ 6"
proof -
  have "MinLifetime L \<le> MaxLifetime L"
    using assms by (auto simp: ChannelLimits_validate_def split: if_splits)
  then show "MinLifetime L div 10 ^ 6 \<le> uint (reviseLifetime L q)"
    "uint (reviseLifetime L q) \<le> MaxLifetime L div 10 ^ 6"
    unfolding reviseLifetime_eq [OF assms] by (auto intro!: zdiv_mono1)
qed

lemma lookupLocked_inv:
  assumes "registry_inv r"
  shows "lookupLocked i r = (case map_of (rChannels r) i of
      None \<Rightarrow> Inl (uacpError StatusBadTcpSecureChannelUnknown) | Some c \<Rightarrow> Inr c)"
proof -
  have "map_of (rChannels r) i = Some c \<Longrightarrow> \<not> chClosed c" for c
    using assms table_wf_lookup [of "channel_ok (rLimits r)" "rChannels r" i c]
    by (auto simp: registry_inv_def channel_ok_def)
  then show ?thesis by (auto simp: lookupLocked_def split: option.splits)
qed

lemma allocateTokenID_facts:
  assumes "allocateTokenID r = (t, r')"
  shows "t \<noteq> 0" and "r' = r\<lparr>nextTokenID := t\<rparr>"
  using assms by (auto simp: allocateTokenID_def Let_def split: if_splits)

lemma registry_inv_update:
  assumes "registry_inv r" and "channel_ok (rLimits r) i c"
    and "map_of (rChannels r) i \<noteq> None \<or> Count r < MaxChannels (rLimits r)"
  shows "registry_inv (r\<lparr>nextChannelID := a, nextTokenID := b, rChannels := AList.update i c (rChannels r)\<rparr>)"
  using assms by (auto simp: registry_inv_def table_wf_update Count_def length_update)

lemma registry_inv_counters:
  "registry_inv (r\<lparr>nextChannelID := a\<rparr>) = registry_inv r" "registry_inv (r\<lparr>nextTokenID := a\<rparr>) = registry_inv r"
  by (simp_all add: registry_inv_def Count_def)

lemma Issue_cases:
  assumes "registry_inv r" and "MaxChannels (rLimits r) < 2 ^ 32"
  shows "Issue mode lifetime now r =
    (if mode \<noteq> SecurityModeNone then Some (Inl (uacpError StatusBadSecurityModeRejected), r)
     else if Count r \<ge> MaxChannels (rLimits r) then Some (Inl (uacpError StatusBadTcpNotEnoughResources), r)
     else (let i = the (allocateLoop (map fst (rChannels r)) (nextChannelID r));
               t = fst (allocateTokenID r);
               c = \<lparr>chID = i, chMode = mode, chLimits = rLimits r,
                     chCurrent = \<lparr>SecureChannelID = i, TokenID = t, CreatedAt = now,
                       RevisedLifetime = reviseLifetime (rLimits r) lifetime\<rparr>,
                     chPrevious = None, chClosed = False\<rparr>
           in Some (Inr (snapshot c), r\<lparr>nextChannelID := i, nextTokenID := t,
                 rChannels := AList.update i c (rChannels r)\<rparr>)))"
    and "Count r < MaxChannels (rLimits r) \<Longrightarrow>
      free_id (map fst (rChannels r)) (the (allocateLoop (map fst (rChannels r)) (nextChannelID r)))"
proof -
  have room: "\<exists>i. allocateLoop (map fst (rChannels r)) (nextChannelID r) = Some i \<and>
      free_id (map fst (rChannels r)) i" if "Count r < MaxChannels (rLimits r)"
    using that assms(2) by (intro allocateLoop_returns) (simp add: Count_def)
  then show "Count r < MaxChannels (rLimits r) \<Longrightarrow>
      free_id (map fst (rChannels r)) (the (allocateLoop (map fst (rChannels r)) (nextChannelID r)))" by auto
  show "Issue mode lifetime now r =
    (if mode \<noteq> SecurityModeNone then Some (Inl (uacpError StatusBadSecurityModeRejected), r)
     else if Count r \<ge> MaxChannels (rLimits r) then Some (Inl (uacpError StatusBadTcpNotEnoughResources), r)
     else (let i = the (allocateLoop (map fst (rChannels r)) (nextChannelID r));
               t = fst (allocateTokenID r);
               c = \<lparr>chID = i, chMode = mode, chLimits = rLimits r,
                     chCurrent = \<lparr>SecureChannelID = i, TokenID = t, CreatedAt = now,
                       RevisedLifetime = reviseLifetime (rLimits r) lifetime\<rparr>,
                     chPrevious = None, chClosed = False\<rparr>
           in Some (Inr (snapshot c), r\<lparr>nextChannelID := i, nextTokenID := t,
                 rChannels := AList.update i c (rChannels r)\<rparr>)))"
    using room
    by (auto simp: Issue_def RequireSupportedSecurityMode_def allocateChannelID_def allocateTokenID_def
        Let_def not_le split: option.splits)
qed

lemma Renew_cases:
  assumes "registry_inv r"
  shows "Renew i lifetime now r = (case map_of (rChannels r) i of
      None \<Rightarrow> (Inl (uacpError StatusBadTcpSecureChannelUnknown), r)
    | Some c \<Rightarrow>
        let t = \<lparr>SecureChannelID = i, TokenID = fst (allocateTokenID r), CreatedAt = now,
              RevisedLifetime = reviseLifetime (rLimits r) lifetime\<rparr>
        in (Inr t, r\<lparr>nextTokenID := TokenID t,
             rChannels := AList.update i (c\<lparr>chPrevious := Some (chCurrent c), chCurrent := t\<rparr>) (rChannels r)\<rparr>))"
proof (cases "map_of (rChannels r) i")
  case None
  then show ?thesis by (simp add: Renew_def lookupLocked_inv [OF assms])
next
  case (Some c)
  then have "channel_ok (rLimits r) i c"
    using assms by (auto simp: registry_inv_def dest: table_wf_lookup)
  with Some show ?thesis
    by (simp add: Renew_def lookupLocked_inv [OF assms] channel_Renew_def channel_ok_def allocateTokenID_def Let_def)
qed

lemma allocateLoop_free: "allocateLoop taken next = Some i \<Longrightarrow> free_id taken i"
proof (erule allocateLoop.raw_induct [rotated])
  fix loop taken "next" i
  assume "\<And>taken next i. loop taken next = Some i \<Longrightarrow> free_id taken i"
    and "(let next' = next + 1 in if next' = 0 then loop taken next'
          else if next' \<in> set taken then loop taken next' else Some next') = Some i"
  then show "free_id taken i" by (auto simp: Let_def free_id_def split: if_splits)
qed

lemma Issue_inv:
  assumes "registry_inv r" and "Issue mode lifetime now r = Some (result, r')"
  shows "registry_inv r'"
proof (cases "r' = r")
  case True
  then show ?thesis using assms(1) by simp
next
  case False
  let ?c = "\<lambda>i. \<lparr>chID = i, chMode = mode, chLimits = rLimits r,
      chCurrent = \<lparr>SecureChannelID = i, TokenID = fst (allocateTokenID r), CreatedAt = now,
        RevisedLifetime = reviseLifetime (rLimits r) lifetime\<rparr>,
      chPrevious = None, chClosed = False\<rparr>"
  have m: "mode = SecurityModeNone" and n: "Count r < MaxChannels (rLimits r)"
    using assms(2) False
    by (auto simp: Issue_def RequireSupportedSecurityMode_def split: if_splits option.splits prod.splits)
  then obtain i where i: "allocateLoop (map fst (rChannels r)) (nextChannelID r) = Some i"
    and r': "r' = r\<lparr>nextChannelID := i, nextTokenID := fst (allocateTokenID r),
         rChannels := AList.update i (?c i) (rChannels r)\<rparr>"
    using assms(2) by (auto simp: Issue_def RequireSupportedSecurityMode_def allocateChannelID_def
        allocateTokenID_def Let_def not_le split: option.splits prod.splits)
  have "i \<noteq> 0" using allocateLoop_free [OF i] by (simp add: free_id_def)
  moreover have "fst (allocateTokenID r) \<noteq> 0" by (simp add: allocateTokenID_def Let_def)
  ultimately have "channel_ok (rLimits r) i (?c i)"
    using assms(1) m reviseLifetime_range [of "rLimits r" lifetime]
    by (simp add: channel_ok_def token_ok_def registry_inv_def)
  then show ?thesis unfolding r' using registry_inv_update assms(1) n by blast
qed

lemma Renew_inv:
  assumes "registry_inv r"
  shows "registry_inv (snd (Renew i lifetime now r))"
proof (cases "map_of (rChannels r) i")
  case None
  then show ?thesis using assms by (simp add: Renew_cases [OF assms])
next
  case (Some c)
  let ?t = "\<lparr>SecureChannelID = i, TokenID = fst (allocateTokenID r), CreatedAt = now,
      RevisedLifetime = reviseLifetime (rLimits r) lifetime\<rparr>"
  let ?c = "c\<lparr>chPrevious := Some (chCurrent c), chCurrent := ?t\<rparr>"
  have "channel_ok (rLimits r) i c" using assms Some by (auto simp: registry_inv_def dest: table_wf_lookup)
  moreover have "fst (allocateTokenID r) \<noteq> 0" by (simp add: allocateTokenID_def Let_def)
  ultimately have "channel_ok (rLimits r) i ?c"
    using assms reviseLifetime_range [of "rLimits r" lifetime]
    by (simp add: channel_ok_def token_ok_def registry_inv_def)
  from registry_inv_update [OF assms this, where a = "nextChannelID r" and b = "TokenID ?t"] Some show ?thesis
    by (simp add: Renew_cases [OF assms] Let_def)
qed

lemma AcceptToken_ok:
  assumes "channel_ok L i c"
  shows "channel_ok L i (snd (AcceptToken token now c))"
  using assms by (auto simp: AcceptToken_def channel_ok_def split: option.splits)

lemma Accept_cases:
  assumes "registry_inv r"
  shows "Accept i token now r = (case map_of (rChannels r) i of
      None \<Rightarrow> (Inl (uacpError StatusBadTcpSecureChannelUnknown), r)
    | Some c \<Rightarrow> ((case fst (AcceptToken token now c) of
            None \<Rightarrow> Inr (snapshot (snd (AcceptToken token now c))) | Some er \<Rightarrow> Inl er),
        r\<lparr>rChannels := AList.update i (snd (AcceptToken token now c)) (rChannels r)\<rparr>))"
  by (auto simp: Accept_def lookupLocked_inv [OF assms] Let_def split: prod.splits option.splits)

lemma Accept_inv:
  assumes "registry_inv r"
  shows "registry_inv (snd (Accept i token now r))"
proof (cases "map_of (rChannels r) i")
  case None
  then show ?thesis using assms by (simp add: Accept_cases [OF assms])
next
  case (Some c)
  then have "channel_ok (rLimits r) i c" using assms by (auto simp: registry_inv_def dest: table_wf_lookup)
  from registry_inv_update [OF assms AcceptToken_ok [OF this],
      where a = "nextChannelID r" and b = "nextTokenID r"] Some
  show ?thesis by (simp add: Accept_cases [OF assms])
qed

lemma registry_inv_fewer:
  assumes "registry_inv r" and "table_wf (channel_ok (rLimits r)) al" and "length al \<le> length (rChannels r)"
  shows "registry_inv (r\<lparr>rChannels := al\<rparr>)"
  using assms by (simp add: registry_inv_def Count_def)

lemma Close_inv: "registry_inv r \<Longrightarrow> registry_inv (snd (Close i r))"
  by (auto simp: Close_def split: option.splits
      intro!: registry_inv_fewer table_wf_delete length_delete_le, simp add: registry_inv_def)

lemma ExpireStale_inv: "registry_inv r \<Longrightarrow> registry_inv (snd (ExpireStale now r))"
  by (auto simp: ExpireStale_def intro!: registry_inv_fewer table_wf_filter, simp add: registry_inv_def)

interpretation channel_machine: state_machine registry_start registry_step registry_inv
proof unfold_locales
  show "registry_start s \<Longrightarrow> registry_inv s" for s
    by (auto simp: registry_start_def NewChannelRegistry_def registry_inv_def Count_def
        ChannelLimits_validate_def split: option.splits if_splits)
  show "registry_inv s \<Longrightarrow> registry_step s t \<Longrightarrow> registry_inv t" for s t
    by (erule registry_step.cases)
      (auto dest: Issue_inv, metis Renew_inv snd_conv, metis Accept_inv snd_conv,
       metis Close_inv snd_conv, metis ExpireStale_inv snd_conv)
qed

section \<open>Properties\<close>

text \<open>
  Claim C14: in every state the registry can reach, whatever the order of opens, renewals,
  incoming chunks, closes and expirations, it holds at most \<^verbatim>\<open>MaxChannels\<close> channels, each under
  its own non-zero identifier, open, with security mode None, and with tokens that name the
  channel, are not zero, and whose lifetime is within the configured range.
\<close>
theorem channel_registry_safe:
  assumes "reachable registry_start registry_step r"
  shows "Count r \<le> MaxChannels (rLimits r) \<and> distinct (map fst (rChannels r)) \<and>
    (\<forall>i c. map_of (rChannels r) i = Some c \<longrightarrow>
       i \<noteq> 0 \<and> chID c = i \<and> \<not> chClosed c \<and> chMode c = SecurityModeNone \<and>
       token_ok (rLimits r) i (chCurrent c) \<and> Lookup i r = Inr (snapshot c))"
proof -
  have inv: "registry_inv r" using assms by (rule channel_machine.reachable_inv)
  then have "map_of (rChannels r) i = Some c \<Longrightarrow> channel_ok (rLimits r) i c" for i c
    by (auto simp: registry_inv_def dest: table_wf_lookup)
  with inv show ?thesis
    by (auto simp: registry_inv_def channel_ok_def table_wf_def Lookup_def lookupLocked_inv [OF inv])
qed

definition registry_sample :: ChannelRegistry where
  "registry_sample = \<lparr>rLimits = DefaultChannelLimits, rChannels = [], nextChannelID = 41, nextTokenID = 7\<rparr>"

lemma registry_sample_start: "registry_start registry_sample"
  unfolding registry_start_def
  by (rule exI [of _ DefaultChannelLimits], rule exI [of _ 41], rule exI [of _ 7])
    (simp add: NewChannelRegistry_def registry_sample_def ChannelLimits_validate_def DefaultChannelLimits_def
      go_quot_nonneg timeMillisecond_def)

theorem channel_registry_safe_witness:
  "\<exists>info r. Issue SecurityModeNone 60000 0 registry_sample = Some (Inr info, r) \<and>
     Count r = 1 \<and> Count r \<le> MaxChannels (rLimits r) \<and> Lookup 42 r = Inr info"
proof -
  have "allocateLoop [] 41 = Some 42" by (subst allocateLoop.simps) simp
  then have i: "\<exists>info r. Issue SecurityModeNone 60000 0 registry_sample = Some (Inr info, r) \<and>
     Count r = 1 \<and> (\<exists>c. map_of (rChannels r) 42 = Some c \<and> info = snapshot c)"
    by (simp add: Issue_def RequireSupportedSecurityMode_def registry_sample_def Count_def DefaultChannelLimits_def
        allocateChannelID_def allocateTokenID_def Let_def)
  then obtain info r c where r: "Issue SecurityModeNone 60000 0 registry_sample = Some (Inr info, r)"
    "Count r = 1" "map_of (rChannels r) 42 = Some c" "info = snapshot c" by auto
  have "reachable registry_start registry_step r"
    using registry_step.issue [OF r(1)] registry_sample_start by (blast intro: reachable.intros)
  from channel_registry_safe [OF this] r show ?thesis by auto
qed

text \<open>
  The tokens with which a channel accepts a chunk at an instant: the current one, or the
  superseded one, before their expiry.
\<close>

definition live_token :: "SecureChannel \<Rightarrow> gotime \<Rightarrow> uint32 \<Rightarrow> bool" where
  "live_token c now t \<longleftrightarrow>
     (if t = TokenID (chCurrent c) then now < ExpiresAt (chCurrent c)
      else case chPrevious c of None \<Rightarrow> False | Some p \<Rightarrow> t = TokenID p \<and> now < ExpiresAt p)"

lemma AcceptToken_result:
  assumes "\<not> chClosed c"
  shows "fst (AcceptToken t now c) =
      (if live_token c now t then None else Some (uacpError StatusBadSecureChannelTokenUnknown))"
    and "live_token c now t \<Longrightarrow> snd (AcceptToken t now c) =
      (if t = TokenID (chCurrent c) then c\<lparr>chPrevious := None\<rparr> else c)"
  using assms by (auto simp: AcceptToken_def live_token_def expired_def split: option.splits if_splits)

lemma Accept_result:
  assumes "registry_inv r"
  shows "fst (Accept i t now r) = (case map_of (rChannels r) i of
      None \<Rightarrow> Inl (uacpError StatusBadTcpSecureChannelUnknown)
    | Some c \<Rightarrow> if live_token c now t then Inr (snapshot (snd (AcceptToken t now c)))
        else Inl (uacpError StatusBadSecureChannelTokenUnknown))"
proof (cases "map_of (rChannels r) i")
  case (Some c)
  then have "\<not> chClosed c" using assms by (auto simp: registry_inv_def channel_ok_def dest!: table_wf_lookup)
  with Some show ?thesis by (simp add: Accept_cases [OF assms] AcceptToken_result(1))
qed (simp add: Accept_cases [OF assms])

lemma Issue_opens:
  assumes inv: "registry_inv r" and "MaxChannels (rLimits r) < 2 ^ 32"
  shows "if mode \<noteq> SecurityModeNone
    then Issue mode lifetime now r = Some (Inl (uacpError StatusBadSecurityModeRejected), r)
    else if Count r \<ge> MaxChannels (rLimits r)
    then Issue mode lifetime now r = Some (Inl (uacpError StatusBadTcpNotEnoughResources), r)
    else \<exists>info r'. Issue mode lifetime now r = Some (Inr info, r') \<and>
      ciID info \<noteq> 0 \<and> map_of (rChannels r) (ciID info) = None \<and> Count r' = Count r + 1 \<and>
      Lookup (ciID info) r' = Inr info \<and> SecureChannelID (ciToken info) = ciID info \<and>
      (\<forall>t later. (\<exists>info'. fst (Accept (ciID info) t later r') = Inr info') \<longleftrightarrow>
         t = TokenID (ciToken info) \<and>
         later < now + uint (reviseLifetime (rLimits r) lifetime) * 10 ^ 6) \<and>
      (\<forall>j. j \<noteq> ciID info \<longrightarrow> Lookup j r' = Lookup j r)"
proof -
  note c = Issue_cases(1) [OF inv assms(2), of mode lifetime now] Issue_cases(2) [OF inv assms(2)]
  show ?thesis
  proof (cases "mode = SecurityModeNone \<and> Count r < MaxChannels (rLimits r)")
    case False
    then show ?thesis using c by auto
  next
    case True
    let ?i = "the (allocateLoop (map fst (rChannels r)) (nextChannelID r))"
    let ?c = "\<lparr>chID = ?i, chMode = mode, chLimits = rLimits r,
       chCurrent = \<lparr>SecureChannelID = ?i, TokenID = fst (allocateTokenID r), CreatedAt = now,
         RevisedLifetime = reviseLifetime (rLimits r) lifetime\<rparr>, chPrevious = None, chClosed = False\<rparr>"
    let ?r = "r\<lparr>nextChannelID := ?i, nextTokenID := fst (allocateTokenID r),
       rChannels := AList.update ?i ?c (rChannels r)\<rparr>"
    have issued: "Issue mode lifetime now r = Some (Inr (snapshot ?c), ?r)"
      using c(1) True by (simp add: Let_def)
    have free: "?i \<noteq> 0" "map_of (rChannels r) ?i = None"
      using c(2) True by (auto simp: free_id_def map_of_eq_None_iff)
    note inv' = Issue_inv [OF inv issued]
    have "(\<exists>info'. fst (Accept ?i t later ?r) = Inr info') \<longleftrightarrow> t = fst (allocateTokenID r) \<and>
        later < now + uint (reviseLifetime (rLimits r) lifetime) * 10 ^ 6" for t later
      unfolding Accept_result [OF inv'] by (simp add: update_conv' live_token_def ExpiresAt_eq)
    moreover have "Lookup ?i ?r = Inr (snapshot ?c)"
      by (simp add: Lookup_def lookupLocked_def update_conv')
    moreover have "j \<noteq> ?i \<Longrightarrow> Lookup j ?r = Lookup j r" for j
      by (simp add: Lookup_def lookupLocked_def update_conv')
    moreover have "Count ?r = Count r + 1" using free by (simp add: Count_def length_update)
    ultimately show ?thesis using issued free True
      by (simp add: snapshot_def PreviousToken_def)
  qed
qed

lemma Renew_opens:
  assumes inv: "registry_inv r" and c: "map_of (rChannels r) i = Some c"
  shows "\<exists>t r'. Renew i lifetime now r = (Inr t, r') \<and> SecureChannelID t = i \<and> registry_inv r' \<and>
    (\<forall>later. (\<exists>info. fst (Accept i (TokenID t) later r') = Inr info) \<longleftrightarrow>
       later < now + uint (reviseLifetime (rLimits r) lifetime) * 10 ^ 6)"
proof -
  obtain t r' where r: "Renew i lifetime now r = (Inr t, r')"
    using c by (simp add: Renew_cases [OF inv] Let_def)
  have inv': "registry_inv r'" using Renew_inv [OF inv, of i lifetime now] r by simp
  have "SecureChannelID t = i" using r c by (auto simp: Renew_cases [OF inv] Let_def)
  moreover have "(\<exists>info. fst (Accept i (TokenID t) later r') = Inr info) \<longleftrightarrow>
       later < now + uint (reviseLifetime (rLimits r) lifetime) * 10 ^ 6" for later
    using r c by (auto simp: Accept_result [OF inv'] Renew_cases [OF inv] Let_def update_conv' live_token_def
        ExpiresAt_eq split: if_splits)
  ultimately show ?thesis using r inv' by blast
qed

text \<open>
  Claim C31: an open request for security mode None, while fewer than \<^verbatim>\<open>MaxChannels\<close> channels
  are open, always returns, also when the identifier counter wraps around, with a channel
  identifier that no open channel has. The new channel then accepts chunks with its token
  exactly until the revised lifetime has passed, and no other token; every other channel is
  unchanged. Any other mode, or a full registry, is refused and changes nothing.
\<close>
theorem Issue_opens_channel:
  assumes "reachable registry_start registry_step r" and "MaxChannels (rLimits r) < 2 ^ 32"
  shows "if mode \<noteq> SecurityModeNone
    then Issue mode lifetime now r = Some (Inl (uacpError StatusBadSecurityModeRejected), r)
    else if Count r \<ge> MaxChannels (rLimits r)
    then Issue mode lifetime now r = Some (Inl (uacpError StatusBadTcpNotEnoughResources), r)
    else \<exists>info r'. Issue mode lifetime now r = Some (Inr info, r') \<and>
      ciID info \<noteq> 0 \<and> map_of (rChannels r) (ciID info) = None \<and> Count r' = Count r + 1 \<and>
      Lookup (ciID info) r' = Inr info \<and> SecureChannelID (ciToken info) = ciID info \<and>
      (\<forall>t later. (\<exists>info'. fst (Accept (ciID info) t later r') = Inr info') \<longleftrightarrow>
         t = TokenID (ciToken info) \<and>
         later < now + uint (reviseLifetime (rLimits r) lifetime) * 10 ^ 6) \<and>
      (\<forall>j. j \<noteq> ciID info \<longrightarrow> Lookup j r' = Lookup j r)"
  using Issue_opens [OF channel_machine.reachable_inv [OF assms(1)] assms(2)] .

theorem Issue_opens_channel_witness:
  "\<exists>info r'. Issue SecurityModeNone 60000 0 registry_sample = Some (Inr info, r') \<and>
     Lookup (ciID info) r' = Inr info \<and>
     (\<exists>info'. fst (Accept (ciID info) (TokenID (ciToken info)) 59999999999 r') = Inr info') \<and>
     \<not> (\<exists>info'. fst (Accept (ciID info) (TokenID (ciToken info)) 60000000000 r') = Inr info')"
proof -
  have r: "reachable registry_start registry_step registry_sample"
    using registry_sample_start by (rule reachable.initial)
  have L: "ChannelLimits_validate DefaultChannelLimits = None"
    by (simp add: ChannelLimits_validate_def DefaultChannelLimits_def go_quot_nonneg timeMillisecond_def)
  have "uint (reviseLifetime DefaultChannelLimits 60000) = 60000"
    unfolding reviseLifetime_eq [OF L] by (simp add: DefaultChannelLimits_def)
  moreover have "rLimits registry_sample = DefaultChannelLimits" "Count registry_sample = 0"
    "MaxChannels DefaultChannelLimits = 16"
    by (simp_all add: registry_sample_def DefaultChannelLimits_def Count_def)
  ultimately obtain info r' where "Issue SecurityModeNone 60000 0 registry_sample = Some (Inr info, r')"
    "Lookup (ciID info) r' = Inr info"
    "\<forall>t later. (\<exists>info'. fst (Accept (ciID info) t later r') = Inr info') \<longleftrightarrow>
       t = TokenID (ciToken info) \<and> later < 0 + 60000 * 10 ^ 6"
    using Issue_opens_channel [OF r, of SecurityModeNone 60000 0] by auto
  moreover from this(3) [rule_format, of "TokenID (ciToken info)" 59999999999]
    this(3) [rule_format, of "TokenID (ciToken info)" 60000000000]
  have "\<exists>info'. fst (Accept (ciID info) (TokenID (ciToken info)) 59999999999 r') = Inr info'"
    "\<not> (\<exists>info'. fst (Accept (ciID info) (TokenID (ciToken info)) 60000000000 r') = Inr info')"
    by simp_all
  ultimately show ?thesis by blast
qed

text \<open>
  Claim C30: a chunk is accepted exactly on a known channel with the current token before its
  expiry or the superseded token before its own; the use of the current token retires the
  superseded one; and no other channel is affected.
\<close>
theorem Accept_exact:
  assumes "reachable registry_start registry_step r"
  shows "(case map_of (rChannels r) i of
      None \<Rightarrow> Accept i t now r = (Inl (uacpError StatusBadTcpSecureChannelUnknown), r)
    | Some c \<Rightarrow>
        if live_token c now t
        then (let c' = (if t = TokenID (chCurrent c) then c\<lparr>chPrevious := None\<rparr> else c)
              in fst (Accept i t now r) = Inr (snapshot c') \<and>
                 Lookup i (snd (Accept i t now r)) = Inr (snapshot c'))
        else fst (Accept i t now r) = Inl (uacpError StatusBadSecureChannelTokenUnknown)) \<and>
    (\<forall>j. j \<noteq> i \<longrightarrow> Lookup j (snd (Accept i t now r)) = Lookup j r)"
proof -
  have inv: "registry_inv r" using assms by (rule channel_machine.reachable_inv)
  show ?thesis
  proof (cases "map_of (rChannels r) i")
    case None
    then show ?thesis by (simp add: Accept_cases [OF inv])
  next
    case (Some c)
    then have "\<not> chClosed c" using inv by (auto simp: registry_inv_def channel_ok_def dest!: table_wf_lookup)
    with Some AcceptToken_result [of c] show ?thesis
      by (auto simp: Accept_cases [OF inv] Lookup_def lookupLocked_def update_conv' Let_def)
  qed
qed

text \<open>
  Claim C32: after a renewal both tokens are accepted, each until its own expiry, as long as
  their identifiers differ; once a chunk has used the new token, the old one is refused.
\<close>
theorem Renew_keeps_old_token:
  assumes "reachable registry_start registry_step r" and "map_of (rChannels r) i = Some c"
    and "Renew i lifetime now r = (renewed, r')" and "TokenID (chCurrent c) \<noteq> fst (allocateTokenID r)"
  shows "\<exists>t. renewed = Inr t \<and> TokenID t = fst (allocateTokenID r) \<and> SecureChannelID t = i \<and>
    ((\<exists>info. fst (Accept i (TokenID t) later r') = Inr info) \<longleftrightarrow>
       later < now + uint (reviseLifetime (rLimits r) lifetime) * 10 ^ 6) \<and>
    ((\<exists>info. fst (Accept i (TokenID (chCurrent c)) later r') = Inr info) \<longleftrightarrow>
       later < ExpiresAt (chCurrent c)) \<and>
    (\<forall>info r''. Accept i (TokenID t) later r' = (Inr info, r'') \<longrightarrow>
       fst (Accept i (TokenID (chCurrent c)) even_later r'') = Inl (uacpError StatusBadSecureChannelTokenUnknown))"
proof -
  have inv: "registry_inv r" using assms(1) by (rule channel_machine.reachable_inv)
  let ?t = "\<lparr>SecureChannelID = i, TokenID = fst (allocateTokenID r), CreatedAt = now,
      RevisedLifetime = reviseLifetime (rLimits r) lifetime\<rparr>"
  let ?c = "c\<lparr>chPrevious := Some (chCurrent c), chCurrent := ?t\<rparr>"
  have r': "renewed = Inr ?t" "r' = r\<lparr>nextTokenID := TokenID ?t, rChannels := AList.update i ?c (rChannels r)\<rparr>"
    using assms(2,3) by (auto simp: Renew_cases [OF inv] Let_def)
  have inv': "registry_inv r'" using Renew_inv [OF inv, of i lifetime now] assms(3) by simp
  have m: "map_of (rChannels r') i = Some ?c" by (simp add: r' update_conv')
  have open_c: "\<not> chClosed ?c"
    using inv assms(2) by (auto simp: registry_inv_def channel_ok_def dest!: table_wf_lookup)
  have "fst (Accept i (TokenID (chCurrent c)) even_later r'') = Inl (uacpError StatusBadSecureChannelTokenUnknown)"
    if "Accept i (TokenID ?t) later r' = (Inr info, r'')" for info r''
  proof -
    have live: "live_token ?c later (TokenID ?t)"
      using that m Accept_result [OF inv', of i "TokenID ?t" later] by (auto split: if_splits)
    then have "map_of (rChannels r'') i = Some (?c\<lparr>chPrevious := None\<rparr>)"
      using that m AcceptToken_result(2) [OF open_c live]
      by (auto simp: Accept_cases [OF inv'] update_conv')
    moreover have "registry_inv r''" using Accept_inv [OF inv', of i "TokenID ?t" later] that by simp
    ultimately show ?thesis using assms(4) by (simp add: Accept_result live_token_def)
  qed
  moreover have "(\<exists>info. fst (Accept i (TokenID ?t) later r') = Inr info) \<longleftrightarrow>
       later < now + uint (reviseLifetime (rLimits r) lifetime) * 10 ^ 6"
    "(\<exists>info. fst (Accept i (TokenID (chCurrent c)) later r') = Inr info) \<longleftrightarrow> later < ExpiresAt (chCurrent c)"
    using assms(4) by (simp_all add: Accept_result [OF inv'] m live_token_def ExpiresAt_eq)
  ultimately show ?thesis using r'(1) by auto
qed

definition channel_sample :: SecureChannel where
  "channel_sample = \<lparr>chID = 42, chMode = SecurityModeNone, chLimits = DefaultChannelLimits,
     chCurrent = \<lparr>SecureChannelID = 42, TokenID = 8, CreatedAt = 0, RevisedLifetime = 60000\<rparr>,
     chPrevious = None, chClosed = False\<rparr>"

definition registry_one :: ChannelRegistry where
  "registry_one = registry_sample\<lparr>rChannels := [(42, channel_sample)], nextChannelID := 42, nextTokenID := 8\<rparr>"

lemma default_lifetime_60: "reviseLifetime DefaultChannelLimits 60000 = 60000"
  by (simp add: reviseLifetime_def DefaultChannelLimits_def timeMillisecond_def i64_nonneg MaxInt64_def go_quot_nonneg)

lemma registry_one_issued: "Issue SecurityModeNone 60000 0 registry_sample = Some (Inr (snapshot channel_sample), registry_one)"
proof -
  have a: "allocateLoop [] 41 = Some 42" by (subst allocateLoop.simps) simp
  have "rLimits registry_sample = DefaultChannelLimits" "Count registry_sample = 0"
    "MaxChannels DefaultChannelLimits = 16" "rChannels registry_sample = []"
    "nextChannelID registry_sample = 41" "nextTokenID registry_sample = 7"
    by (simp_all add: registry_sample_def DefaultChannelLimits_def Count_def)
  then show ?thesis
    by (simp add: Issue_def RequireSupportedSecurityMode_def allocateChannelID_def allocateTokenID_def a
        default_lifetime_60 channel_sample_def registry_one_def Let_def)
qed

lemma registry_one_reachable: "reachable registry_start registry_step registry_one"
  using registry_step.issue [OF registry_one_issued] registry_sample_start by (blast intro: reachable.intros)

lemma registry_one_channel: "map_of (rChannels registry_one) 42 = Some channel_sample"
  by (simp add: registry_one_def)

theorem Accept_exact_witness:
  "fst (Accept 42 8 59999999999 registry_one) = Inr (snapshot channel_sample) \<and>
   fst (Accept 42 9 59999999999 registry_one) = Inl (uacpError StatusBadSecureChannelTokenUnknown)"
proof -
  have "live_token channel_sample 59999999999 8" "\<not> live_token channel_sample 59999999999 9"
    "TokenID (chCurrent channel_sample) = 8" "channel_sample\<lparr>chPrevious := None\<rparr> = channel_sample"
    by (simp_all add: live_token_def channel_sample_def ExpiresAt_eq)
  then show ?thesis
    using Accept_exact [OF registry_one_reachable, of 42 8 59999999999]
      Accept_exact [OF registry_one_reachable, of 42 9 59999999999]
    by (simp add: registry_one_channel Let_def)
qed

theorem Renew_keeps_old_token_witness:
  "\<exists>t r'. Renew 42 60000 30000000000 registry_one = (Inr t, r') \<and> TokenID t = 9 \<and>
     (\<exists>info. fst (Accept 42 9 59999999999 r') = Inr info) \<and>
     (\<exists>info. fst (Accept 42 8 59999999999 r') = Inr info)"
proof -
  obtain renewed r' where r: "Renew 42 60000 30000000000 registry_one = (renewed, r')" by fastforce
  have f: "fst (allocateTokenID registry_one) = 9" "TokenID (chCurrent channel_sample) = 8"
    "rLimits registry_one = DefaultChannelLimits" "ExpiresAt (chCurrent channel_sample) = 60000 * 10 ^ 6"
    by (simp_all add: allocateTokenID_def registry_one_def registry_sample_def channel_sample_def ExpiresAt_eq)
  from Renew_keeps_old_token [OF registry_one_reachable registry_one_channel r, of 59999999999 59999999999] r
  show ?thesis by (auto simp: f default_lifetime_60)
qed

text \<open>
  Expiring removes exactly the channels none of whose tokens is still live, reports
  their number, and leaves every other channel as it was; a channel closed by its client is
  unknown from then on.
\<close>
theorem reclaim_exact:
  assumes "reachable registry_start registry_step r"
  shows "(\<forall>i. Lookup i (snd (ExpireStale now r)) =
      (case map_of (rChannels r) i of
         None \<Rightarrow> Inl (uacpError StatusBadTcpSecureChannelUnknown)
       | Some c \<Rightarrow> if now < ExpiresAt (chCurrent c) \<or> (\<exists>p. chPrevious c = Some p \<and> now < ExpiresAt p)
           then Inr (snapshot c) else Inl (uacpError StatusBadTcpSecureChannelUnknown))) \<and>
    fst (ExpireStale now r) = Count r - Count (snd (ExpireStale now r)) \<and>
    (\<forall>i. Lookup i (snd (Close i r)) = Inl (uacpError StatusBadTcpSecureChannelUnknown))"
proof -
  have inv: "registry_inv r" using assms by (rule channel_machine.reachable_inv)
  then have d: "distinct (map fst (rChannels r))" by (auto simp: registry_inv_def dest: table_wf_distinct)
  have e: "\<not> Expired now c \<longleftrightarrow> now < ExpiresAt (chCurrent c) \<or> (\<exists>p. chPrevious c = Some p \<and> now < ExpiresAt p)"
    for c by (auto simp: Expired_def expired_def split: option.splits)
  have "Lookup i (snd (ExpireStale now r)) = (case map_of (rChannels r) i of
         None \<Rightarrow> Inl (uacpError StatusBadTcpSecureChannelUnknown)
       | Some c \<Rightarrow> if \<not> Expired now c then Inr (snapshot c)
           else Inl (uacpError StatusBadTcpSecureChannelUnknown))" for i
    using ExpireStale_inv [OF inv, of now]
    by (auto simp: Lookup_def lookupLocked_inv ExpireStale_def map_of_filter [OF d] split: option.splits)
  moreover have "fst (ExpireStale now r) = Count r - Count (snd (ExpireStale now r))"
    using sum_length_filter_compl [of "\<lambda>p. Expired now (snd p)" "rChannels r"]
    by (simp add: ExpireStale_def Count_def case_prod_unfold)
  moreover have "Lookup i (snd (Close i r)) = Inl (uacpError StatusBadTcpSecureChannelUnknown)" for i
    by (auto simp: Lookup_def lookupLocked_def Close_def delete_conv' split: option.splits)
  ultimately show ?thesis unfolding e by simp
qed

theorem reclaim_exact_witness:
  "Lookup 42 (snd (ExpireStale 59999999999 registry_one)) = Inr (snapshot channel_sample) \<and>
   Lookup 42 (snd (ExpireStale 60000000000 registry_one)) = Inl (uacpError StatusBadTcpSecureChannelUnknown)"
proof -
  have "ExpiresAt (chCurrent channel_sample) = 60000000000" "chPrevious channel_sample = None"
    by (simp_all add: channel_sample_def ExpiresAt_eq)
  then show ?thesis
    using reclaim_exact [OF registry_one_reachable, of 59999999999]
      reclaim_exact [OF registry_one_reachable, of 60000000000]
    by (auto simp: registry_one_channel)
qed

text \<open>
  Under valid limits the revised lifetime is the requested one clamped into the
  configured range, in whole milliseconds and without wrap-around; it is zero exactly when
  zero is requested and the configured minimum is below one millisecond, or the maximum is.
\<close>
theorem reviseLifetime_exact:
  assumes "ChannelLimits_validate L = None"
  shows "uint (reviseLifetime L q) = min (max (uint q * 10 ^ 6) (MinLifetime L)) (MaxLifetime L) div 10 ^ 6 \<and>
    (reviseLifetime L q = 0 \<longleftrightarrow> (q = 0 \<and> MinLifetime L < 10 ^ 6) \<or> MaxLifetime L < 10 ^ 6)"
proof -
  note eq = reviseLifetime_eq [OF assms, of q]
  have L: "0 < MinLifetime L" "MinLifetime L \<le> MaxLifetime L"
    using assms by (auto simp: ChannelLimits_validate_def split: if_splits)
  have z: "0 \<le> x \<Longrightarrow> x div 10 ^ 6 = 0 \<longleftrightarrow> x < 10 ^ 6" for x :: int by auto
  have q: "0 < uint q \<longleftrightarrow> q \<noteq> 0" using uint_0_iff [of q] by (simp add: less_le)
  have "reviseLifetime L q = 0 \<longleftrightarrow> uint (reviseLifetime L q) = 0" by (simp add: uint_0_iff)
  also have "\<dots> \<longleftrightarrow> min (max (uint q * 10 ^ 6) (MinLifetime L)) (MaxLifetime L) < 10 ^ 6"
    unfolding eq using L by (intro z) auto
  also have "\<dots> \<longleftrightarrow> (q = 0 \<and> MinLifetime L < 10 ^ 6) \<or> MaxLifetime L < 10 ^ 6"
    using q L by (auto simp: min_less_iff_disj)
  finally show ?thesis using eq by simp
qed

theorem reviseLifetime_exact_witness:
  "reviseLifetime \<lparr>MinLifetime = 1, MaxLifetime = 10 ^ 9, MaxChannels = 1\<rparr> 0 = 0 \<and>
   uint (reviseLifetime \<lparr>MinLifetime = 1, MaxLifetime = 10 ^ 9, MaxChannels = 1\<rparr> 5000) = 1000"
proof -
  let ?L = "\<lparr>MinLifetime = 1, MaxLifetime = 10 ^ 9, MaxChannels = 1\<rparr>"
  have "ChannelLimits_validate ?L = None"
    by (simp add: ChannelLimits_validate_def timeMillisecond_def go_quot_nonneg)
  from reviseLifetime_exact [OF this, of 0] reviseLifetime_exact [OF this, of 5000] show ?thesis by simp
qed

end
