(* ===== verification/Services.thy ===== *)
theory Services
  imports Channels Variants
begin

text \<open>
  The secure channel services, \<^verbatim>\<open>src/internal/opcua/service.go\<close>: the type prefix of a service
  message, the OpenSecureChannel, CloseSecureChannel and ServiceFault messages, and
  \<^verbatim>\<open>ChannelService\<close>, which applies a decoded request to the registry of channels.
\<close>

section \<open>The type of a message\<close>

definition ServiceFaultEncodingID :: uint32 where "ServiceFaultEncodingID = 397"
definition OpenSecureChannelRequestEncodingID :: uint32 where "OpenSecureChannelRequestEncodingID = 446"
definition OpenSecureChannelResponseEncodingID :: uint32 where "OpenSecureChannelResponseEncodingID = 449"
definition CloseSecureChannelRequestEncodingID :: uint32 where "CloseSecureChannelRequestEncodingID = 452"
definition CloseSecureChannelResponseEncodingID :: uint32 where "CloseSecureChannelResponseEncodingID = 455"

definition StatusBadServiceUnsupported :: StatusCode where "StatusBadServiceUnsupported = 0x800B0000"

definition WriteServiceTypeID :: "uint32 \<Rightarrow> Encoder \<Rightarrow> Encoder" where
  "WriteServiceTypeID identifier = WriteNodeID (NumericNodeID 0 identifier)"

definition ReadServiceTypeID :: "uint32 reader" where
  "ReadServiceTypeID = rbind ReadNodeID (\<lambda>typeID.
     if Namespace typeID \<noteq> 0 \<or> Type typeID \<noteq> NodeIDTypeNumeric
     then rfail (uacpError StatusBadServiceUnsupported)
     else rreturn (Numeric typeID))"

section \<open>Messages\<close>

record OpenSecureChannelRequest =
  oqHeader :: RequestHeader
  ClientProtocolVersion :: uint32
  RequestType :: TokenRequestType
  oqSecurityMode :: SecurityMode
  ClientNonce :: "byte list"
  RequestedLifetime :: uint32

record OpenSecureChannelResponse =
  opHeader :: ResponseHeader
  ServerProtocolVersion :: uint32
  SecurityToken :: ChannelSecurityToken
  ServerNonce :: "byte list option"

text \<open>The close messages and the fault carry a header only.\<close>

record CloseSecureChannelRequest = cqHeader :: RequestHeader
record CloseSecureChannelResponse = cpHeader :: ResponseHeader
record ServiceFault = sfHeader :: ResponseHeader

definition WriteOpenSecureChannelRequest :: "OpenSecureChannelRequest \<Rightarrow> Encoder \<Rightarrow> Encoder" where
  "WriteOpenSecureChannelRequest q = seqw
     [WriteServiceTypeID OpenSecureChannelRequestEncodingID,
      WriteRequestHeader (oqHeader q),
      WriteUInt32 (ClientProtocolVersion q),
      WriteInt32 (RequestType q),
      WriteInt32 (oqSecurityMode q),
      WriteByteString (ClientNonce q),
      WriteUInt32 (RequestedLifetime q)]"

definition ReadOpenSecureChannelRequest :: "OpenSecureChannelRequest reader" where
  "ReadOpenSecureChannelRequest =
     rbind ReadRequestHeader (\<lambda>header.
     rbind ReadUInt32 (\<lambda>version.
     rbind ReadInt32 (\<lambda>requestType.
       if requestType \<noteq> TokenRequestIssue \<and> requestType \<noteq> TokenRequestRenew
       then rfail (uacpError StatusBadSecurityChecksFailed)
       else
     rbind ReadInt32 (\<lambda>securityMode.
       if sint securityMode < sint SecurityModeInvalid \<or> sint securityMode > sint SecurityModeSignAndEncrypt
       then rfail (uacpError StatusBadSecurityChecksFailed)
       else
     rbind (orEmpty ReadByteString) (\<lambda>nonce.
     rbind ReadUInt32 (\<lambda>lifetime.
     rreturn \<lparr>oqHeader = header, ClientProtocolVersion = version, RequestType = requestType,
       oqSecurityMode = securityMode, ClientNonce = nonce, RequestedLifetime = lifetime\<rparr>))))))"

definition WriteOpenSecureChannelResponse :: "OpenSecureChannelResponse \<Rightarrow> Encoder \<Rightarrow> Encoder" where
  "WriteOpenSecureChannelResponse p = seqw
     [WriteServiceTypeID OpenSecureChannelResponseEncodingID,
      WriteResponseHeader (opHeader p),
      WriteUInt32 (ServerProtocolVersion p),
      WriteUInt32 (SecureChannelID (SecurityToken p)),
      WriteUInt32 (TokenID (SecurityToken p)),
      WriteDateTime (CreatedAt (SecurityToken p)),
      WriteUInt32 (RevisedLifetime (SecurityToken p)),
      case ServerNonce p of None \<Rightarrow> WriteNullByteString | Some nonce \<Rightarrow> WriteByteString nonce]"

definition ReadOpenSecureChannelResponse :: "OpenSecureChannelResponse reader" where
  "ReadOpenSecureChannelResponse =
     rbind ReadResponseHeader (\<lambda>header.
     rbind ReadUInt32 (\<lambda>version.
     rbind ReadUInt32 (\<lambda>channel.
     rbind ReadUInt32 (\<lambda>token.
     rbind ReadDateTime (\<lambda>created.
     rbind ReadUInt32 (\<lambda>lifetime.
     rbind ReadByteString (\<lambda>nonce.
     rreturn \<lparr>opHeader = header, ServerProtocolVersion = version,
       SecurityToken = \<lparr>SecureChannelID = channel, TokenID = token, CreatedAt = created,
         RevisedLifetime = lifetime\<rparr>,
       ServerNonce = nonce\<rparr>)))))))"

definition WriteCloseSecureChannelRequest :: "CloseSecureChannelRequest \<Rightarrow> Encoder \<Rightarrow> Encoder" where
  "WriteCloseSecureChannelRequest q = seqw
     [WriteServiceTypeID CloseSecureChannelRequestEncodingID, WriteRequestHeader (cqHeader q)]"

definition ReadCloseSecureChannelRequest :: "CloseSecureChannelRequest reader" where
  "ReadCloseSecureChannelRequest = rbind ReadRequestHeader (\<lambda>header. rreturn \<lparr>cqHeader = header\<rparr>)"

definition WriteCloseSecureChannelResponse :: "CloseSecureChannelResponse \<Rightarrow> Encoder \<Rightarrow> Encoder" where
  "WriteCloseSecureChannelResponse p = seqw
     [WriteServiceTypeID CloseSecureChannelResponseEncodingID, WriteResponseHeader (cpHeader p)]"

definition WriteServiceFault :: "ServiceFault \<Rightarrow> Encoder \<Rightarrow> Encoder" where
  "WriteServiceFault f = seqw [WriteServiceTypeID ServiceFaultEncodingID, WriteResponseHeader (sfHeader f)]"

definition plain_response :: "gotime \<Rightarrow> uint32 \<Rightarrow> StatusCode \<Rightarrow> ResponseHeader" where
  "plain_response now handle result = \<lparr>rsTimestamp = now, rsRequestHandle = handle, ServiceResult = result,
     ServiceDiagnostics = zeroDiagnosticInfo, StringTable = None, rsAdditionalHeader = NullExtensionObject\<rparr>"

definition NewServiceFault :: "uint32 \<Rightarrow> StatusCode \<Rightarrow> gotime \<Rightarrow> ServiceFault" where
  "NewServiceFault requestHandle result now = \<lparr>sfHeader = plain_response now requestHandle result\<rparr>"

section \<open>The channel service\<close>

text \<open>
  \<^verbatim>\<open>ChannelService\<close> is the Hello's version beside a registry, which each operation returns
  updated; \<open>None\<close> stands for a call that does not return.
\<close>

definition OpenSecureChannel :: "uint32 \<Rightarrow> OpenSecureChannelRequest \<Rightarrow> uint32 \<Rightarrow> gotime \<Rightarrow> ChannelRegistry \<Rightarrow>
    ((go_error + OpenSecureChannelResponse) \<times> ChannelRegistry) option" where
  "OpenSecureChannel hello q existingChannelID now r =
     (let respond = (\<lambda>token. \<lparr>opHeader = plain_response now (rqRequestHandle (oqHeader q)) StatusGood,
            ServerProtocolVersion = hello, SecurityToken = token, ServerNonce = None\<rparr>)
      in case RequireProtocolVersion hello (ClientProtocolVersion q) of
           Some er \<Rightarrow> Some (Inl er, r)
         | None \<Rightarrow>
             if RequestType q = TokenRequestIssue then
               (case Issue (oqSecurityMode q) (RequestedLifetime q) now r of
                  None \<Rightarrow> None
                | Some (Inl er, r') \<Rightarrow> Some (Inl er, r')
                | Some (Inr channel, r') \<Rightarrow> Some (Inr (respond (ciToken channel)), r'))
             else if RequestType q = TokenRequestRenew then
               (if existingChannelID = 0 then Some (Inl (uacpError StatusBadSecureChannelIDInvalid), r)
                else case Lookup existingChannelID r of
                    Inl er \<Rightarrow> Some (Inl er, r)
                  | Inr channel \<Rightarrow>
                      if oqSecurityMode q \<noteq> ciSecurityMode channel
                      then Some (Inl (uacpError StatusBadSecurityModeRejected), r)
                      else (case Renew existingChannelID (RequestedLifetime q) now r of
                          (Inl er, r') \<Rightarrow> Some (Inl er, r')
                        | (Inr token, r') \<Rightarrow> Some (Inr (respond token), r')))
             else Some (Inl (uacpError StatusBadSecurityChecksFailed), r))"

definition CloseSecureChannel :: "CloseSecureChannelRequest \<Rightarrow> uint32 \<Rightarrow> gotime \<Rightarrow> ChannelRegistry \<Rightarrow>
    (go_error + CloseSecureChannelResponse) \<times> ChannelRegistry" where
  "CloseSecureChannel q channelID now r = (case Close channelID r of
       (Some er, r') \<Rightarrow> (Inl er, r')
     | (None, r') \<Rightarrow> (Inr \<lparr>cpHeader = plain_response now (rqRequestHandle (cqHeader q)) StatusGood\<rparr>, r'))"

section \<open>Laws of the messages\<close>

definition service_wire :: "uint32 \<Rightarrow> byte list" where
  "service_wire identifier = nodeid_wire 0 (NumericNodeID 0 identifier)"

text \<open>What a receiver does: read the type, and the body when it is the expected one.\<close>

definition read_service :: "uint32 \<Rightarrow> 'a reader \<Rightarrow> 'a reader" where
  "read_service identifier body = rbind ReadServiceTypeID (\<lambda>t.
     if t = identifier then body else rfail (uacpError StatusBadServiceUnsupported))"

text \<open>A whole message is read: its type, then its body, to the last byte.\<close>

definition decodes_as :: "BinaryLimits \<Rightarrow> byte list \<Rightarrow> uint32 \<Rightarrow> 'a reader \<Rightarrow> 'a \<Rightarrow> bool" where
  "decodes_as L bs identifier body v \<longleftrightarrow> (\<exists>d d1 d2. NewDecoder bs L = Inr d \<and>
     ReadServiceTypeID d = Inr (identifier, d1) \<and> body d1 = Inr (v, d2) \<and> Done d2)"

lemma decodes_asI:
  assumes "\<exists>d d'. NewDecoder bs L = Inr d \<and> read_service identifier body d = Inr (v, d') \<and> Done d'"
  shows "decodes_as L bs identifier body v"
  using assms
  by (fastforce simp: decodes_as_def read_service_def rbind_def rfail_def split: sum.splits if_splits)

lemma emits_WriteServiceTypeID [emits_intros]:
  "emits L (WriteServiceTypeID identifier) True (service_wire identifier)"
  unfolding WriteServiceTypeID_def service_wire_def
  by (rule emits_cong [OF nodeid_codec.wr_emits]) (simp_all add: nodeid_ok_def NumericNodeID_def)

lemma parses_service [parses_steps]:
  assumes "validate_limits L = None" and "parses L body bs v"
  shows "parses L (read_service identifier body) (service_wire identifier @ bs) v"
proof -
  have "parses L ReadNodeID (service_wire identifier) (NumericNodeID 0 identifier)"
    unfolding service_wire_def
    using nodeid_codec.rd_parses [OF assms(1), of "NumericNodeID 0 identifier"]
    by (simp add: nodeid_ok_def nodeid_norm_def NumericNodeID_def)
  then have "parses L ReadServiceTypeID (service_wire identifier) identifier"
    unfolding ReadServiceTypeID_def
    by (rule parses_rbind_return) (simp add: NumericNodeID_def zeroNodeID_def)
  then show ?thesis
    unfolding read_service_def by (rule parses_rbind) (simp add: assms(2))
qed

lemma within_read_service [within_intros]: "within body \<Longrightarrow> within (read_service identifier body)"
  unfolding read_service_def ReadServiceTypeID_def uacpError_def by (intro within_intros) auto

lemmas message_emits [emits_intros] = request_header_codec.wr_emits response_header_codec.wr_emits
lemmas message_within [within_intros] = request_header_codec.rd_within response_header_codec.rd_within
lemmas message_steps [parses_steps] =
  request_header_codec.rd_parses [THEN parses_rbind] response_header_codec.rd_parses [THEN parses_rbind]
  request_header_codec.rd_parses [THEN parses_rbind_last] response_header_codec.rd_parses [THEN parses_rbind_last]

lemma parses_guard [parses_steps]:
  "\<not> c \<Longrightarrow> parses L r bs v \<Longrightarrow> parses L (if c then rfail er else r) bs v"
  by simp

text \<open>A ByteString that may be null.\<close>

definition nonce_wire :: "byte list option \<Rightarrow> byte list" where
  "nonce_wire n = (case n of None \<Rightarrow> le_bytes 4 nullLength | Some b \<Rightarrow> lenbytes_wire b)"

definition nonce_ok :: "BinaryLimits \<Rightarrow> byte list option \<Rightarrow> bool" where
  "nonce_ok L n = (case n of None \<Rightarrow> True | Some b \<Rightarrow> bytestring_ok L b)"

lemma emits_nonce [emits_intros]:
  "emits L (case n of None \<Rightarrow> WriteNullByteString | Some b \<Rightarrow> WriteByteString b) (nonce_ok L n) (nonce_wire n)"
  by (auto simp: nonce_ok_def nonce_wire_def emits_nulls emits_WriteByteString split: option.split)

lemma parses_nonce:
  assumes "validate_limits L = None" and "nonce_ok L n"
  shows "parses L ReadByteString (nonce_wire n) n"
  using assms by (cases n) (auto simp: nonce_ok_def nonce_wire_def intro: parses_intros)

lemmas nonce_steps [parses_steps] = parses_nonce [THEN parses_rbind] parses_nonce [THEN parses_rbind_last]

definition open_request_wire :: "OpenSecureChannelRequest \<Rightarrow> byte list" where
  "open_request_wire q = service_wire OpenSecureChannelRequestEncodingID @
     request_header_wire (oqHeader q) @ le_bytes 4 (ClientProtocolVersion q) @
     le_bytes 4 (RequestType q) @ le_bytes 4 (oqSecurityMode q) @
     lenbytes_wire (ClientNonce q) @ le_bytes 4 (RequestedLifetime q)"

definition open_request_ok :: "BinaryLimits \<Rightarrow> OpenSecureChannelRequest \<Rightarrow> bool" where
  "open_request_ok L q \<longleftrightarrow> request_header_ok L (oqHeader q) \<and> bytestring_ok L (ClientNonce q)"

definition open_request_norm :: "OpenSecureChannelRequest \<Rightarrow> OpenSecureChannelRequest" where
  "open_request_norm q = q\<lparr>oqHeader := request_header_norm (oqHeader q)\<rparr>"

definition open_request_readable :: "BinaryLimits \<Rightarrow> OpenSecureChannelRequest \<Rightarrow> bool" where
  "open_request_readable L q \<longleftrightarrow> (RequestType q = TokenRequestIssue \<or> RequestType q = TokenRequestRenew) \<and>
     oqSecurityMode q \<le> SecurityModeSignAndEncrypt"

lemma sint_small32:
  fixes w :: "32 word"
  assumes "uint w \<le> MaxInt32"
  shows "sint w = uint w"
  using sint_of_nat32 [of "unat w"] assms by simp

lemma security_mode_range:
  assumes "m \<le> SecurityModeSignAndEncrypt"
  shows "\<not> (sint m < sint SecurityModeInvalid \<or> sint m > sint SecurityModeSignAndEncrypt)"
proof -
  have "uint m \<le> 3" using assms by (simp add: SecurityModeSignAndEncrypt_def word_le_def)
  then show ?thesis
    using sint_small32 [of m] by (simp add: MaxInt32_def SecurityModeInvalid_def SecurityModeSignAndEncrypt_def)
qed

interpretation open_request_codec: ua_codec_on WriteOpenSecureChannelRequest
  "read_service OpenSecureChannelRequestEncodingID ReadOpenSecureChannelRequest"
  open_request_wire open_request_ok open_request_norm open_request_readable
proof unfold_locales
  show "emits L (WriteOpenSecureChannelRequest q) (open_request_ok L q) (open_request_wire q)" for L q
    unfolding WriteOpenSecureChannelRequest_def
    by (rule emits_cong, (rule emits_intros)+) (auto simp: open_request_ok_def open_request_wire_def)
  show "parses L (read_service OpenSecureChannelRequestEncodingID ReadOpenSecureChannelRequest)
      (open_request_wire q) (open_request_norm q)"
    if L: "validate_limits L = None" and ok: "open_request_ok L q" and "open_request_readable L q" for L q
  proof -
    have t: "\<not> (RequestType q \<noteq> TokenRequestIssue \<and> RequestType q \<noteq> TokenRequestRenew)"
      and m: "\<not> (sint (oqSecurityMode q) < sint SecurityModeInvalid \<or>
        sint (oqSecurityMode q) > sint SecurityModeSignAndEncrypt)"
      using that(3) security_mode_range by (auto simp: open_request_readable_def)
    show ?thesis
      unfolding ReadOpenSecureChannelRequest_def open_request_wire_def
      by (intro parses_steps)
        (use L ok t m in \<open>simp_all add: open_request_ok_def open_request_norm_def\<close>)
  qed
  show "within (read_service OpenSecureChannelRequestEncodingID ReadOpenSecureChannelRequest)"
    unfolding ReadOpenSecureChannelRequest_def uacpError_def by (intro within_intros)
qed

definition open_response_wire :: "OpenSecureChannelResponse \<Rightarrow> byte list" where
  "open_response_wire p = service_wire OpenSecureChannelResponseEncodingID @
     response_header_wire (opHeader p) @ le_bytes 4 (ServerProtocolVersion p) @
     le_bytes 4 (SecureChannelID (SecurityToken p)) @ le_bytes 4 (TokenID (SecurityToken p)) @
     le_bytes 8 (EncodeDateTime (CreatedAt (SecurityToken p))) @
     le_bytes 4 (RevisedLifetime (SecurityToken p)) @ nonce_wire (ServerNonce p)"

definition open_response_ok :: "BinaryLimits \<Rightarrow> OpenSecureChannelResponse \<Rightarrow> bool" where
  "open_response_ok L p \<longleftrightarrow> response_header_ok L (opHeader p) \<and> nonce_ok L (ServerNonce p)"

definition open_response_norm :: "OpenSecureChannelResponse \<Rightarrow> OpenSecureChannelResponse" where
  "open_response_norm p = p\<lparr>opHeader := response_header_norm (opHeader p),
     SecurityToken := (SecurityToken p)\<lparr>CreatedAt := datetime_norm (CreatedAt (SecurityToken p))\<rparr>\<rparr>"

interpretation open_response_codec: ua_codec WriteOpenSecureChannelResponse
  "read_service OpenSecureChannelResponseEncodingID ReadOpenSecureChannelResponse"
  open_response_wire open_response_ok open_response_norm
proof unfold_locales
  show "emits L (WriteOpenSecureChannelResponse p) (open_response_ok L p) (open_response_wire p)" for L p
    unfolding WriteOpenSecureChannelResponse_def
    by (rule emits_cong, (rule emits_intros)+) (auto simp: open_response_ok_def open_response_wire_def)
  show "parses L (read_service OpenSecureChannelResponseEncodingID ReadOpenSecureChannelResponse)
      (open_response_wire p) (open_response_norm p)"
    if "validate_limits L = None" and "open_response_ok L p" for L p
    unfolding ReadOpenSecureChannelResponse_def open_response_wire_def
    by (intro parses_steps) (use that in \<open>simp_all add: open_response_ok_def open_response_norm_def\<close>)
  show "within (read_service OpenSecureChannelResponseEncodingID ReadOpenSecureChannelResponse)"
    unfolding ReadOpenSecureChannelResponse_def by (intro within_intros)
qed

interpretation close_request_codec: ua_codec WriteCloseSecureChannelRequest
  "read_service CloseSecureChannelRequestEncodingID ReadCloseSecureChannelRequest"
  "\<lambda>q. service_wire CloseSecureChannelRequestEncodingID @ request_header_wire (cqHeader q)"
  "\<lambda>L q. request_header_ok L (cqHeader q)" "\<lambda>q. q\<lparr>cqHeader := request_header_norm (cqHeader q)\<rparr>"
proof unfold_locales
  show "emits L (WriteCloseSecureChannelRequest q) (request_header_ok L (cqHeader q))
      (service_wire CloseSecureChannelRequestEncodingID @ request_header_wire (cqHeader q))" for L q
    unfolding WriteCloseSecureChannelRequest_def by (rule emits_cong, (rule emits_intros)+) auto
  show "parses L (read_service CloseSecureChannelRequestEncodingID ReadCloseSecureChannelRequest)
      (service_wire CloseSecureChannelRequestEncodingID @ request_header_wire (cqHeader q))
      (q\<lparr>cqHeader := request_header_norm (cqHeader q)\<rparr>)"
    if "validate_limits L = None" and "request_header_ok L (cqHeader q)" for L q
    unfolding ReadCloseSecureChannelRequest_def by (intro parses_steps) (use that in \<open>simp_all\<close>)
  show "within (read_service CloseSecureChannelRequestEncodingID ReadCloseSecureChannelRequest)"
    unfolding ReadCloseSecureChannelRequest_def by (intro within_intros)
qed

text \<open>The arrays of results and diagnostics that most responses end with.\<close>

lemma diag_wire_nonempty: "1 \<le> int (length (diag_wire v))"
  by (cases v) (simp add: diag_wire.simps)

interpretation diag_array: ua_array WriteDiagnosticInfo ReadDiagnosticInfo diag_wire "\<lambda>L. diag_ok L 0" diag_norm 1
  by unfold_locales (rule diag_wire_nonempty)

interpretation statuscode_array: ua_array WriteStatusCode ReadStatusCode "le_bytes 4" always_ok id 4
  by unfold_locales simp

interpretation uint32_array: ua_array WriteUInt32 ReadUInt32 "le_bytes 4" always_ok id 4
  by unfold_locales simp

lemmas result_emits [emits_intros] =
  diag_array.array_emits statuscode_array.array_emits uint32_array.array_emits
lemmas result_steps [parses_steps] =
  diag_array.list_parses [THEN parses_rbind] diag_array.list_parses [THEN parses_rbind_last]
  statuscode_array.list_parses [unfolded list.map_id0 id_apply, THEN parses_rbind]
  uint32_array.list_parses [unfolded list.map_id0 id_apply, THEN parses_rbind]
  uint32_array.list_parses [unfolded list.map_id0 id_apply, THEN parses_rbind_last]

section \<open>Properties\<close>

text \<open>
  What a client writes as an OpenSecureChannel request with a defined request type
  and security mode is read back by the server, type prefix included, to the last byte; the
  response the server writes is read back by the client, with its token.
\<close>
theorem open_channel_messages_roundtrip:
  assumes "NewEncoder L = Inr e" and "Bytes (WriteOpenSecureChannelRequest q e) = Inr bq"
    and "open_request_readable L q" and "Bytes (WriteOpenSecureChannelResponse p e) = Inr bp"
  shows "decodes_as L bq OpenSecureChannelRequestEncodingID ReadOpenSecureChannelRequest (open_request_norm q) \<and>
    decodes_as L bp OpenSecureChannelResponseEncodingID ReadOpenSecureChannelResponse (open_response_norm p)"
  using open_request_codec.roundtrip_on [OF assms(1-3)] open_response_codec.roundtrip [OF assms(1,4)]
  by (blast intro: decodes_asI)

definition open_request_sample :: OpenSecureChannelRequest where
  "open_request_sample = \<lparr>oqHeader = request_header_sample, ClientProtocolVersion = 0,
     RequestType = TokenRequestIssue, oqSecurityMode = SecurityModeNone, ClientNonce = [1, 2],
     RequestedLifetime = 60000\<rparr>"

definition open_response_sample :: OpenSecureChannelResponse where
  "open_response_sample = \<lparr>opHeader = plain_response 0 9 StatusGood, ServerProtocolVersion = 0,
     SecurityToken = chCurrent channel_sample, ServerNonce = None\<rparr>"

theorem open_channel_messages_roundtrip_witness:
  "\<exists>bq. Bytes (WriteOpenSecureChannelRequest open_request_sample header_encoder) = Inr bq \<and>
     decodes_as DefaultBinaryLimits bq 446 ReadOpenSecureChannelRequest open_request_sample"
proof -
  have q: "Bytes (WriteOpenSecureChannelRequest open_request_sample header_encoder) =
      Inr (open_request_wire open_request_sample)" by code_simp
  have p: "Bytes (WriteOpenSecureChannelResponse open_response_sample header_encoder) =
      Inr (open_response_wire open_response_sample)" by code_simp
  have r: "open_request_readable DefaultBinaryLimits open_request_sample" by code_simp
  have n: "open_request_norm open_request_sample = open_request_sample" by code_simp
  from open_channel_messages_roundtrip [OF header_encoder_new q r p] q n show ?thesis
    by (auto simp: OpenSecureChannelRequestEncodingID_def)
qed

lemma OpenSecureChannel_refused:
  assumes "registry_inv r" and "MaxChannels (rLimits r) < 2 ^ 32"
    and "\<not> (ClientProtocolVersion q = hello \<and> RequestType q = TokenRequestIssue \<and>
      oqSecurityMode q = SecurityModeNone \<and> Count r < MaxChannels (rLimits r))"
    and "\<not> (ClientProtocolVersion q = hello \<and> RequestType q = TokenRequestRenew \<and> existing \<noteq> 0 \<and>
      (\<exists>c. map_of (rChannels r) existing = Some c \<and> oqSecurityMode q = chMode c))"
  shows "\<exists>er. OpenSecureChannel hello q existing now r = Some (Inl er, r)"
proof (cases "ClientProtocolVersion q = hello")
  case version: True
  show ?thesis
  proof (cases "RequestType q = TokenRequestIssue")
    case True
    then show ?thesis using version assms(3) Issue_cases(1) [OF assms(1,2)]
      by (auto simp: OpenSecureChannel_def RequireProtocolVersion_def not_less)
  next
    case False
    then show ?thesis using version assms(4)
      by (cases "map_of (rChannels r) existing")
        (auto simp: OpenSecureChannel_def RequireProtocolVersion_def Lookup_def lookupLocked_inv [OF assms(1)]
          snapshot_def)
  qed
qed (auto simp: OpenSecureChannel_def RequireProtocolVersion_def)

text \<open>
  An open request either fails and leaves the registry as it was, or is answered
  with a token that the registry then accepts for the channel it names, for as long as the
  revised lifetime lasts: an Issue with a new channel, a Renew with the identifier of the
  existing channel, whose security mode it must repeat. A closed channel is unknown.
\<close>
theorem channel_service_token_usable:
  assumes "reachable registry_start registry_step r" and "MaxChannels (rLimits r) < 2 ^ 32"
  shows "\<exists>result r'. OpenSecureChannel hello q existing now r = Some (result, r') \<and>
    reachable registry_start registry_step r' \<and>
    (case result of
       Inl er \<Rightarrow> r' = r
     | Inr p \<Rightarrow> ClientProtocolVersion q = hello \<and> ServerProtocolVersion p = hello \<and>
         oqSecurityMode q = SecurityModeNone \<and> ServerNonce p = None \<and>
         ServiceResult (opHeader p) = StatusGood \<and>
         rsRequestHandle (opHeader p) = rqRequestHandle (oqHeader q) \<and>
         (RequestType q = TokenRequestIssue \<and> map_of (rChannels r) (SecureChannelID (SecurityToken p)) = None \<or>
          RequestType q = TokenRequestRenew \<and> SecureChannelID (SecurityToken p) = existing) \<and>
         (\<forall>later. (\<exists>info. fst (Accept (SecureChannelID (SecurityToken p)) (TokenID (SecurityToken p)) later r') = Inr info)
            \<longleftrightarrow> later < now + uint (reviseLifetime (rLimits r) (RequestedLifetime q)) * 10 ^ 6))"
proof -
  have inv: "registry_inv r" using assms(1) by (rule channel_machine.reachable_inv)
  note steps = reachable.later [OF assms(1)]
  consider (issued) "ClientProtocolVersion q = hello" "RequestType q = TokenRequestIssue"
      "oqSecurityMode q = SecurityModeNone" "Count r < MaxChannels (rLimits r)"
    | (renewed) c where "ClientProtocolVersion q = hello" "RequestType q = TokenRequestRenew" "existing \<noteq> 0"
      "map_of (rChannels r) existing = Some c" "oqSecurityMode q = chMode c"
    | (refused) "\<exists>er. OpenSecureChannel hello q existing now r = Some (Inl er, r)"
    using OpenSecureChannel_refused [OF inv assms(2)] by metis
  then show ?thesis
  proof cases
    case issued
    then obtain info r' where i: "Issue SecurityModeNone (RequestedLifetime q) now r = Some (Inr info, r')"
      "map_of (rChannels r) (ciID info) = None" "SecureChannelID (ciToken info) = ciID info"
      "\<forall>t later. (\<exists>info'. fst (Accept (ciID info) t later r') = Inr info') \<longleftrightarrow>
         t = TokenID (ciToken info) \<and> later < now + uint (reviseLifetime (rLimits r) (RequestedLifetime q)) * 10 ^ 6"
      using Issue_opens [OF inv assms(2), of SecurityModeNone "RequestedLifetime q" now] by auto
    with issued steps [OF registry_step.issue [OF i(1)]] show ?thesis
      by (simp add: OpenSecureChannel_def RequireProtocolVersion_def plain_response_def)
  next
    case (renewed c)
    obtain t r' where t: "Renew existing (RequestedLifetime q) now r = (Inr t, r')" "SecureChannelID t = existing"
      "\<forall>later. (\<exists>info. fst (Accept existing (TokenID t) later r') = Inr info) \<longleftrightarrow>
         later < now + uint (reviseLifetime (rLimits r) (RequestedLifetime q)) * 10 ^ 6"
      using Renew_opens [OF inv renewed(4)] by blast
    have "chMode c = SecurityModeNone" "TokenRequestRenew \<noteq> TokenRequestIssue"
      using inv renewed(4)
      by (auto simp: registry_inv_def channel_ok_def TokenRequestIssue_def TokenRequestRenew_def dest!: table_wf_lookup)
    with renewed t steps [OF registry_step.renew [OF t(1)]] show ?thesis
      by (simp add: OpenSecureChannel_def RequireProtocolVersion_def Lookup_def lookupLocked_inv [OF inv]
          snapshot_def plain_response_def)
  next
    case refused
    then show ?thesis using assms(1) by auto
  qed
qed

theorem channel_service_token_usable_witness:
  "\<exists>p r'. OpenSecureChannel 0 open_request_sample 0 0 registry_sample = Some (Inr p, r') \<and>
     (\<exists>info. fst (Accept (SecureChannelID (SecurityToken p)) (TokenID (SecurityToken p)) 59999999999 r') = Inr info)"
proof -
  have r: "reachable registry_start registry_step registry_sample"
    using registry_sample_start by (rule reachable.initial)
  have f: "rLimits registry_sample = DefaultChannelLimits" "MaxChannels DefaultChannelLimits = 16"
    "RequestedLifetime open_request_sample = 60000" "reviseLifetime DefaultChannelLimits 60000 = 60000"
    by (simp_all add: registry_sample_def open_request_sample_def default_lifetime_60)
      (simp add: DefaultChannelLimits_def)
  have "\<exists>p r'. OpenSecureChannel 0 open_request_sample 0 0 registry_sample = Some (Inr p, r')"
    using registry_one_issued
    by (simp add: OpenSecureChannel_def RequireProtocolVersion_def open_request_sample_def)
  with channel_service_token_usable [OF r, of 0 open_request_sample 0 0] f show ?thesis by auto
qed

end
