(* ===== verification/Endpoints.thy ===== *)
theory Endpoints
  imports Services
begin

text \<open>
  Discovery, \<^verbatim>\<open>src/internal/opcua/endpoints.go\<close>: the descriptions of applications, user token
  policies and endpoints, the GetEndpoints messages, and the service that publishes the one
  endpoint of the adapter. Slices that the encoder tells apart when nil are options.
\<close>

section \<open>Descriptions\<close>

definition GetEndpointsRequestEncodingID :: uint32 where "GetEndpointsRequestEncodingID = 428"
definition GetEndpointsResponseEncodingID :: uint32 where "GetEndpointsResponseEncodingID = 431"

type_synonym ApplicationType = int32
definition ApplicationTypeServer :: ApplicationType where "ApplicationTypeServer = 0"
definition ApplicationTypeDiscoveryServer :: ApplicationType where "ApplicationTypeDiscoveryServer = 3"

type_synonym UserTokenType = int32
definition UserTokenTypeAnonymous :: UserTokenType where "UserTokenTypeAnonymous = 0"
definition UserTokenTypeIssuedToken :: UserTokenType where "UserTokenTypeIssuedToken = 3"

record ApplicationDescription =
  ApplicationURI :: gostring
  ProductURI :: gostring
  ApplicationName :: LocalizedText
  adApplicationType :: ApplicationType
  GatewayServerURI :: gostring
  DiscoveryProfileURI :: gostring
  DiscoveryURLs :: "gostring list option"

record UserTokenPolicy =
  PolicyID :: gostring
  TokenType :: UserTokenType
  IssuedTokenType :: gostring
  IssuerEndpointURL :: gostring
  upSecurityPolicyURI :: gostring

record EndpointDescription =
  edEndpointURL :: gostring
  edServer :: ApplicationDescription
  edServerCertificate :: "byte list"
  edSecurityMode :: SecurityMode
  edSecurityPolicyURI :: gostring
  UserIdentityTokens :: "UserTokenPolicy list option"
  TransportProfileURI :: gostring
  SecurityLevel :: byte

record GetEndpointsRequest =
  gqHeader :: RequestHeader
  gqEndpointURL :: gostring
  gqLocaleIDs :: "gostring list option"
  ProfileURIs :: "gostring list option"

record GetEndpointsResponse =
  gpHeader :: ResponseHeader
  gpEndpoints :: "EndpointDescription list option"

definition writeStringArray :: "gostring list option \<Rightarrow> Encoder \<Rightarrow> Encoder" where
  "writeStringArray values = write_nilable WriteString values"

definition readStringArray :: "gostring list option reader" where
  "readStringArray = read_array 4 (orEmpty ReadString)"

definition WriteApplicationDescription :: "ApplicationDescription \<Rightarrow> Encoder \<Rightarrow> Encoder" where
  "WriteApplicationDescription v = seqw
     [WriteString (ApplicationURI v), WriteString (ProductURI v), WriteLocalizedText (ApplicationName v),
      WriteInt32 (adApplicationType v), WriteOptionalString (GatewayServerURI v),
      WriteOptionalString (DiscoveryProfileURI v), writeStringArray (DiscoveryURLs v)]"

definition ReadApplicationDescription :: "ApplicationDescription reader" where
  "ReadApplicationDescription =
     rbind (orEmpty ReadString) (\<lambda>uri.
     rbind (orEmpty ReadString) (\<lambda>product.
     rbind ReadLocalizedText (\<lambda>name.
     rbind ReadInt32 (\<lambda>applicationType.
       if sint applicationType < sint ApplicationTypeServer \<or>
         sint applicationType > sint ApplicationTypeDiscoveryServer
       then rfail decodingError else
     rbind (orEmpty ReadString) (\<lambda>gateway.
     rbind (orEmpty ReadString) (\<lambda>profile.
     rbind readStringArray (\<lambda>urls.
     rreturn \<lparr>ApplicationURI = uri, ProductURI = product, ApplicationName = name,
       adApplicationType = applicationType, GatewayServerURI = gateway, DiscoveryProfileURI = profile,
       DiscoveryURLs = urls\<rparr>)))))))"

definition WriteUserTokenPolicy :: "UserTokenPolicy \<Rightarrow> Encoder \<Rightarrow> Encoder" where
  "WriteUserTokenPolicy v = seqw
     [WriteOptionalString (PolicyID v), WriteInt32 (TokenType v), WriteOptionalString (IssuedTokenType v),
      WriteOptionalString (IssuerEndpointURL v), WriteOptionalString (upSecurityPolicyURI v)]"

definition ReadUserTokenPolicy :: "UserTokenPolicy reader" where
  "ReadUserTokenPolicy =
     rbind (orEmpty ReadString) (\<lambda>policy.
     rbind ReadInt32 (\<lambda>tokenType.
       if sint tokenType < sint UserTokenTypeAnonymous \<or> sint tokenType > sint UserTokenTypeIssuedToken
       then rfail decodingError else
     rbind (orEmpty ReadString) (\<lambda>issued.
     rbind (orEmpty ReadString) (\<lambda>issuer.
     rbind (orEmpty ReadString) (\<lambda>security.
     rreturn \<lparr>PolicyID = policy, TokenType = tokenType, IssuedTokenType = issued,
       IssuerEndpointURL = issuer, upSecurityPolicyURI = security\<rparr>)))))"

definition WriteEndpointDescription :: "EndpointDescription \<Rightarrow> Encoder \<Rightarrow> Encoder" where
  "WriteEndpointDescription v = seqw
     [WriteString (edEndpointURL v), WriteApplicationDescription (edServer v),
      write_optional_bytes (edServerCertificate v), WriteInt32 (edSecurityMode v),
      WriteString (edSecurityPolicyURI v), write_nilable WriteUserTokenPolicy (UserIdentityTokens v),
      WriteString (TransportProfileURI v), WriteByteValue (SecurityLevel v)]"

definition ReadEndpointDescription :: "EndpointDescription reader" where
  "ReadEndpointDescription =
     rbind (orEmpty ReadString) (\<lambda>url.
     rbind ReadApplicationDescription (\<lambda>server.
     rbind (orEmpty ReadByteString) (\<lambda>certificate.
     rbind ReadInt32 (\<lambda>securityMode.
       if sint securityMode < sint SecurityModeInvalid \<or> sint securityMode > sint SecurityModeSignAndEncrypt
       then rfail decodingError else
     rbind (orEmpty ReadString) (\<lambda>policy.
     rbind (read_array 24 ReadUserTokenPolicy) (\<lambda>tokens.
     rbind (orEmpty ReadString) (\<lambda>transport.
     rbind ReadByteValue (\<lambda>level.
     rreturn \<lparr>edEndpointURL = url, edServer = server, edServerCertificate = certificate,
       edSecurityMode = securityMode, edSecurityPolicyURI = policy, UserIdentityTokens = tokens,
       TransportProfileURI = transport, SecurityLevel = level\<rparr>))))))))"

section \<open>Messages\<close>

definition WriteGetEndpointsRequest :: "GetEndpointsRequest \<Rightarrow> Encoder \<Rightarrow> Encoder" where
  "WriteGetEndpointsRequest q = seqw
     [WriteServiceTypeID GetEndpointsRequestEncodingID, WriteRequestHeader (gqHeader q),
      WriteString (gqEndpointURL q), writeStringArray (gqLocaleIDs q), writeStringArray (ProfileURIs q)]"

definition ReadGetEndpointsRequest :: "GetEndpointsRequest reader" where
  "ReadGetEndpointsRequest =
     rbind ReadRequestHeader (\<lambda>header.
     rbind (orEmpty ReadString) (\<lambda>url.
     rbind readStringArray (\<lambda>locales.
     rbind readStringArray (\<lambda>profiles.
     rreturn \<lparr>gqHeader = header, gqEndpointURL = url, gqLocaleIDs = locales, ProfileURIs = profiles\<rparr>))))"

definition WriteGetEndpointsResponse :: "GetEndpointsResponse \<Rightarrow> Encoder \<Rightarrow> Encoder" where
  "WriteGetEndpointsResponse p = seqw
     [WriteServiceTypeID GetEndpointsResponseEncodingID, WriteResponseHeader (gpHeader p),
      write_nilable WriteEndpointDescription (gpEndpoints p)]"

definition ReadGetEndpointsResponse :: "GetEndpointsResponse reader" where
  "ReadGetEndpointsResponse =
     rbind ReadResponseHeader (\<lambda>header.
     rbind (read_array 32 ReadEndpointDescription) (\<lambda>endpoints.
     rreturn \<lparr>gpHeader = header, gpEndpoints = endpoints\<rparr>))"

section \<open>The endpoint service\<close>

record EndpointConfig =
  ecEndpointURL :: gostring
  ecApplicationURI :: gostring
  ecProductURI :: gostring
  ecApplicationName :: gostring
  ecSecurityPolicyURI :: gostring
  ecTransportProfileURI :: gostring
  AnonymousPolicyID :: gostring

definition EndpointConfig_validate :: "EndpointConfig \<Rightarrow> go_error option" where
  "EndpointConfig_validate config =
     (if ecEndpointURL config = [] then Some PlainError
      else if ecApplicationURI config = [] then Some PlainError
      else if ecSecurityPolicyURI config = [] then Some PlainError
      else if int (length (ecSecurityPolicyURI config)) > MaxSecurityPolicyURIBytes then Some PlainError
      else None)"

text \<open>\<^verbatim>\<open>EndpointService\<close> is its configuration and the endpoint made from it.\<close>

record EndpointService =
  esConfig :: EndpointConfig
  esEndpoint :: EndpointDescription

definition NewEndpointService :: "EndpointConfig \<Rightarrow> go_error + EndpointService" where
  "NewEndpointService config = (case EndpointConfig_validate config of
       Some er \<Rightarrow> Inl er
     | None \<Rightarrow> Inr \<lparr>esConfig = config, esEndpoint = \<lparr>
         edEndpointURL = ecEndpointURL config,
         edServer = \<lparr>ApplicationURI = ecApplicationURI config, ProductURI = ecProductURI config,
           ApplicationName = \<lparr>lLocale = [], lText = ecApplicationName config\<rparr>,
           adApplicationType = ApplicationTypeServer, GatewayServerURI = [], DiscoveryProfileURI = [],
           DiscoveryURLs = Some [ecEndpointURL config]\<rparr>,
         edServerCertificate = [], edSecurityMode = SecurityModeNone,
         edSecurityPolicyURI = ecSecurityPolicyURI config,
         UserIdentityTokens = Some [\<lparr>PolicyID = AnonymousPolicyID config, TokenType = UserTokenTypeAnonymous,
           IssuedTokenType = [], IssuerEndpointURL = [], upSecurityPolicyURI = []\<rparr>],
         TransportProfileURI = ecTransportProfileURI config, SecurityLevel = 0\<rparr>\<rparr>)"

definition matchesProfile :: "gostring list \<Rightarrow> gostring \<Rightarrow> bool" where
  "matchesProfile requested transportProfileURI \<longleftrightarrow> list_ex (\<lambda>profile. profile = transportProfileURI) requested"

definition GetEndpoints :: "EndpointService \<Rightarrow> GetEndpointsRequest \<Rightarrow> gotime \<Rightarrow> GetEndpointsResponse" where
  "GetEndpoints s q now =
     (let header = plain_response now (rqRequestHandle (gqHeader q)) StatusGood;
          profiles = (case ProfileURIs q of None \<Rightarrow> [] | Some ps \<Rightarrow> ps)
      in if length profiles > 0 \<and> \<not> matchesProfile profiles (TransportProfileURI (esEndpoint s))
         then \<lparr>gpHeader = header, gpEndpoints = Some []\<rparr>
         else \<lparr>gpHeader = header, gpEndpoints = Some [esEndpoint s]\<rparr>)"

definition AnonymousIdentityOnly :: "EndpointService \<Rightarrow> bool" where
  "AnonymousIdentityOnly s \<longleftrightarrow> (case UserIdentityTokens (esEndpoint s) of
       None \<Rightarrow> True | Some policies \<Rightarrow> list_all (\<lambda>p. TokenType p = UserTokenTypeAnonymous) policies)"

section \<open>Laws of the messages\<close>

lemma defined_enum:
  fixes w :: "32 word"
  assumes "w \<le> 3"
  shows "\<not> (sint w < 0 \<or> sint w > 3)"
proof -
  have "uint w \<le> 3" using assms by (simp add: word_le_def)
  then show ?thesis using sint_small32 [of w] by (simp add: MaxInt32_def)
qed

lemmas enum_bounds = ApplicationTypeServer_def ApplicationTypeDiscoveryServer_def
  UserTokenTypeAnonymous_def UserTokenTypeIssuedToken_def

lemmas ltext_steps [parses_steps] =
  ltext_codec.rd_parses [unfolded id_apply, THEN parses_rbind]

definition application_wire :: "ApplicationDescription \<Rightarrow> byte list" where
  "application_wire v = lenbytes_wire (ApplicationURI v) @ lenbytes_wire (ProductURI v) @
     ltext_wire (ApplicationName v) @ le_bytes 4 (adApplicationType v) @
     optional_wire (GatewayServerURI v) @ optional_wire (DiscoveryProfileURI v) @
     nilable_wire lenbytes_wire (DiscoveryURLs v)"

definition application_ok :: "BinaryLimits \<Rightarrow> ApplicationDescription \<Rightarrow> bool" where
  "application_ok L v \<longleftrightarrow> string_ok L (ApplicationURI v) \<and> string_ok L (ProductURI v) \<and>
     ltext_ok L (ApplicationName v) \<and> optional_ok string_ok L (GatewayServerURI v) \<and>
     optional_ok string_ok L (DiscoveryProfileURI v) \<and> nilable_ok string_ok L (DiscoveryURLs v)"

definition application_readable :: "BinaryLimits \<Rightarrow> ApplicationDescription \<Rightarrow> bool" where
  "application_readable L v \<longleftrightarrow> adApplicationType v \<le> ApplicationTypeDiscoveryServer"

interpretation application_codec: ua_codec_on WriteApplicationDescription ReadApplicationDescription
  application_wire application_ok id application_readable
proof unfold_locales
  show "emits L (WriteApplicationDescription v) (application_ok L v) (application_wire v)" for L v
    unfolding WriteApplicationDescription_def writeStringArray_def
    by (rule emits_cong, (rule emits_intros)+) (auto simp: application_ok_def application_wire_def)
  show "parses L ReadApplicationDescription (application_wire v) (id v)"
    if L: "validate_limits L = None" "application_ok L v" "application_readable L v" for L v
    unfolding ReadApplicationDescription_def readStringArray_def application_wire_def
    by (intro parses_steps)
      (use L defined_enum [of "adApplicationType v"] in
        \<open>simp_all add: application_ok_def application_readable_def enum_bounds\<close>)
  show "within ReadApplicationDescription"
    unfolding ReadApplicationDescription_def readStringArray_def decodingError_def by (intro within_intros)
qed

definition policy_wire :: "UserTokenPolicy \<Rightarrow> byte list" where
  "policy_wire v = optional_wire (PolicyID v) @ le_bytes 4 (TokenType v) @ optional_wire (IssuedTokenType v) @
     optional_wire (IssuerEndpointURL v) @ optional_wire (upSecurityPolicyURI v)"

definition policy_ok :: "BinaryLimits \<Rightarrow> UserTokenPolicy \<Rightarrow> bool" where
  "policy_ok L v \<longleftrightarrow> optional_ok string_ok L (PolicyID v) \<and> optional_ok string_ok L (IssuedTokenType v) \<and>
     optional_ok string_ok L (IssuerEndpointURL v) \<and> optional_ok string_ok L (upSecurityPolicyURI v)"

text \<open>
  The reader of an endpoint takes 24 bytes as the least size of a policy, of which four
  strings and an enumeration need only 20: the policies it is sure to read back have at
  least 24.
\<close>

definition policy_readable :: "BinaryLimits \<Rightarrow> UserTokenPolicy \<Rightarrow> bool" where
  "policy_readable L v \<longleftrightarrow> TokenType v \<le> UserTokenTypeIssuedToken \<and> 24 \<le> length (policy_wire v)"

interpretation policy_array: ua_array_on WriteUserTokenPolicy ReadUserTokenPolicy
  policy_wire policy_ok id policy_readable 24
proof unfold_locales
  show "emits L (WriteUserTokenPolicy v) (policy_ok L v) (policy_wire v)" for L v
    unfolding WriteUserTokenPolicy_def
    by (rule emits_cong, (rule emits_intros)+) (auto simp: policy_ok_def policy_wire_def)
  show "parses L ReadUserTokenPolicy (policy_wire v) (id v)"
    if L: "validate_limits L = None" "policy_ok L v" "policy_readable L v" for L v
    unfolding ReadUserTokenPolicy_def policy_wire_def
    by (intro parses_steps)
      (use L defined_enum [of "TokenType v"] in \<open>simp_all add: policy_ok_def policy_readable_def enum_bounds\<close>)
  show "within ReadUserTokenPolicy"
    unfolding ReadUserTokenPolicy_def decodingError_def by (intro within_intros)
  show "24 \<le> int (length (policy_wire v))" if "policy_readable L v" for L v
    using that by (simp add: policy_readable_def)
qed

lemmas endpoint_emits [emits_intros] = application_codec.on_emits policy_array.nilable_emits
lemmas endpoint_within [within_intros] = application_codec.on_within policy_array.on_within
lemmas endpoint_steps [parses_steps] =
  application_codec.on_parses [unfolded id_apply, THEN parses_rbind]
  policy_array.nilable_parses [unfolded list.map_id0 option.map_id0 id_apply, THEN parses_rbind]

definition endpoint_wire :: "EndpointDescription \<Rightarrow> byte list" where
  "endpoint_wire v = lenbytes_wire (edEndpointURL v) @ application_wire (edServer v) @
     optional_wire (edServerCertificate v) @ le_bytes 4 (edSecurityMode v) @
     lenbytes_wire (edSecurityPolicyURI v) @ nilable_wire policy_wire (UserIdentityTokens v) @
     lenbytes_wire (TransportProfileURI v) @ [SecurityLevel v]"

definition endpoint_ok :: "BinaryLimits \<Rightarrow> EndpointDescription \<Rightarrow> bool" where
  "endpoint_ok L v \<longleftrightarrow> string_ok L (edEndpointURL v) \<and> application_ok L (edServer v) \<and>
     optional_ok bytestring_ok L (edServerCertificate v) \<and> string_ok L (edSecurityPolicyURI v) \<and>
     nilable_ok policy_ok L (UserIdentityTokens v) \<and> string_ok L (TransportProfileURI v)"

definition endpoint_readable :: "BinaryLimits \<Rightarrow> EndpointDescription \<Rightarrow> bool" where
  "endpoint_readable L v \<longleftrightarrow> application_readable L (edServer v) \<and>
     edSecurityMode v \<le> SecurityModeSignAndEncrypt \<and>
     (case UserIdentityTokens v of None \<Rightarrow> True | Some ps \<Rightarrow> list_all (policy_readable L) ps)"

lemma endpoint_wire_minimum: "32 \<le> length (endpoint_wire v)"
  by (simp add: endpoint_wire_def application_wire_def lenbytes_wire_def optional_wire_def ltext_wire_def)

interpretation endpoint_array: ua_array_on WriteEndpointDescription ReadEndpointDescription
  endpoint_wire endpoint_ok id endpoint_readable 32
proof unfold_locales
  show "emits L (WriteEndpointDescription v) (endpoint_ok L v) (endpoint_wire v)" for L v
    unfolding WriteEndpointDescription_def
    by (rule emits_cong, (rule emits_intros)+) (auto simp: endpoint_ok_def endpoint_wire_def)
  show "parses L ReadEndpointDescription (endpoint_wire v) (id v)"
    if L: "validate_limits L = None" "endpoint_ok L v" "endpoint_readable L v" for L v
    unfolding ReadEndpointDescription_def endpoint_wire_def
    by (intro parses_steps)
      (use L security_mode_range [of "edSecurityMode v"] in
        \<open>simp_all add: endpoint_ok_def endpoint_readable_def\<close>)
  show "within ReadEndpointDescription"
    unfolding ReadEndpointDescription_def decodingError_def by (intro within_intros)
  show "32 \<le> int (length (endpoint_wire v))" for v
    using endpoint_wire_minimum [of v] by simp
qed

definition endpoints_request_wire :: "GetEndpointsRequest \<Rightarrow> byte list" where
  "endpoints_request_wire q = service_wire GetEndpointsRequestEncodingID @ request_header_wire (gqHeader q) @
     lenbytes_wire (gqEndpointURL q) @ nilable_wire lenbytes_wire (gqLocaleIDs q) @
     nilable_wire lenbytes_wire (ProfileURIs q)"

definition endpoints_request_ok :: "BinaryLimits \<Rightarrow> GetEndpointsRequest \<Rightarrow> bool" where
  "endpoints_request_ok L q \<longleftrightarrow> request_header_ok L (gqHeader q) \<and> string_ok L (gqEndpointURL q) \<and>
     nilable_ok string_ok L (gqLocaleIDs q) \<and> nilable_ok string_ok L (ProfileURIs q)"

interpretation endpoints_request_codec: ua_codec WriteGetEndpointsRequest
  "read_service GetEndpointsRequestEncodingID ReadGetEndpointsRequest"
  endpoints_request_wire endpoints_request_ok "\<lambda>q. q\<lparr>gqHeader := request_header_norm (gqHeader q)\<rparr>"
proof unfold_locales
  show "emits L (WriteGetEndpointsRequest q) (endpoints_request_ok L q) (endpoints_request_wire q)" for L q
    unfolding WriteGetEndpointsRequest_def writeStringArray_def
    by (rule emits_cong, (rule emits_intros)+) (auto simp: endpoints_request_ok_def endpoints_request_wire_def)
  show "parses L (read_service GetEndpointsRequestEncodingID ReadGetEndpointsRequest)
      (endpoints_request_wire q) (q\<lparr>gqHeader := request_header_norm (gqHeader q)\<rparr>)"
    if "validate_limits L = None" "endpoints_request_ok L q" for L q
    unfolding ReadGetEndpointsRequest_def readStringArray_def endpoints_request_wire_def
    by (intro parses_steps) (use that in \<open>simp_all add: endpoints_request_ok_def\<close>)
  show "within (read_service GetEndpointsRequestEncodingID ReadGetEndpointsRequest)"
    unfolding ReadGetEndpointsRequest_def readStringArray_def by (intro within_intros)
qed

definition endpoints_response_wire :: "GetEndpointsResponse \<Rightarrow> byte list" where
  "endpoints_response_wire p = service_wire GetEndpointsResponseEncodingID @
     response_header_wire (gpHeader p) @ nilable_wire endpoint_wire (gpEndpoints p)"

definition endpoints_response_ok :: "BinaryLimits \<Rightarrow> GetEndpointsResponse \<Rightarrow> bool" where
  "endpoints_response_ok L p \<longleftrightarrow> response_header_ok L (gpHeader p) \<and> nilable_ok endpoint_ok L (gpEndpoints p)"

definition endpoints_response_readable :: "BinaryLimits \<Rightarrow> GetEndpointsResponse \<Rightarrow> bool" where
  "endpoints_response_readable L p \<longleftrightarrow>
     (case gpEndpoints p of None \<Rightarrow> True | Some vs \<Rightarrow> list_all (endpoint_readable L) vs)"

lemmas endpoints_emits [emits_intros] = endpoint_array.nilable_emits
lemmas endpoints_within [within_intros] = endpoint_array.on_within
lemmas endpoints_steps [parses_steps] =
  endpoint_array.nilable_parses [unfolded list.map_id0 option.map_id0 id_apply, THEN parses_rbind_last]

interpretation endpoints_response_codec: ua_codec_on WriteGetEndpointsResponse
  "read_service GetEndpointsResponseEncodingID ReadGetEndpointsResponse"
  endpoints_response_wire endpoints_response_ok "\<lambda>p. p\<lparr>gpHeader := response_header_norm (gpHeader p)\<rparr>"
  endpoints_response_readable
proof unfold_locales
  show "emits L (WriteGetEndpointsResponse p) (endpoints_response_ok L p) (endpoints_response_wire p)" for L p
    unfolding WriteGetEndpointsResponse_def
    by (rule emits_cong, (rule emits_intros)+) (auto simp: endpoints_response_ok_def endpoints_response_wire_def)
  show "parses L (read_service GetEndpointsResponseEncodingID ReadGetEndpointsResponse)
      (endpoints_response_wire p) (p\<lparr>gpHeader := response_header_norm (gpHeader p)\<rparr>)"
    if "validate_limits L = None" "endpoints_response_ok L p" "endpoints_response_readable L p" for L p
    unfolding ReadGetEndpointsResponse_def endpoints_response_wire_def
    by (intro parses_steps)
      (use that in \<open>simp_all add: endpoints_response_ok_def endpoints_response_readable_def\<close>)
  show "within (read_service GetEndpointsResponseEncodingID ReadGetEndpointsResponse)"
    unfolding ReadGetEndpointsResponse_def by (intro within_intros)
qed

section \<open>Properties\<close>

lemma NewEndpointService_endpoint:
  assumes "NewEndpointService config = Inr s" and "4 \<le> length (AnonymousPolicyID config)"
  shows "endpoint_readable L (esEndpoint s)" and "AnonymousIdentityOnly s"
    and "edSecurityMode (esEndpoint s) = SecurityModeNone"
  using assms
  by (auto simp: NewEndpointService_def endpoint_readable_def application_readable_def policy_readable_def
      policy_wire_def optional_wire_def lenbytes_wire_def enum_bounds SecurityModeNone_def
      SecurityModeSignAndEncrypt_def AnonymousIdentityOnly_def split: option.splits)


definition endpoint_config_sample :: EndpointConfig where
  "endpoint_config_sample = \<lparr>ecEndpointURL = [111, 112, 99], ecApplicationURI = [117], ecProductURI = [],
     ecApplicationName = [97], ecSecurityPolicyURI = [110], ecTransportProfileURI = [116],
     AnonymousPolicyID = [97, 110, 111, 110]\<rparr>"

definition endpoints_request_sample :: GetEndpointsRequest where
  "endpoints_request_sample = \<lparr>gqHeader = request_header_sample, gqEndpointURL = [], gqLocaleIDs = None,
     ProfileURIs = Some [[116]]\<rparr>"

definition endpoint_service_sample :: EndpointService where
  "endpoint_service_sample = projr (NewEndpointService endpoint_config_sample)"


text \<open>
  Two policies whose strings are all absent take 40 bytes, and the reader wants 48 to be
  left: a description that the encoder writes is refused.
\<close>

definition bare_policy :: UserTokenPolicy where
  "bare_policy = \<lparr>PolicyID = [], TokenType = UserTokenTypeAnonymous, IssuedTokenType = [],
     IssuerEndpointURL = [], upSecurityPolicyURI = []\<rparr>"

lemma bare_policies_refused:
  "let v = (esEndpoint endpoint_service_sample)\<lparr>UserIdentityTokens := Some [bare_policy, bare_policy]\<rparr>;
       d = \<lparr>dbuffer = endpoint_wire v, doffset = 0, dlimits = DefaultBinaryLimits, ddepth = 0\<rparr>
   in Bytes (WriteEndpointDescription v header_encoder) = Inr (endpoint_wire v) \<and>
      ReadEndpointDescription d = Inl decodingError"
  by code_simp

end
