(* ===== verification/SessionMessages.thy ===== *)
theory SessionMessages
  imports Endpoints
begin

text \<open>
  The messages of the session services, from \<^verbatim>\<open>src/internal/opcua/session.go\<close>:
  CreateSession, ActivateSession and CloseSession.
\<close>

definition CreateSessionRequestEncodingID :: uint32 where "CreateSessionRequestEncodingID = 461"
definition CreateSessionResponseEncodingID :: uint32 where "CreateSessionResponseEncodingID = 464"
definition ActivateSessionRequestEncodingID :: uint32 where "ActivateSessionRequestEncodingID = 467"
definition ActivateSessionResponseEncodingID :: uint32 where "ActivateSessionResponseEncodingID = 470"
definition CloseSessionRequestEncodingID :: uint32 where "CloseSessionRequestEncodingID = 473"
definition CloseSessionResponseEncodingID :: uint32 where "CloseSessionResponseEncodingID = 476"

record SignatureData =
  Algorithm :: gostring
  sdSignature :: "byte list"

record SignedSoftwareCertificate =
  CertificateData :: "byte list"
  scSignature :: "byte list"

record CreateSessionRequest =
  csqHeader :: RequestHeader
  ClientDescription :: ApplicationDescription
  ServerURI :: gostring
  csqEndpointURL :: gostring
  SessionName :: gostring
  csqClientNonce :: "byte list"
  ClientCertificate :: "byte list"
  RequestedSessionTimeout :: float64
  MaxResponseMessageSize :: uint32

record CreateSessionResponse =
  cspHeader :: ResponseHeader
  cspSessionID :: NodeID
  cspAuthenticationToken :: NodeID
  RevisedSessionTimeout :: float64
  cspServerNonce :: "byte list"
  ServerCertificate :: "byte list"
  ServerEndpoints :: "EndpointDescription list"
  ServerSoftwareCertificates :: "SignedSoftwareCertificate list"
  ServerSignature :: SignatureData
  MaxRequestMessageSize :: uint32

record ActivateSessionRequest =
  asqHeader :: RequestHeader
  ClientSignature :: SignatureData
  ClientSoftwareCertificates :: "SignedSoftwareCertificate list"
  LocaleIDs :: "gostring list option"
  UserIdentityToken :: ExtensionObject
  UserTokenSignature :: SignatureData

record ActivateSessionResponse =
  aspHeader :: ResponseHeader
  aspServerNonce :: "byte list"
  aspResults :: "StatusCode list"
  aspDiagnostics :: "DiagnosticInfo list"

record CloseSessionRequest =
  clqHeader :: RequestHeader
  DeleteSubscriptions :: bool

record CloseSessionResponse =
  clpHeader :: ResponseHeader

definition WriteSignatureData :: "SignatureData \<Rightarrow> Encoder \<Rightarrow> Encoder" where
  "WriteSignatureData v = seqw
     [if Algorithm v = [] then WriteNullString else WriteString (Algorithm v),
      write_optional_bytes (sdSignature v)]"

definition ReadSignatureData :: "SignatureData reader" where
  "ReadSignatureData =
     rbind (orEmpty ReadString) (\<lambda>algorithm.
     rbind (orEmpty ReadByteString) (\<lambda>signature.
     rreturn \<lparr>Algorithm = algorithm, sdSignature = signature\<rparr>))"

text \<open>The loop body that writes a certificate, and the one that reads it.\<close>

definition writeSoftwareCertificate :: "SignedSoftwareCertificate \<Rightarrow> Encoder \<Rightarrow> Encoder" where
  "writeSoftwareCertificate c = seqw [WriteByteString (CertificateData c), WriteByteString (scSignature c)]"

definition readSoftwareCertificate :: "SignedSoftwareCertificate reader" where
  "readSoftwareCertificate =
     rbind (orEmpty ReadByteString) (\<lambda>data.
     rbind (orEmpty ReadByteString) (\<lambda>signature.
     rreturn \<lparr>CertificateData = data, scSignature = signature\<rparr>))"

definition readSoftwareCertificates :: "SignedSoftwareCertificate list reader" where
  "readSoftwareCertificates = read_list 8 readSoftwareCertificate"

definition ReadCreateSessionRequest :: "CreateSessionRequest reader" where
  "ReadCreateSessionRequest =
     rbind ReadRequestHeader (\<lambda>header.
     rbind ReadApplicationDescription (\<lambda>client.
     rbind (orEmpty ReadString) (\<lambda>uri.
     rbind (orEmpty ReadString) (\<lambda>url.
     rbind (orEmpty ReadString) (\<lambda>name.
     rbind (orEmpty ReadByteString) (\<lambda>nonce.
     rbind (orEmpty ReadByteString) (\<lambda>certificate.
     rbind ReadDouble (\<lambda>timeout.
     rbind ReadUInt32 (\<lambda>size.
     rreturn \<lparr>csqHeader = header, ClientDescription = client, ServerURI = uri, csqEndpointURL = url,
       SessionName = name, csqClientNonce = nonce, ClientCertificate = certificate,
       RequestedSessionTimeout = timeout, MaxResponseMessageSize = size\<rparr>)))))))))"

definition WriteCreateSessionRequest :: "CreateSessionRequest \<Rightarrow> Encoder \<Rightarrow> Encoder" where
  "WriteCreateSessionRequest q = seqw
     [WriteServiceTypeID CreateSessionRequestEncodingID, WriteRequestHeader (csqHeader q),
      WriteApplicationDescription (ClientDescription q), WriteString (ServerURI q),
      WriteString (csqEndpointURL q), WriteString (SessionName q), WriteByteString (csqClientNonce q),
      write_optional_bytes (ClientCertificate q), WriteDouble (RequestedSessionTimeout q),
      WriteUInt32 (MaxResponseMessageSize q)]"

definition WriteCreateSessionResponse :: "CreateSessionResponse \<Rightarrow> Encoder \<Rightarrow> Encoder" where
  "WriteCreateSessionResponse p = seqw
     [WriteServiceTypeID CreateSessionResponseEncodingID, WriteResponseHeader (cspHeader p),
      WriteNodeID (cspSessionID p), WriteNodeID (cspAuthenticationToken p),
      WriteDouble (RevisedSessionTimeout p), WriteByteString (cspServerNonce p),
      write_optional_bytes (ServerCertificate p), write_array WriteEndpointDescription (ServerEndpoints p),
      WriteArrayLength 0, WriteSignatureData (ServerSignature p), WriteUInt32 (MaxRequestMessageSize p)]"

definition ReadCreateSessionResponse :: "CreateSessionResponse reader" where
  "ReadCreateSessionResponse =
     rbind ReadResponseHeader (\<lambda>header.
     rbind ReadNodeID (\<lambda>session.
     rbind ReadNodeID (\<lambda>token.
     rbind ReadDouble (\<lambda>timeout.
     rbind (orEmpty ReadByteString) (\<lambda>nonce.
     rbind (orEmpty ReadByteString) (\<lambda>certificate.
     rbind (read_list 32 ReadEndpointDescription) (\<lambda>endpoints.
     rbind readSoftwareCertificates (\<lambda>certificates.
     rbind ReadSignatureData (\<lambda>signature.
     rbind ReadUInt32 (\<lambda>size.
     rreturn \<lparr>cspHeader = header, cspSessionID = session, cspAuthenticationToken = token,
       RevisedSessionTimeout = timeout, cspServerNonce = nonce, ServerCertificate = certificate,
       ServerEndpoints = endpoints, ServerSoftwareCertificates = certificates,
       ServerSignature = signature, MaxRequestMessageSize = size\<rparr>))))))))))"

definition ReadActivateSessionRequest :: "ActivateSessionRequest reader" where
  "ReadActivateSessionRequest =
     rbind ReadRequestHeader (\<lambda>header.
     rbind ReadSignatureData (\<lambda>signature.
     rbind readSoftwareCertificates (\<lambda>certificates.
     rbind readStringArray (\<lambda>locales.
     rbind ReadExtensionObject (\<lambda>token.
     rbind ReadSignatureData (\<lambda>tokenSignature.
     rreturn \<lparr>asqHeader = header, ClientSignature = signature, ClientSoftwareCertificates = certificates,
       LocaleIDs = locales, UserIdentityToken = token, UserTokenSignature = tokenSignature\<rparr>))))))"

definition WriteActivateSessionRequest :: "ActivateSessionRequest \<Rightarrow> Encoder \<Rightarrow> Encoder" where
  "WriteActivateSessionRequest q = seqw
     [WriteServiceTypeID ActivateSessionRequestEncodingID, WriteRequestHeader (asqHeader q),
      WriteSignatureData (ClientSignature q),
      write_array writeSoftwareCertificate (ClientSoftwareCertificates q),
      writeStringArray (LocaleIDs q), WriteExtensionObject (UserIdentityToken q),
      WriteSignatureData (UserTokenSignature q)]"

definition WriteActivateSessionResponse :: "ActivateSessionResponse \<Rightarrow> Encoder \<Rightarrow> Encoder" where
  "WriteActivateSessionResponse p = seqw
     [WriteServiceTypeID ActivateSessionResponseEncodingID, WriteResponseHeader (aspHeader p),
      WriteByteString (aspServerNonce p), write_array WriteStatusCode (aspResults p),
      write_array WriteDiagnosticInfo (aspDiagnostics p)]"

definition ReadActivateSessionResponse :: "ActivateSessionResponse reader" where
  "ReadActivateSessionResponse =
     rbind ReadResponseHeader (\<lambda>header.
     rbind (orEmpty ReadByteString) (\<lambda>nonce.
     rbind (read_list 4 ReadStatusCode) (\<lambda>results.
     rbind (read_list 1 ReadDiagnosticInfo) (\<lambda>diagnostics.
     rreturn \<lparr>aspHeader = header, aspServerNonce = nonce, aspResults = results,
       aspDiagnostics = diagnostics\<rparr>))))"

definition ReadCloseSessionRequest :: "CloseSessionRequest reader" where
  "ReadCloseSessionRequest =
     rbind ReadRequestHeader (\<lambda>header.
     rbind ReadBoolean (\<lambda>deleteSubscriptions.
     rreturn \<lparr>clqHeader = header, DeleteSubscriptions = deleteSubscriptions\<rparr>))"

definition WriteCloseSessionRequest :: "CloseSessionRequest \<Rightarrow> Encoder \<Rightarrow> Encoder" where
  "WriteCloseSessionRequest q = seqw
     [WriteServiceTypeID CloseSessionRequestEncodingID, WriteRequestHeader (clqHeader q),
      WriteBoolean (DeleteSubscriptions q)]"

definition WriteCloseSessionResponse :: "CloseSessionResponse \<Rightarrow> Encoder \<Rightarrow> Encoder" where
  "WriteCloseSessionResponse p = seqw
     [WriteServiceTypeID CloseSessionResponseEncodingID, WriteResponseHeader (clpHeader p)]"

section \<open>Laws\<close>

lemma emits_signature_algorithm [emits_intros]:
  "emits L (if v = [] then WriteNullString else WriteString v) (optional_ok string_ok L v) (optional_wire v)"
  using emits_optional(1) unfolding WriteOptionalString_def .

definition signature_wire :: "SignatureData \<Rightarrow> byte list" where
  "signature_wire v = optional_wire (Algorithm v) @ optional_wire (sdSignature v)"

definition signature_ok :: "BinaryLimits \<Rightarrow> SignatureData \<Rightarrow> bool" where
  "signature_ok L v \<longleftrightarrow> optional_ok string_ok L (Algorithm v) \<and> optional_ok bytestring_ok L (sdSignature v)"

interpretation signature_codec: ua_codec WriteSignatureData ReadSignatureData signature_wire signature_ok id
proof unfold_locales
  show "emits L (WriteSignatureData v) (signature_ok L v) (signature_wire v)" for L v
    unfolding WriteSignatureData_def
    by (rule emits_cong, (rule emits_signature_algorithm emits_intros)+) (auto simp: signature_ok_def signature_wire_def)
  show "parses L ReadSignatureData (signature_wire v) (id v)"
    if "validate_limits L = None" "signature_ok L v" for L v
    unfolding ReadSignatureData_def signature_wire_def
    by (intro parses_steps) (use that in \<open>simp_all add: signature_ok_def\<close>)
  show "within ReadSignatureData" unfolding ReadSignatureData_def by (intro within_intros)
qed

definition certificate_wire :: "SignedSoftwareCertificate \<Rightarrow> byte list" where
  "certificate_wire v = lenbytes_wire (CertificateData v) @ lenbytes_wire (scSignature v)"

definition certificate_ok :: "BinaryLimits \<Rightarrow> SignedSoftwareCertificate \<Rightarrow> bool" where
  "certificate_ok L v \<longleftrightarrow> bytestring_ok L (CertificateData v) \<and> bytestring_ok L (scSignature v)"

interpretation certificate_array: ua_array writeSoftwareCertificate readSoftwareCertificate
  certificate_wire certificate_ok id 8
proof unfold_locales
  show "emits L (writeSoftwareCertificate v) (certificate_ok L v) (certificate_wire v)" for L v
    unfolding writeSoftwareCertificate_def
    by (rule emits_cong, (rule emits_intros)+) (auto simp: certificate_ok_def certificate_wire_def)
  show "parses L readSoftwareCertificate (certificate_wire v) (id v)"
    if "validate_limits L = None" "certificate_ok L v" for L v
    unfolding readSoftwareCertificate_def certificate_wire_def
    by (intro parses_steps) (use that in \<open>simp_all add: certificate_ok_def\<close>)
  show "within readSoftwareCertificate" unfolding readSoftwareCertificate_def by (intro within_intros)
  show "8 \<le> int (length (certificate_wire v))" for v by (simp add: certificate_wire_def lenbytes_wire_def)
qed

lemmas session_emits [emits_intros] = signature_codec.wr_emits certificate_array.array_emits endpoint_array.array_emits
lemmas session_within [within_intros] = signature_codec.rd_within certificate_array.rd_within
lemmas session_steps [parses_steps] =
  signature_codec.rd_parses [unfolded id_apply, THEN parses_rbind]
  signature_codec.rd_parses [unfolded id_apply, THEN parses_rbind_last]
  certificate_array.list_parses [unfolded list.map_id0 id_apply, THEN parses_rbind]
  endpoint_array.list_parses [unfolded list.map_id0 id_apply, THEN parses_rbind]
  nodeid_codec.rd_parses [THEN parses_rbind]
  boolean_codec.rd_parses [unfolded id_apply, THEN parses_rbind]
  boolean_codec.rd_parses [unfolded id_apply, THEN parses_rbind_last]

lemma emits_no_certificates [emits_intros]:
  "emits L (WriteArrayLength 0) (array_ok certificate_ok L []) (array_wire certificate_wire [])"
  using emits_WriteArrayLength [of L 0] by (simp add: array_ok_def array_wire_def)

definition create_request_wire :: "CreateSessionRequest \<Rightarrow> byte list" where
  "create_request_wire q = service_wire CreateSessionRequestEncodingID @ request_header_wire (csqHeader q) @
     application_wire (ClientDescription q) @ lenbytes_wire (ServerURI q) @ lenbytes_wire (csqEndpointURL q) @
     lenbytes_wire (SessionName q) @ lenbytes_wire (csqClientNonce q) @ optional_wire (ClientCertificate q) @
     le_bytes 8 (double_norm (RequestedSessionTimeout q)) @ le_bytes 4 (MaxResponseMessageSize q)"

definition create_request_ok :: "BinaryLimits \<Rightarrow> CreateSessionRequest \<Rightarrow> bool" where
  "create_request_ok L q \<longleftrightarrow> request_header_ok L (csqHeader q) \<and> application_ok L (ClientDescription q) \<and>
     string_ok L (ServerURI q) \<and> string_ok L (csqEndpointURL q) \<and> string_ok L (SessionName q) \<and>
     bytestring_ok L (csqClientNonce q) \<and> optional_ok bytestring_ok L (ClientCertificate q)"

definition create_request_norm :: "CreateSessionRequest \<Rightarrow> CreateSessionRequest" where
  "create_request_norm q = q\<lparr>csqHeader := request_header_norm (csqHeader q),
     RequestedSessionTimeout := double_norm (RequestedSessionTimeout q)\<rparr>"

definition create_request_readable :: "BinaryLimits \<Rightarrow> CreateSessionRequest \<Rightarrow> bool" where
  "create_request_readable L q \<longleftrightarrow> application_readable L (ClientDescription q)"

interpretation create_request_codec: ua_codec_on WriteCreateSessionRequest
  "read_service CreateSessionRequestEncodingID ReadCreateSessionRequest"
  create_request_wire create_request_ok create_request_norm create_request_readable
proof unfold_locales
  show "emits L (WriteCreateSessionRequest q) (create_request_ok L q) (create_request_wire q)" for L q
    unfolding WriteCreateSessionRequest_def
    by (rule emits_cong, (rule emits_intros)+) (auto simp: create_request_ok_def create_request_wire_def)
  show "parses L (read_service CreateSessionRequestEncodingID ReadCreateSessionRequest)
      (create_request_wire q) (create_request_norm q)"
    if "validate_limits L = None" "create_request_ok L q" "create_request_readable L q" for L q
    unfolding ReadCreateSessionRequest_def create_request_wire_def
    by (intro parses_steps)
      (use that in \<open>simp_all add: create_request_ok_def create_request_readable_def create_request_norm_def\<close>)
  show "within (read_service CreateSessionRequestEncodingID ReadCreateSessionRequest)"
    unfolding ReadCreateSessionRequest_def by (intro within_intros)
qed

definition create_response_wire :: "CreateSessionResponse \<Rightarrow> byte list" where
  "create_response_wire p = service_wire CreateSessionResponseEncodingID @ response_header_wire (cspHeader p) @
     nodeid_wire 0 (cspSessionID p) @ nodeid_wire 0 (cspAuthenticationToken p) @
     le_bytes 8 (double_norm (RevisedSessionTimeout p)) @ lenbytes_wire (cspServerNonce p) @
     optional_wire (ServerCertificate p) @ array_wire endpoint_wire (ServerEndpoints p) @
     array_wire certificate_wire [] @ signature_wire (ServerSignature p) @ le_bytes 4 (MaxRequestMessageSize p)"

definition create_response_ok :: "BinaryLimits \<Rightarrow> CreateSessionResponse \<Rightarrow> bool" where
  "create_response_ok L p \<longleftrightarrow> response_header_ok L (cspHeader p) \<and> nodeid_ok L (cspSessionID p) \<and>
     nodeid_ok L (cspAuthenticationToken p) \<and> bytestring_ok L (cspServerNonce p) \<and>
     optional_ok bytestring_ok L (ServerCertificate p) \<and> array_ok endpoint_ok L (ServerEndpoints p) \<and>
     array_ok certificate_ok L [] \<and> signature_ok L (ServerSignature p)"

text \<open>The certificates of the server are never written.\<close>

definition create_response_norm :: "CreateSessionResponse \<Rightarrow> CreateSessionResponse" where
  "create_response_norm p = p\<lparr>cspHeader := response_header_norm (cspHeader p),
     cspSessionID := nodeid_norm (cspSessionID p),
     cspAuthenticationToken := nodeid_norm (cspAuthenticationToken p),
     RevisedSessionTimeout := double_norm (RevisedSessionTimeout p), ServerSoftwareCertificates := []\<rparr>"

definition create_response_readable :: "BinaryLimits \<Rightarrow> CreateSessionResponse \<Rightarrow> bool" where
  "create_response_readable L p \<longleftrightarrow> list_all (endpoint_readable L) (ServerEndpoints p)"

interpretation create_response_codec: ua_codec_on WriteCreateSessionResponse
  "read_service CreateSessionResponseEncodingID ReadCreateSessionResponse"
  create_response_wire create_response_ok create_response_norm create_response_readable
proof unfold_locales
  show "emits L (WriteCreateSessionResponse p) (create_response_ok L p) (create_response_wire p)" for L p
    unfolding WriteCreateSessionResponse_def
    by (rule emits_cong, (rule emits_no_certificates emits_intros)+)
      (auto simp: create_response_ok_def create_response_wire_def)
  show "parses L (read_service CreateSessionResponseEncodingID ReadCreateSessionResponse)
      (create_response_wire p) (create_response_norm p)"
    if "validate_limits L = None" "create_response_ok L p" "create_response_readable L p" for L p
    unfolding ReadCreateSessionResponse_def readSoftwareCertificates_def create_response_wire_def
    by (intro parses_steps)
      (use that in \<open>simp_all add: create_response_ok_def create_response_readable_def create_response_norm_def\<close>)
  show "within (read_service CreateSessionResponseEncodingID ReadCreateSessionResponse)"
    unfolding ReadCreateSessionResponse_def readSoftwareCertificates_def by (intro within_intros)
qed

definition activate_request_wire :: "ActivateSessionRequest \<Rightarrow> byte list" where
  "activate_request_wire q = service_wire ActivateSessionRequestEncodingID @ request_header_wire (asqHeader q) @
     signature_wire (ClientSignature q) @ array_wire certificate_wire (ClientSoftwareCertificates q) @
     nilable_wire lenbytes_wire (LocaleIDs q) @ extobj_wire (UserIdentityToken q) @
     signature_wire (UserTokenSignature q)"

definition activate_request_ok :: "BinaryLimits \<Rightarrow> ActivateSessionRequest \<Rightarrow> bool" where
  "activate_request_ok L q \<longleftrightarrow> request_header_ok L (asqHeader q) \<and> signature_ok L (ClientSignature q) \<and>
     array_ok certificate_ok L (ClientSoftwareCertificates q) \<and> nilable_ok string_ok L (LocaleIDs q) \<and>
     extobj_ok L (UserIdentityToken q) \<and> signature_ok L (UserTokenSignature q)"

definition activate_request_norm :: "ActivateSessionRequest \<Rightarrow> ActivateSessionRequest" where
  "activate_request_norm q = q\<lparr>asqHeader := request_header_norm (asqHeader q),
     UserIdentityToken := extobj_norm (UserIdentityToken q)\<rparr>"

interpretation activate_request_codec: ua_codec WriteActivateSessionRequest
  "read_service ActivateSessionRequestEncodingID ReadActivateSessionRequest"
  activate_request_wire activate_request_ok activate_request_norm
proof unfold_locales
  show "emits L (WriteActivateSessionRequest q) (activate_request_ok L q) (activate_request_wire q)" for L q
    unfolding WriteActivateSessionRequest_def writeStringArray_def
    by (rule emits_cong, (rule emits_intros)+) (auto simp: activate_request_ok_def activate_request_wire_def)
  show "parses L (read_service ActivateSessionRequestEncodingID ReadActivateSessionRequest)
      (activate_request_wire q) (activate_request_norm q)"
    if "validate_limits L = None" "activate_request_ok L q" for L q
    unfolding ReadActivateSessionRequest_def readSoftwareCertificates_def readStringArray_def activate_request_wire_def
    by (intro parses_steps) (use that in \<open>simp_all add: activate_request_ok_def activate_request_norm_def\<close>)
  show "within (read_service ActivateSessionRequestEncodingID ReadActivateSessionRequest)"
    unfolding ReadActivateSessionRequest_def readSoftwareCertificates_def readStringArray_def
    by (intro within_intros)
qed

definition activate_response_wire :: "ActivateSessionResponse \<Rightarrow> byte list" where
  "activate_response_wire p = service_wire ActivateSessionResponseEncodingID @ response_header_wire (aspHeader p) @
     lenbytes_wire (aspServerNonce p) @ array_wire (le_bytes 4) (aspResults p) @
     array_wire diag_wire (aspDiagnostics p)"

definition activate_response_ok :: "BinaryLimits \<Rightarrow> ActivateSessionResponse \<Rightarrow> bool" where
  "activate_response_ok L p \<longleftrightarrow> response_header_ok L (aspHeader p) \<and> bytestring_ok L (aspServerNonce p) \<and>
     array_ok always_ok L (aspResults p) \<and> array_ok (\<lambda>L. diag_ok L 0) L (aspDiagnostics p)"

definition activate_response_norm :: "ActivateSessionResponse \<Rightarrow> ActivateSessionResponse" where
  "activate_response_norm p = p\<lparr>aspHeader := response_header_norm (aspHeader p),
     aspDiagnostics := map diag_norm (aspDiagnostics p)\<rparr>"

interpretation activate_response_codec: ua_codec WriteActivateSessionResponse
  "read_service ActivateSessionResponseEncodingID ReadActivateSessionResponse"
  activate_response_wire activate_response_ok activate_response_norm
proof unfold_locales
  show "emits L (WriteActivateSessionResponse p) (activate_response_ok L p) (activate_response_wire p)" for L p
    unfolding WriteActivateSessionResponse_def
    by (rule emits_cong, (rule emits_intros)+) (auto simp: activate_response_ok_def activate_response_wire_def)
  show "parses L (read_service ActivateSessionResponseEncodingID ReadActivateSessionResponse)
      (activate_response_wire p) (activate_response_norm p)"
    if "validate_limits L = None" "activate_response_ok L p" for L p
    unfolding ReadActivateSessionResponse_def activate_response_wire_def
    by (intro parses_steps) (use that in \<open>simp_all add: activate_response_ok_def activate_response_norm_def\<close>)
  show "within (read_service ActivateSessionResponseEncodingID ReadActivateSessionResponse)"
    unfolding ReadActivateSessionResponse_def by (intro within_intros)
qed

definition close_session_wire :: "CloseSessionRequest \<Rightarrow> byte list" where
  "close_session_wire q = service_wire CloseSessionRequestEncodingID @ request_header_wire (clqHeader q) @
     bool_wire (DeleteSubscriptions q)"

interpretation close_session_codec: ua_codec WriteCloseSessionRequest
  "read_service CloseSessionRequestEncodingID ReadCloseSessionRequest"
  close_session_wire "\<lambda>L q. request_header_ok L (clqHeader q)"
  "\<lambda>q. q\<lparr>clqHeader := request_header_norm (clqHeader q)\<rparr>"
proof unfold_locales
  show "emits L (WriteCloseSessionRequest q) (request_header_ok L (clqHeader q)) (close_session_wire q)" for L q
    unfolding WriteCloseSessionRequest_def
    by (rule emits_cong, (rule emits_intros)+) (auto simp: close_session_wire_def)
  show "parses L (read_service CloseSessionRequestEncodingID ReadCloseSessionRequest)
      (close_session_wire q) (q\<lparr>clqHeader := request_header_norm (clqHeader q)\<rparr>)"
    if "validate_limits L = None" "request_header_ok L (clqHeader q)" for L q
    unfolding ReadCloseSessionRequest_def close_session_wire_def
    by (intro parses_steps) (use that in simp_all)
  show "within (read_service CloseSessionRequestEncodingID ReadCloseSessionRequest)"
    unfolding ReadCloseSessionRequest_def by (intro within_intros)
qed

section \<open>Properties\<close>

text \<open>
  Each message of the session services that a fresh encoder writes is read back,
  type prefix included, to the last byte; the response to CreateSession never carries
  software certificates.
\<close>
theorem session_messages_roundtrip:
  assumes "NewEncoder L = Inr e"
  shows "(Bytes (WriteCreateSessionRequest cq e) = Inr b1 \<and> create_request_readable L cq \<longrightarrow>
      decodes_as L b1 CreateSessionRequestEncodingID ReadCreateSessionRequest (create_request_norm cq)) \<and>
    (Bytes (WriteCreateSessionResponse cp e) = Inr b2 \<and> create_response_readable L cp \<longrightarrow>
      decodes_as L b2 CreateSessionResponseEncodingID ReadCreateSessionResponse (create_response_norm cp)) \<and>
    (Bytes (WriteActivateSessionRequest aq e) = Inr b3 \<longrightarrow>
      decodes_as L b3 ActivateSessionRequestEncodingID ReadActivateSessionRequest (activate_request_norm aq)) \<and>
    (Bytes (WriteActivateSessionResponse ap e) = Inr b4 \<longrightarrow>
      decodes_as L b4 ActivateSessionResponseEncodingID ReadActivateSessionResponse (activate_response_norm ap)) \<and>
    (Bytes (WriteCloseSessionRequest lq e) = Inr b5 \<longrightarrow>
      decodes_as L b5 CloseSessionRequestEncodingID ReadCloseSessionRequest
        (lq\<lparr>clqHeader := request_header_norm (clqHeader lq)\<rparr>))"
  using create_request_codec.roundtrip_on [OF assms] create_response_codec.roundtrip_on [OF assms]
    activate_request_codec.roundtrip [OF assms] activate_response_codec.roundtrip [OF assms]
    close_session_codec.roundtrip [OF assms]
  by (simp add: decodes_asI)

definition close_session_sample :: CloseSessionRequest where
  "close_session_sample = \<lparr>clqHeader = request_header_sample, DeleteSubscriptions = True\<rparr>"

theorem session_messages_roundtrip_witness:
  "decodes_as DefaultBinaryLimits (close_session_wire close_session_sample)
     CloseSessionRequestEncodingID ReadCloseSessionRequest close_session_sample"
proof -
  have e: "Bytes (WriteCloseSessionRequest close_session_sample header_encoder) =
      Inr (close_session_wire close_session_sample)" by code_simp
  have n: "close_session_sample\<lparr>clqHeader := request_header_norm (clqHeader close_session_sample)\<rparr> =
      close_session_sample" by code_simp
  from session_messages_roundtrip [OF header_encoder_new, of _ _ _ _ _ _ _ _ close_session_sample] e n
  show ?thesis by metis
qed

end
