(* ===== verification/Floats.thy ===== *)
theory Floats
  imports Binary
begin

text \<open>
  What the server uses of \<^verbatim>\<open>float64\<close>, on the IEEE 754 bits: the order, the conversion of a
  whole number of milliseconds to a \<^verbatim>\<open>float64\<close>, and the conversion to \<^verbatim>\<open>int64\<close>, which
  truncates. Go leaves the result of the latter to the implementation when the value does
  not fit, so there it is a parameter, \<open>outside\<close>.
\<close>

definition f64_key :: "float64 \<Rightarrow> int" where
  "f64_key w = (if w AND 0x8000000000000000 \<noteq> 0 then - uint (w AND 0x7FFFFFFFFFFFFFFF) else uint w)"

definition f64_less :: "float64 \<Rightarrow> float64 \<Rightarrow> bool" where
  "f64_less a b \<longleftrightarrow> \<not> isNaN64 a \<and> \<not> isNaN64 b \<and> f64_key a < f64_key b"

definition f64_le :: "float64 \<Rightarrow> float64 \<Rightarrow> bool" where
  "f64_le a b \<longleftrightarrow> \<not> isNaN64 a \<and> \<not> isNaN64 b \<and> f64_key a \<le> f64_key b"

definition f64_eq :: "float64 \<Rightarrow> float64 \<Rightarrow> bool" where
  "f64_eq a b \<longleftrightarrow> \<not> isNaN64 a \<and> \<not> isNaN64 b \<and> f64_key a = f64_key b"

fun log2 :: "nat \<Rightarrow> nat" where
  "log2 n = (if n < 2 then 0 else Suc (log2 (n div 2)))"

declare log2.simps [simp del]

text \<open>\<^verbatim>\<open>float64(n)\<close> for \<open>n < 2\<^sup>5\<^sup>3\<close>, where it is exact: the exponent above the fraction.\<close>

definition f64_of_nat :: "nat \<Rightarrow> float64" where
  "f64_of_nat n = (if n = 0 then 0 else of_nat ((1022 + log2 n) * 2 ^ 52 + n * 2 ^ (52 - log2 n)))"

text \<open>The truncated value, when it is an \<^verbatim>\<open>int64\<close>.\<close>

definition f64_trunc :: "float64 \<Rightarrow> int option" where
  "f64_trunc w = (let u = unat w; s = u div 2 ^ 63; e = u div 2 ^ 52 mod 2 ^ 11; f = u mod 2 ^ 52
     in if e < 1023 then Some 0
        else if e \<ge> 1086 then (if s = 1 \<and> e = 1086 \<and> f = 0 then Some (- (2 ^ 63)) else None)
        else let k = e - 1023; m = 2 ^ 52 + f;
                 v = (if k \<ge> 52 then m * 2 ^ (k - 52) else m div 2 ^ (52 - k))
             in Some (if s = 1 then - int v else int v))"

definition f64_to_int64 :: "(float64 \<Rightarrow> int) \<Rightarrow> float64 \<Rightarrow> int" where
  "f64_to_int64 outside w = (case f64_trunc w of Some n \<Rightarrow> n | None \<Rightarrow> outside w)"

section \<open>Laws\<close>

lemma log2_bounds: "0 < n \<Longrightarrow> 2 ^ log2 n \<le> n \<and> n < 2 ^ Suc (log2 n)"
proof (induction n rule: log2.induct)
  case (1 n)
  show ?case
  proof (cases "n < 2")
    case True
    then show ?thesis using 1 by (simp add: log2.simps)
  next
    case False
    then have "2 ^ log2 (n div 2) \<le> n div 2 \<and> n div 2 < 2 ^ Suc (log2 (n div 2))" using 1 by auto
    moreover have "log2 n = Suc (log2 (n div 2))" using False by (subst log2.simps) simp
    ultimately show ?thesis by auto
  qed
qed

lemma log2_le:
  assumes "0 < n" and "n < 2 ^ Suc k"
  shows "log2 n \<le> k"
proof (rule ccontr)
  assume "\<not> log2 n \<le> k"
  then have "(2 :: nat) ^ Suc k \<le> 2 ^ log2 n" by (intro power_increasing) auto
  with assms log2_bounds [of n] show False by linarith
qed

lemma unat_small: "k < 2 ^ 64 \<Longrightarrow> unat (of_nat k :: 64 word) = k"
  by (simp add: unsigned_of_nat take_bit_nat_eq_self)

lemma f64_of_nat_fields:
  assumes "0 < n" and "n < 2 ^ 53"
  defines "f \<equiv> n * 2 ^ (52 - log2 n) - 2 ^ 52"
  shows "log2 n \<le> 52" and "f < 2 ^ 52" and "2 ^ 52 + f = n * 2 ^ (52 - log2 n)"
    and "unat (f64_of_nat n) = (1023 + log2 n) * 2 ^ 52 + f"
proof -
  show l: "log2 n \<le> 52" using log2_le [of n 52] assms(1,2) by simp
  note b = log2_bounds [OF assms(1)]
  have lo: "2 ^ log2 n * 2 ^ (52 - log2 n) \<le> n * 2 ^ (52 - log2 n)" using b by (intro mult_right_mono) auto
  have hi: "n * 2 ^ (52 - log2 n) < 2 ^ Suc (log2 n) * 2 ^ (52 - log2 n)" using b by (intro mult_strict_right_mono) auto
  have p: "(2 :: nat) ^ log2 n * 2 ^ (52 - log2 n) = 2 ^ 52" using l by (simp flip: power_add)
  have lo': "2 ^ 52 \<le> n * 2 ^ (52 - log2 n)" using lo p by simp
  have hi': "n * 2 ^ (52 - log2 n) < 2 * 2 ^ 52" using hi unfolding power_Suc mult.assoc p .
  show f: "f < 2 ^ 52" "2 ^ 52 + f = n * 2 ^ (52 - log2 n)"
    unfolding f_def using lo' hi' by linarith+
  have e: "(1022 + log2 n) * 2 ^ 52 + n * 2 ^ (52 - log2 n) = (1023 + log2 n) * 2 ^ 52 + f"
    using f(2) by (simp add: algebra_simps)
  have "(1023 + log2 n) * 2 ^ 52 + f < 2 ^ 64" using l f(1) by simp
  then show "unat (f64_of_nat n) = (1023 + log2 n) * 2 ^ 52 + f"
    using assms(1) unfolding f64_of_nat_def e by (simp del: of_nat_add of_nat_mult add: unat_small)
qed

lemma f64_trunc_of_nat:
  assumes "n < 2 ^ 53"
  shows "f64_trunc (f64_of_nat n) = Some (int n)"
proof (cases "n = 0")
  case True
  then show ?thesis by (simp add: f64_of_nat_def f64_trunc_def)
next
  case False
  then have n: "0 < n" by simp
  let ?f = "n * 2 ^ (52 - log2 n) - 2 ^ 52"
  note F = f64_of_nat_fields [OF n assms]
  have s: "((1023 + log2 n) * 2 ^ 52 + ?f) div 2 ^ 63 = 0" using F(1,2) by (intro div_less) simp
  have e: "((1023 + log2 n) * 2 ^ 52 + ?f) div 2 ^ 52 = 1023 + log2 n" using F(2) by simp
  have m: "((1023 + log2 n) * 2 ^ 52 + ?f) mod 2 ^ 52 = ?f"
    unfolding mod_mult_self3 using F(2) by (rule mod_less)
  have e': "(1023 + log2 n) mod 2 ^ 11 = 1023 + log2 n" using F(1) by (intro mod_less) simp
  show ?thesis
    unfolding f64_trunc_def Let_def F(4) s e m e' F(3) using F(1) by (cases "log2 n = 52") simp_all
qed

lemma f64_to_int64_of_nat: "n < 2 ^ 53 \<Longrightarrow> f64_to_int64 outside (f64_of_nat n) = int n"
  by (simp add: f64_to_int64_def f64_trunc_of_nat)

end
