(* ===== verification/Sessions.thy ===== *)
theory Sessions
  imports SessionMessages Floats "HOL-Library.Multiset"
begin

text \<open>
  The registry of sessions, \<^verbatim>\<open>src/internal/opcua/session.go\<close>. Every method runs under the
  registry's lock, so each is one step. Sessions are held by value in a table keyed by their
  authentication token: only the registry has their addresses. The end hook and the
  \<^verbatim>\<open>ended\<close> channel see the sessions a call terminates, which each operation returns as a
  list. What \<^verbatim>\<open>crypto/rand\<close> yields is an argument, \<open>None\<close> for its failure; \<open>outside\<close> is the
  implementation's conversion of a \<^verbatim>\<open>float64\<close> that is not an \<^verbatim>\<open>int64\<close>.
\<close>

section \<open>Status codes and limits\<close>

definition StatusBadIdentityTokenInvalid :: StatusCode where "StatusBadIdentityTokenInvalid = 0x80200000"
definition StatusBadIdentityTokenRejected :: StatusCode where "StatusBadIdentityTokenRejected = 0x80210000"
definition StatusBadNonceInvalid :: StatusCode where "StatusBadNonceInvalid = 0x80240000"
definition StatusBadSessionIDInvalid :: StatusCode where "StatusBadSessionIDInvalid = 0x80250000"
definition StatusBadSessionClosed :: StatusCode where "StatusBadSessionClosed = 0x80260000"
definition StatusBadTooManySessions :: StatusCode where "StatusBadTooManySessions = 0x80560000"

definition AnonymousIdentityTokenEncodingID :: uint32 where "AnonymousIdentityTokenEncodingID = 321"

definition MinNonceBytes :: nat where "MinNonceBytes = 32"
definition MaxNonceBytes :: nat where "MaxNonceBytes = 128"

record SessionLimits =
  MinTimeout :: int
  MaxTimeout :: int
  MaxSessions :: int

definition DefaultSessionLimits :: SessionLimits where
  "DefaultSessionLimits = \<lparr>MinTimeout = 10 * 10 ^ 9, MaxTimeout = 10 * 60 * 10 ^ 9, MaxSessions = 8\<rparr>"

definition SessionLimits_validate :: "SessionLimits \<Rightarrow> go_error option" where
  "SessionLimits_validate limits =
     (if MinTimeout limits \<le> 0 \<or> MaxTimeout limits \<le> 0 \<or> MaxSessions limits \<le> 0 then Some PlainError
      else if MinTimeout limits > MaxTimeout limits then Some PlainError
      else None)"

text \<open>A duration divided by a millisecond is a whole number below \<open>2\<^sup>5\<^sup>3\<close>.\<close>

definition reviseTimeout :: "(float64 \<Rightarrow> int) \<Rightarrow> SessionLimits \<Rightarrow> float64 \<Rightarrow> float64" where
  "reviseTimeout outside limits requested =
     (let d = i64 (f64_to_int64 outside requested * timeMillisecond);
          d = (if f64_le requested 0 \<or> d < MinTimeout limits then MinTimeout limits else d);
          d = (if d > MaxTimeout limits then MaxTimeout limits else d)
      in f64_of_nat (nat (go_quot d timeMillisecond)))"

section \<open>One session\<close>

record SessionSecurity =
  ssMode :: SecurityMode
  ssPolicyURI :: gostring
  ssAnonymousIdentityOnly :: bool

record Session =
  sID :: NodeID
  sToken :: NodeID
  CreatedOnChannel :: uint32
  BoundChannel :: uint32
  sSecurity :: SessionSecurity
  sName :: gostring
  Timeout :: float64
  sCreatedAt :: gotime
  LastActivity :: gotime
  Activated :: bool
  inFlight :: int

definition session_expired :: "(float64 \<Rightarrow> int) \<Rightarrow> gotime \<Rightarrow> Session \<Rightarrow> bool" where
  "session_expired outside now s =
     (if inFlight s > 0 then False
      else let deadline = LastActivity s + i64 (f64_to_int64 outside (Timeout s) * timeMillisecond)
           in \<not> now < deadline)"

record SessionInfo =
  siID :: NodeID
  siToken :: NodeID
  siCreatedOnChannel :: uint32
  siBoundChannel :: uint32
  siName :: gostring
  siTimeout :: float64
  siActivated :: bool

definition SessionInfo_Key :: "SessionInfo \<Rightarrow> gostring" where
  "SessionInfo_Key info = Opaque (siToken info)"

definition session_snapshot :: "Session \<Rightarrow> SessionInfo" where
  "session_snapshot s = \<lparr>siID = sID s, siToken = sToken s, siCreatedOnChannel = CreatedOnChannel s,
     siBoundChannel = BoundChannel s, siName = sName s, siTimeout = Timeout s, siActivated = Activated s\<rparr>"

definition bindToChannel :: "uint32 \<Rightarrow> SessionSecurity \<Rightarrow> Session \<Rightarrow> go_error option \<times> Session" where
  "bindToChannel channelID security s =
     (if \<not> Activated s then
        (if channelID \<noteq> CreatedOnChannel s then (Some (uacpError StatusBadSecureChannelIDInvalid), s)
         else (None, s\<lparr>BoundChannel := channelID\<rparr>))
      else if channelID = BoundChannel s then (None, s)
      else if ssMode security \<noteq> ssMode (sSecurity s) \<or> ssPolicyURI security \<noteq> ssPolicyURI (sSecurity s)
        then (Some (uacpError StatusBadSecurityChecksFailed), s)
      else if ssAnonymousIdentityOnly security \<and> ssMode security = SecurityModeSign
        then (Some (uacpError StatusBadIdentityTokenRejected), s)
      else (None, s\<lparr>BoundChannel := channelID\<rparr>))"

definition checkClientNonce :: "byte list \<Rightarrow> SessionSecurity \<Rightarrow> go_error option" where
  "checkClientNonce nonce security =
     (if length nonce = 0 \<and> ssMode security = SecurityModeNone \<and> ssAnonymousIdentityOnly security then None
      else if length nonce < MinNonceBytes \<or> length nonce > MaxNonceBytes
        then Some (uacpError StatusBadNonceInvalid)
      else None)"

definition requireAnonymousIdentity :: "ExtensionObject \<Rightarrow> gostring \<Rightarrow> go_error option" where
  "requireAnonymousIdentity token anonymousPolicyID =
     (if NodeID_IsNull (TypeID token) \<and> Encoding token = ExtensionObjectNoBody then None
      else if Namespace (TypeID token) \<noteq> 0 \<or> Type (TypeID token) \<noteq> NodeIDTypeNumeric \<or>
        Numeric (TypeID token) \<noteq> AnonymousIdentityTokenEncodingID
        then Some (uacpError StatusBadIdentityTokenInvalid)
      else if Encoding token = ExtensionObjectNoBody then None
      else if Encoding token \<noteq> ExtensionObjectByteString then Some (uacpError StatusBadIdentityTokenInvalid)
      else case NewDecoder (Body token) DefaultBinaryLimits of
          Inl er \<Rightarrow> Some er
        | Inr decoder \<Rightarrow>
            (case ReadString decoder of
               Inl _ \<Rightarrow> Some (uacpError StatusBadIdentityTokenInvalid)
             | Inr (policyID, _) \<Rightarrow>
                 if (case policyID of None \<Rightarrow> [] | Some text \<Rightarrow> text) \<noteq> anonymousPolicyID
                 then Some (uacpError StatusBadIdentityTokenRejected) else None))"

section \<open>The registry\<close>

record SessionRegistry =
  srLimits :: SessionLimits
  srSessions :: "(gostring \<times> Session) list"
  srNextID :: uint32

definition NewSessionRegistry :: "SessionLimits \<Rightarrow> go_error + SessionRegistry" where
  "NewSessionRegistry limits = (case SessionLimits_validate limits of
       Some er \<Rightarrow> Inl er
     | None \<Rightarrow> Inr \<lparr>srLimits = limits, srSessions = [], srNextID = 0\<rparr>)"

definition SessionCount :: "SessionRegistry \<Rightarrow> int" where
  "SessionCount r = int (length (srSessions r))"

text \<open>\<^verbatim>\<open>randomBytes\<close>, given what the random source yields.\<close>

definition randomBytes :: "byte list option \<Rightarrow> go_error + byte list" where
  "randomBytes source = (case source of
       None \<Rightarrow> Inl (uacpError StatusBadTcpInternalError) | Some value \<Rightarrow> Inr value)"

definition session_Create :: "(float64 \<Rightarrow> int) \<Rightarrow> byte list option \<Rightarrow> byte list option \<Rightarrow> uint32 \<Rightarrow>
    SessionSecurity \<Rightarrow> CreateSessionRequest \<Rightarrow> gotime \<Rightarrow> SessionRegistry \<Rightarrow>
    (go_error + SessionInfo \<times> byte list) \<times> SessionRegistry" where
  "session_Create outside random1 random2 channelID security request now r =
     (case checkClientNonce (csqClientNonce request) security of
        Some er \<Rightarrow> (Inl er, r)
      | None \<Rightarrow>
     (case randomBytes random1 of Inl er \<Rightarrow> (Inl er, r) | Inr tokenBytes \<Rightarrow>
     (case randomBytes random2 of Inl er \<Rightarrow> (Inl er, r) | Inr serverNonce \<Rightarrow>
        if SessionCount r \<ge> MaxSessions (srLimits r) then (Inl (uacpError StatusBadTooManySessions), r)
        else
          let nextID = srNextID r + 1;
              session = \<lparr>sID = NumericNodeID 1 nextID,
                sToken = zeroNodeID\<lparr>Namespace := 1, Type := NodeIDTypeOpaque, Opaque := tokenBytes\<rparr>,
                CreatedOnChannel = channelID, BoundChannel = channelID, sSecurity = security,
                sName = SessionName request,
                Timeout = reviseTimeout outside (srLimits r) (RequestedSessionTimeout request),
                sCreatedAt = now, LastActivity = now, Activated = False, inFlight = 0\<rparr>
          in (Inr (session_snapshot session, serverNonce),
              r\<lparr>srNextID := nextID, srSessions := AList.update tokenBytes session (srSessions r)\<rparr>))))"

definition terminateLocked :: "Session \<Rightarrow> SessionRegistry \<Rightarrow> SessionInfo option \<times> SessionRegistry" where
  "terminateLocked s r = (let key = Opaque (sToken s)
     in case map_of (srSessions r) key of
          None \<Rightarrow> (None, r)
        | Some _ \<Rightarrow> (Some (session_snapshot s), r\<lparr>srSessions := AList.delete key (srSessions r)\<rparr>))"

definition resolveLocked :: "(float64 \<Rightarrow> int) \<Rightarrow> NodeID \<Rightarrow> gotime \<Rightarrow> SessionRegistry \<Rightarrow>
    (go_error + Session) \<times> SessionInfo list \<times> SessionRegistry" where
  "resolveLocked outside token now r =
     (if Type token \<noteq> NodeIDTypeOpaque then (Inl (uacpError StatusBadSessionIDInvalid), [], r)
      else case map_of (srSessions r) (Opaque token) of
          None \<Rightarrow> (Inl (uacpError StatusBadSessionIDInvalid), [], r)
        | Some s \<Rightarrow>
            if session_expired outside now s then
              (case terminateLocked s r of
                 (None, r') \<Rightarrow> (Inl (uacpError StatusBadSessionClosed), [], r')
               | (Some info, r') \<Rightarrow> (Inl (uacpError StatusBadSessionClosed), [info], r'))
            else (Inr s, [], r))"

definition session_lookupLocked :: "(float64 \<Rightarrow> int) \<Rightarrow> NodeID \<Rightarrow> uint32 \<Rightarrow> gotime \<Rightarrow> SessionRegistry \<Rightarrow>
    (go_error + Session) \<times> SessionInfo list \<times> SessionRegistry" where
  "session_lookupLocked outside token channelID now r =
     (case resolveLocked outside token now r of
        (Inl er, ended, r') \<Rightarrow> (Inl er, ended, r')
      | (Inr s, ended, r') \<Rightarrow>
          if BoundChannel s \<noteq> channelID then (Inl (uacpError StatusBadSecureChannelIDInvalid), ended, r')
          else (Inr s, ended, r'))"

text \<open>A change of a live session in place.\<close>

definition put_session :: "Session \<Rightarrow> SessionRegistry \<Rightarrow> SessionRegistry" where
  "put_session s r = r\<lparr>srSessions := AList.update (Opaque (sToken s)) s (srSessions r)\<rparr>"

definition session_Lookup :: "(float64 \<Rightarrow> int) \<Rightarrow> NodeID \<Rightarrow> uint32 \<Rightarrow> gotime \<Rightarrow> SessionRegistry \<Rightarrow>
    (go_error + SessionInfo) \<times> SessionInfo list \<times> SessionRegistry" where
  "session_Lookup outside token channelID now r =
     (case session_lookupLocked outside token channelID now r of
        (Inl er, ended, r') \<Rightarrow> (Inl er, ended, r')
      | (Inr s, ended, r') \<Rightarrow>
          let s' = s\<lparr>LastActivity := now\<rparr> in (Inr (session_snapshot s'), ended, put_session s' r'))"

definition session_Activate :: "(float64 \<Rightarrow> int) \<Rightarrow> byte list option \<Rightarrow> NodeID \<Rightarrow> uint32 \<Rightarrow> SessionSecurity \<Rightarrow>
    ActivateSessionRequest \<Rightarrow> gostring \<Rightarrow> gotime \<Rightarrow> SessionRegistry \<Rightarrow>
    (go_error + byte list) \<times> SessionInfo list \<times> SessionRegistry" where
  "session_Activate outside random token channelID security request anonymousPolicyID now r =
     (case requireAnonymousIdentity (UserIdentityToken request) anonymousPolicyID of
        Some er \<Rightarrow> (Inl er, [], r)
      | None \<Rightarrow>
     (case randomBytes random of Inl er \<Rightarrow> (Inl er, [], r) | Inr serverNonce \<Rightarrow>
     (case resolveLocked outside token now r of
        (Inl er, ended, r') \<Rightarrow> (Inl er, ended, r')
      | (Inr s, ended, r') \<Rightarrow>
          (case bindToChannel channelID security s of
             (Some er, s') \<Rightarrow> (Inl er, ended, put_session s' r')
           | (None, s') \<Rightarrow>
               (Inr serverNonce, ended, put_session (s'\<lparr>Activated := True, LastActivity := now\<rparr>) r')))))"

definition session_Close :: "(float64 \<Rightarrow> int) \<Rightarrow> NodeID \<Rightarrow> uint32 \<Rightarrow> gotime \<Rightarrow> SessionRegistry \<Rightarrow>
    go_error option \<times> SessionInfo list \<times> SessionRegistry" where
  "session_Close outside token channelID now r =
     (case session_lookupLocked outside token channelID now r of
        (Inl er, ended, r') \<Rightarrow> (Some er, ended, r')
      | (Inr s, ended, r') \<Rightarrow>
          (case terminateLocked s r' of
             (None, r'') \<Rightarrow> (None, ended, r'')
           | (Some info, r'') \<Rightarrow> (None, ended @ [info], r'')))"

text \<open>The loops of \<^verbatim>\<open>ExpireStale\<close> and \<^verbatim>\<open>TerminateAll\<close>, over the sessions that \<open>which\<close> selects.\<close>

fun terminateLoop :: "(Session \<Rightarrow> bool) \<Rightarrow> Session list \<Rightarrow> SessionInfo list \<Rightarrow> SessionRegistry \<Rightarrow>
    SessionInfo list \<times> SessionRegistry" where
  "terminateLoop which [] ended r = (ended, r)"
| "terminateLoop which (s # rest) ended r =
     (if which s then
        (case terminateLocked s r of
           (None, r') \<Rightarrow> terminateLoop which rest ended r'
         | (Some info, r') \<Rightarrow> terminateLoop which rest (ended @ [info]) r')
      else terminateLoop which rest ended r)"

definition session_ExpireStale :: "(float64 \<Rightarrow> int) \<Rightarrow> gotime \<Rightarrow> SessionRegistry \<Rightarrow>
    SessionInfo list \<times> SessionRegistry" where
  "session_ExpireStale outside now r =
     terminateLoop (session_expired outside now) (map snd (srSessions r)) [] r"

definition TerminateAll :: "SessionRegistry \<Rightarrow> SessionInfo list \<times> SessionRegistry" where
  "TerminateAll r = terminateLoop (\<lambda>_. True) (map snd (srSessions r)) [] r"

text \<open>
  \<^verbatim>\<open>BeginRequest\<close> returns the key of the session whose count the release function it makes
  will lower. That function holds the session itself; it is found here by its token, which
  no other session gets while the request is open.
\<close>

definition BeginRequest :: "NodeID \<Rightarrow> SessionRegistry \<Rightarrow> gostring option \<times> SessionRegistry" where
  "BeginRequest token r = (case map_of (srSessions r) (Opaque token) of
       None \<Rightarrow> (None, r)
     | Some s \<Rightarrow> (Some (Opaque token),
         r\<lparr>srSessions := AList.update (Opaque token) (s\<lparr>inFlight := inFlight s + 1\<rparr>) (srSessions r)\<rparr>))"

definition EndRequest :: "gostring \<Rightarrow> gotime \<Rightarrow> SessionRegistry \<Rightarrow> SessionRegistry" where
  "EndRequest key now r = (case map_of (srSessions r) key of
       None \<Rightarrow> r
     | Some s \<Rightarrow>
         let s' = (if inFlight s > 0 then s\<lparr>inFlight := inFlight s - 1\<rparr> else s)
         in r\<lparr>srSessions := AList.update key (s'\<lparr>LastActivity := now\<rparr>) (srSessions r)\<rparr>)"

section \<open>The revised timeout\<close>

definition clampTimeout :: "SessionLimits \<Rightarrow> int \<Rightarrow> int" where
  "clampTimeout L d = min (MaxTimeout L) (max (MinTimeout L) d)"

definition timeout_ok :: "SessionLimits \<Rightarrow> float64 \<Rightarrow> bool" where
  "timeout_ok L t \<longleftrightarrow> (\<exists>d. MinTimeout L \<le> d \<and> d \<le> MaxTimeout L \<and> t = f64_of_nat (nat (d div 10 ^ 6)))"

lemma SessionLimits_valid:
  "SessionLimits_validate L = None \<longleftrightarrow>
     0 < MinTimeout L \<and> MinTimeout L \<le> MaxTimeout L \<and> 0 < MaxSessions L"
  by (auto simp: SessionLimits_validate_def)

lemma clampTimeout_range:
  assumes "SessionLimits_validate L = None"
  shows "MinTimeout L \<le> clampTimeout L d" and "clampTimeout L d \<le> MaxTimeout L" and "0 < clampTimeout L d"
  using assms by (auto simp: clampTimeout_def SessionLimits_valid)

lemma reviseTimeout_eq:
  assumes "SessionLimits_validate L = None"
  shows "reviseTimeout outside L q =
    f64_of_nat (nat (clampTimeout L (if f64_le q 0 then MinTimeout L
      else i64 (f64_to_int64 outside q * 10 ^ 6)) div 10 ^ 6))"
proof -
  have "go_quot d timeMillisecond = d div 10 ^ 6" if "0 < d" for d
    using that by (simp add: go_quot_nonneg timeMillisecond_def)
  then show ?thesis
    using assms by (auto simp: reviseTimeout_def Let_def clampTimeout_def SessionLimits_valid timeMillisecond_def)
qed

lemma reviseTimeout_ok:
  assumes "SessionLimits_validate L = None"
  shows "timeout_ok L (reviseTimeout outside L q)"
  unfolding timeout_ok_def reviseTimeout_eq [OF assms] using clampTimeout_range [OF assms] by blast

text \<open>The period after which a silent session ends, in nanoseconds.\<close>

lemma timeout_period:
  assumes "SessionLimits_validate L = None" and "MaxTimeout L < 2 ^ 63"
    and "MinTimeout L \<le> d" and "d \<le> MaxTimeout L"
  shows "i64 (f64_to_int64 outside (f64_of_nat (nat (d div 10 ^ 6))) * timeMillisecond) = d div 10 ^ 6 * 10 ^ 6"
proof -
  have d: "0 < d" "d < 2 ^ 63" using assms by (auto simp: SessionLimits_valid)
  then have "nat (d div 10 ^ 6) < 2 ^ 53" by simp
  moreover have "d div 10 ^ 6 * 10 ^ 6 \<le> d" by simp
  then have "i64 (d div 10 ^ 6 * 10 ^ 6) = d div 10 ^ 6 * 10 ^ 6" using d
    by (intro i64_nonneg) (auto simp: MaxInt64_def pos_imp_zdiv_nonneg_iff)
  ultimately show ?thesis using d by (simp add: f64_to_int64_of_nat timeMillisecond_def pos_imp_zdiv_nonneg_iff)
qed

section \<open>The invariant\<close>

text \<open>
  The state of the machine is the registry with the requests being served, one entry for
  each, the token of its session. A new session's token is 32 random bytes, which is assumed
  not to be that of a session or of a request that is still open.
\<close>

type_synonym session_state = "SessionRegistry \<times> gostring list"

definition session_ok :: "SessionLimits \<Rightarrow> gostring list \<Rightarrow> gostring \<Rightarrow> Session \<Rightarrow> bool" where
  "session_ok L out key s \<longleftrightarrow> key = Opaque (sToken s) \<and> Type (sToken s) = NodeIDTypeOpaque \<and>
     inFlight s = int (count_list out key) \<and>
     (\<not> Activated s \<longrightarrow> BoundChannel s = CreatedOnChannel s) \<and> timeout_ok L (Timeout s)"

fun session_inv :: "session_state \<Rightarrow> bool" where
  "session_inv (r, out) \<longleftrightarrow> SessionLimits_validate (srLimits r) = None \<and>
     table_wf (session_ok (srLimits r) out) (srSessions r) \<and> SessionCount r \<le> MaxSessions (srLimits r)"

inductive session_step :: "(float64 \<Rightarrow> int) \<Rightarrow> session_state \<Rightarrow> session_state \<Rightarrow> bool" for outside where
  create: "session_Create outside (Some token) random i security request now r = (result, r') \<Longrightarrow>
     map_of (srSessions r) token = None \<Longrightarrow> token \<notin> set out \<Longrightarrow> session_step outside (r, out) (r', out)"
| lookup: "session_Lookup outside token i now r = (found, ended, r') \<Longrightarrow> session_step outside (r, out) (r', out)"
| activate: "session_Activate outside random token i security req policy now r = (nonce, ended, r') \<Longrightarrow>
     session_step outside (r, out) (r', out)"
| close: "session_Close outside token i now r = (er, ended, r') \<Longrightarrow> session_step outside (r, out) (r', out)"
| expire: "session_ExpireStale outside now r = (ended, r') \<Longrightarrow> session_step outside (r, out) (r', out)"
| shutdown: "TerminateAll r = (ended, r') \<Longrightarrow> session_step outside (r, out) (r', out)"
| begin_request: "BeginRequest token r = (Some key, r') \<Longrightarrow> session_step outside (r, out) (r', key # out)"
| end_request: "key \<in> set out \<Longrightarrow> session_step outside (r, out) (EndRequest key now r, remove1 key out)"

definition session_start :: "session_state \<Rightarrow> bool" where
  "session_start st \<longleftrightarrow> (\<exists>limits. NewSessionRegistry limits = Inr (fst st)) \<and> snd st = []"

lemma session_found:
  assumes "session_inv (r, out)" and "map_of (srSessions r) key = Some s"
  shows "session_ok (srLimits r) out key s"
  using assms by (auto dest: table_wf_lookup)

lemma session_inv_update:
  assumes "session_inv (r, out)" and "map_of (srSessions r) key = Some s" and "session_ok (srLimits r) out key s'"
  shows "session_inv (r\<lparr>srSessions := AList.update key s' (srSessions r)\<rparr>, out)"
  using assms by (auto simp: table_wf_update SessionCount_def length_update)

lemma session_inv_put:
  assumes "session_inv (r, out)" and "map_of (srSessions r) (Opaque (sToken s)) = Some s0"
    and "session_ok (srLimits r) out (Opaque (sToken s)) s"
  shows "session_inv (put_session s r, out)"
  unfolding put_session_def using assms by (rule session_inv_update)

lemma session_inv_fewer:
  assumes "session_inv (r, out)" and "table_wf (session_ok (srLimits r) out) al"
    and "length al \<le> length (srSessions r)"
  shows "session_inv (r\<lparr>srSessions := al\<rparr>, out)"
  using assms by (simp add: SessionCount_def)

lemma session_inv_delete: "session_inv (r, out) \<Longrightarrow> session_inv (r\<lparr>srSessions := AList.delete k (srSessions r)\<rparr>, out)"
  by (rule session_inv_fewer) (auto intro: table_wf_delete length_delete_le)

lemma resolveLocked_cases:
  assumes "session_inv (r, out)"
  shows "resolveLocked outside token now r =
    (if Type token \<noteq> NodeIDTypeOpaque then (Inl (uacpError StatusBadSessionIDInvalid), [], r)
     else case map_of (srSessions r) (Opaque token) of
         None \<Rightarrow> (Inl (uacpError StatusBadSessionIDInvalid), [], r)
       | Some s \<Rightarrow> if session_expired outside now s
           then (Inl (uacpError StatusBadSessionClosed), [session_snapshot s],
             r\<lparr>srSessions := AList.delete (Opaque token) (srSessions r)\<rparr>)
           else (Inr s, [], r))"
  using session_found [OF assms, of "Opaque token"]
  by (auto simp: resolveLocked_def terminateLocked_def Let_def session_ok_def split: option.splits)

text \<open>Going through the ranges of the two loops removes exactly the sessions they select.\<close>

lemma terminateLocked_split:
  assumes "distinct (map fst (pre @ (k, s) # rest))" and "k = Opaque (sToken s)"
    and "srSessions r = pre @ (k, s) # rest"
  shows "terminateLocked s r = (Some (session_snapshot s), r\<lparr>srSessions := pre @ rest\<rparr>)"
proof -
  have k: "k \<notin> fst ` set pre" "k \<notin> fst ` set rest" using assms(1) by auto
  then have "AList.delete k pre = pre" "AList.delete k rest = rest" by (auto intro: AList.delete_idem)
  then have "AList.delete k (srSessions r) = pre @ rest" using assms(3) by (simp add: AList.delete_eq)
  moreover have "map_of pre k = None" using k by (simp add: map_of_eq_None_iff)
  then have "map_of (srSessions r) k = Some s" using assms(3) by (simp add: map_add_def)
  moreover note assms(2)
  ultimately show ?thesis by (simp add: terminateLocked_def Let_def)
qed

lemma terminateLoop_split:
  assumes "table_wf (\<lambda>k s. k = Opaque (sToken s)) (pre @ rest)" and "srSessions r = pre @ rest"
  shows "terminateLoop which (map snd rest) ended r =
    (ended @ map session_snapshot (filter which (map snd rest)),
     r\<lparr>srSessions := pre @ filter (\<lambda>(k, s). \<not> which s) rest\<rparr>)"
  using assms
proof (induction rest arbitrary: pre ended r)
  case (Cons p rest)
  obtain k s where p: "p = (k, s)" by (cases p)
  show ?case
  proof (cases "which s")
    case True
    have "terminateLocked s r = (Some (session_snapshot s), r\<lparr>srSessions := pre @ rest\<rparr>)"
      using Cons.prems p by (intro terminateLocked_split) (auto simp: table_wf_def)
    moreover have "table_wf (\<lambda>k s. k = Opaque (sToken s)) (pre @ rest)"
      using Cons.prems p by (auto simp: table_wf_def)
    ultimately show ?thesis
      using True p Cons.IH [of pre "r\<lparr>srSessions := pre @ rest\<rparr>" "ended @ [session_snapshot s]"] by simp
  next
    case False
    then show ?thesis using p Cons.prems Cons.IH [of "pre @ [(k, s)]" r ended] by simp
  qed
qed (simp add: SessionRegistry.surjective)

lemma session_keys:
  assumes "session_inv (r, out)"
  shows "table_wf (\<lambda>k s. k = Opaque (sToken s)) (srSessions r)"
  using assms by (auto elim!: table_wf_mono simp: session_ok_def)

lemma terminateLoop_all:
  assumes "session_inv (r, out)"
  shows "terminateLoop which (map snd (srSessions r)) [] r =
    (map session_snapshot (filter which (map snd (srSessions r))),
     r\<lparr>srSessions := filter (\<lambda>(k, s). \<not> which s) (srSessions r)\<rparr>)"
  using terminateLoop_split [of "[]" "srSessions r" r which "[]"] session_keys [OF assms] by simp

lemma session_inv_filter:
  "session_inv (r, out) \<Longrightarrow> session_inv (r\<lparr>srSessions := filter Q (srSessions r)\<rparr>, out)"
  by (rule session_inv_fewer) (auto intro: table_wf_filter)

lemma session_inv_empty: "session_inv (r, out) \<Longrightarrow> session_inv (r\<lparr>srSessions := []\<rparr>, out)"
  by (rule session_inv_fewer) auto

lemma Create_cases:
  assumes "session_inv (r, out)"
  shows "session_Create outside random1 random2 i security request now r =
    (case checkClientNonce (csqClientNonce request) security of
        Some er \<Rightarrow> (Inl er, r)
      | None \<Rightarrow> (case (random1, random2) of
          (Some token, Some nonce) \<Rightarrow>
            if SessionCount r \<ge> MaxSessions (srLimits r) then (Inl (uacpError StatusBadTooManySessions), r)
            else let s = \<lparr>sID = NumericNodeID 1 (srNextID r + 1),
                sToken = zeroNodeID\<lparr>Namespace := 1, Type := NodeIDTypeOpaque, Opaque := token\<rparr>,
                CreatedOnChannel = i, BoundChannel = i, sSecurity = security, sName = SessionName request,
                Timeout = reviseTimeout outside (srLimits r) (RequestedSessionTimeout request),
                sCreatedAt = now, LastActivity = now, Activated = False, inFlight = 0\<rparr>
              in (Inr (session_snapshot s, nonce),
                r\<lparr>srNextID := srNextID r + 1, srSessions := AList.update token s (srSessions r)\<rparr>)
        | _ \<Rightarrow> (Inl (uacpError StatusBadTcpInternalError), r)))"
  by (auto simp: session_Create_def randomBytes_def Let_def split: option.splits)

lemma Create_inv:
  assumes inv: "session_inv (r, out)" and new: "map_of (srSessions r) token = None" "token \<notin> set out"
  shows "session_inv (snd (session_Create outside (Some token) random2 i security request now r), out)"
proof -
  have "0 = int (count_list out token)" using new(2) by (simp add: count_list_0_iff)
  moreover have "timeout_ok (srLimits r) (reviseTimeout outside (srLimits r) q)" for q
    using inv by (intro reviseTimeout_ok) simp
  ultimately show ?thesis using inv new(1)
    by (auto simp: Create_cases [OF inv] Let_def SessionCount_def length_update session_ok_def zeroNodeID_def
        intro!: table_wf_update split: option.splits)
qed

lemma resolveLocked_inv:
  assumes inv: "session_inv (r, out)" and res: "resolveLocked outside token now r = (found, ended, r')"
  shows "session_inv (r', out)"
    and "found = Inr s \<Longrightarrow> r' = r \<and> map_of (srSessions r) (Opaque (sToken s)) = Some s \<and>
      session_ok (srLimits r) out (Opaque (sToken s)) s"
  using assms session_inv_delete [OF inv, of "Opaque token"] session_found [OF inv, of "Opaque token"]
  by (auto simp: resolveLocked_cases [OF inv] session_ok_def split: option.splits if_splits)

lemma session_lookupLocked_inv:
  assumes inv: "session_inv (r, out)" and "session_lookupLocked outside token i now r = (found, ended, r')"
  shows "session_inv (r', out)"
    and "found = Inr s \<Longrightarrow> r' = r \<and> map_of (srSessions r) (Opaque (sToken s)) = Some s \<and>
      session_ok (srLimits r) out (Opaque (sToken s)) s"
  using assms resolveLocked_inv [OF inv, of outside token now]
  by (auto simp: session_lookupLocked_def split: prod.splits sum.splits if_splits)

declare session_inv.simps [simp del]

lemma session_ok_touch: "session_ok L out k s \<Longrightarrow> session_ok L out k (s\<lparr>LastActivity := now\<rparr>)"
  by (simp add: session_ok_def)

lemma Lookup_inv:
  assumes inv: "session_inv (r, out)" and "session_Lookup outside token i now r = (found, ended, r')"
  shows "session_inv (r', out)"
  using assms(2) session_lookupLocked_inv [OF inv, of outside token i now]
  by (auto simp: session_Lookup_def Let_def split: prod.splits sum.splits
      intro!: session_inv_put session_ok_touch)

lemma bindToChannel_ok:
  assumes "session_ok L out k s" and "bindToChannel i security s = (er, s')"
  shows "session_ok L out k s'" and "sToken s' = sToken s"
    and "session_ok L out k (s'\<lparr>Activated := True, LastActivity := now\<rparr>)"
  using assms by (auto simp: bindToChannel_def session_ok_def split: if_splits)

lemma Activate_inv:
  assumes inv: "session_inv (r, out)"
    and "session_Activate outside random token i security request policy now r = (nonce, ended, r')"
  shows "session_inv (r', out)"
proof -
  have put: "session_inv (put_session t r, out)"
    if "resolveLocked outside token now r = (Inr s, e, q)" "bindToChannel i security s = (er, s')"
      "t = s' \<or> t = s'\<lparr>Activated := True, LastActivity := now\<rparr>" for s e q er s' t
    using that resolveLocked_inv(2) [OF inv that(1), of s] bindToChannel_ok [OF _ that(2)] inv
    by (auto intro!: session_inv_put)
  then show ?thesis
    using assms(2) resolveLocked_inv [OF inv, of outside token now] inv
    by (auto simp: session_Activate_def split: prod.splits sum.splits option.splits)
qed

lemma Close_session_inv:
  assumes inv: "session_inv (r, out)" and "session_Close outside token i now r = (er, ended, r')"
  shows "session_inv (r', out)"
  using assms(2) session_lookupLocked_inv [OF inv, of outside token i now]
  by (auto simp: session_Close_def terminateLocked_def Let_def split: prod.splits sum.splits option.splits
      intro!: session_inv_delete)

lemma Begin_inv:
  assumes inv: "session_inv (r, out)" and "BeginRequest token r = (Some key, r')"
  shows "session_inv (r', key # out)"
proof -
  obtain s where s: "map_of (srSessions r) key = Some s" "key = Opaque token"
    "r' = r\<lparr>srSessions := AList.update key (s\<lparr>inFlight := inFlight s + 1\<rparr>) (srSessions r)\<rparr>"
    using assms(2) by (auto simp: BeginRequest_def split: option.splits)
  have wf: "table_wf (\<lambda>k v. session_ok (srLimits r) out k v) (srSessions r)" using inv by (simp add: session_inv.simps)
  have "table_wf (session_ok (srLimits r) (key # out))
      (AList.update key (s\<lparr>inFlight := inFlight s + 1\<rparr>) (srSessions r))"
    using wf session_found [OF inv s(1)] by (auto simp: session_ok_def intro!: table_wf_change)
  then show ?thesis using inv s(1,3) by (simp add: session_inv.simps SessionCount_def length_update)
qed

lemma End_inv:
  assumes inv: "session_inv (r, out)" and "key \<in> set out"
  shows "session_inv (EndRequest key now r, remove1 key out)"
proof -
  have wf: "table_wf (session_ok (srLimits r) out) (srSessions r)" using inv by (simp add: session_inv.simps)
  have count: "count_list (remove1 key out) k = (if k = key then count_list out k - 1 else count_list out k)"
    "0 < count_list out key" for k
    using assms(2) by (auto simp: count_list_remove1 count_list_pos)
  show ?thesis
  proof (cases "map_of (srSessions r) key")
    case None
    have "table_wf (session_ok (srLimits r) (remove1 key out)) (srSessions r)"
      using wf None count by (auto simp: table_wf_iff_lookup session_ok_def) 
    with None inv show ?thesis by (simp add: EndRequest_def session_inv.simps)
  next
    case (Some s)
    from session_found [OF inv Some] have "session_ok (srLimits r) (remove1 key out) key
        (s\<lparr>inFlight := inFlight s - 1, LastActivity := now\<rparr>)" "0 < inFlight s"
      using count by (auto simp: session_ok_def)
    moreover from this(1) have "table_wf (session_ok (srLimits r) (remove1 key out))
        (AList.update key (s\<lparr>inFlight := inFlight s - 1, LastActivity := now\<rparr>) (srSessions r))"
      using wf count(1) by (auto simp: session_ok_def intro!: table_wf_change)
    ultimately show ?thesis using inv Some
      by (simp add: EndRequest_def session_inv.simps SessionCount_def length_update)
  qed
qed

interpretation session_machine: state_machine session_start "session_step outside" session_inv for outside
proof unfold_locales
  show "session_start st \<Longrightarrow> session_inv st" for st
    by (cases st) (auto simp: session_start_def NewSessionRegistry_def session_inv.simps SessionCount_def
        SessionLimits_valid split: option.splits)
  show "session_inv s \<Longrightarrow> session_step outside s t \<Longrightarrow> session_inv t" for s t
  proof (erule session_step.cases)
    fix token random2 i security request now r result r' out
    assume "session_inv s" "s = (r, out)" "t = (r', out)"
      "session_Create outside (Some token) random2 i security request now r = (result, r')"
      "map_of (srSessions r) token = None" "token \<notin> set out"
    then show "session_inv t" using Create_inv by (metis snd_conv)
  qed (auto simp: session_ExpireStale_def TerminateAll_def terminateLoop_all
      intro: Lookup_inv Activate_inv Close_session_inv Begin_inv End_inv session_inv_filter session_inv_empty)
qed

section \<open>Properties\<close>

definition session_limits_sample :: SessionLimits where
  "session_limits_sample = \<lparr>MinTimeout = 10 ^ 9, MaxTimeout = 60 * 10 ^ 9, MaxSessions = 1\<rparr>"

definition security_sample :: SessionSecurity where
  "security_sample = \<lparr>ssMode = SecurityModeNone, ssPolicyURI = [], ssAnonymousIdentityOnly = True\<rparr>"

text \<open>A registry with one session, activated on channel 7, with one request open.\<close>

definition session_sample :: Session where
  "session_sample = \<lparr>sID = NumericNodeID 1 1,
     sToken = zeroNodeID\<lparr>Namespace := 1, Type := NodeIDTypeOpaque, Opaque := [1, 2, 3]\<rparr>,
     CreatedOnChannel = 7, BoundChannel = 7, sSecurity = security_sample, sName = [], Timeout = f64_of_nat 1000,
     sCreatedAt = 0, LastActivity = 0, Activated = True, inFlight = 1\<rparr>"

definition session_registry_sample :: SessionRegistry where
  "session_registry_sample =
     \<lparr>srLimits = session_limits_sample, srSessions = [([1, 2, 3], session_sample)], srNextID = 1\<rparr>"

text \<open>
  What a lookup decides: the token must name a live session that has not run out, and the
  channel must be the one the session is bound to.
\<close>

lemma Lookup_cases:
  assumes "session_inv (r, out)"
  shows "session_Lookup outside token i now r =
    (if Type token \<noteq> NodeIDTypeOpaque then (Inl (uacpError StatusBadSessionIDInvalid), [], r)
     else case map_of (srSessions r) (Opaque token) of
         None \<Rightarrow> (Inl (uacpError StatusBadSessionIDInvalid), [], r)
       | Some s \<Rightarrow>
           if session_expired outside now s then (Inl (uacpError StatusBadSessionClosed), [session_snapshot s],
             r\<lparr>srSessions := AList.delete (Opaque token) (srSessions r)\<rparr>)
           else if BoundChannel s \<noteq> i then (Inl (uacpError StatusBadSecureChannelIDInvalid), [], r)
           else (Inr (session_snapshot s), [],
             r\<lparr>srSessions := AList.update (Opaque token) (s\<lparr>LastActivity := now\<rparr>) (srSessions r)\<rparr>))"
  using session_found [OF assms, of "Opaque token"]
  by (auto simp: session_Lookup_def session_lookupLocked_def resolveLocked_cases [OF assms] put_session_def
      session_ok_def session_snapshot_def Let_def split: option.splits)

text \<open>
  Claim C27: in every state the registry can reach, over any order of creations, lookups,
  activations, closes, expirations, shutdowns and requests beginning and ending, it holds at
  most \<^verbatim>\<open>MaxSessions\<close> sessions, each under its own opaque token; a session's count of open
  requests is the number of requests begun on it and not ended; a session that was never
  activated is bound to the channel it was created on; and its timeout is within the limits.
\<close>
theorem session_registry_safe:
  assumes "reachable session_start (session_step outside) (r, out)"
  shows "SessionCount r \<le> MaxSessions (srLimits r) \<and> distinct (map fst (srSessions r)) \<and>
    (\<forall>key s. map_of (srSessions r) key = Some s \<longrightarrow>
       key = Opaque (sToken s) \<and> Type (sToken s) = NodeIDTypeOpaque \<and>
       inFlight s = int (count_list out key) \<and>
       (\<not> Activated s \<longrightarrow> BoundChannel s = CreatedOnChannel s) \<and> timeout_ok (srLimits r) (Timeout s))"
proof -
  have "session_inv (r, out)" using assms by (rule session_machine.reachable_inv)
  then show ?thesis by (auto simp: session_inv.simps table_wf_iff_lookup session_ok_def)
qed

definition create_request_sample :: CreateSessionRequest where
  "create_request_sample = \<lparr>csqHeader = request_header_sample,
     ClientDescription = \<lparr>ApplicationURI = [], ProductURI = [], ApplicationName = \<lparr>lLocale = [], lText = []\<rparr>,
       adApplicationType = ApplicationTypeServer, GatewayServerURI = [], DiscoveryProfileURI = [], DiscoveryURLs = None\<rparr>,
     ServerURI = [], csqEndpointURL = [], SessionName = [], csqClientNonce = [], ClientCertificate = [],
     RequestedSessionTimeout = 0, MaxResponseMessageSize = 0\<rparr>"

definition activate_request_sample :: ActivateSessionRequest where
  "activate_request_sample = \<lparr>asqHeader = request_header_sample, ClientSignature = \<lparr>Algorithm = [], sdSignature = []\<rparr>,
     ClientSoftwareCertificates = [], LocaleIDs = None, UserIdentityToken = NullExtensionObject,
     UserTokenSignature = \<lparr>Algorithm = [], sdSignature = []\<rparr>\<rparr>"

lemma session_sample_reachable:
  "reachable session_start (session_step outside) (session_registry_sample, [[1, 2, 3]])"
proof -
  let ?r0 = "\<lparr>srLimits = session_limits_sample, srSessions = [], srNextID = 0\<rparr>"
  let ?s1 = "session_sample\<lparr>Activated := False, inFlight := 0\<rparr>"
  let ?r1 = "session_registry_sample\<lparr>srSessions := [([1, 2, 3], ?s1)]\<rparr>"
  let ?r2 = "session_registry_sample\<lparr>srSessions := [([1, 2, 3], session_sample\<lparr>inFlight := 0\<rparr>)]\<rparr>"
  have valid: "SessionLimits_validate session_limits_sample = None"
    by (simp add: SessionLimits_valid session_limits_sample_def)
  have size: "MaxSessions session_limits_sample = 1" by (simp add: session_limits_sample_def)
  have timeout: "reviseTimeout outside session_limits_sample 0 = f64_of_nat 1000"
    unfolding reviseTimeout_eq [OF valid]
    by (simp add: f64_le_def isNaN64_def clampTimeout_def session_limits_sample_def)
  have live: "\<not> session_expired outside 0 ?s1"
    using timeout_period [OF valid, of "10 ^ 9" outside]
    by (simp add: session_expired_def session_sample_def session_limits_sample_def Let_def)
  have "session_start (?r0, [])" using valid by (simp add: session_start_def NewSessionRegistry_def exI [of _ session_limits_sample])
  moreover have "session_step outside (?r0, []) (?r1, [])"
    by (rule session_step.create [where token = "[1, 2, 3]" and random = "Some []" and i = 7 and
          security = security_sample and request = create_request_sample and now = 0 and
          result = "Inr (session_snapshot ?s1, [])"])
      (simp_all add: session_Create_def checkClientNonce_def create_request_sample_def security_sample_def
        randomBytes_def SessionCount_def Let_def session_registry_sample_def session_sample_def timeout size)
  moreover have "session_step outside (?r1, []) (?r2, [])"
    by (rule session_step.activate [where random = "Some []" and token = "sToken session_sample" and i = 7 and
          security = security_sample and req = activate_request_sample and policy = "[]" and now = 0])
      (use live in \<open>simp add: session_Activate_def requireAnonymousIdentity_def activate_request_sample_def
        NullExtensionObject_def NumericNodeID_def zeroNodeID_def NodeID_IsNull_def randomBytes_def resolveLocked_def
        session_registry_sample_def session_sample_def bindToChannel_def put_session_def\<close>)
  moreover have "session_step outside (?r2, []) (session_registry_sample, [[1, 2, 3]])"
    by (rule session_step.begin_request [where token = "sToken session_sample"])
      (simp add: BeginRequest_def session_registry_sample_def session_sample_def)
  ultimately show ?thesis by (meson reachable.intros)
qed

theorem session_registry_safe_witness:
  "SessionCount session_registry_sample = 1 \<and> inFlight session_sample = int (count_list [[1, 2, 3 :: byte]] [1, 2, 3]) \<and>
   timeout_ok session_limits_sample (Timeout session_sample)"
  using session_registry_safe [OF session_sample_reachable]
  by (simp add: session_registry_sample_def SessionCount_def)

text \<open>The rule that decides on which channel a session may be activated.\<close>

definition may_bind :: "uint32 \<Rightarrow> SessionSecurity \<Rightarrow> Session \<Rightarrow> bool" where
  "may_bind i security s \<longleftrightarrow>
     (if Activated s then i = BoundChannel s \<or>
        ssMode security = ssMode (sSecurity s) \<and> ssPolicyURI security = ssPolicyURI (sSecurity s) \<and>
        \<not> (ssAnonymousIdentityOnly security \<and> ssMode security = SecurityModeSign)
      else i = CreatedOnChannel s)"

lemma bindToChannel_result:
  "fst (bindToChannel i security s) = None \<longleftrightarrow> may_bind i security s"
  "may_bind i security s \<Longrightarrow> snd (bindToChannel i security s) = s\<lparr>BoundChannel := i\<rparr>"
  "\<not> may_bind i security s \<Longrightarrow> snd (bindToChannel i security s) = s"
  by (auto simp: bindToChannel_def may_bind_def)

lemma put_same:
  assumes "session_inv (r, out)" and "map_of (srSessions r) (Opaque (sToken s)) = Some s"
  shows "put_session s r = r"
proof -
  have "AList.update k v al = al" if "map_of al k = Some v" for k :: gostring and v :: Session and al
    using that by (induction al) (auto split: if_splits)
  with assms(2) show ?thesis by (simp add: put_session_def)
qed

lemma Activate_cases:
  assumes inv: "session_inv (r, out)" and "Type token = NodeIDTypeOpaque"
    and "requireAnonymousIdentity (UserIdentityToken request) policy = None"
  shows "session_Activate outside (Some nonce) token i security request policy now r =
    (case map_of (srSessions r) (Opaque token) of
       None \<Rightarrow> (Inl (uacpError StatusBadSessionIDInvalid), [], r)
     | Some s \<Rightarrow>
         if session_expired outside now s then (Inl (uacpError StatusBadSessionClosed), [session_snapshot s],
           r\<lparr>srSessions := AList.delete (Opaque token) (srSessions r)\<rparr>)
         else if may_bind i security s then (Inr nonce, [], r\<lparr>srSessions := AList.update (Opaque token)
           (s\<lparr>BoundChannel := i, Activated := True, LastActivity := now\<rparr>) (srSessions r)\<rparr>)
         else (Inl (the (fst (bindToChannel i security s))), [], r))"
proof -
  have key: "map_of (srSessions r) (Opaque token) = Some s \<Longrightarrow> Opaque (sToken s) = Opaque token" for s
    using session_found [OF inv] by (auto simp: session_ok_def)
  note b = bindToChannel_result [of i security]
  show ?thesis
  proof (cases "map_of (srSessions r) (Opaque token)")
    case None
    then show ?thesis using assms
      by (simp add: session_Activate_def randomBytes_def resolveLocked_cases [OF inv])
  next
    case (Some s)
    have "put_session s r = r" using put_same [OF inv, of s] Some key by simp
    with Some assms key [OF Some] b [of s] show ?thesis
      by (cases "bindToChannel i security s")
        (auto simp: session_Activate_def randomBytes_def resolveLocked_cases [OF inv] put_session_def split: option.splits)
  qed
qed

lemma session_period:
  assumes "session_inv (r, out)" and "MaxTimeout (srLimits r) < 2 ^ 63" and "map_of (srSessions r) key = Some s"
  shows "\<exists>period. MinTimeout (srLimits r) - 10 ^ 6 < period \<and> period \<le> MaxTimeout (srLimits r) \<and>
    (\<forall>s' now. Timeout s' = Timeout s \<longrightarrow>
       session_expired outside now s' \<longleftrightarrow> inFlight s' \<le> 0 \<and> LastActivity s' + period \<le> now)"
proof -
  obtain d where d: "MinTimeout (srLimits r) \<le> d" "d \<le> MaxTimeout (srLimits r)"
    "Timeout s = f64_of_nat (nat (d div 10 ^ 6))"
    using session_found [OF assms(1,3)] by (auto simp: session_ok_def timeout_ok_def)
  have "SessionLimits_validate (srLimits r) = None" using assms(1) by (simp add: session_inv.simps)
  note p = timeout_period [OF this assms(2) d(1,2), of outside, folded d(3)]
  have "d - 10 ^ 6 < d div 10 ^ 6 * 10 ^ 6" "d div 10 ^ 6 * 10 ^ 6 \<le> d"
    using mult_div_mod_eq [of "10 ^ 6" d] pos_mod_bound [of "10 ^ 6" d] by auto
  with d p show ?thesis
    by (intro exI [of _ "d div 10 ^ 6 * 10 ^ 6"]) (auto simp: session_expired_def Let_def)
qed

text \<open>
  Claim C28: an activation with an anonymous identity succeeds exactly when the token names a
  session that has not run out and the channel may carry it: the creating channel for the
  first activation, afterwards the bound channel or one with the same security. A refusal
  changes nothing, except that a session found to have run out is removed. After a success,
  and until the next change of the registry, a request on that session is accepted on that
  channel and on no other (so the old one is refused), up to a deadline that is the revised
  timeout after the activation, or without limit while a request is open.
\<close>
theorem session_activation_exact:
  assumes "session_inv (r, out)" and "MaxTimeout (srLimits r) < 2 ^ 63"
    and "Type token = NodeIDTypeOpaque"
    and "requireAnonymousIdentity (UserIdentityToken request) policy = None"
    and "session_Activate outside (Some nonce) token i security request policy now r = (result, ended, r')"
  shows "case map_of (srSessions r) (Opaque token) of
      None \<Rightarrow> result = Inl (uacpError StatusBadSessionIDInvalid) \<and> ended = [] \<and> r' = r
    | Some s \<Rightarrow>
        if session_expired outside now s
        then result = Inl (uacpError StatusBadSessionClosed) \<and> ended = [session_snapshot s] \<and>
          map_of (srSessions r') (Opaque token) = None
        else if \<not> may_bind i security s then (\<exists>er. result = Inl er) \<and> ended = [] \<and> r' = r
        else result = Inr nonce \<and> ended = [] \<and>
          (\<exists>period. MinTimeout (srLimits r) - 10 ^ 6 < period \<and> period \<le> MaxTimeout (srLimits r) \<and>
             (\<forall>j later. (\<exists>info. fst (session_Lookup outside token j later r') = Inr info) \<longleftrightarrow>
                j = i \<and> (0 < inFlight s \<or> later < now + period)))"
proof (cases "map_of (srSessions r) (Opaque token)")
  case None
  then show ?thesis using assms(5) by (auto simp: Activate_cases [OF assms(1,3,4)])
next
  case (Some s)
  show ?thesis
  proof (cases "session_expired outside now s \<or> \<not> may_bind i security s")
    case True
    then show ?thesis using assms(5) Some
      by (auto simp: Activate_cases [OF assms(1,3,4)] delete_conv' split: if_splits)
  next
    case False
    let ?s = "s\<lparr>BoundChannel := i, Activated := True, LastActivity := now\<rparr>"
    have r': "result = Inr nonce" "ended = []" "map_of (srSessions r') (Opaque token) = Some ?s"
      using assms(5) Some False by (auto simp: Activate_cases [OF assms(1,3,4)] update_conv')
    obtain period where p: "MinTimeout (srLimits r) - 10 ^ 6 < period" "period \<le> MaxTimeout (srLimits r)"
      "\<And>later. session_expired outside later ?s \<longleftrightarrow> inFlight s \<le> 0 \<and> now + period \<le> later"
      using session_period [OF assms(1,2) Some, of outside] by force
    have "session_inv (r', out)" using Activate_inv [OF assms(1,5)] .
    from Lookup_cases [OF this, of outside token] r'(3) assms(3)
    have "(\<exists>info. fst (session_Lookup outside token j later r') = Inr info) \<longleftrightarrow>
        j = i \<and> (0 < inFlight s \<or> later < now + period)" for j later
      using p(3) [of later] by (auto simp: not_le)
    with p(1,2) r' False Some show ?thesis by auto
  qed
qed

theorem session_activation_exact_witness:
  "\<exists>r' period. session_Activate (\<lambda>_. 0) (Some [9]) (sToken session_sample) 8 security_sample
      activate_request_sample [] 5 session_registry_sample = (Inr [9], [], r') \<and>
    (\<forall>j later. (\<exists>info. fst (session_Lookup (\<lambda>_. 0) (sToken session_sample) j later r') = Inr info) \<longleftrightarrow>
       j = 8 \<and> (0 < inFlight session_sample \<or> later < 5 + period))"
proof -
  have inv: "session_inv (session_registry_sample, [[1, 2, 3]])"
    by (rule session_machine.reachable_inv [OF session_sample_reachable])
  have m: "MaxTimeout (srLimits session_registry_sample) < 2 ^ 63"
    by (simp add: session_registry_sample_def session_limits_sample_def)
  have t: "Type (sToken session_sample) = NodeIDTypeOpaque" by (simp add: session_sample_def zeroNodeID_def)
  have q: "requireAnonymousIdentity (UserIdentityToken activate_request_sample) [] = None"
    by (simp add: requireAnonymousIdentity_def activate_request_sample_def NullExtensionObject_def
        NumericNodeID_def zeroNodeID_def NodeID_IsNull_def)
  obtain result ended r' where a: "session_Activate (\<lambda>_. 0) (Some [9]) (sToken session_sample) 8
      security_sample activate_request_sample [] 5 session_registry_sample = (result, ended, r')"
    by (metis prod_cases3)
  have "map_of (srSessions session_registry_sample) (Opaque (sToken session_sample)) = Some session_sample"
    by (simp add: session_registry_sample_def session_sample_def)
  moreover have "\<not> session_expired (\<lambda>_. 0) 5 session_sample" "may_bind 8 security_sample session_sample"
    by (simp_all add: session_expired_def session_sample_def may_bind_def security_sample_def SecurityModeNone_def
        SecurityModeSign_def)
  ultimately show ?thesis using session_activation_exact [OF inv m t q a] a by auto
qed

text \<open>The calls that may end sessions, with what they hand to the end hook.\<close>

inductive session_call :: "(float64 \<Rightarrow> int) \<Rightarrow> SessionRegistry \<Rightarrow> SessionInfo list \<Rightarrow> SessionRegistry \<Rightarrow> bool"
  for outside r where
  lookup: "session_Lookup outside token i now r = (found, ended, r') \<Longrightarrow> session_call outside r ended r'"
| activate: "session_Activate outside random token i security req policy now r = (nonce, ended, r') \<Longrightarrow>
    session_call outside r ended r'"
| close: "session_Close outside token i now r = (er, ended, r') \<Longrightarrow> session_call outside r ended r'"
| expire: "session_ExpireStale outside now r = (ended, r') \<Longrightarrow> session_call outside r ended r'"
| shutdown: "TerminateAll r = (ended, r') \<Longrightarrow> session_call outside r ended r'"

definition conserves :: "SessionRegistry \<Rightarrow> SessionInfo list \<Rightarrow> SessionRegistry \<Rightarrow> bool" where
  "conserves r ended r' \<longleftrightarrow>
     mset (map fst (srSessions r)) = mset (map fst (srSessions r')) + mset (map SessionInfo_Key ended)"

lemma conserves_refl: "conserves r [] r"
  by (simp add: conserves_def)

lemma mset_keys_delete:
  assumes "distinct (map fst al)" and "map_of al k = Some v"
  shows "mset (map fst al) = add_mset k (mset (map fst (AList.delete k al)))"
proof -
  have "map fst (AList.delete k al) = remove1 k (map fst al)"
    using assms(1) by (simp add: delete_keys distinct_remove1_removeAll [symmetric] removeAll_filter_not_eq [symmetric])
  moreover have "k \<in> set (map fst al)" using assms(2) by (force dest: map_of_SomeD)
  ultimately show ?thesis by simp
qed

lemma conserves_delete:
  assumes "session_inv (r, out)" and "map_of (srSessions r) k = Some s"
  shows "conserves r [session_snapshot s] (r\<lparr>srSessions := AList.delete k (srSessions r)\<rparr>)"
  using mset_keys_delete [OF _ assms(2)] assms session_found [OF assms]
  by (auto simp: conserves_def session_inv.simps table_wf_def SessionInfo_Key_def session_snapshot_def session_ok_def)

lemma conserves_put:
  assumes "map_of (srSessions r) (Opaque (sToken s)) \<noteq> None"
  shows "conserves r [] (put_session s r)"
  using alist_update_old [OF assms] by (simp add: conserves_def put_session_def)

lemma conserves_loop:
  assumes "session_inv (r, out)"
  shows "conserves r (map session_snapshot (filter which (map snd (srSessions r))))
    (r\<lparr>srSessions := filter (\<lambda>(k, s). \<not> which s) (srSessions r)\<rparr>)"
proof -
  have "mset (map fst al) = mset (map fst (filter (\<lambda>(k, s). \<not> which s) al)) +
      mset (map SessionInfo_Key (map session_snapshot (filter which (map snd al))))"
    if "list_all (\<lambda>(k, s). k = Opaque (sToken s)) al" for al
    using that by (induction al) (auto simp: SessionInfo_Key_def session_snapshot_def)
  then show ?thesis using session_keys [OF assms] by (simp add: conserves_def table_wf_def)
qed

lemma resolveLocked_conserves:
  assumes inv: "session_inv (r, out)" and res: "resolveLocked outside token now r = (found, ended, r')"
  shows "conserves r ended r'" and "found = Inr s \<Longrightarrow> ended = []"
  using res conserves_refl conserves_delete [OF inv]
  by (auto simp: resolveLocked_cases [OF inv] split: option.splits if_splits)

lemma session_lookupLocked_conserves:
  assumes inv: "session_inv (r, out)" and "session_lookupLocked outside token i now r = (found, ended, r')"
  shows "conserves r ended r'" and "found = Inr s \<Longrightarrow> ended = []"
  using assms(2) resolveLocked_conserves [OF inv, of outside token now]
  by (auto simp: session_lookupLocked_def split: prod.splits sum.splits if_splits)

lemma Lookup_conserves:
  assumes inv: "session_inv (r, out)" and "session_Lookup outside token i now r = (found, ended, r')"
  shows "conserves r ended r'"
  using assms(2) session_lookupLocked_inv [OF inv, of outside token i now]
    session_lookupLocked_conserves [OF inv, of outside token i now]
  by (auto simp: session_Lookup_def Let_def split: prod.splits sum.splits intro!: conserves_put)

lemma Activate_conserves:
  assumes inv: "session_inv (r, out)"
    and "session_Activate outside random token i security request policy now r = (nonce, ended, r')"
  shows "conserves r ended r'"
proof -
  have "conserves r [] (put_session t r)"
    if "resolveLocked outside token now r = (Inr s, e, q)" "bindToChannel i security s = (er, s')"
      "t = s' \<or> t = s'\<lparr>Activated := True, LastActivity := now\<rparr>" for s e q er s' t
    using that resolveLocked_inv(2) [OF inv that(1), of s] bindToChannel_ok(2) [OF _ that(2)]
    by (auto intro!: conserves_put)
  then show ?thesis
    using assms(2) resolveLocked_inv(2) [OF inv, of outside token now]
      resolveLocked_conserves [OF inv, of outside token now] conserves_refl
    by (auto simp: session_Activate_def split: prod.splits sum.splits option.splits)
qed

lemma Close_conserves:
  assumes inv: "session_inv (r, out)" and "session_Close outside token i now r = (er, ended, r')"
  shows "conserves r ended r'"
  using assms(2) session_lookupLocked_inv [OF inv, of outside token i now]
    session_lookupLocked_conserves [OF inv, of outside token i now] conserves_delete [OF inv]
  by (auto simp: session_Close_def terminateLocked_def Let_def split: prod.splits sum.splits option.splits)

text \<open>
  Claim C29: no session leaves the registry unnoticed, and none is reported twice. Whatever a
  lookup, an activation, a close, an expiration or a shutdown removes is exactly what it hands
  to the end hook, once for each session.
\<close>
theorem sessions_end_once:
  assumes inv: "session_inv (r, out)" and "session_call outside r ended r'"
  shows "mset (map fst (srSessions r)) = mset (map fst (srSessions r')) + mset (map SessionInfo_Key ended) \<and>
    distinct (map SessionInfo_Key ended)"
proof -
  have c: "conserves r ended r'"
    using assms(2)
    by cases (auto simp: session_ExpireStale_def TerminateAll_def terminateLoop_all [OF inv]
        intro: Lookup_conserves [OF inv] Activate_conserves [OF inv] Close_conserves [OF inv] conserves_loop [OF inv]
        conserves_loop [OF inv, of "\<lambda>_. True", simplified])
  have "distinct (map fst (srSessions r))" using inv by (simp add: session_inv.simps table_wf_def)
  with c have "mset (map fst (srSessions r' ) @ map SessionInfo_Key ended) = mset (map fst (srSessions r))"
    by (simp add: conserves_def)
  then have "distinct (map fst (srSessions r') @ map SessionInfo_Key ended)"
    using \<open>distinct (map fst (srSessions r))\<close> by (metis mset_eq_imp_distinct_iff)
  with c show ?thesis by (simp add: conserves_def)
qed

theorem sessions_end_once_witness:
  "TerminateAll session_registry_sample =
     ([session_snapshot session_sample], session_registry_sample\<lparr>srSessions := []\<rparr>) \<and>
   mset (map fst (srSessions session_registry_sample)) = {#[1, 2, 3]#}"
proof -
  have inv: "session_inv (session_registry_sample, [[1, 2, 3]])"
    by (rule session_machine.reachable_inv [OF session_sample_reachable])
  have t: "TerminateAll session_registry_sample =
     ([session_snapshot session_sample], session_registry_sample\<lparr>srSessions := []\<rparr>)"
    by (simp add: TerminateAll_def terminateLoop_all [OF inv]) (simp add: session_registry_sample_def)
  from sessions_end_once [OF inv session_call.shutdown [OF t]] t show ?thesis
    by (simp add: session_snapshot_def SessionInfo_Key_def session_sample_def)
qed

text \<open>
  Claim C34: an expiration keeps a session, unchanged, exactly while one of its requests is
  still open or its revised timeout has not passed since its last activity; otherwise it
  removes the session and reports it.
\<close>
theorem session_expiry_exact:
  assumes "session_inv (r, out)" and "MaxTimeout (srLimits r) < 2 ^ 63"
    and "map_of (srSessions r) key = Some s"
  shows "\<exists>period. MinTimeout (srLimits r) - 10 ^ 6 < period \<and> period \<le> MaxTimeout (srLimits r) \<and>
    (\<forall>now. if key \<in> set out \<or> now < LastActivity s + period
       then map_of (srSessions (snd (session_ExpireStale outside now r))) key = Some s
       else map_of (srSessions (snd (session_ExpireStale outside now r))) key = None \<and>
         session_snapshot s \<in> set (fst (session_ExpireStale outside now r)))"
proof -
  obtain period where p: "MinTimeout (srLimits r) - 10 ^ 6 < period" "period \<le> MaxTimeout (srLimits r)"
    "\<And>now. session_expired outside now s \<longleftrightarrow> inFlight s \<le> 0 \<and> LastActivity s + period \<le> now"
    using session_period [OF assms] by blast
  have "distinct (map fst (srSessions r))" using assms(1) by (simp add: session_inv.simps table_wf_def)
  note f = map_of_filter [OF this, of "\<lambda>_ s. \<not> session_expired outside _ s" key]
  have "inFlight s \<le> 0 \<longleftrightarrow> key \<notin> set out"
    using session_found [OF assms(1,3)] count_list_pos [of out key] by (auto simp: session_ok_def)
  then have e: "session_expired outside now s \<longleftrightarrow> \<not> (key \<in> set out \<or> now < LastActivity s + period)" for now
    using p(3) by (auto simp: not_le)
  have "s \<in> set (map snd (srSessions r))" using assms(3) by (force dest: map_of_SomeD)
  then show ?thesis using p(1,2) assms(3) e
    by (intro exI [of _ period]) (auto simp: session_ExpireStale_def terminateLoop_all [OF assms(1)] f)
qed

theorem session_expiry_exact_witness:
  "map_of (srSessions (snd (session_ExpireStale (\<lambda>_. 0) (10 ^ 20) session_registry_sample))) [1, 2, 3] =
     Some session_sample"
  using session_expiry_exact [OF session_machine.reachable_inv [OF session_sample_reachable],
      where key = "[1, 2, 3]" and s = session_sample and outside = "\<lambda>_. 0"]
  by (auto simp: session_registry_sample_def session_limits_sample_def)

text \<open>
  The timeout granted is always a whole number of milliseconds between the limits.
  A request that is not positive gets the minimum, and one whose nanoseconds fit the
  \<^verbatim>\<open>int64\<close> of a duration gets the requested value clamped to the limits.
\<close>
theorem reviseTimeout_exact:
  assumes "SessionLimits_validate L = None" and "MaxTimeout L < 2 ^ 63"
  shows "\<exists>ms. f64_trunc (reviseTimeout outside L q) = Some ms \<and>
    MinTimeout L div 10 ^ 6 \<le> ms \<and> ms \<le> MaxTimeout L div 10 ^ 6 \<and>
    (f64_le q 0 \<longrightarrow> ms = MinTimeout L div 10 ^ 6) \<and>
    (\<forall>n. f64_trunc q = Some n \<longrightarrow> \<not> f64_le q 0 \<longrightarrow> 0 \<le> n \<longrightarrow> n * 10 ^ 6 < 2 ^ 63 \<longrightarrow>
       ms = clampTimeout L (n * 10 ^ 6) div 10 ^ 6)"
proof -
  let ?d = "clampTimeout L (if f64_le q 0 then MinTimeout L else i64 (f64_to_int64 outside q * 10 ^ 6))"
  note r = clampTimeout_range [OF assms(1)]
  have "0 < ?d" "?d < 2 ^ 63" using r(3) le_less_trans [OF r(2) assms(2)] by blast+
  then have "f64_trunc (reviseTimeout outside L q) = Some (?d div 10 ^ 6)"
    unfolding reviseTimeout_eq [OF assms(1)] by (subst f64_trunc_of_nat) (auto simp: pos_imp_zdiv_nonneg_iff)
  moreover have "clampTimeout L (MinTimeout L) = MinTimeout L"
    using assms(1) by (simp add: clampTimeout_def SessionLimits_valid)
  moreover have "f64_trunc q = Some n \<Longrightarrow> 0 \<le> n \<Longrightarrow> n * 10 ^ 6 < 2 ^ 63 \<Longrightarrow>
      i64 (f64_to_int64 outside q * 10 ^ 6) = n * 10 ^ 6" for n
    by (simp add: f64_to_int64_def i64_nonneg MaxInt64_def)
  ultimately show ?thesis using r(1,2) order_trans [OF r(1) r(2)] by (auto intro!: zdiv_mono1)
qed

lemma default_limits_valid: "SessionLimits_validate DefaultSessionLimits = None"
  by (simp add: SessionLimits_valid DefaultSessionLimits_def)

theorem reviseTimeout_exact_witness:
  "\<exists>ms. f64_trunc (reviseTimeout (\<lambda>_. 0) DefaultSessionLimits (f64_of_nat 0)) = Some ms \<and> 10000 \<le> ms \<and> ms \<le> 600000"
  using reviseTimeout_exact [OF default_limits_valid, of "\<lambda>_. 0" "f64_of_nat 0"]
  by (auto simp: DefaultSessionLimits_def)

text \<open>
  A request of some 292 years overflows the duration, which becomes negative: it gets the
  minimum and not the maximum.
\<close>

lemma reviseTimeout_wraps:
  "reviseTimeout outside DefaultSessionLimits (f64_of_nat 9223372036855) = f64_of_nat 10000"
proof -
  have "i64 (9223372036855 * 10 ^ 6) < 0" by (simp add: i64_def signed_take_bit_eq_take_bit_minus take_bit_eq_mod)
  then have "clampTimeout DefaultSessionLimits (i64 (9223372036855 * 10 ^ 6)) = 10 ^ 10"
    by (simp add: clampTimeout_def DefaultSessionLimits_def)
  moreover have "f64_to_int64 outside (f64_of_nat 9223372036855) = 9223372036855"
    by (subst f64_to_int64_of_nat) auto
  moreover have "clampTimeout DefaultSessionLimits (MinTimeout DefaultSessionLimits) = 10 ^ 10"
    by (simp add: clampTimeout_def DefaultSessionLimits_def)
  ultimately show ?thesis unfolding reviseTimeout_eq [OF default_limits_valid] by simp
qed

end
