(* ===== verification/StandardNodes.thy ===== *)
theory StandardNodes
  imports NodeModel Sessions
begin

text \<open>
  The address space and the nodes the server publishes about itself:
  \<^verbatim>\<open>src/internal/opcua/addressspace.go\<close> (configuration, \<^verbatim>\<open>NewAddressSpace\<close>,
  \<^verbatim>\<open>addStandardNodes\<close>) and \<^verbatim>\<open>serverstatus.go\<close> (the Server object with its status, capabilities
  and redundancy). A \<^verbatim>\<open>*Node\<close> that the construction mutates is threaded through it; a reference
  copies only the identity of its target, so the order of the calls does not matter to it.
\<close>

section \<open>Constants of serverstatus.go\<close>

definition NodeIDServerStatus :: uint32 where "NodeIDServerStatus = 2256"
definition NodeIDServerStatusStartTime :: uint32 where "NodeIDServerStatusStartTime = 2257"
definition NodeIDServerStatusCurrentTime :: uint32 where "NodeIDServerStatusCurrentTime = 2258"
definition NodeIDServerStatusState :: uint32 where "NodeIDServerStatusState = 2259"
definition NodeIDServerStatusBuildInfo :: uint32 where "NodeIDServerStatusBuildInfo = 2260"
definition NodeIDServerStatusBuildInfoProductName :: uint32 where "NodeIDServerStatusBuildInfoProductName = 2261"
definition NodeIDServerStatusBuildInfoProductURI :: uint32 where "NodeIDServerStatusBuildInfoProductURI = 2262"
definition NodeIDServerStatusBuildInfoManufacture :: uint32 where "NodeIDServerStatusBuildInfoManufacture = 2263"
definition NodeIDServerStatusBuildInfoSoftware :: uint32 where "NodeIDServerStatusBuildInfoSoftware = 2264"
definition NodeIDServerStatusBuildInfoBuildNumber :: uint32 where "NodeIDServerStatusBuildInfoBuildNumber = 2265"
definition NodeIDServerStatusBuildInfoBuildDate :: uint32 where "NodeIDServerStatusBuildInfoBuildDate = 2266"
definition NodeIDServerServiceLevel :: uint32 where "NodeIDServerServiceLevel = 2267"
definition NodeIDServerAuditing :: uint32 where "NodeIDServerAuditing = 2994"
definition NodeIDServerCapabilities :: uint32 where "NodeIDServerCapabilities = 2268"
definition NodeIDServerCapabilitiesProfileArray :: uint32 where "NodeIDServerCapabilitiesProfileArray = 2269"
definition NodeIDServerCapabilitiesLocaleIDArray :: uint32 where "NodeIDServerCapabilitiesLocaleIDArray = 2271"
definition NodeIDServerCapabilitiesMinSampleRate :: uint32 where "NodeIDServerCapabilitiesMinSampleRate = 2272"
definition NodeIDServerCapabilitiesMaxBrowseCP :: uint32 where "NodeIDServerCapabilitiesMaxBrowseCP = 2735"
definition NodeIDServerCapabilitiesMaxQueryCP :: uint32 where "NodeIDServerCapabilitiesMaxQueryCP = 2736"
definition NodeIDServerCapabilitiesMaxHistoryCP :: uint32 where "NodeIDServerCapabilitiesMaxHistoryCP = 2737"
definition NodeIDServerCapabilitiesSoftwareCerts :: uint32 where "NodeIDServerCapabilitiesSoftwareCerts = 3704"
definition NodeIDServerCapabilitiesModellingRules :: uint32 where "NodeIDServerCapabilitiesModellingRules = 2996"
definition NodeIDServerCapabilitiesAggregateFunctions :: uint32 where "NodeIDServerCapabilitiesAggregateFunctions = 2997"
definition NodeIDServerCapabilitiesOperationLimits :: uint32 where "NodeIDServerCapabilitiesOperationLimits = 11704"
definition NodeIDOperationLimitsMaxNodesPerRead :: uint32 where "NodeIDOperationLimitsMaxNodesPerRead = 11705"
definition NodeIDOperationLimitsMaxNodesPerWrite :: uint32 where "NodeIDOperationLimitsMaxNodesPerWrite = 11707"
definition NodeIDOperationLimitsMaxNodesPerBrowse :: uint32 where "NodeIDOperationLimitsMaxNodesPerBrowse = 11710"
definition NodeIDServerVendorServerInfo :: uint32 where "NodeIDServerVendorServerInfo = 2295"
definition NodeIDServerRedundancy :: uint32 where "NodeIDServerRedundancy = 2296"
definition NodeIDServerRedundancySupport :: uint32 where "NodeIDServerRedundancySupport = 3709"
definition NodeIDServerStatusType :: uint32 where "NodeIDServerStatusType = 2138"
definition NodeIDBuildInfoType :: uint32 where "NodeIDBuildInfoType = 3051"
definition NodeIDBaseDataVariable :: uint32 where "NodeIDBaseDataVariable = 63"
definition NodeIDServerStatusDataType :: uint32 where "NodeIDServerStatusDataType = 862"
definition NodeIDBuildInfoDataType :: uint32 where "NodeIDBuildInfoDataType = 338"
definition NodeIDServerStateDataType :: uint32 where "NodeIDServerStateDataType = 852"
definition NodeIDUtcTimeDataType :: uint32 where "NodeIDUtcTimeDataType = 294"
definition NodeIDServerCapabilitiesType :: uint32 where "NodeIDServerCapabilitiesType = 2013"
definition NodeIDOperationLimitsType :: uint32 where "NodeIDOperationLimitsType = 11564"
definition NodeIDDurationDataType :: uint32 where "NodeIDDurationDataType = 290"
definition NodeIDLocaleIDDataType :: uint32 where "NodeIDLocaleIDDataType = 295"
definition NodeIDSignedSoftwareCert :: uint32 where "NodeIDSignedSoftwareCert = 344"
definition NodeIDUInt16DataType :: uint32 where "NodeIDUInt16DataType = 5"
definition NodeIDUInt32DataType :: uint32 where "NodeIDUInt32DataType = 7"
definition NodeIDVendorServerInfoType :: uint32 where "NodeIDVendorServerInfoType = 2033"
definition NodeIDServerRedundancyType :: uint32 where "NodeIDServerRedundancyType = 2034"
definition NodeIDRedundancySupportType :: uint32 where "NodeIDRedundancySupportType = 851"
definition NodeIDServerStatusEncodingID :: uint32 where "NodeIDServerStatusEncodingID = 864"
definition NodeIDBuildInfoEncodingID :: uint32 where "NodeIDBuildInfoEncodingID = 340"

definition redundancySupportNone :: int32 where "redundancySupportNone = 0"
definition ServerStateRunning :: int32 where "ServerStateRunning = 0"
definition serviceLevelFullyOperational :: byte where "serviceLevelFullyOperational = 255"

section \<open>Configuration and state\<close>

record ServerLimits =
  MinPublishingInterval :: int
  MaxBrowseContinuationPoints :: int
  MaxNodesPerRead :: int
  MaxNodesPerWrite :: int
  MaxNodesPerBrowse :: int

record AddressSpaceConfig =
  NamespaceURI :: gostring
  SourceFolderName :: gostring
  acApplicationURI :: gostring
  acLimits :: ServerLimits
  acProductURI :: gostring
  ManufacturerName :: gostring
  ProductName :: gostring
  SoftwareVersion :: gostring
  BuildNumber :: gostring
  BuildDate :: gotime

definition AddressSpaceConfig_validate :: "AddressSpaceConfig \<Rightarrow> go_error option" where
  "AddressSpaceConfig_validate config =
     (if NamespaceURI config = [] then Some PlainError
      else if acApplicationURI config = [] then Some PlainError
      else if SourceFolderName config = [] then Some PlainError
      else None)"

text \<open>
  The map of nodes is a table in insertion order under the key of the identifier; its size is
  what the node budget counts.
\<close>

record AddressSpace =
  asConfig :: AddressSpaceConfig
  nodes :: "(gostring \<times> Node) list"
  branchIDs :: "gostring \<rightharpoonup> NodeID"
  sourceFolder :: NodeID
  binaryLimits :: BinaryLimits
  standardNodeCount :: int
  startTime :: gotime

definition NamespaceURIs :: "AddressSpace \<Rightarrow> gostring list" where
  "NamespaceURIs s =
     [lit ''http://opcfoundation.org/UA/'', acApplicationURI (asConfig s), NamespaceURI (asConfig s)]"

definition SourceFolderID :: "AddressSpace \<Rightarrow> NodeID" where
  "SourceFolderID s = sourceFolder s"

section \<open>Nodes of the server\<close>

definition ns0 :: "gostring \<Rightarrow> QualifiedName" where "ns0 name = \<lparr>qNamespace = 0, qName = name\<rparr>"
definition text_of :: "gostring \<Rightarrow> LocalizedText" where "text_of name = \<lparr>lLocale = [], lText = name\<rparr>"

definition folderNode :: "NodeID \<Rightarrow> gostring \<Rightarrow> Node" where
  "folderNode i name = zeroNode\<lparr>nID := i, nClass := NodeClassObject, nBrowseName := ns0 name,
     nDisplayName := text_of name, nTypeDefinition := NumericNodeID 0 NodeIDFolderType\<rparr>"

text \<open>An Object of namespace 0 with a type definition of its own.\<close>

definition objectNode :: "uint32 \<Rightarrow> gostring \<Rightarrow> uint32 \<Rightarrow> Node" where
  "objectNode i name typeDefinition = zeroNode\<lparr>nID := NumericNodeID 0 i, nClass := NodeClassObject,
     nBrowseName := ns0 name, nDisplayName := text_of name,
     nTypeDefinition := NumericNodeID 0 typeDefinition\<rparr>"

definition standardProperty :: "uint32 \<Rightarrow> gostring \<Rightarrow> gostring list \<Rightarrow> Node" where
  "standardProperty identifier name values = zeroNode\<lparr>nID := NumericNodeID 0 identifier,
     nClass := NodeClassVariable, nBrowseName := ns0 name, nDisplayName := text_of name,
     nTypeDefinition := NumericNodeID 0 NodeIDPropertyType, nDataType := NumericNodeID 0 NodeIDString,
     DataTypeKnown := True, ValueRank := ValueRankOneDimension, AccessLevel := AccessLevelCurrentRead,
     AccessRightsKnown := True,
     LocalValue := Some (staticLocalValue (Variant BuiltInString (GStrings values) True []))\<rparr>"

definition localVariable :: "uint32 \<Rightarrow> gostring \<Rightarrow> uint32 \<Rightarrow> uint32 \<Rightarrow> (gotime \<Rightarrow> Variant) \<Rightarrow> Node" where
  "localVariable identifier name typeDefinition dataType value = zeroNode\<lparr>nID := NumericNodeID 0 identifier,
     nClass := NodeClassVariable, nBrowseName := ns0 name, nDisplayName := text_of name,
     nTypeDefinition := NumericNodeID 0 typeDefinition, nDataType := NumericNodeID 0 dataType,
     DataTypeKnown := True, ValueRank := ValueRankScalar, AccessLevel := AccessLevelCurrentRead,
     AccessRightsKnown := True, LocalValue := Some value\<rparr>"

record buildInfo =
  biProductURI :: gostring
  biManufacturerName :: gostring
  biProductName :: gostring
  biSoftwareVersion :: gostring
  biBuildNumber :: gostring
  biBuildDate :: gotime

definition buildInfo_encode :: "buildInfo \<Rightarrow> Encoder \<Rightarrow> Encoder" where
  "buildInfo_encode info = seqw [WriteString (biProductURI info), WriteString (biManufacturerName info),
     WriteString (biProductName info), WriteString (biSoftwareVersion info),
     WriteString (biBuildNumber info), WriteDateTime (biBuildDate info)]"

definition scalar :: "BuiltInTypeID \<Rightarrow> go_value \<Rightarrow> Variant" where
  "scalar t v = Variant t v False []"

definition extensionObject :: "AddressSpace \<Rightarrow> uint32 \<Rightarrow> (Encoder \<Rightarrow> Encoder) \<Rightarrow> Variant \<times> bool" where
  "extensionObject s encodingID write = (case NewEncoder (binaryLimits s) of
       Inl _ \<Rightarrow> (NullVariant, False)
     | Inr encoder \<Rightarrow> (case Bytes (write encoder) of
           Inl _ \<Rightarrow> (NullVariant, False)
         | Inr body \<Rightarrow> (scalar BuiltInExtensionObject (GExtensionObject
             \<lparr>TypeID = NumericNodeID 0 encodingID, Encoding = ExtensionObjectByteString, Body = body\<rparr>), True)))"

text \<open>\<^verbatim>\<open>value, ok := s.extensionObject(...); if !ok { return NullVariant() }\<close>.\<close>

definition extensionOrNull :: "AddressSpace \<Rightarrow> uint32 \<Rightarrow> (Encoder \<Rightarrow> Encoder) \<Rightarrow> Variant" where
  "extensionOrNull s encodingID write =
     (let (value, ok) = extensionObject s encodingID write in if \<not> ok then NullVariant else value)"

text \<open>
  A loop that links each child below a parent: the parent gets a forward reference to each
  child, each child an inverse one to the parent.
\<close>

definition linkChildren :: "NodeID \<Rightarrow> Node list \<Rightarrow> Node \<Rightarrow> Node" where
  "linkChildren referenceType children parent =
     foldl (\<lambda>p child. addForward referenceType child p) parent children"

definition configBuildInfo :: "AddressSpaceConfig \<Rightarrow> buildInfo" where
  "configBuildInfo config = \<lparr>biProductURI = acProductURI config,
     biManufacturerName = ManufacturerName config, biProductName = ProductName config,
     biSoftwareVersion = SoftwareVersion config, biBuildNumber = BuildNumber config,
     biBuildDate = BuildDate config\<rparr>"

definition serverStatusValue :: "AddressSpace \<Rightarrow> gotime \<Rightarrow> Variant" where
  "serverStatusValue s now = extensionOrNull s NodeIDServerStatusEncodingID (seqw
     [WriteDateTime (startTime s), WriteDateTime now, WriteInt32 ServerStateRunning,
      buildInfo_encode (configBuildInfo (asConfig s)), WriteUInt32 0,
      WriteLocalizedText \<lparr>lLocale = [], lText = []\<rparr>])"

definition buildChildren :: "buildInfo \<Rightarrow> Node list" where
  "buildChildren info =
     map (\<lambda>(i, name, value). localVariable i name NodeIDBaseDataVariable NodeIDString
            (staticLocalValue (scalar BuiltInString (GString value))))
       [(NodeIDServerStatusBuildInfoProductURI, lit ''ProductUri'', biProductURI info),
        (NodeIDServerStatusBuildInfoManufacture, lit ''ManufacturerName'', biManufacturerName info),
        (NodeIDServerStatusBuildInfoProductName, lit ''ProductName'', biProductName info),
        (NodeIDServerStatusBuildInfoSoftware, lit ''SoftwareVersion'', biSoftwareVersion info),
        (NodeIDServerStatusBuildInfoBuildNumber, lit ''BuildNumber'', biBuildNumber info)] @
     [localVariable NodeIDServerStatusBuildInfoBuildDate (lit ''BuildDate'')
        NodeIDBaseDataVariable NodeIDUtcTimeDataType
        (staticLocalValue (scalar BuiltInDateTime (GTime (biBuildDate info))))]"

definition addServerStatusNodes :: "AddressSpace \<Rightarrow> Node \<Rightarrow> Node \<times> Node list" where
  "addServerStatusNodes s server = (let
     info = configBuildInfo (asConfig s);
     status = localVariable NodeIDServerStatus (lit ''ServerStatus'') NodeIDServerStatusType
       NodeIDServerStatusDataType (serverStatusValue s);
     build = localVariable NodeIDServerStatusBuildInfo (lit ''BuildInfo'') NodeIDBuildInfoType
       NodeIDBuildInfoDataType (\<lambda>_. extensionOrNull s NodeIDBuildInfoEncodingID (buildInfo_encode info));
     startTimeNode = localVariable NodeIDServerStatusStartTime (lit ''StartTime'') NodeIDBaseDataVariable
       NodeIDUtcTimeDataType (staticLocalValue (scalar BuiltInDateTime (GTime (startTime s))));
     currentTime = localVariable NodeIDServerStatusCurrentTime (lit ''CurrentTime'') NodeIDBaseDataVariable
       NodeIDUtcTimeDataType (\<lambda>now. scalar BuiltInDateTime (GTime now));
     state = localVariable NodeIDServerStatusState (lit ''State'') NodeIDBaseDataVariable
       NodeIDServerStateDataType (staticLocalValue (scalar BuiltInInt32 (GInt32 ServerStateRunning)));
     children = buildChildren info;
     serviceLevel = localVariable NodeIDServerServiceLevel (lit ''ServiceLevel'') NodeIDPropertyType
       NodeIDByte (staticLocalValue (scalar BuiltInByte (GUInt8 serviceLevelFullyOperational)));
     auditing = localVariable NodeIDServerAuditing (lit ''Auditing'') NodeIDPropertyType
       NodeIDBoolean (staticLocalValue (scalar BuiltInBoolean (GBool False)));
     hasComponent = NumericNodeID 0 NodeIDHasComponent;
     hasProperty = NumericNodeID 0 NodeIDHasProperty;
     server = addForward hasComponent status server;
     status = addInverse hasComponent server status;
     server = addForward hasProperty serviceLevel server;
     serviceLevel = addInverse hasProperty server serviceLevel;
     server = addForward hasProperty auditing server;
     auditing = addInverse hasProperty server auditing;
     status = linkChildren hasComponent [startTimeNode, currentTime, state, build] status;
     startTimeNode = addInverse hasComponent status startTimeNode;
     currentTime = addInverse hasComponent status currentTime;
     state = addInverse hasComponent status state;
     build = addInverse hasComponent status build;
     build = linkChildren hasComponent children build
     in (server, [status, build, startTimeNode, currentTime, state, serviceLevel, auditing] @
           map (addInverse hasComponent build) children))"

definition capability :: "uint32 \<Rightarrow> gostring \<Rightarrow> uint32 \<Rightarrow> Variant \<Rightarrow> Node" where
  "capability identifier name dataType value =
     localVariable identifier name NodeIDPropertyType dataType (\<lambda>_. value)"

text \<open>
  \<^verbatim>\<open>float64(interval / time.Millisecond)\<close>, for the non-negative intervals a configuration
  holds, and the conversions of an \<^verbatim>\<open>int\<close> to \<^verbatim>\<open>uint16\<close> and \<^verbatim>\<open>uint32\<close>, which truncate.
\<close>

definition addServerCapabilitiesNodes :: "AddressSpace \<Rightarrow> Node \<Rightarrow> Node \<times> Node list" where
  "addServerCapabilitiesNodes s server = (let
     limitsOf = acLimits (asConfig s);
     capabilities = objectNode NodeIDServerCapabilities (lit ''ServerCapabilities'') NodeIDServerCapabilitiesType;
     profiles = capability NodeIDServerCapabilitiesProfileArray (lit ''ServerProfileArray'') NodeIDString
       (Variant BuiltInString (GStrings []) True []);
     locales = capability NodeIDServerCapabilitiesLocaleIDArray (lit ''LocaleIdArray'') NodeIDLocaleIDDataType
       (Variant BuiltInString (GStrings []) True []);
     sampleRate = capability NodeIDServerCapabilitiesMinSampleRate (lit ''MinSupportedSampleRate'')
       NodeIDDurationDataType
       (scalar BuiltInDouble (GFloat64 (f64_of_nat (nat (go_quot (MinPublishingInterval limitsOf) timeMillisecond)))));
     browsePoints = capability NodeIDServerCapabilitiesMaxBrowseCP (lit ''MaxBrowseContinuationPoints'')
       NodeIDUInt16DataType (scalar BuiltInUInt16 (GUInt16 (of_int (MaxBrowseContinuationPoints limitsOf))));
     queryPoints = capability NodeIDServerCapabilitiesMaxQueryCP (lit ''MaxQueryContinuationPoints'')
       NodeIDUInt16DataType (scalar BuiltInUInt16 (GUInt16 0));
     historyPoints = capability NodeIDServerCapabilitiesMaxHistoryCP (lit ''MaxHistoryContinuationPoints'')
       NodeIDUInt16DataType (scalar BuiltInUInt16 (GUInt16 0));
     certificates = capability NodeIDServerCapabilitiesSoftwareCerts (lit ''SoftwareCertificates'')
       NodeIDSignedSoftwareCert (Variant BuiltInExtensionObject (GExtensionObjects []) True []);
     modellingRules = folderNode (NumericNodeID 0 NodeIDServerCapabilitiesModellingRules) (lit ''ModellingRules'');
     aggregates = folderNode (NumericNodeID 0 NodeIDServerCapabilitiesAggregateFunctions) (lit ''AggregateFunctions'');
     limits = objectNode NodeIDServerCapabilitiesOperationLimits (lit ''OperationLimits'') NodeIDOperationLimitsType;
     maxRead = capability NodeIDOperationLimitsMaxNodesPerRead (lit ''MaxNodesPerRead'')
       NodeIDUInt32DataType (scalar BuiltInUInt32 (GUInt32 (of_int (MaxNodesPerRead limitsOf))));
     maxWrite = capability NodeIDOperationLimitsMaxNodesPerWrite (lit ''MaxNodesPerWrite'')
       NodeIDUInt32DataType (scalar BuiltInUInt32 (GUInt32 (of_int (MaxNodesPerWrite limitsOf))));
     maxBrowse = capability NodeIDOperationLimitsMaxNodesPerBrowse (lit ''MaxNodesPerBrowse'')
       NodeIDUInt32DataType (scalar BuiltInUInt32 (GUInt32 (of_int (MaxNodesPerBrowse limitsOf))));
     hasComponent = NumericNodeID 0 NodeIDHasComponent;
     hasProperty = NumericNodeID 0 NodeIDHasProperty;
     server = addForward hasComponent capabilities server;
     capabilities = addInverse hasComponent server capabilities;
     properties = [profiles, locales, sampleRate, browsePoints, queryPoints, historyPoints, certificates];
     capabilities = linkChildren hasProperty properties capabilities;
     properties = map (addInverse hasProperty capabilities) properties;
     capabilities = linkChildren hasComponent [modellingRules, aggregates, limits] capabilities;
     modellingRules = addInverse hasComponent capabilities modellingRules;
     aggregates = addInverse hasComponent capabilities aggregates;
     limits = addInverse hasComponent capabilities limits;
     maxima = [maxRead, maxWrite, maxBrowse];
     limits = linkChildren hasProperty maxima limits;
     maxima = map (addInverse hasProperty limits) maxima
     in (server, [capabilities] @ properties @ [modellingRules, aggregates, limits] @ maxima))"

definition addServerRedundancyNodes :: "AddressSpace \<Rightarrow> Node \<Rightarrow> Node \<times> Node list" where
  "addServerRedundancyNodes s server = (let
     vendorInfo = objectNode NodeIDServerVendorServerInfo (lit ''VendorServerInfo'') NodeIDVendorServerInfoType;
     redundancy = objectNode NodeIDServerRedundancy (lit ''ServerRedundancy'') NodeIDServerRedundancyType;
     support = localVariable NodeIDServerRedundancySupport (lit ''RedundancySupport'') NodeIDPropertyType
       NodeIDRedundancySupportType (\<lambda>_. scalar BuiltInInt32 (GInt32 redundancySupportNone));
     hasComponent = NumericNodeID 0 NodeIDHasComponent;
     hasProperty = NumericNodeID 0 NodeIDHasProperty;
     server = linkChildren hasComponent [vendorInfo, redundancy] server;
     vendorInfo = addInverse hasComponent server vendorInfo;
     redundancy = addInverse hasComponent server redundancy;
     redundancy = addForward hasProperty support redundancy;
     support = addInverse hasProperty redundancy support
     in (server, [vendorInfo, redundancy, support]))"

text \<open>\<^verbatim>\<open>for _, node := range standard { s.nodes[nodeKey(node.ID)] = node }\<close>.\<close>

definition storeNodes :: "Node list \<Rightarrow> (gostring \<times> Node) list \<Rightarrow> (gostring \<times> Node) list" where
  "storeNodes new table = foldl (\<lambda>t node. AList.update (nodeKey (nID node)) node t) table new"

definition sourceFolderNode :: "AddressSpace \<Rightarrow> Node" where
  "sourceFolderNode s = zeroNode\<lparr>nID := sourceFolder s, nClass := NodeClassObject,
     nBrowseName := \<lparr>qNamespace = AdapterNamespaceIndex, qName = SourceFolderName (asConfig s)\<rparr>,
     nDisplayName := text_of (SourceFolderName (asConfig s)),
     nTypeDefinition := NumericNodeID 0 NodeIDFolderType\<rparr>"

definition standardNodes :: "AddressSpace \<Rightarrow> Node list" where
  "standardNodes s = (let
     organizes = NumericNodeID 0 NodeIDOrganizes;
     hasProperty = NumericNodeID 0 NodeIDHasProperty;
     root = folderNode (NumericNodeID 0 NodeIDRootFolder) (lit ''Root'');
     objects = folderNode (NumericNodeID 0 NodeIDObjectsFolder) (lit ''Objects'');
     types = folderNode (NumericNodeID 0 NodeIDTypesFolder) (lit ''Types'');
     views = folderNode (NumericNodeID 0 NodeIDViewsFolder) (lit ''Views'');
     source = sourceFolderNode s;
     server = objectNode NodeIDServer (lit ''Server'') NodeIDServerType;
     serverArray = standardProperty NodeIDServerArray (lit ''ServerArray'') [acApplicationURI (asConfig s)];
     namespaceArray = standardProperty NodeIDNamespaceArray (lit ''NamespaceArray'') (NamespaceURIs s);
     root = linkChildren organizes [objects, types, views] root;
     objects = linkChildren organizes [source, server] objects;
     server = linkChildren hasProperty [serverArray, namespaceArray] server;
     objects = addInverse organizes root objects;
     types = addInverse organizes root types;
     views = addInverse organizes root views;
     source = addInverse organizes objects source;
     server = addInverse organizes objects server;
     serverArray = addInverse hasProperty server serverArray;
     namespaceArray = addInverse hasProperty server namespaceArray;
     (server, status) = addServerStatusNodes s server;
     (server, capabilities) = addServerCapabilitiesNodes s server;
     (server, redundancy) = addServerRedundancyNodes s server
     in [root, objects, types, views, source, server, serverArray, namespaceArray] @
        status @ capabilities @ redundancy)"

definition addStandardNodes :: "AddressSpace \<Rightarrow> AddressSpace" where
  "addStandardNodes s = (let table = storeNodes (standardNodes s) (nodes s)
     in s\<lparr>nodes := table, standardNodeCount := int (length table)\<rparr>)"

text \<open>The time of construction is an argument.\<close>

definition NewAddressSpace :: "AddressSpaceConfig \<Rightarrow> gotime \<Rightarrow> go_error + AddressSpace" where
  "NewAddressSpace config now = (case AddressSpaceConfig_validate config of
       Some er \<Rightarrow> Inl er
     | None \<Rightarrow> Inr (addStandardNodes \<lparr>asConfig = config, nodes = [], branchIDs = Map.empty,
         sourceFolder = StringNodeID AdapterNamespaceIndex (SourceFolderName config),
         binaryLimits = DefaultBinaryLimits, standardNodeCount = 0, startTime = now\<rparr>))"

section \<open>The hierarchy of the standard nodes\<close>

text \<open>
  The shape of a node: its identifier and, for each reference, the type, the direction and
  the target. The hierarchy is checked on the shapes.
\<close>

type_synonym node_shape = "NodeID \<times> (NodeID \<times> bool \<times> NodeID) list"

definition shape_of :: "Node \<Rightarrow> node_shape" where
  "shape_of n = (nID n, map (\<lambda>r. (rfReferenceTypeID r, rfIsForward r, xNodeID (rfTargetID r))) (nReferences n))"

text \<open>Every reference leads to a node of the list, which has the opposite reference.\<close>

definition mutual :: "node_shape list \<Rightarrow> bool" where
  "mutual shapes \<longleftrightarrow> list_all (\<lambda>(i, refs). list_all (\<lambda>(t, fwd, target).
     list_ex (\<lambda>(j, refs'). j = target \<and> list_ex (\<lambda>(t', fwd', back). t' = t \<and> fwd' = (\<not> fwd) \<and> back = i) refs')
       shapes) refs) shapes"

lemma nID_link [simp]:
  "nID (addForward t m n) = nID n" "nID (addInverse t m n) = nID n" "nID (linkChildren t ms n) = nID n"
proof -
  show 1: "nID (addForward t m n) = nID n" "nID (addInverse t m n) = nID n" for m n
    by (simp_all add: addForward_def addInverse_def)
  show "nID (linkChildren t ms n) = nID n" by (induction ms arbitrary: n) (simp_all add: linkChildren_def 1)
qed

lemma shape_link [simp]:
  "shape_of (addForward t m n) = (fst (shape_of n), snd (shape_of n) @ [(t, True, nID m)])"
  "shape_of (addInverse t m n) = (fst (shape_of n), snd (shape_of n) @ [(t, False, nID m)])"
  "shape_of (linkChildren t ms n) = (fst (shape_of n), snd (shape_of n) @ map (\<lambda>m. (t, True, nID m)) ms)"
proof -
  show 1: "shape_of (addForward t m n) = (fst (shape_of n), snd (shape_of n) @ [(t, True, nID m)])"
    "shape_of (addInverse t m n) = (fst (shape_of n), snd (shape_of n) @ [(t, False, nID m)])" for m n
    by (simp_all add: shape_of_def addForward_def addInverse_def referenceTo_def zeroExpandedNodeID_def)
  show "shape_of (linkChildren t ms n) = (fst (shape_of n), snd (shape_of n) @ map (\<lambda>m. (t, True, nID m)) ms)"
    by (induction ms arbitrary: n) (simp_all add: linkChildren_def prod_eq_iff shape_of_def addForward_def referenceTo_def zeroExpandedNodeID_def)
qed

lemma node_builders [simp]:
  "nID (folderNode i name) = i" "shape_of (folderNode i name) = (i, [])"
  "nID (objectNode k name t) = NumericNodeID 0 k" "shape_of (objectNode k name t) = (NumericNodeID 0 k, [])"
  "nID (localVariable k name t d v) = NumericNodeID 0 k" "shape_of (localVariable k name t d v) = (NumericNodeID 0 k, [])"
  "nID (standardProperty k name vs) = NumericNodeID 0 k" "shape_of (standardProperty k name vs) = (NumericNodeID 0 k, [])"
  "nID (capability k name d w) = NumericNodeID 0 k" "shape_of (capability k name d w) = (NumericNodeID 0 k, [])"
  "nID (sourceFolderNode s) = sourceFolder s" "shape_of (sourceFolderNode s) = (sourceFolder s, [])"
  by (simp_all add: shape_of_def sourceFolderNode_def folderNode_def objectNode_def localVariable_def standardProperty_def
      capability_def zeroNode_def)

lemma NumericNodeID_inj [simp]: "NumericNodeID a i = NumericNodeID b j \<longleftrightarrow> a = b \<and> i = j"
  by (metis numeric_id_fields(1,2))

lemmas standard_id_defs = NodeIDServerStatus_def NodeIDServerStatusStartTime_def NodeIDServerStatusCurrentTime_def NodeIDServerStatusState_def NodeIDServerStatusBuildInfo_def NodeIDServerStatusBuildInfoProductName_def NodeIDServerStatusBuildInfoProductURI_def NodeIDServerStatusBuildInfoManufacture_def NodeIDServerStatusBuildInfoSoftware_def NodeIDServerStatusBuildInfoBuildNumber_def NodeIDServerStatusBuildInfoBuildDate_def NodeIDServerServiceLevel_def NodeIDServerAuditing_def NodeIDServerCapabilities_def NodeIDServerCapabilitiesProfileArray_def NodeIDServerCapabilitiesLocaleIDArray_def NodeIDServerCapabilitiesMinSampleRate_def NodeIDServerCapabilitiesMaxBrowseCP_def NodeIDServerCapabilitiesMaxQueryCP_def NodeIDServerCapabilitiesMaxHistoryCP_def NodeIDServerCapabilitiesSoftwareCerts_def NodeIDServerCapabilitiesModellingRules_def NodeIDServerCapabilitiesAggregateFunctions_def NodeIDServerCapabilitiesOperationLimits_def NodeIDOperationLimitsMaxNodesPerRead_def NodeIDOperationLimitsMaxNodesPerWrite_def NodeIDOperationLimitsMaxNodesPerBrowse_def NodeIDServerVendorServerInfo_def NodeIDServerRedundancy_def NodeIDServerRedundancySupport_def NodeIDServerStatusType_def NodeIDBuildInfoType_def NodeIDBaseDataVariable_def NodeIDServerStatusDataType_def NodeIDBuildInfoDataType_def NodeIDServerStateDataType_def NodeIDUtcTimeDataType_def NodeIDServerCapabilitiesType_def NodeIDOperationLimitsType_def NodeIDDurationDataType_def NodeIDLocaleIDDataType_def NodeIDSignedSoftwareCert_def NodeIDUInt16DataType_def NodeIDUInt32DataType_def NodeIDVendorServerInfoType_def NodeIDServerRedundancyType_def NodeIDRedundancySupportType_def NodeIDServerStatusEncodingID_def NodeIDBuildInfoEncodingID_def
  NodeIDRootFolder_def NodeIDObjectsFolder_def NodeIDTypesFolder_def NodeIDViewsFolder_def
  NodeIDServer_def NodeIDServerArray_def NodeIDNamespaceArray_def NodeIDOrganizes_def
  NodeIDHasComponent_def NodeIDHasProperty_def

lemma standard_mutual: "mutual (map shape_of (standardNodes s))"
  apply (simp add: standardNodes_def addServerStatusNodes_def addServerCapabilitiesNodes_def
    addServerRedundancyNodes_def Let_def buildChildren_def)
  apply (simp add: mutual_def standard_id_defs)
  done

definition standardNumbers :: "uint32 list" where
  "standardNumbers = [84, 85, 86, 87, 2253, 2254, 2255, 2256, 2260, 2257, 2258, 2259, 2267, 2994,
     2262, 2263, 2261, 2264, 2265, 2266, 2268, 2269, 2271, 2272, 2735, 2736, 2737, 3704, 2996, 2997,
     11704, 11705, 11707, 11710, 2295, 2296, 3709]"

lemma standard_ids:
  "map nID (standardNodes s) =
     map (NumericNodeID 0) (take 4 standardNumbers) @ sourceFolder s # map (NumericNodeID 0) (drop 4 standardNumbers)"
  by (simp add: standardNodes_def addServerStatusNodes_def addServerCapabilitiesNodes_def
      addServerRedundancyNodes_def Let_def buildChildren_def standard_id_defs standardNumbers_def)

text \<open>
  The value of the \<^verbatim>\<open>SoftwareCertificates\<close> property, an empty array of ExtensionObjects, has
  no encoding: a response that carries it cannot be sent.
\<close>

lemma software_certificates_unencodable:
  "eerr (WriteVariant (Variant BuiltInExtensionObject (GExtensionObjects []) True []) e) \<noteq> None"
  by (simp add: WriteVariant_def writeVariantArray_def variantArrayLength_def builtin_defs efail_def)

end
