(* ===== verification/Space.thy ===== *)
theory Space
  imports StandardNodes
begin

text \<open>
  The operations of the address space, from \<^verbatim>\<open>src/internal/opcua/addressspace.go\<close>. Each
  operation under the lock is one function on the state. A node is found by the printed form
  of its identifier, and nodes are added and replaced but never removed.
\<close>

section \<open>Lookup\<close>

definition space_Node :: "NodeID \<Rightarrow> AddressSpace \<Rightarrow> Node option" where
  "space_Node i s = map_of (nodes s) (nodeKey i)"

definition VariableItemID :: "NodeID \<Rightarrow> AddressSpace \<Rightarrow> DAItemID option" where
  "VariableItemID i s = (case space_Node i s of
       None \<Rightarrow> None
     | Some node \<Rightarrow> if nClass node \<noteq> NodeClassVariable \<or> nItemID node = [] then None else Some (nItemID node))"

definition NodeCount :: "AddressSpace \<Rightarrow> int" where
  "NodeCount s = int (length (nodes s))"

definition SourceNodeCount :: "AddressSpace \<Rightarrow> int" where
  "SourceNodeCount s = int (length (nodes s)) - standardNodeCount s"

text \<open>\<^verbatim>\<open>s.nodes[nodeKey(node.ID)] = node\<close>.\<close>

definition put_node :: "Node \<Rightarrow> AddressSpace \<Rightarrow> AddressSpace" where
  "put_node node s = s\<lparr>nodes := AList.update (nodeKey (nID node)) node (nodes s)\<rparr>"

section \<open>Items on demand\<close>

definition accessLevelFor :: "DAAccessRights option \<Rightarrow> byte \<times> bool" where
  "accessLevelFor rights = (case rights of
       None \<Rightarrow> (AccessLevelCurrentRead OR AccessLevelCurrentWrite, False)
     | Some rights \<Rightarrow>
         (let level = (if arRead rights then AccessLevelCurrentRead else 0);
              level = (if arWrite rights then level OR AccessLevelCurrentWrite else level)
          in (level, True)))"

definition with_rights :: "DAAccessRights option \<Rightarrow> Node \<Rightarrow> Node" where
  "with_rights rights node = (let (level, known) = accessLevelFor rights
     in node\<lparr>AccessLevel := level, AccessRightsKnown := known\<rparr>)"

definition adapterName :: "gostring \<Rightarrow> QualifiedName" where
  "adapterName name = \<lparr>qNamespace = AdapterNamespaceIndex, qName = name\<rparr>"

definition unbrowsedNode :: "NodeID \<Rightarrow> DAItemID \<Rightarrow> Node" where
  "unbrowsedNode i itemID = with_rights None (zeroNode\<lparr>nID := i, nClass := NodeClassVariable,
     nBrowseName := adapterName itemID, nDisplayName := text_of itemID,
     nTypeDefinition := NumericNodeID 0 NodeIDDataItemType, ValueRank := ValueRankScalar,
     nItemID := itemID, nDataType := NumericNodeID 0 NodeIDBaseDataType\<rparr>)"

definition item_node :: "Node \<Rightarrow> Node option" where
  "item_node node = (if nClass node \<noteq> NodeClassVariable \<or> nItemID node = [] then None else Some node)"

text \<open>
  The part of \<^verbatim>\<open>ResolveVariable\<close> under the write lock, which looks again because another call may
  have added the node since the first look.
\<close>

definition resolveLocked :: "NodeID \<Rightarrow> DAItemID \<Rightarrow> int \<Rightarrow> AddressSpace \<Rightarrow> Node option \<times> AddressSpace" where
  "resolveLocked i itemID maxNodes s = (case space_Node i s of
       Some node \<Rightarrow> (item_node node, s)
     | None \<Rightarrow>
         if int (length (nodes s)) - standardNodeCount s \<ge> max maxNodes 0 then (None, s)
         else let node = unbrowsedNode i itemID in (Some node, put_node node s))"

definition ResolveVariable :: "NodeID \<Rightarrow> int \<Rightarrow> AddressSpace \<Rightarrow> Node option \<times> AddressSpace" where
  "ResolveVariable i maxNodes s = (case space_Node i s of
       Some node \<Rightarrow> (item_node node, s)
     | None \<Rightarrow> (case ItemIDForNode i of
           None \<Rightarrow> (None, s)
         | Some itemID \<Rightarrow> resolveLocked i itemID maxNodes s))"

section \<open>Browse results\<close>

record BrowseEntry =
  beKind :: gostring
  beName :: gostring
  beItemID :: "DAItemID option"
  beCanonicalType :: "DAVarType option"
  beAccessRights :: "DAAccessRights option"

definition BrowseEntryBranch :: gostring where "BrowseEntryBranch = lit ''branch''"
definition BrowseEntryItem :: gostring where "BrowseEntryItem = lit ''item''"

text \<open>Learning a canonical type: a type the mapping cannot express leaves the node as it is.\<close>

definition with_type :: "DAVarType option \<Rightarrow> Node \<Rightarrow> Node" where
  "with_type canonicalType node = (case canonicalType of
       None \<Rightarrow> node
     | Some varType \<Rightarrow> (case DataTypeFor varType of
           None \<Rightarrow> node
         | Some dataType \<Rightarrow> (case DataTypeNodeID dataType of
               None \<Rightarrow> node
             | Some i \<Rightarrow> node\<lparr>nDataType := i, DataTypeKnown := True\<rparr>)))"

definition nodeForEntry :: "gostring list \<Rightarrow> BrowseEntry \<Rightarrow> go_error + Node" where
  "nodeForEntry path entry =
     (if beName entry = [] then Inl PlainError
      else if beKind entry = BrowseEntryBranch then
        Inr (zeroNode\<lparr>nID := BranchNodeID (path @ [beName entry]) (beItemID entry),
          nClass := NodeClassObject, nBrowseName := adapterName (beName entry),
          nDisplayName := text_of (beName entry), nTypeDefinition := NumericNodeID 0 NodeIDFolderType\<rparr>)
      else if beKind entry = BrowseEntryItem then (case beItemID entry of
          None \<Rightarrow> Inl PlainError
        | Some itemID \<Rightarrow> Inr (with_rights (beAccessRights entry) (with_type (beCanonicalType entry)
            (zeroNode\<lparr>nID := ItemNodeID itemID, nClass := NodeClassVariable,
               nBrowseName := adapterName (beName entry), nDisplayName := text_of (beName entry),
               nTypeDefinition := NumericNodeID 0 NodeIDDataItemType, ValueRank := ValueRankScalar,
               nItemID := itemID, nDataType := NumericNodeID 0 NodeIDBaseDataType\<rparr>))))
      else Inl PlainError)"

text \<open>
  The loop of \<^verbatim>\<open>PopulateBranch\<close>. It holds the parent by pointer: \<open>attached\<close> says that the table
  still holds that node, which a child stored under the parent's key would end. A bad entry
  stops the loop and what was done before it stays.
\<close>

definition childReference :: "BrowseEntry \<Rightarrow> NodeID" where
  "childReference entry = (if beKind entry = BrowseEntryItem then NumericNodeID 0 NodeIDHasComponent
     else NumericNodeID 0 NodeIDOrganizes)"

definition populateEntry ::
  "gostring list \<Rightarrow> BrowseEntry \<Rightarrow> Node \<Rightarrow> AddressSpace \<times> Node \<times> bool \<Rightarrow> AddressSpace \<times> Node \<times> bool" where
  "populateEntry path entry child = (\<lambda>(s, parent, attached). let
     s = (if beKind entry = BrowseEntryBranch
          then s\<lparr>branchIDs := (branchIDs s)(branchPathKey (path @ [beName entry]) \<mapsto> nID child)\<rparr> else s);
     reference = childReference entry;
     attached = (attached \<and> nodeKey (nID child) \<noteq> nodeKey (nID parent));
     parent = addForward reference child parent;
     child = addInverse reference parent child;
     s = put_node child s;
     s = (if attached then put_node parent s else s)
     in (s, parent, attached))"

fun populateLoop ::
  "gostring list \<Rightarrow> BrowseEntry list \<Rightarrow> AddressSpace \<times> Node \<times> bool \<Rightarrow> go_error option \<times> AddressSpace" where
  "populateLoop path [] state = (None, fst state)"
| "populateLoop path (entry # entries) state = (case nodeForEntry path entry of
       Inl er \<Rightarrow> (Some er, fst state)
     | Inr child \<Rightarrow> populateLoop path entries (populateEntry path entry child state))"

definition branchParent :: "gostring list \<Rightarrow> AddressSpace \<Rightarrow> NodeID option" where
  "branchParent path s =
     (if path = [] then Some (sourceFolder s) else branchIDs s (branchPathKey path))"

definition PopulateBranch :: "gostring list \<Rightarrow> BrowseEntry list \<Rightarrow> AddressSpace \<Rightarrow> go_error option \<times> AddressSpace" where
  "PopulateBranch path entries s = (case branchParent path s of
       None \<Rightarrow> (Some PlainError, s)
     | Some parentID \<Rightarrow> (case space_Node parentID s of
           None \<Rightarrow> (Some PlainError, s)
         | Some parent \<Rightarrow>
             let parent = parent\<lparr>nReferences := filter (\<lambda>r. \<not> rfIsForward r) (nReferences parent)\<rparr>
             in populateLoop path entries (put_node parent s, parent, True)))"

section \<open>Learning\<close>

definition learn :: "DAVarType option \<Rightarrow> DAAccessRights option \<Rightarrow> Node \<Rightarrow> Node" where
  "learn canonicalType rights node = (let
     node = (if canonicalType \<noteq> None \<and> \<not> DataTypeKnown node then with_type canonicalType node else node)
     in if rights \<noteq> None \<and> \<not> AccessRightsKnown node then with_rights rights node else node)"

definition LearnFromRead ::
  "NodeID \<Rightarrow> DAVarType option \<Rightarrow> DAAccessRights option \<Rightarrow> AddressSpace \<Rightarrow> AddressSpace" where
  "LearnFromRead i canonicalType rights s =
     (if canonicalType = None \<and> rights = None then s
      else case space_Node i s of
          None \<Rightarrow> s
        | Some node \<Rightarrow>
            if nClass node \<noteq> NodeClassVariable then s else put_node (learn canonicalType rights node) s)"

end
