(* ===== verification/DataAccessMessages.thy ===== *)
theory DataAccessMessages
  imports VariantLaws SessionMessages
begin

text \<open>
  The messages of the Read and Write services, from \<^verbatim>\<open>src/internal/opcua/readwrite.go\<close>.
\<close>

definition ReadRequestEncodingID :: uint32 where "ReadRequestEncodingID = 631"
definition ReadResponseEncodingID :: uint32 where "ReadResponseEncodingID = 634"
definition WriteRequestEncodingID :: uint32 where "WriteRequestEncodingID = 673"
definition WriteResponseEncodingID :: uint32 where "WriteResponseEncodingID = 676"

type_synonym TimestampsToReturn = int32

definition TimestampsSource :: TimestampsToReturn where "TimestampsSource = 0"
definition TimestampsServer :: TimestampsToReturn where "TimestampsServer = 1"
definition TimestampsBoth :: TimestampsToReturn where "TimestampsBoth = 2"
definition TimestampsNeither :: TimestampsToReturn where "TimestampsNeither = 3"
definition TimestampsInvalid :: TimestampsToReturn where "TimestampsInvalid = 4"

definition TimestampsToReturn_Valid :: "TimestampsToReturn \<Rightarrow> bool" where
  "TimestampsToReturn_Valid t \<longleftrightarrow> sint TimestampsSource \<le> sint t \<and> sint t \<le> sint TimestampsNeither"

record ReadValueID =
  rvNodeID :: NodeID
  rvAttributeID :: uint32
  rvIndexRange :: gostring
  DataEncoding :: QualifiedName

record WriteValue =
  wvNodeID :: NodeID
  wvAttributeID :: uint32
  wvIndexRange :: gostring
  wvValue :: DataValue

record ReadRequest =
  rqHeader :: RequestHeader
  MaxAge :: float64
  rqTimestampsToReturn :: int32
  NodesToRead :: "ReadValueID list"

record ReadResponse =
  rpHeader :: ResponseHeader
  rpResults :: "DataValue list"
  rpDiagnostics :: "DiagnosticInfo list"

record WriteRequest =
  wqHeader :: RequestHeader
  NodesToWrite :: "WriteValue list"

record WriteResponse =
  wpHeader :: ResponseHeader
  wpResults :: "StatusCode list"
  wpDiagnostics :: "DiagnosticInfo list"

definition WriteReadValueID :: "ReadValueID \<Rightarrow> Encoder \<Rightarrow> Encoder" where
  "WriteReadValueID v = seqw
     [WriteNodeID (rvNodeID v), WriteUInt32 (rvAttributeID v),
      (if rvIndexRange v = [] then WriteNullString else WriteString (rvIndexRange v)),
      WriteQualifiedName (DataEncoding v)]"

definition ReadReadValueID :: "ReadValueID reader" where
  "ReadReadValueID =
     rbind ReadNodeID (\<lambda>nodeID.
     rbind ReadUInt32 (\<lambda>attributeID.
     rbind (orEmpty ReadString) (\<lambda>indexRange.
     rbind ReadQualifiedName (\<lambda>dataEncoding.
     rreturn \<lparr>rvNodeID = nodeID, rvAttributeID = attributeID, rvIndexRange = indexRange,
       DataEncoding = dataEncoding\<rparr>))))"

definition WriteWriteValue :: "WriteValue \<Rightarrow> Encoder \<Rightarrow> Encoder" where
  "WriteWriteValue v = seqw
     [WriteNodeID (wvNodeID v), WriteUInt32 (wvAttributeID v),
      (if wvIndexRange v = [] then WriteNullString else WriteString (wvIndexRange v)),
      WriteDataValue (wvValue v)]"

definition ReadWriteValue :: "WriteValue reader" where
  "ReadWriteValue =
     rbind ReadNodeID (\<lambda>nodeID.
     rbind ReadUInt32 (\<lambda>attributeID.
     rbind (orEmpty ReadString) (\<lambda>indexRange.
     rbind ReadDataValue (\<lambda>value.
     rreturn \<lparr>wvNodeID = nodeID, wvAttributeID = attributeID, wvIndexRange = indexRange, wvValue = value\<rparr>))))"

definition WriteReadRequest :: "ReadRequest \<Rightarrow> Encoder \<Rightarrow> Encoder" where
  "WriteReadRequest v = seqw
     [WriteServiceTypeID ReadRequestEncodingID, WriteRequestHeader (rqHeader v),
      WriteDouble (MaxAge v), WriteInt32 (rqTimestampsToReturn v),
      write_array WriteReadValueID (NodesToRead v)]"

definition ReadReadRequest :: "ReadRequest reader" where
  "ReadReadRequest =
     rbind ReadRequestHeader (\<lambda>header.
     rbind ReadDouble (\<lambda>maxAge.
     rbind ReadInt32 (\<lambda>timestampsToReturn.
     rbind (read_list 12 ReadReadValueID) (\<lambda>nodesToRead.
     rreturn \<lparr>rqHeader = header, MaxAge = maxAge, rqTimestampsToReturn = timestampsToReturn,
       NodesToRead = nodesToRead\<rparr>))))"

definition WriteReadResponse :: "ReadResponse \<Rightarrow> Encoder \<Rightarrow> Encoder" where
  "WriteReadResponse v = seqw
     [WriteServiceTypeID ReadResponseEncodingID, WriteResponseHeader (rpHeader v),
      write_array WriteDataValue (rpResults v), write_array WriteDiagnosticInfo (rpDiagnostics v)]"

definition ReadReadResponse :: "ReadResponse reader" where
  "ReadReadResponse =
     rbind ReadResponseHeader (\<lambda>header.
     rbind (read_list 1 ReadDataValue) (\<lambda>results.
     rbind (read_list 1 ReadDiagnosticInfo) (\<lambda>diagnostics.
     rreturn \<lparr>rpHeader = header, rpResults = results, rpDiagnostics = diagnostics\<rparr>)))"

definition WriteWriteRequest :: "WriteRequest \<Rightarrow> Encoder \<Rightarrow> Encoder" where
  "WriteWriteRequest v = seqw
     [WriteServiceTypeID WriteRequestEncodingID, WriteRequestHeader (wqHeader v),
      write_array WriteWriteValue (NodesToWrite v)]"

definition ReadWriteRequest :: "WriteRequest reader" where
  "ReadWriteRequest =
     rbind ReadRequestHeader (\<lambda>header.
     rbind (read_list 10 ReadWriteValue) (\<lambda>nodesToWrite.
     rreturn \<lparr>wqHeader = header, NodesToWrite = nodesToWrite\<rparr>))"

definition WriteWriteResponse :: "WriteResponse \<Rightarrow> Encoder \<Rightarrow> Encoder" where
  "WriteWriteResponse v = seqw
     [WriteServiceTypeID WriteResponseEncodingID, WriteResponseHeader (wpHeader v),
      write_array WriteStatusCode (wpResults v), write_array WriteDiagnosticInfo (wpDiagnostics v)]"

definition ReadWriteResponse :: "WriteResponse reader" where
  "ReadWriteResponse =
     rbind ReadResponseHeader (\<lambda>header.
     rbind (read_list 4 ReadStatusCode) (\<lambda>results.
     rbind (read_list 1 ReadDiagnosticInfo) (\<lambda>diagnostics.
     rreturn \<lparr>wpHeader = header, wpResults = results, wpDiagnostics = diagnostics\<rparr>)))"

section \<open>Sizes\<close>

text \<open>
  What a decoder asks of the bytes that remain before it reads an array: the shortest form of
  an element.
\<close>

lemma size_nodeid: "2 \<le> int (length (nodeid_wire flags v))"
  by (simp add: nodeid_wire_def lenbytes_wire_def guid_wire_def)

lemma size_expanded: "2 \<le> int (length (expanded_wire v))"
  unfolding expanded_wire_def
  using size_nodeid [of "expanded_flags v" "if xHasNamespaceURI v then (xNodeID v)\<lparr>Namespace := 0\<rparr> else xNodeID v"]
  by simp

lemma size_qname: "6 \<le> int (length (qname_wire v))"
  by (simp add: qname_wire_def lenbytes_wire_def)

lemma size_ltext: "1 \<le> int (length (ltext_wire v))"
  by (simp add: ltext_wire_def)

lemma size_extobj: "3 \<le> int (length (extobj_wire v))"
  using size_nodeid [of 0 "TypeID v"] by (simp add: extobj_wire_def)

lemma size_datavalue: "1 \<le> int (length (datavalue_wire v))"
  by (simp add: datavalue_wire_def)

lemma size_optional: "4 \<le> int (length (optional_wire v))"
  by (simp add: optional_wire_def lenbytes_wire_def)

interpretation datavalue_array: ua_array_on WriteDataValue ReadDataValue
  datavalue_wire datavalue_ok datavalue_norm datavalue_readable 1
  by unfold_locales (rule size_datavalue)

lemmas value_emits [emits_intros] = datavalue_codec.on_emits datavalue_array.array_emits
lemmas value_within [within_intros] = datavalue_codec.on_within
lemmas value_steps [parses_steps] =
  datavalue_codec.on_parses [THEN parses_rbind] datavalue_codec.on_parses [THEN parses_rbind_last]
  datavalue_array.list_parses [THEN parses_rbind] datavalue_array.list_parses [THEN parses_rbind_last]
  qname_codec.rd_parses [unfolded id_apply, THEN parses_rbind]
  qname_codec.rd_parses [unfolded id_apply, THEN parses_rbind_last]
  expanded_codec.rd_parses [THEN parses_rbind] expanded_codec.rd_parses [THEN parses_rbind_last]
  ltext_codec.rd_parses [unfolded id_apply, THEN parses_rbind_last]

section \<open>Wire formats\<close>

definition read_value_id_wire :: "ReadValueID \<Rightarrow> byte list" where
  "read_value_id_wire v = nodeid_wire 0 (rvNodeID v) @ le_bytes 4 (rvAttributeID v) @ optional_wire (rvIndexRange v) @
     qname_wire (DataEncoding v)"

definition read_value_id_ok :: "BinaryLimits \<Rightarrow> ReadValueID \<Rightarrow> bool" where
  "read_value_id_ok L v \<longleftrightarrow> nodeid_ok L (rvNodeID v) \<and> optional_ok string_ok L (rvIndexRange v) \<and>
     qname_ok L (DataEncoding v)"

definition read_value_id_norm :: "ReadValueID \<Rightarrow> ReadValueID" where
  "read_value_id_norm v = v\<lparr>rvNodeID := nodeid_norm (rvNodeID v)\<rparr>"

interpretation read_value_id_array: ua_array WriteReadValueID ReadReadValueID
  read_value_id_wire read_value_id_ok read_value_id_norm 12
proof unfold_locales
  show "emits L (WriteReadValueID v) (read_value_id_ok L v) (read_value_id_wire v)" for L v
    unfolding WriteReadValueID_def
    by (rule emits_cong, (rule emits_intros)+) (auto simp: read_value_id_wire_def read_value_id_ok_def)
  show "parses L ReadReadValueID (read_value_id_wire v) (read_value_id_norm v)"
    if "validate_limits L = None" "read_value_id_ok L v" for L v
    unfolding ReadReadValueID_def read_value_id_wire_def
    by (intro parses_steps) (use that in \<open>simp_all add: read_value_id_ok_def read_value_id_norm_def\<close>)
  show "within ReadReadValueID"
    unfolding ReadReadValueID_def by (intro within_intros)
  show "12 \<le> int (length (read_value_id_wire v))" if "read_value_id_ok L v" for L v
    using size_nodeid [of 0 "rvNodeID v"] size_optional [of "rvIndexRange v"] size_qname [of "DataEncoding v"]
    by (simp add: read_value_id_wire_def array_wire_def)
qed

lemmas read_value_id_emits [emits_intros] = read_value_id_array.wr_emits read_value_id_array.array_emits
lemmas read_value_id_within [within_intros] = read_value_id_array.rd_within
lemmas read_value_id_steps [parses_steps] =
  read_value_id_array.rd_parses [THEN parses_rbind] read_value_id_array.rd_parses [THEN parses_rbind_last]
  read_value_id_array.list_parses [THEN parses_rbind] read_value_id_array.list_parses [THEN parses_rbind_last]

definition write_value_wire :: "WriteValue \<Rightarrow> byte list" where
  "write_value_wire v = nodeid_wire 0 (wvNodeID v) @ le_bytes 4 (wvAttributeID v) @ optional_wire (wvIndexRange v) @
     datavalue_wire (wvValue v)"

definition write_value_ok :: "BinaryLimits \<Rightarrow> WriteValue \<Rightarrow> bool" where
  "write_value_ok L v \<longleftrightarrow> nodeid_ok L (wvNodeID v) \<and> optional_ok string_ok L (wvIndexRange v) \<and>
     datavalue_ok L (wvValue v)"

definition write_value_norm :: "WriteValue \<Rightarrow> WriteValue" where
  "write_value_norm v = v\<lparr>wvNodeID := nodeid_norm (wvNodeID v), wvValue := datavalue_norm (wvValue v)\<rparr>"

definition write_value_readable :: "BinaryLimits \<Rightarrow> WriteValue \<Rightarrow> bool" where
  "write_value_readable L v \<longleftrightarrow> datavalue_readable L (wvValue v)"

interpretation write_value_array: ua_array_on WriteWriteValue ReadWriteValue
  write_value_wire write_value_ok write_value_norm write_value_readable 10
proof unfold_locales
  show "emits L (WriteWriteValue v) (write_value_ok L v) (write_value_wire v)" for L v
    unfolding WriteWriteValue_def
    by (rule emits_cong, (rule emits_intros)+) (auto simp: write_value_wire_def write_value_ok_def)
  show "parses L ReadWriteValue (write_value_wire v) (write_value_norm v)"
    if "validate_limits L = None" "write_value_ok L v" "write_value_readable L v" for L v
    unfolding ReadWriteValue_def write_value_wire_def
    by (intro parses_steps) (use that in \<open>simp_all add: write_value_ok_def write_value_readable_def write_value_norm_def\<close>)
  show "within ReadWriteValue"
    unfolding ReadWriteValue_def by (intro within_intros)
  show "10 \<le> int (length (write_value_wire v))" if "write_value_ok L v" "write_value_readable L v" for L v
    using size_nodeid [of 0 "wvNodeID v"] size_optional [of "wvIndexRange v"] size_datavalue [of "wvValue v"]
    by (simp add: write_value_wire_def array_wire_def)
qed

lemmas write_value_emits [emits_intros] = write_value_array.on_emits write_value_array.array_emits
lemmas write_value_within [within_intros] = write_value_array.on_within
lemmas write_value_steps [parses_steps] =
  write_value_array.on_parses [THEN parses_rbind] write_value_array.on_parses [THEN parses_rbind_last]
  write_value_array.list_parses [THEN parses_rbind] write_value_array.list_parses [THEN parses_rbind_last]

definition read_request_wire :: "ReadRequest \<Rightarrow> byte list" where
  "read_request_wire v = service_wire ReadRequestEncodingID @ request_header_wire (rqHeader v) @
     le_bytes 8 (double_norm (MaxAge v)) @ le_bytes 4 (rqTimestampsToReturn v) @
     array_wire read_value_id_wire (NodesToRead v)"

definition read_request_ok :: "BinaryLimits \<Rightarrow> ReadRequest \<Rightarrow> bool" where
  "read_request_ok L v \<longleftrightarrow> request_header_ok L (rqHeader v) \<and> array_ok read_value_id_ok L (NodesToRead v)"

definition read_request_norm :: "ReadRequest \<Rightarrow> ReadRequest" where
  "read_request_norm v = v\<lparr>rqHeader := request_header_norm (rqHeader v), MaxAge := double_norm (MaxAge v),
     NodesToRead := map read_value_id_norm (NodesToRead v)\<rparr>"

interpretation read_request_codec: ua_codec WriteReadRequest "read_service ReadRequestEncodingID ReadReadRequest"
  read_request_wire read_request_ok read_request_norm
proof unfold_locales
  show "emits L (WriteReadRequest v) (read_request_ok L v) (read_request_wire v)" for L v
    unfolding WriteReadRequest_def
    by (rule emits_cong, (rule emits_intros)+) (auto simp: read_request_wire_def read_request_ok_def)
  show "parses L (read_service ReadRequestEncodingID ReadReadRequest) (read_request_wire v) (read_request_norm v)"
    if "validate_limits L = None" "read_request_ok L v" for L v
    unfolding ReadReadRequest_def read_request_wire_def
    by (intro parses_steps) (use that in \<open>simp_all add: read_request_ok_def read_request_norm_def\<close>)
  show "within (read_service ReadRequestEncodingID ReadReadRequest)"
    unfolding ReadReadRequest_def by (intro within_intros)
qed

definition read_response_wire :: "ReadResponse \<Rightarrow> byte list" where
  "read_response_wire v = service_wire ReadResponseEncodingID @ response_header_wire (rpHeader v) @
     array_wire datavalue_wire (rpResults v) @ array_wire diag_wire (rpDiagnostics v)"

definition read_response_ok :: "BinaryLimits \<Rightarrow> ReadResponse \<Rightarrow> bool" where
  "read_response_ok L v \<longleftrightarrow> response_header_ok L (rpHeader v) \<and> array_ok datavalue_ok L (rpResults v) \<and>
     array_ok (\<lambda>L. diag_ok L 0) L (rpDiagnostics v)"

definition read_response_norm :: "ReadResponse \<Rightarrow> ReadResponse" where
  "read_response_norm v = v\<lparr>rpHeader := response_header_norm (rpHeader v), rpResults := map datavalue_norm (rpResults v),
     rpDiagnostics := map diag_norm (rpDiagnostics v)\<rparr>"

definition read_response_readable :: "BinaryLimits \<Rightarrow> ReadResponse \<Rightarrow> bool" where
  "read_response_readable L v \<longleftrightarrow> list_all (datavalue_readable L) (rpResults v)"

interpretation read_response_codec: ua_codec_on WriteReadResponse "read_service ReadResponseEncodingID ReadReadResponse"
  read_response_wire read_response_ok read_response_norm read_response_readable
proof unfold_locales
  show "emits L (WriteReadResponse v) (read_response_ok L v) (read_response_wire v)" for L v
    unfolding WriteReadResponse_def
    by (rule emits_cong, (rule emits_intros)+) (auto simp: read_response_wire_def read_response_ok_def)
  show "parses L (read_service ReadResponseEncodingID ReadReadResponse) (read_response_wire v) (read_response_norm v)"
    if "validate_limits L = None" "read_response_ok L v" "read_response_readable L v" for L v
    unfolding ReadReadResponse_def read_response_wire_def
    by (intro parses_steps) (use that in \<open>simp_all add: read_response_ok_def read_response_readable_def read_response_norm_def\<close>)
  show "within (read_service ReadResponseEncodingID ReadReadResponse)"
    unfolding ReadReadResponse_def by (intro within_intros)
qed

definition write_request_wire :: "WriteRequest \<Rightarrow> byte list" where
  "write_request_wire v = service_wire WriteRequestEncodingID @ request_header_wire (wqHeader v) @
     array_wire write_value_wire (NodesToWrite v)"

definition write_request_ok :: "BinaryLimits \<Rightarrow> WriteRequest \<Rightarrow> bool" where
  "write_request_ok L v \<longleftrightarrow> request_header_ok L (wqHeader v) \<and> array_ok write_value_ok L (NodesToWrite v)"

definition write_request_norm :: "WriteRequest \<Rightarrow> WriteRequest" where
  "write_request_norm v = v\<lparr>wqHeader := request_header_norm (wqHeader v),
     NodesToWrite := map write_value_norm (NodesToWrite v)\<rparr>"

definition write_request_readable :: "BinaryLimits \<Rightarrow> WriteRequest \<Rightarrow> bool" where
  "write_request_readable L v \<longleftrightarrow> list_all (write_value_readable L) (NodesToWrite v)"

interpretation write_request_codec: ua_codec_on WriteWriteRequest "read_service WriteRequestEncodingID ReadWriteRequest"
  write_request_wire write_request_ok write_request_norm write_request_readable
proof unfold_locales
  show "emits L (WriteWriteRequest v) (write_request_ok L v) (write_request_wire v)" for L v
    unfolding WriteWriteRequest_def
    by (rule emits_cong, (rule emits_intros)+) (auto simp: write_request_wire_def write_request_ok_def)
  show "parses L (read_service WriteRequestEncodingID ReadWriteRequest) (write_request_wire v) (write_request_norm v)"
    if "validate_limits L = None" "write_request_ok L v" "write_request_readable L v" for L v
    unfolding ReadWriteRequest_def write_request_wire_def
    by (intro parses_steps) (use that in \<open>simp_all add: write_request_ok_def write_request_readable_def write_request_norm_def\<close>)
  show "within (read_service WriteRequestEncodingID ReadWriteRequest)"
    unfolding ReadWriteRequest_def by (intro within_intros)
qed

definition write_response_wire :: "WriteResponse \<Rightarrow> byte list" where
  "write_response_wire v = service_wire WriteResponseEncodingID @ response_header_wire (wpHeader v) @
     array_wire (le_bytes 4) (wpResults v) @ array_wire diag_wire (wpDiagnostics v)"

definition write_response_ok :: "BinaryLimits \<Rightarrow> WriteResponse \<Rightarrow> bool" where
  "write_response_ok L v \<longleftrightarrow> response_header_ok L (wpHeader v) \<and> array_ok always_ok L (wpResults v) \<and>
     array_ok (\<lambda>L. diag_ok L 0) L (wpDiagnostics v)"

definition write_response_norm :: "WriteResponse \<Rightarrow> WriteResponse" where
  "write_response_norm v = v\<lparr>wpHeader := response_header_norm (wpHeader v),
     wpDiagnostics := map diag_norm (wpDiagnostics v)\<rparr>"

interpretation write_response_codec: ua_codec WriteWriteResponse "read_service WriteResponseEncodingID ReadWriteResponse"
  write_response_wire write_response_ok write_response_norm
proof unfold_locales
  show "emits L (WriteWriteResponse v) (write_response_ok L v) (write_response_wire v)" for L v
    unfolding WriteWriteResponse_def
    by (rule emits_cong, (rule emits_intros)+) (auto simp: write_response_wire_def write_response_ok_def)
  show "parses L (read_service WriteResponseEncodingID ReadWriteResponse) (write_response_wire v) (write_response_norm v)"
    if "validate_limits L = None" "write_response_ok L v" for L v
    unfolding ReadWriteResponse_def write_response_wire_def
    by (intro parses_steps) (use that in \<open>simp_all add: write_response_ok_def write_response_norm_def\<close>)
  show "within (read_service WriteResponseEncodingID ReadWriteResponse)"
    unfolding ReadWriteResponse_def by (intro within_intros)
qed

section \<open>Properties\<close>

text \<open>
  Every message of the Read and Write services that a fresh encoder writes is read back,
  type prefix included, to the last byte, if the arrays inside its values are within the
  decoder's limits.
\<close>
theorem data_access_messages_roundtrip:
  assumes "NewEncoder L = Inr e"
  shows "(Bytes (WriteReadRequest rq e) = Inr b1 \<longrightarrow>
      decodes_as L b1 ReadRequestEncodingID ReadReadRequest (read_request_norm rq)) \<and>
    (Bytes (WriteReadResponse rp e) = Inr b2 \<and> read_response_readable L rp \<longrightarrow>
      decodes_as L b2 ReadResponseEncodingID ReadReadResponse (read_response_norm rp)) \<and>
    (Bytes (WriteWriteRequest wq e) = Inr b3 \<and> write_request_readable L wq \<longrightarrow>
      decodes_as L b3 WriteRequestEncodingID ReadWriteRequest (write_request_norm wq)) \<and>
    (Bytes (WriteWriteResponse wp e) = Inr b4 \<longrightarrow>
      decodes_as L b4 WriteResponseEncodingID ReadWriteResponse (write_response_norm wp))"
  using read_request_codec.roundtrip [OF assms] read_response_codec.roundtrip_on [OF assms]
    write_request_codec.roundtrip_on [OF assms] write_response_codec.roundtrip [OF assms]
  by (simp add: decodes_asI)

definition write_request_sample :: WriteRequest where
  "write_request_sample = \<lparr>wqHeader = request_header_sample,
     NodesToWrite = [\<lparr>wvNodeID = NumericNodeID 0 2255, wvAttributeID = 13, wvIndexRange = [],
       wvValue = datavalue_sample\<rparr>]\<rparr>"

theorem data_access_messages_roundtrip_witness:
  "decodes_as DefaultBinaryLimits (write_request_wire write_request_sample)
     WriteRequestEncodingID ReadWriteRequest (write_request_norm write_request_sample)"
proof -
  have e: "Bytes (WriteWriteRequest write_request_sample header_encoder) =
      Inr (write_request_wire write_request_sample)" by code_simp
  have r: "write_request_readable DefaultBinaryLimits write_request_sample" by code_simp
  from data_access_messages_roundtrip [OF header_encoder_new, of _ _ _ _ write_request_sample] e r
  show ?thesis by metis
qed

end
