(* ===== verification/Conversion.thy ===== *)
theory Conversion
  imports NodeModel DataAccessMessages
begin

text \<open>
  Values between the DA core and the UA services, from \<^verbatim>\<open>src/internal/opcua/readwrite.go\<close>: a DA
  value or array as a Variant, a DA read result as a DataValue, a client's Variant as a strictly
  typed DA write, and runtime errors as status codes. The laws show that nothing is widened,
  narrowed or invented on the way, in either direction.
\<close>

section \<open>Status codes and DA results\<close>

definition StatusBadInternalError :: StatusCode where "StatusBadInternalError = 0x80020000"
definition StatusBadNotSupported :: StatusCode where "StatusBadNotSupported = 0x803D0000"
definition StatusBadNoData :: StatusCode where "StatusBadNoData = 0x809B0000"
definition StatusBadTimeout :: StatusCode where "StatusBadTimeout = 0x800A0000"
definition StatusBadTooManyOperations :: StatusCode where "StatusBadTooManyOperations = 0x80100000"
definition StatusBadDataTypeIDUnknown :: StatusCode where "StatusBadDataTypeIDUnknown = 0x80110000"

text \<open>An \<^verbatim>\<open>ErrorCode\<close> field is compared with the empty string only: \<open>None\<close> stands for it.\<close>

record ReadResult =
  rrItemID :: DAItemID
  rrValue :: "DAValue option"
  rrVarType :: "DAVarType option"
  rrCanonicalType :: "DAVarType option"
  rrAccessRights :: "DAAccessRights option"
  rrHRESULT :: HRESULT
  rrHRESULTPresent :: bool
  rrErrorCode :: "ErrorCode option"

record WriteItem =
  wiItemID :: DAItemID
  wiVarType :: DAVarType
  wiValue :: go_value

record WriteResult =
  wrItemID :: DAItemID
  wrHRESULT :: HRESULT
  wrHRESULTPresent :: bool
  wrErrorCode :: "ErrorCode option"

section \<open>DA values as Variants\<close>

text \<open>
  \<^verbatim>\<open>collectArrayElements[T]\<close>: \<open>assert\<close> is the type assertion \<^verbatim>\<open>element.(T)\<close> and \<open>wrap\<close> the
  typed slice as an \<^verbatim>\<open>any\<close>.
\<close>

definition collectArrayElements ::
  "(da_value \<Rightarrow> 'a option) \<Rightarrow> ('a list \<Rightarrow> go_value) \<Rightarrow> DAArray \<Rightarrow> BuiltInTypeID \<Rightarrow> (go_value \<times> BuiltInTypeID) option" where
  "collectArrayElements assert wrap array builtIn =
     (if list_all (\<lambda>element. assert element \<noteq> None) (Elements array)
      then Some (wrap (map (\<lambda>element. the (assert element)) (Elements array)), builtIn) else None)"

definition uaArrayElements :: "DAArray \<Rightarrow> (go_value \<times> BuiltInTypeID) option" where
  "uaArrayElements array = (let t = ElementType array in
     if t = VTBool then collectArrayElements (\<lambda>v. case v of DBool x \<Rightarrow> Some x | _ \<Rightarrow> None) GBools array BuiltInBoolean
     else if t = VTI1 then collectArrayElements (\<lambda>v. case v of DInt8 x \<Rightarrow> Some x | _ \<Rightarrow> None) GInt8s array BuiltInSByte
     else if t = VTUI1 then collectArrayElements (\<lambda>v. case v of DUInt8 x \<Rightarrow> Some x | _ \<Rightarrow> None) GBytes array BuiltInByte
     else if t = VTI2 then collectArrayElements (\<lambda>v. case v of DInt16 x \<Rightarrow> Some x | _ \<Rightarrow> None) GInt16s array BuiltInInt16
     else if t = VTUI2 then collectArrayElements (\<lambda>v. case v of DUInt16 x \<Rightarrow> Some x | _ \<Rightarrow> None) GUInt16s array BuiltInUInt16
     else if t = VTI4 \<or> t = VTInt \<or> t = VTError then
       collectArrayElements (\<lambda>v. case v of DInt32 x \<Rightarrow> Some x | _ \<Rightarrow> None) GInt32s array BuiltInInt32
     else if t = VTUI4 \<or> t = VTUInt then
       collectArrayElements (\<lambda>v. case v of DUInt32 x \<Rightarrow> Some x | _ \<Rightarrow> None) GUInt32s array BuiltInUInt32
     else if t = VTI8 then collectArrayElements (\<lambda>v. case v of DInt64 x \<Rightarrow> Some x | _ \<Rightarrow> None) GInt64s array BuiltInInt64
     else if t = VTUI8 then collectArrayElements (\<lambda>v. case v of DUInt64 x \<Rightarrow> Some x | _ \<Rightarrow> None) GUInt64s array BuiltInUInt64
     else if t = VTR4 then collectArrayElements (\<lambda>v. case v of DFloat32 x \<Rightarrow> Some x | _ \<Rightarrow> None) GFloat32s array BuiltInFloat
     else if t = VTR8 then collectArrayElements (\<lambda>v. case v of DFloat64 x \<Rightarrow> Some x | _ \<Rightarrow> None) GFloat64s array BuiltInDouble
     else if t = VTBSTR then collectArrayElements (\<lambda>v. case v of DString x \<Rightarrow> Some x | _ \<Rightarrow> None) GStrings array BuiltInString
     else None)"

text \<open>The zero Variant the source returns beside a bad status.\<close>

definition zeroVariant :: Variant where "zeroVariant = Variant 0 GNil False []"

definition variantForDAArray :: "DAArray \<Rightarrow> Variant \<times> StatusCode" where
  "variantForDAArray array =
     (if list_ex (\<lambda>d. LowerBound d \<noteq> 0) (Dimensions array) then (zeroVariant, StatusBadNotSupported)
      else if Dimensions array = [] then (zeroVariant, StatusBadTypeMismatch)
      else case uaArrayElements array of
          None \<Rightarrow> (zeroVariant, StatusBadTypeMismatch)
        | Some (elements, builtIn) \<Rightarrow>
            (Variant builtIn elements True
               (if length (Dimensions array) > 1 then map Length (Dimensions array) else []), StatusGood))"

definition variantForDAValue :: "da_value \<Rightarrow> Variant \<times> StatusCode" where
  "variantForDAValue value = (case value of
       DArray array \<Rightarrow> variantForDAArray array
     | DNil \<Rightarrow> (NullVariant, StatusGood)
     | DBool x \<Rightarrow> (Variant BuiltInBoolean (GBool x) False [], StatusGood)
     | DInt8 x \<Rightarrow> (Variant BuiltInSByte (GInt8 x) False [], StatusGood)
     | DUInt8 x \<Rightarrow> (Variant BuiltInByte (GUInt8 x) False [], StatusGood)
     | DInt16 x \<Rightarrow> (Variant BuiltInInt16 (GInt16 x) False [], StatusGood)
     | DUInt16 x \<Rightarrow> (Variant BuiltInUInt16 (GUInt16 x) False [], StatusGood)
     | DInt32 x \<Rightarrow> (Variant BuiltInInt32 (GInt32 x) False [], StatusGood)
     | DUInt32 x \<Rightarrow> (Variant BuiltInUInt32 (GUInt32 x) False [], StatusGood)
     | DInt64 x \<Rightarrow> (Variant BuiltInInt64 (GInt64 x) False [], StatusGood)
     | DUInt64 x \<Rightarrow> (Variant BuiltInUInt64 (GUInt64 x) False [], StatusGood)
     | DFloat32 x \<Rightarrow> (Variant BuiltInFloat (GFloat32 x) False [], StatusGood)
     | DFloat64 x \<Rightarrow> (Variant BuiltInDouble (GFloat64 x) False [], StatusGood)
     | DString x \<Rightarrow> (Variant BuiltInString (GString x) False [], StatusGood))"

section \<open>Results as DataValues\<close>

definition asksSource :: "TimestampsToReturn \<Rightarrow> bool" where
  "asksSource timestamps \<longleftrightarrow> timestamps = TimestampsSource \<or> timestamps = TimestampsBoth"

definition asksServer :: "TimestampsToReturn \<Rightarrow> bool" where
  "asksServer timestamps \<longleftrightarrow> timestamps = TimestampsServer \<or> timestamps = TimestampsBoth"

definition failedDataValue :: "StatusCode \<Rightarrow> DataValue" where
  "failedDataValue status = DataValue NullVariant status zeroTime 0 zeroTime 0"

definition localDataValue :: "Variant \<Rightarrow> TimestampsToReturn \<Rightarrow> gotime \<Rightarrow> DataValue" where
  "localDataValue value timestamps now = DataValue value StatusGood
     (if asksSource timestamps then now else zeroTime) 0 (if asksServer timestamps then now else zeroTime) 0"

definition dataValueForRead :: "ReadResult \<Rightarrow> TimestampsToReturn \<Rightarrow> gotime \<Rightarrow> DataValue" where
  "dataValueForRead result timestamps now = (let
     (value, status) =
       (if rrHRESULTPresent result \<and> HR_Failed (rrHRESULT result) then
          (NullVariant, StatusCodeForReadError (rrHRESULT result))
        else if rrErrorCode result \<noteq> None then (NullVariant, StatusBadInternalError)
        else case rrValue result of
            None \<Rightarrow> (NullVariant, StatusBadInternalError)
          | Some v \<Rightarrow>
              (let status = StatusCodeForQuality (QualityRaw v);
                   (variant, conversion) = variantForDAValue (davValue v)
               in if IsBad conversion then (NullVariant, conversion)
                  else if \<not> IsBad status then (variant, status) else (NullVariant, status)));
     source = (case rrValue result of
         None \<Rightarrow> zeroTime
       | Some v \<Rightarrow> if TimestampPresent v \<and> asksSource timestamps then Timestamp v else zeroTime)
     in DataValue value status source 0 (if asksServer timestamps then now else zeroTime) 0)"

section \<open>Variants as DA writes\<close>

definition varTypeForVariant :: "Variant \<Rightarrow> DAVarType option" where
  "varTypeForVariant v = (let t = vType v in
     if t = BuiltInBoolean then Some VTBool else if t = BuiltInSByte then Some VTI1
     else if t = BuiltInByte then Some VTUI1 else if t = BuiltInInt16 then Some VTI2
     else if t = BuiltInUInt16 then Some VTUI2 else if t = BuiltInInt32 then Some VTI4
     else if t = BuiltInUInt32 then Some VTUI4 else if t = BuiltInInt64 then Some VTI8
     else if t = BuiltInUInt64 then Some VTUI8 else if t = BuiltInFloat then Some VTR4
     else if t = BuiltInDouble then Some VTR8 else if t = BuiltInString then Some VTBSTR
     else None)"

definition varTypeForDataTypeNode :: "NodeID \<Rightarrow> DAVarType option" where
  "varTypeForDataTypeNode dataType =
     (if Namespace dataType \<noteq> 0 \<or> Type dataType \<noteq> NodeIDTypeNumeric then None
      else let n = Numeric dataType in
        if n = NodeIDBoolean then Some VTBool else if n = NodeIDSByte then Some VTI1
        else if n = NodeIDByte then Some VTUI1 else if n = NodeIDInt16 then Some VTI2
        else if n = NodeIDUInt16 then Some VTUI2 else if n = NodeIDInt32 then Some VTI4
        else if n = NodeIDUInt32 then Some VTUI4 else if n = NodeIDInt64 then Some VTI8
        else if n = NodeIDUInt64 then Some VTUI8 else if n = NodeIDFloat then Some VTR4
        else if n = NodeIDDouble then Some VTR8 else if n = NodeIDString then Some VTBSTR
        else None)"

definition variantMatchesVarType :: "Variant \<Rightarrow> DAVarType \<Rightarrow> bool" where
  "variantMatchesVarType v varType = (case DataTypeFor varType of
       None \<Rightarrow> False
     | Some expected \<Rightarrow> (case expected of
         DataTypeBoolean \<Rightarrow> vType v = BuiltInBoolean | DataTypeSByte \<Rightarrow> vType v = BuiltInSByte
       | DataTypeByte \<Rightarrow> vType v = BuiltInByte | DataTypeInt16 \<Rightarrow> vType v = BuiltInInt16
       | DataTypeUInt16 \<Rightarrow> vType v = BuiltInUInt16 | DataTypeInt32 \<Rightarrow> vType v = BuiltInInt32
       | DataTypeUInt32 \<Rightarrow> vType v = BuiltInUInt32 | DataTypeInt64 \<Rightarrow> vType v = BuiltInInt64
       | DataTypeUInt64 \<Rightarrow> vType v = BuiltInUInt64 | DataTypeFloat \<Rightarrow> vType v = BuiltInFloat
       | DataTypeDouble \<Rightarrow> vType v = BuiltInDouble | DataTypeString \<Rightarrow> vType v = BuiltInString
       | _ \<Rightarrow> False))"

definition writeItemForNode :: "Node \<Rightarrow> Variant \<Rightarrow> WriteItem option" where
  "writeItemForNode node variant =
     (if Variant_IsNull variant \<or> IsArray variant then None
      else if DataTypeKnown node then (case varTypeForDataTypeNode (nDataType node) of
          None \<Rightarrow> None
        | Some varType \<Rightarrow>
            if \<not> variantMatchesVarType variant varType then None
            else Some \<lparr>wiItemID = nItemID node, wiVarType = varType, wiValue = vValue variant\<rparr>)
      else (case varTypeForVariant variant of
          None \<Rightarrow> None
        | Some varType \<Rightarrow> Some \<lparr>wiItemID = nItemID node, wiVarType = varType, wiValue = vValue variant\<rparr>))"

section \<open>Runtime errors\<close>

definition statusForRuntimeError :: "da_error \<Rightarrow> StatusCode" where
  "statusForRuntimeError er = (case er of
       SourceError hr \<Rightarrow> StatusCodeForReadError hr
     | OtherError \<Rightarrow> StatusBadInternalError
     | AdapterError code \<Rightarrow>
         if code = CodeRuntimeUnavailable then StatusBadNotConnected
         else if code = CodeRuntimeDeadline then StatusBadTimeout
         else if code = CodeWriteDisabled then StatusBadNotWritable
         else if code \<in> {CodeQueueFull, CodeRequestLimitExceeded, CodeRegisteredItemLimit} then
           StatusBadTooManyOperations
         else if code \<in> {CodeTypeMismatch, CodeInvalidValue} then StatusBadTypeMismatch
         else if code = CodeUnsupportedVarType then StatusBadDataTypeIDUnknown
         else if code \<in> {CodeBrowseUnsupported, CodeSubscribeUnsupported, CodePropertiesUnsupported} then
           StatusBadServiceUnsupported
         else StatusBadInternalError)"

section \<open>Nothing is widened, narrowed or invented\<close>

text \<open>The same dynamic value in the \<^verbatim>\<open>any\<close> of the other package; arrays have no scalar form.\<close>

primrec as_go :: "da_value \<Rightarrow> go_value" where
  "as_go DNil = GNil"
| "as_go (DBool x) = GBool x"
| "as_go (DInt8 x) = GInt8 x"
| "as_go (DUInt8 x) = GUInt8 x"
| "as_go (DInt16 x) = GInt16 x"
| "as_go (DUInt16 x) = GUInt16 x"
| "as_go (DInt32 x) = GInt32 x"
| "as_go (DUInt32 x) = GUInt32 x"
| "as_go (DInt64 x) = GInt64 x"
| "as_go (DUInt64 x) = GUInt64 x"
| "as_go (DFloat32 x) = GFloat32 x"
| "as_go (DFloat64 x) = GFloat64 x"
| "as_go (DString x) = GString x"
| "as_go (DArray x) = GNil"

primrec is_scalar :: "da_value \<Rightarrow> bool" where
  "is_scalar DNil \<longleftrightarrow> False"
| "is_scalar (DBool x) \<longleftrightarrow> True"
| "is_scalar (DInt8 x) \<longleftrightarrow> True"
| "is_scalar (DUInt8 x) \<longleftrightarrow> True"
| "is_scalar (DInt16 x) \<longleftrightarrow> True"
| "is_scalar (DUInt16 x) \<longleftrightarrow> True"
| "is_scalar (DInt32 x) \<longleftrightarrow> True"
| "is_scalar (DUInt32 x) \<longleftrightarrow> True"
| "is_scalar (DInt64 x) \<longleftrightarrow> True"
| "is_scalar (DUInt64 x) \<longleftrightarrow> True"
| "is_scalar (DFloat32 x) \<longleftrightarrow> True"
| "is_scalar (DFloat64 x) \<longleftrightarrow> True"
| "is_scalar (DString x) \<longleftrightarrow> True"
| "is_scalar (DArray x) \<longleftrightarrow> False"

lemma as_go_inj: "is_scalar v \<Longrightarrow> is_scalar w \<Longrightarrow> as_go v = as_go w \<Longrightarrow> v = w"
  by (cases v; cases w) auto

lemma decodes_self:
  "VT_DecodesAs VTBool = VTBool" "VT_DecodesAs VTI1 = VTI1" "VT_DecodesAs VTUI1 = VTUI1"
  "VT_DecodesAs VTI2 = VTI2" "VT_DecodesAs VTUI2 = VTUI2" "VT_DecodesAs VTI4 = VTI4"
  "VT_DecodesAs VTUI4 = VTUI4" "VT_DecodesAs VTI8 = VTI8" "VT_DecodesAs VTUI8 = VTUI8"
  "VT_DecodesAs VTR4 = VTR4" "VT_DecodesAs VTR8 = VTR8" "VT_DecodesAs VTBSTR = VTBSTR"
  by code_simp+

lemma native_decodes: "w \<in> set (native_types v) \<Longrightarrow> is_scalar v \<Longrightarrow> VT_DecodesAs w = w"
  by (cases v) (simp_all add: decodes_self)

lemma variantForDAValue_scalar:
  "is_scalar v \<Longrightarrow> \<exists>t. variantForDAValue v = (Variant t (as_go v) False [], StatusGood) \<and>
     scalar_type (as_go v) = Some t \<and> t \<noteq> BuiltInNull \<and>
     (\<exists>vt. varTypeForVariant (Variant t (as_go v) False []) = Some vt \<and> native_types v = [vt] \<and> VT_DecodesAs vt = vt)"
  by (cases v) (simp_all add: variantForDAValue_def varTypeForVariant_def builtin_defs decodes_self)

lemma type_tables:
  "dataTypeFromTableA2 VTBool = Some DataTypeBoolean" "DataTypeFor VTBool = Some DataTypeBoolean"
  "varTypeForDataTypeNode (NumericNodeID 0 (dataTypeNodeIDs DataTypeBoolean)) = Some VTBool"
  "dataTypeFromTableA2 VTI1 = Some DataTypeSByte" "DataTypeFor VTI1 = Some DataTypeSByte"
  "varTypeForDataTypeNode (NumericNodeID 0 (dataTypeNodeIDs DataTypeSByte)) = Some VTI1"
  "dataTypeFromTableA2 VTUI1 = Some DataTypeByte" "DataTypeFor VTUI1 = Some DataTypeByte"
  "varTypeForDataTypeNode (NumericNodeID 0 (dataTypeNodeIDs DataTypeByte)) = Some VTUI1"
  "dataTypeFromTableA2 VTI2 = Some DataTypeInt16" "DataTypeFor VTI2 = Some DataTypeInt16"
  "varTypeForDataTypeNode (NumericNodeID 0 (dataTypeNodeIDs DataTypeInt16)) = Some VTI2"
  "dataTypeFromTableA2 VTUI2 = Some DataTypeUInt16" "DataTypeFor VTUI2 = Some DataTypeUInt16"
  "varTypeForDataTypeNode (NumericNodeID 0 (dataTypeNodeIDs DataTypeUInt16)) = Some VTUI2"
  "dataTypeFromTableA2 VTI4 = Some DataTypeInt32" "DataTypeFor VTI4 = Some DataTypeInt32"
  "varTypeForDataTypeNode (NumericNodeID 0 (dataTypeNodeIDs DataTypeInt32)) = Some VTI4"
  "dataTypeFromTableA2 VTUI4 = Some DataTypeUInt32" "DataTypeFor VTUI4 = Some DataTypeUInt32"
  "varTypeForDataTypeNode (NumericNodeID 0 (dataTypeNodeIDs DataTypeUInt32)) = Some VTUI4"
  "dataTypeFromTableA2 VTI8 = Some DataTypeInt64" "DataTypeFor VTI8 = Some DataTypeInt64"
  "varTypeForDataTypeNode (NumericNodeID 0 (dataTypeNodeIDs DataTypeInt64)) = Some VTI8"
  "dataTypeFromTableA2 VTUI8 = Some DataTypeUInt64" "DataTypeFor VTUI8 = Some DataTypeUInt64"
  "varTypeForDataTypeNode (NumericNodeID 0 (dataTypeNodeIDs DataTypeUInt64)) = Some VTUI8"
  "dataTypeFromTableA2 VTR4 = Some DataTypeFloat" "DataTypeFor VTR4 = Some DataTypeFloat"
  "varTypeForDataTypeNode (NumericNodeID 0 (dataTypeNodeIDs DataTypeFloat)) = Some VTR4"
  "dataTypeFromTableA2 VTR8 = Some DataTypeDouble" "DataTypeFor VTR8 = Some DataTypeDouble"
  "varTypeForDataTypeNode (NumericNodeID 0 (dataTypeNodeIDs DataTypeDouble)) = Some VTR8"
  "dataTypeFromTableA2 VTBSTR = Some DataTypeString" "DataTypeFor VTBSTR = Some DataTypeString"
  "varTypeForDataTypeNode (NumericNodeID 0 (dataTypeNodeIDs DataTypeString)) = Some VTBSTR"
  by code_simp+

text \<open>The type a node learns from a canonical VARTYPE decides the VARTYPE of a write.\<close>

lemma learned_type_writes:
  assumes "DataTypeFor vt = Some dt" and "VT_DecodesAs vt \<in> set (native_types v)" and "is_scalar v"
  shows "\<exists>w. varTypeForDataTypeNode (NumericNodeID 0 (dataTypeNodeIDs dt)) = Some w \<and> w \<in> set (native_types v) \<and>
    variantMatchesVarType (fst (variantForDAValue v)) w"
proof -
  have v: "VT_DecodesAs vt \<in> set (native_types v)" "is_scalar v" by fact+
  have "dataTypeFromTableA2 (VT_DecodesAs vt) = Some dt"
    using assms(1) by (simp add: DataTypeFor_def split: if_splits)
  moreover have "dataTypeFromTableA2 w = Some d \<Longrightarrow> w \<in> set (native_types v) \<Longrightarrow>
      DataTypeFor w = Some d \<and> varTypeForDataTypeNode (NumericNodeID 0 (dataTypeNodeIDs d)) = Some w \<and>
      variantMatchesVarType (fst (variantForDAValue v)) w" for w d
    using v(2) by (cases v) (auto simp: type_tables variantMatchesVarType_def variantForDAValue_def)
  ultimately show ?thesis using v(1) by blast
qed

lemma variantMatchesVarType_type: "vType v = vType w \<Longrightarrow> variantMatchesVarType v t = variantMatchesVarType w t"
  by (simp add: variantMatchesVarType_def split: option.split DataType.split)

text \<open>What the node knows of the type of its item: nothing, or a type that a canonical VARTYPE
  of the value maps to.\<close>

definition type_agrees :: "Node \<Rightarrow> da_value \<Rightarrow> bool" where
  "type_agrees node v \<longleftrightarrow> (DataTypeKnown node \<longrightarrow> (\<exists>vt dt. DataTypeFor vt = Some dt \<and>
     nDataType node = NumericNodeID 0 (dataTypeNodeIDs dt) \<and> VT_DecodesAs vt \<in> set (native_types v)))"

lemma write_back:
  assumes "is_scalar v" and "type_agrees node v"
    and "vType w = vType (fst (variantForDAValue v))" "\<not> IsArray w"
  shows "\<exists>vt. vt \<in> set (native_types v) \<and>
    writeItemForNode node w = Some \<lparr>wiItemID = nItemID node, wiVarType = vt, wiValue = vValue w\<rparr>"
proof -
  obtain t vt where t: "variantForDAValue v = (Variant t (as_go v) False [], StatusGood)" "t \<noteq> BuiltInNull"
      "varTypeForVariant (Variant t (as_go v) False []) = Some vt" "native_types v = [vt]"
    using variantForDAValue_scalar [OF assms(1)] by auto
  have w: "vType w = t" "\<not> Variant_IsNull w" using assms(3) t(1,2) by (simp_all add: Variant_IsNull_def)
  show ?thesis
  proof (cases "DataTypeKnown node")
    case True
    then obtain ct dt where "DataTypeFor ct = Some dt" "nDataType node = NumericNodeID 0 (dataTypeNodeIDs dt)"
        "VT_DecodesAs ct \<in> set (native_types v)"
      using assms(2) by (auto simp: type_agrees_def)
    then obtain u where "varTypeForDataTypeNode (nDataType node) = Some u" "u \<in> set (native_types v)"
        "variantMatchesVarType (fst (variantForDAValue v)) u"
      using learned_type_writes assms(1) by metis
    then show ?thesis
      using True w assms(3,4) variantMatchesVarType_type [of w "fst (variantForDAValue v)" u]
      by (simp add: writeItemForNode_def)
  next
    case False
    have "varTypeForVariant w = Some vt" using t(3) w(1) by (simp add: varTypeForVariant_def)
    then show ?thesis using False w assms(4) t(4) by (simp add: writeItemForNode_def)
  qed
qed

section \<open>Properties\<close>

text \<open>Claim C17: a scalar the source reports goes to a client and back unchanged. It becomes a
  Variant of its own Go type; whenever that Variant is encoded, the client decodes the same
  value (a NaN as the canonical one) to the last byte; and the client's write of what it decoded
  sends that value to the same item with a VARTYPE of the same Go type, which the strict
  check of the DA core accepts, whether or not the node has learned the canonical type.\<close>

theorem da_value_survives:
  assumes "is_scalar v" and "type_agrees node v"
    and "NewEncoder L = Inr e" and "Bytes (WriteVariant (fst (variantForDAValue v)) e) = Inr bs"
    and "case v of DString s \<Rightarrow> ValidString s \<and> int (utf16CodeUnits s) \<le> m | _ \<Rightarrow> True"
  shows "snd (variantForDAValue v) = StatusGood \<and>
    (\<exists>d d' w vt. NewDecoder bs L = Inr d \<and> ReadVariant d = Inr (w, d') \<and> Done d' \<and>
       vValue w = scalar_norm (as_go v) \<and>
       writeItemForNode node w = Some \<lparr>wiItemID = nItemID node, wiVarType = vt, wiValue = vValue w\<rparr> \<and>
       validateScalarValue vt v m = Inr (element_units v))"
proof -
  obtain t where t: "variantForDAValue v = (Variant t (as_go v) False [], StatusGood)" "t \<noteq> BuiltInNull"
    using variantForDAValue_scalar [OF assms(1)] by auto
  define w where "w = variant_norm (Variant t (as_go v) False [])"
  have w: "vType w = t" "vValue w = scalar_norm (as_go v)" "\<not> IsArray w"
    using t(2) by (simp_all add: w_def variant_norm_def)
  have "variant_readable L (Variant t (as_go v) False [])" by (simp add: variant_readable_def)
  then have "\<exists>d d'. NewDecoder bs L = Inr d \<and> ReadVariant d = Inr (w, d') \<and> Done d'"
    unfolding w_def using variant_codec.roundtrip_on assms(3,4) t(1) by simp
  moreover obtain vt where vt: "vt \<in> set (native_types v)"
      "writeItemForNode node w = Some \<lparr>wiItemID = nItemID node, wiVarType = vt, wiValue = vValue w\<rparr>"
    using write_back [OF assms(1,2), of w] w t(1) by auto
  moreover have "validateScalarValue vt v m = Inr (element_units v)"
    using vt(1) native_decodes [OF vt(1) assms(1)] assms(5)
    by (simp add: validateScalarValue_eq element_ok_def)
  ultimately show ?thesis using w(2) t(1) by auto
qed

definition learned_node_sample :: Node where
  "learned_node_sample = zeroNode\<lparr>nItemID := [65], DataTypeKnown := True,
     nDataType := NumericNodeID 0 (dataTypeNodeIDs DataTypeInt16)\<rparr>"

theorem da_value_survives_witness:
  "\<exists>w vt. vValue w = GInt16 7 \<and>
     writeItemForNode learned_node_sample w = Some \<lparr>wiItemID = [65], wiVarType = vt, wiValue = GInt16 7\<rparr> \<and>
     validateScalarValue vt (DInt16 7) 10 = Inr 0"
proof -
  have "type_agrees learned_node_sample (DInt16 7)"
    by (auto simp: type_agrees_def learned_node_sample_def decodes_self
        intro!: exI [of _ VTI2] exI [of _ DataTypeInt16] type_tables)
  moreover have "Bytes (WriteVariant (fst (variantForDAValue (DInt16 7))) default_encoder) = Inr [4, 7, 0]"
    by code_simp
  ultimately show ?thesis
    using da_value_survives [OF _ _ default_encoder_new, of "DInt16 7" learned_node_sample "[4, 7, 0]" 10]
    by (auto simp: learned_node_sample_def)
qed

definition expressible :: "da_value \<Rightarrow> bool" where
  "expressible v \<longleftrightarrow> (case v of
       DArray a \<Rightarrow> Dimensions a \<noteq> [] \<and> list_all (\<lambda>d. LowerBound d = 0) (Dimensions a) \<and> uaArrayElements a \<noteq> None
     | _ \<Rightarrow> True)"

lemma bad_statuses: "IsBad StatusBadNotSupported" "IsBad StatusBadTypeMismatch" "IsBad StatusBadInternalError"
  "\<not> IsBad StatusGood" "IsBad StatusBadNoData" "IsBad StatusBadEncodingLimitsExceeded"
  by code_simp+

lemma list_all_not_ex: "list_all P xs \<longleftrightarrow> \<not> list_ex (\<lambda>x. \<not> P x) xs"
  by (auto simp: list_all_iff list_ex_iff)

lemma variantForDAValue_status:
  "(if expressible v then snd (variantForDAValue v) = StatusGood else IsBad (snd (variantForDAValue v)))"
  by (cases v) (auto simp: expressible_def variantForDAValue_def variantForDAArray_def bad_statuses
      list_all_not_ex split: option.split)

lemma failed_read_is_bad: "HR_Failed hr \<Longrightarrow> IsBad (StatusCodeForReadError hr)"
  by (simp add: StatusCodeForReadError_def Severity_errors HR_Failed_def HR_Succeeded_def)

definition delivers :: "ReadResult \<Rightarrow> DAValue \<Rightarrow> bool" where
  "delivers r v \<longleftrightarrow> \<not> (rrHRESULTPresent r \<and> HR_Failed (rrHRESULT r)) \<and> rrErrorCode r = None \<and>
     rrValue r = Some v \<and> \<not> IsBad (StatusCodeForQuality (QualityRaw v)) \<and> expressible (davValue v)"

text \<open>Claim C18: what a client is told of a read is what the source said. The status is not bad
  exactly when the source delivered: it did not fail the item, reported no error, and gave a
  value whose quality is not bad and which has a lossless form (for an array: lower bounds of
  zero, a dimension, elements of its own type). Then the client gets the converted value
  under the status of its quality, and otherwise a null value. A source timestamp is the one
  the source gave, and appears only when it was asked for; the server's time appears only as
  server timestamp.\<close>

theorem read_result_faithful:
  "(\<not> IsBad (dvStatus (dataValueForRead r timestamps now)) \<longleftrightarrow> (\<exists>v. delivers r v)) \<and>
   (case rrValue r of
      Some v \<Rightarrow>
        (if delivers r v
         then dvValue (dataValueForRead r timestamps now) = fst (variantForDAValue (davValue v)) \<and>
           dvStatus (dataValueForRead r timestamps now) = StatusCodeForQuality (QualityRaw v)
         else dvValue (dataValueForRead r timestamps now) = NullVariant) \<and>
        SourceTimestamp (dataValueForRead r timestamps now) =
          (if TimestampPresent v \<and> asksSource timestamps then Timestamp v else zeroTime)
    | None \<Rightarrow> dvValue (dataValueForRead r timestamps now) = NullVariant \<and>
        SourceTimestamp (dataValueForRead r timestamps now) = zeroTime) \<and>
   ServerTimestamp (dataValueForRead r timestamps now) = (if asksServer timestamps then now else zeroTime)"
proof (cases "rrValue r")
  case None
  then show ?thesis
    using failed_read_is_bad [of "rrHRESULT r"]
    by (auto simp: dataValueForRead_def Let_def delivers_def bad_statuses)
next
  case (Some v)
  show ?thesis
    using Some failed_read_is_bad [of "rrHRESULT r"] variantForDAValue_status [of "davValue v"]
    by (cases "variantForDAValue (davValue v)")
      (auto simp: dataValueForRead_def Let_def delivers_def bad_statuses split: if_splits)
qed

end
