(* ===== verification/ItemProperties.thy ===== *)
theory ItemProperties
  imports Space Conversion
begin

text \<open>
  The properties of DA items, from \<^verbatim>\<open>src/internal/opcua/itemproperties.go\<close>: which VariableType and
  which property nodes an item gets from what the source offers, how the value of a property is
  built from the source's answers, and what the address space learns on the way (semantic
  changes, the scan rate).
\<close>

declare Option.is_none_def [simp]

section \<open>Properties of the source\<close>

type_synonym PropertyID = uint32

definition PropertyDataType :: PropertyID where "PropertyDataType = 1"
definition PropertyValue :: PropertyID where "PropertyValue = 2"
definition PropertyQuality :: PropertyID where "PropertyQuality = 3"
definition PropertyTimestamp :: PropertyID where "PropertyTimestamp = 4"
definition PropertyAccessRights :: PropertyID where "PropertyAccessRights = 5"
definition PropertyScanRate :: PropertyID where "PropertyScanRate = 6"
definition PropertyEUType :: PropertyID where "PropertyEUType = 7"
definition PropertyEUInfo :: PropertyID where "PropertyEUInfo = 8"
definition PropertyEUUnits :: PropertyID where "PropertyEUUnits = 100"
definition PropertyDescription :: PropertyID where "PropertyDescription = 101"
definition PropertyHighEU :: PropertyID where "PropertyHighEU = 102"
definition PropertyLowEU :: PropertyID where "PropertyLowEU = 103"
definition PropertyHighIR :: PropertyID where "PropertyHighIR = 104"
definition PropertyLowIR :: PropertyID where "PropertyLowIR = 105"
definition PropertyCloseLabel :: PropertyID where "PropertyCloseLabel = 106"
definition PropertyOpenLabel :: PropertyID where "PropertyOpenLabel = 107"

type_synonym EUType = int32

definition EUTypeNoEnum :: EUType where "EUTypeNoEnum = 0"
definition EUTypeAnalog :: EUType where "EUTypeAnalog = 1"
definition EUTypeEnumerated :: EUType where "EUTypeEnumerated = 2"

record AvailableProperty =
  apID :: PropertyID
  apDescription :: gostring
  apVarType :: DAVarType
  apItemID :: DAItemID
  apItemIDPresent :: bool

record ItemPropertyValue =
  pvID :: PropertyID
  pvOK :: bool
  pvHRESULT :: HRESULT
  pvHRESULTPresent :: bool
  pvVarType :: DAVarType
  pvVarTypePresent :: bool
  pvValue :: da_value
  pvValuePresent :: bool
  pvErrorCode :: "ErrorCode option"

section \<open>Numbers as float64\<close>

text \<open>
  The conversions of Go to \<^verbatim>\<open>float64\<close>, on the bits. All of them are exact: an integer of at most
  32 bits has at most 32 significant bits, and a \<^verbatim>\<open>float32\<close> fits into a \<^verbatim>\<open>float64\<close> (a subnormal
  one becomes normal, a signalling NaN quiet).
\<close>

definition f64_sign :: float64 where "f64_sign = 0x8000000000000000"

definition f64_of_int :: "int \<Rightarrow> float64" where
  "f64_of_int n = (if n < 0 then f64_sign OR f64_of_nat (nat (- n)) else f64_of_nat (nat n))"

definition f64_of_f32 :: "float32 \<Rightarrow> float64" where
  "f64_of_f32 w = (let u = unat w; s = u div 2 ^ 31; e = u div 2 ^ 23 mod 2 ^ 8; f = u mod 2 ^ 23;
       magnitude =
         (if e = 255 then 2047 * 2 ^ 52 + (if f = 0 then 0 else (f mod 2 ^ 22 + 2 ^ 22) * 2 ^ 29)
          else if e = 0 then (if f = 0 then 0
            else (log2 f + 874) * 2 ^ 52 + (f * 2 ^ (52 - log2 f) - 2 ^ 52))
          else (e + 896) * 2 ^ 52 + f * 2 ^ 29)
     in of_nat (s * 2 ^ 63 + magnitude))"

definition f64_NaN :: float64 where "f64_NaN = 0x7FF8000000000001"

definition asFloat64 :: "da_value \<Rightarrow> float64 option" where
  "asFloat64 value = (case value of
       DFloat64 x \<Rightarrow> Some x | DFloat32 x \<Rightarrow> Some (f64_of_f32 x)
     | DInt8 x \<Rightarrow> Some (f64_of_int (sint x)) | DUInt8 x \<Rightarrow> Some (f64_of_int (uint x))
     | DInt16 x \<Rightarrow> Some (f64_of_int (sint x)) | DUInt16 x \<Rightarrow> Some (f64_of_int (uint x))
     | DInt32 x \<Rightarrow> Some (f64_of_int (sint x)) | DUInt32 x \<Rightarrow> Some (f64_of_int (uint x))
     | _ \<Rightarrow> None)"

section \<open>Building the value of a property\<close>

definition propertyStatus :: "ItemPropertyValue \<Rightarrow> StatusCode" where
  "propertyStatus value =
     (if pvOK value \<and> pvValuePresent value then StatusGood
      else if pvHRESULTPresent value \<and> \<not> HR_Succeeded (pvHRESULT value) then
        StatusCodeForReadError (pvHRESULT value)
      else if pvErrorCode value \<noteq> None then StatusBadTypeMismatch
      else StatusBadNoData)"

definition buildStringProperty :: "AddressSpace option \<Rightarrow> ItemPropertyValue list \<Rightarrow> Variant \<times> StatusCode" where
  "buildStringProperty space values = (case values of
       [value] \<Rightarrow>
         (if propertyStatus value \<noteq> StatusGood then (NullVariant, propertyStatus value)
          else case pvValue value of
              DString text \<Rightarrow> (scalar BuiltInString (GString text), StatusGood)
            | _ \<Rightarrow> (NullVariant, StatusBadTypeMismatch))
     | _ \<Rightarrow> (NullVariant, StatusBadInternalError))"

text \<open>\<^verbatim>\<open>text.Value.(string)\<close>, which panics on anything else: \<open>buildStringProperty\<close> gives a string with Good.\<close>

definition variant_string :: "Variant \<Rightarrow> gostring" where
  "variant_string v = (case vValue v of GString s \<Rightarrow> s | _ \<Rightarrow> [])"

definition buildLocalizedTextProperty :: "AddressSpace option \<Rightarrow> ItemPropertyValue list \<Rightarrow> Variant \<times> StatusCode" where
  "buildLocalizedTextProperty space values = (let (text, status) = buildStringProperty space values
     in if status \<noteq> StatusGood then (text, status)
        else (scalar BuiltInLocalizedText (GLocalizedText (text_of (variant_string text))), StatusGood))"

definition unitIDNotAvailable :: int32 where "unitIDNotAvailable = -1"

definition buildEngineeringUnits :: "AddressSpace option \<Rightarrow> ItemPropertyValue list \<Rightarrow> Variant \<times> StatusCode" where
  "buildEngineeringUnits space values = (let (text, status) = buildStringProperty space values
     in if status \<noteq> StatusGood then (text, status)
        else case space of
            None \<Rightarrow> (NullVariant, StatusBadInternalError)
          | Some s \<Rightarrow>
              (let (variant, ok) = extensionObject s NodeIDEUInformationEncodingDefaultBinary (seqw
                 [WriteString [], WriteInt32 unitIDNotAvailable,
                  WriteLocalizedText (text_of (variant_string text)), WriteLocalizedText (text_of [])])
               in if \<not> ok then (NullVariant, StatusBadEncodingLimitsExceeded) else (variant, StatusGood)))"

text \<open>One bound of a range: a limit the source does not know is NaN, a refusal is a failure.\<close>

definition rangeBound :: "ItemPropertyValue \<Rightarrow> StatusCode + float64" where
  "rangeBound value = (let status = propertyStatus value in
     if status = StatusBadNoData then Inr f64_NaN
     else if status \<noteq> StatusGood then Inl status
     else case asFloat64 (pvValue value) of None \<Rightarrow> Inl StatusBadTypeMismatch | Some number \<Rightarrow> Inr number)"

definition buildRangeProperty :: "AddressSpace option \<Rightarrow> ItemPropertyValue list \<Rightarrow> Variant \<times> StatusCode" where
  "buildRangeProperty space values = (case (space, values) of
       (Some s, [low, high]) \<Rightarrow> (case rangeBound low of
           Inl status \<Rightarrow> (NullVariant, status)
         | Inr l \<Rightarrow> (case rangeBound high of
               Inl status \<Rightarrow> (NullVariant, status)
             | Inr h \<Rightarrow>
                 (let (variant, ok) = extensionObject s NodeIDRangeEncodingDefaultBinary
                    (seqw [WriteDouble l, WriteDouble h])
                  in if \<not> ok then (NullVariant, StatusBadEncodingLimitsExceeded) else (variant, StatusGood))))
     | _ \<Rightarrow> (NullVariant, StatusBadInternalError))"

definition buildRawProperty :: "AddressSpace option \<Rightarrow> ItemPropertyValue list \<Rightarrow> Variant \<times> StatusCode" where
  "buildRawProperty space values = (case values of
       [value] \<Rightarrow>
         (if propertyStatus value \<noteq> StatusGood then (NullVariant, propertyStatus value)
          else let (variant, conversion) = variantForDAValue (pvValue value)
               in if IsBad conversion then (NullVariant, conversion) else (variant, StatusGood))
     | _ \<Rightarrow> (NullVariant, StatusBadInternalError))"

section \<open>Bindings\<close>

record itemPropertyBinding =
  ibBrowseName :: gostring
  ibDataType :: uint32
  ibSources :: "PropertyID list"
  ibBuild :: "AddressSpace option \<Rightarrow> ItemPropertyValue list \<Rightarrow> Variant \<times> StatusCode"

definition euRangeBinding :: itemPropertyBinding where
  "euRangeBinding = \<lparr>ibBrowseName = lit ''EURange'', ibDataType = NodeIDRange,
     ibSources = [PropertyLowEU, PropertyHighEU], ibBuild = buildRangeProperty\<rparr>"

definition instrumentRangeBinding :: itemPropertyBinding where
  "instrumentRangeBinding = \<lparr>ibBrowseName = lit ''InstrumentRange'', ibDataType = NodeIDRange,
     ibSources = [PropertyLowIR, PropertyHighIR], ibBuild = buildRangeProperty\<rparr>"

definition engineeringUnitsBinding :: itemPropertyBinding where
  "engineeringUnitsBinding = \<lparr>ibBrowseName = lit ''EngineeringUnits'', ibDataType = NodeIDEUInformation,
     ibSources = [PropertyEUUnits], ibBuild = buildEngineeringUnits\<rparr>"

definition trueStateBinding :: itemPropertyBinding where
  "trueStateBinding = \<lparr>ibBrowseName = lit ''TrueState'', ibDataType = NodeIDLocalizedText,
     ibSources = [PropertyCloseLabel], ibBuild = buildLocalizedTextProperty\<rparr>"

definition falseStateBinding :: itemPropertyBinding where
  "falseStateBinding = \<lparr>ibBrowseName = lit ''FalseState'', ibDataType = NodeIDLocalizedText,
     ibSources = [PropertyOpenLabel], ibBuild = buildLocalizedTextProperty\<rparr>"

definition allItemPropertyBindings :: "itemPropertyBinding list" where
  "allItemPropertyBindings = [euRangeBinding, instrumentRangeBinding, engineeringUnitsBinding,
     trueStateBinding, falseStateBinding]"

definition bindingForBrowseName :: "gostring \<Rightarrow> itemPropertyBinding option" where
  "bindingForBrowseName name = List.find (\<lambda>b. ibBrowseName b = name) allItemPropertyBindings"

definition rawPropertyBinding :: "PropertyID \<Rightarrow> itemPropertyBinding" where
  "rawPropertyBinding i = \<lparr>ibBrowseName = [], ibDataType = NodeIDBaseDataType, ibSources = [i],
     ibBuild = buildRawProperty\<rparr>"

definition ItemPropertyForNode :: "NodeID \<Rightarrow> (DAItemID \<times> itemPropertyBinding) option" where
  "ItemPropertyForNode i =
     (case adapter_string i of None \<Rightarrow> None | Some s \<Rightarrow>
     (case strings_CutPrefix s propertyNodePrefix of None \<Rightarrow> None | Some rest \<Rightarrow>
     (case strings_Cut rest propertyNodeSeparator of None \<Rightarrow> None | Some (name, itemID) \<Rightarrow>
        if itemID = [] then None
        else case bindingForBrowseName name of None \<Rightarrow> None | Some binding \<Rightarrow> Some (itemID, binding))))"

section \<open>Choosing the VariableType\<close>

definition isNumericDataType :: "uint32 \<Rightarrow> bool" where
  "isNumericDataType i \<longleftrightarrow> i \<in> {NodeIDSByte, NodeIDByte, NodeIDInt16, NodeIDUInt16, NodeIDInt32,
     NodeIDUInt32, NodeIDInt64, NodeIDUInt64, NodeIDFloat, NodeIDDouble, NodeIDDecimal}"

definition isBooleanDataType :: "uint32 \<Rightarrow> bool" where
  "isBooleanDataType i \<longleftrightarrow> i = NodeIDBoolean"

definition itemDataTypeIs :: "Node \<Rightarrow> (uint32 \<Rightarrow> bool) \<Rightarrow> bool" where
  "itemDataTypeIs item matches =
     (if \<not> DataTypeKnown item then False
      else if Namespace (nDataType item) \<noteq> 0 \<or> Type (nDataType item) \<noteq> NodeIDTypeNumeric then False
      else matches (Numeric (nDataType item)))"

record itemVariableType =
  ivName :: gostring
  ivTypeID :: uint32
  ivProperties :: "itemPropertyBinding list"

definition offersAll :: "AvailableProperty list \<Rightarrow> PropertyID list \<Rightarrow> bool" where
  "offersAll available ids \<longleftrightarrow> list_all (\<lambda>i. list_ex (\<lambda>p. apID p = i) available) ids"

definition variableTypeFor :: "AvailableProperty list \<Rightarrow> EUType \<Rightarrow> Node \<Rightarrow> itemVariableType" where
  "variableTypeFor available euType item =
     (if offersAll available [PropertyHighEU, PropertyLowEU] \<and> itemDataTypeIs item isNumericDataType then
        \<lparr>ivName = lit ''AnalogItemType'', ivTypeID = NodeIDAnalogItemType,
         ivProperties = [euRangeBinding] @
           (if offersAll available [PropertyEUUnits] then [engineeringUnitsBinding] else []) @
           (if offersAll available [PropertyHighIR, PropertyLowIR] then [instrumentRangeBinding] else [])\<rparr>
      else if offersAll available [PropertyCloseLabel, PropertyOpenLabel] \<and> itemDataTypeIs item isBooleanDataType then
        \<lparr>ivName = lit ''TwoStateDiscreteType'', ivTypeID = NodeIDTwoStateDiscreteType,
         ivProperties = [trueStateBinding, falseStateBinding]\<rparr>
      else \<lparr>ivName = lit ''DataItemType'', ivTypeID = NodeIDDataItemType, ivProperties = []\<rparr>)"

definition itemDescriptionOffered :: "AvailableProperty list \<Rightarrow> bool" where
  "itemDescriptionOffered available \<longleftrightarrow> list_ex (\<lambda>p. apID p = PropertyDescription) available"

section \<open>Other properties\<close>

definition otherPropertiesFor :: "AvailableProperty list \<Rightarrow> itemPropertyBinding list \<Rightarrow> AvailableProperty list" where
  "otherPropertiesFor available claimed = (let
     used = {PropertyAccessRights, PropertyDescription, PropertyScanRate, PropertyValue, PropertyQuality,
       PropertyTimestamp} \<union> set (concat (map ibSources claimed))
     in filter (\<lambda>p. apID p \<notin> used \<and> DataTypeFor (VT_Base (apVarType p)) \<noteq> None \<and> \<not> VT_IsByRef (apVarType p))
          available)"

definition duplicateDescriptions :: "AvailableProperty list \<Rightarrow> gostring \<Rightarrow> bool" where
  "duplicateDescriptions properties description \<longleftrightarrow>
     count_list (map apDescription properties) description > 1 \<and> description \<noteq> []"

definition valueRankFor :: "DAVarType \<Rightarrow> int32" where
  "valueRankFor varType = (if VT_IsArray varType then ValueRankOneOrMoreDimensions else ValueRankScalar)"

definition otherPropertyName :: "AvailableProperty \<Rightarrow> bool \<Rightarrow> gostring" where
  "otherPropertyName p shared =
     (if apDescription p = [] then lit ''Property'' @ decimal (unat (apID p))
      else if shared then apDescription p @ lit '' ('' @ decimal (unat (apID p)) @ lit '')''
      else apDescription p)"

definition otherPropertyNode :: "DAItemID \<Rightarrow> AvailableProperty \<Rightarrow> bool \<Rightarrow> Node" where
  "otherPropertyNode itemID p shared = (let
     name = otherPropertyName p shared;
     node = zeroNode\<lparr>nID := OtherPropertyNodeID itemID (apID p), nClass := NodeClassVariable,
       nBrowseName := adapterName name, nDisplayName := text_of name,
       nTypeDefinition := NumericNodeID 0 NodeIDPropertyType, nDataType := NumericNodeID 0 NodeIDBaseDataType,
       ValueRank := valueRankFor (apVarType p), nItemID := itemID,
       AccessLevel := AccessLevelCurrentRead, AccessRightsKnown := True\<rparr>;
     node = (if apItemIDPresent p then node\<lparr>nItemID := apItemID p, OwnItemID := True,
       AccessLevel := AccessLevelCurrentRead OR AccessLevelCurrentWrite\<rparr> else node)
     in with_type (Some (apVarType p)) node)"

section \<open>Attaching properties to an item\<close>

definition keepNonPropertyReferences :: "Reference list \<Rightarrow> Reference list" where
  "keepNonPropertyReferences references = filter (\<lambda>r. \<not> (rfIsForward r \<and>
     NodeID_Equal (rfReferenceTypeID r) (NumericNodeID 0 NodeIDHasProperty))) references"

definition bindingNode :: "DAItemID \<Rightarrow> itemPropertyBinding \<Rightarrow> Node" where
  "bindingNode itemID binding = zeroNode\<lparr>nID := ItemPropertyNodeID itemID (ibBrowseName binding),
     nClass := NodeClassVariable, nBrowseName := ns0 (ibBrowseName binding),
     nDisplayName := text_of (ibBrowseName binding), nTypeDefinition := NumericNodeID 0 NodeIDPropertyType,
     nDataType := NumericNodeID 0 (ibDataType binding), DataTypeKnown := True, ValueRank := ValueRankScalar,
     nItemID := itemID, AccessLevel := AccessLevelCurrentRead, AccessRightsKnown := True\<rparr>"

text \<open>
  One round of either loop: a property node that does not exist yet is created, the item gets a
  forward reference, and the property an inverse one when it has no reference at all. The item
  is held by pointer and is no property, so the rounds thread it beside the table.
\<close>

definition attachProperty :: "Node \<Rightarrow> Node \<times> (gostring \<times> Node) list \<Rightarrow> Node \<times> (gostring \<times> Node) list" where
  "attachProperty fresh = (\<lambda>(item, table). let
     hasProperty = NumericNodeID 0 NodeIDHasProperty;
     key = nodeKey (nID fresh);
     property = (case map_of table key of Some node \<Rightarrow> node | None \<Rightarrow> fresh);
     item = addForward hasProperty property item;
     property = (if nReferences property = [] then addInverse hasProperty item property else property)
     in (item, AList.update key property table))"

definition propertyNodes :: "DAItemID \<Rightarrow> itemPropertyBinding list \<Rightarrow> AvailableProperty list \<Rightarrow> Node list" where
  "propertyNodes itemID bindings others = map (bindingNode itemID) bindings @
     map (\<lambda>p. otherPropertyNode itemID p (duplicateDescriptions others (apDescription p))) others"

definition AttachItemProperties ::
  "DAItemID \<Rightarrow> AvailableProperty list \<Rightarrow> EUType \<Rightarrow> int \<Rightarrow> AddressSpace \<Rightarrow> go_error option \<times> AddressSpace" where
  "AttachItemProperties itemID available euType maxNodes s =
     (case space_Node (ItemNodeID itemID) s of
        None \<Rightarrow> (Some PlainError, s)
      | Some item \<Rightarrow>
          if nClass item \<noteq> NodeClassVariable \<or> nItemID item \<noteq> itemID then (Some PlainError, s)
          else let
            variableType = variableTypeFor available euType item;
            bindings = ivProperties variableType;
            others = otherPropertiesFor available bindings;
            needed = length (filter (\<lambda>b. Option.is_none (space_Node (ItemPropertyNodeID itemID (ibBrowseName b)) s)) bindings) +
              length (filter (\<lambda>p. Option.is_none (space_Node (OtherPropertyNodeID itemID (apID p)) s)) others)
          in if int (length (nodes s)) - standardNodeCount s + int needed > max maxNodes 0 then (Some PlainError, s)
             else let
               item = item\<lparr>nReferences := keepNonPropertyReferences (nReferences item),
                 DescriptionOffered := itemDescriptionOffered available,
                 nTypeDefinition := NumericNodeID 0 (ivTypeID variableType)\<rparr>;
               (item, table) = fold attachProperty (propertyNodes itemID bindings others) (item, nodes s)
             in (None, put_node item (s\<lparr>nodes := table\<rparr>)))"

section \<open>What an identifier stands for\<close>

definition IsItemPropertyNode :: "Node \<Rightarrow> bool" where
  "IsItemPropertyNode n \<longleftrightarrow> \<not> Option.is_none (OtherPropertyForNode (nID n)) \<or> \<not> Option.is_none (ItemPropertyForNode (nID n))"

datatype NodeKind = NodeKindUnknown | NodeKindItem | NodeKindItemProperty | NodeKindOther

definition ClassifyNode :: "NodeID \<Rightarrow> AddressSpace \<Rightarrow> Node option \<times> NodeKind" where
  "ClassifyNode i s = (case space_Node i s of
       Some node \<Rightarrow>
         if IsItemPropertyNode node then (Some node, NodeKindItemProperty)
         else if nClass node = NodeClassVariable \<and> nItemID node \<noteq> [] then (Some node, NodeKindItem)
         else (Some node, NodeKindOther)
     | None \<Rightarrow>
         if \<not> Option.is_none (OtherPropertyForNode i) then (None, NodeKindItemProperty)
         else if \<not> Option.is_none (ItemPropertyForNode i) then (None, NodeKindItemProperty)
         else (None, NodeKindUnknown))"

definition ResolveNode :: "NodeID \<Rightarrow> int \<Rightarrow> AddressSpace \<Rightarrow> (Node option \<times> NodeKind) \<times> AddressSpace" where
  "ResolveNode i maxNodes s = (let (node, kind) = ClassifyNode i s
     in if kind \<noteq> NodeKindUnknown then ((node, kind), s)
        else case ResolveVariable i maxNodes s of
            (Some node, s) \<Rightarrow> ((Some node, NodeKindItem), s)
          | (None, s) \<Rightarrow> ((None, NodeKindUnknown), s))"

section \<open>Semantic changes and the scan rate\<close>

definition isSemanticProperty :: "gostring \<Rightarrow> bool" where
  "isSemanticProperty browseName \<longleftrightarrow> browseName \<in>
     {lit ''EURange'', lit ''EngineeringUnits'', lit ''TrueState'', lit ''FalseState''}"

text \<open>
  \<open>format\<close> is \<^verbatim>\<open>fmt.Sprintf("%v:%v", ...)\<close>, which no value a binding builds reaches.
\<close>

definition semanticFingerprint :: "(Variant \<Rightarrow> gostring) \<Rightarrow> Variant \<Rightarrow> gostring" where
  "semanticFingerprint format value = (case vValue value of
       GExtensionObject x \<Rightarrow> NodeID_String (TypeID x) @ lit '':'' @ Body x
     | GLocalizedText x \<Rightarrow> lit ''text:'' @ lLocale x @ lit '':'' @ lText x
     | GString x \<Rightarrow> lit ''s:'' @ x
     | _ \<Rightarrow> format value)"

definition NoteSemanticProperty ::
  "(Variant \<Rightarrow> gostring) \<Rightarrow> DAItemID \<Rightarrow> gostring \<Rightarrow> Variant \<Rightarrow> AddressSpace \<Rightarrow> bool \<times> AddressSpace" where
  "NoteSemanticProperty format itemID browseName value s =
     (if \<not> isSemanticProperty browseName then (False, s)
      else let fingerprint = semanticFingerprint format value
           in case space_Node (ItemNodeID itemID) s of
                None \<Rightarrow> (False, s)
              | Some item \<Rightarrow>
                  (let previous = map_of (semanticProperties item) browseName;
                       item = item\<lparr>semanticProperties :=
                         AList.update browseName fingerprint (semanticProperties item)\<rparr>
                   in if previous = None \<or> previous = Some fingerprint then (False, put_node item s)
                      else (True, put_node (item\<lparr>nSemanticGeneration := nSemanticGeneration item + 1\<rparr>) s)))"

definition SemanticGeneration :: "DAItemID \<Rightarrow> AddressSpace \<Rightarrow> uint64" where
  "SemanticGeneration itemID s = (case space_Node (ItemNodeID itemID) s of
       None \<Rightarrow> 0 | Some item \<Rightarrow> nSemanticGeneration item)"

definition NoteScanRate :: "DAItemID \<Rightarrow> float64 \<Rightarrow> AddressSpace \<Rightarrow> AddressSpace" where
  "NoteScanRate itemID milliseconds s =
     (if f64_less milliseconds 0 then s
      else case space_Node (ItemNodeID itemID) s of
          None \<Rightarrow> s
        | Some item \<Rightarrow> put_node (item\<lparr>MinimumSamplingInterval := milliseconds,
            MinimumSamplingIntervalKnown := True\<rparr>) s)"

end
