(* ===== verification/SpaceInvariant.thy ===== *)
theory SpaceInvariant
  imports ItemProperties Machines
begin

text \<open>
  The invariant of the address space under every interleaving of its operations, each of which
  runs under the lock: the nodes are stored under their own keys, every reference leads to a
  node, a branch path leads to a node, a variable is answered either by the server or by the DA
  source, and the source's share of the nodes is what the budget counts.
\<close>

section \<open>Invariant\<close>

definition ref_key :: "Reference \<Rightarrow> gostring" where
  "ref_key r = nodeKey (xNodeID (rfTargetID r))"

definition has_key :: "(gostring \<times> Node) list \<Rightarrow> gostring \<Rightarrow> bool" where
  "has_key table k \<longleftrightarrow> map_of table k \<noteq> None"

text \<open>A variable under the identifier of an item stands for that very item.\<close>

definition names_item :: "gostring \<Rightarrow> Node \<Rightarrow> bool" where
  "names_item k n \<longleftrightarrow> (\<forall>i. k = nodeKey (ItemNodeID i) \<longrightarrow> nClass n = NodeClassVariable \<longrightarrow> nItemID n = i)"

definition node_ok :: "(gostring \<Rightarrow> bool) \<Rightarrow> gostring \<Rightarrow> Node \<Rightarrow> bool" where
  "node_ok present k n \<longleftrightarrow> k = nodeKey (nID n) \<and> (LocalValue n = None \<or> nItemID n = []) \<and>
     list_all (\<lambda>r. present (ref_key r)) (nReferences n) \<and> names_item k n"

definition space_inv :: "AddressSpace \<Rightarrow> bool" where
  "space_inv s \<longleftrightarrow> table_wf (node_ok (has_key (nodes s))) (nodes s) \<and>
     0 \<le> standardNodeCount s \<and> standardNodeCount s \<le> int (length (nodes s)) \<and>
     has_key (nodes s) (nodeKey (sourceFolder s)) \<and>
     (\<forall>k i. branchIDs s k = Some i \<longrightarrow> has_key (nodes s) (nodeKey i))"

lemma has_key_update [simp]: "has_key (AList.update k n t) k' \<longleftrightarrow> k' = k \<or> has_key t k'"
  by (auto simp: has_key_def update_conv')

lemma node_ok_mono: "node_ok P k n \<Longrightarrow> (\<And>k. P k \<Longrightarrow> Q k) \<Longrightarrow> node_ok Q k n"
  by (auto simp: node_ok_def list_all_iff)

lemma lookup_ok: "space_inv s \<Longrightarrow> space_Node i s = Some n \<Longrightarrow> node_ok (has_key (nodes s)) (nodeKey i) n"
  unfolding space_inv_def space_Node_def by (blast intro: table_wf_lookup)

lemma lookup_has_key: "space_Node i s = Some n \<Longrightarrow> has_key (nodes s) (nodeKey i)"
  by (simp add: space_Node_def has_key_def)

lemma put_node_simps [simp]:
  "nodes (put_node n s) = AList.update (nodeKey (nID n)) n (nodes s)"
  "standardNodeCount (put_node n s) = standardNodeCount s" "branchIDs (put_node n s) = branchIDs s"
  "sourceFolder (put_node n s) = sourceFolder s" "asConfig (put_node n s) = asConfig s"
  "binaryLimits (put_node n s) = binaryLimits s" "startTime (put_node n s) = startTime s"
  by (simp_all add: put_node_def)

lemma length_update_le: "length t \<le> length (AList.update k n t)"
  by (simp add: length_update)

text \<open>Storing a node whose references lead into the table, itself included.\<close>

lemma table_put:
  assumes "table_wf (node_ok (has_key t)) t"
    and "node_ok (\<lambda>k. k = nodeKey (nID n) \<or> has_key t k) (nodeKey (nID n)) n"
  shows "table_wf (node_ok (has_key (AList.update (nodeKey (nID n)) n t))) (AList.update (nodeKey (nID n)) n t)"
  by (rule table_wf_change [OF assms(1)]) (use assms(2) in \<open>auto elim: node_ok_mono\<close>)

lemma put_inv:
  assumes "space_inv s" and "node_ok (\<lambda>k. k = nodeKey (nID n) \<or> has_key (nodes s) k) (nodeKey (nID n)) n"
  shows "space_inv (put_node n s)"
  using assms table_put [of "nodes s" n] length_update_le [of "nodes s" "nodeKey (nID n)" n]
  by (auto simp: space_inv_def)

text \<open>Changing fields of a node that the invariant does not speak about.\<close>

lemma put_fields:
  assumes "space_inv s" and "space_Node i s = Some n" and "nID n' = nID n" and "nReferences n' = nReferences n"
    and "LocalValue n' = LocalValue n" and "nItemID n' = nItemID n" and "nClass n' = nClass n"
  shows "space_inv (put_node n' s)"
  by (rule put_inv [OF assms(1)])
    (use lookup_ok [OF assms(1,2)] assms(3-7) in \<open>auto simp: node_ok_def list_all_iff names_item_def\<close>)

section \<open>The operations keep it\<close>

lemma with_rights_simps [simp]:
  "nID (with_rights r n) = nID n" "nReferences (with_rights r n) = nReferences n"
  "LocalValue (with_rights r n) = LocalValue n" "nItemID (with_rights r n) = nItemID n"
  "nClass (with_rights r n) = nClass n" "nTypeDefinition (with_rights r n) = nTypeDefinition n"
  by (simp_all add: with_rights_def split: prod.split)

lemma with_type_simps [simp]:
  "nID (with_type r n) = nID n" "nReferences (with_type r n) = nReferences n"
  "LocalValue (with_type r n) = LocalValue n" "nItemID (with_type r n) = nItemID n"
  "nClass (with_type r n) = nClass n" "nTypeDefinition (with_type r n) = nTypeDefinition n"
  by (simp_all add: with_type_def split: option.split)

lemma learn_simps [simp]:
  "nID (learn t r n) = nID n" "nReferences (learn t r n) = nReferences n"
  "LocalValue (learn t r n) = LocalValue n" "nItemID (learn t r n) = nItemID n" "nClass (learn t r n) = nClass n"
  by (simp_all add: learn_def Let_def)

lemma zero_simps [simp]: "nReferences zeroNode = []" "LocalValue zeroNode = None" "nItemID zeroNode = []"
  by (simp_all add: zeroNode_def)

lemma fresh_inv:
  "space_inv s \<Longrightarrow> nReferences n = [] \<Longrightarrow> LocalValue n = None \<Longrightarrow> names_item (nodeKey (nID n)) n \<Longrightarrow>
     space_inv (put_node n s)"
  by (rule put_inv) (simp_all add: node_ok_def)

lemma ItemNodeID_key [simp]: "nodeKey (ItemNodeID i) = nodeKey (ItemNodeID j) \<longleftrightarrow> i = j"
  by (simp add: ItemNodeID_def)

lemma ItemIDForNode_key: "ItemIDForNode i = Some itemID \<Longrightarrow> nodeKey i = nodeKey (ItemNodeID itemID)"
  by (auto simp: ItemIDForNode_def adapter_string_def ItemNodeID_def nodeKey_string_inj split: if_splits option.splits)
    (metis append_take_drop_id)

lemma resolve_inv:
  assumes "space_inv s" and "ItemIDForNode i = Some itemID"
  shows "space_inv (snd (resolveLocked i itemID m s))"
  using assms ItemIDForNode_key [OF assms(2)]
  by (auto simp: resolveLocked_def unbrowsedNode_def Let_def names_item_def intro!: fresh_inv split: option.split)

lemma learn_inv: "space_inv s \<Longrightarrow> space_inv (LearnFromRead i t r s)"
  by (auto simp: LearnFromRead_def intro: put_fields split: option.split)

lemma scan_inv: "space_inv s \<Longrightarrow> space_inv (NoteScanRate i r s)"
  by (auto simp: NoteScanRate_def intro: put_fields split: option.split)

lemma semantic_inv: "space_inv s \<Longrightarrow> space_inv (snd (NoteSemanticProperty f i b v s))"
  by (auto simp: NoteSemanticProperty_def Let_def intro: put_fields split: option.split)

text \<open>Adding references.\<close>

lemma link_simps [simp]:
  "LocalValue (addForward t m n) = LocalValue n" "LocalValue (addInverse t m n) = LocalValue n"
  "nItemID (addForward t m n) = nItemID n" "nItemID (addInverse t m n) = nItemID n"
  "nReferences (addForward t m n) = nReferences n @ [referenceTo t m True]"
  "nReferences (addInverse t m n) = nReferences n @ [referenceTo t m False]"
  "nClass (addForward t m n) = nClass n" "nClass (addInverse t m n) = nClass n"
  "ref_key (referenceTo t m fwd) = nodeKey (nID m)" "rfIsForward (referenceTo t m fwd) = fwd"
  by (simp_all add: addForward_def addInverse_def referenceTo_def ref_key_def zeroExpandedNodeID_def)

lemma nodeForEntry_fresh:
  "nodeForEntry path entry = Inr child \<Longrightarrow>
     nReferences child = [] \<and> LocalValue child = None \<and> names_item (nodeKey (nID child)) child"
  by (auto simp: nodeForEntry_def names_item_def NodeClassObject_def NodeClassVariable_def
      split: if_splits option.splits)

lemma put_branch: "put_node n (s\<lparr>branchIDs := b\<rparr>) = (put_node n s)\<lparr>branchIDs := b\<rparr>"
  by (simp add: put_node_def)

lemma branch_inv:
  "space_inv s \<Longrightarrow> has_key (nodes s) (nodeKey i) \<Longrightarrow> space_inv (s\<lparr>branchIDs := (branchIDs s)(k \<mapsto> i)\<rparr>)"
  by (auto simp: space_inv_def)

definition loop_inv :: "AddressSpace \<times> Node \<times> bool \<Rightarrow> bool" where
  "loop_inv = (\<lambda>(s, parent, attached). space_inv s \<and> has_key (nodes s) (nodeKey (nID parent)) \<and>
     node_ok (has_key (nodes s)) (nodeKey (nID parent)) parent)"

lemma populateEntry_inv:
  assumes "loop_inv (s, parent, attached)" and "nReferences child = []" "LocalValue child = None"
    and "names_item (nodeKey (nID child)) child"
  shows "loop_inv (populateEntry path entry child (s, parent, attached))"
proof -
  define t where "t = childReference entry"
  define parent' where "parent' = addForward t child parent"
  define child' where "child' = addInverse t parent' child"
  define s1 where "s1 = put_node child' s"
  define s2 where "s2 = (if attached \<and> nodeKey (nID child) \<noteq> nodeKey (nID parent) then put_node parent' s1 else s1)"
  have inv: "space_inv s" "has_key (nodes s) (nodeKey (nID parent))"
      "node_ok (has_key (nodes s)) (nodeKey (nID parent)) parent"
    using assms(1) by (simp_all add: loop_inv_def)
  have 1: "space_inv s1" unfolding s1_def
    by (rule put_inv [OF inv(1)]) (use assms(2-4) inv in \<open>simp add: node_ok_def child'_def parent'_def names_item_def\<close>)
  have k1: "has_key (nodes s1) (nodeKey (nID child))" by (simp add: s1_def child'_def)
  have p1: "node_ok (has_key (nodes s1)) (nodeKey (nID parent)) parent'"
    using inv(3) by (auto simp: node_ok_def parent'_def s1_def child'_def list_all_iff names_item_def)
  have 2: "space_inv s2"
  proof -
    have "space_inv (put_node parent' s1)"
      by (rule put_inv [OF 1]) (use p1 in \<open>auto simp: node_ok_def parent'_def list_all_iff names_item_def\<close>)
    then show ?thesis using 1 by (simp add: s2_def)
  qed
  have k2: "has_key (nodes s2) (nodeKey (nID child))" "has_key (nodes s2) (nodeKey (nID parent'))"
    using k1 inv(2) by (auto simp: s2_def s1_def parent'_def)
  have p2: "node_ok (has_key (nodes s2)) (nodeKey (nID parent')) parent'"
    using node_ok_mono [OF p1, of "has_key (nodes s2)"] by (auto simp: s2_def parent'_def)
  have eq: "populateEntry path entry child (s, parent, attached) =
      (if beKind entry = BrowseEntryBranch
       then s2\<lparr>branchIDs := (branchIDs s2)(branchPathKey (path @ [beName entry]) \<mapsto> nID child)\<rparr> else s2,
       parent', attached \<and> nodeKey (nID child) \<noteq> nodeKey (nID parent))"
    by (simp add: populateEntry_def Let_def t_def parent'_def child'_def s1_def s2_def put_branch)
  show ?thesis
    unfolding eq loop_inv_def using 2 k2 p2 by (simp add: branch_inv)
qed

lemma populateLoop_inv:
  "loop_inv st \<Longrightarrow> space_inv (snd (populateLoop path entries st))"
proof (induction entries arbitrary: st)
  case Nil
  then show ?case by (auto simp: loop_inv_def)
next
  case (Cons entry entries)
  obtain s parent attached where st: "st = (s, parent, attached)" by (cases st)
  show ?case
  proof (cases "nodeForEntry path entry")
    case (Inl er)
    then show ?thesis using Cons.prems by (simp add: st loop_inv_def)
  next
    case (Inr child)
    then show ?thesis
      using Cons.IH [OF populateEntry_inv] Cons.prems nodeForEntry_fresh [OF Inr] by (simp add: st)
  qed
qed

lemma populate_inv: "space_inv s \<Longrightarrow> space_inv (snd (PopulateBranch path entries s))"
proof -
  assume inv: "space_inv s"
  have "space_inv (snd (populateLoop path entries (put_node p s, p, True)))"
    if "space_Node i s = Some n" and "p = n\<lparr>nReferences := filter (\<lambda>r. \<not> rfIsForward r) (nReferences n)\<rparr>" for i n p
  proof (rule populateLoop_inv)
    have p: "node_ok (has_key (nodes s)) (nodeKey (nID p)) p" "nID p = nID n" "nodeKey (nID n) = nodeKey i"
      using lookup_ok [OF inv that(1)] by (auto simp: node_ok_def list_all_iff names_item_def that(2))
    have "space_inv (put_node p s)"
      by (rule put_inv [OF inv]) (use p in \<open>auto elim: node_ok_mono\<close>)
    then show "loop_inv (put_node p s, p, True)"
      using node_ok_mono [OF p(1)] by (simp add: loop_inv_def)
  qed
  then show ?thesis using inv
    by (simp add: PopulateBranch_def Let_def split: option.split)
qed

section \<open>Attaching properties\<close>

lemma item_key_no_property:
  "nodeKey (ItemPropertyNodeID i b) \<noteq> nodeKey (ItemNodeID j)"
  "nodeKey (OtherPropertyNodeID i p) \<noteq> nodeKey (ItemNodeID j)"
  by (simp_all add: ItemPropertyNodeID_def OtherPropertyNodeID_def ItemNodeID_def node_prefix_defs prefix_bytes)

lemma property_node_simps [simp]:
  "nID (bindingNode i b) = ItemPropertyNodeID i (ibBrowseName b)" "nReferences (bindingNode i b) = []"
  "LocalValue (bindingNode i b) = None" "nID (otherPropertyNode i p sh) = OtherPropertyNodeID i (apID p)"
  "nReferences (otherPropertyNode i p sh) = []" "LocalValue (otherPropertyNode i p sh) = None"
  by (simp_all add: bindingNode_def otherPropertyNode_def Let_def)

lemma propertyNodes_fresh:
  assumes "n \<in> set (propertyNodes i bindings others)"
  shows "nReferences n = []" "LocalValue n = None" "names_item (nodeKey (nID n)) n"
  using assms item_key_no_property by (auto simp: propertyNodes_def names_item_def)

definition attach_inv :: "gostring \<Rightarrow> Node \<times> (gostring \<times> Node) list \<Rightarrow> bool" where
  "attach_inv key = (\<lambda>(item, table). nodeKey (nID item) = key \<and> has_key table key \<and>
     table_wf (node_ok (has_key table)) table \<and> node_ok (has_key table) key item)"

lemma attachProperty_inv:
  assumes "attach_inv key (item, table)" and "nReferences fresh = []" "LocalValue fresh = None"
    and "names_item (nodeKey (nID fresh)) fresh"
  shows "attach_inv key (attachProperty fresh (item, table))"
proof -
  define t where "t = NumericNodeID 0 NodeIDHasProperty"
  define property where "property = (case map_of table (nodeKey (nID fresh)) of Some node \<Rightarrow> node | None \<Rightarrow> fresh)"
  define item' where "item' = addForward t property item"
  define property' where "property' = (if nReferences property = [] then addInverse t item' property else property)"
  have inv: "nodeKey (nID item) = key" "has_key table key" "table_wf (node_ok (has_key table)) table"
      "node_ok (has_key table) key item"
    using assms(1) by (simp_all add: attach_inv_def)
  have ok: "node_ok (has_key table) (nodeKey (nID fresh)) property"
  proof (cases "map_of table (nodeKey (nID fresh))")
    case None
    then show ?thesis using assms by (simp add: property_def node_ok_def)
  next
    case (Some n)
    then show ?thesis using table_wf_lookup [OF inv(3) Some] by (simp add: property_def)
  qed
  then have key: "nodeKey (nID property) = nodeKey (nID fresh)" "nID property' = nID property"
    by (simp_all add: node_ok_def property'_def)
  define table' where "table' = AList.update (nodeKey (nID property')) property' table"
  have "table_wf (node_ok (has_key table')) table'" unfolding table'_def
    by (rule table_put [OF inv(3)])
      (use ok key inv(1,2) in \<open>auto simp: node_ok_def property'_def item'_def list_all_iff names_item_def\<close>)
  moreover have "node_ok (has_key table') key item'"
    using inv(1,4) key by (auto simp: node_ok_def item'_def table'_def list_all_iff names_item_def)
  moreover have "attachProperty fresh (item, table) = (item', table')"
    using key by (simp add: attachProperty_def Let_def t_def property_def item'_def property'_def table'_def)
  ultimately show ?thesis
    using inv(1,2) by (simp add: attach_inv_def table'_def) (simp add: item'_def)
qed

lemma attach_fold_inv:
  "attach_inv key st \<Longrightarrow> (\<And>n. n \<in> set ns \<Longrightarrow> nReferences n = [] \<and> LocalValue n = None \<and> names_item (nodeKey (nID n)) n) \<Longrightarrow>
     attach_inv key (fold attachProperty ns st)"
proof (induction ns arbitrary: st)
  case (Cons n ns)
  then show ?case using attachProperty_inv by (cases st) simp
qed simp

lemma attach_table: "\<exists>p. snd (attachProperty n st) = AList.update (nodeKey (nID n)) p (snd st)"
  by (cases st) (auto simp: attachProperty_def Let_def)

lemma attach_fold_grows:
  "(has_key (snd st) k \<longrightarrow> has_key (snd (fold attachProperty ns st)) k) \<and>
     length (snd st) \<le> length (snd (fold attachProperty ns st))"
proof (induction ns arbitrary: st)
  case (Cons n ns)
  obtain p where "snd (attachProperty n st) = AList.update (nodeKey (nID n)) p (snd st)"
    using attach_table by blast
  then show ?case using Cons.IH [of "attachProperty n st"] by (auto simp: length_update split: if_splits)
qed simp

lemma attach_length:
  "int (length (snd (fold attachProperty ns (item, table)))) \<le>
     int (length table) + int (length (filter (\<lambda>n. \<not> has_key table (nodeKey (nID n))) ns))"
proof (induction ns arbitrary: item table)
  case (Cons n ns)
  obtain item' p where step: "attachProperty n (item, table) = (item', AList.update (nodeKey (nID n)) p table)"
    by (simp add: attachProperty_def Let_def)
  have "length (filter (\<lambda>m. \<not> has_key (AList.update (nodeKey (nID n)) p table) (nodeKey (nID m))) ns) \<le>
      length (filter (\<lambda>m. \<not> has_key table (nodeKey (nID m))) ns)"
    by (induction ns) auto
  then show ?case
    using Cons.IH [of item' "AList.update (nodeKey (nID n)) p table"]
    by (auto simp: step length_update has_key_def)
qed simp

lemma needed_eq:
  "length (filter (\<lambda>b. Option.is_none (space_Node (ItemPropertyNodeID i (ibBrowseName b)) s)) bindings) +
   length (filter (\<lambda>p. Option.is_none (space_Node (OtherPropertyNodeID i (apID p)) s)) others) =
   length (filter (\<lambda>n. \<not> has_key (nodes s) (nodeKey (nID n))) (propertyNodes i bindings others))"
  by (simp add: propertyNodes_def filter_map comp_def space_Node_def has_key_def)

text \<open>A successful attachment, taken apart.\<close>

lemma attach_cases:
  assumes "AttachItemProperties i available eu m s = (er, s')"
  obtains "er = Some PlainError" "s' = s"
  | item bindings others item0 item' table where "er = None" "space_Node (ItemNodeID i) s = Some item"
      "nClass item = NodeClassVariable" "nItemID item = i"
      "nID item0 = nID item" "LocalValue item0 = LocalValue item" "nItemID item0 = nItemID item" "nClass item0 = nClass item"
      "nReferences item0 = keepNonPropertyReferences (nReferences item)"
      "bindings = ivProperties (variableTypeFor available eu item)"
      "others = otherPropertiesFor available bindings"
      "SourceNodeCount s + int (length (filter (\<lambda>n. \<not> has_key (nodes s) (nodeKey (nID n)))
         (propertyNodes i bindings others))) \<le> max m 0"
      "fold attachProperty (propertyNodes i bindings others) (item0, nodes s) = (item', table)"
      "s' = put_node item' (s\<lparr>nodes := table\<rparr>)"
proof (cases "space_Node (ItemNodeID i) s")
  case None
  then show ?thesis using assms that(1) by (simp add: AttachItemProperties_def)
next
  case (Some item)
  define bindings where "bindings = ivProperties (variableTypeFor available eu item)"
  define others where "others = otherPropertiesFor available bindings"
  define item0 where "item0 = item\<lparr>nReferences := keepNonPropertyReferences (nReferences item),
    DescriptionOffered := itemDescriptionOffered available,
    nTypeDefinition := NumericNodeID 0 (ivTypeID (variableTypeFor available eu item))\<rparr>"
  obtain item' table where f: "fold attachProperty (propertyNodes i bindings others) (item0, nodes s) = (item', table)"
    by (cases "fold attachProperty (propertyNodes i bindings others) (item0, nodes s)")
  have eq: "(er, s') = (if nClass item \<noteq> NodeClassVariable \<or> nItemID item \<noteq> i then (Some PlainError, s)
      else if SourceNodeCount s + int (length (filter (\<lambda>n. \<not> has_key (nodes s) (nodeKey (nID n)))
         (propertyNodes i bindings others))) > max m 0 then (Some PlainError, s)
      else (None, put_node item' (s\<lparr>nodes := table\<rparr>)))"
    using f unfolding assms [symmetric] AttachItemProperties_def Some Let_def
    by (simp add: bindings_def [symmetric] others_def [symmetric] item0_def [symmetric] needed_eq [symmetric]
        SourceNodeCount_def)
  show ?thesis
    using eq that(1) that(2) [OF _ Some _ _ _ _ _ _ _ bindings_def others_def _ f]
    by (auto simp: item0_def split: if_splits)
qed

lemma attach_space_inv:
  assumes "space_inv s" and "AttachItemProperties i available eu m s = (er, s')"
  shows "space_inv s'"
  using assms(2)
proof (cases rule: attach_cases)
  case 1
  then show ?thesis using assms by simp
next
  case (2 item bindings others item0 item' table)
  have n: "node_ok (has_key (nodes s)) (nodeKey (ItemNodeID i)) item" "has_key (nodes s) (nodeKey (ItemNodeID i))"
    using lookup_ok [OF assms(1) 2(2)] lookup_has_key [OF 2(2)] by simp_all
  have ok: "node_ok (has_key (nodes s)) (nodeKey (ItemNodeID i)) item0" "nodeKey (nID item0) = nodeKey (ItemNodeID i)"
    using n(1) 2(5-9) by (auto simp: node_ok_def list_all_iff keepNonPropertyReferences_def names_item_def)
  have wf: "table_wf (node_ok (has_key (nodes s))) (nodes s)" using assms(1) by (simp add: space_inv_def)
  have "attach_inv (nodeKey (ItemNodeID i)) (item0, nodes s)" using ok n(2) wf by (simp add: attach_inv_def)
  then have a: "attach_inv (nodeKey (ItemNodeID i)) (item', table)"
    unfolding 2(13) [symmetric] by (rule attach_fold_inv) (use propertyNodes_fresh in blast)
  have keys: "has_key (nodes s) k \<Longrightarrow> has_key table k" for k
    using attach_fold_grows [of "(item0, nodes s)" k "propertyNodes i bindings others"] by (simp add: 2(13))
  have len: "length (nodes s) \<le> length table"
    using attach_fold_grows [of "(item0, nodes s)" _ "propertyNodes i bindings others"] by (simp add: 2(13))
  have a': "nodeKey (nID item') = nodeKey (ItemNodeID i)" "node_ok (has_key table) (nodeKey (nID item')) item'"
      "table_wf (node_ok (has_key table)) table"
    using a by (simp_all add: attach_inv_def)
  have "space_inv (s\<lparr>nodes := table\<rparr>)"
    unfolding space_inv_def using a'(3) assms(1) [unfolded space_inv_def] keys len by auto
  then show ?thesis
    unfolding 2(14) by (rule put_inv) (use node_ok_mono [OF a'(2)] in auto)
qed

section \<open>The initial space\<close>

lemma storeNodes_distinct:
  assumes "distinct (map fst t @ map (\<lambda>n. nodeKey (nID n)) ns)"
  shows "storeNodes ns t = t @ map (\<lambda>n. (nodeKey (nID n), n)) ns"
  using assms
proof (induction ns arbitrary: t)
  case Nil
  then show ?case by (simp add: storeNodes_def)
next
  case (Cons n ns)
  then have "map_of t (nodeKey (nID n)) = None" by (auto simp: map_of_eq_None_iff)
  then have "AList.update (nodeKey (nID n)) n t = t @ [(nodeKey (nID n), n)]" by (rule alist_update_new)
  moreover have "storeNodes (n # ns) t = storeNodes ns (AList.update (nodeKey (nID n)) n t)"
    by (simp add: storeNodes_def)
  ultimately show ?case using Cons.IH [of "t @ [(nodeKey (nID n), n)]"] Cons.prems by simp
qed

lemma standardNumbers_distinct: "distinct standardNumbers" by code_simp

lemma standard_keys_distinct:
  assumes "sourceFolder s = StringNodeID AdapterNamespaceIndex name"
  shows "distinct (map (\<lambda>n. nodeKey (nID n)) (standardNodes s))"
proof -
  have "inj (\<lambda>k. nodeKey (NumericNodeID 0 k))" by (rule injI) simp
  then have "distinct (map (\<lambda>k. nodeKey (NumericNodeID 0 k)) standardNumbers)"
    using standardNumbers_distinct by (auto simp: distinct_map intro: inj_on_subset)
  then have d: "distinct (map (\<lambda>k. nodeKey (NumericNodeID 0 k)) (take 4 standardNumbers) @
      map (\<lambda>k. nodeKey (NumericNodeID 0 k)) (drop 4 standardNumbers))"
    by (simp only: map_append [symmetric] append_take_drop_id)
  have "map (\<lambda>n. nodeKey (nID n)) (standardNodes s) =
      map (\<lambda>k. nodeKey (NumericNodeID 0 k)) (take 4 standardNumbers) @ nodeKey (sourceFolder s) #
      map (\<lambda>k. nodeKey (NumericNodeID 0 k)) (drop 4 standardNumbers)"
    using arg_cong [OF standard_ids [of s], of "map nodeKey"] by (simp add: comp_def)
  with d assms show ?thesis by (auto simp: image_iff)
qed

lemma builder_items [simp]:
  "nItemID (folderNode i name) = []" "nItemID (objectNode k name t) = []" "nItemID (localVariable k name t d v) = []"
  "nItemID (standardProperty k name vs) = []" "nItemID (capability k name d w) = []"
  "nItemID (sourceFolderNode s) = []" "nItemID (linkChildren rt ms n) = nItemID n"
proof -
  show "nItemID (linkChildren rt ms n) = nItemID n"
    by (induction ms arbitrary: n) (simp_all add: linkChildren_def)
qed (simp_all add: folderNode_def objectNode_def localVariable_def standardProperty_def capability_def
    sourceFolderNode_def)

lemma standard_no_item: "list_all (\<lambda>n. nItemID n = []) (standardNodes s)"
  by (simp add: standardNodes_def addServerStatusNodes_def addServerCapabilitiesNodes_def
      addServerRedundancyNodes_def Let_def buildChildren_def)

lemma standard_class: "list_all (\<lambda>n. numeric_id (nID n) \<or> nClass n = NodeClassObject) (standardNodes s)"
proof -
  have "nClass (sourceFolderNode s) = NodeClassObject" by (simp add: sourceFolderNode_def)
  then show ?thesis
    by (simp add: standardNodes_def addServerStatusNodes_def addServerCapabilitiesNodes_def
      addServerRedundancyNodes_def Let_def buildChildren_def)
qed

lemma standard_names_item:
  assumes "n \<in> set (standardNodes s)"
  shows "names_item (nodeKey (nID n)) n"
  unfolding names_item_def
proof (intro allI impI)
  fix i
  assume "nodeKey (nID n) = nodeKey (ItemNodeID i)" "nClass n = NodeClassVariable"
  moreover have "numeric_id (nID n) \<or> nClass n = NodeClassObject"
    using standard_class [of s] assms by (simp add: list_all_iff)
  ultimately show "nItemID n = i"
    using nodeKey_disjoint [of "ItemNodeID i" "nID n"]
    by (auto simp: ItemNodeID_def NodeClassObject_def NodeClassVariable_def)
qed

lemma mutual_target:
  assumes "mutual shapes" and "(i, refs) \<in> set shapes" and "(t, fwd, target) \<in> set refs"
  shows "\<exists>refs'. (target, refs') \<in> set shapes"
  using assms unfolding mutual_def list_all_iff list_ex_iff by fastforce

lemma standard_refs:
  assumes "n \<in> set (standardNodes s)" and "r \<in> set (nReferences n)"
  shows "\<exists>m \<in> set (standardNodes s). nID m = xNodeID (rfTargetID r)"
proof -
  have "(nID n, snd (shape_of n)) \<in> set (map shape_of (standardNodes s))"
    using assms(1) by (auto simp: shape_of_def image_iff)
  moreover have "(rfReferenceTypeID r, rfIsForward r, xNodeID (rfTargetID r)) \<in> set (snd (shape_of n))"
    using assms(2) by (simp add: shape_of_def)
  ultimately obtain refs' where "(xNodeID (rfTargetID r), refs') \<in> set (map shape_of (standardNodes s))"
    using mutual_target [OF standard_mutual] by blast
  then show ?thesis by (auto simp: shape_of_def)
qed

lemma new_space_inv:
  assumes "NewAddressSpace config now = Inr s"
  shows "space_inv s" "SourceNodeCount s = 0" "length (nodes s) = 38"
proof -
  define s0 where "s0 = \<lparr>asConfig = config, nodes = [], branchIDs = Map.empty,
    sourceFolder = StringNodeID AdapterNamespaceIndex (SourceFolderName config),
    binaryLimits = DefaultBinaryLimits, standardNodeCount = 0, startTime = now\<rparr>"
  define table where "table = map (\<lambda>n. (nodeKey (nID n), n)) (standardNodes s0)"
  have d: "distinct (map (\<lambda>n. nodeKey (nID n)) (standardNodes s0))"
    by (rule standard_keys_distinct) (simp add: s0_def)
  then have t: "storeNodes (standardNodes s0) [] = table"
    using storeNodes_distinct [of "[]"] by (simp add: table_def)
  have s: "s = s0\<lparr>nodes := table, standardNodeCount := int (length table)\<rparr>"
    using assms t by (auto simp: NewAddressSpace_def addStandardNodes_def s0_def Let_def split: option.splits)
  have len: "length table = 38"
    using arg_cong [OF standard_ids [of s0], of length] by (simp add: table_def standardNumbers_def)
  have key: "has_key table (nodeKey i)" if "m \<in> set (standardNodes s0)" "nID m = i" for m i
    using that by (auto simp: has_key_def table_def map_of_eq_None_iff image_iff)
  have src: "\<exists>m \<in> set (standardNodes s0). nID m = sourceFolder s0"
  proof -
    have "sourceFolder s0 \<in> set (map nID (standardNodes s0))" unfolding standard_ids by simp
    then show ?thesis by auto
  qed
  have "node_ok (has_key table) k n" if "(k, n) \<in> set table" for k n
  proof -
    have n: "n \<in> set (standardNodes s0)" "k = nodeKey (nID n)" using that by (auto simp: table_def)
    moreover have "nItemID n = []" using n(1) standard_no_item [of s0] by (simp add: list_all_iff)
    moreover have "has_key table (ref_key r)" if "r \<in> set (nReferences n)" for r
      using standard_refs [OF n(1) that] key unfolding ref_key_def by blast
    ultimately show ?thesis using standard_names_item [OF n(1)] by (simp add: node_ok_def list_all_iff)
  qed
  then have "table_wf (node_ok (has_key table)) table"
    using d by (auto simp: table_wf_def list_all_iff table_def comp_def)
  then show "space_inv s" using src key by (auto simp: space_inv_def s s0_def)
  show "SourceNodeCount s = 0" "length (nodes s) = 38" using len by (simp_all add: SourceNodeCount_def s)
qed

section \<open>Every interleaving\<close>

text \<open>The operations that change the space; each runs under the lock from beginning to end.\<close>

inductive space_step :: "(Variant \<Rightarrow> gostring) \<Rightarrow> AddressSpace \<Rightarrow> AddressSpace \<Rightarrow> bool" for format where
  resolve: "ItemIDForNode i = Some itemID \<Longrightarrow> space_step format s (snd (resolveLocked i itemID m s))"
| populate: "space_step format s (snd (PopulateBranch path entries s))"
| learn: "space_step format s (LearnFromRead i t r s)"
| attach: "space_step format s (snd (AttachItemProperties i available eu m s))"
| semantic: "space_step format s (snd (NoteSemanticProperty format i b v s))"
| rate: "space_step format s (NoteScanRate i rate s)"

definition space_start :: "AddressSpace \<Rightarrow> bool" where
  "space_start s \<longleftrightarrow> (\<exists>config now. NewAddressSpace config now = Inr s)"

interpretation space_machine: state_machine space_start "space_step format" space_inv for format
proof unfold_locales
  show "space_start s \<Longrightarrow> space_inv s" for s
    by (auto simp: space_start_def intro: new_space_inv)
  show "space_inv s \<Longrightarrow> space_step format s t \<Longrightarrow> space_inv t" for s t
    by (erule space_step.cases)
      (auto intro: resolve_inv populate_inv learn_inv scan_inv semantic_inv attach_space_inv prod.collapse [symmetric])
qed

section \<open>The budget\<close>

lemma SourceNodeCount_put:
  "SourceNodeCount (put_node n s) = (if has_key (nodes s) (nodeKey (nID n)) then SourceNodeCount s else SourceNodeCount s + 1)"
  by (auto simp: SourceNodeCount_def length_update has_key_def)

lemma populateEntry_count:
  assumes "has_key (nodes s) (nodeKey (nID parent))"
  shows "case populateEntry path entry child (s, parent, attached) of (s', parent', attached') \<Rightarrow>
    SourceNodeCount s' \<le> SourceNodeCount s + 1 \<and> has_key (nodes s') (nodeKey (nID parent')) \<and> nID parent' = nID parent"
  using assms by (auto simp: populateEntry_def Let_def SourceNodeCount_def length_update has_key_def update_conv' split: if_splits)

lemma populateLoop_count:
  "has_key (nodes s) (nodeKey (nID parent)) \<Longrightarrow>
     SourceNodeCount (snd (populateLoop path entries (s, parent, attached))) \<le> SourceNodeCount s + int (length entries)"
proof (induction entries arbitrary: s parent attached)
  case (Cons entry entries)
  show ?case
  proof (cases "nodeForEntry path entry")
    case (Inr child)
    obtain s' parent' attached' where p: "populateEntry path entry child (s, parent, attached) = (s', parent', attached')"
      by (cases "populateEntry path entry child (s, parent, attached)")
    have "SourceNodeCount s' \<le> SourceNodeCount s + 1" "has_key (nodes s') (nodeKey (nID parent'))"
      using populateEntry_count [OF Cons.prems, of path entry child attached] by (auto simp: p)
    then show ?thesis using Cons.IH [of s' parent' attached'] by (simp add: Inr p)
  qed simp
qed simp

lemma populate_count:
  assumes "space_inv s"
  shows "SourceNodeCount (snd (PopulateBranch path entries s)) \<le> SourceNodeCount s + int (length entries)"
proof -
  have "SourceNodeCount (snd (populateLoop path entries (put_node p s, p, True))) \<le> SourceNodeCount s + int (length entries)"
    if "space_Node i s = Some n" and "nID p = nID n" for i n p
  proof -
    have "nodeKey (nID p) = nodeKey i" using lookup_ok [OF assms that(1)] that(2) by (simp add: node_ok_def)
    then have "has_key (nodes s) (nodeKey (nID p))" using lookup_has_key [OF that(1)] by simp
    then show ?thesis using populateLoop_count [of "put_node p s" p path entries True] by (simp add: SourceNodeCount_put)
  qed
  then show ?thesis by (simp add: PopulateBranch_def Let_def split: option.split)
qed

lemma attach_count:
  assumes "AttachItemProperties i available eu m s = (er, s')" and "space_inv s"
  shows "SourceNodeCount s' \<le> max (max m 0) (SourceNodeCount s)" "er \<noteq> None \<Longrightarrow> s' = s"
proof -
  have "SourceNodeCount s' \<le> max (max m 0) (SourceNodeCount s) \<and> (er \<noteq> None \<longrightarrow> s' = s)"
    using assms(1)
  proof (cases rule: attach_cases)
    case (2 item bindings others item0 item' table)
    have "nID item0 = nID item" by (rule 2)
    then have n: "nodeKey (nID item0) = nodeKey (ItemNodeID i)" "has_key (nodes s) (nodeKey (ItemNodeID i))"
      using lookup_ok [OF assms(2) 2(2)] lookup_has_key [OF 2(2)] by (simp_all add: node_ok_def)
    have "nID (fst (fold attachProperty ns st)) = nID (fst st)" for ns st
      by (induction ns arbitrary: st) (auto simp: attachProperty_def Let_def split: prod.split)
    then have id: "nID item' = nID item0" using 2(13) by (metis fst_conv)
    have "has_key table (nodeKey (nID item'))"
      using attach_fold_grows [of "(item0, nodes s)" "nodeKey (nID item')" "propertyNodes i bindings others"] n
      by (simp add: 2(13) id)
    moreover have "int (length table) - standardNodeCount s \<le> max m 0"
      using attach_length [of "propertyNodes i bindings others" item0 "nodes s"] 2(12)
      by (simp add: 2(13) SourceNodeCount_def)
    ultimately show ?thesis using 2(1,14) by (simp add: SourceNodeCount_put has_key_def) (simp add: SourceNodeCount_def)
  qed simp
  then show "SourceNodeCount s' \<le> max (max m 0) (SourceNodeCount s)" "er \<noteq> None \<Longrightarrow> s' = s" by auto
qed

section \<open>Properties\<close>

definition config_sample :: AddressSpaceConfig where
  "config_sample = \<lparr>NamespaceURI = [117], SourceFolderName = [83], acApplicationURI = [97],
     acLimits = \<lparr>MinPublishingInterval = 10 ^ 8, MaxBrowseContinuationPoints = 8, MaxNodesPerRead = 100,
       MaxNodesPerWrite = 100, MaxNodesPerBrowse = 100\<rparr>,
     acProductURI = [], ManufacturerName = [], ProductName = [], SoftwareVersion = [], BuildNumber = [], BuildDate = 0\<rparr>"

definition space_sample :: AddressSpace where
  "space_sample = (case NewAddressSpace config_sample 0 of Inr s \<Rightarrow> s | Inl _ \<Rightarrow> undefined)"

lemma space_sample_new: "NewAddressSpace config_sample 0 = Inr space_sample"
  by (simp add: space_sample_def NewAddressSpace_def AddressSpaceConfig_validate_def config_sample_def)

lemma space_sample_reachable: "reachable space_start (space_step format) space_sample"
  by (rule reachable.initial) (use space_sample_new in \<open>auto simp: space_start_def\<close>)

text \<open>Claim C15: whatever the connections do, in any interleaving of the operations, a lookup finds
  the node of that identifier, every reference of it leads to a node of the space, it is
  answered either by the server or by the DA source and not by both, a variable under the
  identifier of an item stands for exactly that item, a known branch path leads to a node, and
  the server's own 38 nodes stay outside the count the budget is compared with.\<close>

theorem address_space_safe:
  assumes "reachable space_start (space_step format) s"
  shows "(\<forall>i n. space_Node i s = Some n \<longrightarrow>
      nodeKey (nID n) = nodeKey i \<and> (\<forall>r \<in> set (nReferences n). space_Node (xNodeID (rfTargetID r)) s \<noteq> None) \<and>
      (LocalValue n = None \<or> nItemID n = [])) \<and>
    (\<forall>itemID n. space_Node (ItemNodeID itemID) s = Some n \<longrightarrow> nClass n = NodeClassVariable \<longrightarrow> nItemID n = itemID) \<and>
    (\<forall>path i. branchParent path s = Some i \<longrightarrow> space_Node i s \<noteq> None) \<and>
    0 \<le> SourceNodeCount s \<and> standardNodeCount s = 38"
proof -
  have inv: "space_inv s" using assms by (rule space_machine.reachable_inv)
  have "nodeKey (nID n) = nodeKey i \<and> (\<forall>r \<in> set (nReferences n). space_Node (xNodeID (rfTargetID r)) s \<noteq> None) \<and>
      (LocalValue n = None \<or> nItemID n = []) \<and> names_item (nodeKey i) n" if "space_Node i s = Some n" for i n
    using lookup_ok [OF inv that] by (auto simp: node_ok_def list_all_iff ref_key_def has_key_def space_Node_def)
  moreover have "space_Node i s \<noteq> None" if "branchParent path s = Some i" for path i
    using inv that by (auto simp: space_inv_def branchParent_def has_key_def space_Node_def split: if_splits)
  moreover have "0 \<le> SourceNodeCount s" using inv by (simp add: space_inv_def SourceNodeCount_def)
  moreover have "standardNodeCount s = 38"
    using assms
  proof (induction rule: reachable.induct)
    case (initial s)
    then show ?case using new_space_inv by (auto simp: space_start_def SourceNodeCount_def)
  next
    case (later s t)
    have loop: "standardNodeCount (snd (populateLoop path entries st)) = standardNodeCount (fst st)" for path entries st
      by (induction entries arbitrary: st)
        (auto simp: populateEntry_def Let_def split: sum.split prod.split)
    from later(2) have "standardNodeCount t = standardNodeCount s"
      by (cases rule: space_step.cases)
        (auto simp: resolveLocked_def PopulateBranch_def LearnFromRead_def AttachItemProperties_def
          NoteSemanticProperty_def NoteScanRate_def Let_def loop split: option.split prod.split)
    then show ?case using later by simp
  qed
  ultimately show ?thesis by (auto simp: names_item_def)
qed

theorem address_space_safe_witness:
  "standardNodeCount space_sample = 38 \<and> space_Node (sourceFolder space_sample) space_sample \<noteq> None"
proof -
  have "branchParent [] space_sample = Some (sourceFolder space_sample)" by (simp add: branchParent_def)
  then show ?thesis using address_space_safe [OF space_sample_reachable] by blast
qed

text \<open>Claim C16: a client cannot grow the address space past its node budget. Resolving an identifier
  and attaching the properties of an item never take the source's nodes above the budget they
  are given (a negative one counts as zero), an attachment that does not fit changes nothing,
  and a browse result adds at most one node per entry.\<close>

theorem node_budget_kept:
  assumes "reachable space_start (space_step format) s" and "SourceNodeCount s \<le> max m 0"
  shows "SourceNodeCount (snd (ResolveVariable i m s)) \<le> max m 0 \<and>
    SourceNodeCount (snd (AttachItemProperties itemID available eu m s)) \<le> max m 0 \<and>
    (fst (AttachItemProperties itemID available eu m s) \<noteq> None \<longrightarrow>
       snd (AttachItemProperties itemID available eu m s) = s) \<and>
    SourceNodeCount (snd (PopulateBranch path entries s)) \<le> SourceNodeCount s + int (length entries)"
proof -
  have inv: "space_inv s" using assms(1) by (rule space_machine.reachable_inv)
  obtain er s' where a: "AttachItemProperties itemID available eu m s = (er, s')"
    by (cases "AttachItemProperties itemID available eu m s")
  have "SourceNodeCount (snd (ResolveVariable i m s)) \<le> max m 0"
    using assms(2)
    by (auto simp: ResolveVariable_def resolveLocked_def Let_def SourceNodeCount_put split: option.split)
      (auto simp: SourceNodeCount_def)
  then show ?thesis
    using attach_count [OF a inv] populate_count [OF inv] assms(2) by (simp add: a)
qed

theorem node_budget_kept_witness:
  "SourceNodeCount (snd (ResolveVariable (ItemNodeID [120]) 0 space_sample)) \<le> 0"
proof -
  have "SourceNodeCount space_sample \<le> max 0 0" using new_space_inv(2) [OF space_sample_new] by simp
  then show ?thesis
    using node_budget_kept [OF space_sample_reachable, of 0 "ItemNodeID [120]"] by simp
qed

end
