(* ===== verification/DataAccess.thy ===== *)
theory DataAccess
  imports SpaceInvariant
begin

text \<open>
  The Read and Write services, from \<^verbatim>\<open>src/internal/opcua/readwrite.go\<close>. The DA runtime is an
  interface of \<^verbatim>\<open>src/internal/opcda/runtime.go\<close> whose only implementation talks to COM; here it
  is a record of functions over a state \<open>'w\<close> of the source, an argument of the services, so
  that two calls may answer differently. The clock and the request timeout reach the runtime
  only and belong to its answers.
\<close>

section \<open>The runtime and the limits\<close>

record 'w Runtime =
  rtBrowse :: "gostring list \<Rightarrow> 'w \<Rightarrow> (da_error + BrowseEntry list) \<times> 'w"
  ReadBatch :: "DAItemID list \<Rightarrow> 'w \<Rightarrow> (da_error + ReadResult list) \<times> 'w"
  WriteBatch :: "WriteItem list \<Rightarrow> 'w \<Rightarrow> (da_error + WriteResult list) \<times> 'w"
  AvailableItemProperties :: "DAItemID \<Rightarrow> 'w \<Rightarrow> (da_error + AvailableProperty list) \<times> 'w"
  rtItemProperties :: "DAItemID \<Rightarrow> PropertyID list \<Rightarrow> 'w \<Rightarrow> (da_error + ItemPropertyValue list) \<times> 'w"

definition StatusBadNothingToDo :: StatusCode where "StatusBadNothingToDo = 0x800F0000"
definition StatusBadMaxAgeInvalid :: StatusCode where "StatusBadMaxAgeInvalid = 0x80700000"
definition StatusBadTimestampsToReturnInvalid :: StatusCode where "StatusBadTimestampsToReturnInvalid = 0x802B0000"
definition StatusBadIndexRangeInvalid :: StatusCode where "StatusBadIndexRangeInvalid = 0x80360000"

record DataAccessLimits =
  dlMaxNodesPerRead :: int
  dlMaxNodesPerWrite :: int
  dlRequestTimeout :: int
  dlMaxNodes :: int

definition DefaultDataAccessLimits :: DataAccessLimits where
  "DefaultDataAccessLimits = \<lparr>dlMaxNodesPerRead = 100, dlMaxNodesPerWrite = 100,
     dlRequestTimeout = 30 * 10 ^ 9, dlMaxNodes = 50000\<rparr>"

definition DataAccessLimits_validate :: "DataAccessLimits \<Rightarrow> go_error option" where
  "DataAccessLimits_validate limits =
     (if dlMaxNodesPerRead limits \<le> 0 \<or> dlMaxNodesPerWrite limits \<le> 0 \<or>
        dlRequestTimeout limits \<le> 0 \<or> dlMaxNodes limits \<le> 0 then Some PlainError else None)"

section \<open>Attributes\<close>

definition attributeValue :: "Variant \<Rightarrow> TimestampsToReturn \<Rightarrow> gotime \<Rightarrow> DataValue" where
  "attributeValue variant timestamps now = DataValue variant StatusGood zeroTime 0
     (if asksServer timestamps then now else zeroTime) 0"

text \<open>The Description attribute is read from the source each time.\<close>

definition readDescription ::
  "'w Runtime \<Rightarrow> Node \<Rightarrow> gotime \<Rightarrow> TimestampsToReturn \<Rightarrow> 'w \<Rightarrow> DataValue \<times> 'w" where
  "readDescription rt node now timestamps w =
     (if \<not> DescriptionOffered node \<or> nItemID node = [] then (failedDataValue StatusBadAttributeIDInvalid, w)
      else case rtItemProperties rt (nItemID node) [PropertyDescription] w of
          (Inl er, w) \<Rightarrow> (failedDataValue (statusForRuntimeError er), w)
        | (Inr values, w) \<Rightarrow> (case values of
              [value] \<Rightarrow>
                (if propertyStatus value \<noteq> StatusGood then (failedDataValue (propertyStatus value), w)
                 else case pvValue value of
                     DString text \<Rightarrow>
                       (attributeValue (scalar BuiltInLocalizedText (GLocalizedText (text_of text))) timestamps now, w)
                   | _ \<Rightarrow> (failedDataValue StatusBadTypeMismatch, w))
            | _ \<Rightarrow> (failedDataValue StatusBadInternalError, w)))"

definition readAttribute ::
  "'w Runtime \<Rightarrow> Node \<Rightarrow> uint32 \<Rightarrow> gotime \<Rightarrow> TimestampsToReturn \<Rightarrow> 'w \<Rightarrow> DataValue \<times> 'w" where
  "readAttribute rt node a now timestamps w = (let
     answer = (\<lambda>variant. attributeValue variant timestamps now);
     invalid = failedDataValue StatusBadAttributeIDInvalid;
     variable = (nClass node = NodeClassVariable)
     in if a = AttributeNodeID then (answer (scalar BuiltInNodeID (GNodeID (nID node))), w)
        else if a = AttributeNodeClass then (answer (scalar BuiltInInt32 (GInt32 (nClass node))), w)
        else if a = AttributeBrowseName then (answer (scalar BuiltInQualifiedName (GQualifiedName (nBrowseName node))), w)
        else if a = AttributeDisplayName then (answer (scalar BuiltInLocalizedText (GLocalizedText (nDisplayName node))), w)
        else if a = AttributeEventNotifier then
          (if nClass node \<noteq> NodeClassObject then invalid else answer (scalar BuiltInByte (GUInt8 0)), w)
        else if a = AttributeDataType then
          (if \<not> variable then invalid else answer (scalar BuiltInNodeID (GNodeID (nDataType node))), w)
        else if a = AttributeValueRank then
          (if \<not> variable then invalid else answer (scalar BuiltInInt32 (GInt32 (ValueRank node))), w)
        else if a = AttributeAccessLevel \<or> a = AttributeUserAccessLevel then
          (if \<not> variable then invalid else answer (scalar BuiltInByte (GUInt8 (AccessLevel node))), w)
        else if a = AttributeDescription then readDescription rt node now timestamps w
        else if a = AttributeMinimumSamplingInterval then
          (if \<not> variable \<or> \<not> MinimumSamplingIntervalKnown node then invalid
           else answer (scalar BuiltInDouble (GFloat64 (MinimumSamplingInterval node))), w)
        else if a = AttributeHistorizing then
          (if \<not> variable then invalid else answer (scalar BuiltInBoolean (GBool False)), w)
        else (invalid, w))"

section \<open>Read\<close>

text \<open>
  What the first loop decides for a node: the answer itself, an item for the batch of the source
  (with the node that learns from it), or a property to be read afterwards. The slices
  \<^verbatim>\<open>itemIDs\<close>, \<^verbatim>\<open>positions\<close> and \<^verbatim>\<open>readNodes\<close> of the source are the item plans in order.
\<close>

datatype read_plan = Answered DataValue | ItemRead DAItemID NodeID | PropertyRead DAItemID itemPropertyBinding

definition planRead ::
  "'w Runtime \<Rightarrow> DataAccessLimits \<Rightarrow> gotime \<Rightarrow> TimestampsToReturn \<Rightarrow> ReadValueID \<Rightarrow>
     AddressSpace \<times> 'w \<Rightarrow> read_plan \<times> AddressSpace \<times> 'w" where
  "planRead rt limits now timestamps target = (\<lambda>(s, w).
     if rvIndexRange target \<noteq> [] then (Answered (failedDataValue StatusBadIndexRangeInvalid), s, w)
     else let ((node, kind), s) = ResolveNode (rvNodeID target) (dlMaxNodes limits) s
     in if kind = NodeKindUnknown then (Answered (failedDataValue StatusBadNodeIdUnknown), s, w)
        else if kind = NodeKindItemProperty \<and> rvAttributeID target = AttributeValue then
          (case ItemPropertyForNode (rvNodeID target) of
             Some (itemID, binding) \<Rightarrow> (PropertyRead itemID binding, s, w)
           | None \<Rightarrow> (case OtherPropertyForNode (rvNodeID target) of
                 Some (itemID, i) \<Rightarrow> (PropertyRead itemID (rawPropertyBinding i), s, w)
               | None \<Rightarrow> (PropertyRead [] (rawPropertyBinding 0), s, w)))
        else case node of
            None \<Rightarrow> (Answered (failedDataValue StatusBadNodeIdUnknown), s, w)
          | Some node \<Rightarrow>
              if rvAttributeID target \<noteq> AttributeValue then
                (case readAttribute rt node (rvAttributeID target) now timestamps w of (v, w) \<Rightarrow> (Answered v, s, w))
              else (case (nClass node = NodeClassVariable, LocalValue node) of
                  (True, Some value) \<Rightarrow> (Answered (localDataValue (value now) timestamps now), s, w)
                | _ \<Rightarrow>
                    if kind \<noteq> NodeKindItem then (Answered (failedDataValue StatusBadAttributeIDInvalid), s, w)
                    else if AccessRightsKnown node \<and> AccessLevel node AND AccessLevelCurrentRead = 0 then
                      (Answered (failedDataValue StatusBadNotReadable), s, w)
                    else (ItemRead (nItemID node) (nID node), s, w)))"

primrec planReads ::
  "'w Runtime \<Rightarrow> DataAccessLimits \<Rightarrow> gotime \<Rightarrow> TimestampsToReturn \<Rightarrow> ReadValueID list \<Rightarrow>
     AddressSpace \<times> 'w \<Rightarrow> read_plan list \<times> AddressSpace \<times> 'w" where
  "planReads rt limits now timestamps [] st = ([], st)"
| "planReads rt limits now timestamps (target # targets) st =
     (let (plan, st) = planRead rt limits now timestamps target st;
          (plans, st) = planReads rt limits now timestamps targets st
      in (plan # plans, st))"

fun itemReads :: "read_plan list \<Rightarrow> (DAItemID \<times> NodeID) list" where
  "itemReads [] = []"
| "itemReads (ItemRead i n # plans) = (i, n) # itemReads plans"
| "itemReads (_ # plans) = itemReads plans"

text \<open>\<^verbatim>\<open>results[positions[offset]] = answers[offset]\<close> for each offset.\<close>

fun placeReads :: "DataValue list \<Rightarrow> read_plan list \<Rightarrow> read_plan list" where
  "placeReads (v # vs) (ItemRead i n # plans) = Answered v # placeReads vs plans"
| "placeReads vs (plan # plans) = plan # placeReads vs plans"
| "placeReads vs [] = []"

definition readFromSource ::
  "'w Runtime \<Rightarrow> TimestampsToReturn \<Rightarrow> gotime \<Rightarrow> read_plan list \<Rightarrow> AddressSpace \<times> 'w \<Rightarrow>
     read_plan list \<times> AddressSpace \<times> 'w" where
  "readFromSource rt timestamps now plans = (\<lambda>(s, w). let items = itemReads plans in
     case ReadBatch rt (map fst items) w of
       (Inl er, w) \<Rightarrow> (placeReads (map (\<lambda>_. failedDataValue (statusForRuntimeError er)) items) plans, s, w)
     | (Inr results, w) \<Rightarrow>
         if length results \<noteq> length items then
           (placeReads (map (\<lambda>_. failedDataValue StatusBadInternalError) items) plans, s, w)
         else (placeReads (map (\<lambda>r. dataValueForRead r timestamps now) results) plans,
           fold (\<lambda>((i, n), r). LearnFromRead n (rrCanonicalType r) (rrAccessRights r)) (zip items results) s, w))"

definition readItemProperty ::
  "(Variant \<Rightarrow> gostring) \<Rightarrow> 'w Runtime \<Rightarrow> DAItemID \<Rightarrow> itemPropertyBinding \<Rightarrow> TimestampsToReturn \<Rightarrow> gotime \<Rightarrow>
     AddressSpace \<times> 'w \<Rightarrow> DataValue \<times> AddressSpace \<times> 'w" where
  "readItemProperty format rt itemID binding timestamps now = (\<lambda>(s, w).
     case rtItemProperties rt itemID (ibSources binding) w of
       (Inl er, w) \<Rightarrow> (failedDataValue (statusForRuntimeError er), s, w)
     | (Inr values, w) \<Rightarrow>
         if length values \<noteq> length (ibSources binding) then (failedDataValue StatusBadInternalError, s, w)
         else let (variant, status) = ibBuild binding (Some s) values
           in if status \<noteq> StatusGood then (failedDataValue status, s, w)
              else (attributeValue variant timestamps now,
                snd (NoteSemanticProperty format itemID (ibBrowseName binding) variant s), w))"

text \<open>
  The last loop, over the properties in order. A plan that is still an item cannot be left: an
  item the source was not asked for keeps the zero \<^verbatim>\<open>DataValue\<close> of \<^verbatim>\<open>make\<close>.
\<close>

fun readProperties ::
  "(Variant \<Rightarrow> gostring) \<Rightarrow> 'w Runtime \<Rightarrow> TimestampsToReturn \<Rightarrow> gotime \<Rightarrow> read_plan list \<Rightarrow>
     AddressSpace \<times> 'w \<Rightarrow> DataValue list \<times> AddressSpace \<times> 'w" where
  "readProperties format rt timestamps now [] st = ([], st)"
| "readProperties format rt timestamps now (plan # plans) st =
     (let (v, st) = (case plan of
            Answered v \<Rightarrow> (v, st)
          | ItemRead i n \<Rightarrow> (DataValue zeroVariant 0 zeroTime 0 zeroTime 0, st)
          | PropertyRead i b \<Rightarrow> readItemProperty format rt i b timestamps now st);
          (vs, st) = readProperties format rt timestamps now plans st
      in (v # vs, st))"

definition Service_Read ::
  "(Variant \<Rightarrow> gostring) \<Rightarrow> 'w Runtime \<Rightarrow> DataAccessLimits \<Rightarrow> ReadRequest \<Rightarrow> gotime \<Rightarrow>
     AddressSpace \<times> 'w \<Rightarrow> (go_error + ReadResponse) \<times> AddressSpace \<times> 'w" where
  "Service_Read format rt limits request now st =
     (if NodesToRead request = [] then (Inl (CodecError StatusBadNothingToDo), st)
      else if int (length (NodesToRead request)) > dlMaxNodesPerRead limits then
        (Inl (CodecError StatusBadTooManyOperations), st)
      else if f64_less (MaxAge request) 0 then (Inl (CodecError StatusBadMaxAgeInvalid), st)
      else if \<not> TimestampsToReturn_Valid (rqTimestampsToReturn request) then
        (Inl (CodecError StatusBadTimestampsToReturnInvalid), st)
      else let
        timestamps = rqTimestampsToReturn request;
        (plans, st) = planReads rt limits now timestamps (NodesToRead request) st;
        (plans, st) = (if itemReads plans \<noteq> [] then readFromSource rt timestamps now plans st else (plans, st));
        (results, st) = readProperties format rt timestamps now plans st
        in (Inr \<lparr>rpHeader = plain_response now (rqRequestHandle (rqHeader request)) StatusGood,
              rpResults = results, rpDiagnostics = []\<rparr>, st))"

section \<open>Write\<close>

datatype write_plan = Decided StatusCode | ItemWrite WriteItem

text \<open>
  A node is present whenever the guards before its use let a target through, so the \<open>None\<close>
  branch, where the source would follow a nil pointer, is not reached.
\<close>

definition planWrite ::
  "DataAccessLimits \<Rightarrow> WriteValue \<Rightarrow> AddressSpace \<Rightarrow> write_plan \<times> AddressSpace" where
  "planWrite limits target s =
     (if wvIndexRange target \<noteq> [] then (Decided StatusBadWriteNotSupported, s)
      else if SourceTimestamp (wvValue target) \<noteq> zeroTime \<or> ServerTimestamp (wvValue target) \<noteq> zeroTime then
        (Decided StatusBadWriteNotSupported, s)
      else if dvStatus (wvValue target) \<noteq> StatusGood then (Decided StatusBadWriteNotSupported, s)
      else let ((node, kind), s) = ResolveNode (wvNodeID target) (dlMaxNodes limits) s
      in if kind = NodeKindUnknown then (Decided StatusBadNodeIdUnknown, s)
         else if wvAttributeID target \<noteq> AttributeValue then (Decided StatusBadNotWritable, s)
         else let propertyItem = (kind = NodeKindItemProperty \<and> (case node of None \<Rightarrow> False | Some n \<Rightarrow> OwnItemID n))
         in if kind = NodeKindItemProperty \<and> \<not> propertyItem then (Decided StatusBadNotWritable, s)
            else if kind \<noteq> NodeKindItem \<and> \<not> propertyItem then (Decided StatusBadAttributeIDInvalid, s)
            else case node of
                None \<Rightarrow> (Decided StatusBadInternalError, s)
              | Some node \<Rightarrow>
                  if AccessRightsKnown node \<and> AccessLevel node AND AccessLevelCurrentWrite = 0 then
                    (Decided StatusBadNotWritable, s)
                  else (case writeItemForNode node (dvValue (wvValue target)) of
                      None \<Rightarrow> (Decided StatusBadTypeMismatch, s)
                    | Some item \<Rightarrow> (ItemWrite item, s)))"

primrec planWrites ::
  "DataAccessLimits \<Rightarrow> WriteValue list \<Rightarrow> AddressSpace \<Rightarrow> write_plan list \<times> AddressSpace" where
  "planWrites limits [] s = ([], s)"
| "planWrites limits (target # targets) s =
     (let (plan, s) = planWrite limits target s; (plans, s) = planWrites limits targets s in (plan # plans, s))"

fun itemWrites :: "write_plan list \<Rightarrow> WriteItem list" where
  "itemWrites [] = []"
| "itemWrites (ItemWrite i # plans) = i # itemWrites plans"
| "itemWrites (_ # plans) = itemWrites plans"

fun placeWrites :: "StatusCode list \<Rightarrow> write_plan list \<Rightarrow> StatusCode list" where
  "placeWrites ss [] = []"
| "placeWrites ss (Decided status # plans) = status # placeWrites ss plans"
| "placeWrites (s # ss) (ItemWrite i # plans) = s # placeWrites ss plans"
| "placeWrites [] (ItemWrite i # plans) = 0 # placeWrites [] plans"

definition writeStatus :: "WriteResult \<Rightarrow> StatusCode" where
  "writeStatus result =
     (if wrHRESULTPresent result \<and> HR_Failed (wrHRESULT result) then StatusCodeForWriteError (wrHRESULT result)
      else if wrErrorCode result \<noteq> None then StatusBadTypeMismatch
      else StatusGood)"

definition writeToSource :: "'w Runtime \<Rightarrow> write_plan list \<Rightarrow> 'w \<Rightarrow> StatusCode list \<times> 'w" where
  "writeToSource rt plans w = (let items = itemWrites plans in
     case WriteBatch rt items w of
       (Inl er, w) \<Rightarrow> (placeWrites (map (\<lambda>_. statusForRuntimeError er) items) plans, w)
     | (Inr results, w) \<Rightarrow>
         if length results \<noteq> length items then
           (placeWrites (map (\<lambda>_. StatusBadInternalError) items) plans, w)
         else (placeWrites (map writeStatus results) plans, w))"

definition Service_Write ::
  "'w Runtime \<Rightarrow> DataAccessLimits \<Rightarrow> WriteRequest \<Rightarrow> gotime \<Rightarrow>
     AddressSpace \<times> 'w \<Rightarrow> (go_error + WriteResponse) \<times> AddressSpace \<times> 'w" where
  "Service_Write rt limits request now = (\<lambda>(s, w).
     if NodesToWrite request = [] then (Inl (CodecError StatusBadNothingToDo), s, w)
     else if int (length (NodesToWrite request)) > dlMaxNodesPerWrite limits then
       (Inl (CodecError StatusBadTooManyOperations), s, w)
     else let
       (plans, s) = planWrites limits (NodesToWrite request) s;
       (results, w) = (if itemWrites plans \<noteq> [] then writeToSource rt plans w else (placeWrites [] plans, w))
       in (Inr \<lparr>wpHeader = plain_response now (rqRequestHandle (wqHeader request)) StatusGood,
             wpResults = results, wpDiagnostics = []\<rparr>, s, w))"

section \<open>Answers are in the place of their questions\<close>

text \<open>How many items of the batch come before position \<open>k\<close>.\<close>

definition read_rank :: "read_plan list \<Rightarrow> nat \<Rightarrow> nat" where
  "read_rank plans k = length (itemReads (take k plans))"

lemma placeReads_nth:
  "length vs = length (itemReads plans) \<Longrightarrow> k < length plans \<Longrightarrow>
     placeReads vs plans ! k = (case plans ! k of ItemRead i n \<Rightarrow> Answered (vs ! read_rank plans k) | plan \<Rightarrow> plan)"
proof (induction plans arbitrary: k vs)
  case (Cons plan plans)
  show ?case
  proof (cases plan)
    case (ItemRead i n)
    with Cons.prems obtain v ws where "vs = v # ws" by (cases vs) auto
    with ItemRead Cons.prems Cons.IH [of ws "k - 1"] show ?thesis
      by (cases k) (auto simp: read_rank_def split: read_plan.split)
  qed (use Cons.prems Cons.IH [of vs "k - 1"] in \<open>cases k; auto simp: read_rank_def split: read_plan.split\<close>)+
qed simp

lemma placeReads_length [simp]: "length (placeReads vs plans) = length plans"
  by (induction vs plans rule: placeReads.induct) auto

lemma item_rank:
  "k < length plans \<Longrightarrow> plans ! k = ItemRead i n \<Longrightarrow>
     read_rank plans k < length (itemReads plans) \<and> itemReads plans ! read_rank plans k = (i, n)"
proof (induction plans arbitrary: k)
  case (Cons plan plans)
  then show ?case by (cases plan; cases k) (auto simp: read_rank_def)
qed simp

lemma planReads_length: "planReads rt limits now ts targets st = (plans, st') \<Longrightarrow> length plans = length targets"
  by (induction targets arbitrary: st plans st') (auto simp: Let_def split: prod.splits)

lemma readProperties_nth:
  "readProperties format rt ts now plans st = (vs, st') \<Longrightarrow>
     length vs = length plans \<and> (\<forall>k v. k < length plans \<longrightarrow> plans ! k = Answered v \<longrightarrow> vs ! k = v)"
proof (induction plans arbitrary: st vs st')
  case (Cons plan plans)
  obtain v st1 vs' where "vs = v # vs'" "readProperties format rt ts now plans st1 = (vs', st')"
      "(v, st1) = (case plan of Answered v \<Rightarrow> (v, st)
        | ItemRead i n \<Rightarrow> (DataValue zeroVariant 0 zeroTime 0 zeroTime 0, st)
        | PropertyRead i b \<Rightarrow> readItemProperty format rt i b ts now st)"
    using Cons.prems by (auto simp: Let_def split: prod.splits)
  then show ?case using Cons.IH by (auto simp: nth_Cons' split: read_plan.splits)
qed simp

text \<open>The value of an item of the batch, as the source answered.\<close>

definition batch_answer ::
  "TimestampsToReturn \<Rightarrow> gotime \<Rightarrow> nat \<Rightarrow> da_error + ReadResult list \<Rightarrow> nat \<Rightarrow> DataValue" where
  "batch_answer ts now n answer k = (case answer of
       Inl er \<Rightarrow> failedDataValue (statusForRuntimeError er)
     | Inr results \<Rightarrow> if length results \<noteq> n then failedDataValue StatusBadInternalError
         else dataValueForRead (results ! k) ts now)"

lemma readFromSource_nth:
  assumes "readFromSource rt ts now plans (s, w) = (plans', st')" and "k < length plans"
  shows "plans' ! k = (case plans ! k of
      ItemRead i n \<Rightarrow> Answered (batch_answer ts now (length (itemReads plans))
        (fst (ReadBatch rt (map fst (itemReads plans)) w)) (read_rank plans k))
    | plan \<Rightarrow> plan) \<and> length plans' = length plans"
proof -
  have rank: "plans ! k = ItemRead i n \<Longrightarrow> read_rank plans k < length (itemReads plans)" for i n
    using item_rank [OF assms(2)] by blast
  show ?thesis
    using assms rank
    by (cases "ReadBatch rt (map fst (itemReads plans)) w"; cases "fst (ReadBatch rt (map fst (itemReads plans)) w)")
      (auto simp: readFromSource_def Let_def placeReads_nth batch_answer_def split: read_plan.splits if_splits)
qed

section \<open>Effects on the address space\<close>

lemma step_once: "space_step format s t \<Longrightarrow> (space_step format)\<^sup>*\<^sup>* s t" by blast

lemma resolve_steps:
  assumes "ResolveNode i m s = (r, s')"
  shows "(space_step format)\<^sup>*\<^sup>* s s'"
proof (cases "ItemIDForNode i")
  case None
  then have "s' = s"
    using assms by (auto simp: ResolveNode_def ResolveVariable_def Let_def split: prod.splits if_splits option.splits)
  then show ?thesis by simp
next
  case (Some itemID)
  have "s' = s \<or> s' = snd (resolveLocked i itemID m s)"
    using assms Some
    by (auto simp: ResolveNode_def ResolveVariable_def Let_def split: prod.splits if_splits option.splits)
  then show ?thesis using space_step.resolve [OF Some] by (metis r_into_rtranclp rtranclp.rtrancl_refl)
qed

lemma planReads_steps:
  "planReads rt limits now ts targets (s, w) = (plans, s', w') \<Longrightarrow> (space_step format)\<^sup>*\<^sup>* s s'"
proof (induction targets arbitrary: s w plans)
  case (Cons target targets)
  obtain plan s1 w1 plans' where p: "planRead rt limits now ts target (s, w) = (plan, s1, w1)"
      "planReads rt limits now ts targets (s1, w1) = (plans', s', w')"
    using Cons.prems by (auto simp: Let_def split: prod.splits)
  have "s1 = s \<or> (\<exists>r. ResolveNode (rvNodeID target) (dlMaxNodes limits) s = (r, s1))"
    using p(1) by (auto simp: planRead_def Let_def split: prod.splits if_splits option.splits bool.splits)
  then have "(space_step format)\<^sup>*\<^sup>* s s1" using resolve_steps by auto
  then show ?case using Cons.IH [OF p(2)] by (rule rtranclp_trans)
qed simp

lemma learn_steps: "(space_step format)\<^sup>*\<^sup>* s (fold (\<lambda>((i, n), r). LearnFromRead n (rrCanonicalType r) (rrAccessRights r)) zs s)"
proof (induction zs arbitrary: s)
  case (Cons z zs)
  obtain i n r where "z = ((i, n), r)" by (metis surj_pair)
  then show ?case
    using Cons.IH space_step.learn by (simp) (meson converse_rtranclp_into_rtranclp)
qed simp

lemma readFromSource_steps:
  "readFromSource rt ts now plans (s, w) = (plans', s', w') \<Longrightarrow> (space_step format)\<^sup>*\<^sup>* s s'"
  by (auto simp: readFromSource_def Let_def intro: learn_steps split: prod.splits sum.splits if_splits)

lemma readItemProperty_steps:
  "readItemProperty format rt i b ts now (s, w) = (v, s', w') \<Longrightarrow> (space_step format)\<^sup>*\<^sup>* s s'"
  by (auto simp: readItemProperty_def Let_def intro: step_once space_step.semantic split: prod.splits sum.splits if_splits)

lemma readProperties_steps:
  "readProperties format rt ts now plans (s, w) = (vs, s', w') \<Longrightarrow> (space_step format)\<^sup>*\<^sup>* s s'"
proof (induction plans arbitrary: s w vs)
  case (Cons plan plans)
  obtain v s1 w1 vs' where p: "readProperties format rt ts now plans (s1, w1) = (vs', s', w')"
      "(v, s1, w1) = (case plan of Answered v \<Rightarrow> (v, s, w)
        | ItemRead i n \<Rightarrow> (DataValue zeroVariant 0 zeroTime 0 zeroTime 0, s, w)
        | PropertyRead i b \<Rightarrow> readItemProperty format rt i b ts now (s, w))"
    using Cons.prems by (auto simp: Let_def split: prod.splits)
  then have "(space_step format)\<^sup>*\<^sup>* s s1"
    by (auto split: read_plan.splits dest: readItemProperty_steps [OF sym])
  then show ?case using Cons.IH [OF p(1)] by (rule rtranclp_trans)
qed simp

lemma put_count: "space_Node i s = Some n \<Longrightarrow> space_inv s \<Longrightarrow> nID n' = nID n \<Longrightarrow>
    SourceNodeCount (put_node n' s) = SourceNodeCount s"
  using lookup_ok [of s i n] lookup_has_key [of i s n] by (simp add: SourceNodeCount_put node_ok_def)

lemma learn_count: "space_inv s \<Longrightarrow> SourceNodeCount (LearnFromRead i t r s) = SourceNodeCount s"
  by (auto simp: LearnFromRead_def put_count split: option.split)

lemma semantic_count: "space_inv s \<Longrightarrow> SourceNodeCount (snd (NoteSemanticProperty f i b v s)) = SourceNodeCount s"
  by (auto simp: NoteSemanticProperty_def Let_def put_count split: option.split)

section \<open>Planning writes\<close>

definition write_rank :: "write_plan list \<Rightarrow> nat \<Rightarrow> nat" where
  "write_rank plans k = length (itemWrites (take k plans))"

lemma placeWrites_length [simp]: "length (placeWrites ss plans) = length plans"
  by (induction ss plans rule: placeWrites.induct) auto

lemma placeWrites_nth:
  "length ss = length (itemWrites plans) \<Longrightarrow> k < length plans \<Longrightarrow>
     placeWrites ss plans ! k = (case plans ! k of Decided status \<Rightarrow> status | ItemWrite i \<Rightarrow> ss ! write_rank plans k)"
proof (induction ss plans arbitrary: k rule: placeWrites.induct)
  case (2 ss status plans)
  then show ?case by (cases k) (auto simp: write_rank_def split: write_plan.split)
next
  case (3 s ss i plans)
  then show ?case by (cases k) (auto simp: write_rank_def split: write_plan.split)
qed (auto simp: write_rank_def)

lemma write_item_rank:
  "k < length plans \<Longrightarrow> plans ! k = ItemWrite i \<Longrightarrow>
     write_rank plans k < length (itemWrites plans) \<and> itemWrites plans ! write_rank plans k = i"
proof (induction plans arbitrary: k)
  case (Cons plan plans)
  then show ?case by (cases plan; cases k) (auto simp: write_rank_def)
qed simp

lemma ResolveNode_node: "ResolveNode i m s = ((node, NodeKindItem), s') \<Longrightarrow> node \<noteq> None"
  by (auto simp: ResolveNode_def ClassifyNode_def Let_def split: option.splits if_splits prod.splits dest: sym)

text \<open>What has to hold of a target and its node for a write to reach the source.\<close>

definition may_write :: "WriteValue \<Rightarrow> Node \<Rightarrow> NodeKind \<Rightarrow> bool" where
  "may_write target node kind \<longleftrightarrow> wvIndexRange target = [] \<and> wvAttributeID target = AttributeValue \<and>
     SourceTimestamp (wvValue target) = zeroTime \<and> ServerTimestamp (wvValue target) = zeroTime \<and>
     dvStatus (wvValue target) = StatusGood \<and>
     (kind = NodeKindItem \<or> kind = NodeKindItemProperty \<and> OwnItemID node) \<and>
     \<not> (AccessRightsKnown node \<and> AccessLevel node AND AccessLevelCurrentWrite = 0)"

lemma planWrite_item:
  assumes "planWrite limits target s = (ItemWrite item, s')"
  shows "\<exists>node kind. ResolveNode (wvNodeID target) (dlMaxNodes limits) s = ((Some node, kind), s') \<and>
    may_write target node kind \<and> writeItemForNode node (dvValue (wvValue target)) = Some item"
  using assms by (auto simp: planWrite_def may_write_def Let_def split: if_splits prod.splits option.splits)

lemma planWrites_spec:
  "planWrites limits targets s = (plans, s') \<Longrightarrow> length plans = length targets \<and>
     (space_step format)\<^sup>*\<^sup>* s s' \<and> (\<forall>k < length plans. \<exists>s0 s1. planWrite limits (targets ! k) s0 = (plans ! k, s1))"
proof (induction targets arbitrary: s plans)
  case (Cons target targets)
  obtain plan s1 plans' where p: "planWrite limits target s = (plan, s1)" "planWrites limits targets s1 = (plans', s')"
      "plans = plan # plans'"
    using Cons.prems by (auto simp: Let_def split: prod.splits)
  have "s1 = s \<or> (\<exists>r. ResolveNode (wvNodeID target) (dlMaxNodes limits) s = (r, s1))"
    using p(1) by (auto simp: planWrite_def Let_def split: prod.splits if_splits option.splits)
  then have "(space_step format)\<^sup>*\<^sup>* s s1" using resolve_steps by auto
  moreover have "\<exists>s0 s1. planWrite limits ((target # targets) ! k) s0 = (plans ! k, s1)" if "k < length plans" for k
    using that p Cons.IH [OF p(2)] by (cases k) auto
  ultimately show ?case using Cons.IH [OF p(2)] p(3) rtranclp_trans [of "space_step format" s s1 s'] by auto
qed simp

section \<open>Properties\<close>


definition read_value_sample :: "NodeID \<Rightarrow> uint32 \<Rightarrow> ReadValueID" where
  "read_value_sample i a = \<lparr>rvNodeID = i, rvAttributeID = a, rvIndexRange = [], DataEncoding = \<lparr>qNamespace = 0, qName = []\<rparr>\<rparr>"

definition read_sample :: ReadRequest where
  "read_sample = \<lparr>rqHeader = request_header_sample, MaxAge = 0, rqTimestampsToReturn = TimestampsBoth,
     NodesToRead = [read_value_sample (ItemNodeID [120]) AttributeNodeClass, read_value_sample (ItemNodeID [120]) AttributeValue]\<rparr>"

text \<open>A runtime that is not connected.\<close>

definition offline :: "unit Runtime" where
  "offline = \<lparr>rtBrowse = \<lambda>_ w. (Inl (AdapterError CodeRuntimeUnavailable), w),
     ReadBatch = \<lambda>_ w. (Inl (AdapterError CodeRuntimeUnavailable), w),
     WriteBatch = \<lambda>_ w. (Inl (AdapterError CodeRuntimeUnavailable), w),
     AvailableItemProperties = \<lambda>_ w. (Inl (AdapterError CodeRuntimeUnavailable), w),
     rtItemProperties = \<lambda>_ _ w. (Inl (AdapterError CodeRuntimeUnavailable), w)\<rparr>"

definition empty_space :: AddressSpace where
  "empty_space = \<lparr>asConfig = config_sample, nodes = [], branchIDs = Map.empty, sourceFolder = zeroNodeID,
     binaryLimits = DefaultBinaryLimits, standardNodeCount = 0, startTime = 0\<rparr>"



definition write_target_sample :: WriteValue where
  "write_target_sample = \<lparr>wvNodeID = ItemNodeID [120], wvAttributeID = AttributeValue, wvIndexRange = [],
     wvValue = DataValue (Variant BuiltInInt16 (GInt16 7) False []) StatusGood zeroTime 0 zeroTime 0\<rparr>"

definition write_sample_request :: WriteRequest where
  "write_sample_request = \<lparr>wqHeader = request_header_sample, NodesToWrite = [write_target_sample]\<rparr>"

text \<open>A source that clamps every value it is given.\<close>

definition clamping :: "unit Runtime" where
  "clamping = offline\<lparr>WriteBatch := \<lambda>items w. (Inr (map (\<lambda>i. \<lparr>wrItemID = wiItemID i, wrHRESULT = OPCSClamp,
     wrHRESULTPresent = True, wrErrorCode = None\<rparr>) items), w)\<rparr>"


end
