(* ===== verification/Population.thy ===== *)
theory Population
  imports DataAccess
begin

text \<open>
  Filling the address space on demand, from \<^verbatim>\<open>src/internal/opcua/population.go\<close>. A caller that needs
  a branch or the properties of an item goes through \<^verbatim>\<open>EnsureBranch\<close> or \<^verbatim>\<open>EnsureItemProperties\<close>:
  a recent answer is reused, a call that is already running is waited for, and otherwise the
  source is asked once. Each part of that protocol that runs under the lock is one definition;
  the sequential operations compose them, and the interleavings of many callers are a step
  relation over the same definitions.
\<close>

section \<open>Limits and state\<close>

record PopulationLimits =
  plMaxNodes :: int
  MaxDepth :: int
  RefreshInterval :: int
  plRequestTimeout :: int

definition DefaultPopulationLimits :: PopulationLimits where
  "DefaultPopulationLimits = \<lparr>plMaxNodes = 50000, MaxDepth = 32, RefreshInterval = 60 * 10 ^ 9,
     plRequestTimeout = 30 * 10 ^ 9\<rparr>"

definition PopulationLimits_validate :: "PopulationLimits \<Rightarrow> go_error option" where
  "PopulationLimits_validate limits =
     (if plMaxNodes limits \<le> 0 \<or> MaxDepth limits \<le> 0 \<or> RefreshInterval limits \<le> 0 \<or> plRequestTimeout limits \<le> 0
      then Some PlainError else None)"

text \<open>
  The channel of a running call is a number: making one takes a fresh number, and closing it
  puts the number into the set of closed channels of the step relation below.
\<close>

record Populator =
  poLimits :: PopulationLimits
  browsed :: "gostring \<rightharpoonup> gotime"
  inflight :: "gostring \<rightharpoonup> nat"

definition NewPopulator :: "PopulationLimits \<Rightarrow> go_error + Populator" where
  "NewPopulator limits = (case PopulationLimits_validate limits of
       Some er \<Rightarrow> Inl er
     | None \<Rightarrow> Inr \<lparr>poLimits = limits, browsed = Map.empty, inflight = Map.empty\<rparr>)"

text \<open>An error of the server itself, with its status code, or one the runtime gave.\<close>

datatype population_error = Coded StatusCode | FromRuntime da_error

definition statusForPopulationError :: "population_error \<Rightarrow> StatusCode" where
  "statusForPopulationError er = (case er of Coded status \<Rightarrow> status | FromRuntime er \<Rightarrow> statusForRuntimeError er)"

section \<open>Keys and paths\<close>

fun pathKeyLoop :: "gostring \<Rightarrow> nat \<Rightarrow> gostring list \<Rightarrow> gostring" where
  "pathKeyLoop key index [] = key"
| "pathKeyLoop key index (segment # path) =
     pathKeyLoop ((if index > 0 then key @ [0x1f] else key) @ segment) (Suc index) path"

definition pathKey :: "gostring list \<Rightarrow> gostring" where
  "pathKey path = pathKeyLoop [] 0 path"

definition itemPropertiesKey :: "DAItemID \<Rightarrow> gostring" where
  "itemPropertiesKey itemID = lit ''properties'' @ [0x1f] @ itemID"

fun splitBranchLoop :: "gostring \<Rightarrow> nat list \<Rightarrow> gostring list" where
  "splitBranchLoop current [] = [current]"
| "splitBranchLoop current (character # rest) =
     (if character = 0x1f then current # splitBranchLoop [] rest
      else splitBranchLoop (current @ utf8_encode_rune character) rest)"

definition splitBranchPath :: "gostring \<Rightarrow> gostring list" where
  "splitBranchPath encoded = splitBranchLoop [] (runes encoded)"

definition PathForNode :: "NodeID \<Rightarrow> gostring list option" where
  "PathForNode i =
     (if Namespace i \<noteq> AdapterNamespaceIndex \<or> Type i \<noteq> NodeIDTypeString then None
      else case strings_CutPrefix (StringID i) (lit ''branch:'') of
          None \<Rightarrow> None
        | Some encoded \<Rightarrow> (let
            encoded = (case strings_Cut encoded branchItemIDSeparator of Some (path, _) \<Rightarrow> path | None \<Rightarrow> encoded)
            in if encoded = [] then None else Some (splitBranchPath encoded)))"

section \<open>The parts under the lock\<close>

definition recentlyBrowsed :: "gostring \<Rightarrow> gotime \<Rightarrow> Populator \<Rightarrow> bool" where
  "recentlyBrowsed key now p = (case browsed p key of
       Some browsedAt \<Rightarrow> now - browsedAt < RefreshInterval (poLimits p) | None \<Rightarrow> False)"

text \<open>What a caller does after its first look: nothing, wait on a channel, or ask the source itself.\<close>

datatype ensure_decision = Fresh | Wait nat | Run

definition enterEnsure :: "gostring \<Rightarrow> gotime \<Rightarrow> nat \<Rightarrow> Populator \<Rightarrow> ensure_decision \<times> Populator" where
  "enterEnsure key now ch p =
     (if recentlyBrowsed key now p then (Fresh, p)
      else case inflight p key of
          Some waiting \<Rightarrow> (Wait waiting, p)
        | None \<Rightarrow> (Run, p\<lparr>inflight := (inflight p)(key \<mapsto> ch)\<rparr>))"

definition recordBrowsed :: "gostring \<Rightarrow> gotime \<Rightarrow> Populator \<Rightarrow> Populator" where
  "recordBrowsed key now p = p\<lparr>browsed := (browsed p)(key \<mapsto> now)\<rparr>"

definition leaveEnsure :: "gostring \<Rightarrow> Populator \<Rightarrow> Populator" where
  "leaveEnsure key p = p\<lparr>inflight := (inflight p)(key := None)\<rparr>"

definition Invalidate :: "Populator \<Rightarrow> Populator" where
  "Invalidate p = p\<lparr>browsed := Map.empty\<rparr>"

section \<open>Asking the source\<close>

type_synonym 'w populating = "Populator \<times> AddressSpace \<times> 'w"

definition populator_browse ::
  "'w Runtime \<Rightarrow> gostring list \<Rightarrow> gostring \<Rightarrow> gotime \<Rightarrow> 'w populating \<Rightarrow> population_error option \<times> 'w populating" where
  "populator_browse rt path key now = (\<lambda>(p, s, w). case rtBrowse rt path w of
       (Inl er, w) \<Rightarrow> (Some (FromRuntime er), p, s, w)
     | (Inr entries, w) \<Rightarrow>
         if SourceNodeCount s + int (length entries) > plMaxNodes (poLimits p) then
           (Some (Coded StatusBadTooManyOperations), p, s, w)
         else case PopulateBranch path entries s of
             (Some er, s) \<Rightarrow> (Some (Coded StatusBadInternalError), p, s, w)
           | (None, s) \<Rightarrow> (None, recordBrowsed key now p, s, w))"

definition offersProperty :: "AvailableProperty list \<Rightarrow> PropertyID \<Rightarrow> bool" where
  "offersProperty available i = list_ex (\<lambda>property. apID property = i) available"

text \<open>\<^verbatim>\<open>float64(typed)\<close> is exact for each of the accepted types.\<close>

definition scanRateMilliseconds :: "da_value \<Rightarrow> float64 option" where
  "scanRateMilliseconds value = (case value of
       DFloat32 x \<Rightarrow> Some (f64_of_f32 x) | DFloat64 x \<Rightarrow> Some x
     | DInt16 x \<Rightarrow> Some (f64_of_int (sint x)) | DInt32 x \<Rightarrow> Some (f64_of_int (sint x))
     | DUInt16 x \<Rightarrow> Some (f64_of_int (uint x)) | DUInt32 x \<Rightarrow> Some (f64_of_int (uint x))
     | _ \<Rightarrow> None)"

definition euTypeOf :: "da_value \<Rightarrow> EUType option" where
  "euTypeOf value = (case value of
       DInt32 x \<Rightarrow> Some x | DInt16 x \<Rightarrow> Some (scast x) | DUInt32 x \<Rightarrow> Some x | _ \<Rightarrow> None)"

fun itemFactsLoop ::
  "DAItemID \<Rightarrow> (PropertyID \<times> ItemPropertyValue) list \<Rightarrow> EUType \<Rightarrow> AddressSpace \<Rightarrow> EUType \<times> AddressSpace" where
  "itemFactsLoop itemID [] euType s = (euType, s)"
| "itemFactsLoop itemID ((wanted, value) # rest) euType s =
     (if \<not> pvOK value \<or> \<not> pvValuePresent value then itemFactsLoop itemID rest euType s
      else if wanted = PropertyEUType then
        itemFactsLoop itemID rest (case euTypeOf (pvValue value) of Some t \<Rightarrow> t | None \<Rightarrow> euType) s
      else if wanted = PropertyScanRate then
        itemFactsLoop itemID rest euType
          (case scanRateMilliseconds (pvValue value) of Some rate \<Rightarrow> NoteScanRate itemID rate s | None \<Rightarrow> s)
      else itemFactsLoop itemID rest euType s)"

definition readItemFacts ::
  "'w Runtime \<Rightarrow> DAItemID \<Rightarrow> PropertyID list \<Rightarrow> AddressSpace \<times> 'w \<Rightarrow> EUType \<times> AddressSpace \<times> 'w" where
  "readItemFacts rt itemID wanted = (\<lambda>(s, w). case rtItemProperties rt itemID wanted w of
       (Inl er, w) \<Rightarrow> (EUTypeNoEnum, s, w)
     | (Inr values, w) \<Rightarrow>
         if length values \<noteq> length wanted then (EUTypeNoEnum, s, w)
         else let (euType, s) = itemFactsLoop itemID (zip wanted values) EUTypeNoEnum s in (euType, s, w))"

definition wantedFacts :: "AvailableProperty list \<Rightarrow> PropertyID list" where
  "wantedFacts available =
     (if offersProperty available PropertyEUType then [PropertyEUType] else []) @
     (if offersProperty available PropertyScanRate then [PropertyScanRate] else [])"

definition discoverItemProperties ::
  "'w Runtime \<Rightarrow> DAItemID \<Rightarrow> gostring \<Rightarrow> gotime \<Rightarrow> 'w populating \<Rightarrow> population_error option \<times> 'w populating" where
  "discoverItemProperties rt itemID key now = (\<lambda>(p, s, w). case AvailableItemProperties rt itemID w of
       (Inl er, w) \<Rightarrow>
         if er = AdapterError CodePropertiesUnsupported then (None, recordBrowsed key now p, s, w)
         else (Some (FromRuntime er), p, s, w)
     | (Inr available, w) \<Rightarrow> (let
         wanted = wantedFacts available;
         (euType, s, w) = (if wanted \<noteq> [] then readItemFacts rt itemID wanted (s, w) else (EUTypeNoEnum, s, w))
         in case AttachItemProperties itemID available euType (plMaxNodes (poLimits p)) s of
             (Some er, s) \<Rightarrow> (Some (Coded StatusBadTooManyOperations), p, s, w)
           | (None, s) \<Rightarrow> (None, recordBrowsed key now p, s, w)))"

section \<open>The operations of a caller\<close>

text \<open>
  The protocol both operations follow. \<open>await c\<close> is what the other callers do until the channel
  \<open>c\<close> is closed, or None when the caller's context ends first; \<open>work\<close> is the call on the
  source, and \<open>ch\<close> the channel the caller makes.
\<close>

definition ensure ::
  "(nat \<Rightarrow> 'w populating \<Rightarrow> 'w populating option) \<Rightarrow> ('w populating \<Rightarrow> population_error option \<times> 'w populating) \<Rightarrow>
     gostring \<Rightarrow> gotime \<Rightarrow> nat \<Rightarrow> 'w populating \<Rightarrow> population_error option \<times> 'w populating" where
  "ensure await work key now ch = (\<lambda>(p, s, w). case enterEnsure key now ch p of
       (Fresh, p) \<Rightarrow> (None, p, s, w)
     | (Wait waiting, p) \<Rightarrow> (case await waiting (p, s, w) of
           None \<Rightarrow> (Some (Coded StatusBadTimeout), p, s, w)
         | Some (p, s, w) \<Rightarrow>
             (if recentlyBrowsed key now p then None else Some (Coded StatusBadNotConnected), p, s, w))
     | (Run, p) \<Rightarrow> (case work (p, s, w) of (er, p, s, w) \<Rightarrow> (er, leaveEnsure key p, s, w)))"

definition EnsureBranch ::
  "(nat \<Rightarrow> 'w populating \<Rightarrow> 'w populating option) \<Rightarrow> 'w Runtime \<Rightarrow> gostring list \<Rightarrow> gotime \<Rightarrow> nat \<Rightarrow>
     'w populating \<Rightarrow> population_error option \<times> 'w populating" where
  "EnsureBranch await rt path now ch = (\<lambda>(p, s, w).
     if int (length path) > MaxDepth (poLimits p) then (Some (Coded StatusBadTooManyOperations), p, s, w)
     else let key = pathKey path in ensure await (populator_browse rt path key now) key now ch (p, s, w))"

definition EnsureItemProperties ::
  "(nat \<Rightarrow> 'w populating \<Rightarrow> 'w populating option) \<Rightarrow> 'w Runtime \<Rightarrow> DAItemID \<Rightarrow> gotime \<Rightarrow> nat \<Rightarrow>
     'w populating \<Rightarrow> population_error option \<times> 'w populating" where
  "EnsureItemProperties await rt itemID now ch =
     (let key = itemPropertiesKey itemID in ensure await (discoverItemProperties rt itemID key now) key now ch)"

section \<open>Paths and identifiers\<close>

lemma pathKeyLoop_acc: "index > 0 \<Longrightarrow> pathKeyLoop key index path = key @ concat (map (\<lambda>t. 0x1f # t) path)"
  by (induction path arbitrary: key index) auto

lemma pathKey_join: "pathKey path = join_path path"
  by (cases path) (simp_all add: pathKey_def join_path_def pathKeyLoop_acc)

text \<open>
  The comment on the key of a discovery says that no path can spell it; the path of the branch
  \<^verbatim>\<open>properties\<close> and a child does.
\<close>

lemma keys_collide: "itemPropertiesKey itemID = pathKey [lit ''properties'', itemID]"
  by (simp add: itemPropertiesKey_def pathKey_join join_path_def)


lemma one_byte_rune: "c < 128 \<Longrightarrow> utf8_encode_rune c = [of_nat c]"
  by (simp add: utf8_encode_rune_def)

lemma wide_rune_bytes:
  assumes "scalar_value c" and "128 \<le> c" and "b \<in> set (utf8_encode_rune c)"
  shows "128 \<le> unat b"
proof -
  have "128 \<le> unat (of_nat (k + n) :: byte)" if "128 \<le> k" "k + n < 256" for k n
    using that unat_byte [of "k + n"] by (simp del: of_nat_add)
  moreover have "c < 0x110000" using assms(1) by (auto simp: scalar_value_def)
  ultimately show ?thesis
    using assms(2,3) by (auto simp: utf8_encode_rune_def simp del: of_nat_add split: if_splits)
qed

text \<open>The separator is a rune of a string exactly when it is a byte of it.\<close>

lemma separator_rune:
  "list_all scalar_value cs \<Longrightarrow> 0x1f \<in> set cs \<longleftrightarrow> 0x1f \<in> set (utf8_encode cs)"
proof (induction cs)
  case (Cons c cs)
  have "c = 0x1f \<longleftrightarrow> 0x1f \<in> set (utf8_encode_rune c)"
  proof (cases "c < 128")
    case True
    then have "(of_nat c :: byte) = 0x1f \<longleftrightarrow> c = 0x1f" using unat_byte [of c] by (auto dest: arg_cong [of _ _ unat])
    then show ?thesis using one_byte_rune [OF True] by auto
  next
    case False
    then show ?thesis using wide_rune_bytes [of c "0x1f"] Cons.prems by auto
  qed
  then show ?case using Cons by (auto simp: utf8_encode_def)
qed (simp add: utf8_encode_def)

lemma splitBranchLoop_segment:
  "0x1f \<notin> set cs \<Longrightarrow> splitBranchLoop current (cs @ ds) = splitBranchLoop (current @ utf8_encode cs) ds"
  by (induction cs arbitrary: current) (auto simp: utf8_encode_def)

definition path_ok :: "gostring list \<Rightarrow> bool" where
  "path_ok path \<longleftrightarrow> path \<noteq> [] \<and> path \<noteq> [[]] \<and>
     list_all (\<lambda>s. ValidString s \<and> 0x1f \<notin> set s \<and> 0x1e \<notin> set s) path"

lemma utf8_encode_append: "utf8_encode (cs @ ds) = utf8_encode cs @ utf8_encode ds"
  by (simp add: utf8_encode_def)

lemma splitBranchPath_join:
  assumes "path \<noteq> []" and "list_all (\<lambda>s. ValidString s \<and> 0x1f \<notin> set s) path"
  shows "splitBranchPath (join_path path) = path"
proof -
  have valid: "utf8_encode (runes s) = s \<and> list_all scalar_value (runes s) \<and> 0x1f \<notin> set (runes s)" if "s \<in> set path" for s
    using assms(2) that ValidString_encode [of s] separator_rune [of "runes s"] by (auto simp: list_all_iff)
  have us: "utf8_encode [0x1f] = [0x1f]" "scalar_value 0x1f"
    by (simp_all add: utf8_encode_def one_byte_rune scalar_value_def)
  have rest: "utf8_encode (concat (map (\<lambda>t. 0x1f # runes t) ss)) = concat (map (\<lambda>t. 0x1f # t) ss) \<and>
      list_all scalar_value (concat (map (\<lambda>t. 0x1f # runes t) ss))" if "set ss \<subseteq> set path" for ss
    using that
  proof (induction ss)
    case (Cons t ss)
    then show ?case using valid [of t] us utf8_encode_append [of "[0x1f]" "runes t @ concat (map (\<lambda>t. 0x1f # runes t) ss)"]
      by (auto simp: utf8_encode_append)
  qed (simp add: utf8_encode_def)
  have split: "splitBranchLoop current (runes s @ concat (map (\<lambda>t. 0x1f # runes t) ss)) = (current @ s) # ss"
    if "set (s # ss) \<subseteq> set path" for s ss current
    using that
  proof (induction ss arbitrary: s current)
    case Nil
    then show ?case using valid [of s] splitBranchLoop_segment [of "runes s" current "[]"] by simp
  next
    case (Cons t ss)
    then show ?case using valid [of s] by (simp add: splitBranchLoop_segment)
  qed
  obtain s ss where path: "path = s # ss" using assms(1) by (cases path) auto
  have "join_path path = utf8_encode (runes s @ concat (map (\<lambda>t. 0x1f # runes t) ss))"
    using valid [of s] rest [of ss] by (simp add: path join_path_def utf8_encode_append subset_insertI)
  moreover have "list_all scalar_value (runes s @ concat (map (\<lambda>t. 0x1f # runes t) ss))"
    using valid [of s] rest [of ss] by (auto simp: path)
  ultimately have "runes (join_path path) = runes s @ concat (map (\<lambda>t. 0x1f # runes t) ss)"
    using runes_encode by simp
  then show ?thesis using split [of s ss "[]"] by (simp add: splitBranchPath_def path)
qed

lemma join_path_empty: "join_path path = [] \<longleftrightarrow> path = [] \<or> path = [[]]"
  by (cases path; cases "tl path") (auto simp: join_path_def)

lemma PathForNode_branch:
  assumes "path_ok path"
  shows "PathForNode (BranchNodeID path i) = Some path"
proof -
  have ne: "path \<noteq> []" "join_path path \<noteq> []" "0x1e \<notin> set (join_path path)"
      "splitBranchPath (join_path path) = path"
    using assms join_path_chars [of path] splitBranchPath_join [of path]
    by (auto simp: path_ok_def join_path_empty list_all_iff)
  then show ?thesis
    by (cases i) (auto simp: BranchNodeID_eq PathForNode_def branch_suffix_def branchItemIDSeparator_def Cut_at Cut_absent)
qed

section \<open>What a call does to the address space\<close>

text \<open>
  The address space moves by its own operations only, and its source nodes stay within the budget
  or do not grow.
\<close>

definition within_budget :: "(Variant \<Rightarrow> gostring) \<Rightarrow> int \<Rightarrow> AddressSpace \<Rightarrow> AddressSpace \<Rightarrow> bool" where
  "within_budget format m s t \<longleftrightarrow> (space_step format)\<^sup>*\<^sup>* s t \<and>
     (space_inv s \<longrightarrow> SourceNodeCount t \<le> max (max m 0) (SourceNodeCount s))"

lemma within_budget_refl [intro, simp]: "within_budget format m s s"
  by (simp add: within_budget_def)

lemma within_budget_trans:
  assumes "within_budget format m s t" and "within_budget format m t u"
  shows "within_budget format m s u"
proof -
  have "space_inv s \<Longrightarrow> space_inv t"
    using assms(1) space_machine.steps_inv [of format s t] by (simp add: within_budget_def)
  then show ?thesis using assms by (fastforce simp: within_budget_def)
qed

lemma within_budget_step:
  "space_step format s t \<Longrightarrow> (space_inv s \<Longrightarrow> SourceNodeCount t \<le> max (max m 0) (SourceNodeCount s)) \<Longrightarrow>
     within_budget format m s t"
  by (simp add: within_budget_def step_once)

lemma scan_within: "within_budget format m s (NoteScanRate i rate s)"
  by (rule within_budget_step [OF space_step.rate])
    (auto simp: NoteScanRate_def put_count split: option.split)

lemma attach_within:
  "AttachItemProperties i available eu m s = (er, t) \<Longrightarrow> within_budget format m s t"
  by (rule within_budget_step, metis space_step.attach snd_conv) (rule attach_count(1))

lemma populate_within:
  assumes "PopulateBranch path entries s = (er, t)" and "SourceNodeCount s + int (length entries) \<le> m"
  shows "within_budget format m s t"
proof (rule within_budget_step)
  show "space_step format s t" by (metis assms(1) space_step.populate snd_conv)
  show "space_inv s \<Longrightarrow> SourceNodeCount t \<le> max (max m 0) (SourceNodeCount s)"
    using populate_count [of s path entries] assms by simp
qed

lemma facts_within:
  "itemFactsLoop i zs eu s = (eu', t) \<Longrightarrow> within_budget format m s t"
proof (induction i zs eu s rule: itemFactsLoop.induct)
  case (2 i wanted v rest eu s)
  define s1 where "s1 = (if pvOK v \<and> pvValuePresent v \<and> wanted \<noteq> PropertyEUType \<and> wanted = PropertyScanRate
    then case scanRateMilliseconds (pvValue v) of Some rate \<Rightarrow> NoteScanRate i rate s | None \<Rightarrow> s else s)"
  have "within_budget format m s s1" by (auto simp: s1_def scan_within split: option.split)
  moreover have "within_budget format m s1 t" using 2 by (auto simp: s1_def split: if_splits)
  ultimately show ?case by (rule within_budget_trans)
qed simp

lemma readItemFacts_within:
  "readItemFacts rt i wanted (s, w) = (eu, t, w') \<Longrightarrow> within_budget format m s t"
  by (auto simp: readItemFacts_def Let_def dest: facts_within split: prod.splits sum.splits if_splits)

text \<open>What the work of a call promises to the protocol around it.\<close>

definition populating_ok ::
  "(Variant \<Rightarrow> gostring) \<Rightarrow> gostring \<Rightarrow> gotime \<Rightarrow> ('w populating \<Rightarrow> population_error option \<times> 'w populating) \<Rightarrow> bool" where
  "populating_ok format key now work \<longleftrightarrow> (\<forall>p s w er p' s' w'. work (p, s, w) = (er, p', s', w') \<longrightarrow>
     p' = (if er = None then recordBrowsed key now p else p) \<and> within_budget format (plMaxNodes (poLimits p)) s s')"

lemma browse_ok: "populating_ok format key now (populator_browse rt path key now)"
  by (auto simp: populating_ok_def populator_browse_def intro: populate_within split: prod.splits sum.splits if_splits option.splits)

lemma discover_ok: "populating_ok format key now (discoverItemProperties rt i key now)"
  by (auto simp: populating_ok_def discoverItemProperties_def Let_def
      intro: attach_within within_budget_trans [OF readItemFacts_within attach_within]
      split: prod.splits sum.splits if_splits option.splits)

lemma lookups_keep [simp]:
  "browsed (leaveEnsure key p) = browsed p" "poLimits (leaveEnsure key p) = poLimits p"
  "browsed (recordBrowsed key now p) = (browsed p)(key \<mapsto> now)" "poLimits (recordBrowsed key now p) = poLimits p"
  "inflight (recordBrowsed key now p) = inflight p" "inflight (leaveEnsure key p) = (inflight p)(key := None)"
  by (simp_all add: leaveEnsure_def recordBrowsed_def)

lemma ensure_exact:
  assumes "ensure await work key now ch (p, s, w) = (er, p', s', w')" and "populating_ok format key now work"
    and "inflight p key = None" and "0 < RefreshInterval (poLimits p)"
  shows "within_budget format (plMaxNodes (poLimits p)) s s' \<and> inflight p' = inflight p \<and> poLimits p' = poLimits p \<and>
    (if er = None then recentlyBrowsed key now p' else browsed p' = browsed p) \<and>
    (w' = w \<or> (\<exists>p. (er, w') = (case work (p, s, w) of (er, p, s, w) \<Rightarrow> (er, w))))"
proof (cases "recentlyBrowsed key now p")
  case True
  then show ?thesis using assms(1) by (auto simp: ensure_def enterEnsure_def)
next
  case False
  define q where "q = p\<lparr>inflight := (inflight p)(key \<mapsto> ch)\<rparr>"
  obtain p1 where r: "work (q, s, w) = (er, p1, s', w')" "p' = leaveEnsure key p1"
    using False assms(1,3) by (auto simp: ensure_def enterEnsure_def q_def split: prod.splits)
  have ok: "p1 = (if er = None then recordBrowsed key now q else q)"
      "within_budget format (plMaxNodes (poLimits q)) s s'"
    using assms(2) r(1) unfolding populating_ok_def by blast+
  have "inflight p' = inflight p" using ok(1) r(2) assms(3) by (auto simp: q_def)
  moreover have "recentlyBrowsed key now p'" if "er = None"
    using that ok(1) r(2) assms(4) by (simp add: recentlyBrowsed_def q_def)
  moreover have "\<exists>p. (er, w') = (case work (p, s, w) of (er, p, s, w) \<Rightarrow> (er, w))" using r(1) by (intro exI [of _ q]) simp
  ultimately show ?thesis using ok r(2) by (auto simp: q_def)
qed

section \<open>Many callers\<close>

text \<open>
  The callers of one populator, whatever they ask for. A caller is in one of the places where
  another may run: it asks the source and owns a channel, it has taken its key out of the map
  and not yet closed its channel, it waits on a channel, or it has returned, with success or not.
\<close>

datatype ensure_phase = Asking gostring gotime nat | Leaving nat | Waiting gostring gotime nat | Returned bool

record flight =
  fPopulator :: Populator
  callers :: "nat \<rightharpoonup> ensure_phase"
  closedChannels :: "nat set"
  nextChannel :: nat

definition entered :: "gostring \<Rightarrow> gotime \<Rightarrow> nat \<Rightarrow> ensure_decision \<Rightarrow> ensure_phase" where
  "entered key now ch decision = (case decision of
       Fresh \<Rightarrow> Returned True | Wait waiting \<Rightarrow> Waiting key now waiting | Run \<Rightarrow> Asking key now ch)"

text \<open>\<open>cancels\<close> says whether the context of a waiting caller may end.\<close>

inductive flight_step :: "bool \<Rightarrow> flight \<Rightarrow> flight \<Rightarrow> bool" for cancels where
  enter: "callers f c = None \<Longrightarrow> enterEnsure key now (nextChannel f) (fPopulator f) = (decision, p) \<Longrightarrow>
    flight_step cancels f (f\<lparr>fPopulator := p, nextChannel := Suc (nextChannel f),
      callers := (callers f)(c \<mapsto> entered key now (nextChannel f) decision)\<rparr>)"
| record_it: "callers f c = Some (Asking key now ch) \<Longrightarrow>
    flight_step cancels f (f\<lparr>fPopulator := recordBrowsed key now (fPopulator f)\<rparr>)"
| leave: "callers f c = Some (Asking key now ch) \<Longrightarrow>
    flight_step cancels f (f\<lparr>fPopulator := leaveEnsure key (fPopulator f), callers := (callers f)(c \<mapsto> Leaving ch)\<rparr>)"
| close: "callers f c = Some (Leaving ch) \<Longrightarrow>
    flight_step cancels f (f\<lparr>closedChannels := insert ch (closedChannels f), callers := (callers f)(c \<mapsto> Returned ok)\<rparr>)"
| wake: "callers f c = Some (Waiting key now ch) \<Longrightarrow> ch \<in> closedChannels f \<Longrightarrow>
    flight_step cancels f (f\<lparr>callers := (callers f)(c \<mapsto> Returned (recentlyBrowsed key now (fPopulator f)))\<rparr>)"
| cancel: "cancels \<Longrightarrow> callers f c = Some (Waiting key now ch) \<Longrightarrow>
    flight_step cancels f (f\<lparr>callers := (callers f)(c \<mapsto> Returned False)\<rparr>)"
| invalidated: "flight_step cancels f (f\<lparr>fPopulator := Invalidate (fPopulator f)\<rparr>)"

inductive_cases flight_stepE: "flight_step cancels f g"

definition flight_start :: "flight \<Rightarrow> bool" where
  "flight_start f \<longleftrightarrow> (\<exists>limits. NewPopulator limits = Inr (fPopulator f)) \<and> callers f = Map.empty \<and> closedChannels f = {}"

text \<open>The channel a caller owns, and the one it waits on.\<close>

fun owned :: "ensure_phase option \<Rightarrow> nat option" where
  "owned (Some (Asking key now ch)) = Some ch"
| "owned (Some (Leaving ch)) = Some ch"
| "owned _ = None"

definition keys_inv :: "(gostring \<rightharpoonup> nat) \<Rightarrow> (nat \<rightharpoonup> ensure_phase) \<Rightarrow> bool" where
  "keys_inv running cs \<longleftrightarrow> (\<forall>c key now ch. cs c = Some (Asking key now ch) \<longrightarrow> running key = Some ch) \<and>
     (\<forall>key ch. running key = Some ch \<longrightarrow> (\<exists>c now. cs c = Some (Asking key now ch)))"

definition owners_inv :: "nat \<Rightarrow> nat set \<Rightarrow> (nat \<rightharpoonup> ensure_phase) \<Rightarrow> bool" where
  "owners_inv next closed cs \<longleftrightarrow>
     (\<forall>c ch. owned (cs c) = Some ch \<longrightarrow> ch < next \<and> ch \<notin> closed \<and> (\<forall>d. owned (cs d) = Some ch \<longrightarrow> d = c)) \<and>
     (\<forall>ch \<in> closed. ch < next)"

definition waiters_inv :: "nat set \<Rightarrow> (nat \<rightharpoonup> ensure_phase) \<Rightarrow> bool" where
  "waiters_inv closed cs \<longleftrightarrow> (\<forall>c key now ch. cs c = Some (Waiting key now ch) \<longrightarrow>
     ch \<in> closed \<or> (\<exists>d. owned (cs d) = Some ch))"

definition flight_inv :: "flight \<Rightarrow> bool" where
  "flight_inv f \<longleftrightarrow> keys_inv (inflight (fPopulator f)) (callers f) \<and>
     owners_inv (nextChannel f) (closedChannels f) (callers f) \<and> waiters_inv (closedChannels f) (callers f)"

lemma owned_Some: "owned x = Some ch \<longleftrightarrow> (\<exists>key now. x = Some (Asking key now ch)) \<or> x = Some (Leaving ch)"
  by (cases x rule: owned.cases) auto

lemma keys_enter:
  "keys_inv run cs \<Longrightarrow> cs c = None \<Longrightarrow> run key = None \<Longrightarrow> keys_inv (run(key \<mapsto> ch)) (cs(c \<mapsto> Asking key now ch))"
  unfolding keys_inv_def by (auto split: if_splits) (metis option.distinct(1) fun_upd_apply)+

lemma keys_other:
  "keys_inv run cs \<Longrightarrow> (\<And>key now ch. cs c \<noteq> Some (Asking key now ch)) \<Longrightarrow> (\<And>key now ch. x \<noteq> Asking key now ch) \<Longrightarrow>
     keys_inv run (cs(c \<mapsto> x))"
  unfolding keys_inv_def by (auto split: if_splits) metis

lemma keys_leave:
  assumes "keys_inv run cs" "owners_inv n closed cs" "cs c = Some (Asking key now ch)"
  shows "keys_inv (run(key := None)) (cs(c \<mapsto> Leaving ch))"
proof -
  have "d = c" if "cs d = Some (Asking key now' ch')" for d now' ch'
  proof -
    have "ch' = ch" using assms(1,3) that unfolding keys_inv_def by (metis option.inject)
    then show ?thesis using assms(2,3) that unfolding owners_inv_def by (metis owned.simps(1))
  qed
  moreover have "\<exists>d now. d \<noteq> c \<and> cs d = Some (Asking k now ch')" if k: "k \<noteq> key" "run k = Some ch'" for k ch'
  proof -
    obtain d now' where "cs d = Some (Asking k now' ch')" using assms(1) k(2) unfolding keys_inv_def by blast
    then show ?thesis using assms(3) k(1) by (intro exI [of _ d] exI [of _ now']) auto
  qed
  ultimately show ?thesis using assms(1) unfolding keys_inv_def by (auto split: if_splits) blast
qed

lemma owners_same:
  "owners_inv n closed cs \<Longrightarrow> owned x = owned (cs c) \<or> owned x = None \<Longrightarrow> n \<le> m \<Longrightarrow> owners_inv m closed (cs(c := x))"
  unfolding owners_inv_def by (auto split: if_splits) (metis order_less_le_trans)+

lemma owners_enter:
  "owners_inv n closed cs \<Longrightarrow> owned (cs c) = None \<Longrightarrow> owned x = Some n \<Longrightarrow> owners_inv (Suc n) closed (cs(c := x))"
  unfolding owners_inv_def by (auto split: if_splits simp: less_Suc_eq)

lemma owners_close:
  "owners_inv n closed cs \<Longrightarrow> owned (cs c) = Some ch \<Longrightarrow> owned x = None \<Longrightarrow> owners_inv n (insert ch closed) (cs(c := x))"
  unfolding owners_inv_def by (auto split: if_splits)

lemma waiters_same:
  "waiters_inv closed cs \<Longrightarrow> owned x = owned (cs c) \<or> owned (cs c) = None \<Longrightarrow>
     (\<And>key now ch. x = Some (Waiting key now ch) \<Longrightarrow> ch \<in> closed \<or> (\<exists>d. d \<noteq> c \<and> owned (cs d) = Some ch)) \<Longrightarrow>
     waiters_inv closed (cs(c := x))"
  unfolding waiters_inv_def by (auto split: if_splits) (metis option.distinct(1))+

lemma waiters_close:
  "waiters_inv closed cs \<Longrightarrow> owned (cs c) = Some ch \<Longrightarrow> x \<noteq> None \<Longrightarrow> (\<And>key now ch. x \<noteq> Some (Waiting key now ch)) \<Longrightarrow>
     waiters_inv (insert ch closed) (cs(c := x))"
  unfolding waiters_inv_def by (auto split: if_splits) (metis option.inject)+

lemma returned_inv:
  assumes "flight_inv f" and "owned (callers f c) = None" and "nextChannel f \<le> m"
  shows "flight_inv (f\<lparr>nextChannel := m, callers := (callers f)(c \<mapsto> Returned b)\<rparr>)"
proof -
  have "callers f c \<noteq> Some (Asking key now ch)" for key now ch using assms(2) by auto
  then show ?thesis
    using assms keys_other [of "inflight (fPopulator f)" "callers f" c "Returned b"]
      owners_same [of "nextChannel f" "closedChannels f" "callers f" "Some (Returned b)" c m]
      waiters_same [of "closedChannels f" "callers f" "Some (Returned b)" c]
    by (simp add: flight_inv_def)
qed

lemma enter_inv:
  assumes inv: "flight_inv f" and new: "callers f c = None"
    and e: "enterEnsure key now (nextChannel f) (fPopulator f) = (decision, p)"
  shows "flight_inv (f\<lparr>fPopulator := p, nextChannel := Suc (nextChannel f),
    callers := (callers f)(c \<mapsto> entered key now (nextChannel f) decision)\<rparr>)"
proof -
  have i: "keys_inv (inflight (fPopulator f)) (callers f)" "owners_inv (nextChannel f) (closedChannels f) (callers f)"
      "waiters_inv (closedChannels f) (callers f)"
    using inv by (simp_all add: flight_inv_def)
  have none: "owned (callers f c) = None" by (simp add: new)
  consider "decision = Fresh" "p = fPopulator f"
    | ch where "decision = Wait ch" "p = fPopulator f" "inflight (fPopulator f) key = Some ch"
    | "decision = Run" "p = (fPopulator f)\<lparr>inflight := (inflight (fPopulator f))(key \<mapsto> nextChannel f)\<rparr>"
      "inflight (fPopulator f) key = None"
    using e by (auto simp: enterEnsure_def split: if_splits option.splits)
  then show ?thesis
  proof cases
    case 1
    then show ?thesis using returned_inv [OF inv none, of "Suc (nextChannel f)" True] by (simp add: entered_def)
  next
    case 2
    then obtain d now' where d: "callers f d = Some (Asking key now' ch)"
      using i(1) unfolding keys_inv_def by blast
    then have "d \<noteq> c" "owned (callers f d) = Some ch" using new by auto
    then have "waiters_inv (closedChannels f) ((callers f)(c \<mapsto> Waiting key now ch))"
      by (intro waiters_same [OF i(3)]) (auto simp: none)
    then show ?thesis using 2 keys_other [OF i(1), of c "Waiting key now ch"]
        owners_same [OF i(2), of "Some (Waiting key now ch)" c] new
      by (simp add: flight_inv_def entered_def)
  next
    case 3
    then show ?thesis using keys_enter [OF i(1) new] owners_enter [OF i(2) none]
        waiters_same [OF i(3), of "Some (Asking key now (nextChannel f))" c] none
      by (simp add: flight_inv_def entered_def)
  qed
qed

lemma flight_step_inv: "flight_step cancels f g \<Longrightarrow> flight_inv f \<Longrightarrow> flight_inv g"
proof (induction rule: flight_step.induct)
  case (enter f c key now decision p)
  then show ?case using enter_inv by blast
next
  case (record_it f c key now ch)
  then show ?case by (simp add: flight_inv_def)
next
  case (leave f c key now ch)
  then show ?case
    using keys_leave [of "inflight (fPopulator f)" "callers f" _ _ c] owners_same [of _ _ "callers f" "Some (Leaving ch)" c]
      waiters_same [of _ "callers f" "Some (Leaving ch)" c] by (auto simp: flight_inv_def)
next
  case (close f c ch ok)
  then show ?case
    using keys_other [of "inflight (fPopulator f)" "callers f" c "Returned ok"]
      owners_close [of _ _ "callers f" c ch "Some (Returned ok)"] waiters_close [of _ "callers f" c ch "Some (Returned ok)"]
    by (simp add: flight_inv_def)
next
  case (wake f c key now ch)
  then show ?case using returned_inv [of f c "nextChannel f"] by simp
next
  case (cancel f c key now ch)
  then show ?case using returned_inv [of f c "nextChannel f"] by simp
next
  case (invalidated f)
  then show ?case by (simp add: flight_inv_def Invalidate_def)
qed

interpretation flight_machine: state_machine flight_start "flight_step cancels" flight_inv for cancels
proof unfold_locales
  show "flight_start f \<Longrightarrow> flight_inv f" for f
    by (cases f) (auto simp: flight_start_def NewPopulator_def flight_inv_def keys_inv_def owners_inv_def waiters_inv_def
        split: option.splits)
  show "flight_inv f \<Longrightarrow> flight_step cancels f g \<Longrightarrow> flight_inv g" for f g by (rule flight_step_inv)
qed

section \<open>Properties\<close>

definition wakes :: "flight \<Rightarrow> nat \<Rightarrow> bool" where
  "wakes f c \<longleftrightarrow> (\<exists>g ok. (flight_step False)\<^sup>*\<^sup>* f g \<and> callers g c = Some (Returned ok))"

lemma wakes_step: "flight_step False f g \<Longrightarrow> wakes g c \<Longrightarrow> wakes f c"
  unfolding wakes_def by (meson converse_rtranclp_into_rtranclp)

lemma wakes_closed:
  assumes "callers f c = Some (Waiting key now ch)" and "ch \<in> closedChannels f"
  shows "wakes f c"
proof (rule wakes_step)
  show "flight_step False f (f\<lparr>callers := (callers f)(c \<mapsto> Returned (recentlyBrowsed key now (fPopulator f)))\<rparr>)"
    by (rule flight_step.wake [OF assms])
  show "wakes (f\<lparr>callers := (callers f)(c \<mapsto> Returned (recentlyBrowsed key now (fPopulator f)))\<rparr>) c"
    unfolding wakes_def by (intro exI) (rule conjI, rule rtranclp.rtrancl_refl, simp)
qed

lemma wakes_leaving:
  assumes "callers f c = Some (Waiting key now ch)" and "callers f d = Some (Leaving ch)"
  shows "wakes f c"
proof (rule wakes_step)
  show "flight_step False f (f\<lparr>closedChannels := insert ch (closedChannels f), callers := (callers f)(d \<mapsto> Returned True)\<rparr>)"
    by (rule flight_step.close [OF assms(2)])
  have "c \<noteq> d" using assms by auto
  then show "wakes (f\<lparr>closedChannels := insert ch (closedChannels f), callers := (callers f)(d \<mapsto> Returned True)\<rparr>) c"
    using assms by (intro wakes_closed) auto
qed

lemma wakes_asking:
  assumes "callers f c = Some (Waiting key now ch)" and "callers f d = Some (Asking key' now' ch)"
  shows "wakes f c"
proof (rule wakes_step)
  show "flight_step False f (f\<lparr>fPopulator := leaveEnsure key' (fPopulator f), callers := (callers f)(d \<mapsto> Leaving ch)\<rparr>)"
    by (rule flight_step.leave [OF assms(2)])
  have "c \<noteq> d" using assms by auto
  then show "wakes (f\<lparr>fPopulator := leaveEnsure key' (fPopulator f), callers := (callers f)(d \<mapsto> Leaving ch)\<rparr>) c"
    using assms by (intro wakes_leaving) auto
qed

text \<open>Claim C24: however the callers of the populator interleave, and whatever becomes of their calls
  on the source, at most one of them asks the source about a key at a time, and a caller that
  waits is never stranded: there is a continuation, in which no context ends, that wakes it.\<close>

theorem population_single_flight:
  assumes "reachable flight_start (flight_step cancels) f"
  shows "(\<forall>c d key now ch now' ch'. callers f c = Some (Asking key now ch) \<longrightarrow>
      callers f d = Some (Asking key now' ch') \<longrightarrow> c = d) \<and>
    (\<forall>c key now ch. callers f c = Some (Waiting key now ch) \<longrightarrow>
      (\<exists>g ok. (flight_step False)\<^sup>*\<^sup>* f g \<and> callers g c = Some (Returned ok)))"
proof -
  have inv: "keys_inv (inflight (fPopulator f)) (callers f)" "owners_inv (nextChannel f) (closedChannels f) (callers f)"
      "waiters_inv (closedChannels f) (callers f)"
    using flight_machine.reachable_inv [OF assms] by (simp_all add: flight_inv_def)
  have "c = d" if "callers f c = Some (Asking key now ch)" "callers f d = Some (Asking key now' ch')" for c d key now ch now' ch'
  proof -
    have "ch' = ch" using inv(1) that unfolding keys_inv_def by (metis option.inject)
    then show ?thesis using inv(2) that unfolding owners_inv_def by (metis owned.simps(1))
  qed
  moreover have "wakes f c" if w: "callers f c = Some (Waiting key now ch)" for c key now ch
  proof -
    have "ch \<in> closedChannels f \<or> (\<exists>d. owned (callers f d) = Some ch)" using inv(3) w unfolding waiters_inv_def by blast
    then show ?thesis using wakes_closed [OF w] wakes_leaving [OF w] wakes_asking [OF w] by (auto simp: owned_Some)
  qed
  ultimately show ?thesis unfolding wakes_def by blast
qed

definition flight_sample :: flight where
  "flight_sample = \<lparr>fPopulator = \<lparr>poLimits = DefaultPopulationLimits, browsed = Map.empty, inflight = Map.empty\<rparr>,
     callers = Map.empty, closedChannels = {}, nextChannel = 0\<rparr>"

definition flight_waiting :: flight where
  "flight_waiting = \<lparr>fPopulator = \<lparr>poLimits = DefaultPopulationLimits, browsed = Map.empty, inflight = [[97] \<mapsto> 0]\<rparr>,
     callers = [0 \<mapsto> Asking [97] 5 0, 1 \<mapsto> Waiting [97] 6 0], closedChannels = {}, nextChannel = 2\<rparr>"

theorem population_single_flight_witness:
  "callers flight_waiting 1 = Some (Waiting [97] 6 0) \<and>
   (\<exists>g ok. (flight_step False)\<^sup>*\<^sup>* flight_waiting g \<and> callers g 1 = Some (Returned ok))"
proof -
  define f1 where "f1 = flight_sample\<lparr>fPopulator := \<lparr>poLimits = DefaultPopulationLimits, browsed = Map.empty, inflight = [[97] \<mapsto> 0]\<rparr>,
    nextChannel := 1, callers := [0 \<mapsto> Asking [97] 5 0]\<rparr>"
  have "flight_start flight_sample"
    unfolding flight_start_def
    by (intro conjI exI [of _ DefaultPopulationLimits])
      (simp_all add: flight_sample_def NewPopulator_def PopulationLimits_validate_def DefaultPopulationLimits_def)
  then have 0: "reachable flight_start (flight_step True) flight_sample" by (rule reachable.initial)
  have "flight_step True flight_sample f1"
    using flight_step.enter [of flight_sample 0 "[97]" 5 Run
        "\<lparr>poLimits = DefaultPopulationLimits, browsed = Map.empty, inflight = [[97] \<mapsto> 0]\<rparr>" True]
    by (simp add: f1_def flight_sample_def enterEnsure_def recentlyBrowsed_def entered_def)
  with 0 have 1: "reachable flight_start (flight_step True) f1" by (rule reachable.later)
  have "flight_step True f1 flight_waiting"
    using flight_step.enter [of f1 1 "[97]" 6 "Wait 0" "fPopulator f1" True]
    by (simp add: f1_def flight_sample_def flight_waiting_def enterEnsure_def recentlyBrowsed_def entered_def numeral_2_eq_2)
  with 1 have "reachable flight_start (flight_step True) flight_waiting" by (rule reachable.later)
  moreover have w: "callers flight_waiting 1 = Some (Waiting [97] 6 0)" by (simp add: flight_waiting_def)
  ultimately show ?thesis using population_single_flight by blast
qed

text \<open>A request of the populator, its key and the operation that serves it.\<close>

datatype population_request = BranchOf "gostring list" | PropertiesOf DAItemID

primrec request_key :: "population_request \<Rightarrow> gostring" where
  "request_key (BranchOf path) = pathKey path"
| "request_key (PropertiesOf itemID) = itemPropertiesKey itemID"

primrec request_fits :: "Populator \<Rightarrow> population_request \<Rightarrow> bool" where
  "request_fits p (BranchOf path) \<longleftrightarrow> int (length path) \<le> MaxDepth (poLimits p)"
| "request_fits p (PropertiesOf itemID) \<longleftrightarrow> True"

primrec Ensure ::
  "(nat \<Rightarrow> 'w populating \<Rightarrow> 'w populating option) \<Rightarrow> 'w Runtime \<Rightarrow> gotime \<Rightarrow> nat \<Rightarrow> population_request \<Rightarrow>
     'w populating \<Rightarrow> population_error option \<times> 'w populating" where
  "Ensure await rt now ch (BranchOf path) = EnsureBranch await rt path now ch"
| "Ensure await rt now ch (PropertiesOf itemID) = EnsureItemProperties await rt itemID now ch"

lemma Ensure_ensure:
  "\<exists>work. populating_ok format (request_key r) now work \<and>
     (\<forall>p s w. Ensure await rt now ch r (p, s, w) =
       (if request_fits p r then ensure await work (request_key r) now ch (p, s, w)
        else (Some (Coded StatusBadTooManyOperations), p, s, w)))"
proof (cases r)
  case (BranchOf path)
  then show ?thesis using browse_ok by (fastforce simp: EnsureBranch_def Let_def)
next
  case (PropertiesOf i)
  then show ?thesis using discover_ok by (fastforce simp: EnsureItemProperties_def Let_def)
qed

lemma Ensure_exact:
  assumes "Ensure await rt now ch r (p, s, w) = (er, p', s', w')" and "inflight p (request_key r) = None"
    and "0 < RefreshInterval (poLimits p)"
  shows "within_budget format (plMaxNodes (poLimits p)) s s' \<and> inflight p' = inflight p \<and> poLimits p' = poLimits p \<and>
    (if er = None then recentlyBrowsed (request_key r) now p' \<and> request_fits p r else browsed p' = browsed p)"
proof -
  from Ensure_ensure [of format r now await rt ch] obtain work where
      work: "populating_ok format (request_key r) now work" and
      runs: "\<forall>p s w. Ensure await rt now ch r (p, s, w) =
       (if request_fits p r then ensure await work (request_key r) now ch (p, s, w)
        else (Some (Coded StatusBadTooManyOperations), p, s, w))"
    by (elim exE conjE)
  then show ?thesis using ensure_exact [OF _ work assms(2,3)] assms(1) runs by (auto split: if_splits)
qed

lemma ensure_recent: "recentlyBrowsed key now p \<Longrightarrow> ensure await work key now ch (p, s, w) = (None, p, s, w)"
  by (simp add: ensure_def enterEnsure_def)

text \<open>Claim C25: filling the address space on demand is bounded and remembered. A call for a branch or
  for the properties of an item, with nobody else asking for the same key, leaves a space that
  the operations of the address space can reach, never takes its source nodes above the budget,
  and takes its entry out of the map of running calls. A call that succeeds leaves the key
  recently browsed, and until that expires any further call answers at once, changes nothing
  and does not reach the source. A call that fails is not remembered.\<close>

theorem population_bounded:
  assumes "reachable space_start (space_step format) s" and "PopulationLimits_validate (poLimits p) = None"
    and "SourceNodeCount s \<le> plMaxNodes (poLimits p)" and "inflight p (request_key r) = None"
    and "Ensure await rt now ch r (p, s, w) = (er, p', s', w')"
  shows "reachable space_start (space_step format) s' \<and> SourceNodeCount s' \<le> plMaxNodes (poLimits p) \<and>
    inflight p' = inflight p \<and>
    (er \<noteq> None \<longrightarrow> browsed p' = browsed p) \<and>
    (er = None \<longrightarrow> recentlyBrowsed (request_key r) now p' \<and>
      (\<forall>await' rt' now' ch'. recentlyBrowsed (request_key r) now' p' \<longrightarrow>
         Ensure await' rt' now' ch' r (p', s', w') = (None, p', s', w')))"
proof -
  have limits: "0 < RefreshInterval (poLimits p)" "0 < plMaxNodes (poLimits p)"
    using assms(2) by (auto simp: PopulationLimits_validate_def split: if_splits)
  note main = Ensure_exact [OF assms(5,4) limits(1), of format]
  have inv: "space_inv s" using assms(1) by (rule space_machine.reachable_inv)
  have "reachable space_start (space_step format) s'"
    using main assms(1) unfolding within_budget_def space_machine.reachable_steps by (meson rtranclp_trans)
  moreover have "SourceNodeCount s' \<le> plMaxNodes (poLimits p)"
    using main inv assms(3) limits by (auto simp: within_budget_def)
  moreover have "Ensure await' rt' now' ch' r (p', s', w') = (None, p', s', w')"
    if "er = None" "recentlyBrowsed (request_key r) now' p'" for await' rt' now' ch'
  proof -
    have "request_fits p' r" using that(1) main by (cases r) auto
    then show ?thesis
      using Ensure_ensure [of format r now' await' rt' ch'] ensure_recent [OF that(2)] by auto
  qed
  ultimately show ?thesis using main by auto
qed

definition populator_sample :: Populator where
  "populator_sample = fPopulator flight_sample"

theorem population_bounded_witness:
  "\<exists>p' s' w'. Ensure (\<lambda>_ _. None) offline 7 0 (BranchOf []) (populator_sample, space_sample, ())
      = (Some (FromRuntime (AdapterError CodeRuntimeUnavailable)), p', s', w') \<and>
     SourceNodeCount s' \<le> 50000 \<and> browsed p' = Map.empty"
proof -
  obtain er p' s' w' where r: "Ensure (\<lambda>_ _. None) offline 7 0 (BranchOf []) (populator_sample, space_sample, ()) = (er, p', s', w')"
    by (metis surj_pair)
  have er: "er = Some (FromRuntime (AdapterError CodeRuntimeUnavailable))"
    using r by (auto simp: EnsureBranch_def Let_def ensure_def enterEnsure_def recentlyBrowsed_def populator_sample_def flight_sample_def
        DefaultPopulationLimits_def populator_browse_def offline_def split: prod.splits)
  have ok: "PopulationLimits_validate (poLimits populator_sample) = None" "inflight populator_sample (request_key (BranchOf [])) = None"
      "plMaxNodes (poLimits populator_sample) = 50000" "browsed populator_sample = Map.empty"
    by (simp_all add: populator_sample_def flight_sample_def PopulationLimits_validate_def DefaultPopulationLimits_def)
  have "SourceNodeCount space_sample \<le> plMaxNodes (poLimits populator_sample)"
    using new_space_inv(2) [OF space_sample_new] ok(3) by simp
  from population_bounded [OF space_sample_reachable ok(1) this ok(2) r] show ?thesis
    using r er ok by auto
qed

end
