(* ===== verification/BrowseMessages.thy ===== *)
theory BrowseMessages
  imports DataAccessMessages
begin

text \<open>
  The messages of the Browse and BrowseNext services, from \<^verbatim>\<open>src/internal/opcua/browse.go\<close>.
\<close>

definition BrowseRequestEncodingID :: uint32 where "BrowseRequestEncodingID = 527"
definition BrowseResponseEncodingID :: uint32 where "BrowseResponseEncodingID = 530"
definition BrowseNextRequestEncodingID :: uint32 where "BrowseNextRequestEncodingID = 533"
definition BrowseNextResponseEncodingID :: uint32 where "BrowseNextResponseEncodingID = 536"

type_synonym BrowseDirection = int32

definition BrowseDirectionForward :: BrowseDirection where "BrowseDirectionForward = 0"
definition BrowseDirectionInverse :: BrowseDirection where "BrowseDirectionInverse = 1"
definition BrowseDirectionBoth :: BrowseDirection where "BrowseDirectionBoth = 2"
definition BrowseDirectionInvalid :: BrowseDirection where "BrowseDirectionInvalid = 3"

definition BrowseDirection_Valid :: "BrowseDirection \<Rightarrow> bool" where
  "BrowseDirection_Valid d \<longleftrightarrow> sint BrowseDirectionForward \<le> sint d \<and> sint d \<le> sint BrowseDirectionBoth"

record ViewDescription =
  ViewID :: NodeID
  vdTimestamp :: gotime
  ViewVersion :: uint32

record BrowseDescription =
  bdNodeID :: NodeID
  bdBrowseDirection :: int32
  bdReferenceTypeID :: NodeID
  IncludeSubtypes :: bool
  NodeClassMask :: uint32
  ResultMask :: uint32

record ReferenceDescription =
  rdReferenceTypeID :: NodeID
  rdIsForward :: bool
  rdNodeID :: ExpandedNodeID
  rdBrowseName :: QualifiedName
  rdDisplayName :: LocalizedText
  rdNodeClass :: int32
  rdTypeDefinition :: ExpandedNodeID

record BrowseResult =
  brStatusCode :: StatusCode
  brContinuationPoint :: "byte list"
  brReferences :: "ReferenceDescription list"

record BrowseRequest =
  bqHeader :: RequestHeader
  bqView :: ViewDescription
  RequestedMaxReferencesPerNode :: uint32
  NodesToBrowse :: "BrowseDescription list"

record BrowseResponse =
  bpHeader :: ResponseHeader
  bpResults :: "BrowseResult list"
  bpDiagnostics :: "DiagnosticInfo list"

record BrowseNextRequest =
  nqHeader :: RequestHeader
  ReleaseContinuationPoints :: bool
  ContinuationPoints :: "byte list list"

record BrowseNextResponse =
  npHeader :: ResponseHeader
  npResults :: "BrowseResult list"
  npDiagnostics :: "DiagnosticInfo list"

definition WriteViewDescription :: "ViewDescription \<Rightarrow> Encoder \<Rightarrow> Encoder" where
  "WriteViewDescription v = seqw
     [WriteNodeID (ViewID v), WriteDateTime (vdTimestamp v), WriteUInt32 (ViewVersion v)]"

definition ReadViewDescription :: "ViewDescription reader" where
  "ReadViewDescription =
     rbind ReadNodeID (\<lambda>viewID.
     rbind ReadDateTime (\<lambda>timestamp.
     rbind ReadUInt32 (\<lambda>viewVersion.
     rreturn \<lparr>ViewID = viewID, vdTimestamp = timestamp, ViewVersion = viewVersion\<rparr>)))"

definition WriteBrowseDescription :: "BrowseDescription \<Rightarrow> Encoder \<Rightarrow> Encoder" where
  "WriteBrowseDescription v = seqw
     [WriteNodeID (bdNodeID v), WriteInt32 (bdBrowseDirection v),
      WriteNodeID (bdReferenceTypeID v), WriteBoolean (IncludeSubtypes v),
      WriteUInt32 (NodeClassMask v), WriteUInt32 (ResultMask v)]"

definition ReadBrowseDescription :: "BrowseDescription reader" where
  "ReadBrowseDescription =
     rbind ReadNodeID (\<lambda>nodeID.
     rbind ReadInt32 (\<lambda>browseDirection.
     rbind ReadNodeID (\<lambda>referenceTypeID.
     rbind ReadBoolean (\<lambda>includeSubtypes.
     rbind ReadUInt32 (\<lambda>nodeClassMask.
     rbind ReadUInt32 (\<lambda>resultMask.
     rreturn \<lparr>bdNodeID = nodeID, bdBrowseDirection = browseDirection,
       bdReferenceTypeID = referenceTypeID, IncludeSubtypes = includeSubtypes,
       NodeClassMask = nodeClassMask, ResultMask = resultMask\<rparr>))))))"

definition WriteReferenceDescription :: "ReferenceDescription \<Rightarrow> Encoder \<Rightarrow> Encoder" where
  "WriteReferenceDescription v = seqw
     [WriteNodeID (rdReferenceTypeID v), WriteBoolean (rdIsForward v),
      WriteExpandedNodeID (rdNodeID v), WriteQualifiedName (rdBrowseName v),
      WriteLocalizedText (rdDisplayName v), WriteInt32 (rdNodeClass v),
      WriteExpandedNodeID (rdTypeDefinition v)]"

definition ReadReferenceDescription :: "ReferenceDescription reader" where
  "ReadReferenceDescription =
     rbind ReadNodeID (\<lambda>referenceTypeID.
     rbind ReadBoolean (\<lambda>isForward.
     rbind ReadExpandedNodeID (\<lambda>nodeID.
     rbind ReadQualifiedName (\<lambda>browseName.
     rbind ReadLocalizedText (\<lambda>displayName.
     rbind ReadInt32 (\<lambda>nodeClass.
     rbind ReadExpandedNodeID (\<lambda>typeDefinition.
     rreturn \<lparr>rdReferenceTypeID = referenceTypeID, rdIsForward = isForward, rdNodeID = nodeID,
       rdBrowseName = browseName, rdDisplayName = displayName, rdNodeClass = nodeClass,
       rdTypeDefinition = typeDefinition\<rparr>)))))))"

definition WriteBrowseResult :: "BrowseResult \<Rightarrow> Encoder \<Rightarrow> Encoder" where
  "WriteBrowseResult v = seqw
     [WriteStatusCode (brStatusCode v), write_optional_bytes (brContinuationPoint v),
      write_array WriteReferenceDescription (brReferences v)]"

definition ReadBrowseResult :: "BrowseResult reader" where
  "ReadBrowseResult =
     rbind ReadStatusCode (\<lambda>statusCode.
     rbind (orEmpty ReadByteString) (\<lambda>continuationPoint.
     rbind (read_list 16 ReadReferenceDescription) (\<lambda>references.
     rreturn \<lparr>brStatusCode = statusCode, brContinuationPoint = continuationPoint,
       brReferences = references\<rparr>)))"

definition WriteBrowseRequest :: "BrowseRequest \<Rightarrow> Encoder \<Rightarrow> Encoder" where
  "WriteBrowseRequest v = seqw
     [WriteServiceTypeID BrowseRequestEncodingID, WriteRequestHeader (bqHeader v),
      WriteViewDescription (bqView v), WriteUInt32 (RequestedMaxReferencesPerNode v),
      write_array WriteBrowseDescription (NodesToBrowse v)]"

definition ReadBrowseRequest :: "BrowseRequest reader" where
  "ReadBrowseRequest =
     rbind ReadRequestHeader (\<lambda>header.
     rbind ReadViewDescription (\<lambda>view.
     rbind ReadUInt32 (\<lambda>requestedMaxReferencesPerNode.
     rbind (read_list 13 ReadBrowseDescription) (\<lambda>nodesToBrowse.
     rreturn \<lparr>bqHeader = header, bqView = view,
       RequestedMaxReferencesPerNode = requestedMaxReferencesPerNode,
       NodesToBrowse = nodesToBrowse\<rparr>))))"

definition writeBrowseResults :: "BrowseResult list \<Rightarrow> DiagnosticInfo list \<Rightarrow> Encoder \<Rightarrow> Encoder" where
  "writeBrowseResults results diagnostics = seqw
     [write_array WriteBrowseResult results, write_array WriteDiagnosticInfo diagnostics]"

definition readBrowseResults :: "(BrowseResult list \<times> DiagnosticInfo list) reader" where
  "readBrowseResults =
     rbind (read_list 9 ReadBrowseResult) (\<lambda>results.
     rbind (read_list 1 ReadDiagnosticInfo) (\<lambda>diagnostics.
     rreturn (results, diagnostics)))"

definition WriteBrowseResponse :: "BrowseResponse \<Rightarrow> Encoder \<Rightarrow> Encoder" where
  "WriteBrowseResponse v = seqw
     [WriteServiceTypeID BrowseResponseEncodingID, WriteResponseHeader (bpHeader v),
      write_array WriteBrowseResult (bpResults v),
      write_array WriteDiagnosticInfo (bpDiagnostics v)]"

definition ReadBrowseResponse :: "BrowseResponse reader" where
  "ReadBrowseResponse =
     rbind ReadResponseHeader (\<lambda>header.
     rbind readBrowseResults (\<lambda>(results, diagnostics).
     rreturn \<lparr>bpHeader = header, bpResults = results, bpDiagnostics = diagnostics\<rparr>))"

definition WriteBrowseNextRequest :: "BrowseNextRequest \<Rightarrow> Encoder \<Rightarrow> Encoder" where
  "WriteBrowseNextRequest v = seqw
     [WriteServiceTypeID BrowseNextRequestEncodingID, WriteRequestHeader (nqHeader v),
      WriteBoolean (ReleaseContinuationPoints v),
      write_array WriteByteString (ContinuationPoints v)]"

definition ReadBrowseNextRequest :: "BrowseNextRequest reader" where
  "ReadBrowseNextRequest =
     rbind ReadRequestHeader (\<lambda>header.
     rbind ReadBoolean (\<lambda>releaseContinuationPoints.
     rbind (read_list 4 (orEmpty ReadByteString)) (\<lambda>continuationPoints.
     rreturn \<lparr>nqHeader = header, ReleaseContinuationPoints = releaseContinuationPoints,
       ContinuationPoints = continuationPoints\<rparr>)))"

definition WriteBrowseNextResponse :: "BrowseNextResponse \<Rightarrow> Encoder \<Rightarrow> Encoder" where
  "WriteBrowseNextResponse v = seqw
     [WriteServiceTypeID BrowseNextResponseEncodingID, WriteResponseHeader (npHeader v),
      write_array WriteBrowseResult (npResults v),
      write_array WriteDiagnosticInfo (npDiagnostics v)]"

definition ReadBrowseNextResponse :: "BrowseNextResponse reader" where
  "ReadBrowseNextResponse =
     rbind ReadResponseHeader (\<lambda>header.
     rbind readBrowseResults (\<lambda>(results, diagnostics).
     rreturn \<lparr>npHeader = header, npResults = results, npDiagnostics = diagnostics\<rparr>))"

section \<open>Wire formats\<close>

interpretation bytestring_array: ua_array WriteByteString "orEmpty ReadByteString"
  lenbytes_wire bytestring_ok id 4
  by unfold_locales (simp add: lenbytes_wire_def)

lemmas bytestring_emits [emits_intros] = bytestring_array.array_emits
lemmas bytestring_steps [parses_steps] =
  bytestring_array.list_parses [unfolded list.map_id0 id_apply, THEN parses_rbind_last]

definition view_wire :: "ViewDescription \<Rightarrow> byte list" where
  "view_wire v = nodeid_wire 0 (ViewID v) @ le_bytes 8 (EncodeDateTime (vdTimestamp v)) @
     le_bytes 4 (ViewVersion v)"

definition view_ok :: "BinaryLimits \<Rightarrow> ViewDescription \<Rightarrow> bool" where
  "view_ok L v \<longleftrightarrow> nodeid_ok L (ViewID v)"

definition view_norm :: "ViewDescription \<Rightarrow> ViewDescription" where
  "view_norm v = v\<lparr>ViewID := nodeid_norm (ViewID v), vdTimestamp := datetime_norm (vdTimestamp v)\<rparr>"

interpretation view_codec: ua_codec WriteViewDescription ReadViewDescription
  view_wire view_ok view_norm
proof unfold_locales
  show "emits L (WriteViewDescription v) (view_ok L v) (view_wire v)" for L v
    unfolding WriteViewDescription_def
    by (rule emits_cong, (rule emits_intros)+) (auto simp: view_wire_def view_ok_def)
  show "parses L ReadViewDescription (view_wire v) (view_norm v)"
    if "validate_limits L = None" "view_ok L v" for L v
    unfolding ReadViewDescription_def view_wire_def
    by (intro parses_steps) (use that in \<open>simp_all add: view_ok_def view_norm_def\<close>)
  show "within ReadViewDescription"
    unfolding ReadViewDescription_def by (intro within_intros)
qed

lemmas view_emits [emits_intros] = view_codec.wr_emits
lemmas view_within [within_intros] = view_codec.rd_within
lemmas view_steps [parses_steps] =
  view_codec.rd_parses [THEN parses_rbind] view_codec.rd_parses [THEN parses_rbind_last]

definition browse_description_wire :: "BrowseDescription \<Rightarrow> byte list" where
  "browse_description_wire v = nodeid_wire 0 (bdNodeID v) @ le_bytes 4 (bdBrowseDirection v) @
     nodeid_wire 0 (bdReferenceTypeID v) @ bool_wire (IncludeSubtypes v) @
     le_bytes 4 (NodeClassMask v) @ le_bytes 4 (ResultMask v)"

definition browse_description_ok :: "BinaryLimits \<Rightarrow> BrowseDescription \<Rightarrow> bool" where
  "browse_description_ok L v \<longleftrightarrow> nodeid_ok L (bdNodeID v) \<and> nodeid_ok L (bdReferenceTypeID v)"

definition browse_description_norm :: "BrowseDescription \<Rightarrow> BrowseDescription" where
  "browse_description_norm v = v\<lparr>bdNodeID := nodeid_norm (bdNodeID v), bdReferenceTypeID := nodeid_norm (bdReferenceTypeID v)\<rparr>"

interpretation browse_description_array: ua_array WriteBrowseDescription ReadBrowseDescription
  browse_description_wire browse_description_ok browse_description_norm 13
proof unfold_locales
  show "emits L (WriteBrowseDescription v) (browse_description_ok L v) (browse_description_wire v)" for L v
    unfolding WriteBrowseDescription_def
    by (rule emits_cong, (rule emits_intros)+) (auto simp: browse_description_wire_def browse_description_ok_def)
  show "parses L ReadBrowseDescription (browse_description_wire v) (browse_description_norm v)"
    if "validate_limits L = None" "browse_description_ok L v" for L v
    unfolding ReadBrowseDescription_def browse_description_wire_def
    by (intro parses_steps) (use that in \<open>simp_all add: browse_description_ok_def browse_description_norm_def\<close>)
  show "within ReadBrowseDescription"
    unfolding ReadBrowseDescription_def by (intro within_intros)
  show "13 \<le> int (length (browse_description_wire v))" if "browse_description_ok L v" for L v
    using size_nodeid [of 0 "bdNodeID v"] size_nodeid [of 0 "bdReferenceTypeID v"]
    by (simp add: browse_description_wire_def array_wire_def)
qed

lemmas browse_description_emits [emits_intros] = browse_description_array.wr_emits browse_description_array.array_emits
lemmas browse_description_within [within_intros] = browse_description_array.rd_within
lemmas browse_description_steps [parses_steps] =
  browse_description_array.rd_parses [THEN parses_rbind] browse_description_array.rd_parses [THEN parses_rbind_last]
  browse_description_array.list_parses [THEN parses_rbind] browse_description_array.list_parses [THEN parses_rbind_last]

definition reference_wire :: "ReferenceDescription \<Rightarrow> byte list" where
  "reference_wire v = nodeid_wire 0 (rdReferenceTypeID v) @ bool_wire (rdIsForward v) @
     expanded_wire (rdNodeID v) @ qname_wire (rdBrowseName v) @ ltext_wire (rdDisplayName v) @
     le_bytes 4 (rdNodeClass v) @ expanded_wire (rdTypeDefinition v)"

definition reference_ok :: "BinaryLimits \<Rightarrow> ReferenceDescription \<Rightarrow> bool" where
  "reference_ok L v \<longleftrightarrow> nodeid_ok L (rdReferenceTypeID v) \<and> expanded_ok L (rdNodeID v) \<and>
     qname_ok L (rdBrowseName v) \<and> ltext_ok L (rdDisplayName v) \<and>
     expanded_ok L (rdTypeDefinition v)"

definition reference_norm :: "ReferenceDescription \<Rightarrow> ReferenceDescription" where
  "reference_norm v = v\<lparr>rdReferenceTypeID := nodeid_norm (rdReferenceTypeID v),
     rdNodeID := expanded_norm (rdNodeID v),
     rdTypeDefinition := expanded_norm (rdTypeDefinition v)\<rparr>"

interpretation reference_array: ua_array WriteReferenceDescription ReadReferenceDescription
  reference_wire reference_ok reference_norm 16
proof unfold_locales
  show "emits L (WriteReferenceDescription v) (reference_ok L v) (reference_wire v)" for L v
    unfolding WriteReferenceDescription_def
    by (rule emits_cong, (rule emits_intros)+) (auto simp: reference_wire_def reference_ok_def)
  show "parses L ReadReferenceDescription (reference_wire v) (reference_norm v)"
    if "validate_limits L = None" "reference_ok L v" for L v
    unfolding ReadReferenceDescription_def reference_wire_def
    by (intro parses_steps) (use that in \<open>simp_all add: reference_ok_def reference_norm_def\<close>)
  show "within ReadReferenceDescription"
    unfolding ReadReferenceDescription_def by (intro within_intros)
  show "16 \<le> int (length (reference_wire v))" if "reference_ok L v" for L v
    using size_nodeid [of 0 "rdReferenceTypeID v"] size_expanded [of "rdNodeID v"] size_qname [of "rdBrowseName v"] size_ltext [of "rdDisplayName v"] size_expanded [of "rdTypeDefinition v"]
    by (simp add: reference_wire_def array_wire_def)
qed

lemmas reference_emits [emits_intros] = reference_array.wr_emits reference_array.array_emits
lemmas reference_within [within_intros] = reference_array.rd_within
lemmas reference_steps [parses_steps] =
  reference_array.rd_parses [THEN parses_rbind] reference_array.rd_parses [THEN parses_rbind_last]
  reference_array.list_parses [THEN parses_rbind] reference_array.list_parses [THEN parses_rbind_last]

definition browse_result_wire :: "BrowseResult \<Rightarrow> byte list" where
  "browse_result_wire v = le_bytes 4 (brStatusCode v) @ optional_wire (brContinuationPoint v) @
     array_wire reference_wire (brReferences v)"

definition browse_result_ok :: "BinaryLimits \<Rightarrow> BrowseResult \<Rightarrow> bool" where
  "browse_result_ok L v \<longleftrightarrow> optional_ok bytestring_ok L (brContinuationPoint v) \<and>
     array_ok reference_ok L (brReferences v)"

definition browse_result_norm :: "BrowseResult \<Rightarrow> BrowseResult" where
  "browse_result_norm v = v\<lparr>brReferences := map reference_norm (brReferences v)\<rparr>"

interpretation browse_result_array: ua_array WriteBrowseResult ReadBrowseResult
  browse_result_wire browse_result_ok browse_result_norm 9
proof unfold_locales
  show "emits L (WriteBrowseResult v) (browse_result_ok L v) (browse_result_wire v)" for L v
    unfolding WriteBrowseResult_def
    by (rule emits_cong, (rule emits_intros)+) (auto simp: browse_result_wire_def browse_result_ok_def)
  show "parses L ReadBrowseResult (browse_result_wire v) (browse_result_norm v)"
    if "validate_limits L = None" "browse_result_ok L v" for L v
    unfolding ReadBrowseResult_def browse_result_wire_def
    by (intro parses_steps) (use that in \<open>simp_all add: browse_result_ok_def browse_result_norm_def\<close>)
  show "within ReadBrowseResult"
    unfolding ReadBrowseResult_def by (intro within_intros)
  show "9 \<le> int (length (browse_result_wire v))" if "browse_result_ok L v" for L v
    using size_optional [of "brContinuationPoint v"]
    by (simp add: browse_result_wire_def array_wire_def)
qed

lemmas browse_result_emits [emits_intros] = browse_result_array.wr_emits browse_result_array.array_emits
lemmas browse_result_within [within_intros] = browse_result_array.rd_within
lemmas browse_result_steps [parses_steps] =
  browse_result_array.rd_parses [THEN parses_rbind] browse_result_array.rd_parses [THEN parses_rbind_last]
  browse_result_array.list_parses [THEN parses_rbind] browse_result_array.list_parses [THEN parses_rbind_last]

lemma emits_writeBrowseResults [emits_intros]:
  "emits L (writeBrowseResults rs ds) (array_ok browse_result_ok L rs \<and> array_ok (\<lambda>L. diag_ok L 0) L ds)
     (array_wire browse_result_wire rs @ array_wire diag_wire ds)"
  unfolding writeBrowseResults_def by (rule emits_cong, (rule emits_intros)+) auto

lemma readBrowseResults_bind:
  "rbind readBrowseResults (\<lambda>(results, diagnostics). f results diagnostics) =
   rbind (read_list 9 ReadBrowseResult) (\<lambda>results. rbind (read_list 1 ReadDiagnosticInfo) (f results))"
  by (rule ext) (simp add: readBrowseResults_def rbind_def rreturn_def split: sum.splits prod.splits)

definition browse_request_wire :: "BrowseRequest \<Rightarrow> byte list" where
  "browse_request_wire v = service_wire BrowseRequestEncodingID @ request_header_wire (bqHeader v) @
     view_wire (bqView v) @ le_bytes 4 (RequestedMaxReferencesPerNode v) @
     array_wire browse_description_wire (NodesToBrowse v)"

definition browse_request_ok :: "BinaryLimits \<Rightarrow> BrowseRequest \<Rightarrow> bool" where
  "browse_request_ok L v \<longleftrightarrow> request_header_ok L (bqHeader v) \<and> view_ok L (bqView v) \<and>
     array_ok browse_description_ok L (NodesToBrowse v)"

definition browse_request_norm :: "BrowseRequest \<Rightarrow> BrowseRequest" where
  "browse_request_norm v = v\<lparr>bqHeader := request_header_norm (bqHeader v), bqView := view_norm (bqView v),
     NodesToBrowse := map browse_description_norm (NodesToBrowse v)\<rparr>"

interpretation browse_request_codec: ua_codec WriteBrowseRequest "read_service BrowseRequestEncodingID ReadBrowseRequest"
  browse_request_wire browse_request_ok browse_request_norm
proof unfold_locales
  show "emits L (WriteBrowseRequest v) (browse_request_ok L v) (browse_request_wire v)" for L v
    unfolding WriteBrowseRequest_def
    by (rule emits_cong, (rule emits_intros)+) (auto simp: browse_request_wire_def browse_request_ok_def)
  show "parses L (read_service BrowseRequestEncodingID ReadBrowseRequest) (browse_request_wire v) (browse_request_norm v)"
    if "validate_limits L = None" "browse_request_ok L v" for L v
    unfolding ReadBrowseRequest_def browse_request_wire_def
    by (intro parses_steps) (use that in \<open>simp_all add: browse_request_ok_def browse_request_norm_def\<close>)
  show "within (read_service BrowseRequestEncodingID ReadBrowseRequest)"
    unfolding ReadBrowseRequest_def by (intro within_intros)
qed

definition browse_response_wire :: "BrowseResponse \<Rightarrow> byte list" where
  "browse_response_wire v = service_wire BrowseResponseEncodingID @ response_header_wire (bpHeader v) @
     array_wire browse_result_wire (bpResults v) @ array_wire diag_wire (bpDiagnostics v)"

definition browse_response_ok :: "BinaryLimits \<Rightarrow> BrowseResponse \<Rightarrow> bool" where
  "browse_response_ok L v \<longleftrightarrow> response_header_ok L (bpHeader v) \<and> array_ok browse_result_ok L (bpResults v) \<and>
     array_ok (\<lambda>L. diag_ok L 0) L (bpDiagnostics v)"

definition browse_response_norm :: "BrowseResponse \<Rightarrow> BrowseResponse" where
  "browse_response_norm v = v\<lparr>bpHeader := response_header_norm (bpHeader v),
     bpResults := map browse_result_norm (bpResults v),
     bpDiagnostics := map diag_norm (bpDiagnostics v)\<rparr>"

interpretation browse_response_codec: ua_codec WriteBrowseResponse "read_service BrowseResponseEncodingID ReadBrowseResponse"
  browse_response_wire browse_response_ok browse_response_norm
proof unfold_locales
  show "emits L (WriteBrowseResponse v) (browse_response_ok L v) (browse_response_wire v)" for L v
    unfolding WriteBrowseResponse_def
    by (rule emits_cong, (rule emits_intros)+) (auto simp: browse_response_wire_def browse_response_ok_def)
  show "parses L (read_service BrowseResponseEncodingID ReadBrowseResponse) (browse_response_wire v) (browse_response_norm v)"
    if "validate_limits L = None" "browse_response_ok L v" for L v
    unfolding ReadBrowseResponse_def readBrowseResults_bind browse_response_wire_def
    by (intro parses_steps) (use that in \<open>simp_all add: browse_response_ok_def browse_response_norm_def\<close>)
  show "within (read_service BrowseResponseEncodingID ReadBrowseResponse)"
    unfolding ReadBrowseResponse_def readBrowseResults_bind by (intro within_intros)
qed

definition browse_next_request_wire :: "BrowseNextRequest \<Rightarrow> byte list" where
  "browse_next_request_wire v = service_wire BrowseNextRequestEncodingID @ request_header_wire (nqHeader v) @
     bool_wire (ReleaseContinuationPoints v) @ array_wire lenbytes_wire (ContinuationPoints v)"

definition browse_next_request_ok :: "BinaryLimits \<Rightarrow> BrowseNextRequest \<Rightarrow> bool" where
  "browse_next_request_ok L v \<longleftrightarrow> request_header_ok L (nqHeader v) \<and> array_ok bytestring_ok L (ContinuationPoints v)"

definition browse_next_request_norm :: "BrowseNextRequest \<Rightarrow> BrowseNextRequest" where
  "browse_next_request_norm v = v\<lparr>nqHeader := request_header_norm (nqHeader v)\<rparr>"

interpretation browse_next_request_codec: ua_codec WriteBrowseNextRequest "read_service BrowseNextRequestEncodingID ReadBrowseNextRequest"
  browse_next_request_wire browse_next_request_ok browse_next_request_norm
proof unfold_locales
  show "emits L (WriteBrowseNextRequest v) (browse_next_request_ok L v) (browse_next_request_wire v)" for L v
    unfolding WriteBrowseNextRequest_def
    by (rule emits_cong, (rule emits_intros)+) (auto simp: browse_next_request_wire_def browse_next_request_ok_def)
  show "parses L (read_service BrowseNextRequestEncodingID ReadBrowseNextRequest) (browse_next_request_wire v) (browse_next_request_norm v)"
    if "validate_limits L = None" "browse_next_request_ok L v" for L v
    unfolding ReadBrowseNextRequest_def browse_next_request_wire_def
    by (intro parses_steps) (use that in \<open>simp_all add: browse_next_request_ok_def browse_next_request_norm_def\<close>)
  show "within (read_service BrowseNextRequestEncodingID ReadBrowseNextRequest)"
    unfolding ReadBrowseNextRequest_def by (intro within_intros)
qed

definition browse_next_response_wire :: "BrowseNextResponse \<Rightarrow> byte list" where
  "browse_next_response_wire v = service_wire BrowseNextResponseEncodingID @ response_header_wire (npHeader v) @
     array_wire browse_result_wire (npResults v) @ array_wire diag_wire (npDiagnostics v)"

definition browse_next_response_ok :: "BinaryLimits \<Rightarrow> BrowseNextResponse \<Rightarrow> bool" where
  "browse_next_response_ok L v \<longleftrightarrow> response_header_ok L (npHeader v) \<and> array_ok browse_result_ok L (npResults v) \<and>
     array_ok (\<lambda>L. diag_ok L 0) L (npDiagnostics v)"

definition browse_next_response_norm :: "BrowseNextResponse \<Rightarrow> BrowseNextResponse" where
  "browse_next_response_norm v = v\<lparr>npHeader := response_header_norm (npHeader v),
     npResults := map browse_result_norm (npResults v),
     npDiagnostics := map diag_norm (npDiagnostics v)\<rparr>"

interpretation browse_next_response_codec: ua_codec WriteBrowseNextResponse "read_service BrowseNextResponseEncodingID ReadBrowseNextResponse"
  browse_next_response_wire browse_next_response_ok browse_next_response_norm
proof unfold_locales
  show "emits L (WriteBrowseNextResponse v) (browse_next_response_ok L v) (browse_next_response_wire v)" for L v
    unfolding WriteBrowseNextResponse_def
    by (rule emits_cong, (rule emits_intros)+) (auto simp: browse_next_response_wire_def browse_next_response_ok_def)
  show "parses L (read_service BrowseNextResponseEncodingID ReadBrowseNextResponse) (browse_next_response_wire v) (browse_next_response_norm v)"
    if "validate_limits L = None" "browse_next_response_ok L v" for L v
    unfolding ReadBrowseNextResponse_def readBrowseResults_bind browse_next_response_wire_def
    by (intro parses_steps) (use that in \<open>simp_all add: browse_next_response_ok_def browse_next_response_norm_def\<close>)
  show "within (read_service BrowseNextResponseEncodingID ReadBrowseNextResponse)"
    unfolding ReadBrowseNextResponse_def readBrowseResults_bind by (intro within_intros)
qed

section \<open>Properties\<close>

text \<open>
  Every message of the Browse and BrowseNext services that a fresh encoder writes is read
  back, type prefix included, to the last byte.
\<close>
theorem browse_messages_roundtrip:
  assumes "NewEncoder L = Inr e"
  shows "(Bytes (WriteBrowseRequest bq e) = Inr b1 \<longrightarrow>
      decodes_as L b1 BrowseRequestEncodingID ReadBrowseRequest (browse_request_norm bq)) \<and>
    (Bytes (WriteBrowseResponse bp e) = Inr b2 \<longrightarrow>
      decodes_as L b2 BrowseResponseEncodingID ReadBrowseResponse (browse_response_norm bp)) \<and>
    (Bytes (WriteBrowseNextRequest nq e) = Inr b3 \<longrightarrow>
      decodes_as L b3 BrowseNextRequestEncodingID ReadBrowseNextRequest (browse_next_request_norm nq)) \<and>
    (Bytes (WriteBrowseNextResponse np e) = Inr b4 \<longrightarrow>
      decodes_as L b4 BrowseNextResponseEncodingID ReadBrowseNextResponse (browse_next_response_norm np))"
  using browse_request_codec.roundtrip [OF assms] browse_response_codec.roundtrip [OF assms]
    browse_next_request_codec.roundtrip [OF assms] browse_next_response_codec.roundtrip [OF assms]
  by (simp add: decodes_asI)

definition browse_request_sample :: BrowseRequest where
  "browse_request_sample = \<lparr>bqHeader = request_header_sample,
     bqView = \<lparr>ViewID = NumericNodeID 0 0, vdTimestamp = zeroTime, ViewVersion = 0\<rparr>,
     RequestedMaxReferencesPerNode = 10,
     NodesToBrowse = [\<lparr>bdNodeID = NumericNodeID 0 84, bdBrowseDirection = BrowseDirectionBoth,
       bdReferenceTypeID = NumericNodeID 0 33, IncludeSubtypes = True, NodeClassMask = 0, ResultMask = 0x3F\<rparr>]\<rparr>"

theorem browse_messages_roundtrip_witness:
  "decodes_as DefaultBinaryLimits (browse_request_wire browse_request_sample)
     BrowseRequestEncodingID ReadBrowseRequest (browse_request_norm browse_request_sample)"
proof -
  have "Bytes (WriteBrowseRequest browse_request_sample header_encoder) =
      Inr (browse_request_wire browse_request_sample)" by code_simp
  with browse_messages_roundtrip [OF header_encoder_new, of browse_request_sample] show ?thesis by metis
qed

end
