(* ===== verification/Browsing.thy ===== *)
theory Browsing
  imports Population BrowseMessages
begin

text \<open>
  The Browse and BrowseNext services, from \<^verbatim>\<open>src/internal/opcua/browse.go\<close>: the references of a node
  that a client asks for, filled from the source on demand, and the continuation points that
  hold what one response could not carry. Random identifiers are arguments (None when
  \<^verbatim>\<open>rand.Read\<close> fails). The iteration order of a Go map is unspecified; where it matters it is an
  argument too, a rank of the keys for each size of the map.
\<close>

section \<open>Limits and state\<close>

definition StatusBadContinuationPointInvalid :: StatusCode where "StatusBadContinuationPointInvalid = 0x804A0000"
definition StatusBadNoContinuationPoints :: StatusCode where "StatusBadNoContinuationPoints = 0x804B0000"
definition StatusBadReferenceTypeIDInvalid :: StatusCode where "StatusBadReferenceTypeIDInvalid = 0x804C0000"
definition StatusBadBrowseDirectionInvalid :: StatusCode where "StatusBadBrowseDirectionInvalid = 0x804D0000"
definition StatusBadViewIDUnknown :: StatusCode where "StatusBadViewIDUnknown = 0x806B0000"

definition ResultMaskReferenceType :: uint32 where "ResultMaskReferenceType = 0x01"
definition ResultMaskIsForward :: uint32 where "ResultMaskIsForward = 0x02"
definition ResultMaskNodeClass :: uint32 where "ResultMaskNodeClass = 0x04"
definition ResultMaskBrowseName :: uint32 where "ResultMaskBrowseName = 0x08"
definition ResultMaskDisplayName :: uint32 where "ResultMaskDisplayName = 0x10"
definition ResultMaskTypeDefinition :: uint32 where "ResultMaskTypeDefinition = 0x20"

record BrowseLimits =
  blMaxNodesPerBrowse :: int
  MaxReferencesPerNode :: int
  MaxContinuationPoints :: int
  ContinuationPointExpiry :: int

definition DefaultBrowseLimits :: BrowseLimits where
  "DefaultBrowseLimits = \<lparr>blMaxNodesPerBrowse = 64, MaxReferencesPerNode = 256, MaxContinuationPoints = 16,
     ContinuationPointExpiry = 300 * 10 ^ 9\<rparr>"

definition BrowseLimits_validate :: "BrowseLimits \<Rightarrow> go_error option" where
  "BrowseLimits_validate limits =
     (if blMaxNodesPerBrowse limits \<le> 0 \<or> MaxReferencesPerNode limits \<le> 0 \<or>
        MaxContinuationPoints limits \<le> 0 \<or> ContinuationPointExpiry limits \<le> 0 then Some PlainError else None)"

record browse_continuation =
  cRemaining :: "ReferenceDescription list"
  cCreatedAt :: gotime
  cSession :: gostring
  cMaximum :: int

type_synonym continuation_points = "(gostring \<times> browse_continuation) list"

record BrowseService =
  bsLimits :: BrowseLimits
  hasPopulator :: bool
  points :: continuation_points

definition NewBrowseService :: "BrowseLimits \<Rightarrow> go_error + BrowseService" where
  "NewBrowseService limits = (case BrowseLimits_validate limits of
       Some er \<Rightarrow> Inl er | None \<Rightarrow> Inr \<lparr>bsLimits = limits, hasPopulator = False, points = []\<rparr>)"

definition AttachPopulator :: "BrowseService \<Rightarrow> BrowseService" where
  "AttachPopulator svc = svc\<lparr>hasPopulator := True\<rparr>"

section \<open>Which references match\<close>

definition referenceSupertypes :: "(uint32 \<times> uint32 list) list" where
  "referenceSupertypes =
     [(NodeIDOrganizes, [NodeIDHierarchicalRefs, NodeIDReferences]),
      (NodeIDHasProperty, [NodeIDAggregates, NodeIDHasChild, NodeIDHierarchicalRefs, NodeIDReferences]),
      (NodeIDHasComponent, [NodeIDAggregates, NodeIDHasChild, NodeIDHierarchicalRefs, NodeIDReferences]),
      (NodeIDHasTypeDefinition, [NodeIDNonHierarchicalRefs, NodeIDReferences])]"

definition referenceTypeMatches :: "NodeID \<Rightarrow> NodeID \<Rightarrow> bool \<Rightarrow> bool" where
  "referenceTypeMatches requested actual includeSubtypes =
     (if NodeID_Equal requested actual then True
      else if \<not> includeSubtypes then False
      else if Namespace requested \<noteq> 0 \<or> Type requested \<noteq> NodeIDTypeNumeric \<or>
        Namespace actual \<noteq> 0 \<or> Type actual \<noteq> NodeIDTypeNumeric then False
      else case map_of referenceSupertypes (Numeric actual) of
          None \<Rightarrow> False | Some supertypes \<Rightarrow> List.member supertypes (Numeric requested))"

definition isKnownReferenceType :: "NodeID \<Rightarrow> bool" where
  "isKnownReferenceType i =
     (if Namespace i \<noteq> 0 \<or> Type i \<noteq> NodeIDTypeNumeric then False
      else List.member [NodeIDReferences, NodeIDNonHierarchicalRefs, NodeIDHierarchicalRefs, NodeIDHasChild,
        NodeIDOrganizes, NodeIDAggregates, NodeIDHasTypeDefinition, NodeIDHasProperty, NodeIDHasComponent] (Numeric i))"

definition directionMatches :: "BrowseDirection \<Rightarrow> bool \<Rightarrow> bool" where
  "directionMatches direction isForward =
     (if direction = BrowseDirectionForward then isForward
      else if direction = BrowseDirectionInverse then \<not> isForward
      else True)"

definition applyResultMask :: "Reference \<Rightarrow> uint32 \<Rightarrow> ReferenceDescription" where
  "applyResultMask reference resultMask = \<lparr>
     rdReferenceTypeID = (if resultMask AND ResultMaskReferenceType \<noteq> 0 then rfReferenceTypeID reference else zeroNodeID),
     rdIsForward = (if resultMask AND ResultMaskIsForward \<noteq> 0 then rfIsForward reference else False),
     rdNodeID = rfTargetID reference,
     rdBrowseName = (if resultMask AND ResultMaskBrowseName \<noteq> 0 then rfBrowseName reference else \<lparr>qNamespace = 0, qName = []\<rparr>),
     rdDisplayName = (if resultMask AND ResultMaskDisplayName \<noteq> 0 then rfDisplayName reference else \<lparr>lLocale = [], lText = []\<rparr>),
     rdNodeClass = (if resultMask AND ResultMaskNodeClass \<noteq> 0 then rfNodeClass reference else 0),
     rdTypeDefinition = (if resultMask AND ResultMaskTypeDefinition \<noteq> 0 \<and>
         (rfNodeClass reference = NodeClassObject \<or> rfNodeClass reference = NodeClassVariable)
       then rfTypeDefinition reference else zeroExpandedNodeID)\<rparr>"

section \<open>Continuation points\<close>

definition expireLocked :: "gotime \<Rightarrow> BrowseService \<Rightarrow> BrowseService" where
  "expireLocked now svc = svc\<lparr>points := filter (\<lambda>(key, point).
     \<not> now - cCreatedAt point \<ge> ContinuationPointExpiry (bsLimits svc)) (points svc)\<rparr>"

text \<open>One look at a point: how many the session holds, and its oldest from before this request.\<close>

definition scanPoint ::
  "gostring \<Rightarrow> gotime \<Rightarrow> gostring \<times> browse_continuation \<Rightarrow> int \<times> gostring \<times> gotime \<Rightarrow> int \<times> gostring \<times> gotime" where
  "scanPoint session now = (\<lambda>(key, point) (held, oldestKey, oldest).
     if cSession point \<noteq> session then (held, oldestKey, oldest)
     else if \<not> cCreatedAt point < now then (held + 1, oldestKey, oldest)
     else if oldestKey = [] \<or> cCreatedAt point < oldest then (held + 1, key, cCreatedAt point)
     else (held + 1, oldestKey, oldest))"

definition scanPoints ::
  "(nat \<Rightarrow> gostring \<Rightarrow> nat) \<Rightarrow> gostring \<Rightarrow> gotime \<Rightarrow> continuation_points \<Rightarrow> int \<times> gostring \<times> gotime" where
  "scanPoints rank session now ps =
     fold (scanPoint session now) (sort_key (\<lambda>(key, _). rank (length ps) key) ps) (0, [], zeroTime)"

lemma scan_key: "case fold (scanPoint session now) xs acc of (held, key, t) \<Rightarrow> key = fst (snd acc) \<or> key \<in> fst ` set xs"
proof (induction xs arbitrary: acc)
  case (Cons x xs)
  have "fst (snd (scanPoint session now x acc)) \<in> {fst (snd acc), fst x}"
    by (auto simp: scanPoint_def split: prod.split)
  then show ?case using Cons.IH [of "scanPoint session now x acc"] by (auto split: prod.splits)
qed auto

lemma scanned_key: "scanPoints rank session now ps = (held, key, t) \<Longrightarrow> key \<noteq> [] \<Longrightarrow> key \<in> fst ` set ps"
  using scan_key [where session = session and now = now and xs = "sort_key (\<lambda>(key, _). rank (length ps) key) ps"
      and acc = "(0, [], zeroTime)"]
  by (simp add: scanPoints_def)

function freeOldestLocked ::
  "(nat \<Rightarrow> gostring \<Rightarrow> nat) \<Rightarrow> gostring \<Rightarrow> gotime \<Rightarrow> int \<Rightarrow> continuation_points \<Rightarrow> bool \<times> continuation_points" where
  "freeOldestLocked rank session now limit ps =
     (case scanPoints rank session now ps of (held, oldestKey, _) \<Rightarrow>
        if held < limit then (True, ps)
        else if oldestKey = [] then (False, ps)
        else freeOldestLocked rank session now limit (AList.delete oldestKey ps))"
  by pat_completeness auto
termination
proof (relation "measure (\<lambda>(rank, session, now, limit, ps). length ps)", goal_cases)
  case (2 rank session now limit ps held y key t)
  then have "key \<in> fst ` set ps" using scanned_key [of rank session now ps held key t] by simp
  then show ?case unfolding AList.delete_eq by (auto intro!: length_filter_less)
qed simp

declare freeOldestLocked.simps [simp del]

definition storeContinuation ::
  "(nat \<Rightarrow> gostring \<Rightarrow> nat) \<Rightarrow> byte list option \<Rightarrow> gostring \<Rightarrow> ReferenceDescription list \<Rightarrow> int \<Rightarrow> gotime \<Rightarrow>
     BrowseService \<Rightarrow> (StatusCode + byte list) \<times> BrowseService" where
  "storeContinuation rank rand session remaining maximum now svc = (let
     svc = expireLocked now svc;
     (room, ps) = freeOldestLocked rank session now (MaxContinuationPoints (bsLimits svc)) (points svc);
     svc = svc\<lparr>points := ps\<rparr>
     in if \<not> room then (Inl StatusBadNoContinuationPoints, svc)
        else case rand of
            None \<Rightarrow> (Inl StatusBadTcpInternalError, svc)
          | Some identifier \<Rightarrow> (Inr identifier, svc\<lparr>points := AList.update identifier
              \<lparr>cRemaining = remaining, cCreatedAt = now, cSession = session, cMaximum = maximum\<rparr> ps\<rparr>))"

section \<open>Browsing a node\<close>

definition failedBrowse :: "StatusCode \<Rightarrow> BrowseResult" where
  "failedBrowse status = \<lparr>brStatusCode = status, brContinuationPoint = [], brReferences = []\<rparr>"

definition allReferences :: "Node \<Rightarrow> Reference list" where
  "allReferences node = (case TypeDefinitionReference node of
       Some typeDefinition \<Rightarrow> nReferences node @ [typeDefinition] | None \<Rightarrow> nReferences node)"

definition referenceMatches :: "BrowseDescription \<Rightarrow> Reference \<Rightarrow> bool" where
  "referenceMatches description reference =
     (if \<not> directionMatches (bdBrowseDirection description) (rfIsForward reference) then False
      else if \<not> NodeID_IsNull (bdReferenceTypeID description) \<and>
        \<not> referenceTypeMatches (bdReferenceTypeID description) (rfReferenceTypeID reference) (IncludeSubtypes description)
      then False
      else if NodeClassMask description \<noteq> 0 \<and> NodeClassMask description AND rfNodeClass reference = 0 then False
      else True)"

definition matchedReferences :: "BrowseDescription \<Rightarrow> Node \<Rightarrow> ReferenceDescription list" where
  "matchedReferences description node =
     map (\<lambda>reference. applyResultMask reference (ResultMask description))
       (filter (referenceMatches description) (allReferences node))"

definition browseNode ::
  "(nat \<Rightarrow> gostring \<Rightarrow> nat) \<Rightarrow> byte list option \<Rightarrow> gostring \<Rightarrow> BrowseDescription \<Rightarrow> int \<Rightarrow> gotime \<Rightarrow> AddressSpace \<Rightarrow>
     BrowseService \<Rightarrow> BrowseResult \<times> BrowseService" where
  "browseNode rank rand session description maximum now s svc =
     (if \<not> BrowseDirection_Valid (bdBrowseDirection description) then (failedBrowse StatusBadBrowseDirectionInvalid, svc)
      else case space_Node (bdNodeID description) s of
          None \<Rightarrow> (failedBrowse StatusBadNodeIdUnknown, svc)
        | Some node \<Rightarrow>
            if \<not> NodeID_IsNull (bdReferenceTypeID description) \<and> \<not> isKnownReferenceType (bdReferenceTypeID description)
            then (failedBrowse StatusBadReferenceTypeIDInvalid, svc)
            else let matched = matchedReferences description node
            in if int (length matched) \<le> maximum
               then (\<lparr>brStatusCode = StatusGood, brContinuationPoint = [], brReferences = matched\<rparr>, svc)
               else case storeContinuation rank rand session (drop (nat maximum) matched) maximum now svc of
                   (Inl status, svc) \<Rightarrow> (failedBrowse status, svc)
                 | (Inr point, svc) \<Rightarrow> (\<lparr>brStatusCode = StatusGood, brContinuationPoint = point,
                     brReferences = take (nat maximum) matched\<rparr>, svc))"

section \<open>Browse\<close>

definition ensurePopulated ::
  "(nat \<Rightarrow> 'w populating \<Rightarrow> 'w populating option) \<Rightarrow> 'w Runtime \<Rightarrow> NodeID \<Rightarrow> gotime \<Rightarrow> nat \<Rightarrow> BrowseService \<Rightarrow>
     'w populating \<Rightarrow> population_error option \<times> 'w populating" where
  "ensurePopulated await rt i now ch svc = (\<lambda>(p, s, w).
     if \<not> hasPopulator svc then (None, p, s, w)
     else if NodeID_Equal i (SourceFolderID s) then EnsureBranch await rt [] now ch (p, s, w)
     else case ClassifyNode i s of
         (Some node, NodeKindItem) \<Rightarrow> EnsureItemProperties await rt (nItemID node) now ch (p, s, w)
       | _ \<Rightarrow> (case PathForNode i of
             None \<Rightarrow> (None, p, s, w)
           | Some path \<Rightarrow> EnsureBranch await rt path now ch (p, s, w)))"

text \<open>
  One entry of the request, the \<open>k\<close>-th, and the loop over all. \<open>rand\<close> gives the random
  identifier an entry may need, and \<open>chan\<close> the channel its call of the populator may make.
\<close>

definition browseEntry ::
  "(nat \<Rightarrow> 'w populating \<Rightarrow> 'w populating option) \<Rightarrow> 'w Runtime \<Rightarrow> (nat \<Rightarrow> gostring \<Rightarrow> nat) \<Rightarrow> (nat \<Rightarrow> byte list option) \<Rightarrow>
     (nat \<Rightarrow> nat) \<Rightarrow> gostring \<Rightarrow> int \<Rightarrow> gotime \<Rightarrow> nat \<Rightarrow> BrowseDescription \<Rightarrow>
     BrowseService \<times> 'w populating \<Rightarrow> BrowseResult \<times> BrowseService \<times> 'w populating" where
  "browseEntry await rt rank rand chan session maximum now k description = (\<lambda>(svc, st).
     case ensurePopulated await rt (bdNodeID description) now (chan k) svc st of
         (Some er, st) \<Rightarrow> (failedBrowse (statusForPopulationError er), svc, st)
       | (None, p, s, w) \<Rightarrow> (case browseNode rank (rand k) session description maximum now s svc of
           (result, svc) \<Rightarrow> (result, svc, p, s, w)))"

fun browseEntries ::
  "(nat \<Rightarrow> 'w populating \<Rightarrow> 'w populating option) \<Rightarrow> 'w Runtime \<Rightarrow> (nat \<Rightarrow> gostring \<Rightarrow> nat) \<Rightarrow> (nat \<Rightarrow> byte list option) \<Rightarrow>
     (nat \<Rightarrow> nat) \<Rightarrow> gostring \<Rightarrow> int \<Rightarrow> gotime \<Rightarrow> nat \<Rightarrow> BrowseDescription list \<Rightarrow>
     BrowseService \<times> 'w populating \<Rightarrow> BrowseResult list \<times> BrowseService \<times> 'w populating" where
  "browseEntries await rt rank rand chan session maximum now k [] st = ([], st)"
| "browseEntries await rt rank rand chan session maximum now k (description # rest) st =
     (let (result, st) = browseEntry await rt rank rand chan session maximum now k description st;
          (results, st) = browseEntries await rt rank rand chan session maximum now (Suc k) rest st
      in (result # results, st))"

definition pageSize :: "BrowseRequest \<Rightarrow> BrowseLimits \<Rightarrow> int" where
  "pageSize request limits = (let maximum = MaxReferencesPerNode limits
     in if RequestedMaxReferencesPerNode request > 0 \<and> uint (RequestedMaxReferencesPerNode request) < maximum
        then uint (RequestedMaxReferencesPerNode request) else maximum)"

definition Service_Browse ::
  "(nat \<Rightarrow> 'w populating \<Rightarrow> 'w populating option) \<Rightarrow> 'w Runtime \<Rightarrow> (nat \<Rightarrow> gostring \<Rightarrow> nat) \<Rightarrow> (nat \<Rightarrow> byte list option) \<Rightarrow>
     (nat \<Rightarrow> nat) \<Rightarrow> gostring \<Rightarrow> BrowseRequest \<Rightarrow> gotime \<Rightarrow>
     BrowseService \<times> 'w populating \<Rightarrow> (go_error + BrowseResponse) \<times> BrowseService \<times> 'w populating" where
  "Service_Browse await rt rank rand chan session request now = (\<lambda>(svc, st).
     if NodesToBrowse request = [] then (Inl (uacpError StatusBadNothingToDo), svc, st)
     else if int (length (NodesToBrowse request)) > blMaxNodesPerBrowse (bsLimits svc) then
       (Inl (uacpError StatusBadTooManyOperations), svc, st)
     else if \<not> NodeID_IsNull (ViewID (bqView request)) then (Inl (uacpError StatusBadViewIDUnknown), svc, st)
     else let (results, svc, st) = browseEntries await rt rank rand chan session (pageSize request (bsLimits svc)) now 0
         (NodesToBrowse request) (svc, st)
       in (Inr \<lparr>bpHeader = plain_response now (rqRequestHandle (bqHeader request)) StatusGood,
             bpResults = results, bpDiagnostics = []\<rparr>, svc, st))"

section \<open>BrowseNext\<close>

definition continueBrowse ::
  "byte list option \<Rightarrow> gostring \<Rightarrow> byte list \<Rightarrow> gotime \<Rightarrow> BrowseService \<Rightarrow> BrowseResult \<times> BrowseService" where
  "continueBrowse rand session point now svc = (let svc = expireLocked now svc
     in case map_of (points svc) point of
         None \<Rightarrow> (failedBrowse StatusBadContinuationPointInvalid, svc)
       | Some stored \<Rightarrow>
           if cSession stored \<noteq> session then (failedBrowse StatusBadContinuationPointInvalid, svc)
           else let
             svc = svc\<lparr>points := AList.delete point (points svc)\<rparr>;
             maximum = cMaximum stored
           in if int (length (cRemaining stored)) \<le> maximum then
                (\<lparr>brStatusCode = StatusGood, brContinuationPoint = [], brReferences = cRemaining stored\<rparr>, svc)
              else case rand of
                  None \<Rightarrow> (failedBrowse StatusBadTcpInternalError, svc)
                | Some identifier \<Rightarrow>
                    (\<lparr>brStatusCode = StatusGood, brContinuationPoint = identifier,
                       brReferences = take (nat maximum) (cRemaining stored)\<rparr>,
                     svc\<lparr>points := AList.update identifier \<lparr>cRemaining = drop (nat maximum) (cRemaining stored),
                       cCreatedAt = now, cSession = session, cMaximum = maximum\<rparr> (points svc)\<rparr>))"

definition releasePoint :: "gostring \<Rightarrow> byte list \<Rightarrow> BrowseService \<Rightarrow> BrowseService" where
  "releasePoint session point svc = (case map_of (points svc) point of
       Some held \<Rightarrow> if cSession held = session then svc\<lparr>points := AList.delete point (points svc)\<rparr> else svc
     | None \<Rightarrow> svc)"

fun continueEach ::
  "(nat \<Rightarrow> byte list option) \<Rightarrow> gostring \<Rightarrow> gotime \<Rightarrow> nat \<Rightarrow> byte list list \<Rightarrow> BrowseService \<Rightarrow>
     BrowseResult list \<times> BrowseService" where
  "continueEach rand session now k [] svc = ([], svc)"
| "continueEach rand session now k (point # rest) svc =
     (let (result, svc) = continueBrowse (rand k) session point now svc;
          (results, svc) = continueEach rand session now (Suc k) rest svc
      in (result # results, svc))"

definition Service_BrowseNext ::
  "(nat \<Rightarrow> byte list option) \<Rightarrow> gostring \<Rightarrow> BrowseNextRequest \<Rightarrow> gotime \<Rightarrow> BrowseService \<Rightarrow>
     (go_error + BrowseNextResponse) \<times> BrowseService" where
  "Service_BrowseNext rand session request now svc =
     (if ContinuationPoints request = [] then (Inl (uacpError StatusBadNothingToDo), svc)
      else if int (length (ContinuationPoints request)) > blMaxNodesPerBrowse (bsLimits svc) then
        (Inl (uacpError StatusBadTooManyOperations), svc)
      else let header = plain_response now (rqRequestHandle (nqHeader request)) StatusGood
      in if ReleaseContinuationPoints request then
           (Inr \<lparr>npHeader = header, npResults = [], npDiagnostics = []\<rparr>,
            fold (releasePoint session) (ContinuationPoints request) svc)
         else let (results, svc) = continueEach rand session now 0 (ContinuationPoints request) svc
         in (Inr \<lparr>npHeader = header, npResults = results, npDiagnostics = []\<rparr>, svc))"

section \<open>Housekeeping\<close>

definition ContinuationPointCount :: "BrowseService \<Rightarrow> nat" where
  "ContinuationPointCount svc = length (points svc)"

definition ReleaseSession :: "gostring \<Rightarrow> BrowseService \<Rightarrow> nat \<times> BrowseService" where
  "ReleaseSession session svc =
     (length (filter (\<lambda>(key, point). cSession point = session) (points svc)),
      svc\<lparr>points := filter (\<lambda>(key, point). cSession point \<noteq> session) (points svc)\<rparr>)"

definition ExpireContinuationPoints :: "gotime \<Rightarrow> BrowseService \<Rightarrow> int \<times> BrowseService" where
  "ExpireContinuationPoints now svc = (let after = expireLocked now svc
     in (int (length (points svc)) - int (length (points after)), after))"

section \<open>The points of a session\<close>

definition held :: "gostring \<Rightarrow> continuation_points \<Rightarrow> nat" where
  "held session ps = length (filter (\<lambda>(key, point). cSession point = session) ps)"

definition point_ok :: "gostring \<Rightarrow> browse_continuation \<Rightarrow> bool" where
  "point_ok key point \<longleftrightarrow> key \<noteq> [] \<and> cRemaining point \<noteq> [] \<and> 0 < cMaximum point"

definition points_inv :: "BrowseService \<Rightarrow> bool" where
  "points_inv svc \<longleftrightarrow> BrowseLimits_validate (bsLimits svc) = None \<and> table_wf point_ok (points svc) \<and>
     (\<forall>session. int (held session (points svc)) \<le> MaxContinuationPoints (bsLimits svc))"

lemma limits_positive: "BrowseLimits_validate limits = None \<Longrightarrow> 0 < MaxContinuationPoints limits \<and>
    0 < MaxReferencesPerNode limits \<and> 0 < blMaxNodesPerBrowse limits \<and> 0 < ContinuationPointExpiry limits"
  by (auto simp: BrowseLimits_validate_def split: if_splits)

lemma scan_held:
  "fst (fold (scanPoint session now) xs acc) = fst acc + int (held session xs)"
  by (induction xs arbitrary: acc) (auto simp: held_def scanPoint_def split: prod.splits if_splits)

lemma held_sort: "held session (sort_key f ps) = held session ps"
  unfolding held_def by (rule mset_eq_length) simp

lemma scanPoints_held: "scanPoints rank session now ps = (n, key, t) \<Longrightarrow> n = int (held session ps)"
  using scan_held [of session now "sort_key (\<lambda>(key, _). rank (length ps) key) ps" "(0, [], zeroTime)"]
  by (simp add: scanPoints_def held_sort)

lemma scan_none:
  "[] \<notin> fst ` set xs \<Longrightarrow> fst (snd (fold (scanPoint session now) xs acc)) = [] \<Longrightarrow>
     fst (snd acc) = [] \<and> (\<forall>(key, point) \<in> set xs. cSession point = session \<longrightarrow> \<not> cCreatedAt point < now)"
proof (induction xs arbitrary: acc)
  case (Cons x xs)
  have "fst (snd (scanPoint session now x acc)) = [] \<and>
      (\<forall>(key, point) \<in> set xs. cSession point = session \<longrightarrow> \<not> cCreatedAt point < now)"
    by (rule Cons.IH) (use Cons.prems in auto)
  then show ?case using Cons.prems(1) by (auto simp: scanPoint_def split: prod.splits if_splits)
qed auto

text \<open>The oldest point of the session from before the request, when there is one.\<close>

lemma scan_oldest:
  assumes "fold (scanPoint session now) xs (n, key0, t0) = (m, key, t)" and "key \<noteq> []" and "[] \<notin> fst ` set xs"
  shows "(key = key0 \<and> t = t0 \<or> (\<exists>point. (key, point) \<in> set xs \<and> cSession point = session \<and> cCreatedAt point = t \<and> t < now)) \<and>
    (\<forall>(k, point) \<in> set xs. cSession point = session \<longrightarrow> cCreatedAt point < now \<longrightarrow> t \<le> cCreatedAt point) \<and>
    (key0 \<noteq> [] \<longrightarrow> t \<le> t0)"
  using assms
proof (induction xs arbitrary: n key0 t0)
  case (Cons x xs)
  obtain k point where x: "x = (k, point)" by (cases x)
  obtain n1 key1 t1 where s: "scanPoint session now x (n, key0, t0) = (n1, key1, t1)" by (cases "scanPoint session now x (n, key0, t0)")
  have ih: "(key = key1 \<and> t = t1 \<or> (\<exists>point. (key, point) \<in> set xs \<and> cSession point = session \<and> cCreatedAt point = t \<and> t < now)) \<and>
      (\<forall>(k, point) \<in> set xs. cSession point = session \<longrightarrow> cCreatedAt point < now \<longrightarrow> t \<le> cCreatedAt point) \<and>
      (key1 \<noteq> [] \<longrightarrow> t \<le> t1)"
    by (rule Cons.IH) (use Cons.prems s in auto)
  have k: "k \<noteq> []" using Cons.prems(3) by (auto simp: x)
  from s consider "key1 = k" "t1 = cCreatedAt point" "cSession point = session" "cCreatedAt point < now" "key0 = [] \<or> cCreatedAt point < t0"
    | "key1 = key0" "t1 = t0" "cSession point = session \<longrightarrow> cCreatedAt point < now \<longrightarrow> key0 \<noteq> [] \<and> t0 \<le> cCreatedAt point"
    by (auto simp: x scanPoint_def split: if_splits)
  then show ?case
  proof cases
    case 1
    then show ?thesis using ih k by (auto simp: x)
  next
    case 2
    then show ?thesis using ih by (fastforce simp: x)
  qed
qed auto

text \<open>What freeing removes: points of the session from earlier requests, the oldest first.\<close>

definition frees :: "gostring \<Rightarrow> gotime \<Rightarrow> continuation_points \<Rightarrow> continuation_points \<Rightarrow> bool" where
  "frees session now ps qs \<longleftrightarrow> set qs \<subseteq> set ps \<and>
     (\<forall>x \<in> set ps - set qs. cSession (snd x) = session \<and> cCreatedAt (snd x) < now \<and>
        (\<forall>y \<in> set qs. cSession (snd y) = session \<longrightarrow> cCreatedAt (snd x) \<le> cCreatedAt (snd y)))"

lemma frees_refl [simp]: "frees session now ps ps"
  by (simp add: frees_def)

lemma frees_trans:
  assumes a: "frees session now ps qs" and b: "frees session now qs rs"
  shows "frees session now ps rs"
proof -
  have "cSession (snd x) = session \<and> cCreatedAt (snd x) < now \<and>
      (\<forall>y \<in> set rs. cSession (snd y) = session \<longrightarrow> cCreatedAt (snd x) \<le> cCreatedAt (snd y))"
    if "x \<in> set ps - set rs" for x
  proof (cases "x \<in> set qs")
    case True
    then show ?thesis using b that unfolding frees_def by blast
  next
    case False
    then show ?thesis using a b that unfolding frees_def by (meson Diff_iff subsetD)
  qed
  then show ?thesis using a b unfolding frees_def by blast
qed

lemma delete_oldest:
  assumes "table_wf point_ok ps" and "scanPoints rank session now ps = (n, key, t)" and "key \<noteq> []"
  shows "frees session now ps (AList.delete key ps)"
proof -
  define xs where "xs = sort_key (\<lambda>(key, _). rank (length ps) key) ps"
  have set: "set xs = set ps" by (simp add: xs_def)
  have named: "[] \<notin> fst ` set xs" using assms(1) by (auto simp: set table_wf_def list_all_iff point_ok_def)
  have scan: "fold (scanPoint session now) xs (0, [], zeroTime) = (n, key, t)"
    using assms(2) by (simp add: scanPoints_def xs_def)
  obtain point where p: "(key, point) \<in> set ps" "cSession point = session" "cCreatedAt point = t" "t < now"
    using scan_oldest [OF scan assms(3) named] assms(3) by (auto simp: set)
  have old: "t \<le> cCreatedAt q" if "(k, q) \<in> set ps" "cSession q = session" for k q
    using scan_oldest [OF scan assms(3) named] that p(4) by (fastforce simp: set)
  have "point' = point" if "(key, point') \<in> set ps" for point'
    using assms(1) p(1) that by (auto simp: table_wf_def dest: eq_key_imp_eq_value)
  then have only: "x = (key, point)" if "x \<in> set ps - set (AList.delete key ps)" for x
    using that by (cases x) (auto simp: AList.delete_eq)
  have sub: "set (AList.delete key ps) \<subseteq> set ps" by (auto simp: AList.delete_eq)
  show ?thesis
    unfolding frees_def
  proof (intro conjI sub ballI impI)
    fix x assume "x \<in> set ps - set (AList.delete key ps)"
    then have x: "x = (key, point)" by (rule only)
    show "cSession (snd x) = session" "cCreatedAt (snd x) < now" using p by (simp_all add: x)
    fix y assume "y \<in> set (AList.delete key ps)" "cSession (snd y) = session"
    then show "cCreatedAt (snd x) \<le> cCreatedAt (snd y)"
      using old [of "fst y" "snd y"] sub p(3) by (auto simp: x)
  qed
qed

lemma free_spec:
  "freeOldestLocked rank session now limit ps = (room, qs) \<Longrightarrow> table_wf point_ok ps \<Longrightarrow>
     table_wf point_ok qs \<and> frees session now ps qs \<and> (room \<longleftrightarrow> int (held session qs) < limit) \<and>
     (\<not> room \<longrightarrow> (\<forall>x \<in> set qs. cSession (snd x) = session \<longrightarrow> \<not> cCreatedAt (snd x) < now))"
proof (induction rank session now limit ps rule: freeOldestLocked.induct)
  case (1 rank session now limit ps)
  note IH = 1(1) and run = 1(2) and wf = 1(3)
  obtain n key t where s: "scanPoints rank session now ps = (n, key, t)" by (rule prod_cases3)
  have n: "n = int (held session ps)" by (rule scanPoints_held [OF s])
  note unfold = freeOldestLocked.simps [of rank session now limit ps]
  consider "n < limit" | "\<not> n < limit" "key = []" | "\<not> n < limit" "key \<noteq> []" by blast
  then show ?case
  proof cases
    case 1
    then show ?thesis using run wf s n by (simp add: unfold)
  next
    case 2
    have "[] \<notin> fst ` set (sort_key (\<lambda>(key, _). rank (length ps) key) ps)"
      using wf by (auto simp: table_wf_def list_all_iff point_ok_def)
    from scan_none [OF this, of session now "(0, [], zeroTime)"] 2 s
    have "\<forall>x \<in> set ps. cSession (snd x) = session \<longrightarrow> \<not> cCreatedAt (snd x) < now"
      by (auto simp: scanPoints_def)
    then show ?thesis using run wf 2 s n by (simp add: unfold)
  next
    case 3
    have "freeOldestLocked rank session now limit (AList.delete key ps) = (room, qs)"
      using run s 3 by (simp add: unfold)
    from IH [OF s [symmetric] refl 3 this table_wf_delete [OF wf]] delete_oldest [OF wf s 3(2)]
    show ?thesis by (auto intro: frees_trans)
  qed
qed

section \<open>The invariant of the points\<close>

lemma held_filter: "held session (filter P ps) \<le> held session ps"
  unfolding held_def by (induction ps) auto

lemma held_update: "held session (AList.update k v ps) \<le> held session ps + (if cSession v = session then 1 else 0)"
  unfolding held_def by (induction ps) auto

lemma held_delete: "held session (AList.delete k ps) \<le> held session ps"
  unfolding AList.delete_eq by (rule held_filter)

lemma held_delete_own:
  "map_of ps k = Some p \<Longrightarrow> cSession p = session \<Longrightarrow> held session (AList.delete k ps) < held session ps"
proof (induction ps)
  case (Cons x ps)
  then show ?case using held_delete [of session k ps] by (cases x) (auto simp: held_def AList.delete_eq split: if_splits)
qed simp

lemma held_set:
  assumes "distinct (map fst ps)"
  shows "held session ps = card {x \<in> set ps. cSession (snd x) = session}"
proof -
  have "distinct ps" using assms by (simp add: distinct_map)
  then show ?thesis
    unfolding held_def by (simp add: distinct_card [symmetric] Collect_conj_eq [symmetric] case_prod_unfold)
qed

lemma held_frees:
  assumes "frees session now ps qs" "table_wf point_ok ps" "table_wf point_ok qs"
  shows "held other qs \<le> held other ps"
  using assms by (auto simp: held_set table_wf_distinct frees_def intro!: card_mono)

lemma expire_simps [simp]: "bsLimits (expireLocked now svc) = bsLimits svc" "hasPopulator (expireLocked now svc) = hasPopulator svc"
  by (simp_all add: expireLocked_def)

lemma inv_fewer:
  "points_inv svc \<Longrightarrow> points svc' = filter P (points svc) \<Longrightarrow> bsLimits svc' = bsLimits svc \<Longrightarrow> points_inv svc'"
  unfolding points_inv_def
  by (auto simp: table_wf_filter intro: order_trans [OF of_nat_mono [OF held_filter]])

lemma expire_inv: "points_inv svc \<Longrightarrow> points_inv (expireLocked now svc)"
  by (erule inv_fewer) (simp_all add: expireLocked_def)

lemma delete_inv: "points_inv svc \<Longrightarrow> points_inv (svc\<lparr>points := AList.delete k (points svc)\<rparr>)"
  by (erule inv_fewer) (simp_all add: AList.delete_eq)

lemma store_inv:
  assumes "points_inv svc" and "storeContinuation rank rand session remaining maximum now svc = (r, svc')"
    and "remaining \<noteq> []" and "0 < maximum" and "rand \<noteq> Some []"
  shows "points_inv svc' \<and> bsLimits svc' = bsLimits svc"
proof -
  define svc1 where "svc1 = expireLocked now svc"
  obtain room qs where f: "freeOldestLocked rank session now (MaxContinuationPoints (bsLimits svc1)) (points svc1) = (room, qs)"
    by (rule prod.exhaust)
  have inv: "points_inv svc1" unfolding svc1_def by (rule expire_inv [OF assms(1)])
  then have wf: "table_wf point_ok (points svc1)" by (simp add: points_inv_def)
  have spec: "table_wf point_ok qs" "frees session now (points svc1) qs"
      "room \<longleftrightarrow> int (held session qs) < MaxContinuationPoints (bsLimits svc1)"
    using free_spec [OF f wf] by blast+
  have held: "held other qs \<le> held other (points svc1)" for other by (rule held_frees [OF spec(2) wf spec(1)])
  have 1: "points_inv (svc1\<lparr>points := qs\<rparr>)"
    using inv spec(1) held unfolding points_inv_def by (auto intro: order_trans [OF of_nat_mono])
  define new where "new = \<lparr>cRemaining = remaining, cCreatedAt = now, cSession = session, cMaximum = maximum\<rparr>"
  have 2: "points_inv (svc1\<lparr>points := AList.update i new qs\<rparr>)" if "room" "i \<noteq> []" for i
  proof -
    have "table_wf point_ok (AList.update i new qs)"
      by (rule table_wf_update [OF spec(1)]) (use that assms(3,4) in \<open>simp add: point_ok_def new_def\<close>)
    moreover have "int (held other (AList.update i new qs)) \<le> MaxContinuationPoints (bsLimits svc1)" for other
    proof -
      have "int (held other qs) \<le> MaxContinuationPoints (bsLimits svc1)" using 1 by (simp add: points_inv_def)
      then show ?thesis using held_update [of other i new qs] spec(3) that(1) by (cases "other = session") (auto simp: new_def)
    qed
    ultimately show ?thesis using inv by (simp add: points_inv_def)
  qed
  show ?thesis
    using assms(2,5) f 1 2
    by (auto simp: storeContinuation_def Let_def svc1_def [symmetric] new_def split: if_splits option.splits)
      (simp_all add: svc1_def)
qed

lemma browseNode_inv:
  assumes "points_inv svc" and "browseNode rank rand session description maximum now s svc = (r, svc')"
    and "0 < maximum" and "rand \<noteq> Some []"
  shows "points_inv svc' \<and> bsLimits svc' = bsLimits svc"
proof (cases "svc' = svc")
  case False
  have "\<exists>matched r'. int (length matched) > maximum \<and>
      storeContinuation rank rand session (drop (nat maximum) matched) maximum now svc = (r', svc')"
    using assms(2) False
    by (auto simp: browseNode_def Let_def split: if_splits option.splits prod.splits sum.splits) (meson not_le)+
  then obtain matched r' where "int (length matched) > maximum"
      and st: "storeContinuation rank rand session (drop (nat maximum) matched) maximum now svc = (r', svc')" by blast
  then show ?thesis using store_inv [OF assms(1) st] assms(3,4) by auto
qed (simp add: assms(1))

lemma continue_inv:
  assumes "points_inv svc" and "continueBrowse rand session point now svc = (r, svc')" and "rand \<noteq> Some []"
  shows "points_inv svc' \<and> bsLimits svc' = bsLimits svc"
proof -
  define svc1 where "svc1 = expireLocked now svc"
  have inv: "points_inv svc1" unfolding svc1_def by (rule expire_inv [OF assms(1)])
  have lim: "bsLimits svc1 = bsLimits svc" by (simp add: svc1_def)
  have drop: "points_inv (svc1\<lparr>points := AList.delete point (points svc1)\<rparr>)"
    by (rule delete_inv [OF inv])
  have "points_inv (svc1\<lparr>points := AList.update i new (AList.delete point (points svc1))\<rparr>)"
    if st: "map_of (points svc1) point = Some stored" "cSession stored = session"
      and new: "new = \<lparr>cRemaining = drop (nat (cMaximum stored)) (cRemaining stored), cCreatedAt = now,
        cSession = session, cMaximum = cMaximum stored\<rparr>"
      and more: "\<not> int (length (cRemaining stored)) \<le> cMaximum stored" and i: "i \<noteq> []" for stored new i
  proof -
    have "point_ok point stored" using inv st(1) table_wf_lookup unfolding points_inv_def by metis
    then have ok: "point_ok i new" using more i by (auto simp: point_ok_def new)
    have "int (held other (AList.update i new (AList.delete point (points svc1)))) \<le> MaxContinuationPoints (bsLimits svc1)" for other
    proof -
      have "int (held other (points svc1)) \<le> MaxContinuationPoints (bsLimits svc1)" using inv by (simp add: points_inv_def)
      then show ?thesis
        using held_update [of other i new "AList.delete point (points svc1)"] held_delete [of other point "points svc1"]
          held_delete_own [OF st] by (cases "other = session") (auto simp: new)
    qed
    then show ?thesis using drop ok by (simp add: points_inv_def table_wf_update)
  qed
  then show ?thesis
    using assms(2,3) inv drop lim
    by (auto simp: continueBrowse_def Let_def svc1_def [symmetric] split: if_splits option.splits)
qed

inductive points_step :: "BrowseService \<Rightarrow> BrowseService \<Rightarrow> bool" where
  browse: "0 < maximum \<Longrightarrow> rand \<noteq> Some [] \<Longrightarrow>
    points_step svc (snd (browseNode rank rand session description maximum now s svc))"
| next_page: "rand \<noteq> Some [] \<Longrightarrow> points_step svc (snd (continueBrowse rand session point now svc))"
| release: "points_step svc (releasePoint session point svc)"
| session_end: "points_step svc (snd (ReleaseSession session svc))"
| expire: "points_step svc (snd (ExpireContinuationPoints now svc))"
| attach_source: "points_step svc (AttachPopulator svc)"

definition points_start :: "BrowseService \<Rightarrow> bool" where
  "points_start svc \<longleftrightarrow> (\<exists>limits. NewBrowseService limits = Inr svc)"

interpretation points_machine: state_machine points_start points_step points_inv
proof unfold_locales
  show "points_start svc \<Longrightarrow> points_inv svc" for svc
    by (cases svc) (auto simp: points_start_def NewBrowseService_def points_inv_def held_def limits_positive [THEN conjunct1, THEN less_imp_le]
        split: option.splits)
next
  fix svc svc' assume inv: "points_inv svc" and "points_step svc svc'"
  from this(2) show "points_inv svc'"
  proof cases
    case (browse maximum rand rank session description now s)
    then show ?thesis using browseNode_inv [OF inv prod.collapse [symmetric]] by simp
  next
    case (next_page rand session point now)
    then show ?thesis using continue_inv [OF inv prod.collapse [symmetric]] by simp
  next
    case (release session point)
    then show ?thesis using inv
      by (auto simp: releasePoint_def delete_inv split: option.split)
  next
    case (session_end session)
    then show ?thesis by (auto simp: ReleaseSession_def intro!: inv_fewer [OF inv])
  next
    case (expire now)
    then show ?thesis using expire_inv [OF inv] by (simp add: ExpireContinuationPoints_def Let_def)
  next
    case attach_source
    then show ?thesis using inv by (simp add: points_inv_def AttachPopulator_def)
  qed
qed

section \<open>Pages\<close>

text \<open>A client that follows the continuation points of one node, with the identifier drawn and the
  time of each BrowseNext.\<close>

fun follow :: "(byte list \<times> gotime) list \<Rightarrow> gostring \<Rightarrow> BrowseResult \<Rightarrow> BrowseService \<Rightarrow> BrowseResult list" where
  "follow [] session page svc = [page]"
| "follow ((identifier, now) # rest) session page svc =
     (if brContinuationPoint page = [] then [page]
      else case continueBrowse (Some identifier) session (brContinuationPoint page) now svc of
          (next, svc) \<Rightarrow> page # follow rest session next svc)"

fun timely :: "int \<Rightarrow> gotime \<Rightarrow> (byte list \<times> gotime) list \<Rightarrow> bool" where
  "timely expiry before [] \<longleftrightarrow> True"
| "timely expiry before ((identifier, now) # rest) \<longleftrightarrow>
     identifier \<noteq> [] \<and> now - before < expiry \<and> timely expiry now rest"

definition page_ok :: "int \<Rightarrow> BrowseResult \<Rightarrow> bool" where
  "page_ok maximum page \<longleftrightarrow> brStatusCode page = StatusGood \<and> int (length (brReferences page)) \<le> maximum"

lemma expire_lookup:
  assumes "points_inv svc" and "map_of (points svc) k = Some p" and "now - cCreatedAt p < ContinuationPointExpiry (bsLimits svc)"
  shows "map_of (points (expireLocked now svc)) k = Some p"
  using assms by (auto simp: expireLocked_def points_inv_def map_of_filter table_wf_distinct)

lemma follow_head: "\<exists>pages. follow xs session page svc = page # pages"
  by (cases xs) (auto split: prod.split)

lemma follow_complete:
  assumes "points_inv svc" and "0 < maximum" and "k \<noteq> []" and "k = brContinuationPoint page"
    and "map_of (points svc) k = Some \<lparr>cRemaining = remaining, cCreatedAt = before, cSession = session, cMaximum = maximum\<rparr>"
    and "timely (ContinuationPointExpiry (bsLimits svc)) before xs" and "length remaining \<le> length xs" and "remaining \<noteq> []"
  shows "concat (map brReferences (follow xs session page svc)) = brReferences page @ remaining \<and>
    list_all (page_ok maximum) (tl (follow xs session page svc)) \<and> brContinuationPoint (last (follow xs session page svc)) = []"
  using assms
proof (induction xs arbitrary: k page svc remaining before)
  case (Cons x xs)
  obtain i now where x: "x = (i, now)" by (cases x)
  define stored where "stored = \<lparr>cRemaining = remaining, cCreatedAt = before, cSession = session, cMaximum = maximum\<rparr>"
  have found: "map_of (points (expireLocked now svc)) k = Some stored"
    using expire_lookup [OF Cons.prems(1)] Cons.prems(5,6) by (simp add: stored_def x)
  obtain page' svc' where c: "continueBrowse (Some i) session k now svc = (page', svc')" by (rule prod.exhaust)
  have f: "follow (x # xs) session page svc = page # follow xs session page' svc'"
    using c Cons.prems(3,4) by (simp add: x)
  have inv: "points_inv svc'" "bsLimits svc' = bsLimits svc"
    using continue_inv [OF Cons.prems(1) c] Cons.prems(6) by (auto simp: x)
  show ?case
  proof (cases "int (length remaining) \<le> maximum")
    case True
    then have p': "page' = \<lparr>brStatusCode = StatusGood, brContinuationPoint = [], brReferences = remaining\<rparr>"
      using c found by (simp add: continueBrowse_def Let_def stored_def)
    then have "follow xs session page' svc' = [page']" "page_ok maximum page'"
      using True by (cases xs; auto simp: page_ok_def)+
    then show ?thesis using p' by (simp add: f)
  next
    case False
    then have p: "page' = \<lparr>brStatusCode = StatusGood, brContinuationPoint = i, brReferences = take (nat maximum) remaining\<rparr>"
        "map_of (points svc') i = Some \<lparr>cRemaining = drop (nat maximum) remaining, cCreatedAt = now, cSession = session, cMaximum = maximum\<rparr>"
      using c found by (auto simp: continueBrowse_def Let_def stored_def update_conv')
    have "concat (map brReferences (follow xs session page' svc')) = brReferences page' @ drop (nat maximum) remaining \<and>
        list_all (page_ok maximum) (tl (follow xs session page' svc')) \<and> brContinuationPoint (last (follow xs session page' svc')) = []"
      by (rule Cons.IH [OF inv(1) Cons.prems(2) _ _ p(2)]) (use Cons.prems(2,6,7) False inv(2) in \<open>auto simp: x p(1)\<close>)
    moreover have "page_ok maximum page'" using p(1) Cons.prems(2) by (simp add: page_ok_def)
    moreover obtain pages where "follow xs session page' svc' = page' # pages"
      using follow_head by blast
    ultimately show ?thesis using p(1) by (simp add: f)
  qed
qed simp

section \<open>Properties\<close>

lemma store_new:
  assumes "storeContinuation rank rand session remaining maximum now svc = (Inr k, svc')"
  shows "rand = Some k" "map_of (points svc') k = Some \<lparr>cRemaining = remaining, cCreatedAt = now, cSession = session, cMaximum = maximum\<rparr>"
  using assms by (auto simp: storeContinuation_def Let_def update_conv' split: prod.splits if_splits option.splits)

lemma store_failed: "storeContinuation rank rand session remaining maximum now svc = (Inl status, svc') \<Longrightarrow> status \<noteq> StatusGood"
  by (auto simp: storeContinuation_def Let_def StatusBadNoContinuationPoints_def StatusBadTcpInternalError_def StatusGood_def
      split: prod.splits if_splits option.splits)

text \<open>Claim C21: paging loses nothing and repeats nothing. A client that browses a node and follows its
  continuation points, each before it expires, is given every reference of the node that matches
  its description, each exactly once and in the order of the node, in Good pages of at most the
  size it asked for, and the last page carries no point; as many BrowseNext calls as there are
  references are always enough.\<close>

theorem browse_pages_complete:
  assumes "reachable points_start points_step svc" and "0 < maximum" and "rand \<noteq> Some []"
    and "space_Node (bdNodeID description) s = Some node"
    and "browseNode rank rand session description maximum now s svc = (page, svc')" and "brStatusCode page = StatusGood"
    and "timely (ContinuationPointExpiry (bsLimits svc)) now xs" and "length (matchedReferences description node) \<le> length xs"
  shows "concat (map brReferences (follow xs session page svc')) = matchedReferences description node \<and>
    list_all (page_ok maximum) (follow xs session page svc') \<and>
    brContinuationPoint (last (follow xs session page svc')) = []"
proof -
  have inv: "points_inv svc" using assms(1) by (rule points_machine.reachable_inv)
  have inv': "points_inv svc'" "bsLimits svc' = bsLimits svc" using browseNode_inv [OF inv assms(5,2,3)] by auto
  define matched where "matched = matchedReferences description node"
  have bad: "StatusBadBrowseDirectionInvalid \<noteq> StatusGood" "StatusBadReferenceTypeIDInvalid \<noteq> StatusGood"
    by (simp_all add: StatusBadBrowseDirectionInvalid_def StatusBadReferenceTypeIDInvalid_def StatusGood_def)
  show ?thesis
  proof (cases "int (length matched) \<le> maximum")
    case True
    then have "page = \<lparr>brStatusCode = StatusGood, brContinuationPoint = [], brReferences = matched\<rparr>"
      using assms(4-6) bad
      by (auto simp: browseNode_def Let_def matched_def failedBrowse_def split: if_splits prod.splits sum.splits dest: store_failed)
    then show ?thesis using True by (cases xs) (auto simp: page_ok_def matched_def)
  next
    case False
    then obtain k where st: "storeContinuation rank rand session (drop (nat maximum) matched) maximum now svc = (Inr k, svc')"
        and page: "page = \<lparr>brStatusCode = StatusGood, brContinuationPoint = k, brReferences = take (nat maximum) matched\<rparr>"
      using assms(4-6) bad
      by (auto simp: browseNode_def Let_def matched_def failedBrowse_def split: if_splits prod.splits sum.splits dest: store_failed)
    have "concat (map brReferences (follow xs session page svc')) = brReferences page @ drop (nat maximum) matched \<and>
        list_all (page_ok maximum) (tl (follow xs session page svc')) \<and> brContinuationPoint (last (follow xs session page svc')) = []"
      by (rule follow_complete [OF inv'(1) assms(2) _ _ store_new(2) [OF st]])
        (use False assms(2,3,7,8) inv'(2) store_new(1) [OF st] in \<open>auto simp: page matched_def\<close>)
    moreover have "page_ok maximum page" using assms(2) by (simp add: page page_ok_def)
    moreover obtain pages where "follow xs session page svc' = page # pages" using follow_head by blast
    ultimately show ?thesis by (simp add: page matched_def)
  qed
qed

definition service_sample :: BrowseService where
  "service_sample = \<lparr>bsLimits = DefaultBrowseLimits, hasPopulator = False, points = []\<rparr>"

lemma service_sample_reachable: "reachable points_start points_step service_sample"
proof (rule reachable.initial)
  have "NewBrowseService DefaultBrowseLimits = Inr service_sample"
    by (simp add: NewBrowseService_def BrowseLimits_validate_def service_sample_def DefaultBrowseLimits_def)
  then show "points_start service_sample" unfolding points_start_def by blast
qed

definition node_three :: Node where
  "node_three = addForward (NumericNodeID 0 NodeIDOrganizes) zeroNode (addForward (NumericNodeID 0 NodeIDHasProperty) zeroNode
     (addForward (NumericNodeID 0 NodeIDOrganizes) zeroNode (zeroNode\<lparr>nID := NumericNodeID 2 7\<rparr>)))"

definition space_three :: AddressSpace where
  "space_three = put_node node_three empty_space"

definition description_sample :: BrowseDescription where
  "description_sample = \<lparr>bdNodeID = NumericNodeID 2 7, bdBrowseDirection = BrowseDirectionForward,
     bdReferenceTypeID = zeroNodeID, IncludeSubtypes = True, NodeClassMask = 0, ResultMask = 0x3F\<rparr>"

theorem browse_pages_complete_witness:
  "\<exists>page svc'. browseNode (\<lambda>_ _. 0) (Some [1]) [115] description_sample 1 0 space_three service_sample = (page, svc') \<and>
     length (matchedReferences description_sample node_three) = 3 \<and>
     concat (map brReferences (follow [([2], 1), ([3], 2), ([4], 3)] [115] page svc')) = matchedReferences description_sample node_three"
proof -
  obtain page svc' where b: "browseNode (\<lambda>_ _. 0) (Some [1]) [115] description_sample 1 0 space_three service_sample = (page, svc')"
    by (rule prod.exhaust)
  have node: "space_Node (bdNodeID description_sample) space_three = Some node_three"
    by (simp add: description_sample_def space_three_def space_Node_def put_node_def node_three_def addForward_def update_conv')
  have three: "length (matchedReferences description_sample node_three) = 3" by code_simp
  have "brStatusCode (fst (browseNode (\<lambda>_ _. 0) (Some [1]) [115] description_sample 1 0 space_three service_sample)) = StatusGood"
    by code_simp
  then have good: "brStatusCode page = StatusGood" by (simp add: b)
  have "timely (ContinuationPointExpiry (bsLimits service_sample)) 0 [([2], 1), ([3], 2), ([4], 3)]"
    by (simp add: service_sample_def DefaultBrowseLimits_def)
  from browse_pages_complete [OF service_sample_reachable _ _ node b good this] three b show ?thesis by simp
qed

lemma store_keeps_others:
  assumes "points_inv svc" and "storeContinuation rank rand session remaining maximum now svc = (r, svc')"
    and "map_of (points svc) k = Some p" and "cSession p \<noteq> session" and "now - cCreatedAt p < ContinuationPointExpiry (bsLimits svc)"
    and "rand \<noteq> Some k"
  shows "map_of (points svc') k = Some p"
proof -
  define svc1 where "svc1 = expireLocked now svc"
  obtain room qs where f: "freeOldestLocked rank session now (MaxContinuationPoints (bsLimits svc1)) (points svc1) = (room, qs)"
    by (rule prod.exhaust)
  have wf: "table_wf point_ok (points svc1)"
    using expire_inv [OF assms(1)] by (simp add: points_inv_def svc1_def)
  have "map_of (points svc1) k = Some p" unfolding svc1_def by (rule expire_lookup [OF assms(1,3,5)])
  then have "(k, p) \<in> set (points svc1)" by (rule map_of_SomeD)
  then have "(k, p) \<in> set qs" using free_spec [OF f wf] assms(4) unfolding frees_def by force
  then have "map_of qs k = Some p" using free_spec [OF f wf] by (auto simp: table_wf_def)
  then show ?thesis
    using assms(2,6) f
    by (auto simp: storeContinuation_def Let_def svc1_def [symmetric] update_conv' split: if_splits option.splits)
qed



lemma ensurePopulated_within:
  assumes "ensurePopulated await rt i now ch svc (p, s, w) = (er, p', s', w')" and "inflight p = Map.empty"
    and "0 < RefreshInterval (poLimits p)"
  shows "within_budget format (plMaxNodes (poLimits p)) s s' \<and> inflight p' = Map.empty \<and> poLimits p' = poLimits p"
proof -
  have ask: "within_budget format (plMaxNodes (poLimits p)) s s' \<and> inflight p' = Map.empty \<and> poLimits p' = poLimits p"
    if "Ensure await rt now ch r (p, s, w) = (er, p', s', w')" for r
    using Ensure_exact [OF that, of format] assms(2,3) by simp
  have "(p', s') = (p, s) \<or> (\<exists>r. Ensure await rt now ch r (p, s, w) = (er, p', s', w'))"
    using assms(1) unfolding ensurePopulated_def
    by (auto split: if_splits prod.splits option.splits NodeKind.splits) (metis Ensure.simps)+
  then show ?thesis using ask assms(2) by auto
qed

text \<open>What every entry of a Browse keeps.\<close>

definition browse_state_ok :: "(Variant \<Rightarrow> gostring) \<Rightarrow> int \<Rightarrow> BrowseService \<times> 'w populating \<Rightarrow> bool" where
  "browse_state_ok format m = (\<lambda>(svc, p, s, w). points_inv svc \<and> PopulationLimits_validate (poLimits p) = None \<and>
     plMaxNodes (poLimits p) = m \<and> inflight p = Map.empty \<and> reachable space_start (space_step format) s \<and> SourceNodeCount s \<le> m)"

lemma browseEntry_ok:
  assumes "browseEntry await rt rank rand chan session maximum now k description st = (result, st')"
    and "browse_state_ok format m st" and "0 < maximum" and "rand k \<noteq> Some []"
  shows "browse_state_ok format m st'"
proof -
  obtain svc p s w where st: "st = (svc, p, s, w)" by (metis surj_pair)
  obtain er p' s' w' where e: "ensurePopulated await rt (bdNodeID description) now (chan k) svc (p, s, w) = (er, p', s', w')"
    by (metis surj_pair)
  have ok: "points_inv svc" "PopulationLimits_validate (poLimits p) = None" "plMaxNodes (poLimits p) = m" "inflight p = Map.empty"
      "reachable space_start (space_step format) s" "SourceNodeCount s \<le> m"
    using assms(2) by (simp_all add: st browse_state_ok_def)
  have limits: "0 < RefreshInterval (poLimits p)" "0 < m"
    using ok(2,3) by (auto simp: PopulationLimits_validate_def split: if_splits)
  have w: "within_budget format m s s'" "inflight p' = Map.empty" "poLimits p' = poLimits p"
    using ensurePopulated_within [OF e ok(4) limits(1), of format] ok(3) by auto
  have "reachable space_start (space_step format) s'"
    using w(1) ok(5) unfolding within_budget_def space_machine.reachable_steps by (meson rtranclp_trans)
  moreover have "SourceNodeCount s' \<le> m"
    using w(1) ok(6) limits(2) space_machine.reachable_inv [OF ok(5)] by (auto simp: within_budget_def)
  ultimately have after: "browse_state_ok format m (svc', p', s', w')" if "points_inv svc'" for svc'
    using that w ok by (simp add: browse_state_ok_def)
  show ?thesis
    using assms(1) e after ok(1) browseNode_inv [OF ok(1) _ assms(3,4)]
    by (auto simp: browseEntry_def st split: option.splits prod.splits)
qed

lemma browseEntries_ok:
  "browseEntries await rt rank rand chan session maximum now k ds st = (results, st') \<Longrightarrow> browse_state_ok format m st \<Longrightarrow>
     0 < maximum \<Longrightarrow> (\<And>k. rand k \<noteq> Some []) \<Longrightarrow> browse_state_ok format m st' \<and> length results = length ds"
proof (induction ds arbitrary: k st results)
  case (Cons d ds)
  obtain result st1 where e: "browseEntry await rt rank rand chan session maximum now k d st = (result, st1)" by (rule prod.exhaust)
  obtain results' where r: "browseEntries await rt rank rand chan session maximum now (Suc k) ds st1 = (results', st')"
      "results = result # results'"
    using Cons.prems(1) e by (auto split: prod.splits)
  have "browse_state_ok format m st1" by (rule browseEntry_ok [OF e Cons.prems(2,3,4)])
  then show ?case using Cons.IH [OF r(1)] Cons.prems r(2) by simp
qed simp

lemma pageSize_positive: "BrowseLimits_validate limits = None \<Longrightarrow> 0 < pageSize request limits"
  using limits_positive by (auto simp: pageSize_def Let_def word_less_def)

text \<open>Claim C23: a Browse is answered entry by entry and stays within every bound of the server. With
  nobody else asking the source, an accepted request gets one result per entry, and afterwards
  the address space is one its operations can reach, its source nodes are within the budget, no
  call is left running and every session is within its continuation points, whatever the source
  answered. A refused request changes nothing.\<close>

theorem browse_service_bounded:
  assumes "reachable points_start points_step svc" and "reachable space_start (space_step format) s"
    and "PopulationLimits_validate (poLimits p) = None" and "SourceNodeCount s \<le> plMaxNodes (poLimits p)"
    and "inflight p = Map.empty" and "\<And>k. rand k \<noteq> Some []"
    and "Service_Browse await rt rank rand chan session request now (svc, p, s, w) = (r, svc', p', s', w')"
  shows "(case r of Inl er \<Rightarrow> (svc', p', s', w') = (svc, p, s, w)
      | Inr response \<Rightarrow> length (bpResults response) = length (NodesToBrowse request)) \<and>
    reachable space_start (space_step format) s' \<and> SourceNodeCount s' \<le> plMaxNodes (poLimits p) \<and> inflight p' = Map.empty \<and>
    (\<forall>session. int (length (filter (\<lambda>(key, point). cSession point = session) (points svc'))) \<le> MaxContinuationPoints (bsLimits svc'))"
proof -
  have inv: "points_inv svc" using assms(1) by (rule points_machine.reachable_inv)
  then have size: "0 < pageSize request (bsLimits svc)" by (simp add: points_inv_def pageSize_positive)
  have ok: "browse_state_ok format (plMaxNodes (poLimits p)) (svc, p, s, w)"
    using inv assms by (simp add: browse_state_ok_def)
  obtain results st where b: "browseEntries await rt rank rand chan session (pageSize request (bsLimits svc)) now 0
      (NodesToBrowse request) (svc, p, s, w) = (results, st)" by (rule prod.exhaust)
  have all: "browse_state_ok format (plMaxNodes (poLimits p)) st" "length results = length (NodesToBrowse request)"
    using browseEntries_ok [OF b ok size assms(6)] by auto
  have "(case r of Inl er \<Rightarrow> (svc', p', s', w') = (svc, p, s, w)
      | Inr response \<Rightarrow> length (bpResults response) = length (NodesToBrowse request)) \<and>
      browse_state_ok format (plMaxNodes (poLimits p)) (svc', p', s', w')"
    using assms(7) b ok all by (auto simp: Service_Browse_def Let_def split: if_splits)
  then show ?thesis by (auto simp: browse_state_ok_def points_inv_def held_def)
qed

definition browse_request_sample :: BrowseRequest where
  "browse_request_sample = \<lparr>bqHeader = request_header_sample, bqView = \<lparr>ViewID = zeroNodeID, vdTimestamp = zeroTime, ViewVersion = 0\<rparr>,
     RequestedMaxReferencesPerNode = 0, NodesToBrowse = [description_sample, description_sample]\<rparr>"

theorem browse_service_bounded_witness:
  "\<exists>response svc' p' s' w'. Service_Browse (\<lambda>_ _. None) offline (\<lambda>_ _. 0) (\<lambda>k. Some [1]) id [115] browse_request_sample 7
      (service_sample, populator_sample, space_sample, ()) = (Inr response, svc', p', s', w') \<and>
     length (bpResults response) = 2 \<and> SourceNodeCount s' \<le> 50000"
proof -
  obtain r svc' p' s' w' where b: "Service_Browse (\<lambda>_ _. None) offline (\<lambda>_ _. 0) (\<lambda>k. Some [1]) id [115] browse_request_sample 7
      (service_sample, populator_sample, space_sample, ()) = (r, svc', p', s', w')"
    by (metis surj_pair)
  have sample: "PopulationLimits_validate (poLimits populator_sample) = None" "inflight populator_sample = Map.empty"
      "plMaxNodes (poLimits populator_sample) = 50000"
    by (simp_all add: populator_sample_def flight_sample_def PopulationLimits_validate_def DefaultPopulationLimits_def)
  have count: "SourceNodeCount space_sample \<le> plMaxNodes (poLimits populator_sample)"
    using new_space_inv(2) [OF space_sample_new] sample(3) by simp
  have "NodeID_IsNull zeroNodeID" by code_simp
  then obtain response where r: "r = Inr response"
    using b by (auto simp: Service_Browse_def browse_request_sample_def service_sample_def DefaultBrowseLimits_def Let_def split: prod.splits)
  have "length (NodesToBrowse browse_request_sample) = 2" by (simp add: browse_request_sample_def)
  then show ?thesis
    using browse_service_bounded [OF service_sample_reachable space_sample_reachable sample(1) count sample(2) _ b] b r sample(3)
    by auto
qed

end
