(* ===== verification/SubscriptionMessages.thy ===== *)
theory SubscriptionMessages
  imports DataAccessMessages
begin

text \<open>
  The messages of the subscription services, from \<^verbatim>\<open>src/internal/opcua/subscription.go\<close>: the
  requests and responses, and the notification message with its nested encoding.
\<close>

definition CreateSubscriptionRequestEncodingID :: uint32 where "CreateSubscriptionRequestEncodingID = 787"
definition CreateSubscriptionResponseEncodingID :: uint32 where "CreateSubscriptionResponseEncodingID = 790"
definition DeleteSubscriptionsRequestEncodingID :: uint32 where "DeleteSubscriptionsRequestEncodingID = 847"
definition DeleteSubscriptionsResponseEncodingID :: uint32 where "DeleteSubscriptionsResponseEncodingID = 850"
definition CreateMonitoredItemsRequestEncodingID :: uint32 where "CreateMonitoredItemsRequestEncodingID = 751"
definition CreateMonitoredItemsResponseEncodingID :: uint32 where "CreateMonitoredItemsResponseEncodingID = 754"
definition DeleteMonitoredItemsRequestEncodingID :: uint32 where "DeleteMonitoredItemsRequestEncodingID = 781"
definition DeleteMonitoredItemsResponseEncodingID :: uint32 where "DeleteMonitoredItemsResponseEncodingID = 784"
definition SetPublishingModeRequestEncodingID :: uint32 where "SetPublishingModeRequestEncodingID = 799"
definition SetPublishingModeResponseEncodingID :: uint32 where "SetPublishingModeResponseEncodingID = 802"
definition PublishRequestEncodingID :: uint32 where "PublishRequestEncodingID = 826"
definition PublishResponseEncodingID :: uint32 where "PublishResponseEncodingID = 829"
definition RepublishRequestEncodingID :: uint32 where "RepublishRequestEncodingID = 832"
definition RepublishResponseEncodingID :: uint32 where "RepublishResponseEncodingID = 835"
definition DataChangeNotificationEncodingID :: uint32 where "DataChangeNotificationEncodingID = 811"

type_synonym MonitoringMode = int32

definition MonitoringModeDisabled :: MonitoringMode where "MonitoringModeDisabled = 0"
definition MonitoringModeSampling :: MonitoringMode where "MonitoringModeSampling = 1"
definition MonitoringModeReporting :: MonitoringMode where "MonitoringModeReporting = 2"

definition MonitoringMode_Valid :: "MonitoringMode \<Rightarrow> bool" where
  "MonitoringMode_Valid m \<longleftrightarrow> sint MonitoringModeDisabled \<le> sint m \<and> sint m \<le> sint MonitoringModeReporting"

record MonitoringParameters =
  mpClientHandle :: uint32
  mpSamplingInterval :: float64
  mpFilter :: ExtensionObject
  QueueSize :: uint32
  DiscardOldest :: bool

record MonitoredItemCreateRequest =
  ItemToMonitor :: ReadValueID
  mqMonitoringMode :: int32
  RequestedParameters :: MonitoringParameters

record MonitoredItemCreateResult =
  mrStatusCode :: StatusCode
  mrMonitoredItemID :: uint32
  RevisedSamplingInterval :: float64
  RevisedQueueSize :: uint32
  FilterResult :: ExtensionObject

record MonitoredItemNotification =
  mnClientHandle :: uint32
  mnValue :: DataValue

record NotificationMessage =
  nmSequenceNumber :: uint32
  nmPublishTime :: gotime
  nmNotifications :: "MonitoredItemNotification list"
  HasData :: bool

record CreateSubscriptionRequest =
  sqHeader :: RequestHeader
  RequestedPublishingInterval :: float64
  RequestedLifetimeCount :: uint32
  RequestedMaxKeepAliveCount :: uint32
  sqMaxNotificationsPerPublish :: uint32
  sqPublishingEnabled :: bool
  Priority :: byte

record CreateSubscriptionResponse =
  spHeader :: ResponseHeader
  spSubscriptionID :: uint32
  RevisedPublishingInterval :: float64
  RevisedLifetimeCount :: uint32
  RevisedMaxKeepAliveCount :: uint32

record DeleteSubscriptionsRequest =
  dqHeader :: RequestHeader
  dqSubscriptionIDs :: "uint32 list"

record DeleteSubscriptionsResponse =
  dpHeader :: ResponseHeader
  dpResults :: "StatusCode list"
  dpDiagnostics :: "DiagnosticInfo list"

record CreateMonitoredItemsRequest =
  iqHeader :: RequestHeader
  iqSubscriptionID :: uint32
  iqTimestampsToReturn :: int32
  ItemsToCreate :: "MonitoredItemCreateRequest list"

record CreateMonitoredItemsResponse =
  ipHeader :: ResponseHeader
  ipResults :: "MonitoredItemCreateResult list"
  ipDiagnostics :: "DiagnosticInfo list"

record DeleteMonitoredItemsRequest =
  xqHeader :: RequestHeader
  xqSubscriptionID :: uint32
  MonitoredItemIDs :: "uint32 list"

record DeleteMonitoredItemsResponse =
  xpHeader :: ResponseHeader
  xpResults :: "StatusCode list"
  xpDiagnostics :: "DiagnosticInfo list"

record SetPublishingModeRequest =
  pqHeader :: RequestHeader
  pqPublishingEnabled :: bool
  pqSubscriptionIDs :: "uint32 list"

record SetPublishingModeResponse =
  ppHeader :: ResponseHeader
  ppResults :: "StatusCode list"
  ppDiagnostics :: "DiagnosticInfo list"

record SubscriptionAcknowledgement =
  akSubscriptionID :: uint32
  akSequenceNumber :: uint32

record PublishRequest =
  uqHeader :: RequestHeader
  Acknowledgements :: "SubscriptionAcknowledgement list"

record PublishResponse =
  upHeader :: ResponseHeader
  upSubscriptionID :: uint32
  AvailableSequenceNumbers :: "uint32 list"
  MoreNotifications :: bool
  upNotificationMessage :: NotificationMessage
  upResults :: "StatusCode list"
  upDiagnostics :: "DiagnosticInfo list"

record RepublishRequest =
  rbHeader :: RequestHeader
  rbSubscriptionID :: uint32
  RetransmitSequenceNumber :: uint32

record RepublishResponse =
  rsHeader :: ResponseHeader
  rsNotificationMessage :: NotificationMessage

section \<open>Writing and reading\<close>

definition writeUInt32Array :: "uint32 list \<Rightarrow> Encoder \<Rightarrow> Encoder" where
  "writeUInt32Array values = write_array WriteUInt32 values"

definition readUInt32Array :: "uint32 list reader" where
  "readUInt32Array = read_list 4 ReadUInt32"

definition writeStatusCodeResults :: "StatusCode list \<Rightarrow> DiagnosticInfo list \<Rightarrow> Encoder \<Rightarrow> Encoder" where
  "writeStatusCodeResults results diagnostics = seqw
     [write_array WriteStatusCode results, write_array WriteDiagnosticInfo diagnostics]"

definition readStatusCodeResults :: "(StatusCode list \<times> DiagnosticInfo list) reader" where
  "readStatusCodeResults =
     rbind (read_list 4 ReadStatusCode) (\<lambda>results.
     rbind (read_list 1 ReadDiagnosticInfo) (\<lambda>diagnostics.
     rreturn (results, diagnostics)))"

definition WriteMonitoringParameters :: "MonitoringParameters \<Rightarrow> Encoder \<Rightarrow> Encoder" where
  "WriteMonitoringParameters v = seqw
     [WriteUInt32 (mpClientHandle v), WriteDouble (mpSamplingInterval v),
      WriteExtensionObject (mpFilter v), WriteUInt32 (QueueSize v), WriteBoolean (DiscardOldest v)]"

definition ReadMonitoringParameters :: "MonitoringParameters reader" where
  "ReadMonitoringParameters =
     rbind ReadUInt32 (\<lambda>clientHandle.
     rbind ReadDouble (\<lambda>samplingInterval.
     rbind ReadExtensionObject (\<lambda>filter.
     rbind ReadUInt32 (\<lambda>queueSize.
     rbind ReadBoolean (\<lambda>discardOldest.
     rreturn \<lparr>mpClientHandle = clientHandle, mpSamplingInterval = samplingInterval, mpFilter = filter,
       QueueSize = queueSize, DiscardOldest = discardOldest\<rparr>)))))"

definition writeItemCreateRequest :: "MonitoredItemCreateRequest \<Rightarrow> Encoder \<Rightarrow> Encoder" where
  "writeItemCreateRequest v = seqw
     [WriteReadValueID (ItemToMonitor v), WriteInt32 (mqMonitoringMode v),
      WriteMonitoringParameters (RequestedParameters v)]"

definition readItemCreateRequest :: "MonitoredItemCreateRequest reader" where
  "readItemCreateRequest =
     rbind ReadReadValueID (\<lambda>itemToMonitor.
     rbind ReadInt32 (\<lambda>monitoringMode.
     rbind ReadMonitoringParameters (\<lambda>requestedParameters.
     rreturn \<lparr>ItemToMonitor = itemToMonitor, mqMonitoringMode = monitoringMode,
       RequestedParameters = requestedParameters\<rparr>)))"

definition writeItemCreateResult :: "MonitoredItemCreateResult \<Rightarrow> Encoder \<Rightarrow> Encoder" where
  "writeItemCreateResult v = seqw
     [WriteStatusCode (mrStatusCode v), WriteUInt32 (mrMonitoredItemID v),
      WriteDouble (RevisedSamplingInterval v), WriteUInt32 (RevisedQueueSize v),
      WriteExtensionObject (FilterResult v)]"

definition readItemCreateResult :: "MonitoredItemCreateResult reader" where
  "readItemCreateResult =
     rbind ReadStatusCode (\<lambda>statusCode.
     rbind ReadUInt32 (\<lambda>monitoredItemID.
     rbind ReadDouble (\<lambda>revisedSamplingInterval.
     rbind ReadUInt32 (\<lambda>revisedQueueSize.
     rbind ReadExtensionObject (\<lambda>filterResult.
     rreturn \<lparr>mrStatusCode = statusCode, mrMonitoredItemID = monitoredItemID,
       RevisedSamplingInterval = revisedSamplingInterval, RevisedQueueSize = revisedQueueSize,
       FilterResult = filterResult\<rparr>)))))"

definition writeItemNotification :: "MonitoredItemNotification \<Rightarrow> Encoder \<Rightarrow> Encoder" where
  "writeItemNotification v = seqw
     [WriteUInt32 (mnClientHandle v), WriteDataValue (mnValue v)]"

definition readItemNotification :: "MonitoredItemNotification reader" where
  "readItemNotification =
     rbind ReadUInt32 (\<lambda>clientHandle.
     rbind ReadDataValue (\<lambda>value.
     rreturn \<lparr>mnClientHandle = clientHandle, mnValue = value\<rparr>))"

text \<open>
  The notification message: its data is encoded by an encoder of its own, under the limits of
  the first, and travels as the body of an extension object; it is decoded by a decoder of its
  own, whose trailing bytes, the diagnostics, are not looked at. Objects of another type are
  skipped.
\<close>

definition WriteNotificationMessage :: "NotificationMessage \<Rightarrow> Encoder \<Rightarrow> Encoder" where
  "WriteNotificationMessage m = seqw
     [WriteUInt32 (nmSequenceNumber m), WriteDateTime (nmPublishTime m),
      if \<not> HasData m then WriteArrayLength 0
      else seqw
        [WriteArrayLength 1,
         (\<lambda>e. case NewEncoder (elimits e) of
            Inl er \<Rightarrow> efail er e
          | Inr body \<Rightarrow>
              (case Bytes (seqw [write_array writeItemNotification (nmNotifications m), WriteArrayLength 0] body) of
                 Inl er \<Rightarrow> efail er e
               | Inr encoded \<Rightarrow> WriteExtensionObject
                   \<lparr>TypeID = NumericNodeID 0 DataChangeNotificationEncodingID,
                    Encoding = ExtensionObjectByteString, Body = encoded\<rparr> e))]]"

definition read_nested :: "byte list \<Rightarrow> 'a reader \<Rightarrow> 'a reader" where
  "read_nested bytes r d = (case NewDecoder bytes (dlimits d) of
       Inl er \<Rightarrow> Inl er
     | Inr body \<Rightarrow> (case r body of Inl er \<Rightarrow> Inl er | Inr (v, _) \<Rightarrow> Inr (v, d)))"

primrec readNotificationObjects :: "nat \<Rightarrow> NotificationMessage \<Rightarrow> NotificationMessage reader" where
  "readNotificationObjects 0 m = rreturn m"
| "readNotificationObjects (Suc n) m = rbind ReadExtensionObject (\<lambda>object.
     if Namespace (TypeID object) \<noteq> 0 \<or> Numeric (TypeID object) \<noteq> DataChangeNotificationEncodingID
     then readNotificationObjects n m
     else rbind (read_nested (Body object) (read_list 5 readItemNotification)) (\<lambda>notifications.
       readNotificationObjects n
         (m\<lparr>HasData := True, nmNotifications := nmNotifications m @ notifications\<rparr>)))"

definition ReadNotificationMessage :: "NotificationMessage reader" where
  "ReadNotificationMessage =
     rbind ReadUInt32 (\<lambda>sequence.
     rbind ReadDateTime (\<lambda>publishTime.
     rbind (ReadArrayLength 3) (\<lambda>length.
     let message = \<lparr>nmSequenceNumber = sequence, nmPublishTime = publishTime, nmNotifications = [], HasData = False\<rparr>
     in case length of None \<Rightarrow> rreturn message | Some n \<Rightarrow> readNotificationObjects (nat n) message)))"

definition WriteCreateSubscriptionRequest :: "CreateSubscriptionRequest \<Rightarrow> Encoder \<Rightarrow> Encoder" where
  "WriteCreateSubscriptionRequest v = seqw
     [WriteServiceTypeID CreateSubscriptionRequestEncodingID, WriteRequestHeader (sqHeader v),
      WriteDouble (RequestedPublishingInterval v), WriteUInt32 (RequestedLifetimeCount v),
      WriteUInt32 (RequestedMaxKeepAliveCount v), WriteUInt32 (sqMaxNotificationsPerPublish v),
      WriteBoolean (sqPublishingEnabled v), WriteByteValue (Priority v)]"

definition ReadCreateSubscriptionRequest :: "CreateSubscriptionRequest reader" where
  "ReadCreateSubscriptionRequest =
     rbind ReadRequestHeader (\<lambda>header.
     rbind ReadDouble (\<lambda>requestedPublishingInterval.
     rbind ReadUInt32 (\<lambda>requestedLifetimeCount.
     rbind ReadUInt32 (\<lambda>requestedMaxKeepAliveCount.
     rbind ReadUInt32 (\<lambda>maxNotificationsPerPublish.
     rbind ReadBoolean (\<lambda>publishingEnabled.
     rbind ReadByteValue (\<lambda>priority.
     rreturn \<lparr>sqHeader = header, RequestedPublishingInterval = requestedPublishingInterval,
       RequestedLifetimeCount = requestedLifetimeCount,
       RequestedMaxKeepAliveCount = requestedMaxKeepAliveCount,
       sqMaxNotificationsPerPublish = maxNotificationsPerPublish,
       sqPublishingEnabled = publishingEnabled, Priority = priority\<rparr>)))))))"

definition WriteCreateSubscriptionResponse :: "CreateSubscriptionResponse \<Rightarrow> Encoder \<Rightarrow> Encoder" where
  "WriteCreateSubscriptionResponse v = seqw
     [WriteServiceTypeID CreateSubscriptionResponseEncodingID, WriteResponseHeader (spHeader v),
      WriteUInt32 (spSubscriptionID v), WriteDouble (RevisedPublishingInterval v),
      WriteUInt32 (RevisedLifetimeCount v), WriteUInt32 (RevisedMaxKeepAliveCount v)]"

definition ReadCreateSubscriptionResponse :: "CreateSubscriptionResponse reader" where
  "ReadCreateSubscriptionResponse =
     rbind ReadResponseHeader (\<lambda>header.
     rbind ReadUInt32 (\<lambda>subscriptionID.
     rbind ReadDouble (\<lambda>revisedPublishingInterval.
     rbind ReadUInt32 (\<lambda>revisedLifetimeCount.
     rbind ReadUInt32 (\<lambda>revisedMaxKeepAliveCount.
     rreturn \<lparr>spHeader = header, spSubscriptionID = subscriptionID,
       RevisedPublishingInterval = revisedPublishingInterval,
       RevisedLifetimeCount = revisedLifetimeCount,
       RevisedMaxKeepAliveCount = revisedMaxKeepAliveCount\<rparr>)))))"

definition WriteDeleteSubscriptionsRequest :: "DeleteSubscriptionsRequest \<Rightarrow> Encoder \<Rightarrow> Encoder" where
  "WriteDeleteSubscriptionsRequest v = seqw
     [WriteServiceTypeID DeleteSubscriptionsRequestEncodingID, WriteRequestHeader (dqHeader v),
      writeUInt32Array (dqSubscriptionIDs v)]"

definition ReadDeleteSubscriptionsRequest :: "DeleteSubscriptionsRequest reader" where
  "ReadDeleteSubscriptionsRequest =
     rbind ReadRequestHeader (\<lambda>header.
     rbind readUInt32Array (\<lambda>subscriptionIDs.
     rreturn \<lparr>dqHeader = header, dqSubscriptionIDs = subscriptionIDs\<rparr>))"

definition WriteDeleteSubscriptionsResponse :: "DeleteSubscriptionsResponse \<Rightarrow> Encoder \<Rightarrow> Encoder" where
  "WriteDeleteSubscriptionsResponse v = seqw
     [WriteServiceTypeID DeleteSubscriptionsResponseEncodingID, WriteResponseHeader (dpHeader v),
      writeStatusCodeResults (dpResults v) (dpDiagnostics v)]"

definition ReadDeleteSubscriptionsResponse :: "DeleteSubscriptionsResponse reader" where
  "ReadDeleteSubscriptionsResponse =
     rbind ReadResponseHeader (\<lambda>header.
     rbind readStatusCodeResults (\<lambda>(results, diagnostics).
     rreturn \<lparr>dpHeader = header, dpResults = results, dpDiagnostics = diagnostics\<rparr>))"

definition WriteCreateMonitoredItemsRequest :: "CreateMonitoredItemsRequest \<Rightarrow> Encoder \<Rightarrow> Encoder" where
  "WriteCreateMonitoredItemsRequest v = seqw
     [WriteServiceTypeID CreateMonitoredItemsRequestEncodingID, WriteRequestHeader (iqHeader v),
      WriteUInt32 (iqSubscriptionID v), WriteInt32 (iqTimestampsToReturn v),
      write_array writeItemCreateRequest (ItemsToCreate v)]"

definition ReadCreateMonitoredItemsRequest :: "CreateMonitoredItemsRequest reader" where
  "ReadCreateMonitoredItemsRequest =
     rbind ReadRequestHeader (\<lambda>header.
     rbind ReadUInt32 (\<lambda>subscriptionID.
     rbind ReadInt32 (\<lambda>timestampsToReturn.
     rbind (read_list 30 readItemCreateRequest) (\<lambda>itemsToCreate.
     rreturn \<lparr>iqHeader = header, iqSubscriptionID = subscriptionID,
       iqTimestampsToReturn = timestampsToReturn, ItemsToCreate = itemsToCreate\<rparr>))))"

definition WriteCreateMonitoredItemsResponse :: "CreateMonitoredItemsResponse \<Rightarrow> Encoder \<Rightarrow> Encoder" where
  "WriteCreateMonitoredItemsResponse v = seqw
     [WriteServiceTypeID CreateMonitoredItemsResponseEncodingID, WriteResponseHeader (ipHeader v),
      write_array writeItemCreateResult (ipResults v),
      write_array WriteDiagnosticInfo (ipDiagnostics v)]"

definition ReadCreateMonitoredItemsResponse :: "CreateMonitoredItemsResponse reader" where
  "ReadCreateMonitoredItemsResponse =
     rbind ReadResponseHeader (\<lambda>header.
     rbind (read_list 23 readItemCreateResult) (\<lambda>results.
     rbind (read_list 1 ReadDiagnosticInfo) (\<lambda>diagnostics.
     rreturn \<lparr>ipHeader = header, ipResults = results, ipDiagnostics = diagnostics\<rparr>)))"

definition WriteDeleteMonitoredItemsRequest :: "DeleteMonitoredItemsRequest \<Rightarrow> Encoder \<Rightarrow> Encoder" where
  "WriteDeleteMonitoredItemsRequest v = seqw
     [WriteServiceTypeID DeleteMonitoredItemsRequestEncodingID, WriteRequestHeader (xqHeader v),
      WriteUInt32 (xqSubscriptionID v), writeUInt32Array (MonitoredItemIDs v)]"

definition ReadDeleteMonitoredItemsRequest :: "DeleteMonitoredItemsRequest reader" where
  "ReadDeleteMonitoredItemsRequest =
     rbind ReadRequestHeader (\<lambda>header.
     rbind ReadUInt32 (\<lambda>subscriptionID.
     rbind readUInt32Array (\<lambda>monitoredItemIDs.
     rreturn \<lparr>xqHeader = header, xqSubscriptionID = subscriptionID, MonitoredItemIDs = monitoredItemIDs\<rparr>)))"

definition WriteDeleteMonitoredItemsResponse :: "DeleteMonitoredItemsResponse \<Rightarrow> Encoder \<Rightarrow> Encoder" where
  "WriteDeleteMonitoredItemsResponse v = seqw
     [WriteServiceTypeID DeleteMonitoredItemsResponseEncodingID, WriteResponseHeader (xpHeader v),
      writeStatusCodeResults (xpResults v) (xpDiagnostics v)]"

definition WriteSetPublishingModeRequest :: "SetPublishingModeRequest \<Rightarrow> Encoder \<Rightarrow> Encoder" where
  "WriteSetPublishingModeRequest v = seqw
     [WriteServiceTypeID SetPublishingModeRequestEncodingID, WriteRequestHeader (pqHeader v),
      WriteBoolean (pqPublishingEnabled v), writeUInt32Array (pqSubscriptionIDs v)]"

definition ReadSetPublishingModeRequest :: "SetPublishingModeRequest reader" where
  "ReadSetPublishingModeRequest =
     rbind ReadRequestHeader (\<lambda>header.
     rbind ReadBoolean (\<lambda>publishingEnabled.
     rbind readUInt32Array (\<lambda>subscriptionIDs.
     rreturn \<lparr>pqHeader = header, pqPublishingEnabled = publishingEnabled,
       pqSubscriptionIDs = subscriptionIDs\<rparr>)))"

definition WriteSetPublishingModeResponse :: "SetPublishingModeResponse \<Rightarrow> Encoder \<Rightarrow> Encoder" where
  "WriteSetPublishingModeResponse v = seqw
     [WriteServiceTypeID SetPublishingModeResponseEncodingID, WriteResponseHeader (ppHeader v),
      writeStatusCodeResults (ppResults v) (ppDiagnostics v)]"

definition writeAcknowledgement :: "SubscriptionAcknowledgement \<Rightarrow> Encoder \<Rightarrow> Encoder" where
  "writeAcknowledgement v = seqw
     [WriteUInt32 (akSubscriptionID v), WriteUInt32 (akSequenceNumber v)]"

definition readAcknowledgement :: "SubscriptionAcknowledgement reader" where
  "readAcknowledgement =
     rbind ReadUInt32 (\<lambda>subscriptionID.
     rbind ReadUInt32 (\<lambda>sequenceNumber.
     rreturn \<lparr>akSubscriptionID = subscriptionID, akSequenceNumber = sequenceNumber\<rparr>))"

definition WritePublishRequest :: "PublishRequest \<Rightarrow> Encoder \<Rightarrow> Encoder" where
  "WritePublishRequest v = seqw
     [WriteServiceTypeID PublishRequestEncodingID, WriteRequestHeader (uqHeader v),
      write_array writeAcknowledgement (Acknowledgements v)]"

definition ReadPublishRequest :: "PublishRequest reader" where
  "ReadPublishRequest =
     rbind ReadRequestHeader (\<lambda>header.
     rbind (read_list 8 readAcknowledgement) (\<lambda>acknowledgements.
     rreturn \<lparr>uqHeader = header, Acknowledgements = acknowledgements\<rparr>))"

definition WritePublishResponse :: "PublishResponse \<Rightarrow> Encoder \<Rightarrow> Encoder" where
  "WritePublishResponse v = seqw
     [WriteServiceTypeID PublishResponseEncodingID, WriteResponseHeader (upHeader v),
      WriteUInt32 (upSubscriptionID v), writeUInt32Array (AvailableSequenceNumbers v),
      WriteBoolean (MoreNotifications v), WriteNotificationMessage (upNotificationMessage v),
      writeStatusCodeResults (upResults v) (upDiagnostics v)]"

definition ReadPublishResponse :: "PublishResponse reader" where
  "ReadPublishResponse =
     rbind ReadResponseHeader (\<lambda>header.
     rbind ReadUInt32 (\<lambda>subscriptionID.
     rbind readUInt32Array (\<lambda>availableSequenceNumbers.
     rbind ReadBoolean (\<lambda>moreNotifications.
     rbind ReadNotificationMessage (\<lambda>notificationMessage.
     rbind readStatusCodeResults (\<lambda>(results, diagnostics).
     rreturn \<lparr>upHeader = header, upSubscriptionID = subscriptionID,
       AvailableSequenceNumbers = availableSequenceNumbers, MoreNotifications = moreNotifications,
       upNotificationMessage = notificationMessage, upResults = results,
       upDiagnostics = diagnostics\<rparr>))))))"

definition WriteRepublishRequest :: "RepublishRequest \<Rightarrow> Encoder \<Rightarrow> Encoder" where
  "WriteRepublishRequest v = seqw
     [WriteServiceTypeID RepublishRequestEncodingID, WriteRequestHeader (rbHeader v),
      WriteUInt32 (rbSubscriptionID v), WriteUInt32 (RetransmitSequenceNumber v)]"

definition ReadRepublishRequest :: "RepublishRequest reader" where
  "ReadRepublishRequest =
     rbind ReadRequestHeader (\<lambda>rbHeader.
     rbind ReadUInt32 (\<lambda>rbSubscriptionID.
     rbind ReadUInt32 (\<lambda>retransmitSequenceNumber.
     rreturn \<lparr>rbHeader = rbHeader, rbSubscriptionID = rbSubscriptionID,
       RetransmitSequenceNumber = retransmitSequenceNumber\<rparr>)))"

definition WriteRepublishResponse :: "RepublishResponse \<Rightarrow> Encoder \<Rightarrow> Encoder" where
  "WriteRepublishResponse v = seqw
     [WriteServiceTypeID RepublishResponseEncodingID, WriteResponseHeader (rsHeader v),
      WriteNotificationMessage (rsNotificationMessage v)]"

definition ReadRepublishResponse :: "RepublishResponse reader" where
  "ReadRepublishResponse =
     rbind ReadResponseHeader (\<lambda>rsHeader.
     rbind ReadNotificationMessage (\<lambda>rsNotificationMessage.
     rreturn \<lparr>rsHeader = rsHeader, rsNotificationMessage = rsNotificationMessage\<rparr>))"

section \<open>Wire formats\<close>

lemma size_read_value_id: "16 \<le> int (length (read_value_id_wire v))"
  using size_nodeid [of 0 "rvNodeID v"] size_optional [of "rvIndexRange v"] size_qname [of "DataEncoding v"]
  by (simp add: read_value_id_wire_def)

lemmas subscription_steps [parses_steps] =
  statuscode_array.list_parses [unfolded list.map_id0 id_apply, THEN parses_rbind_last]
  byte_codec.rd_parses [unfolded id_apply, THEN parses_rbind_last]

lemma emits_writeStatusCodeResults [emits_intros]:
  "emits L (writeStatusCodeResults rs ds) (array_ok always_ok L rs \<and> array_ok (\<lambda>L. diag_ok L 0) L ds)
     (array_wire (le_bytes 4) rs @ array_wire diag_wire ds)"
  unfolding writeStatusCodeResults_def by (rule emits_cong, (rule emits_intros)+) auto

lemma readStatusCodeResults_bind:
  "rbind readStatusCodeResults (\<lambda>(results, diagnostics). f results diagnostics) =
   rbind (read_list 4 ReadStatusCode) (\<lambda>results. rbind (read_list 1 ReadDiagnosticInfo) (f results))"
  by (rule ext) (simp add: readStatusCodeResults_def rbind_def rreturn_def split: sum.splits prod.splits)

definition monitoring_parameters_wire :: "MonitoringParameters \<Rightarrow> byte list" where
  "monitoring_parameters_wire v = le_bytes 4 (mpClientHandle v) @ le_bytes 8 (double_norm (mpSamplingInterval v)) @
     extobj_wire (mpFilter v) @ le_bytes 4 (QueueSize v) @ bool_wire (DiscardOldest v)"

definition monitoring_parameters_ok :: "BinaryLimits \<Rightarrow> MonitoringParameters \<Rightarrow> bool" where
  "monitoring_parameters_ok L v \<longleftrightarrow> extobj_ok L (mpFilter v)"

definition monitoring_parameters_norm :: "MonitoringParameters \<Rightarrow> MonitoringParameters" where
  "monitoring_parameters_norm v = v\<lparr>mpSamplingInterval := double_norm (mpSamplingInterval v),
     mpFilter := extobj_norm (mpFilter v)\<rparr>"

interpretation monitoring_parameters_codec: ua_codec WriteMonitoringParameters ReadMonitoringParameters
  monitoring_parameters_wire monitoring_parameters_ok monitoring_parameters_norm
proof unfold_locales
  show "emits L (WriteMonitoringParameters v) (monitoring_parameters_ok L v) (monitoring_parameters_wire v)" for L v
    unfolding WriteMonitoringParameters_def
    by (rule emits_cong, (rule emits_intros)+) (auto simp: monitoring_parameters_wire_def monitoring_parameters_ok_def)
  show "parses L ReadMonitoringParameters (monitoring_parameters_wire v) (monitoring_parameters_norm v)"
    if "validate_limits L = None" "monitoring_parameters_ok L v" for L v
    unfolding ReadMonitoringParameters_def monitoring_parameters_wire_def
    by (intro parses_steps) (use that in \<open>simp_all add: monitoring_parameters_ok_def monitoring_parameters_norm_def\<close>)
  show "within ReadMonitoringParameters"
    unfolding ReadMonitoringParameters_def by (intro within_intros)
qed

lemmas monitoring_parameters_emits [emits_intros] = monitoring_parameters_codec.wr_emits
lemmas monitoring_parameters_within [within_intros] = monitoring_parameters_codec.rd_within
lemmas monitoring_parameters_steps [parses_steps] =
  monitoring_parameters_codec.rd_parses [THEN parses_rbind] monitoring_parameters_codec.rd_parses [THEN parses_rbind_last]

lemma size_monitoring_parameters: "20 \<le> int (length (monitoring_parameters_wire v))"
  using size_extobj [of "mpFilter v"] by (simp add: monitoring_parameters_wire_def bool_wire_def)

definition item_create_request_wire :: "MonitoredItemCreateRequest \<Rightarrow> byte list" where
  "item_create_request_wire v = read_value_id_wire (ItemToMonitor v) @ le_bytes 4 (mqMonitoringMode v) @
     monitoring_parameters_wire (RequestedParameters v)"

definition item_create_request_ok :: "BinaryLimits \<Rightarrow> MonitoredItemCreateRequest \<Rightarrow> bool" where
  "item_create_request_ok L v \<longleftrightarrow> read_value_id_ok L (ItemToMonitor v) \<and>
     monitoring_parameters_ok L (RequestedParameters v)"

definition item_create_request_norm :: "MonitoredItemCreateRequest \<Rightarrow> MonitoredItemCreateRequest" where
  "item_create_request_norm v = v\<lparr>ItemToMonitor := read_value_id_norm (ItemToMonitor v),
     RequestedParameters := monitoring_parameters_norm (RequestedParameters v)\<rparr>"

interpretation item_create_request_array: ua_array writeItemCreateRequest readItemCreateRequest
  item_create_request_wire item_create_request_ok item_create_request_norm 30
proof unfold_locales
  show "emits L (writeItemCreateRequest v) (item_create_request_ok L v) (item_create_request_wire v)" for L v
    unfolding writeItemCreateRequest_def
    by (rule emits_cong, (rule emits_intros)+) (auto simp: item_create_request_wire_def item_create_request_ok_def)
  show "parses L readItemCreateRequest (item_create_request_wire v) (item_create_request_norm v)"
    if "validate_limits L = None" "item_create_request_ok L v" for L v
    unfolding readItemCreateRequest_def item_create_request_wire_def
    by (intro parses_steps) (use that in \<open>simp_all add: item_create_request_ok_def item_create_request_norm_def\<close>)
  show "within readItemCreateRequest"
    unfolding readItemCreateRequest_def by (intro within_intros)
  show "30 \<le> int (length (item_create_request_wire v))" if "item_create_request_ok L v" for L v
    using size_read_value_id [of "ItemToMonitor v"] size_monitoring_parameters [of "RequestedParameters v"]
    by (simp add: item_create_request_wire_def array_wire_def)
qed

lemmas item_create_request_emits [emits_intros] = item_create_request_array.wr_emits item_create_request_array.array_emits
lemmas item_create_request_within [within_intros] = item_create_request_array.rd_within
lemmas item_create_request_steps [parses_steps] =
  item_create_request_array.rd_parses [THEN parses_rbind] item_create_request_array.rd_parses [THEN parses_rbind_last]
  item_create_request_array.list_parses [THEN parses_rbind] item_create_request_array.list_parses [THEN parses_rbind_last]

definition item_create_result_wire :: "MonitoredItemCreateResult \<Rightarrow> byte list" where
  "item_create_result_wire v = le_bytes 4 (mrStatusCode v) @ le_bytes 4 (mrMonitoredItemID v) @
     le_bytes 8 (double_norm (RevisedSamplingInterval v)) @ le_bytes 4 (RevisedQueueSize v) @
     extobj_wire (FilterResult v)"

definition item_create_result_ok :: "BinaryLimits \<Rightarrow> MonitoredItemCreateResult \<Rightarrow> bool" where
  "item_create_result_ok L v \<longleftrightarrow> extobj_ok L (FilterResult v)"

definition item_create_result_norm :: "MonitoredItemCreateResult \<Rightarrow> MonitoredItemCreateResult" where
  "item_create_result_norm v = v\<lparr>RevisedSamplingInterval := double_norm (RevisedSamplingInterval v),
     FilterResult := extobj_norm (FilterResult v)\<rparr>"

interpretation item_create_result_array: ua_array writeItemCreateResult readItemCreateResult
  item_create_result_wire item_create_result_ok item_create_result_norm 23
proof unfold_locales
  show "emits L (writeItemCreateResult v) (item_create_result_ok L v) (item_create_result_wire v)" for L v
    unfolding writeItemCreateResult_def
    by (rule emits_cong, (rule emits_intros)+) (auto simp: item_create_result_wire_def item_create_result_ok_def)
  show "parses L readItemCreateResult (item_create_result_wire v) (item_create_result_norm v)"
    if "validate_limits L = None" "item_create_result_ok L v" for L v
    unfolding readItemCreateResult_def item_create_result_wire_def
    by (intro parses_steps) (use that in \<open>simp_all add: item_create_result_ok_def item_create_result_norm_def\<close>)
  show "within readItemCreateResult"
    unfolding readItemCreateResult_def by (intro within_intros)
  show "23 \<le> int (length (item_create_result_wire v))" if "item_create_result_ok L v" for L v
    using size_extobj [of "FilterResult v"]
    by (simp add: item_create_result_wire_def array_wire_def)
qed

lemmas item_create_result_emits [emits_intros] = item_create_result_array.wr_emits item_create_result_array.array_emits
lemmas item_create_result_within [within_intros] = item_create_result_array.rd_within
lemmas item_create_result_steps [parses_steps] =
  item_create_result_array.rd_parses [THEN parses_rbind] item_create_result_array.rd_parses [THEN parses_rbind_last]
  item_create_result_array.list_parses [THEN parses_rbind] item_create_result_array.list_parses [THEN parses_rbind_last]

definition item_notification_wire :: "MonitoredItemNotification \<Rightarrow> byte list" where
  "item_notification_wire v = le_bytes 4 (mnClientHandle v) @ datavalue_wire (mnValue v)"

definition item_notification_ok :: "BinaryLimits \<Rightarrow> MonitoredItemNotification \<Rightarrow> bool" where
  "item_notification_ok L v \<longleftrightarrow> datavalue_ok L (mnValue v)"

definition item_notification_norm :: "MonitoredItemNotification \<Rightarrow> MonitoredItemNotification" where
  "item_notification_norm v = v\<lparr>mnValue := datavalue_norm (mnValue v)\<rparr>"

definition item_notification_readable :: "BinaryLimits \<Rightarrow> MonitoredItemNotification \<Rightarrow> bool" where
  "item_notification_readable L v \<longleftrightarrow> datavalue_readable L (mnValue v)"

interpretation item_notification_array: ua_array_on writeItemNotification readItemNotification
  item_notification_wire item_notification_ok item_notification_norm item_notification_readable 5
proof unfold_locales
  show "emits L (writeItemNotification v) (item_notification_ok L v) (item_notification_wire v)" for L v
    unfolding writeItemNotification_def
    by (rule emits_cong, (rule emits_intros)+) (auto simp: item_notification_wire_def item_notification_ok_def)
  show "parses L readItemNotification (item_notification_wire v) (item_notification_norm v)"
    if "validate_limits L = None" "item_notification_ok L v" "item_notification_readable L v" for L v
    unfolding readItemNotification_def item_notification_wire_def
    by (intro parses_steps) (use that in \<open>simp_all add: item_notification_ok_def item_notification_readable_def item_notification_norm_def\<close>)
  show "within readItemNotification"
    unfolding readItemNotification_def by (intro within_intros)
  show "5 \<le> int (length (item_notification_wire v))" if "item_notification_ok L v" "item_notification_readable L v" for L v
    using size_datavalue [of "mnValue v"]
    by (simp add: item_notification_wire_def array_wire_def)
qed

lemmas item_notification_emits [emits_intros] = item_notification_array.on_emits item_notification_array.array_emits
lemmas item_notification_within [within_intros] = item_notification_array.on_within
lemmas item_notification_steps [parses_steps] =
  item_notification_array.on_parses [THEN parses_rbind] item_notification_array.on_parses [THEN parses_rbind_last]
  item_notification_array.list_parses [THEN parses_rbind] item_notification_array.list_parses [THEN parses_rbind_last]

definition acknowledgement_wire :: "SubscriptionAcknowledgement \<Rightarrow> byte list" where
  "acknowledgement_wire v = le_bytes 4 (akSubscriptionID v) @ le_bytes 4 (akSequenceNumber v)"

interpretation acknowledgement_array: ua_array writeAcknowledgement readAcknowledgement
  acknowledgement_wire always_ok id 8
proof unfold_locales
  show "emits L (writeAcknowledgement v) (always_ok L v) (acknowledgement_wire v)" for L v
    unfolding writeAcknowledgement_def
    by (rule emits_cong, (rule emits_intros)+) (auto simp: acknowledgement_wire_def)
  show "parses L readAcknowledgement (acknowledgement_wire v) (id v)"
    if "validate_limits L = None" "always_ok L v" for L v
    unfolding readAcknowledgement_def acknowledgement_wire_def
    by (intro parses_steps) (use that in \<open>simp_all\<close>)
  show "within readAcknowledgement"
    unfolding readAcknowledgement_def by (intro within_intros)
  show "8 \<le> int (length (acknowledgement_wire v))" for v
    by (simp add: acknowledgement_wire_def array_wire_def)
qed

lemmas acknowledgement_emits [emits_intros] = acknowledgement_array.wr_emits acknowledgement_array.array_emits
lemmas acknowledgement_within [within_intros] = acknowledgement_array.rd_within
lemmas acknowledgement_steps [parses_steps] =
  acknowledgement_array.rd_parses [unfolded id_apply, THEN parses_rbind] acknowledgement_array.rd_parses [unfolded id_apply, THEN parses_rbind_last]
  acknowledgement_array.list_parses [unfolded list.map_id0 id_apply, THEN parses_rbind] acknowledgement_array.list_parses [unfolded list.map_id0 id_apply, THEN parses_rbind_last]

text \<open>The nested encoding.\<close>

lemma emits_nested:
  assumes w: "emits L w ok bs" and k: "emits L (k bs) ok2 wire"
  shows "emits L (\<lambda>e. case NewEncoder (elimits e) of
      Inl er \<Rightarrow> efail er e
    | Inr body \<Rightarrow> (case Bytes (w body) of Inl er \<Rightarrow> efail er e | Inr encoded \<Rightarrow> k encoded e))
    (validate_limits L = None \<and> ok \<and> int (length bs) \<le> MaxMessageBytes L \<and> ok2) wire"
proof (cases "validate_limits L")
  case (Some er)
  then have "NewEncoder L = Inl er" by (simp add: NewEncoder_def)
  then show ?thesis using emits_efail [of L er wire] Some by (auto simp: emits_def enc_wf_def)
next
  case None
  let ?b = "\<lparr>ebuffer = [], elimits = L, edepth = 0, eerr = None\<rparr>"
  have new: "NewEncoder L = Inr ?b" using None by (simp add: NewEncoder_def)
  have b: "enc_wf L ?b" using None by (auto simp: enc_wf_def validate_limits_def split: if_splits)
  note w = emitsD [OF w b]
  have "Bytes (w ?b) = Inr encoded \<longleftrightarrow> ok \<and> int (length bs) \<le> MaxMessageBytes L \<and> encoded = bs" for encoded
    using w(4,5) by (auto simp: Bytes_def split: option.splits)
  then consider "ok" "int (length bs) \<le> MaxMessageBytes L" "Bytes (w ?b) = Inr bs"
    | er where "Bytes (w ?b) = Inl er" "\<not> (ok \<and> int (length bs) \<le> MaxMessageBytes L)"
    by (cases "Bytes (w ?b)") auto
  then show ?thesis
  proof cases
    case 1
    then show ?thesis using k new None by (simp add: emits_def enc_wf_def)
  next
    case (2 er)
    then show ?thesis using emits_efail [of L er wire] new None by (auto simp: emits_def enc_wf_def)
  qed
qed

lemma parses_nested_message:
  assumes L: "validate_limits L = None" and r: "parses L r bs v" and n: "int (length (bs @ rest)) \<le> MaxMessageBytes L"
  shows "parses L (read_nested (bs @ rest) r) [] v"
proof -
  let ?d = "\<lparr>dbuffer = bs @ rest, doffset = 0, dlimits = L, ddepth = 0\<rparr>"
  have "r ?d = Inr (v, advance (length bs) ?d)"
    by (rule parsesD [OF r, where rest = rest]) (simp_all add: dec_wf_def pending_def)
  then show ?thesis using L n by (simp add: parses_def read_nested_def NewDecoder_def)
qed

lemma within_nested [within_intros]:
  assumes "within r"
  shows "within (read_nested bytes r)"
  unfolding within_def
proof (intro allI impI)
  fix d assume "dec_wf d"
  have "body = \<lparr>dbuffer = bytes, doffset = 0, dlimits = dlimits d, ddepth = 0\<rparr> \<Longrightarrow> r body \<noteq> Inl OutOfFuel" for body
    using within_no_fuel [OF assms] by (simp add: dec_wf_def)
  with \<open>dec_wf d\<close> show "case read_nested bytes r d of
       Inl er \<Rightarrow> er \<noteq> OutOfFuel
     | Inr (v, d') \<Rightarrow> dbuffer d' = dbuffer d \<and> dlimits d' = dlimits d \<and> ddepth d' = ddepth d \<and>
         doffset d \<le> doffset d' \<and> dec_wf d'"
    by (auto simp: read_nested_def NewDecoder_def validate_limits_def limitsError_def split: sum.splits option.splits if_splits)
qed

definition data_change_wire :: "MonitoredItemNotification list \<Rightarrow> byte list" where
  "data_change_wire ns = array_wire item_notification_wire ns @ le_bytes 4 (0 :: 32 word)"

definition data_change_object :: "MonitoredItemNotification list \<Rightarrow> ExtensionObject" where
  "data_change_object ns = \<lparr>TypeID = NumericNodeID 0 DataChangeNotificationEncodingID,
     Encoding = ExtensionObjectByteString, Body = data_change_wire ns\<rparr>"

definition notification_message_wire :: "NotificationMessage \<Rightarrow> byte list" where
  "notification_message_wire m = le_bytes 4 (nmSequenceNumber m) @ le_bytes 8 (EncodeDateTime (nmPublishTime m)) @
     (if HasData m then le_bytes 4 (1 :: 32 word) @ extobj_wire (data_change_object (nmNotifications m))
      else le_bytes 4 (0 :: 32 word))"

definition notification_message_ok :: "BinaryLimits \<Rightarrow> NotificationMessage \<Rightarrow> bool" where
  "notification_message_ok L m \<longleftrightarrow> 0 \<le> MaxArrayLength L \<and> (HasData m \<longrightarrow>
     1 \<le> MaxArrayLength L \<and> validate_limits L = None \<and> array_ok item_notification_ok L (nmNotifications m) \<and>
     int (length (data_change_wire (nmNotifications m))) \<le> MaxMessageBytes L \<and>
     extobj_ok L (data_change_object (nmNotifications m)))"

definition notification_message_norm :: "NotificationMessage \<Rightarrow> NotificationMessage" where
  "notification_message_norm m = m\<lparr>nmPublishTime := datetime_norm (nmPublishTime m),
     nmNotifications := (if HasData m then map item_notification_norm (nmNotifications m) else [])\<rparr>"

definition notification_message_readable :: "BinaryLimits \<Rightarrow> NotificationMessage \<Rightarrow> bool" where
  "notification_message_readable L m \<longleftrightarrow>
     (HasData m \<longrightarrow> list_all (item_notification_readable L) (nmNotifications m))"

lemma within_readNotificationObjects [within_intros]: "within (readNotificationObjects n m)"
  by (induction n arbitrary: m) (auto intro!: within_intros)

lemma emits_notification_message:
  "emits L (WriteNotificationMessage m) (notification_message_ok L m) (notification_message_wire m)"
proof -
  have zero: "emits L (WriteArrayLength 0) (0 \<le> MaxArrayLength L) (le_bytes 4 (0 :: 32 word))"
    using emits_WriteArrayLength [of L 0] by simp
  have one: "emits L (WriteArrayLength 1) (1 \<le> MaxArrayLength L) (le_bytes 4 (1 :: 32 word))"
    using emits_WriteArrayLength [of L 1] by simp
  have body: "emits L (seqw [write_array writeItemNotification (nmNotifications m), WriteArrayLength 0])
      (array_ok item_notification_ok L (nmNotifications m) \<and> 0 \<le> MaxArrayLength L)
      (data_change_wire (nmNotifications m))"
    by (rule emits_cong, (rule zero emits_intros)+) (auto simp: data_change_wire_def)
  have object: "emits L (WriteExtensionObject \<lparr>TypeID = NumericNodeID 0 DataChangeNotificationEncodingID,
        Encoding = ExtensionObjectByteString, Body = data_change_wire (nmNotifications m)\<rparr>)
      (extobj_ok L (data_change_object (nmNotifications m))) (extobj_wire (data_change_object (nmNotifications m)))"
    unfolding data_change_object_def by (rule emits_intros)
  note nested = emits_nested [OF body, where k = "\<lambda>encoded. WriteExtensionObject
      \<lparr>TypeID = NumericNodeID 0 DataChangeNotificationEncodingID, Encoding = ExtensionObjectByteString, Body = encoded\<rparr>",
      OF object]
  show ?thesis
    unfolding WriteNotificationMessage_def
    by (rule emits_cong, (rule nested zero one emits_intros)+)
      (auto simp: notification_message_ok_def notification_message_wire_def)
qed

lemma parses_notification_objects:
  assumes L: "validate_limits L = None" and ok: "notification_message_ok L m"
    and r: "notification_message_readable L m" and d: "HasData m"
    and m0: "nmNotifications m0 = []"
  shows "parses L (readNotificationObjects 1 m0) (extobj_wire (data_change_object (nmNotifications m)))
    (m0\<lparr>HasData := True, nmNotifications := map item_notification_norm (nmNotifications m)\<rparr>)"
proof -
  let ?ns = "nmNotifications m"
  have "parses L (read_nested (data_change_wire ?ns) (read_list 5 readItemNotification)) []
      (map item_notification_norm ?ns)"
    unfolding data_change_wire_def
    by (rule parses_nested_message [OF L item_notification_array.list_parses [OF L]])
      (use ok r d in \<open>auto simp: notification_message_ok_def notification_message_readable_def data_change_wire_def\<close>)
  note n = parses_rbind_last [OF this parses_rreturnI]
  have norm: "extobj_norm (data_change_object ?ns) = data_change_object ?ns"
    by (simp add: extobj_norm_def data_change_object_def nodeid_norm_def NumericNodeID_def zeroNodeID_def
        ExtensionObjectByteString_def ExtensionObjectNoBody_def)
  have "parses L (readNotificationObjects (Suc 0) m0) (extobj_wire (data_change_object ?ns) @ [])
    (m0\<lparr>HasData := True, nmNotifications := map item_notification_norm ?ns\<rparr>)"
    unfolding readNotificationObjects.simps
    by (rule parses_rbind [OF extobj_codec.rd_parses [OF L, of "data_change_object ?ns", unfolded norm]])
      (use ok d n m0 in \<open>auto simp: notification_message_ok_def data_change_object_def NumericNodeID_def zeroNodeID_def
        DataChangeNotificationEncodingID_def\<close>)
  then show ?thesis by simp
qed

interpretation notification_message_codec: ua_codec_on WriteNotificationMessage ReadNotificationMessage
  notification_message_wire notification_message_ok notification_message_norm notification_message_readable
proof unfold_locales
  show "emits L (WriteNotificationMessage m) (notification_message_ok L m) (notification_message_wire m)" for L m
    by (rule emits_notification_message)
  show "parses L ReadNotificationMessage (notification_message_wire m) (notification_message_norm m)"
    if L: "validate_limits L = None" and ok: "notification_message_ok L m" and r: "notification_message_readable L m" for L m
  proof -
    let ?m = "\<lparr>nmSequenceNumber = nmSequenceNumber m, nmPublishTime = datetime_norm (nmPublishTime m),
      nmNotifications = [], HasData = False\<rparr>"
    let ?tail = "if HasData m then le_bytes 4 (1 :: 32 word) @ extobj_wire (data_change_object (nmNotifications m))
      else le_bytes 4 (0 :: 32 word)"
    have "parses L (rbind (ReadArrayLength 3) (\<lambda>length. case length of
        None \<Rightarrow> rreturn ?m | Some n \<Rightarrow> readNotificationObjects (nat n) ?m)) ?tail (notification_message_norm m)"
    proof (cases "HasData m")
      case True
      have "?m\<lparr>HasData := True, nmNotifications := map item_notification_norm (nmNotifications m)\<rparr> =
          notification_message_norm m"
        using True by (cases m) (simp add: notification_message_norm_def)
      with parses_notification_objects [OF L ok r True, of ?m]
      have "parses L (readNotificationObjects 1 ?m) (extobj_wire (data_change_object (nmNotifications m)))
          (notification_message_norm m)" by (simp del: readNotificationObjects.simps)
      then show ?thesis
        using True ok size_extobj [of "data_change_object (nmNotifications m)"]
          parses_ReadArrayLength [OF L, where n = 1 and k = 3 and
            bs = "extobj_wire (data_change_object (nmNotifications m))" and v = "notification_message_norm m"]
        by (simp add: notification_message_ok_def)
    next
      case False
      have "notification_message_norm m = ?m" using False by (simp add: notification_message_norm_def)
      moreover have "parses L (rbind (ReadArrayLength 3) (\<lambda>length. case length of
          None \<Rightarrow> rreturn ?m | Some n \<Rightarrow> readNotificationObjects (nat n) ?m)) (le_bytes 4 (of_nat 0 :: 32 word) @ []) ?m"
        by (rule parses_ReadArrayLength [OF L]) (use ok in \<open>simp_all add: notification_message_ok_def parses_rreturn\<close>)
      ultimately show ?thesis using False by simp
    qed
    then show ?thesis
      unfolding ReadNotificationMessage_def notification_message_wire_def Let_def
      by (intro parses_steps L)
  qed
  show "within ReadNotificationMessage"
    unfolding ReadNotificationMessage_def Let_def by (intro within_intros)
qed

lemmas notification_message_emits [emits_intros] = notification_message_codec.on_emits
lemmas notification_message_within [within_intros] = notification_message_codec.on_within
lemmas notification_message_steps [parses_steps] =
  notification_message_codec.on_parses [THEN parses_rbind] notification_message_codec.on_parses [THEN parses_rbind_last]

definition create_subscription_request_wire :: "CreateSubscriptionRequest \<Rightarrow> byte list" where
  "create_subscription_request_wire v = service_wire CreateSubscriptionRequestEncodingID @ request_header_wire (sqHeader v) @
     le_bytes 8 (double_norm (RequestedPublishingInterval v)) @
     le_bytes 4 (RequestedLifetimeCount v) @ le_bytes 4 (RequestedMaxKeepAliveCount v) @
     le_bytes 4 (sqMaxNotificationsPerPublish v) @ bool_wire (sqPublishingEnabled v) @
     [Priority v]"

definition create_subscription_request_ok :: "BinaryLimits \<Rightarrow> CreateSubscriptionRequest \<Rightarrow> bool" where
  "create_subscription_request_ok L v \<longleftrightarrow> request_header_ok L (sqHeader v)"

definition create_subscription_request_norm :: "CreateSubscriptionRequest \<Rightarrow> CreateSubscriptionRequest" where
  "create_subscription_request_norm v = v\<lparr>sqHeader := request_header_norm (sqHeader v),
     RequestedPublishingInterval := double_norm (RequestedPublishingInterval v)\<rparr>"

interpretation create_subscription_request_codec: ua_codec WriteCreateSubscriptionRequest "read_service CreateSubscriptionRequestEncodingID ReadCreateSubscriptionRequest"
  create_subscription_request_wire create_subscription_request_ok create_subscription_request_norm
proof unfold_locales
  show "emits L (WriteCreateSubscriptionRequest v) (create_subscription_request_ok L v) (create_subscription_request_wire v)" for L v
    unfolding WriteCreateSubscriptionRequest_def
    by (rule emits_cong, (rule emits_intros)+) (auto simp: create_subscription_request_wire_def create_subscription_request_ok_def)
  show "parses L (read_service CreateSubscriptionRequestEncodingID ReadCreateSubscriptionRequest) (create_subscription_request_wire v) (create_subscription_request_norm v)"
    if "validate_limits L = None" "create_subscription_request_ok L v" for L v
    unfolding ReadCreateSubscriptionRequest_def create_subscription_request_wire_def
    by (intro parses_steps) (use that in \<open>simp_all add: create_subscription_request_ok_def create_subscription_request_norm_def\<close>)
  show "within (read_service CreateSubscriptionRequestEncodingID ReadCreateSubscriptionRequest)"
    unfolding ReadCreateSubscriptionRequest_def by (intro within_intros)
qed

definition create_subscription_response_wire :: "CreateSubscriptionResponse \<Rightarrow> byte list" where
  "create_subscription_response_wire v = service_wire CreateSubscriptionResponseEncodingID @ response_header_wire (spHeader v) @
     le_bytes 4 (spSubscriptionID v) @ le_bytes 8 (double_norm (RevisedPublishingInterval v)) @
     le_bytes 4 (RevisedLifetimeCount v) @ le_bytes 4 (RevisedMaxKeepAliveCount v)"

definition create_subscription_response_ok :: "BinaryLimits \<Rightarrow> CreateSubscriptionResponse \<Rightarrow> bool" where
  "create_subscription_response_ok L v \<longleftrightarrow> response_header_ok L (spHeader v)"

definition create_subscription_response_norm :: "CreateSubscriptionResponse \<Rightarrow> CreateSubscriptionResponse" where
  "create_subscription_response_norm v = v\<lparr>spHeader := response_header_norm (spHeader v),
     RevisedPublishingInterval := double_norm (RevisedPublishingInterval v)\<rparr>"

interpretation create_subscription_response_codec: ua_codec WriteCreateSubscriptionResponse "read_service CreateSubscriptionResponseEncodingID ReadCreateSubscriptionResponse"
  create_subscription_response_wire create_subscription_response_ok create_subscription_response_norm
proof unfold_locales
  show "emits L (WriteCreateSubscriptionResponse v) (create_subscription_response_ok L v) (create_subscription_response_wire v)" for L v
    unfolding WriteCreateSubscriptionResponse_def
    by (rule emits_cong, (rule emits_intros)+) (auto simp: create_subscription_response_wire_def create_subscription_response_ok_def)
  show "parses L (read_service CreateSubscriptionResponseEncodingID ReadCreateSubscriptionResponse) (create_subscription_response_wire v) (create_subscription_response_norm v)"
    if "validate_limits L = None" "create_subscription_response_ok L v" for L v
    unfolding ReadCreateSubscriptionResponse_def create_subscription_response_wire_def
    by (intro parses_steps) (use that in \<open>simp_all add: create_subscription_response_ok_def create_subscription_response_norm_def\<close>)
  show "within (read_service CreateSubscriptionResponseEncodingID ReadCreateSubscriptionResponse)"
    unfolding ReadCreateSubscriptionResponse_def by (intro within_intros)
qed

definition delete_subscriptions_request_wire :: "DeleteSubscriptionsRequest \<Rightarrow> byte list" where
  "delete_subscriptions_request_wire v = service_wire DeleteSubscriptionsRequestEncodingID @ request_header_wire (dqHeader v) @
     array_wire (le_bytes 4) (dqSubscriptionIDs v)"

definition delete_subscriptions_request_ok :: "BinaryLimits \<Rightarrow> DeleteSubscriptionsRequest \<Rightarrow> bool" where
  "delete_subscriptions_request_ok L v \<longleftrightarrow> request_header_ok L (dqHeader v) \<and> array_ok always_ok L (dqSubscriptionIDs v)"

definition delete_subscriptions_request_norm :: "DeleteSubscriptionsRequest \<Rightarrow> DeleteSubscriptionsRequest" where
  "delete_subscriptions_request_norm v = v\<lparr>dqHeader := request_header_norm (dqHeader v)\<rparr>"

interpretation delete_subscriptions_request_codec: ua_codec WriteDeleteSubscriptionsRequest "read_service DeleteSubscriptionsRequestEncodingID ReadDeleteSubscriptionsRequest"
  delete_subscriptions_request_wire delete_subscriptions_request_ok delete_subscriptions_request_norm
proof unfold_locales
  show "emits L (WriteDeleteSubscriptionsRequest v) (delete_subscriptions_request_ok L v) (delete_subscriptions_request_wire v)" for L v
    unfolding WriteDeleteSubscriptionsRequest_def writeUInt32Array_def
    by (rule emits_cong, (rule emits_intros)+) (auto simp: delete_subscriptions_request_wire_def delete_subscriptions_request_ok_def)
  show "parses L (read_service DeleteSubscriptionsRequestEncodingID ReadDeleteSubscriptionsRequest) (delete_subscriptions_request_wire v) (delete_subscriptions_request_norm v)"
    if "validate_limits L = None" "delete_subscriptions_request_ok L v" for L v
    unfolding ReadDeleteSubscriptionsRequest_def readUInt32Array_def delete_subscriptions_request_wire_def
    by (intro parses_steps) (use that in \<open>simp_all add: delete_subscriptions_request_ok_def delete_subscriptions_request_norm_def\<close>)
  show "within (read_service DeleteSubscriptionsRequestEncodingID ReadDeleteSubscriptionsRequest)"
    unfolding ReadDeleteSubscriptionsRequest_def readUInt32Array_def by (intro within_intros)
qed

definition delete_subscriptions_response_wire :: "DeleteSubscriptionsResponse \<Rightarrow> byte list" where
  "delete_subscriptions_response_wire v = service_wire DeleteSubscriptionsResponseEncodingID @ response_header_wire (dpHeader v) @
     array_wire (le_bytes 4) (dpResults v) @ array_wire diag_wire (dpDiagnostics v)"

definition delete_subscriptions_response_ok :: "BinaryLimits \<Rightarrow> DeleteSubscriptionsResponse \<Rightarrow> bool" where
  "delete_subscriptions_response_ok L v \<longleftrightarrow> response_header_ok L (dpHeader v) \<and> array_ok always_ok L (dpResults v) \<and>
     array_ok (\<lambda>L. diag_ok L 0) L (dpDiagnostics v)"

definition delete_subscriptions_response_norm :: "DeleteSubscriptionsResponse \<Rightarrow> DeleteSubscriptionsResponse" where
  "delete_subscriptions_response_norm v = v\<lparr>dpHeader := response_header_norm (dpHeader v),
     dpDiagnostics := map diag_norm (dpDiagnostics v)\<rparr>"

interpretation delete_subscriptions_response_codec: ua_codec WriteDeleteSubscriptionsResponse "read_service DeleteSubscriptionsResponseEncodingID ReadDeleteSubscriptionsResponse"
  delete_subscriptions_response_wire delete_subscriptions_response_ok delete_subscriptions_response_norm
proof unfold_locales
  show "emits L (WriteDeleteSubscriptionsResponse v) (delete_subscriptions_response_ok L v) (delete_subscriptions_response_wire v)" for L v
    unfolding WriteDeleteSubscriptionsResponse_def
    by (rule emits_cong, (rule emits_intros)+) (auto simp: delete_subscriptions_response_wire_def delete_subscriptions_response_ok_def)
  show "parses L (read_service DeleteSubscriptionsResponseEncodingID ReadDeleteSubscriptionsResponse) (delete_subscriptions_response_wire v) (delete_subscriptions_response_norm v)"
    if "validate_limits L = None" "delete_subscriptions_response_ok L v" for L v
    unfolding ReadDeleteSubscriptionsResponse_def readStatusCodeResults_bind delete_subscriptions_response_wire_def
    by (intro parses_steps) (use that in \<open>simp_all add: delete_subscriptions_response_ok_def delete_subscriptions_response_norm_def\<close>)
  show "within (read_service DeleteSubscriptionsResponseEncodingID ReadDeleteSubscriptionsResponse)"
    unfolding ReadDeleteSubscriptionsResponse_def readStatusCodeResults_bind by (intro within_intros)
qed

definition create_items_request_wire :: "CreateMonitoredItemsRequest \<Rightarrow> byte list" where
  "create_items_request_wire v = service_wire CreateMonitoredItemsRequestEncodingID @ request_header_wire (iqHeader v) @
     le_bytes 4 (iqSubscriptionID v) @ le_bytes 4 (iqTimestampsToReturn v) @
     array_wire item_create_request_wire (ItemsToCreate v)"

definition create_items_request_ok :: "BinaryLimits \<Rightarrow> CreateMonitoredItemsRequest \<Rightarrow> bool" where
  "create_items_request_ok L v \<longleftrightarrow> request_header_ok L (iqHeader v) \<and> array_ok item_create_request_ok L (ItemsToCreate v)"

definition create_items_request_norm :: "CreateMonitoredItemsRequest \<Rightarrow> CreateMonitoredItemsRequest" where
  "create_items_request_norm v = v\<lparr>iqHeader := request_header_norm (iqHeader v),
     ItemsToCreate := map item_create_request_norm (ItemsToCreate v)\<rparr>"

interpretation create_items_request_codec: ua_codec WriteCreateMonitoredItemsRequest "read_service CreateMonitoredItemsRequestEncodingID ReadCreateMonitoredItemsRequest"
  create_items_request_wire create_items_request_ok create_items_request_norm
proof unfold_locales
  show "emits L (WriteCreateMonitoredItemsRequest v) (create_items_request_ok L v) (create_items_request_wire v)" for L v
    unfolding WriteCreateMonitoredItemsRequest_def
    by (rule emits_cong, (rule emits_intros)+) (auto simp: create_items_request_wire_def create_items_request_ok_def)
  show "parses L (read_service CreateMonitoredItemsRequestEncodingID ReadCreateMonitoredItemsRequest) (create_items_request_wire v) (create_items_request_norm v)"
    if "validate_limits L = None" "create_items_request_ok L v" for L v
    unfolding ReadCreateMonitoredItemsRequest_def create_items_request_wire_def
    by (intro parses_steps) (use that in \<open>simp_all add: create_items_request_ok_def create_items_request_norm_def\<close>)
  show "within (read_service CreateMonitoredItemsRequestEncodingID ReadCreateMonitoredItemsRequest)"
    unfolding ReadCreateMonitoredItemsRequest_def by (intro within_intros)
qed

definition create_items_response_wire :: "CreateMonitoredItemsResponse \<Rightarrow> byte list" where
  "create_items_response_wire v = service_wire CreateMonitoredItemsResponseEncodingID @ response_header_wire (ipHeader v) @
     array_wire item_create_result_wire (ipResults v) @ array_wire diag_wire (ipDiagnostics v)"

definition create_items_response_ok :: "BinaryLimits \<Rightarrow> CreateMonitoredItemsResponse \<Rightarrow> bool" where
  "create_items_response_ok L v \<longleftrightarrow> response_header_ok L (ipHeader v) \<and>
     array_ok item_create_result_ok L (ipResults v) \<and>
     array_ok (\<lambda>L. diag_ok L 0) L (ipDiagnostics v)"

definition create_items_response_norm :: "CreateMonitoredItemsResponse \<Rightarrow> CreateMonitoredItemsResponse" where
  "create_items_response_norm v = v\<lparr>ipHeader := response_header_norm (ipHeader v),
     ipResults := map item_create_result_norm (ipResults v),
     ipDiagnostics := map diag_norm (ipDiagnostics v)\<rparr>"

interpretation create_items_response_codec: ua_codec WriteCreateMonitoredItemsResponse "read_service CreateMonitoredItemsResponseEncodingID ReadCreateMonitoredItemsResponse"
  create_items_response_wire create_items_response_ok create_items_response_norm
proof unfold_locales
  show "emits L (WriteCreateMonitoredItemsResponse v) (create_items_response_ok L v) (create_items_response_wire v)" for L v
    unfolding WriteCreateMonitoredItemsResponse_def
    by (rule emits_cong, (rule emits_intros)+) (auto simp: create_items_response_wire_def create_items_response_ok_def)
  show "parses L (read_service CreateMonitoredItemsResponseEncodingID ReadCreateMonitoredItemsResponse) (create_items_response_wire v) (create_items_response_norm v)"
    if "validate_limits L = None" "create_items_response_ok L v" for L v
    unfolding ReadCreateMonitoredItemsResponse_def create_items_response_wire_def
    by (intro parses_steps) (use that in \<open>simp_all add: create_items_response_ok_def create_items_response_norm_def\<close>)
  show "within (read_service CreateMonitoredItemsResponseEncodingID ReadCreateMonitoredItemsResponse)"
    unfolding ReadCreateMonitoredItemsResponse_def by (intro within_intros)
qed

definition delete_items_request_wire :: "DeleteMonitoredItemsRequest \<Rightarrow> byte list" where
  "delete_items_request_wire v = service_wire DeleteMonitoredItemsRequestEncodingID @ request_header_wire (xqHeader v) @
     le_bytes 4 (xqSubscriptionID v) @ array_wire (le_bytes 4) (MonitoredItemIDs v)"

definition delete_items_request_ok :: "BinaryLimits \<Rightarrow> DeleteMonitoredItemsRequest \<Rightarrow> bool" where
  "delete_items_request_ok L v \<longleftrightarrow> request_header_ok L (xqHeader v) \<and> array_ok always_ok L (MonitoredItemIDs v)"

definition delete_items_request_norm :: "DeleteMonitoredItemsRequest \<Rightarrow> DeleteMonitoredItemsRequest" where
  "delete_items_request_norm v = v\<lparr>xqHeader := request_header_norm (xqHeader v)\<rparr>"

interpretation delete_items_request_codec: ua_codec WriteDeleteMonitoredItemsRequest "read_service DeleteMonitoredItemsRequestEncodingID ReadDeleteMonitoredItemsRequest"
  delete_items_request_wire delete_items_request_ok delete_items_request_norm
proof unfold_locales
  show "emits L (WriteDeleteMonitoredItemsRequest v) (delete_items_request_ok L v) (delete_items_request_wire v)" for L v
    unfolding WriteDeleteMonitoredItemsRequest_def writeUInt32Array_def
    by (rule emits_cong, (rule emits_intros)+) (auto simp: delete_items_request_wire_def delete_items_request_ok_def)
  show "parses L (read_service DeleteMonitoredItemsRequestEncodingID ReadDeleteMonitoredItemsRequest) (delete_items_request_wire v) (delete_items_request_norm v)"
    if "validate_limits L = None" "delete_items_request_ok L v" for L v
    unfolding ReadDeleteMonitoredItemsRequest_def readUInt32Array_def delete_items_request_wire_def
    by (intro parses_steps) (use that in \<open>simp_all add: delete_items_request_ok_def delete_items_request_norm_def\<close>)
  show "within (read_service DeleteMonitoredItemsRequestEncodingID ReadDeleteMonitoredItemsRequest)"
    unfolding ReadDeleteMonitoredItemsRequest_def readUInt32Array_def by (intro within_intros)
qed

definition publishing_mode_request_wire :: "SetPublishingModeRequest \<Rightarrow> byte list" where
  "publishing_mode_request_wire v = service_wire SetPublishingModeRequestEncodingID @ request_header_wire (pqHeader v) @
     bool_wire (pqPublishingEnabled v) @ array_wire (le_bytes 4) (pqSubscriptionIDs v)"

definition publishing_mode_request_ok :: "BinaryLimits \<Rightarrow> SetPublishingModeRequest \<Rightarrow> bool" where
  "publishing_mode_request_ok L v \<longleftrightarrow> request_header_ok L (pqHeader v) \<and> array_ok always_ok L (pqSubscriptionIDs v)"

definition publishing_mode_request_norm :: "SetPublishingModeRequest \<Rightarrow> SetPublishingModeRequest" where
  "publishing_mode_request_norm v = v\<lparr>pqHeader := request_header_norm (pqHeader v)\<rparr>"

interpretation publishing_mode_request_codec: ua_codec WriteSetPublishingModeRequest "read_service SetPublishingModeRequestEncodingID ReadSetPublishingModeRequest"
  publishing_mode_request_wire publishing_mode_request_ok publishing_mode_request_norm
proof unfold_locales
  show "emits L (WriteSetPublishingModeRequest v) (publishing_mode_request_ok L v) (publishing_mode_request_wire v)" for L v
    unfolding WriteSetPublishingModeRequest_def writeUInt32Array_def
    by (rule emits_cong, (rule emits_intros)+) (auto simp: publishing_mode_request_wire_def publishing_mode_request_ok_def)
  show "parses L (read_service SetPublishingModeRequestEncodingID ReadSetPublishingModeRequest) (publishing_mode_request_wire v) (publishing_mode_request_norm v)"
    if "validate_limits L = None" "publishing_mode_request_ok L v" for L v
    unfolding ReadSetPublishingModeRequest_def readUInt32Array_def publishing_mode_request_wire_def
    by (intro parses_steps) (use that in \<open>simp_all add: publishing_mode_request_ok_def publishing_mode_request_norm_def\<close>)
  show "within (read_service SetPublishingModeRequestEncodingID ReadSetPublishingModeRequest)"
    unfolding ReadSetPublishingModeRequest_def readUInt32Array_def by (intro within_intros)
qed

definition publish_request_wire :: "PublishRequest \<Rightarrow> byte list" where
  "publish_request_wire v = service_wire PublishRequestEncodingID @ request_header_wire (uqHeader v) @
     array_wire acknowledgement_wire (Acknowledgements v)"

definition publish_request_ok :: "BinaryLimits \<Rightarrow> PublishRequest \<Rightarrow> bool" where
  "publish_request_ok L v \<longleftrightarrow> request_header_ok L (uqHeader v) \<and> array_ok always_ok L (Acknowledgements v)"

definition publish_request_norm :: "PublishRequest \<Rightarrow> PublishRequest" where
  "publish_request_norm v = v\<lparr>uqHeader := request_header_norm (uqHeader v)\<rparr>"

interpretation publish_request_codec: ua_codec WritePublishRequest "read_service PublishRequestEncodingID ReadPublishRequest"
  publish_request_wire publish_request_ok publish_request_norm
proof unfold_locales
  show "emits L (WritePublishRequest v) (publish_request_ok L v) (publish_request_wire v)" for L v
    unfolding WritePublishRequest_def
    by (rule emits_cong, (rule emits_intros)+) (auto simp: publish_request_wire_def publish_request_ok_def)
  show "parses L (read_service PublishRequestEncodingID ReadPublishRequest) (publish_request_wire v) (publish_request_norm v)"
    if "validate_limits L = None" "publish_request_ok L v" for L v
    unfolding ReadPublishRequest_def publish_request_wire_def
    by (intro parses_steps) (use that in \<open>simp_all add: publish_request_ok_def publish_request_norm_def\<close>)
  show "within (read_service PublishRequestEncodingID ReadPublishRequest)"
    unfolding ReadPublishRequest_def by (intro within_intros)
qed

definition publish_response_wire :: "PublishResponse \<Rightarrow> byte list" where
  "publish_response_wire v = service_wire PublishResponseEncodingID @ response_header_wire (upHeader v) @
     le_bytes 4 (upSubscriptionID v) @ array_wire (le_bytes 4) (AvailableSequenceNumbers v) @
     bool_wire (MoreNotifications v) @ notification_message_wire (upNotificationMessage v) @
     array_wire (le_bytes 4) (upResults v) @ array_wire diag_wire (upDiagnostics v)"

definition publish_response_ok :: "BinaryLimits \<Rightarrow> PublishResponse \<Rightarrow> bool" where
  "publish_response_ok L v \<longleftrightarrow> response_header_ok L (upHeader v) \<and>
     array_ok always_ok L (AvailableSequenceNumbers v) \<and>
     notification_message_ok L (upNotificationMessage v) \<and>
     array_ok always_ok L (upResults v) \<and>
     array_ok (\<lambda>L. diag_ok L 0) L (upDiagnostics v)"

definition publish_response_norm :: "PublishResponse \<Rightarrow> PublishResponse" where
  "publish_response_norm v = v\<lparr>upHeader := response_header_norm (upHeader v),
     upNotificationMessage := notification_message_norm (upNotificationMessage v),
     upDiagnostics := map diag_norm (upDiagnostics v)\<rparr>"

definition publish_response_readable :: "BinaryLimits \<Rightarrow> PublishResponse \<Rightarrow> bool" where
  "publish_response_readable L v \<longleftrightarrow> notification_message_readable L (upNotificationMessage v)"

interpretation publish_response_codec: ua_codec_on WritePublishResponse "read_service PublishResponseEncodingID ReadPublishResponse"
  publish_response_wire publish_response_ok publish_response_norm publish_response_readable
proof unfold_locales
  show "emits L (WritePublishResponse v) (publish_response_ok L v) (publish_response_wire v)" for L v
    unfolding WritePublishResponse_def writeUInt32Array_def
    by (rule emits_cong, (rule emits_intros)+) (auto simp: publish_response_wire_def publish_response_ok_def)
  show "parses L (read_service PublishResponseEncodingID ReadPublishResponse) (publish_response_wire v) (publish_response_norm v)"
    if "validate_limits L = None" "publish_response_ok L v" "publish_response_readable L v" for L v
    unfolding ReadPublishResponse_def readStatusCodeResults_bind readUInt32Array_def publish_response_wire_def
    by (intro parses_steps) (use that in \<open>simp_all add: publish_response_ok_def publish_response_readable_def publish_response_norm_def\<close>)
  show "within (read_service PublishResponseEncodingID ReadPublishResponse)"
    unfolding ReadPublishResponse_def readStatusCodeResults_bind readUInt32Array_def by (intro within_intros)
qed

definition republish_request_wire :: "RepublishRequest \<Rightarrow> byte list" where
  "republish_request_wire v = service_wire RepublishRequestEncodingID @ request_header_wire (rbHeader v) @
     le_bytes 4 (rbSubscriptionID v) @ le_bytes 4 (RetransmitSequenceNumber v)"

definition republish_request_ok :: "BinaryLimits \<Rightarrow> RepublishRequest \<Rightarrow> bool" where
  "republish_request_ok L v \<longleftrightarrow> request_header_ok L (rbHeader v)"

definition republish_request_norm :: "RepublishRequest \<Rightarrow> RepublishRequest" where
  "republish_request_norm v = v\<lparr>rbHeader := request_header_norm (rbHeader v)\<rparr>"

interpretation republish_request_codec: ua_codec WriteRepublishRequest "read_service RepublishRequestEncodingID ReadRepublishRequest"
  republish_request_wire republish_request_ok republish_request_norm
proof unfold_locales
  show "emits L (WriteRepublishRequest v) (republish_request_ok L v) (republish_request_wire v)" for L v
    unfolding WriteRepublishRequest_def
    by (rule emits_cong, (rule emits_intros)+) (auto simp: republish_request_wire_def republish_request_ok_def)
  show "parses L (read_service RepublishRequestEncodingID ReadRepublishRequest) (republish_request_wire v) (republish_request_norm v)"
    if "validate_limits L = None" "republish_request_ok L v" for L v
    unfolding ReadRepublishRequest_def republish_request_wire_def
    by (intro parses_steps) (use that in \<open>simp_all add: republish_request_ok_def republish_request_norm_def\<close>)
  show "within (read_service RepublishRequestEncodingID ReadRepublishRequest)"
    unfolding ReadRepublishRequest_def by (intro within_intros)
qed

definition republish_response_wire :: "RepublishResponse \<Rightarrow> byte list" where
  "republish_response_wire v = service_wire RepublishResponseEncodingID @ response_header_wire (rsHeader v) @
     notification_message_wire (rsNotificationMessage v)"

definition republish_response_ok :: "BinaryLimits \<Rightarrow> RepublishResponse \<Rightarrow> bool" where
  "republish_response_ok L v \<longleftrightarrow> response_header_ok L (rsHeader v) \<and> notification_message_ok L (rsNotificationMessage v)"

definition republish_response_norm :: "RepublishResponse \<Rightarrow> RepublishResponse" where
  "republish_response_norm v = v\<lparr>rsHeader := response_header_norm (rsHeader v),
     rsNotificationMessage := notification_message_norm (rsNotificationMessage v)\<rparr>"

definition republish_response_readable :: "BinaryLimits \<Rightarrow> RepublishResponse \<Rightarrow> bool" where
  "republish_response_readable L v \<longleftrightarrow> notification_message_readable L (rsNotificationMessage v)"

interpretation republish_response_codec: ua_codec_on WriteRepublishResponse "read_service RepublishResponseEncodingID ReadRepublishResponse"
  republish_response_wire republish_response_ok republish_response_norm republish_response_readable
proof unfold_locales
  show "emits L (WriteRepublishResponse v) (republish_response_ok L v) (republish_response_wire v)" for L v
    unfolding WriteRepublishResponse_def
    by (rule emits_cong, (rule emits_intros)+) (auto simp: republish_response_wire_def republish_response_ok_def)
  show "parses L (read_service RepublishResponseEncodingID ReadRepublishResponse) (republish_response_wire v) (republish_response_norm v)"
    if "validate_limits L = None" "republish_response_ok L v" "republish_response_readable L v" for L v
    unfolding ReadRepublishResponse_def republish_response_wire_def
    by (intro parses_steps) (use that in \<open>simp_all add: republish_response_ok_def republish_response_readable_def republish_response_norm_def\<close>)
  show "within (read_service RepublishResponseEncodingID ReadRepublishResponse)"
    unfolding ReadRepublishResponse_def by (intro within_intros)
qed

section \<open>Properties\<close>

text \<open>
  The messages that carry subscriptions, written by a fresh encoder, are read back with
  their type prefix to the last byte: the creation of subscriptions and of monitored items,
  acknowledgements, and the published and republished notifications, whose data goes through
  an encoding nested in an extension object.
\<close>
theorem subscription_messages_roundtrip:
  assumes "NewEncoder L = Inr e"
  shows "(Bytes (WriteCreateSubscriptionRequest sq e) = Inr b1 \<longrightarrow>
      decodes_as L b1 CreateSubscriptionRequestEncodingID ReadCreateSubscriptionRequest
        (create_subscription_request_norm sq)) \<and>
    (Bytes (WriteCreateMonitoredItemsRequest iq e) = Inr b2 \<longrightarrow>
      decodes_as L b2 CreateMonitoredItemsRequestEncodingID ReadCreateMonitoredItemsRequest
        (create_items_request_norm iq)) \<and>
    (Bytes (WriteCreateMonitoredItemsResponse ip e) = Inr b3 \<longrightarrow>
      decodes_as L b3 CreateMonitoredItemsResponseEncodingID ReadCreateMonitoredItemsResponse
        (create_items_response_norm ip)) \<and>
    (Bytes (WritePublishRequest uq e) = Inr b4 \<longrightarrow>
      decodes_as L b4 PublishRequestEncodingID ReadPublishRequest (publish_request_norm uq)) \<and>
    (Bytes (WritePublishResponse up e) = Inr b5 \<and> publish_response_readable L up \<longrightarrow>
      decodes_as L b5 PublishResponseEncodingID ReadPublishResponse (publish_response_norm up)) \<and>
    (Bytes (WriteRepublishResponse rs e) = Inr b6 \<and> republish_response_readable L rs \<longrightarrow>
      decodes_as L b6 RepublishResponseEncodingID ReadRepublishResponse (republish_response_norm rs))"
  using create_subscription_request_codec.roundtrip [OF assms] create_items_request_codec.roundtrip [OF assms]
    create_items_response_codec.roundtrip [OF assms] publish_request_codec.roundtrip [OF assms]
    publish_response_codec.roundtrip_on [OF assms] republish_response_codec.roundtrip_on [OF assms]
  by (simp add: decodes_asI)

definition republish_sample :: RepublishResponse where
  "republish_sample = \<lparr>rsHeader = response_header_sample,
     rsNotificationMessage = \<lparr>nmSequenceNumber = 7, nmPublishTime = 0,
       nmNotifications = [\<lparr>mnClientHandle = 5, mnValue = datavalue_sample\<rparr>], HasData = True\<rparr>\<rparr>"

theorem subscription_messages_roundtrip_witness:
  "decodes_as DefaultBinaryLimits (republish_response_wire republish_sample)
     RepublishResponseEncodingID ReadRepublishResponse (republish_response_norm republish_sample)"
proof -
  have e: "Bytes (WriteRepublishResponse republish_sample header_encoder) =
      Inr (republish_response_wire republish_sample)" by code_simp
  have r: "republish_response_readable DefaultBinaryLimits republish_sample" by code_simp
  from subscription_messages_roundtrip [OF header_encoder_new, of _ _ _ _ _ _ _ _ _ _ republish_sample] e r
  show ?thesis by metis
qed

end
