(* ===== verification/DaSubscribe.thy ===== *)
theory DaSubscribe
  imports Binary DaRuntime
begin

text \<open>
  DA subscriptions, \<^verbatim>\<open>src/internal/opcda/subscribe.go\<close>: the validation of a request and
  the per-subscription set of pending updates that the COM thread fills and a frontend
  drains, as sequential operations and as a step relation in which they interleave.
\<close>

section \<open>Requests\<close>

text \<open>
  Order of \<^verbatim>\<open>float32\<close> values on their bit patterns: a NaN compares false with
  everything, and the two zeros are equal.
\<close>

definition f32_key :: "float32 \<Rightarrow> int" where
  "f32_key w = (if w AND 0x80000000 \<noteq> 0 then - uint (w AND 0x7FFFFFFF) else uint w)"

definition f32_less :: "float32 \<Rightarrow> float32 \<Rightarrow> bool" where
  "f32_less a b \<longleftrightarrow> \<not> isNaN32 a \<and> \<not> isNaN32 b \<and> f32_key a < f32_key b"

definition f32_zero :: float32 where "f32_zero = 0"
definition f32_hundred :: float32 where "f32_hundred = 0x42C80000"

record SubscribeRequest =
  srItems :: "DAItemID list"
  RequestedUpdateRate :: int
  Deadband :: float32

definition millisecond :: int where "millisecond = 1000000"
definition minimumUpdateRate :: int where "minimumUpdateRate = millisecond"
definition maximumUpdateRate :: int where "maximumUpdateRate = 3600 * 10 ^ 9"

text \<open>The loop over the items, with the set \<^verbatim>\<open>seen\<close>.\<close>

fun validateItems :: "Limits \<Rightarrow> DAItemID list \<Rightarrow> DAItemID list \<Rightarrow> da_error option" where
  "validateItems limits seen [] = None"
| "validateItems limits seen (itemID # rest) =
     (if itemID = [] then Some (AdapterError CodeInvalidRequest)
      else if 0 \<in> set (runes itemID) then Some (AdapterError CodeInvalidRequest)
      else if int (length itemID) > MaxItemIDBytes limits then Some (AdapterError CodeItemIDTooLong)
      else if itemID \<in> set seen then Some (AdapterError CodeInvalidRequest)
      else validateItems limits (itemID # seen) rest)"

definition SubscribeRequest_validate :: "SubscribeRequest \<Rightarrow> Limits \<Rightarrow> da_error option" where
  "SubscribeRequest_validate request limits =
     (if srItems request = [] then Some (AdapterError CodeInvalidRequest)
      else if int (length (srItems request)) > MaxSubscriptionItems limits
        then Some (AdapterError CodeRequestLimitExceeded)
      else case validateItems limits [] (srItems request) of
        Some er \<Rightarrow> Some er
      | None \<Rightarrow>
          if RequestedUpdateRate request < minimumUpdateRate \<or> RequestedUpdateRate request > maximumUpdateRate
            then Some (AdapterError CodeInvalidRequest)
          else if go_rem (RequestedUpdateRate request) millisecond \<noteq> 0
            then Some (AdapterError CodeInvalidRequest)
          else if f32_less (Deadband request) f32_zero \<or> f32_less f32_hundred (Deadband request)
            then Some (AdapterError CodeInvalidRequest)
          else None)"

section \<open>Pending updates\<close>

text \<open>The error code is empty or names an adapter error.\<close>

record SubscriptionValue =
  svItemID :: DAItemID
  svValue :: "DAValue option"
  svVarType :: "DAVarType option"
  svCanonicalType :: "DAVarType option"
  svAccessRights :: "DAAccessRights option"
  svHRESULT :: HRESULT
  svHRESULTPresent :: bool
  svErrorCode :: "ErrorCode option"

text \<open>
  \<^verbatim>\<open>notify\<close> is a channel with one slot, filled or not; \<^verbatim>\<open>done\<close> a channel closed or not.
  The map \<^verbatim>\<open>latest\<close> is an association list with distinct keys.
\<close>

record pendingUpdates =
  porder :: "uint32 list"
  platest :: "(uint32 \<times> SubscriptionValue) list"
  pnotify :: bool
  pdone :: bool
  perr :: "da_error option"
  pclosed :: bool

definition newPendingUpdates :: pendingUpdates where
  "newPendingUpdates = \<lparr>porder = [], platest = [], pnotify = False, pdone = False,
     perr = None, pclosed = False\<rparr>"

text \<open>The loop of \<^verbatim>\<open>merge\<close>; \<^term>\<open>None\<close> is the panic of \<^verbatim>\<open>values[index]\<close> out of range.\<close>

fun mergeLoop :: "uint32 list \<Rightarrow> SubscriptionValue list \<Rightarrow> pendingUpdates \<Rightarrow> pendingUpdates option" where
  "mergeLoop [] vs p = Some p"
| "mergeLoop (h # hs) [] p = None"
| "mergeLoop (h # hs) (v # vs) p = mergeLoop hs vs
     (p\<lparr>porder := (if map_of (platest p) h = None then porder p @ [h] else porder p),
        platest := AList.update h v (platest p)\<rparr>)"

text \<open>
  \<^verbatim>\<open>merge\<close> up to its last unlock: the new state, and whether it goes on to signal.
\<close>

definition mergeLocked ::
    "uint32 list \<Rightarrow> SubscriptionValue list \<Rightarrow> pendingUpdates \<Rightarrow> (pendingUpdates \<times> bool) option" where
  "mergeLocked handles values p =
     (if handles = [] then Some (p, False)
      else if pclosed p then Some (p, False)
      else case mergeLoop handles values p of
        None \<Rightarrow> None
      | Some p' \<Rightarrow> Some (p', platest p' \<noteq> []))"

text \<open>The non-blocking send on \<^verbatim>\<open>notify\<close>.\<close>

definition signalNotify :: "pendingUpdates \<Rightarrow> pendingUpdates" where
  "signalNotify p = p\<lparr>pnotify := True\<rparr>"

definition merge :: "uint32 list \<Rightarrow> SubscriptionValue list \<Rightarrow> pendingUpdates \<Rightarrow> pendingUpdates option" where
  "merge handles values p = (case mergeLocked handles values p of
       None \<Rightarrow> None
     | Some (p', signal) \<Rightarrow> Some (if signal then signalNotify p' else p'))"

definition drain :: "pendingUpdates \<Rightarrow> SubscriptionValue list \<times> pendingUpdates" where
  "drain p = (if porder p = [] then ([], p)
     else (map (\<lambda>h. the (map_of (platest p) h)) (porder p), p\<lparr>porder := [], platest := []\<rparr>))"

definition invalidate :: "da_error option \<Rightarrow> pendingUpdates \<Rightarrow> pendingUpdates" where
  "invalidate er p = (if pclosed p then p
     else p\<lparr>pclosed := True, perr := er, porder := [], platest := [], pdone := True\<rparr>)"

definition failure :: "pendingUpdates \<Rightarrow> da_error option" where
  "failure p = perr p"

definition psize :: "pendingUpdates \<Rightarrow> nat" where
  "psize p = length (porder p)"

text \<open>\<^verbatim>\<open>fmt.Sprintf("sub-%d-%d", generation, sequence)\<close>\<close>

definition subscriptionIDFor :: "uint64 \<Rightarrow> uint64 \<Rightarrow> gostring" where
  "subscriptionIDFor generation sequence =
     lit ''sub-'' @ decimal (unat generation) @ lit ''-'' @ decimal (unat sequence)"

section \<open>Laws of the requests\<close>

lemma byte_zero: "n < 256 \<Longrightarrow> (of_nat n :: byte) = 0 \<longleftrightarrow> n = 0"
proof
  assume "n < 256" and "(of_nat n :: byte) = 0"
  with unat_byte [of n] show "n = 0" by simp
qed simp

lemma encode_nul: "scalar_value c \<Longrightarrow> 0 \<in> set (utf8_encode_rune c) \<longleftrightarrow> c = 0"
proof -
  assume c: "scalar_value c"
  then have "c \<le> 0x10FFFF" by (auto simp: scalar_value_def)
  have *: "c \<noteq> 0 \<Longrightarrow> c < 256 \<Longrightarrow> (of_nat c :: byte) \<noteq> 0"
    "(of_nat (0x80 + d mod 64) :: byte) \<noteq> 0"
    "c < 0x800 \<Longrightarrow> (of_nat (0xC0 + c div 64) :: byte) \<noteq> 0"
    "c < 0x10000 \<Longrightarrow> (of_nat (0xE0 + c div 4096) :: byte) \<noteq> 0"
    "(of_nat (0xF0 + c div 262144) :: byte) \<noteq> 0" for d
    using mod64_le [of d] \<open>c \<le> 0x10FFFF\<close> div_le_mono [of c 1114111 262144]
      div_le_mono [of c 2047 64] div_le_mono [of c 65535 4096]
    by (simp_all add: byte_zero del: of_nat_add)
  show ?thesis
  proof (cases "c < 0x80")
    case True
    then show ?thesis using *(1) by (auto simp: utf8_encode_rune_def)
  next
    case False
    then show ?thesis
      using * by (auto simp: utf8_encode_rune_def eq_commute [of 0] simp del: of_nat_add)
  qed
qed

lemma runes_nul: "0 \<in> set (runes s) \<longleftrightarrow> 0 \<in> set s"
proof (induction s rule: runes.induct)
  case (1 s)
  show ?case
  proof (cases s)
    case Nil
    then show ?thesis by (simp add: runes.simps)
  next
    case (Cons b bs)
    show ?thesis
    proof (cases "decodeRune s")
      case None
      have "b \<noteq> 0" using None Cons by (auto simp: decodeRune.simps(2))
      then show ?thesis
        using 1(1) None Cons by (subst runes.simps) (auto simp: RuneError_def)
    next
      case (Some p)
      obtain c n where p: "p = (c, n)" by (cases p)
      have "set s = set (take n s) \<union> set (drop n s)" by (metis append_take_drop_id set_append)
      moreover have "0 \<in> set (take n s) \<longleftrightarrow> c = 0"
        using decodeRune_inverse [of s c n] Some p by (simp add: encode_nul)
      moreover have "0 \<in> set (runes (drop n s)) \<longleftrightarrow> 0 \<in> set (drop n s)"
        using 1(2) Some p Cons by auto
      ultimately show ?thesis using Some p Cons by (subst runes.simps) auto
    qed
  qed
qed

definition item_id_ok :: "Limits \<Rightarrow> DAItemID \<Rightarrow> bool" where
  "item_id_ok limits i \<longleftrightarrow> i \<noteq> [] \<and> 0 \<notin> set i \<and> int (length i) \<le> MaxItemIDBytes limits"

lemma validateItems_iff:
  "validateItems limits seen items = None \<longleftrightarrow>
     list_all (item_id_ok limits) items \<and> distinct items \<and> set items \<inter> set seen = {}"
  by (induction items arbitrary: seen) (auto simp: item_id_ok_def runes_nul)

definition deadband_ok :: "float32 \<Rightarrow> bool" where
  "deadband_ok w \<longleftrightarrow> isNaN32 w \<or> f32_key f32_zero \<le> f32_key w \<and> f32_key w \<le> f32_key f32_hundred"

lemma not_NaN_constants: "\<not> isNaN32 f32_zero" "\<not> isNaN32 f32_hundred"
  by (simp_all add: isNaN32_def f32_zero_def f32_hundred_def)

text \<open>
  Claim C39: a subscribe request is accepted exactly when it names between one and the
  configured number of items, all different, non-empty, free of NUL bytes and within the
  length limit; its update rate is a whole number of milliseconds between one millisecond
  and one hour; and its deadband is between 0 and 100 \<^emph>\<open>or is not a number\<close>, since both
  comparisons of the source are false for NaN.
\<close>
theorem SubscribeRequest_validate_exact:
  "SubscribeRequest_validate r limits = None \<longleftrightarrow>
     srItems r \<noteq> [] \<and> int (length (srItems r)) \<le> MaxSubscriptionItems limits \<and>
     list_all (item_id_ok limits) (srItems r) \<and> distinct (srItems r) \<and>
     10 ^ 6 \<le> RequestedUpdateRate r \<and> RequestedUpdateRate r \<le> 3600 * 10 ^ 9 \<and>
     RequestedUpdateRate r mod 10 ^ 6 = 0 \<and> deadband_ok (Deadband r)"
proof -
  have d: "\<not> (f32_less w f32_zero \<or> f32_less f32_hundred w) \<longleftrightarrow> deadband_ok w" for w
    using not_NaN_constants by (auto simp: f32_less_def deadband_ok_def)
  have rem: "go_rem x 1000000 = x mod 1000000" if "1000000 \<le> x" for x
    using that by (intro go_rem_nonneg) auto
  show ?thesis
    unfolding SubscribeRequest_validate_def minimumUpdateRate_def maximumUpdateRate_def millisecond_def
    using d [of "Deadband r"] validateItems_iff [of limits "[]" "srItems r"]
    by (cases "validateItems limits [] (srItems r)"; cases "1000000 \<le> RequestedUpdateRate r")
      (auto simp: rem)
qed

section \<open>Laws of the pending updates\<close>

text \<open>The elements of a list in the order they are first seen.\<close>

definition first_seen :: "'a list \<Rightarrow> 'a list" where
  "first_seen xs = rev (remdups (rev xs))"

lemma first_seen_simps [simp]:
  "first_seen [] = []" "set (first_seen xs) = set xs" "distinct (first_seen xs)"
  "first_seen (xs @ [x]) = (if x \<in> set xs then first_seen xs else first_seen xs @ [x])"
  by (simp_all add: first_seen_def)

text \<open>
  The abstract contents of a pending set: the values merged since the last drain, oldest
  first. A drain delivers the last value of each handle, in the order of first arrival.
\<close>

definition coalesced :: "(uint32 \<times> 'v) list \<Rightarrow> 'v list" where
  "coalesced h = map (\<lambda>k. the (map_of (rev h) k)) (first_seen (map fst h))"

definition represents :: "pendingUpdates \<Rightarrow> (uint32 \<times> SubscriptionValue) list \<Rightarrow> bool" where
  "represents p h \<longleftrightarrow> porder p = first_seen (map fst h) \<and> map_of (platest p) = map_of (rev h) \<and>
     distinct (map fst (platest p))"

lemma represents_new: "represents newPendingUpdates []"
  by (simp add: represents_def newPendingUpdates_def)

lemma represents_push:
  assumes "represents p h"
  shows "represents (p\<lparr>porder := (if map_of (platest p) k = None then porder p @ [k] else porder p),
        platest := AList.update k v (platest p)\<rparr>) (h @ [(k, v)])"
proof -
  have "map_of (platest p) k = None \<longleftrightarrow> k \<notin> set (map fst h)"
    using assms by (simp add: represents_def map_of_eq_None_iff)
  then show ?thesis
    using assms by (auto simp: represents_def update_conv' distinct_update)
qed

lemma mergeLoop_represents:
  "represents p h \<Longrightarrow> length hs \<le> length vs \<Longrightarrow>
   \<exists>p'. mergeLoop hs vs p = Some p' \<and> represents p' (h @ zip hs vs) \<and>
     pclosed p' = pclosed p \<and> pnotify p' = pnotify p"
proof (induction hs vs p arbitrary: h rule: mergeLoop.induct)
  case (3 x hs v vs p)
  from 3(1) [OF represents_push [OF 3(2), of x v]] 3(3) show ?case by auto
qed auto

lemma represents_empty: "represents p h \<Longrightarrow> porder p = [] \<longleftrightarrow> h = []"
  by (auto simp: represents_def first_seen_def)

lemma represents_latest: "represents p h \<Longrightarrow> platest p = [] \<longleftrightarrow> h = []"
  by (auto simp: represents_def dest: arg_cong [where f = dom] simp: dom_map_of_conv_image_fst)

text \<open>
  The contract between the COM thread, which merges, and a frontend, which drains.
\<close>

locale update_queue =
  fixes contents :: "'p \<Rightarrow> (uint32 \<times> 'v) list \<Rightarrow> bool"
    and live :: "'p \<Rightarrow> bool"
    and mrg :: "uint32 list \<Rightarrow> 'v list \<Rightarrow> 'p \<Rightarrow> 'p option"
    and drn :: "'p \<Rightarrow> 'v list \<times> 'p"
  assumes mrg_contents: "contents p h \<Longrightarrow> live p \<Longrightarrow> length hs = length vs \<Longrightarrow>
      \<exists>p'. mrg hs vs p = Some p' \<and> contents p' (h @ zip hs vs) \<and> live p'"
    and drn_contents: "contents p h \<Longrightarrow> drn p = (xs, p') \<Longrightarrow> xs = coalesced h \<and> contents p' [] \<and> live p' = live p"
begin

primrec mrgs :: "(uint32 list \<times> 'v list) list \<Rightarrow> 'p \<Rightarrow> 'p option" where
  "mrgs [] p = Some p"
| "mrgs (b # bs) p = (case mrg (fst b) (snd b) p of None \<Rightarrow> None | Some p' \<Rightarrow> mrgs bs p')"

lemma mrgs_contents:
  assumes "contents p h" and "live p" and "list_all (\<lambda>(hs, vs). length hs = length vs) bs"
  shows "\<exists>p'. mrgs bs p = Some p' \<and> contents p' (h @ concat (map (\<lambda>(hs, vs). zip hs vs) bs)) \<and> live p'"
  using assms
proof (induction bs arbitrary: p h)
  case (Cons b bs)
  obtain hs vs where b: "b = (hs, vs)" by (cases b)
  with Cons.prems obtain p1 where p1: "mrg hs vs p = Some p1" "contents p1 (h @ zip hs vs)" "live p1"
    using mrg_contents by force
  from Cons.IH [OF p1(2,3)] Cons.prems(3) b p1(1) show ?case by auto
qed simp

lemma drain_after_batches:
  assumes "contents p []" and "live p" and "list_all (\<lambda>(hs, vs). length hs = length vs) bs"
  shows "\<exists>p' p''. mrgs bs p = Some p' \<and>
    drn p' = (coalesced (concat (map (\<lambda>(hs, vs). zip hs vs) bs)), p'') \<and> contents p'' [] \<and> live p''"
proof -
  obtain p' where p': "mrgs bs p = Some p'" "contents p' (concat (map (\<lambda>(hs, vs). zip hs vs) bs))" "live p'"
    using mrgs_contents [OF assms] by auto
  moreover obtain xs p'' where d: "drn p' = (xs, p'')" by (cases "drn p'")
  ultimately show ?thesis using drn_contents [OF p'(2) d] by auto
qed

end

lemma drain_represents:
  assumes "represents p h"
  shows "fst (drain p) = coalesced h" "represents (snd (drain p)) []"
proof -
  have "map (\<lambda>k. the (map_of (platest p) k)) (porder p) = coalesced h"
    using assms by (simp add: represents_def coalesced_def)
  moreover have "coalesced [] = []" by (simp add: coalesced_def)
  ultimately show "fst (drain p) = coalesced h"
    using represents_empty [OF assms] by (auto simp: drain_def)
  show "represents (snd (drain p)) []"
    using assms represents_empty [OF assms] represents_latest [OF assms]
    by (auto simp: drain_def represents_def)
qed

interpretation pending: update_queue represents "\<lambda>p. \<not> pclosed p" merge drain
proof unfold_locales
  fix p h and hs :: "uint32 list" and vs :: "SubscriptionValue list"
  assume p: "represents p h" "\<not> pclosed p" "length hs = length vs"
  then obtain q where q: "mergeLoop hs vs p = Some q" "represents q (h @ zip hs vs)" "\<not> pclosed q"
    using mergeLoop_represents [OF p(1), of hs vs] by auto
  have s: "represents (signalNotify q) (h @ zip hs vs)" "\<not> pclosed (signalNotify q)"
    using q by (auto simp: signalNotify_def represents_def)
  show "\<exists>p'. merge hs vs p = Some p' \<and> represents p' (h @ zip hs vs) \<and> \<not> pclosed p'"
    using p q s by (auto simp: merge_def mergeLocked_def)
next
  fix p h xs p' assume "represents p h" "drain p = (xs, p')"
  then show "xs = coalesced h \<and> represents p' [] \<and> (\<not> pclosed p') = (\<not> pclosed p)"
    using drain_represents [of p h] by (auto simp: drain_def split: if_splits)
qed

section \<open>Interleaving\<close>

text \<open>
  The COM thread and a frontend on one pending set. \<^verbatim>\<open>merge\<close> is two atomic steps, its
  critical section and the signal after the unlock; \<open>signalling\<close> counts the calls
  between them. The frontend takes the token of \<^verbatim>\<open>notify\<close> and then drains; it may drain
  at any other time too.
\<close>

record subsystem =
  pend :: pendingUpdates
  signalling :: nat
  woken :: bool

inductive pending_step :: "subsystem \<Rightarrow> subsystem \<Rightarrow> bool" where
  merge_section: "mergeLocked hs vs (pend s) = Some (p', signal) \<Longrightarrow>
     pending_step s (s\<lparr>pend := p', signalling := signalling s + (if signal then 1 else 0)\<rparr>)"
| merge_signal: "signalling s > 0 \<Longrightarrow>
     pending_step s (s\<lparr>pend := signalNotify (pend s), signalling := signalling s - 1\<rparr>)"
| wake: "pnotify (pend s) \<Longrightarrow>
     pending_step s (s\<lparr>pend := (pend s)\<lparr>pnotify := False\<rparr>, woken := True\<rparr>)"
| drained: "drain (pend s) = (xs, p') \<Longrightarrow> pending_step s (s\<lparr>pend := p', woken := False\<rparr>)"
| invalidated: "pending_step s (s\<lparr>pend := invalidate er (pend s)\<rparr>)"

inductive_cases pending_stepE: "pending_step s s'"

definition subsystem_start :: subsystem where
  "subsystem_start = \<lparr>pend = newPendingUpdates, signalling = 0, woken = False\<rparr>"

inductive pending_reachable :: "subsystem \<Rightarrow> bool" where
  start: "pending_reachable subsystem_start"
| step: "pending_reachable s \<Longrightarrow> pending_step s s' \<Longrightarrow> pending_reachable s'"

definition pending_inv :: "subsystem \<Rightarrow> bool" where
  "pending_inv s \<longleftrightarrow> (\<exists>h. represents (pend s) h) \<and>
     (pclosed (pend s) \<longrightarrow> porder (pend s) = []) \<and> (pdone (pend s) \<longleftrightarrow> pclosed (pend s)) \<and>
     (porder (pend s) \<noteq> [] \<longrightarrow> pnotify (pend s) \<or> signalling s > 0 \<or> woken s)"

lemma mergeLoop_frame:
  "mergeLoop hs vs p = Some p' \<Longrightarrow> pclosed p' = pclosed p \<and> pdone p' = pdone p"
  by (induction hs vs p rule: mergeLoop.induct) auto

lemma mergeLoop_length: "mergeLoop hs vs p = Some p' \<Longrightarrow> length hs \<le> length vs"
  by (induction hs vs p rule: mergeLoop.induct) auto

lemma mergeLocked_inv:
  assumes "pending_inv s" and "mergeLocked hs vs (pend s) = Some (p', signal)"
  shows "pending_inv (s\<lparr>pend := p', signalling := signalling s + (if signal then 1 else 0)\<rparr>)"
proof (cases "hs = [] \<or> pclosed (pend s)")
  case True
  with assms show ?thesis by (auto simp: mergeLocked_def split: if_splits)
next
  case False
  obtain h where h: "represents (pend s) h" using assms(1) by (auto simp: pending_inv_def)
  have m: "mergeLoop hs vs (pend s) = Some p'" and sg: "signal \<longleftrightarrow> platest p' \<noteq> []"
    using False assms(2) by (auto simp: mergeLocked_def split: option.splits)
  have r: "represents p' (h @ zip hs vs)"
    using mergeLoop_represents [OF h mergeLoop_length [OF m]] m by auto
  have "h @ zip hs vs \<noteq> []" using False mergeLoop_length [OF m] by (cases hs; cases vs) auto
  then have "signal" using sg represents_latest [OF r] by simp
  then show ?thesis
    using r False assms(1) mergeLoop_frame [OF m] by (auto simp: pending_inv_def)
qed

lemma pending_step_inv: "pending_step s s' \<Longrightarrow> pending_inv s \<Longrightarrow> pending_inv s'"
proof (erule pending_stepE)
  fix xs p' assume "pending_inv s" "s' = s\<lparr>pend := p', woken := False\<rparr>" "drain (pend s) = (xs, p')"
  then show "pending_inv s'"
    using drain_represents [of "pend s"] by (fastforce simp: pending_inv_def drain_def split: if_splits)
next
  fix er assume "pending_inv s" "s' = s\<lparr>pend := invalidate er (pend s)\<rparr>"
  moreover have "represents ((pend s)\<lparr>pclosed := True, perr := er, porder := [], platest := [], pdone := True\<rparr>) []"
    by (simp add: represents_def)
  ultimately show "pending_inv s'" by (auto simp: pending_inv_def invalidate_def)
qed (auto simp: mergeLocked_inv, auto simp: pending_inv_def signalNotify_def represents_def)

lemma pending_reachable_inv: "pending_reachable s \<Longrightarrow> pending_inv s"
proof (induction rule: pending_reachable.induct)
  case start
  show ?case
    using represents_new by (auto simp: pending_inv_def subsystem_start_def newPendingUpdates_def)
next
  case (step s s')
  then show ?case using pending_step_inv by blast
qed

section \<open>Properties\<close>

definition merges :: "(uint32 list \<times> SubscriptionValue list) list \<Rightarrow> pendingUpdates \<Rightarrow> pendingUpdates option" where
  "merges = pending.mrgs"

lemma first_seen_bound: "length (first_seen xs) \<le> card (set xs)"
  by (simp add: first_seen_def length_remdups_card_conv)

lemma batch_handles:
  "set (map fst (concat (map (\<lambda>(hs, vs). zip hs vs) batches))) \<subseteq> \<Union> (set ` fst ` set batches)"
proof
  fix x assume "x \<in> set (map fst (concat (map (\<lambda>(hs, vs). zip hs vs) batches)))"
  then obtain hs vs v where b: "(hs, vs) \<in> set batches" and z: "(x, v) \<in> set (zip hs vs)" by auto
  have "x \<in> set (fst (hs, vs))" using set_zip_leftD [OF z] by simp
  with b show "x \<in> \<Union> (set ` fst ` set batches)" by blast
qed

text \<open>
  Claim C12: whatever batches of callbacks are merged into a live subscription, none is
  dropped or queued twice: a drain delivers one value for each handle seen since the last
  drain, the last one merged for it, in the order the handles were first seen, and leaves
  the set empty. What is pending never exceeds the number of distinct handles.
\<close>
theorem pending_coalesces:
  assumes "list_all (\<lambda>(hs, vs). length hs = length vs) batches"
  shows "\<exists>p p'. merges batches newPendingUpdates = Some p \<and>
    drain p = (coalesced (concat (map (\<lambda>(hs, vs). zip hs vs) batches)), p') \<and> psize p' = 0 \<and>
    psize p \<le> card (\<Union> (set ` fst ` set batches))"
proof -
  have live: "\<not> pclosed newPendingUpdates" by (simp add: newPendingUpdates_def)
  let ?h = "concat (map (\<lambda>(hs, vs). zip hs vs) batches)"
  obtain p p' where p: "merges batches newPendingUpdates = Some p" "drain p = (coalesced ?h, p')" "represents p' []"
    using pending.drain_after_batches [OF represents_new live assms] by (auto simp: merges_def)
  have "represents p ?h"
    using pending.mrgs_contents [OF represents_new live assms] p(1) by (auto simp: merges_def)
  then have "psize p = length (first_seen (map fst ?h))" by (simp add: represents_def psize_def)
  also have "\<dots> \<le> card (set (map fst ?h))" by (rule first_seen_bound)
  also have "\<dots> \<le> card (\<Union> (set ` fst ` set batches))"
    by (rule card_mono) (simp, rule batch_handles)
  finally show ?thesis using p by (auto simp: represents_def psize_def)
qed

definition value_sample :: "byte \<Rightarrow> SubscriptionValue" where
  "value_sample b = \<lparr>svItemID = [b], svValue = Some \<lparr>davItemID = [b], davVarType = VTUI1, davValue = DUInt8 b, QualityRaw = 192,
     Timestamp = 0, TimestampPresent = True, davHRESULT = SOK, davAccessRights = None\<rparr>, svVarType = Some VTUI1, svCanonicalType = None,
     svAccessRights = None, svHRESULT = SOK, svHRESULTPresent = True, svErrorCode = None\<rparr>"

theorem pending_coalesces_witness:
  "\<exists>p p'. merges [([7, 9], [value_sample 1, value_sample 2]), ([9], [value_sample 3])] newPendingUpdates = Some p \<and>
     drain p = ([value_sample 1, value_sample 3], p') \<and> psize p' = 0"
proof -
  have "coalesced (concat (map (\<lambda>(hs, vs). zip hs vs)
      [([7 :: uint32, 9], [value_sample 1, value_sample 2]), ([9], [value_sample 3])])) =
      [value_sample 1, value_sample 3]"
    by (simp add: coalesced_def first_seen_def)
  then show ?thesis
    using pending_coalesces [of "[([7, 9], [value_sample 1, value_sample 2]), ([9], [value_sample 3])]"]
    by auto
qed

text \<open>
  Claim C13: in every interleaving of merges, signals, wake-ups, drains and invalidation,
  a frontend that waits for \<^verbatim>\<open>Updates\<close> misses nothing: while values are pending, the
  token is in the channel, or a merge is about to put it there, or the frontend is already
  awake and about to drain. After invalidation nothing is pending and a drain delivers
  nothing.
\<close>
theorem pending_no_lost_wakeup:
  assumes "pending_reachable s"
  shows "(porder (pend s) \<noteq> [] \<longrightarrow> pnotify (pend s) \<or> signalling s > 0 \<or> woken s) \<and>
    (pclosed (pend s) \<longrightarrow> pdone (pend s) \<and> fst (drain (pend s)) = [])"
  using pending_reachable_inv [OF assms] by (auto simp: pending_inv_def drain_def)

definition subsystem_merged :: subsystem where
  "subsystem_merged = subsystem_start\<lparr>
     pend := newPendingUpdates\<lparr>porder := [7], platest := [(7, value_sample 1)]\<rparr>, signalling := 1\<rparr>"

theorem pending_no_lost_wakeup_witness:
  "pending_reachable subsystem_merged \<and> porder (pend subsystem_merged) \<noteq> [] \<and>
   (pnotify (pend subsystem_merged) \<or> signalling subsystem_merged > 0 \<or> woken subsystem_merged)"
proof -
  have "pending_step subsystem_start subsystem_merged"
    using merge_section [of "[7]" "[value_sample 1]" subsystem_start
        "newPendingUpdates\<lparr>porder := [7], platest := [(7, value_sample 1)]\<rparr>" True]
    by (simp add: subsystem_merged_def subsystem_start_def mergeLocked_def newPendingUpdates_def)
  then have r: "pending_reachable subsystem_merged" by (rule pending_reachable.step [OF pending_reachable.start])
  moreover have "porder (pend subsystem_merged) \<noteq> []" by (simp add: subsystem_merged_def)
  ultimately show ?thesis using pending_no_lost_wakeup [OF r] by blast
qed

end
