(* ===== verification/Deadband.thy ===== *)
theory Deadband
  imports SubscriptionMessages DaSubscribe Floats
begin

text \<open>
  Monitoring filters, from \<^verbatim>\<open>src/internal/opcua/deadband.go\<close>: a DA group knows one filter, a percent
  deadband, and anything else a client asks for is refused.
\<close>

section \<open>Narrowing a float64\<close>

text \<open>
  Go's \<^verbatim>\<open>float32(x)\<close> on the bits: the nearest \<^verbatim>\<open>float32\<close>, ties to even, an overflow infinite. A NaN
  stays one, quiet and with the upper bits of its payload, as the hardware does it.
\<close>

definition round_even :: "nat \<Rightarrow> nat \<Rightarrow> nat" where
  "round_even a d = (let q = a div d; r = a mod d in if 2 * r > d \<or> (2 * r = d \<and> odd q) then q + 1 else q)"

definition f32_of_f64 :: "float64 \<Rightarrow> float32" where
  "f32_of_f64 w = (let u = unat w; s = u div 2 ^ 63; e = u div 2 ^ 52 mod 2 ^ 11; f = u mod 2 ^ 52;
       magnitude =
         (if e = 2047 then 255 * 2 ^ 23 + (if f = 0 then 0 else 2 ^ 22 + f div 2 ^ 29 mod 2 ^ 22)
          else if e < 897 then round_even (if e = 0 then 0 else 2 ^ 52 + f) (2 ^ (926 - e))
          else min (255 * 2 ^ 23) ((e - 897) * 2 ^ 23 + round_even (2 ^ 52 + f) (2 ^ 29)))
     in of_nat (s * 2 ^ 31 + magnitude))"

definition f32_eq :: "float32 \<Rightarrow> float32 \<Rightarrow> bool" where
  "f32_eq a b \<longleftrightarrow> \<not> isNaN32 a \<and> \<not> isNaN32 b \<and> f32_key a = f32_key b"

section \<open>Filters\<close>

definition NodeIDDataChangeFilterEncodingDefaultBinary :: uint32 where
  "NodeIDDataChangeFilterEncodingDefaultBinary = 724"

definition DataChangeTriggerStatus :: uint32 where "DataChangeTriggerStatus = 0"
definition DataChangeTriggerStatusValue :: uint32 where "DataChangeTriggerStatusValue = 1"
definition DataChangeTriggerStatusValueTimestamp :: uint32 where "DataChangeTriggerStatusValueTimestamp = 2"
definition DeadbandNone :: uint32 where "DeadbandNone = 0"
definition DeadbandAbsolute :: uint32 where "DeadbandAbsolute = 1"
definition DeadbandPercent :: uint32 where "DeadbandPercent = 2"

definition StatusBadMonitoredItemFilterUnsupported :: StatusCode where "StatusBadMonitoredItemFilterUnsupported = 0x80440000"
definition StatusBadDeadbandFilterInvalid :: StatusCode where "StatusBadDeadbandFilterInvalid = 0x808E0000"

record DataChangeFilter =
  Trigger :: uint32
  DeadbandType :: uint32
  DeadbandValue :: float64

definition ReadDataChangeFilter :: "DataChangeFilter reader" where
  "ReadDataChangeFilter =
     rbind ReadUInt32 (\<lambda>trigger.
     rbind ReadUInt32 (\<lambda>deadbandType.
     rbind ReadDouble (\<lambda>deadbandValue.
     rreturn \<lparr>Trigger = trigger, DeadbandType = deadbandType, DeadbandValue = deadbandValue\<rparr>)))"

definition f64_hundred :: float64 where "f64_hundred = 0x4059000000000000"

definition deadbandForFilter :: "ExtensionObject \<Rightarrow> BinaryLimits \<Rightarrow> float32 \<times> StatusCode" where
  "deadbandForFilter requested limits =
     (if NodeID_IsNull (TypeID requested) then (0, StatusGood)
      else if Namespace (TypeID requested) \<noteq> 0 \<or> Type (TypeID requested) \<noteq> NodeIDTypeNumeric \<or>
        Numeric (TypeID requested) \<noteq> NodeIDDataChangeFilterEncodingDefaultBinary then
        (0, StatusBadMonitoredItemFilterUnsupported)
      else case NewDecoder (Body requested) limits of
          Inl er \<Rightarrow> (0, StatusBadMonitoredItemFilterUnsupported)
        | Inr decoder \<Rightarrow> (case ReadDataChangeFilter decoder of
            Inl er \<Rightarrow> (0, StatusBadMonitoredItemFilterUnsupported)
          | Inr (decoded, _) \<Rightarrow>
              if Trigger decoded \<noteq> DataChangeTriggerStatus \<and> Trigger decoded \<noteq> DataChangeTriggerStatusValue then
                (0, StatusBadMonitoredItemFilterUnsupported)
              else if DeadbandType decoded = DeadbandNone then (0, StatusGood)
              else if DeadbandType decoded = DeadbandPercent then
                (if f64_less (DeadbandValue decoded) 0 \<or> f64_less f64_hundred (DeadbandValue decoded) then
                   (0, StatusBadDeadbandFilterInvalid)
                 else (f32_of_f64 (DeadbandValue decoded), StatusGood))
              else (0, StatusBadMonitoredItemFilterUnsupported)))"

end
