(* ===== verification/Subscriptions.thy ===== *)
theory Subscriptions
  imports Deadband DataAccess Sessions
begin

text \<open>
  The subscription services, from \<^verbatim>\<open>src/internal/opcua/subscription.go\<close>. Every operation holds the
  lock of the service, so each is one function on the service, the address space and the state
  of the DA runtime. A DA subscription is an interface of \<^verbatim>\<open>src/internal/opcda/subscribe.go\<close> that
  only the COM client implements: it is a record of functions over the state of the runtime. The
  iteration order of a Go map is unspecified: \<open>rank\<close> orders the keys, for each place that
  iterates. \<open>outside\<close> is Go's conversion of a \<^verbatim>\<open>float64\<close> that is no \<^verbatim>\<open>int64\<close>.
\<close>

section \<open>DA subscriptions\<close>

record SubscriptionInfo =
  siID :: gostring
  RevisedUpdateRate :: int

record 'w SubscriptionRuntime =
  Subscribe :: "SubscribeRequest \<Rightarrow> 'w \<Rightarrow> (da_error + SubscriptionInfo) \<times> 'w"
  Unsubscribe :: "gostring \<Rightarrow> 'w \<Rightarrow> 'w"
  rtDone :: "gostring \<Rightarrow> 'w \<Rightarrow> bool"
  rtDrain :: "gostring \<Rightarrow> 'w \<Rightarrow> SubscriptionValue list \<times> 'w"

section \<open>Limits\<close>

definition StatusBadSubscriptionIDInvalid :: StatusCode where "StatusBadSubscriptionIDInvalid = 0x80280000"
definition StatusBadMonitoringModeInvalid :: StatusCode where "StatusBadMonitoringModeInvalid = 0x80410000"
definition StatusBadMonitoredItemIDInvalid :: StatusCode where "StatusBadMonitoredItemIDInvalid = 0x80420000"
definition StatusBadTooManySubscriptions :: StatusCode where "StatusBadTooManySubscriptions = 0x80770000"
definition StatusBadMessageNotAvailable :: StatusCode where "StatusBadMessageNotAvailable = 0x807B0000"
definition StatusBadNoSubscription :: StatusCode where "StatusBadNoSubscription = 0x80790000"
definition StatusBadSequenceNumberUnknown :: StatusCode where "StatusBadSequenceNumberUnknown = 0x807A0000"
definition StatusBadTooManyMonitoredItems :: StatusCode where "StatusBadTooManyMonitoredItems = 0x80DB0000"
definition StatusBadInvalidArgument :: StatusCode where "StatusBadInvalidArgument = 0x80AB0000"

record SubscriptionLimits =
  MaxSubscriptions :: int
  MaxMonitoredItems :: int
  slMinPublishingInterval :: int
  MaxPublishingInterval :: int
  MinKeepAliveCount :: uint32
  MaxKeepAliveCount :: uint32
  slMaxNotificationsPerPublish :: int
  MaxRetransmissionQueue :: int
  slRequestTimeout :: int
  slMaxNodes :: int

definition DefaultSubscriptionLimits :: SubscriptionLimits where
  "DefaultSubscriptionLimits = \<lparr>MaxSubscriptions = 8, MaxMonitoredItems = 100,
     slMinPublishingInterval = 100 * timeMillisecond, MaxPublishingInterval = 60 * 10 ^ 9,
     MinKeepAliveCount = 1, MaxKeepAliveCount = 100, slMaxNotificationsPerPublish = 500,
     MaxRetransmissionQueue = 64, slRequestTimeout = 30 * 10 ^ 9, slMaxNodes = 50000\<rparr>"

definition SubscriptionLimits_validate :: "SubscriptionLimits \<Rightarrow> go_error option" where
  "SubscriptionLimits_validate limits =
     (if MaxSubscriptions limits \<le> 0 \<or> MaxMonitoredItems limits \<le> 0 \<or>
        slMinPublishingInterval limits \<le> 0 \<or> MaxPublishingInterval limits \<le> 0 \<or>
        MinKeepAliveCount limits = 0 \<or> MaxKeepAliveCount limits = 0 \<or>
        slMaxNotificationsPerPublish limits \<le> 0 \<or> slRequestTimeout limits \<le> 0 \<or>
        MaxRetransmissionQueue limits < 2 \<or> slMaxNodes limits \<le> 0 then Some PlainError
      else if slMinPublishingInterval limits > MaxPublishingInterval limits then Some PlainError
      else if MinKeepAliveCount limits > MaxKeepAliveCount limits then Some PlainError
      else None)"

definition revisePublishingInterval :: "(float64 \<Rightarrow> int) \<Rightarrow> SubscriptionLimits \<Rightarrow> float64 \<Rightarrow> float64" where
  "revisePublishingInterval outside limits requested =
     (let interval = i64 (f64_to_int64 outside requested * timeMillisecond);
          interval = (if f64_le requested 0 \<or> interval < slMinPublishingInterval limits
            then slMinPublishingInterval limits else interval);
          interval = (if interval > MaxPublishingInterval limits then MaxPublishingInterval limits else interval)
      in f64_of_nat (nat (go_quot interval timeMillisecond)))"

definition reviseKeepAliveCount :: "SubscriptionLimits \<Rightarrow> uint32 \<Rightarrow> uint32" where
  "reviseKeepAliveCount limits requested =
     (if requested = 0 \<or> requested < MinKeepAliveCount limits then MinKeepAliveCount limits
      else if requested > MaxKeepAliveCount limits then MaxKeepAliveCount limits
      else requested)"

definition reviseLifetimeCount :: "uint32 \<Rightarrow> uint32 \<Rightarrow> uint32" where
  "reviseLifetimeCount requested keepAlive = (let minimum = keepAlive * 3
     in if requested < minimum then minimum else requested)"

section \<open>State\<close>

record monitoredItem =
  miID :: uint32
  miClientHandle :: uint32
  miItemID :: DAItemID
  miNodeID :: NodeID
  miMode :: MonitoringMode
  miTimestamps :: TimestampsToReturn
  notReadable :: bool
  samplingInterval :: float64
  miHeld :: "DataValue option"
  lastReported :: gotime
  semanticGeneration :: uint64

text \<open>\<^verbatim>\<open>byHandle\<close> is only asked whether a handle is taken; it holds the identifier of the item.\<close>

record uaSubscription =
  usID :: uint32
  usSessionToken :: gostring
  publishingEnabled :: bool
  publishingInterval :: float64
  keepAliveCount :: uint32
  lifetimeCount :: uint32
  maxNotifications :: uint32
  usPriority :: byte
  usItems :: "(uint32 \<times> monitoredItem) list"
  nextItemID :: uint32
  byHandle :: "(uint32 \<times> uint32) list"
  heldOrder :: "uint32 list"
  usDeadband :: float32
  deadbandSet :: bool
  usDA :: "SubscriptionInfo option"
  sequenceNumber :: uint32
  usPending :: "MonitoredItemNotification list"
  retransmit :: "(uint32 \<times> NotificationMessage) list"
  retransmitOrder :: "uint32 list"
  keepAliveTicks :: uint32
  messageSent :: bool
  lastKeptAlive :: gotime

record SubscriptionService =
  ssLimits :: SubscriptionLimits
  subscriptions :: "(uint32 \<times> uaSubscription) list"
  nextID :: uint32

definition NewSubscriptionService :: "SubscriptionLimits \<Rightarrow> uint32 \<Rightarrow> go_error + SubscriptionService" where
  "NewSubscriptionService limits idSeed = (case SubscriptionLimits_validate limits of
       Some er \<Rightarrow> Inl er
     | None \<Rightarrow> Inr \<lparr>ssLimits = limits, subscriptions = [], nextID = idSeed\<rparr>)"

text \<open>Storing a changed subscription: in Go it is held by pointer.\<close>

definition put_subscription :: "uint32 \<Rightarrow> uaSubscription \<Rightarrow> SubscriptionService \<Rightarrow> SubscriptionService" where
  "put_subscription i subscription svc = svc\<lparr>subscriptions := AList.update i subscription (subscriptions svc)\<rparr>"

definition put_item :: "uint32 \<Rightarrow> monitoredItem \<Rightarrow> uaSubscription \<Rightarrow> uaSubscription" where
  "put_item i item subscription = subscription\<lparr>usItems := AList.update i item (usItems subscription)\<rparr>"

type_synonym map_order = "nat \<Rightarrow> uint32 \<Rightarrow> nat"

definition iterate :: "map_order \<Rightarrow> nat \<Rightarrow> (uint32 \<times> 'a) list \<Rightarrow> (uint32 \<times> 'a) list" where
  "iterate rank place table = sort_key (\<lambda>(key, _). rank place key) table"

definition interval_ns :: "(float64 \<Rightarrow> int) \<Rightarrow> float64 \<Rightarrow> int" where
  "interval_ns outside interval = i64 (f64_to_int64 outside interval * timeMillisecond)"

definition subscription_expired :: "(float64 \<Rightarrow> int) \<Rightarrow> uaSubscription \<Rightarrow> gotime \<Rightarrow> bool" where
  "subscription_expired outside subscription now \<longleftrightarrow>
     now - lastKeptAlive subscription \<ge> i64 (uint (lifetimeCount subscription) * interval_ns outside (publishingInterval subscription))"

section \<open>Creating subscriptions\<close>

definition allocateID :: "SubscriptionService \<Rightarrow> uint32 option" where
  "allocateID svc = allocateLoop (map fst (subscriptions svc)) (nextID svc)"

text \<open>None when the search for an identifier does not return.\<close>

definition CreateSubscription ::
  "(float64 \<Rightarrow> int) \<Rightarrow> gostring \<Rightarrow> CreateSubscriptionRequest \<Rightarrow> gotime \<Rightarrow> SubscriptionService \<Rightarrow>
     ((go_error + CreateSubscriptionResponse) \<times> SubscriptionService) option" where
  "CreateSubscription outside sessionToken request now svc =
     (if int (length (subscriptions svc)) \<ge> MaxSubscriptions (ssLimits svc) then
        Some (Inl (uacpError StatusBadTooManySubscriptions), svc)
      else case allocateID svc of
          None \<Rightarrow> None
        | Some i \<Rightarrow> (let
            keepAlive = reviseKeepAliveCount (ssLimits svc) (RequestedMaxKeepAliveCount request);
            subscription = \<lparr>usID = i, usSessionToken = sessionToken, publishingEnabled = sqPublishingEnabled request,
              publishingInterval = revisePublishingInterval outside (ssLimits svc) (RequestedPublishingInterval request),
              keepAliveCount = keepAlive, lifetimeCount = reviseLifetimeCount (RequestedLifetimeCount request) keepAlive,
              maxNotifications = sqMaxNotificationsPerPublish request, usPriority = Priority request,
              usItems = [], nextItemID = 0, byHandle = [], heldOrder = [], usDeadband = 0, deadbandSet = False, usDA = None,
              sequenceNumber = 0, usPending = [], retransmit = [], retransmitOrder = [], keepAliveTicks = 0,
              messageSent = False, lastKeptAlive = now\<rparr>
            in Some (Inr \<lparr>spHeader = plain_response now (rqRequestHandle (sqHeader request)) StatusGood,
                 spSubscriptionID = i, RevisedPublishingInterval = publishingInterval subscription,
                 RevisedLifetimeCount = lifetimeCount subscription,
                 RevisedMaxKeepAliveCount = keepAliveCount subscription\<rparr>,
               svc\<lparr>nextID := i, subscriptions := AList.update i subscription (subscriptions svc)\<rparr>)))"

definition subscription_lookup ::
  "gostring \<Rightarrow> uint32 \<Rightarrow> gotime \<Rightarrow> SubscriptionService \<Rightarrow> uaSubscription option \<times> SubscriptionService" where
  "subscription_lookup sessionToken i now svc = (case map_of (subscriptions svc) i of
       None \<Rightarrow> (None, svc)
     | Some subscription \<Rightarrow>
         if usSessionToken subscription \<noteq> sessionToken then (None, svc)
         else let subscription = subscription\<lparr>lastKeptAlive := now\<rparr>
              in (Some subscription, put_subscription i subscription svc))"

section \<open>The DA group behind a subscription\<close>

definition releaseDASubscription ::
  "'w SubscriptionRuntime \<Rightarrow> uaSubscription \<times> 'w \<Rightarrow> uaSubscription \<times> 'w" where
  "releaseDASubscription rt = (\<lambda>(subscription, w). case usDA subscription of
       None \<Rightarrow> (subscription, w)
     | Some da \<Rightarrow> (subscription\<lparr>usDA := None\<rparr>, Unsubscribe rt (siID da) w))"

fun groupItems :: "DAItemID list \<Rightarrow> (uint32 \<times> monitoredItem) list \<Rightarrow> DAItemID list" where
  "groupItems itemIDs [] = itemIDs"
| "groupItems itemIDs ((_, item) # rest) =
     (if notReadable item then groupItems itemIDs rest
      else if List.member itemIDs (miItemID item) then groupItems itemIDs rest
      else groupItems (itemIDs @ [miItemID item]) rest)"

definition rebuildDASubscription ::
  "(float64 \<Rightarrow> int) \<Rightarrow> map_order \<Rightarrow> 'w SubscriptionRuntime \<Rightarrow> uaSubscription \<times> 'w \<Rightarrow>
     da_error option \<times> uaSubscription \<times> 'w" where
  "rebuildDASubscription outside rank rt = (\<lambda>(subscription, w). let
     itemIDs = groupItems [] (iterate rank 0 (usItems subscription))
     in if itemIDs = [] then (None, releaseDASubscription rt (subscription, w))
        else case Subscribe rt \<lparr>srItems = itemIDs, RequestedUpdateRate = interval_ns outside (publishingInterval subscription),
               Deadband = usDeadband subscription\<rparr> w of
            (Inl er, w) \<Rightarrow> (Some er, subscription, w)
          | (Inr created, w) \<Rightarrow>
              (let (subscription, w) = releaseDASubscription rt (subscription, w)
               in (None, subscription\<lparr>usDA := Some created\<rparr>, w)))"

definition daRevisedInterval :: "uaSubscription \<Rightarrow> float64" where
  "daRevisedInterval subscription = (case usDA subscription of
       None \<Rightarrow> publishingInterval subscription
     | Some da \<Rightarrow>
         if RevisedUpdateRate da \<le> 0 then publishingInterval subscription
         else f64_of_nat (nat (go_quot (RevisedUpdateRate da) timeMillisecond)))"

section \<open>Monitored items\<close>

definition failedItem :: "StatusCode \<Rightarrow> MonitoredItemCreateResult" where
  "failedItem status = \<lparr>mrStatusCode = status, mrMonitoredItemID = 0, RevisedSamplingInterval = 0,
     RevisedQueueSize = 0, FilterResult = NullExtensionObject\<rparr>"

definition requestedSamplingInterval :: "uaSubscription \<Rightarrow> Node \<Rightarrow> float64 \<Rightarrow> float64" where
  "requestedSamplingInterval subscription node requested = (let
     interval = (if f64_less requested 0 then publishingInterval subscription
       else if f64_eq requested 0 then 0 else requested)
     in if MinimumSamplingIntervalKnown node \<and> f64_less interval (MinimumSamplingInterval node)
        then MinimumSamplingInterval node else interval)"

definition prepareMonitoredItem ::
  "SubscriptionLimits \<Rightarrow> MonitoredItemCreateRequest \<Rightarrow> TimestampsToReturn \<Rightarrow> uaSubscription \<times> AddressSpace \<Rightarrow>
     (MonitoredItemCreateResult \<times> monitoredItem option) \<times> uaSubscription \<times> AddressSpace" where
  "prepareMonitoredItem limits create timestamps = (\<lambda>(subscription, s). let
     parameters = RequestedParameters create;
     failed = (\<lambda>status. (failedItem status, None))
     in if \<not> MonitoringMode_Valid (mqMonitoringMode create) then (failed StatusBadMonitoringModeInvalid, subscription, s)
        else if rvIndexRange (ItemToMonitor create) \<noteq> [] then (failed StatusBadIndexRangeInvalid, subscription, s)
        else if rvAttributeID (ItemToMonitor create) \<noteq> AttributeValue then (failed StatusBadAttributeIDInvalid, subscription, s)
        else let (deadband, filterStatus) = deadbandForFilter (mpFilter parameters) DefaultBinaryLimits
        in if filterStatus \<noteq> StatusGood then (failed filterStatus, subscription, s)
        else if deadbandSet subscription \<and> \<not> f32_eq (usDeadband subscription) deadband then
          (failed StatusBadMonitoredItemFilterUnsupported, subscription, s)
        else let ((found, kind), s) = ResolveNode (rvNodeID (ItemToMonitor create)) (slMaxNodes limits) s
        in if kind = NodeKindUnknown then (failed StatusBadNodeIdUnknown, subscription, s)
        else if kind = NodeKindItemProperty then (failed StatusBadNotSupported, subscription, s)
        else case (kind, found) of
            (NodeKindItem, Some node) \<Rightarrow>
              (if f32_less f32_zero deadband \<and> Numeric (nTypeDefinition node) \<noteq> NodeIDAnalogItemType then
                 (failed StatusBadDeadbandFilterInvalid, subscription, s)
               else if \<not> Option.is_none (map_of (byHandle subscription) (mpClientHandle parameters)) then
                 (failed StatusBadInvalidArgument, subscription, s)
               else let
                 subscription = subscription\<lparr>usDeadband := deadband, deadbandSet := True,
                   nextItemID := nextItemID subscription + 1\<rparr>;
                 sampling = requestedSamplingInterval subscription node (mpSamplingInterval parameters);
                 item = \<lparr>miID = nextItemID subscription, miClientHandle = mpClientHandle parameters,
                   miItemID = nItemID node, miNodeID = nID node, miMode = mqMonitoringMode create, miTimestamps = timestamps,
                   notReadable = (AccessRightsKnown node \<and> AccessLevel node AND AccessLevelCurrentRead = 0),
                   samplingInterval = sampling, miHeld = None, lastReported = zeroTime,
                   semanticGeneration = SemanticGeneration (nItemID node) s\<rparr>
                 in ((\<lparr>mrStatusCode = StatusGood, mrMonitoredItemID = miID item, RevisedSamplingInterval = sampling,
                        RevisedQueueSize = 1, FilterResult = NullExtensionObject\<rparr>, Some item), subscription, s))
          | _ \<Rightarrow> (failed StatusBadAttributeIDInvalid, subscription, s))"

fun prepareItems ::
  "SubscriptionLimits \<Rightarrow> TimestampsToReturn \<Rightarrow> MonitoredItemCreateRequest list \<Rightarrow> uaSubscription \<times> AddressSpace \<Rightarrow>
     (MonitoredItemCreateResult \<times> monitoredItem option) list \<times> uaSubscription \<times> AddressSpace" where
  "prepareItems limits timestamps [] st = ([], st)"
| "prepareItems limits timestamps (create # rest) st =
     (let (prepared, st) = prepareMonitoredItem limits create timestamps st;
          (others, st) = prepareItems limits timestamps rest st
      in (prepared # others, st))"

definition acceptedItems :: "(MonitoredItemCreateResult \<times> monitoredItem option) list \<Rightarrow> monitoredItem list" where
  "acceptedItems prepared = List.map_filter snd prepared"

definition registerItem :: "monitoredItem \<Rightarrow> uaSubscription \<Rightarrow> uaSubscription" where
  "registerItem item subscription = subscription\<lparr>usItems := AList.update (miID item) item (usItems subscription),
     byHandle := AList.update (miClientHandle item) (miID item) (byHandle subscription)\<rparr>"

definition removeItem :: "monitoredItem \<Rightarrow> uaSubscription \<Rightarrow> uaSubscription" where
  "removeItem item subscription = subscription\<lparr>usItems := AList.delete (miID item) (usItems subscription),
     byHandle := AList.delete (miClientHandle item) (byHandle subscription)\<rparr>"

text \<open>The group cannot sample faster than its revised rate, so neither can an item of it.\<close>

definition reviseItem :: "float64 \<Rightarrow> monitoredItem \<Rightarrow> monitoredItem" where
  "reviseItem revised item =
     (if f64_less (samplingInterval item) revised then item\<lparr>samplingInterval := revised\<rparr> else item)"

definition revisedResult ::
  "float64 \<Rightarrow> MonitoredItemCreateResult \<times> monitoredItem option \<Rightarrow> MonitoredItemCreateResult" where
  "revisedResult revised = (\<lambda>(result, created). case created of
       None \<Rightarrow> result
     | Some item \<Rightarrow> if mrStatusCode result \<noteq> StatusGood then result
         else result\<lparr>RevisedSamplingInterval := samplingInterval (reviseItem revised item)\<rparr>)"

definition refusedResult ::
  "StatusCode \<Rightarrow> MonitoredItemCreateResult \<times> monitoredItem option \<Rightarrow> MonitoredItemCreateResult" where
  "refusedResult status = (\<lambda>(result, created). if mrStatusCode result = StatusGood then failedItem status else result)"

type_synonym 'w subscribing = "SubscriptionService \<times> AddressSpace \<times> 'w"

definition CreateMonitoredItems ::
  "(float64 \<Rightarrow> int) \<Rightarrow> map_order \<Rightarrow> 'w SubscriptionRuntime \<Rightarrow> gostring \<Rightarrow> CreateMonitoredItemsRequest \<Rightarrow> gotime \<Rightarrow>
     'w subscribing \<Rightarrow> (go_error + CreateMonitoredItemsResponse) \<times> 'w subscribing" where
  "CreateMonitoredItems outside rank rt sessionToken request now = (\<lambda>(svc, s, w).
     if \<not> TimestampsToReturn_Valid (iqTimestampsToReturn request) then
       (Inl (uacpError StatusBadTimestampsToReturnInvalid), svc, s, w)
     else if ItemsToCreate request = [] then (Inl (uacpError StatusBadNothingToDo), svc, s, w)
     else case subscription_lookup sessionToken (iqSubscriptionID request) now svc of
         (None, svc) \<Rightarrow> (Inl (uacpError StatusBadSubscriptionIDInvalid), svc, s, w)
       | (Some subscription, svc) \<Rightarrow>
           if int (length (usItems subscription)) + int (length (ItemsToCreate request)) > MaxMonitoredItems (ssLimits svc) then
             (Inl (uacpError StatusBadTooManyMonitoredItems), svc, s, w)
           else let
             respond = (\<lambda>results. Inr \<lparr>ipHeader = plain_response now (rqRequestHandle (iqHeader request)) StatusGood,
               ipResults = results, ipDiagnostics = []\<rparr>);
             (prepared, subscription, s) =
               prepareItems (ssLimits svc) (iqTimestampsToReturn request) (ItemsToCreate request) (subscription, s);
             accepted = acceptedItems prepared
           in if accepted = [] then
                (respond (map fst prepared), put_subscription (iqSubscriptionID request) subscription svc, s, w)
              else let subscription = fold registerItem accepted subscription
              in case rebuildDASubscription outside rank rt (subscription, w) of
                  (None, subscription, w) \<Rightarrow> (let
                    revised = daRevisedInterval subscription;
                    subscription = fold (\<lambda>item. put_item (miID item) (reviseItem revised item)) accepted subscription
                    in (respond (map (revisedResult revised) prepared),
                        put_subscription (iqSubscriptionID request) subscription svc, s, w))
                | (Some er, subscription, w) \<Rightarrow>
                    (respond (map (refusedResult (statusForRuntimeError er)) prepared),
                     put_subscription (iqSubscriptionID request) (fold removeItem accepted subscription) svc, s, w))"

fun deleteItems :: "uint32 list \<Rightarrow> uaSubscription \<Rightarrow> StatusCode list \<times> bool \<times> uaSubscription" where
  "deleteItems [] subscription = ([], False, subscription)"
| "deleteItems (i # rest) subscription = (case map_of (usItems subscription) i of
       None \<Rightarrow> (let (results, removed, subscription) = deleteItems rest subscription
         in (StatusBadMonitoredItemIDInvalid # results, removed, subscription))
     | Some item \<Rightarrow> (let
         subscription = subscription\<lparr>usItems := AList.delete i (usItems subscription),
           byHandle := AList.delete (miClientHandle item) (byHandle subscription)\<rparr>;
         (results, _, subscription) = deleteItems rest subscription
         in (StatusGood # results, True, subscription)))"

definition DeleteMonitoredItems ::
  "(float64 \<Rightarrow> int) \<Rightarrow> map_order \<Rightarrow> 'w SubscriptionRuntime \<Rightarrow> gostring \<Rightarrow> DeleteMonitoredItemsRequest \<Rightarrow> gotime \<Rightarrow>
     'w subscribing \<Rightarrow> (go_error + DeleteMonitoredItemsResponse) \<times> 'w subscribing" where
  "DeleteMonitoredItems outside rank rt sessionToken request now = (\<lambda>(svc, s, w).
     if MonitoredItemIDs request = [] then (Inl (uacpError StatusBadNothingToDo), svc, s, w)
     else case subscription_lookup sessionToken (xqSubscriptionID request) now svc of
         (None, svc) \<Rightarrow> (Inl (uacpError StatusBadSubscriptionIDInvalid), svc, s, w)
       | (Some subscription, svc) \<Rightarrow> (let
           (results, removed, subscription) = deleteItems (MonitoredItemIDs request) subscription;
           (subscription, w) =
             (if \<not> removed then (subscription, w)
              else case rebuildDASubscription outside rank rt (subscription, w) of
                  (None, st) \<Rightarrow> st
                | (Some er, st) \<Rightarrow> releaseDASubscription rt st)
           in (Inr \<lparr>xpHeader = plain_response now (rqRequestHandle (xqHeader request)) StatusGood,
                 xpResults = results, xpDiagnostics = []\<rparr>,
               put_subscription (xqSubscriptionID request) subscription svc, s, w)))"

section \<open>Deleting subscriptions, publishing mode\<close>

fun deleteEach ::
  "'w SubscriptionRuntime \<Rightarrow> gostring \<Rightarrow> gotime \<Rightarrow> uint32 list \<Rightarrow> SubscriptionService \<times> 'w \<Rightarrow>
     StatusCode list \<times> SubscriptionService \<times> 'w" where
  "deleteEach rt sessionToken now [] st = ([], st)"
| "deleteEach rt sessionToken now (i # rest) (svc, w) = (case subscription_lookup sessionToken i now svc of
       (None, svc) \<Rightarrow> (let (results, st) = deleteEach rt sessionToken now rest (svc, w)
         in (StatusBadSubscriptionIDInvalid # results, st))
     | (Some subscription, svc) \<Rightarrow> (let
         w = snd (releaseDASubscription rt (subscription, w));
         svc = svc\<lparr>subscriptions := AList.delete i (subscriptions svc)\<rparr>;
         (results, st) = deleteEach rt sessionToken now rest (svc, w)
         in (StatusGood # results, st)))"

definition DeleteSubscriptions ::
  "'w SubscriptionRuntime \<Rightarrow> gostring \<Rightarrow> DeleteSubscriptionsRequest \<Rightarrow> gotime \<Rightarrow> SubscriptionService \<times> 'w \<Rightarrow>
     (go_error + DeleteSubscriptionsResponse) \<times> SubscriptionService \<times> 'w" where
  "DeleteSubscriptions rt sessionToken request now st =
     (if dqSubscriptionIDs request = [] then (Inl (uacpError StatusBadNothingToDo), st)
      else let (results, st) = deleteEach rt sessionToken now (dqSubscriptionIDs request) st
      in (Inr \<lparr>dpHeader = plain_response now (rqRequestHandle (dqHeader request)) StatusGood,
            dpResults = results, dpDiagnostics = []\<rparr>, st))"

fun setEach ::
  "bool \<Rightarrow> gostring \<Rightarrow> gotime \<Rightarrow> uint32 list \<Rightarrow> SubscriptionService \<Rightarrow> StatusCode list \<times> SubscriptionService" where
  "setEach enabled sessionToken now [] svc = ([], svc)"
| "setEach enabled sessionToken now (i # rest) svc = (case subscription_lookup sessionToken i now svc of
       (None, svc) \<Rightarrow> (let (results, svc) = setEach enabled sessionToken now rest svc
         in (StatusBadSubscriptionIDInvalid # results, svc))
     | (Some subscription, svc) \<Rightarrow> (let
         svc = put_subscription i (subscription\<lparr>publishingEnabled := enabled\<rparr>) svc;
         (results, svc) = setEach enabled sessionToken now rest svc
         in (StatusGood # results, svc)))"

definition SetPublishingMode ::
  "gostring \<Rightarrow> SetPublishingModeRequest \<Rightarrow> gotime \<Rightarrow> SubscriptionService \<Rightarrow>
     (go_error + SetPublishingModeResponse) \<times> SubscriptionService" where
  "SetPublishingMode sessionToken request now svc =
     (if pqSubscriptionIDs request = [] then (Inl (uacpError StatusBadNothingToDo), svc)
      else let (results, svc) = setEach (pqPublishingEnabled request) sessionToken now (pqSubscriptionIDs request) svc
      in (Inr \<lparr>ppHeader = plain_response now (rqRequestHandle (pqHeader request)) StatusGood,
            ppResults = results, ppDiagnostics = []\<rparr>, svc))"

section \<open>Acknowledging and republishing\<close>

fun acknowledgeEach ::
  "gostring \<Rightarrow> gotime \<Rightarrow> SubscriptionAcknowledgement list \<Rightarrow> SubscriptionService \<Rightarrow> StatusCode list \<times> SubscriptionService" where
  "acknowledgeEach sessionToken now [] svc = ([], svc)"
| "acknowledgeEach sessionToken now (a # rest) svc =
     (case subscription_lookup sessionToken (akSubscriptionID a) now svc of
        (None, svc) \<Rightarrow> (let (results, svc) = acknowledgeEach sessionToken now rest svc
          in (StatusBadSubscriptionIDInvalid # results, svc))
      | (Some subscription, svc) \<Rightarrow>
          if Option.is_none (map_of (retransmit subscription) (akSequenceNumber a)) then
            (let (results, svc) = acknowledgeEach sessionToken now rest svc
             in (StatusBadSequenceNumberUnknown # results, svc))
          else (let
            subscription = subscription\<lparr>retransmit := AList.delete (akSequenceNumber a) (retransmit subscription),
              retransmitOrder := remove1 (akSequenceNumber a) (retransmitOrder subscription)\<rparr>;
            (results, svc) = acknowledgeEach sessionToken now rest (put_subscription (akSubscriptionID a) subscription svc)
            in (StatusGood # results, svc)))"

definition acknowledge ::
  "gostring \<Rightarrow> PublishRequest \<Rightarrow> gotime \<Rightarrow> SubscriptionService \<Rightarrow> StatusCode list \<times> SubscriptionService" where
  "acknowledge sessionToken request now svc = acknowledgeEach sessionToken now (Acknowledgements request) svc"

definition Republish ::
  "gostring \<Rightarrow> RepublishRequest \<Rightarrow> gotime \<Rightarrow> SubscriptionService \<Rightarrow> (go_error + RepublishResponse) \<times> SubscriptionService" where
  "Republish sessionToken request now svc =
     (case subscription_lookup sessionToken (rbSubscriptionID request) now svc of
        (None, svc) \<Rightarrow> (Inl (uacpError StatusBadSubscriptionIDInvalid), svc)
      | (Some subscription, svc) \<Rightarrow> (case map_of (retransmit subscription) (RetransmitSequenceNumber request) of
            None \<Rightarrow> (Inl (uacpError StatusBadMessageNotAvailable), svc)
          | Some message \<Rightarrow> (Inr \<lparr>rsHeader = plain_response now (rqRequestHandle (rbHeader request)) StatusGood,
              rsNotificationMessage = message\<rparr>, svc)))"

section \<open>Collecting values\<close>

definition itemForDAItemID :: "map_order \<Rightarrow> nat \<Rightarrow> DAItemID \<Rightarrow> uaSubscription \<Rightarrow> (uint32 \<times> monitoredItem) option" where
  "itemForDAItemID rank place itemID subscription =
     List.find (\<lambda>(_, item). miItemID item = itemID) (iterate rank place (usItems subscription))"

definition dataValueForSubscription :: "SubscriptionValue \<Rightarrow> TimestampsToReturn \<Rightarrow> gotime \<Rightarrow> DataValue" where
  "dataValueForSubscription value timestamps now = dataValueForRead \<lparr>rrItemID = svItemID value, rrValue = svValue value,
     rrVarType = svVarType value, rrCanonicalType = svCanonicalType value, rrAccessRights = svAccessRights value,
     rrHRESULT = svHRESULT value, rrHRESULTPresent = svHRESULTPresent value, rrErrorCode = svErrorCode value\<rparr> timestamps now"

definition withStatus :: "(StatusCode \<Rightarrow> StatusCode) \<Rightarrow> DataValue \<Rightarrow> DataValue" where
  "withStatus f v = DataValue (dvValue v) (f (dvStatus v)) (SourceTimestamp v) (SourcePicoseconds v)
     (ServerTimestamp v) (ServerPicoseconds v)"

definition collectValue ::
  "map_order \<Rightarrow> gotime \<Rightarrow> nat \<Rightarrow> SubscriptionValue \<Rightarrow> uaSubscription \<times> AddressSpace \<Rightarrow> uaSubscription \<times> AddressSpace" where
  "collectValue rank now place value = (\<lambda>(subscription, s).
     case itemForDAItemID rank place (svItemID value) subscription of
         None \<Rightarrow> (subscription, s)
       | Some (i, item) \<Rightarrow>
           if miMode item \<noteq> MonitoringModeReporting then (subscription, s)
           else let
             s = LearnFromRead (miNodeID item) (svCanonicalType value) (svAccessRights value) s;
             notification = dataValueForSubscription value (miTimestamps item) now;
             generation = SemanticGeneration (miItemID item) s;
             (notification, item) = (if generation \<noteq> semanticGeneration item
               then (withStatus WithSemanticsChanged notification, item\<lparr>semanticGeneration := generation\<rparr>)
               else (notification, item));
             subscription = (if Option.is_none (miHeld item)
               then subscription\<lparr>heldOrder := heldOrder subscription @ [miID item]\<rparr> else subscription)
           in (put_item i (item\<lparr>miHeld := Some notification\<rparr>) subscription, s))"

fun collectValues ::
  "map_order \<Rightarrow> gotime \<Rightarrow> nat \<Rightarrow> SubscriptionValue list \<Rightarrow> uaSubscription \<times> AddressSpace \<Rightarrow> uaSubscription \<times> AddressSpace" where
  "collectValues rank now place [] st = st"
| "collectValues rank now place (value # rest) st =
     collectValues rank now (Suc place) rest (collectValue rank now place value st)"

fun flushLoop ::
  "(float64 \<Rightarrow> int) \<Rightarrow> gotime \<Rightarrow> uint32 list \<Rightarrow> uint32 list \<Rightarrow> uaSubscription \<Rightarrow> uint32 list \<times> uaSubscription" where
  "flushLoop outside now stillHeld [] subscription = (stillHeld, subscription)"
| "flushLoop outside now stillHeld (i # rest) subscription = (case map_of (usItems subscription) i of
       None \<Rightarrow> flushLoop outside now stillHeld rest subscription
     | Some item \<Rightarrow> (case miHeld item of
           None \<Rightarrow> flushLoop outside now stillHeld rest subscription
         | Some value \<Rightarrow>
             if now - lastReported item < interval_ns outside (samplingInterval item) then
               flushLoop outside now (stillHeld @ [i]) rest subscription
             else flushLoop outside now stillHeld rest
               (put_item i (item\<lparr>miHeld := None, lastReported := now\<rparr>)
                 (subscription\<lparr>usPending := usPending subscription @
                   [\<lparr>mnClientHandle = miClientHandle item, mnValue = value\<rparr>]\<rparr>))))"

definition flushHeld :: "(float64 \<Rightarrow> int) \<Rightarrow> gotime \<Rightarrow> uaSubscription \<Rightarrow> uaSubscription" where
  "flushHeld outside now subscription =
     (if \<not> publishingEnabled subscription then subscription
      else let (stillHeld, subscription) = flushLoop outside now [] (heldOrder subscription) subscription
           in subscription\<lparr>heldOrder := stillHeld\<rparr>)"

definition holdItem :: "uint32 \<times> monitoredItem \<Rightarrow> uaSubscription \<Rightarrow> uaSubscription" where
  "holdItem = (\<lambda>(i, item) subscription.
     if \<not> notReadable item \<or> lastReported item \<noteq> zeroTime \<or> \<not> Option.is_none (miHeld item) then subscription
     else if miMode item \<noteq> MonitoringModeReporting then subscription
     else put_item i (item\<lparr>miHeld := Some (DataValue NullVariant StatusBadNotReadable zeroTime 0 zeroTime 0)\<rparr>)
       (subscription\<lparr>heldOrder := heldOrder subscription @ [miID item]\<rparr>))"

definition holdUnreadable :: "map_order \<Rightarrow> uaSubscription \<Rightarrow> uaSubscription" where
  "holdUnreadable rank subscription = fold holdItem (iterate rank 0 (usItems subscription)) subscription"

definition invalidateItem :: "gotime \<Rightarrow> uint32 \<times> monitoredItem \<Rightarrow> uaSubscription \<Rightarrow> uaSubscription" where
  "invalidateItem now = (\<lambda>(i, item) subscription. let
     subscription = put_item i (item\<lparr>miHeld := None\<rparr>) subscription
     in if miMode item \<noteq> MonitoringModeReporting then subscription
        else subscription\<lparr>usPending := usPending subscription @ [\<lparr>mnClientHandle = miClientHandle item,
          mnValue = DataValue NullVariant StatusBadNotConnected zeroTime 0
            (if asksServer (miTimestamps item) then now else zeroTime) 0\<rparr>]\<rparr>)"

definition reportInvalidation :: "map_order \<Rightarrow> gotime \<Rightarrow> uaSubscription \<Rightarrow> uaSubscription" where
  "reportInvalidation rank now subscription =
     fold (invalidateItem now) (iterate rank 1 (usItems subscription)) (subscription\<lparr>heldOrder := []\<rparr>)"

definition collect ::
  "(float64 \<Rightarrow> int) \<Rightarrow> map_order \<Rightarrow> 'w SubscriptionRuntime \<Rightarrow> gotime \<Rightarrow> uaSubscription \<times> AddressSpace \<times> 'w \<Rightarrow>
     uaSubscription \<times> AddressSpace \<times> 'w" where
  "collect outside rank rt now = (\<lambda>(subscription, s, w). let subscription = holdUnreadable rank subscription
     in case usDA subscription of
         None \<Rightarrow> (flushHeld outside now subscription, s, w)
       | Some da \<Rightarrow>
           if rtDone rt (siID da) w then
             (case releaseDASubscription rt (reportInvalidation rank now subscription, w) of (subscription, w) \<Rightarrow> (subscription, s, w))
           else let
             (values, w) = rtDrain rt (siID da) w;
             (subscription, s) = collectValues rank now 2 values (subscription, s)
           in (flushHeld outside now subscription, s, w))"

section \<open>Publishing\<close>

fun dropOldest :: "int \<Rightarrow> uint32 list \<Rightarrow> (uint32 \<times> NotificationMessage) list \<Rightarrow>
    uint32 list \<times> (uint32 \<times> NotificationMessage) list" where
  "dropOldest limit [] queue = ([], queue)"
| "dropOldest limit (oldest # order) queue =
     (if int (length (oldest # order)) \<ge> limit then dropOldest limit order (AList.delete oldest queue)
      else (oldest # order, queue))"

definition queueForRetransmission :: "SubscriptionLimits \<Rightarrow> NotificationMessage \<Rightarrow> uaSubscription \<Rightarrow> uaSubscription" where
  "queueForRetransmission limits message subscription = (let
     (order, queue) = dropOldest (MaxRetransmissionQueue limits) (retransmitOrder subscription) (retransmit subscription)
     in subscription\<lparr>retransmit := AList.update (nmSequenceNumber message) message queue,
          retransmitOrder := order @ [nmSequenceNumber message]\<rparr>)"

definition buildMessage ::
  "SubscriptionLimits \<Rightarrow> gotime \<Rightarrow> uaSubscription \<Rightarrow> NotificationMessage option \<times> uaSubscription" where
  "buildMessage limits now subscription =
     (if \<not> publishingEnabled subscription \<or> usPending subscription = [] then
        (let subscription = subscription\<lparr>keepAliveTicks := keepAliveTicks subscription + 1\<rparr>
         in if messageSent subscription \<and> keepAliveTicks subscription < keepAliveCount subscription then (None, subscription)
            else (Some \<lparr>nmSequenceNumber = sequenceNumber subscription + 1, nmPublishTime = now,
                    nmNotifications = [], HasData = False\<rparr>,
                  subscription\<lparr>keepAliveTicks := 0, messageSent := True\<rparr>))
      else let
        maximum = slMaxNotificationsPerPublish limits;
        maximum = (if maxNotifications subscription > 0 \<and> uint (maxNotifications subscription) < maximum
          then uint (maxNotifications subscription) else maximum);
        count = (if int (length (usPending subscription)) > maximum then nat maximum else length (usPending subscription));
        notifications = take count (usPending subscription);
        subscription = subscription\<lparr>usPending := drop count (usPending subscription), keepAliveTicks := 0,
          messageSent := True, sequenceNumber := sequenceNumber subscription + 1\<rparr>;
        message = \<lparr>nmSequenceNumber = sequenceNumber subscription, nmPublishTime = now,
          nmNotifications = notifications, HasData = True\<rparr>
      in (Some message, queueForRetransmission limits message subscription))"

text \<open>The first of the session's subscriptions with the highest priority, in the order of iteration.\<close>

definition betterSubscription ::
  "gostring \<Rightarrow> uint32 \<times> uaSubscription \<Rightarrow> (uint32 \<times> uaSubscription) option \<Rightarrow> (uint32 \<times> uaSubscription) option" where
  "betterSubscription sessionToken = (\<lambda>(i, subscription) best.
     if usSessionToken subscription \<noteq> sessionToken then best
     else case best of
         None \<Rightarrow> Some (i, subscription)
       | Some (j, other) \<Rightarrow> if usPriority subscription > usPriority other then Some (i, subscription) else best)"

definition nextPublishable :: "map_order \<Rightarrow> gostring \<Rightarrow> SubscriptionService \<Rightarrow> (uint32 \<times> uaSubscription) option" where
  "nextPublishable rank sessionToken svc =
     fold (betterSubscription sessionToken) (iterate rank 0 (subscriptions svc)) None"

definition keepSessionAlive :: "gostring \<Rightarrow> gotime \<Rightarrow> SubscriptionService \<Rightarrow> SubscriptionService" where
  "keepSessionAlive sessionToken now svc = svc\<lparr>subscriptions := map (\<lambda>(i, subscription).
     (i, if usSessionToken subscription = sessionToken then subscription\<lparr>lastKeptAlive := now\<rparr> else subscription))
     (subscriptions svc)\<rparr>"

text \<open>\<open>rank\<close> orders the subscriptions, \<open>ranks\<close> the items of the chosen one and \<open>sent\<close> its sent messages.\<close>

definition tryPublish ::
  "(float64 \<Rightarrow> int) \<Rightarrow> map_order \<Rightarrow> map_order \<Rightarrow> map_order \<Rightarrow> 'w SubscriptionRuntime \<Rightarrow> gostring \<Rightarrow> PublishRequest \<Rightarrow>
     StatusCode list \<Rightarrow> gotime \<Rightarrow> 'w subscribing \<Rightarrow> (go_error + PublishResponse option) \<times> 'w subscribing" where
  "tryPublish outside rank ranks sent rt sessionToken request acknowledgements now = (\<lambda>(svc, s, w).
     let svc = keepSessionAlive sessionToken now svc
     in case nextPublishable rank sessionToken svc of
         None \<Rightarrow> (Inl (uacpError StatusBadNoSubscription), svc, s, w)
       | Some (i, subscription) \<Rightarrow> (let
           (subscription, s, w) = collect outside ranks rt now (subscription, s, w);
           (message, subscription) = buildMessage (ssLimits svc) now subscription;
           svc = put_subscription i subscription svc
           in case message of
               None \<Rightarrow> (Inr None, svc, s, w)
             | Some message \<Rightarrow> (Inr (Some \<lparr>upHeader = plain_response now (rqRequestHandle (uqHeader request)) StatusGood,
                 upSubscriptionID = usID subscription,
                 AvailableSequenceNumbers = map fst (iterate sent 0 (retransmit subscription)),
                 MoreNotifications = (usPending subscription \<noteq> []), upNotificationMessage = message,
                 upResults = acknowledgements, upDiagnostics = []\<rparr>), svc, s, w)))"

definition publishPollInterval :: "(float64 \<Rightarrow> int) \<Rightarrow> gostring \<Rightarrow> SubscriptionService \<Rightarrow> int" where
  "publishPollInterval outside sessionToken svc = (let
     interval = fold (\<lambda>(_, subscription) interval. if usSessionToken subscription \<noteq> sessionToken then interval
         else let candidate = interval_ns outside (publishingInterval subscription)
              in if candidate > 0 \<and> candidate < interval then candidate else interval)
       (subscriptions svc) (MaxPublishingInterval (ssLimits svc))
     in if interval < slMinPublishingInterval (ssLimits svc) then slMinPublishingInterval (ssLimits svc) else interval)"

text \<open>
  A Publish holds the request over publishing cycles, each at its time and with its orders of
  iteration, until there is something to send; None when the context ends after the last cycle.
\<close>

record publish_cycle =
  cyNow :: gotime
  cySubscriptions :: map_order
  cyItems :: map_order
  cySent :: map_order

fun publishLoop ::
  "(float64 \<Rightarrow> int) \<Rightarrow> 'w SubscriptionRuntime \<Rightarrow> gostring \<Rightarrow> PublishRequest \<Rightarrow>
     StatusCode list \<Rightarrow> publish_cycle list \<Rightarrow> 'w subscribing \<Rightarrow> (go_error + PublishResponse) option \<times> 'w subscribing" where
  "publishLoop outside rt sessionToken request acknowledgements [] st = (None, st)"
| "publishLoop outside rt sessionToken request acknowledgements (c # cycles) st =
     (case tryPublish outside (cySubscriptions c) (cyItems c) (cySent c) rt sessionToken request acknowledgements (cyNow c) st of
        (Inl er, st) \<Rightarrow> (Some (Inl er), st)
      | (Inr (Some response), st) \<Rightarrow> (Some (Inr response), st)
      | (Inr None, st) \<Rightarrow> publishLoop outside rt sessionToken request acknowledgements cycles st)"

definition Publish ::
  "(float64 \<Rightarrow> int) \<Rightarrow> 'w SubscriptionRuntime \<Rightarrow> gostring \<Rightarrow> PublishRequest \<Rightarrow>
     gotime \<Rightarrow> publish_cycle list \<Rightarrow> 'w subscribing \<Rightarrow> (go_error + PublishResponse) option \<times> 'w subscribing" where
  "Publish outside rt sessionToken request now cycles = (\<lambda>(svc, s, w).
     let (acknowledgements, svc) = acknowledge sessionToken request now svc
     in publishLoop outside rt sessionToken request acknowledgements cycles (svc, s, w))"

section \<open>Ends of subscriptions\<close>

definition releaseEach :: "'w SubscriptionRuntime \<Rightarrow> (uint32 \<times> uaSubscription) list \<Rightarrow> 'w \<Rightarrow> 'w" where
  "releaseEach rt gone w = fold (\<lambda>(_, subscription) w. snd (releaseDASubscription rt (subscription, w))) gone w"

definition subscription_ExpireStale ::
  "(float64 \<Rightarrow> int) \<Rightarrow> map_order \<Rightarrow> 'w SubscriptionRuntime \<Rightarrow> gotime \<Rightarrow> SubscriptionService \<times> 'w \<Rightarrow> nat \<times> SubscriptionService \<times> 'w" where
  "subscription_ExpireStale outside rank rt now = (\<lambda>(svc, w). let
     gone = filter (\<lambda>(_, subscription). subscription_expired outside subscription now) (iterate rank 0 (subscriptions svc))
     in (length gone,
         svc\<lparr>subscriptions := filter (\<lambda>(_, subscription). \<not> subscription_expired outside subscription now) (subscriptions svc)\<rparr>,
         releaseEach rt gone w))"

definition subscription_ReleaseSession ::
  "map_order \<Rightarrow> 'w SubscriptionRuntime \<Rightarrow> gostring \<Rightarrow> SubscriptionService \<times> 'w \<Rightarrow> SubscriptionService \<times> 'w" where
  "subscription_ReleaseSession rank rt sessionToken = (\<lambda>(svc, w).
     (svc\<lparr>subscriptions := filter (\<lambda>(_, subscription). usSessionToken subscription \<noteq> sessionToken) (subscriptions svc)\<rparr>,
      releaseEach rt (filter (\<lambda>(_, subscription). usSessionToken subscription = sessionToken)
        (iterate rank 0 (subscriptions svc))) w))"

definition SubscriptionCount :: "SubscriptionService \<Rightarrow> nat" where
  "SubscriptionCount svc = length (subscriptions svc)"

end
