(* ===== verification/SubscriptionLaws.thy ===== *)
theory SubscriptionLaws
  imports Subscriptions
begin

text \<open>
  What the subscription services keep, in every order of their operations: the bounds on
  subscriptions, items and sent messages, the separation of sessions, the DA groups behind the
  subscriptions, and what a Publish delivers.
\<close>

section \<open>The invariant of a subscription\<close>

definition interval_ok :: "SubscriptionLimits \<Rightarrow> float64 \<Rightarrow> bool" where
  "interval_ok limits t \<longleftrightarrow> (\<exists>d. slMinPublishingInterval limits \<le> d \<and> d \<le> MaxPublishingInterval limits \<and>
     t = f64_of_nat (nat (d div 10 ^ 6)))"

definition queue_ok :: "SubscriptionLimits \<Rightarrow> uaSubscription \<Rightarrow> bool" where
  "queue_ok limits sub \<longleftrightarrow> fst ` set (retransmit sub) \<subseteq> set (retransmitOrder sub) \<and>
     int (length (retransmitOrder sub)) \<le> MaxRetransmissionQueue limits \<and>
     table_wf (\<lambda>k m. nmSequenceNumber m = k) (retransmit sub)"

definition items_ok :: "uaSubscription \<Rightarrow> bool" where
  "items_ok sub \<longleftrightarrow> table_wf (\<lambda>i item. miID item = i) (usItems sub)"

definition held_ok :: "uaSubscription \<Rightarrow> bool" where
  "held_ok sub \<longleftrightarrow> (\<forall>i item. map_of (usItems sub) i = Some item \<longrightarrow> miHeld item \<noteq> None \<longrightarrow> i \<in> set (heldOrder sub))"

text \<open>The fields that are set when a subscription is created and never again.\<close>

definition same_terms :: "uaSubscription \<Rightarrow> uaSubscription \<Rightarrow> bool" where
  "same_terms sub sub' \<longleftrightarrow> usID sub' = usID sub \<and> usSessionToken sub' = usSessionToken sub \<and>
     publishingInterval sub' = publishingInterval sub \<and> keepAliveCount sub' = keepAliveCount sub \<and>
     lifetimeCount sub' = lifetimeCount sub \<and> maxNotifications sub' = maxNotifications sub \<and> usPriority sub' = usPriority sub"

definition sub_ok :: "SubscriptionLimits \<Rightarrow> uint32 \<Rightarrow> uaSubscription \<Rightarrow> bool" where
  "sub_ok limits i sub \<longleftrightarrow> usID sub = i \<and> interval_ok limits (publishingInterval sub) \<and>
     MinKeepAliveCount limits \<le> keepAliveCount sub \<and> keepAliveCount sub \<le> MaxKeepAliveCount limits \<and>
     queue_ok limits sub \<and> items_ok sub \<and> int (length (usItems sub)) \<le> MaxMonitoredItems limits \<and> held_ok sub \<and>
     keepAliveTicks sub < keepAliveCount sub"

text \<open>A step of one subscription that leaves what the invariant needs.\<close>

definition keeps :: "SubscriptionLimits \<Rightarrow> uaSubscription \<Rightarrow> uaSubscription \<Rightarrow> bool" where
  "keeps limits sub sub' \<longleftrightarrow> same_terms sub sub' \<and> (\<forall>i. sub_ok limits i sub \<longrightarrow> sub_ok limits i sub')"

lemma same_terms_refl [simp]: "same_terms sub sub" by (simp add: same_terms_def)

lemma same_terms_trans: "same_terms a b \<Longrightarrow> same_terms b c \<Longrightarrow> same_terms a c" by (simp add: same_terms_def)

lemma keeps_refl [simp]: "keeps limits sub sub" by (simp add: keeps_def)

lemma keeps_trans: "keeps limits a b \<Longrightarrow> keeps limits b c \<Longrightarrow> keeps limits a c"
  using same_terms_trans by (auto simp: keeps_def)

lemma keeps_fold: "(\<And>x sub. x \<in> set xs \<Longrightarrow> keeps limits sub (f x sub)) \<Longrightarrow> keeps limits sub (fold f xs sub)"
  by (induction xs arbitrary: sub) (auto intro: keeps_trans)

lemma put_item_simps [simp]:
  "usItems (put_item i item sub) = AList.update i item (usItems sub)" "heldOrder (put_item i item sub) = heldOrder sub"
  "usDA (put_item i item sub) = usDA sub" "usPending (put_item i item sub) = usPending sub"
  "retransmit (put_item i item sub) = retransmit sub" "retransmitOrder (put_item i item sub) = retransmitOrder sub"
  "sequenceNumber (put_item i item sub) = sequenceNumber sub" "publishingEnabled (put_item i item sub) = publishingEnabled sub"
  "keepAliveTicks (put_item i item sub) = keepAliveTicks sub" "messageSent (put_item i item sub) = messageSent sub"
  "same_terms sub (put_item i item sub)" "same_terms (put_item i item sub) sub" "byHandle (put_item i item sub) = byHandle sub"
  by (simp_all add: put_item_def same_terms_def)

section \<open>Items\<close>

text \<open>Preparing items touches the deadband and the counter of items only.\<close>

definition prepared_from :: "uaSubscription \<Rightarrow> uaSubscription \<Rightarrow> bool" where
  "prepared_from sub sub' \<longleftrightarrow>
     sub' = sub\<lparr>usDeadband := usDeadband sub', deadbandSet := deadbandSet sub', nextItemID := nextItemID sub'\<rparr>"

lemma prepared_refl [simp]: "prepared_from sub sub" by (simp add: prepared_from_def)

lemma prepared_trans: "prepared_from a b \<Longrightarrow> prepared_from b c \<Longrightarrow> prepared_from a c"
  by (cases a, cases b, cases c) (simp add: prepared_from_def)

lemma prepared_sub_ok: "prepared_from sub sub' \<Longrightarrow> sub_ok limits i sub \<Longrightarrow> sub_ok limits i sub'"
  by (cases sub, cases sub') (simp add: prepared_from_def sub_ok_def queue_ok_def items_ok_def held_ok_def)

lemma prepared_same: "prepared_from sub sub' \<Longrightarrow> same_terms sub sub' \<and> usItems sub' = usItems sub \<and> usDA sub' = usDA sub"
  by (cases sub, cases sub') (simp add: prepared_from_def same_terms_def)

lemma prepare_item:
  assumes "prepareMonitoredItem limits create ts (sub, s) = ((result, created), sub', s')"
  shows "prepared_from sub sub'" "\<And>item. created = Some item \<Longrightarrow> miHeld item = None"
proof -
  have "prepared_from sub (sub\<lparr>usDeadband := d, deadbandSet := b, nextItemID := k\<rparr>)" for d b k
    by (simp add: prepared_from_def)
  then show "prepared_from sub sub'" "\<And>item. created = Some item \<Longrightarrow> miHeld item = None"
    using assms
    by (auto simp: prepareMonitoredItem_def Let_def split: if_splits prod.splits option.splits NodeKind.splits)
qed

lemma prepare_items:
  "prepareItems limits ts creates (sub, s) = (prepared, sub', s') \<Longrightarrow>
     prepared_from sub sub' \<and> length prepared = length creates \<and> list_all (\<lambda>item. miHeld item = None) (acceptedItems prepared)"
proof (induction creates arbitrary: sub s prepared)
  case Nil
  then show ?case by (simp add: acceptedItems_def)
next
  case (Cons create creates)
  obtain result created sub1 s1 where p: "prepareMonitoredItem limits create ts (sub, s) = ((result, created), sub1, s1)"
    by (metis surj_pair)
  obtain others where r: "prepareItems limits ts creates (sub1, s1) = (others, sub', s')" "prepared = (result, created) # others"
    using Cons.prems p by (auto split: prod.splits)
  have i: "prepared_from sub sub1" "created = Some item \<Longrightarrow> miHeld item = None" for item
    using prepare_item [OF p] by blast+
  from Cons.IH [OF r(1)] i show ?case
    by (auto simp: r(2) acceptedItems_def map_filter_simps split: option.split intro: prepared_trans)
qed

lemma accepted_length: "length (acceptedItems prepared) \<le> length prepared"
  by (induction prepared) (auto simp: acceptedItems_def map_filter_simps split: option.split)

text \<open>Changing the table of items only.\<close>

definition items_changed :: "uaSubscription \<Rightarrow> uaSubscription \<Rightarrow> bool" where
  "items_changed sub sub' \<longleftrightarrow> sub' = sub\<lparr>usItems := usItems sub', byHandle := byHandle sub'\<rparr>"

lemma items_changed_simps:
  "items_changed sub sub' \<Longrightarrow> same_terms sub sub' \<and> heldOrder sub' = heldOrder sub \<and> retransmit sub' = retransmit sub \<and>
     retransmitOrder sub' = retransmitOrder sub \<and> keepAliveTicks sub' = keepAliveTicks sub \<and> usDA sub' = usDA sub"
  by (cases sub, cases sub') (simp add: items_changed_def same_terms_def)

lemma items_changed_refl [simp]: "items_changed sub sub" by (simp add: items_changed_def)

lemma items_changed_trans: "items_changed a b \<Longrightarrow> items_changed b c \<Longrightarrow> items_changed a c"
  by (cases a, cases b, cases c) (simp add: items_changed_def)

lemma items_changed_ops [simp]:
  "items_changed sub (registerItem item sub)" "items_changed sub (removeItem item sub)" "items_changed sub (put_item i item sub)"
  by (simp_all add: items_changed_def registerItem_def removeItem_def put_item_def)

lemma items_changed_fold:
  "(\<And>x sub. items_changed sub (f x sub)) \<Longrightarrow> items_changed sub (fold f xs sub)"
  by (induction xs arbitrary: sub) (auto intro: items_changed_trans)

lemma items_changed_sub_ok:
  assumes "items_changed sub sub'" "sub_ok limits i sub" "items_ok sub'" "held_ok sub'"
    "int (length (usItems sub')) \<le> MaxMonitoredItems limits"
  shows "sub_ok limits i sub'"
  using assms items_changed_simps [OF assms(1)] by (auto simp: sub_ok_def queue_ok_def same_terms_def)

definition item_table_ok :: "uaSubscription \<Rightarrow> bool" where
  "item_table_ok sub \<longleftrightarrow> items_ok sub \<and> held_ok sub"

lemma register_ok: "item_table_ok sub \<Longrightarrow> miHeld item = None \<Longrightarrow> item_table_ok (registerItem item sub)"
  by (auto simp: item_table_ok_def items_ok_def held_ok_def registerItem_def update_conv' intro!: table_wf_update split: if_splits)

lemma put_ok: "item_table_ok sub \<Longrightarrow> miID item = i \<Longrightarrow> miHeld item = None \<or> i \<in> set (heldOrder sub) \<Longrightarrow> item_table_ok (put_item i item sub)"
  by (auto simp: item_table_ok_def items_ok_def held_ok_def update_conv' intro!: table_wf_update split: if_splits)

lemma remove_ok: "item_table_ok sub \<Longrightarrow> item_table_ok (removeItem item sub)"
  by (auto simp: item_table_ok_def items_ok_def held_ok_def removeItem_def delete_conv' intro!: table_wf_delete split: if_splits)

lemma register_length: "length (usItems (registerItem item sub)) \<le> Suc (length (usItems sub))"
  by (simp add: registerItem_def length_update)

lemma register_keys: "fst ` set (usItems (registerItem item sub)) = insert (miID item) (fst ` set (usItems sub))"
  by (simp add: registerItem_def dom_update)

lemma register_all:
  "item_table_ok sub \<Longrightarrow> list_all (\<lambda>item. miHeld item = None) xs \<Longrightarrow>
     item_table_ok (fold registerItem xs sub) \<and>
     length (usItems (fold registerItem xs sub)) \<le> length (usItems sub) + length xs \<and>
     fst ` set (usItems sub) \<union> miID ` set xs \<subseteq> fst ` set (usItems (fold registerItem xs sub))"
proof (induction xs arbitrary: sub)
  case (Cons x xs)
  have x: "miHeld x = None" and xs: "list_all (\<lambda>item. miHeld item = None) xs" using Cons.prems(2) by auto
  from Cons.IH [OF register_ok [OF Cons.prems(1) x] xs] register_length [of x sub] register_keys [of x sub]
  show ?case by auto
qed simp

lemma revise_all:
  "item_table_ok sub \<Longrightarrow> list_all (\<lambda>item. miHeld item = None) xs \<Longrightarrow> miID ` set xs \<subseteq> fst ` set (usItems sub) \<Longrightarrow>
     item_table_ok (fold (\<lambda>item. put_item (miID item) (reviseItem r item)) xs sub) \<and>
     length (usItems (fold (\<lambda>item. put_item (miID item) (reviseItem r item)) xs sub)) = length (usItems sub)"
proof (induction xs arbitrary: sub)
  case (Cons x xs)
  have r: "miID (reviseItem r x) = miID x" "miHeld (reviseItem r x) = miHeld x" by (simp_all add: reviseItem_def)
  let ?sub = "put_item (miID x) (reviseItem r x) sub"
  have "item_table_ok ?sub" using Cons.prems by (intro put_ok) (simp_all add: r)
  moreover have "length (usItems ?sub) = length (usItems sub)"
    using Cons.prems(3) by (auto simp: length_update map_of_eq_None_iff)
  moreover have "miID ` set xs \<subseteq> fst ` set (usItems ?sub)" using Cons.prems(3) by (auto simp: dom_update)
  ultimately show ?case using Cons.IH [of ?sub] Cons.prems(2) by simp
qed simp

lemma remove_all:
  "item_table_ok sub \<Longrightarrow> item_table_ok (fold removeItem xs sub) \<and> length (usItems (fold removeItem xs sub)) \<le> length (usItems sub)"
proof (induction xs arbitrary: sub)
  case (Cons x xs)
  have "length (usItems (removeItem x sub)) \<le> length (usItems sub)" by (simp add: removeItem_def length_delete_le)
  with Cons.IH [OF remove_ok [OF Cons.prems], of x] show ?case by simp
qed simp

lemma delete_items:
  "deleteItems ids sub = (results, removed, sub') \<Longrightarrow> item_table_ok sub \<Longrightarrow>
     items_changed sub sub' \<and> item_table_ok sub' \<and> length (usItems sub') \<le> length (usItems sub)"
proof (induction ids arbitrary: sub results removed)
  case (Cons i ids)
  show ?case
  proof (cases "map_of (usItems sub) i")
    case (Some item)
    have "miID item = i" using Cons.prems(2) Some by (auto simp: item_table_ok_def items_ok_def dest: table_wf_lookup)
    then obtain rs b where d: "deleteItems ids (removeItem item sub) = (rs, b, sub')"
      using Cons.prems(1) Some by (auto simp: removeItem_def split: prod.splits)
    have "length (usItems (removeItem item sub)) \<le> length (usItems sub)" by (simp add: removeItem_def length_delete_le)
    with Cons.IH [OF d remove_ok [OF Cons.prems(2)]] show ?thesis
      using items_changed_trans [OF items_changed_ops(2)] by fastforce
  qed (use Cons in \<open>auto split: prod.splits\<close>)
qed simp

section \<open>The DA groups\<close>

text \<open>
  What a client of the DA runtime relies on for the groups it holds: \<open>opened\<close> are those the
  server keeps open. Subscribing opens the group it names, or none when it fails, unsubscribing
  closes the one it is given, and reading values opens none.
\<close>

locale da_ledger =
  fixes rt :: "'w SubscriptionRuntime" and opened :: "'w \<Rightarrow> gostring set"
  assumes subscribe_failed: "Subscribe rt request w = (Inl er, w') \<Longrightarrow> opened w' \<subseteq> opened w"
    and subscribe_opens: "Subscribe rt request w = (Inr created, w') \<Longrightarrow> opened w' \<subseteq> insert (siID created) (opened w)"
    and unsubscribe_closes: "opened (Unsubscribe rt i w) \<subseteq> opened w - {i}"
    and drain_opens: "opened (snd (rtDrain rt i w)) \<subseteq> opened w"

text \<open>A runtime whose groups nobody counts.\<close>

interpretation untracked: da_ledger rt "\<lambda>_. {}" for rt by unfold_locales simp_all

definition group_of :: "uaSubscription \<Rightarrow> gostring set" where
  "group_of sub = (case usDA sub of None \<Rightarrow> {} | Some da \<Rightarrow> {siID da})"

lemma group_of_simps [simp]: "usDA sub = None \<Longrightarrow> group_of sub = {}" "usDA sub = Some da \<Longrightarrow> group_of sub = {siID da}"
  by (simp_all add: group_of_def)

lemma group_of_same: "usDA sub' = usDA sub \<Longrightarrow> group_of sub' = group_of sub" by (simp add: group_of_def)

text \<open>A change of one subscription and of the runtime, in which no group loses its owner.\<close>

definition owned :: "('w \<Rightarrow> gostring set) \<Rightarrow> uaSubscription \<times> 'w \<Rightarrow> uaSubscription \<times> 'w \<Rightarrow> bool" where
  "owned opened st st' \<longleftrightarrow> (\<forall>G. opened (snd st) \<subseteq> G \<union> group_of (fst st) \<longrightarrow> opened (snd st') \<subseteq> G \<union> group_of (fst st'))"

lemma ownedD: "owned opened (sub, w) (sub', w') \<Longrightarrow> opened w \<subseteq> G \<union> group_of sub \<Longrightarrow> opened w' \<subseteq> G \<union> group_of sub'"
  by (simp add: owned_def)

lemma owned_same: "usDA sub' = usDA sub \<Longrightarrow> owned opened (sub, w) (sub', w)" by (simp add: owned_def group_of_def)

lemma owned_less: "usDA sub' = usDA sub \<Longrightarrow> opened w' \<subseteq> opened w \<Longrightarrow> owned opened (sub, w) (sub', w')"
  by (auto simp: owned_def group_of_def)

lemma owned_trans: "owned opened a b \<Longrightarrow> owned opened b c \<Longrightarrow> owned opened a c" by (simp add: owned_def)

definition da_changed :: "uaSubscription \<Rightarrow> uaSubscription \<Rightarrow> bool" where
  "da_changed sub sub' \<longleftrightarrow> sub' = sub\<lparr>usDA := usDA sub'\<rparr>"

lemma da_changed_sub_ok: "da_changed sub sub' \<Longrightarrow> sub_ok limits i sub' = sub_ok limits i sub"
  by (cases sub, cases sub') (simp add: da_changed_def sub_ok_def queue_ok_def items_ok_def held_ok_def)

lemma da_changed_simps:
  "da_changed sub sub' \<Longrightarrow> same_terms sub sub' \<and> usItems sub' = usItems sub \<and> heldOrder sub' = heldOrder sub \<and>
     keepAliveTicks sub' = keepAliveTicks sub \<and> messageSent sub' = messageSent sub \<and> retransmit sub' = retransmit sub \<and>
     retransmitOrder sub' = retransmitOrder sub \<and> sequenceNumber sub' = sequenceNumber sub \<and>
     publishingEnabled sub' = publishingEnabled sub \<and> usPending sub' = usPending sub"
  by (cases sub, cases sub') (simp add: da_changed_def same_terms_def)

lemma da_changed_refl [simp]: "da_changed sub sub" by (simp add: da_changed_def)

lemma da_changed_trans: "da_changed a b \<Longrightarrow> da_changed b c \<Longrightarrow> da_changed a c"
  by (cases a, cases b, cases c) (simp add: da_changed_def)

context da_ledger
begin

lemma release_owned:
  assumes "releaseDASubscription rt (sub, w) = (sub', w')"
  shows "da_changed sub sub' \<and> usDA sub' = None \<and> owned opened (sub, w) (sub', w')"
  using assms unsubscribe_closes
  by (fastforce simp: releaseDASubscription_def da_changed_def owned_def split: option.splits)

lemma rebuild_owned:
  assumes "rebuildDASubscription outside rank rt (sub, w) = (er, sub', w')"
  shows "da_changed sub sub' \<and> owned opened (sub, w) (sub', w')"
proof (cases "groupItems [] (iterate rank 0 (usItems sub)) = []")
  case True
  then show ?thesis using assms release_owned [of sub w] by (auto simp: rebuildDASubscription_def)
next
  case False
  define request where "request = \<lparr>srItems = groupItems [] (iterate rank 0 (usItems sub)),
    RequestedUpdateRate = interval_ns outside (publishingInterval sub), Deadband = usDeadband sub\<rparr>"
  obtain r w1 where s: "Subscribe rt request w = (r, w1)" by (rule prod.exhaust)
  show ?thesis
  proof (cases r)
    case (Inl e)
    then show ?thesis using assms False s subscribe_failed [of request w e w1]
      by (auto simp: rebuildDASubscription_def request_def da_changed_def owned_def)
  next
    case (Inr created)
    obtain sub1 w2 where l: "releaseDASubscription rt (sub, w1) = (sub1, w2)" by (rule prod.exhaust)
    have c: "da_changed sub sub1" "usDA sub1 = None" "owned opened (sub, w1) (sub1, w2)" using release_owned [OF l] by auto
    have e: "sub' = sub1\<lparr>usDA := Some created\<rparr>" "w' = w2"
      using assms False s Inr l by (auto simp: rebuildDASubscription_def request_def)
    have "opened w' \<subseteq> G \<union> group_of sub'" if "opened w \<subseteq> G \<union> group_of sub" for G
    proof -
      have "opened w1 \<subseteq> insert (siID created) G \<union> group_of sub" using subscribe_opens s Inr that by fastforce
      with c(3) have "opened w2 \<subseteq> insert (siID created) G \<union> group_of sub1" unfolding owned_def fst_conv snd_conv by blast
      then show ?thesis using c(2) by (auto simp: e)
    qed
    then show ?thesis using c(1) by (cases sub, cases sub1) (simp add: e da_changed_def owned_def)
  qed
qed

end

section \<open>Collecting values\<close>

text \<open>Values change the items under the identifiers they have, and only add to what is pending.\<close>

definition value_step :: "uaSubscription \<Rightarrow> uaSubscription \<Rightarrow> bool" where
  "value_step sub sub' \<longleftrightarrow> sub' = sub\<lparr>usItems := usItems sub', heldOrder := heldOrder sub', usPending := usPending sub'\<rparr> \<and>
     map fst (usItems sub') = map fst (usItems sub) \<and> (items_ok sub \<longrightarrow> items_ok sub') \<and>
     (\<exists>new. usPending sub' = usPending sub @ new)"

definition held_within :: "uint32 set \<Rightarrow> uaSubscription \<Rightarrow> bool" where
  "held_within S sub \<longleftrightarrow> (\<forall>i item. map_of (usItems sub) i = Some item \<longrightarrow> miHeld item \<noteq> None \<longrightarrow> i \<in> S)"

lemma held_ok_iff: "held_ok sub = held_within (set (heldOrder sub)) sub" by (simp add: held_ok_def held_within_def)

lemma value_step_refl [simp]: "value_step sub sub" by (simp add: value_step_def)

lemma value_step_trans: "value_step a b \<Longrightarrow> value_step b c \<Longrightarrow> value_step a c"
  by (cases a, cases b, cases c) (auto simp: value_step_def)

lemma value_step_frame:
  "value_step sub sub' \<Longrightarrow> same_terms sub sub' \<and> retransmit sub' = retransmit sub \<and> retransmitOrder sub' = retransmitOrder sub \<and>
     sequenceNumber sub' = sequenceNumber sub \<and> publishingEnabled sub' = publishingEnabled sub \<and>
     keepAliveTicks sub' = keepAliveTicks sub \<and> messageSent sub' = messageSent sub \<and> usDA sub' = usDA sub"
  by (cases sub, cases sub') (auto simp: value_step_def same_terms_def)

lemma value_step_keys: "value_step sub sub' \<Longrightarrow> fst ` set (usItems sub') = fst ` set (usItems sub)"
  unfolding value_step_def by (metis list.set_map)

lemma value_step_items: "value_step sub sub' \<Longrightarrow> items_ok sub \<Longrightarrow> items_ok sub'"
  unfolding value_step_def by blast

lemma value_step_pending: "value_step sub sub' \<Longrightarrow> \<exists>new. usPending sub' = usPending sub @ new"
  unfolding value_step_def by blast

lemma value_step_length: "value_step sub sub' \<Longrightarrow> length (usItems sub') = length (usItems sub)"
  unfolding value_step_def by (metis length_map)

lemma value_step_sub_ok: "value_step sub sub' \<Longrightarrow> held_ok sub' \<Longrightarrow> sub_ok limits i sub \<Longrightarrow> sub_ok limits i sub'"
  using value_step_frame [of sub sub'] value_step_length [of sub sub']
    value_step_items [of sub sub']
  by (simp add: sub_ok_def queue_ok_def same_terms_def)

lemma value_step_put: "i \<in> fst ` set (usItems sub) \<Longrightarrow> miID item = i \<Longrightarrow> value_step sub (put_item i item sub)"
  by (auto simp: value_step_def put_item_def alist_update_old map_of_eq_None_iff items_ok_def intro!: table_wf_update)

lemma value_step_order: "value_step sub (sub\<lparr>heldOrder := order\<rparr>)" "value_step sub (sub\<lparr>usPending := usPending sub @ new\<rparr>)"
  by (auto simp: value_step_def items_ok_def)

lemma value_step_fold:
  assumes "\<And>i item sub. (i, item) \<in> set xs \<Longrightarrow> i \<in> fst ` set (usItems sub) \<Longrightarrow> value_step sub (f (i, item) sub)"
    "fst ` set xs \<subseteq> fst ` set (usItems sub)"
  shows "value_step sub (fold f xs sub)"
  using assms
proof (induction xs arbitrary: sub)
  case (Cons x xs)
  have x: "value_step sub (f x sub)" using Cons.prems by (cases x) force
  have "value_step (f x sub) (fold f xs (f x sub))"
    using Cons.prems value_step_keys [OF x] by (intro Cons.IH) auto
  with x show ?case by (auto intro: value_step_trans)
qed simp

lemma iterate_set [simp]: "set (iterate rank place table) = set table" by (simp add: iterate_def)

lemma items_ok_id: "items_ok sub \<Longrightarrow> (i, item) \<in> set (usItems sub) \<Longrightarrow> miID item = i"
  by (auto simp: items_ok_def table_wf_def list_all_iff)

lemma held_put:
  "held_within S sub \<Longrightarrow> miHeld item = None \<or> i \<in> S \<Longrightarrow> held_within S (put_item i item sub)"
  by (auto simp: held_within_def update_conv' split: if_splits)

lemma hold_item:
  assumes "miID item = i" "i \<in> fst ` set (usItems sub)"
  shows "value_step sub (holdItem (i, item) sub)" "held_ok sub \<Longrightarrow> held_ok (holdItem (i, item) sub)"
proof -
  let ?sub = "sub\<lparr>heldOrder := heldOrder sub @ [miID item]\<rparr>"
  let ?item = "item\<lparr>miHeld := Some (DataValue NullVariant StatusBadNotReadable zeroTime 0 zeroTime 0)\<rparr>"
  have "value_step sub (put_item i ?item ?sub)"
    by (rule value_step_trans [OF value_step_order(1) value_step_put]) (use assms in simp_all)
  then show "value_step sub (holdItem (i, item) sub)" by (simp add: holdItem_def)
  have "held_ok (put_item i ?item ?sub)" if "held_ok sub"
    using that assms(1) unfolding held_ok_iff by (auto simp: held_within_def put_item_def update_conv' split: if_splits)
  then show "held_ok sub \<Longrightarrow> held_ok (holdItem (i, item) sub)" by (simp add: holdItem_def)
qed

lemma hold_each:
  assumes "list_all (\<lambda>(i, item). miID item = i) xs" "fst ` set xs \<subseteq> fst ` set (usItems sub)"
  shows "value_step sub (fold holdItem xs sub) \<and> (held_ok sub \<longrightarrow> held_ok (fold holdItem xs sub))"
  using assms
proof (induction xs arbitrary: sub)
  case (Cons x xs)
  obtain i item where x: "x = (i, item)" by (cases x)
  have h: "value_step sub (holdItem x sub)" "held_ok sub \<Longrightarrow> held_ok (holdItem x sub)"
    using hold_item [of item i sub] Cons.prems by (auto simp: x)
  show ?case using Cons.IH [of "holdItem x sub"] Cons.prems h value_step_keys [OF h(1)]
    by (auto intro: value_step_trans)
qed simp

lemma hold_unreadable:
  assumes "items_ok sub"
  shows "value_step sub (holdUnreadable rank sub)" "held_ok sub \<Longrightarrow> held_ok (holdUnreadable rank sub)"
  using hold_each [of "iterate rank 0 (usItems sub)" sub] items_ok_id [OF assms]
  by (auto simp: holdUnreadable_def list_all_iff)

lemma find_member: "List.find P xs = Some x \<Longrightarrow> x \<in> set xs"
  by (induction xs) (auto split: if_splits)

lemma found_item: "itemForDAItemID rank place itemID sub = Some (i, item) \<Longrightarrow> (i, item) \<in> set (usItems sub)"
  unfolding itemForDAItemID_def by (drule find_member) simp

lemma collect_value:
  assumes "items_ok sub" "collectValue rank now place value (sub, s) = (sub', s')"
  shows "value_step sub sub' \<and> (held_ok sub \<longrightarrow> held_ok sub')"
proof (cases "itemForDAItemID rank place (svItemID value) sub")
  case (Some p)
  obtain i item where p: "p = (i, item)" by (cases p)
  have item: "(i, item) \<in> set (usItems sub)" using found_item Some p by blast
  then have i: "miID item = i" "i \<in> fst ` set (usItems sub)" using items_ok_id [OF assms(1)] by force+
  have known: "map_of (usItems sub) i = Some item" using item assms(1) by (simp add: items_ok_def table_wf_def)
  let ?order = "if Option.is_none (miHeld item) then heldOrder sub @ [i] else heldOrder sub"
  have "value_step sub (put_item i x (sub\<lparr>heldOrder := ?order\<rparr>))" if "miID x = i" for x
    by (rule value_step_trans [OF value_step_order(1) value_step_put]) (use that i in simp_all)
  moreover have "held_ok (put_item i x (sub\<lparr>heldOrder := ?order\<rparr>))" if "held_ok sub" for x
    using that known unfolding held_ok_iff by (auto simp: held_within_def put_item_def update_conv' split: if_splits option.splits)
  moreover have "sub' = sub \<or> (\<exists>x. miID x = i \<and> sub' = put_item i x (sub\<lparr>heldOrder := ?order\<rparr>))"
  proof (cases "miMode item = MonitoringModeReporting")
    case True
    define g where "g = SemanticGeneration (miItemID item) (LearnFromRead (miNodeID item) (svCanonicalType value) (svAccessRights value) s)"
    define x where "x = (if g = semanticGeneration item then item else item\<lparr>semanticGeneration := g\<rparr>)"
    have "miID x = i" "miHeld x = miHeld item" by (simp_all add: x_def i(1))
    moreover have "\<exists>n. sub' = put_item i (x\<lparr>miHeld := n\<rparr>) (sub\<lparr>heldOrder := ?order\<rparr>)"
      using assms(2) Some p i(1) True by (cases "g = semanticGeneration item") (auto simp: collectValue_def Let_def g_def x_def)
    ultimately show ?thesis by (metis monitoredItem.select_convs(1) monitoredItem.surjective monitoredItem.update_convs(9))
  qed (use assms(2) Some p in \<open>simp add: collectValue_def\<close>)
  ultimately show ?thesis by auto
qed (use assms in \<open>simp add: collectValue_def\<close>)

lemma collect_values:
  "items_ok sub \<Longrightarrow> collectValues rank now place values (sub, s) = (sub', s') \<Longrightarrow>
     value_step sub sub' \<and> (held_ok sub \<longrightarrow> held_ok sub')"
proof (induction "values" arbitrary: place sub s)
  case (Cons v vs)
  obtain sub1 s1 where c: "collectValue rank now place v (sub, s) = (sub1, s1)" by (rule prod.exhaust)
  have v: "value_step sub sub1" "held_ok sub \<longrightarrow> held_ok sub1" using collect_value [OF Cons.prems(1) c] by auto
  have "items_ok sub1" using value_step_items [OF v(1) Cons.prems(1)] .
  with Cons.IH [of sub1 "Suc place" s1] Cons.prems(2) c v show ?case by (auto intro: value_step_trans)
qed simp

lemma flush_loop:
  "items_ok sub \<Longrightarrow> flushLoop outside now stillHeld order sub = (stillHeld', sub') \<Longrightarrow>
     value_step sub sub' \<and> (held_within (set stillHeld \<union> set order) sub \<longrightarrow> held_within (set stillHeld') sub')"
proof (induction order arbitrary: stillHeld sub)
  case (Cons i order)
  have gone: "held_within (set stillHeld \<union> set (i # order)) sub \<Longrightarrow> held_within (set stillHeld \<union> set order) sub"
    if "\<And>item. map_of (usItems sub) i = Some item \<Longrightarrow> miHeld item = None"
    using that by (fastforce simp: held_within_def)
  show ?case
  proof (cases "map_of (usItems sub) i")
    case (Some item)
    note item = this
    have i: "miID item = i" "i \<in> fst ` set (usItems sub)"
      using item items_ok_id [OF Cons.prems(1)] map_of_SomeD [OF item] by force+
    show ?thesis
    proof (cases "miHeld item")
      case None
      then show ?thesis using Cons item gone by simp
    next
      case (Some v)
      let ?pending = "sub\<lparr>usPending := usPending sub @ [\<lparr>mnClientHandle = miClientHandle item, mnValue = v\<rparr>]\<rparr>"
      let ?sub = "put_item i (item\<lparr>miHeld := None, lastReported := now\<rparr>) ?pending"
      have v: "value_step sub ?sub"
        by (rule value_step_trans [OF value_step_order(2) value_step_put]) (use i in simp_all)
      have "items_ok ?sub" using value_step_items [OF v Cons.prems(1)] .
      moreover have "held_within (set stillHeld \<union> set (i # order)) sub \<Longrightarrow> held_within (set stillHeld \<union> set order) ?sub"
        by (auto simp: held_within_def update_conv' split: if_splits)
      ultimately have "flushLoop outside now stillHeld order ?sub = (stillHeld', sub') \<Longrightarrow> ?thesis"
        using Cons.IH [of ?sub stillHeld] v by (auto intro: value_step_trans)
      then show ?thesis using Cons.IH [of sub "stillHeld @ [i]"] Cons.prems item Some by (auto split: if_splits)
    qed
  qed (use Cons gone in simp)
qed simp

lemma flush_held:
  assumes "items_ok sub"
  shows "value_step sub (flushHeld outside now sub) \<and> (held_ok sub \<longrightarrow> held_ok (flushHeld outside now sub))"
proof -
  obtain order sub' where f: "flushLoop outside now [] (heldOrder sub) sub = (order, sub')" by (rule prod.exhaust)
  from flush_loop [OF assms f] value_step_order(1) [of sub' order] show ?thesis
    by (auto simp: flushHeld_def f held_ok_iff held_within_def intro: value_step_trans)
qed

lemma invalidate_item:
  "value_step sub (invalidateItem now (i, item) sub)" if "i \<in> fst ` set (usItems sub)" "miID item = i"
proof -
  have "value_step sub (put_item i (item\<lparr>miHeld := None\<rparr>) sub)" using that by (intro value_step_put) simp_all
  then show ?thesis using value_step_trans value_step_order(2) unfolding invalidateItem_def Let_def by fastforce
qed

lemma invalidate_held:
  "held_within S sub \<Longrightarrow> held_within (S - {i}) (invalidateItem now (i, item) sub)"
  by (auto simp: invalidateItem_def Let_def held_within_def put_item_def update_conv' split: if_splits)

lemma invalidate_all:
  "held_within S sub \<Longrightarrow> held_within (S - fst ` set xs) (fold (invalidateItem now) xs sub)"
proof (induction xs arbitrary: S sub)
  case (Cons x xs)
  have "held_within (S - {fst x} - fst ` set xs) (fold (invalidateItem now) xs (invalidateItem now x sub))"
    using Cons.IH [OF invalidate_held [OF Cons.prems, of "fst x" now "snd x"]] by simp
  moreover have "S - {fst x} - fst ` set xs = S - fst ` set (x # xs)" by auto
  ultimately show ?case by simp
qed simp

lemma report_invalidation:
  assumes "items_ok sub"
  shows "value_step sub (reportInvalidation rank now sub) \<and> held_ok (reportInvalidation rank now sub)"
proof -
  let ?sub = "sub\<lparr>heldOrder := []\<rparr>" and ?xs = "iterate rank 1 (usItems sub)"
  have "value_step ?sub (fold (invalidateItem now) ?xs ?sub)"
    by (rule value_step_fold) (use items_ok_id [OF assms] in \<open>auto intro: invalidate_item\<close>)
  then have v: "value_step sub (reportInvalidation rank now sub)"
    unfolding reportInvalidation_def using value_step_trans value_step_order(1) by blast
  have "held_within (fst ` set (usItems sub)) ?sub" by (force simp: held_within_def dest: map_of_SomeD)
  from invalidate_all [OF this, of ?xs now] have "held_within {} (reportInvalidation rank now sub)"
    by (simp add: reportInvalidation_def)
  then have "held_ok (reportInvalidation rank now sub)" by (auto simp: held_ok_iff held_within_def)
  with v show ?thesis by simp
qed

text \<open>A collection is such a step, and the group is released when it ended.\<close>

definition collects :: "uaSubscription \<Rightarrow> uaSubscription \<Rightarrow> bool" where
  "collects sub sub' \<longleftrightarrow> (\<exists>sub1. value_step sub sub1 \<and> (held_ok sub \<longrightarrow> held_ok sub1) \<and> da_changed sub1 sub')"

lemma collects_value: "value_step sub sub' \<Longrightarrow> held_ok sub \<longrightarrow> held_ok sub' \<Longrightarrow> collects sub sub'"
  unfolding collects_def using da_changed_refl by blast

lemma collects_sub_ok: "collects sub sub' \<Longrightarrow> sub_ok limits i sub \<Longrightarrow> sub_ok limits i sub'"
proof -
  assume "collects sub sub'" and ok: "sub_ok limits i sub"
  then obtain sub1 where "value_step sub sub1" "held_ok sub \<longrightarrow> held_ok sub1" "da_changed sub1 sub'" unfolding collects_def by blast
  with ok show ?thesis using value_step_sub_ok [OF _ _ ok] by (simp add: da_changed_sub_ok sub_ok_def [of limits i sub])
qed

lemma collects_frame:
  assumes "collects sub sub'"
  shows "same_terms sub sub' \<and> retransmit sub' = retransmit sub \<and> retransmitOrder sub' = retransmitOrder sub \<and>
    sequenceNumber sub' = sequenceNumber sub \<and> publishingEnabled sub' = publishingEnabled sub \<and>
    keepAliveTicks sub' = keepAliveTicks sub \<and> messageSent sub' = messageSent sub \<and> (\<exists>new. usPending sub' = usPending sub @ new)"
proof -
  obtain sub1 where v: "value_step sub sub1" and d: "da_changed sub1 sub'" using assms by (auto simp: collects_def)
  have "\<exists>new. usPending sub1 = usPending sub @ new" using value_step_pending [OF v] .
  moreover have "same_terms sub sub'" using value_step_frame [OF v] da_changed_simps [OF d] same_terms_trans by blast
  ultimately show ?thesis using value_step_frame [OF v] da_changed_simps [OF d] by (metis (no_types))
qed

context da_ledger
begin

lemma collect_collects:
  assumes "items_ok sub" "collect outside rank rt now (sub, s, w) = (sub', s', w')"
  shows "collects sub sub' \<and> owned opened (sub, w) (sub', w')"
proof -
  let ?sub = "holdUnreadable rank sub"
  have h: "value_step sub ?sub" "held_ok sub \<longrightarrow> held_ok ?sub" using hold_unreadable [OF assms(1)] by auto
  have i: "items_ok ?sub" using value_step_items [OF h(1) assms(1)] .
  have plain: ?thesis if "value_step ?sub sub'" "held_ok ?sub \<longrightarrow> held_ok sub'" "opened w' \<subseteq> opened w"
  proof -
    have v: "value_step sub sub'" using value_step_trans [OF h(1) that(1)] .
    have "usDA sub' = usDA sub" using value_step_frame [OF v] by blast
    moreover have "collects sub sub'" using that(2) h(2) by (intro collects_value [OF v]) blast
    ultimately show ?thesis by (simp add: owned_less that(3))
  qed
  show ?thesis
  proof (cases "usDA ?sub")
    case None
    then have "sub' = flushHeld outside now ?sub" "w' = w" using assms(2) by (auto simp: collect_def)
    then show ?thesis using flush_held [OF i] by (intro plain) simp_all
  next
    case (Some da)
    show ?thesis
    proof (cases "rtDone rt (siID da) w")
      case True
      let ?ended = "reportInvalidation rank now ?sub"
      have l: "releaseDASubscription rt (?ended, w) = (sub', w')" using assms(2) Some True by (auto simp: collect_def split: prod.splits)
      have e: "value_step sub ?ended" "held_ok ?ended"
        using report_invalidation [OF i] value_step_trans [OF h(1)] by simp_all
      have "usDA ?ended = usDA sub" using value_step_frame [OF e(1)] by blast
      then have "owned opened (sub, w) (sub', w')"
        by (rule owned_trans [OF owned_same conjunct2 [OF conjunct2 [OF release_owned [OF l]]]])
      then show ?thesis unfolding collects_def using e release_owned [OF l] by blast
    next
      case False
      obtain vs w1 where d: "rtDrain rt (siID da) w = (vs, w1)" by (rule prod.exhaust)
      obtain sub1 s1 where c: "collectValues rank now 2 vs (?sub, s) = (sub1, s1)" by (rule prod.exhaust)
      have v: "value_step ?sub sub1" "held_ok ?sub \<longrightarrow> held_ok sub1" using collect_values [OF i c] by auto
      have "items_ok sub1" using value_step_items [OF v(1) i] .
      from flush_held [OF this] v have "value_step ?sub (flushHeld outside now sub1)"
          "held_ok ?sub \<longrightarrow> held_ok (flushHeld outside now sub1)" using value_step_trans [OF v(1)] by simp_all
      moreover have "opened w1 \<subseteq> opened w" using drain_opens [of "siID da" w] d by simp
      moreover have "sub' = flushHeld outside now sub1" "w' = w1"
        using assms(2) Some False d c by (auto simp: collect_def)
      ultimately show ?thesis by (intro plain) simp_all
    qed
  qed
qed

end

section \<open>Building messages\<close>

lemma drop_oldest:
  "0 < limit \<Longrightarrow> dropOldest limit order queue = (order', queue') \<Longrightarrow> fst ` set queue \<subseteq> set order \<Longrightarrow>
     table_wf P queue \<Longrightarrow> fst ` set queue' \<subseteq> set order' \<and> int (length order') < limit \<and> table_wf P queue'"
proof (induction order arbitrary: queue)
  case (Cons oldest order)
  have "fst ` set (AList.delete oldest queue) \<subseteq> set order" using Cons.prems(3) by (auto simp: AList.delete_eq)
  with Cons.IH [of "AList.delete oldest queue"] Cons.prems show ?case by (auto simp: table_wf_delete split: if_splits)
qed auto

lemma queue_message:
  assumes "2 \<le> MaxRetransmissionQueue limits" "queue_ok limits sub"
  shows "queue_ok limits (queueForRetransmission limits message sub)"
proof -
  obtain order queue where d: "dropOldest (MaxRetransmissionQueue limits) (retransmitOrder sub) (retransmit sub) = (order, queue)"
    by (rule prod.exhaust)
  have "fst ` set queue \<subseteq> set order" "int (length order) < MaxRetransmissionQueue limits"
      "table_wf (\<lambda>k m. nmSequenceNumber m = k) queue"
    using drop_oldest [OF _ d] assms by (auto simp: queue_ok_def)
  then show ?thesis by (auto simp: queue_ok_def queueForRetransmission_def d dom_update intro!: table_wf_update)
qed

lemma valid_limits:
  "SubscriptionLimits_validate limits = None \<Longrightarrow> 2 \<le> MaxRetransmissionQueue limits \<and> 0 < MinKeepAliveCount limits \<and>
     MinKeepAliveCount limits \<le> MaxKeepAliveCount limits \<and> 0 < slMaxNotificationsPerPublish limits \<and>
     0 < slMinPublishingInterval limits \<and> slMinPublishingInterval limits \<le> MaxPublishingInterval limits"
  by (auto simp: SubscriptionLimits_validate_def word_gt_0 not_less split: if_splits)

lemma build_frame:
  assumes "buildMessage limits now sub = (message, sub')"
  shows "same_terms sub sub' \<and> usItems sub' = usItems sub \<and> heldOrder sub' = heldOrder sub \<and> usDA sub' = usDA sub"
  using assms by (auto simp: buildMessage_def queueForRetransmission_def Let_def same_terms_def split: if_splits prod.splits)

lemma build_queue:
  assumes "2 \<le> MaxRetransmissionQueue limits" "queue_ok limits sub" "buildMessage limits now sub = (message, sub')"
  shows "queue_ok limits sub'"
proof -
  have "queue_ok limits (queueForRetransmission limits m (sub\<lparr>usPending := p, keepAliveTicks := 0, messageSent := True,
      sequenceNumber := n\<rparr>))" for m p n
    using assms(1,2) by (intro queue_message) (simp_all add: queue_ok_def)
  moreover have "queue_ok limits (sub\<lparr>keepAliveTicks := t\<rparr>) \<and> queue_ok limits (sub\<lparr>keepAliveTicks := t, messageSent := b\<rparr>)" for t b
    using assms(2) by (simp add: queue_ok_def)
  ultimately show ?thesis using assms(3) by (auto simp: buildMessage_def Let_def split: if_splits)
qed

lemma build_ticks:
  assumes "0 < keepAliveCount sub" "keepAliveTicks sub < keepAliveCount sub" "buildMessage limits now sub = (message, sub')"
  shows "keepAliveTicks sub' < keepAliveCount sub'"
  using assms by (auto simp: buildMessage_def queueForRetransmission_def Let_def split: if_splits prod.splits)

lemma build_sub_ok:
  assumes "SubscriptionLimits_validate limits = None" "sub_ok limits i sub" "buildMessage limits now sub = (message, sub')"
  shows "sub_ok limits i sub'"
proof -
  have "0 < keepAliveCount sub" using valid_limits [OF assms(1)] assms(2) by (auto simp: sub_ok_def)
  with build_ticks [OF _ _ assms(3)] assms(2) have "keepAliveTicks sub' < keepAliveCount sub'" by (simp add: sub_ok_def)
  with build_frame [OF assms(3)] build_queue [OF _ _ assms(3)] valid_limits [OF assms(1)] assms(2) show ?thesis
    by (simp add: sub_ok_def same_terms_def items_ok_def held_ok_def)
qed

section \<open>The invariant of the service\<close>

definition svc_ok :: "SubscriptionService \<Rightarrow> bool" where
  "svc_ok svc \<longleftrightarrow> SubscriptionLimits_validate (ssLimits svc) = None \<and>
     int (length (subscriptions svc)) \<le> MaxSubscriptions (ssLimits svc) \<and>
     table_wf (\<lambda>i sub. i \<noteq> 0 \<and> sub_ok (ssLimits svc) i sub) (subscriptions svc)"

definition groups :: "SubscriptionService \<Rightarrow> gostring set" where
  "groups svc = (\<Union>(_, sub) \<in> set (subscriptions svc). group_of sub)"

definition others :: "gostring \<Rightarrow> SubscriptionService \<Rightarrow> (uint32 \<times> uaSubscription) list" where
  "others t svc = filter (\<lambda>(_, sub). usSessionToken sub \<noteq> t) (subscriptions svc)"

text \<open>A step on behalf of a session: the invariant stays, the others' subscriptions are untouched, no group is lost.\<close>

definition serves :: "('w \<Rightarrow> gostring set) \<Rightarrow> gostring \<Rightarrow> SubscriptionService \<times> 'w \<Rightarrow> SubscriptionService \<times> 'w \<Rightarrow> bool" where
  "serves opened t = (\<lambda>(svc, w) (svc', w'). svc_ok svc \<longrightarrow> svc_ok svc' \<and> ssLimits svc' = ssLimits svc \<and>
     others t svc' = others t svc \<and> (opened w \<subseteq> groups svc \<longrightarrow> opened w' \<subseteq> groups svc'))"

lemma serves_refl [simp]: "serves opened t st st" by (cases st) (simp add: serves_def)

lemma serves_trans: "serves opened t a b \<Longrightarrow> serves opened t b c \<Longrightarrow> serves opened t a c"
  by (cases a, cases b, cases c) (simp add: serves_def)

lemma servesI:
  assumes "svc_ok svc \<Longrightarrow> serves opened t (svc, w) (svc', w')"
  shows "serves opened t (svc, w) (svc', w')"
  using assms by (simp add: serves_def)

lemma filter_update_same:
  "map_of al i = Some x \<Longrightarrow> \<not> P (i, x) \<Longrightarrow> \<not> P (i, y) \<Longrightarrow> filter P (AList.update i y al) = filter P al"
  by (induction al) (auto split: if_splits)

lemma set_update:
  "distinct (map fst al) \<Longrightarrow> set (AList.update i y al) = insert (i, y) {p \<in> set al. fst p \<noteq> i}"
proof (induction al)
  case (Cons p al)
  have "{q \<in> set al. fst q \<noteq> i} = set al" if "fst p = i"
    using Cons.prems that by (auto simp: image_iff)
  then show ?case using Cons by (cases p) auto
qed simp

lemma svc_ok_lookup: "svc_ok svc \<Longrightarrow> map_of (subscriptions svc) i = Some sub \<Longrightarrow> sub_ok (ssLimits svc) i sub"
  by (auto simp: svc_ok_def dest: table_wf_lookup)

lemma serves_put:
  assumes "map_of (subscriptions svc) i = Some sub" "usSessionToken sub = t" "same_terms sub sub'"
    and "svc_ok svc \<Longrightarrow> sub_ok (ssLimits svc) i sub'" and "owned opened (sub, w) (sub', w')"
  shows "serves opened t (svc, w) (put_subscription i sub' svc, w')"
proof -
  let ?svc = "put_subscription i sub' svc"
  have "svc_ok ?svc" if "svc_ok svc"
  proof -
    have t: "table_wf (\<lambda>i sub. i \<noteq> 0 \<and> sub_ok (ssLimits svc) i sub) (subscriptions svc)" using that by (simp add: svc_ok_def)
    then have "i \<noteq> 0" using table_wf_lookup [OF t assms(1)] by simp
    with assms(4) [OF that] table_wf_update [OF t, of i sub'] that assms(1) show ?thesis
      by (simp add: svc_ok_def put_subscription_def length_update)
  qed
  moreover have "others t ?svc = others t svc"
    unfolding others_def put_subscription_def using assms(1-3) by (simp add: filter_update_same same_terms_def)
  moreover have "opened w' \<subseteq> groups ?svc" if "svc_ok svc" "opened w \<subseteq> groups svc"
  proof -
    define G where "G = (\<Union>(k, x) \<in> {p \<in> set (subscriptions svc). fst p \<noteq> i}. group_of x)"
    have d: "distinct (map fst (subscriptions svc))" using that(1) by (auto simp: svc_ok_def dest: table_wf_distinct)
    have "x = sub" if "(i, x) \<in> set (subscriptions svc)" for x using map_of_is_SomeI [OF d that] assms(1) by simp
    then have "groups svc \<subseteq> G \<union> group_of sub" unfolding groups_def G_def by auto
    then have "opened w' \<subseteq> G \<union> group_of sub'" using ownedD [OF assms(5)] order_trans [OF that(2)] by simp
    also have "G \<union> group_of sub' \<subseteq> groups ?svc"
      unfolding groups_def G_def put_subscription_def by (auto simp: set_update [OF d])
    finally show ?thesis .
  qed
  ultimately show ?thesis by (simp add: serves_def put_subscription_def)
qed

lemma lookup_serves:
  assumes "subscription_lookup t i now svc = (found, svc')"
  shows "serves opened t (svc, w) (svc', w)" "found = None \<Longrightarrow> svc' = svc"
    "found = Some sub \<Longrightarrow> map_of (subscriptions svc') i = Some sub \<and> usSessionToken sub = t"
proof -
  have "serves opened t (svc, w) (put_subscription i (sub\<lparr>lastKeptAlive := now\<rparr>) svc, w)"
    if "map_of (subscriptions svc) i = Some sub" "usSessionToken sub = t" for sub
    by (rule serves_put [OF that])
      (use svc_ok_lookup [OF _ that(1)] in
        \<open>auto simp: same_terms_def sub_ok_def queue_ok_def items_ok_def held_ok_def intro: owned_same\<close>)
  then show "serves opened t (svc, w) (svc', w)"
    using assms by (auto simp: subscription_lookup_def Let_def split: option.splits if_splits)
  show "found = None \<Longrightarrow> svc' = svc" "found = Some sub \<Longrightarrow> map_of (subscriptions svc') i = Some sub \<and> usSessionToken sub = t"
    using assms by (auto simp: subscription_lookup_def Let_def put_subscription_def update_conv' split: option.splits if_splits)
qed

lemma interval_revised:
  assumes "SubscriptionLimits_validate limits = None"
  shows "interval_ok limits (revisePublishingInterval outside limits requested)"
proof -
  define d where "d = (let interval = i64 (f64_to_int64 outside requested * timeMillisecond);
    interval = (if f64_le requested 0 \<or> interval < slMinPublishingInterval limits then slMinPublishingInterval limits else interval)
    in if interval > MaxPublishingInterval limits then MaxPublishingInterval limits else interval)"
  have d: "slMinPublishingInterval limits \<le> d" "d \<le> MaxPublishingInterval limits" "0 < d"
    using valid_limits [OF assms] by (auto simp: d_def Let_def)
  have "go_quot d timeMillisecond = d div 10 ^ 6" using d(3) by (simp add: go_quot_nonneg timeMillisecond_def)
  then show ?thesis unfolding interval_ok_def using d
    by (intro exI [of _ d]) (simp add: revisePublishingInterval_def d_def Let_def)
qed

lemma keep_alive_revised:
  "SubscriptionLimits_validate limits = None \<Longrightarrow> MinKeepAliveCount limits \<le> reviseKeepAliveCount limits requested \<and>
     reviseKeepAliveCount limits requested \<le> MaxKeepAliveCount limits"
  using valid_limits [of limits] by (auto simp: reviseKeepAliveCount_def not_less)

lemma create_serves:
  assumes "CreateSubscription outside t request now svc = Some (r, svc')"
  shows "serves opened t (svc, w) (svc', w)"
proof (rule servesI)
  assume ok: "svc_ok svc"
  show "serves opened t (svc, w) (svc', w)"
  proof (cases "int (length (subscriptions svc)) \<ge> MaxSubscriptions (ssLimits svc)")
    case False
    then obtain i where a: "allocateID svc = Some i" using assms by (auto simp: CreateSubscription_def split: option.splits)
    define keep where "keep = reviseKeepAliveCount (ssLimits svc) (RequestedMaxKeepAliveCount request)"
    define sub where "sub = \<lparr>usID = i, usSessionToken = t, publishingEnabled = sqPublishingEnabled request,
      publishingInterval = revisePublishingInterval outside (ssLimits svc) (RequestedPublishingInterval request),
      keepAliveCount = keep, lifetimeCount = reviseLifetimeCount (RequestedLifetimeCount request) keep,
      maxNotifications = sqMaxNotificationsPerPublish request, usPriority = Priority request,
      usItems = [], nextItemID = 0, byHandle = [], heldOrder = [], usDeadband = 0, deadbandSet = False, usDA = None,
      sequenceNumber = 0, usPending = [], retransmit = [], retransmitOrder = [], keepAliveTicks = 0,
      messageSent = False, lastKeptAlive = now\<rparr>"
    have svc': "svc' = svc\<lparr>nextID := i, subscriptions := AList.update i sub (subscriptions svc)\<rparr>"
      using assms a False by (simp add: CreateSubscription_def Let_def sub_def keep_def)
    have valid: "SubscriptionLimits_validate (ssLimits svc) = None" using ok by (simp add: svc_ok_def)
    have "0 \<le> MaxMonitoredItems (ssLimits svc)" using valid by (auto simp: SubscriptionLimits_validate_def split: if_splits)
    moreover have "0 < keep" using keep_alive_revised [OF valid] valid_limits [OF valid] unfolding keep_def by (meson order_less_le_trans)
    ultimately have sub: "sub_ok (ssLimits svc) i sub" "usSessionToken sub = t" "usDA sub = None"
      using valid_limits [OF valid] interval_revised [OF valid] keep_alive_revised [OF valid]
      by (auto simp: sub_ok_def queue_ok_def items_ok_def held_ok_def sub_def keep_def)
    have free: "i \<noteq> 0" "map_of (subscriptions svc) i = None"
      using allocateLoop_free [of "map fst (subscriptions svc)" "nextID svc" i] a
      by (auto simp: allocateID_def free_id_def map_of_eq_None_iff)
    then show ?thesis using ok sub False
      by (auto simp: serves_def svc_ok_def svc' others_def groups_def alist_update_new table_wf_def list_all_iff map_of_eq_None_iff)
  qed (use assms in \<open>simp add: CreateSubscription_def\<close>)
qed

lemma serves_delete:
  assumes "map_of (subscriptions svc) i = Some sub" "usSessionToken sub = t" "opened w' \<subseteq> opened w - group_of sub"
  shows "serves opened t (svc, w) (svc\<lparr>subscriptions := AList.delete i (subscriptions svc)\<rparr>, w')"
proof (rule servesI)
  let ?svc = "svc\<lparr>subscriptions := AList.delete i (subscriptions svc)\<rparr>"
  assume ok: "svc_ok svc"
  then have d: "distinct (map fst (subscriptions svc))" by (auto simp: svc_ok_def dest: table_wf_distinct)
  have only: "x = sub" if "(i, x) \<in> set (subscriptions svc)" for x using map_of_is_SomeI [OF d that] assms(1) by simp
  have "svc_ok ?svc" using ok length_delete_le [of i "subscriptions svc"] by (auto simp: svc_ok_def intro: table_wf_delete)
  moreover have "others t ?svc = others t svc"
    using only assms(2) by (auto simp: others_def AList.delete_eq intro!: filter_cong)
  moreover have "opened w' \<subseteq> groups ?svc" if "opened w \<subseteq> groups svc"
  proof -
    have "groups svc \<subseteq> groups ?svc \<union> group_of sub" using only by (auto simp: groups_def AList.delete_eq)
    then show ?thesis using that assms(3) by auto
  qed
  ultimately show "serves opened t (svc, w) (?svc, w')" by (simp add: serves_def)
qed

text \<open>An operation that changes the subscription it finds is a step on behalf of the session.\<close>

lemma serves_change:
  assumes l: "subscription_lookup t i now svc = (Some sub, svc1)"
    and change: "SubscriptionLimits_validate (ssLimits svc1) = None \<Longrightarrow> sub_ok (ssLimits svc1) i sub \<Longrightarrow>
      same_terms sub sub' \<and> sub_ok (ssLimits svc1) i sub' \<and> owned opened (sub, w) (sub', w')"
  shows "serves opened t (svc, w) (put_subscription i sub' svc1, w')"
proof (rule serves_trans [OF lookup_serves(1) [OF l] servesI])
  assume ok: "svc_ok svc1"
  have m: "map_of (subscriptions svc1) i = Some sub" "usSessionToken sub = t" using lookup_serves(3) [OF l] by auto
  have "same_terms sub sub' \<and> sub_ok (ssLimits svc1) i sub' \<and> owned opened (sub, w) (sub', w')"
    using ok svc_ok_lookup [OF ok m(1)] by (intro change) (simp_all add: svc_ok_def)
  then show "serves opened t (svc1, w) (put_subscription i sub' svc1, w')" by (intro serves_put [OF m]) simp_all
qed

lemma set_serves: "setEach enabled t now ids svc = (results, svc') \<Longrightarrow> serves opened t (svc, w) (svc', w)"
proof (induction ids arbitrary: svc results)
  case (Cons i ids)
  obtain found svc1 where l: "subscription_lookup t i now svc = (found, svc1)" by (rule prod.exhaust)
  show ?case
  proof (cases found)
    case None
    then show ?thesis using Cons l lookup_serves(2) [OF l] by (auto split: prod.splits)
  next
    case (Some sub)
    let ?svc = "put_subscription i (sub\<lparr>publishingEnabled := enabled\<rparr>) svc1"
    have "serves opened t (svc, w) (?svc, w)"
      by (rule serves_change [OF l [unfolded Some]])
        (auto simp: same_terms_def sub_ok_def queue_ok_def items_ok_def held_ok_def intro: owned_same)
    moreover obtain rs where "setEach enabled t now ids ?svc = (rs, svc')"
      using Cons.prems l Some by (auto split: prod.splits)
    ultimately show ?thesis using Cons.IH serves_trans by blast
  qed
qed simp

lemma acknowledged_queue:
  assumes "queue_ok limits sub"
  shows "queue_ok limits (sub\<lparr>retransmit := AList.delete k (retransmit sub), retransmitOrder := remove1 k (retransmitOrder sub)\<rparr>)"
proof -
  have "length (remove1 k (retransmitOrder sub)) \<le> length (retransmitOrder sub)" by (simp add: length_remove1)
  moreover have "fst ` set (AList.delete k (retransmit sub)) \<subseteq> set (remove1 k (retransmitOrder sub))"
    using assms by (auto simp: queue_ok_def AList.delete_eq)
  ultimately show ?thesis using assms by (simp add: queue_ok_def table_wf_delete)
qed

lemma acknowledge_serves: "acknowledgeEach t now acks svc = (results, svc') \<Longrightarrow> serves opened t (svc, w) (svc', w)"
proof (induction acks arbitrary: svc results)
  case (Cons a acks)
  obtain found svc1 where l: "subscription_lookup t (akSubscriptionID a) now svc = (found, svc1)" by (rule prod.exhaust)
  show ?case
  proof (cases found)
    case None
    then show ?thesis using Cons l lookup_serves(2) [OF l] by (auto split: prod.splits)
  next
    case (Some sub)
    let ?sub = "sub\<lparr>retransmit := AList.delete (akSequenceNumber a) (retransmit sub),
      retransmitOrder := remove1 (akSequenceNumber a) (retransmitOrder sub)\<rparr>"
    let ?svc = "if Option.is_none (map_of (retransmit sub) (akSequenceNumber a)) then svc1 else put_subscription (akSubscriptionID a) ?sub svc1"
    have "serves opened t (svc, w) (put_subscription (akSubscriptionID a) ?sub svc1, w)"
      using acknowledged_queue [of _ sub "akSequenceNumber a"]
      by (intro serves_change [OF l [unfolded Some]]) (simp add: sub_ok_def items_ok_def held_ok_def same_terms_def owned_same)
    then have "serves opened t (svc, w) (?svc, w)" using lookup_serves(1) [OF l, of opened w] by simp
    moreover obtain rs where "acknowledgeEach t now acks ?svc = (rs, svc')"
      using Cons.prems l Some by (auto split: prod.splits if_splits)
    ultimately show ?thesis using Cons.IH serves_trans by blast
  qed
qed simp

lemma svc_ok_filter: "svc_ok svc \<Longrightarrow> svc_ok (svc\<lparr>subscriptions := filter P (subscriptions svc)\<rparr>)"
  using length_filter_le [of P "subscriptions svc"] unfolding svc_ok_def by (auto intro: table_wf_filter simp del: length_filter_le)

context da_ledger
begin

lemma release_closes: "opened (snd (releaseDASubscription rt (sub, w))) \<subseteq> opened w - group_of sub"
  using unsubscribe_closes by (auto simp: releaseDASubscription_def split: option.split)

lemma release_each: "opened (releaseEach rt gone w) \<subseteq> opened w - (\<Union>(_, sub) \<in> set gone. group_of sub)"
proof (induction gone arbitrary: w)
  case (Cons p gone)
  have "opened (releaseEach rt (p # gone) w)
      \<subseteq> opened (snd (releaseDASubscription rt (snd p, w))) - (\<Union>(_, sub) \<in> set gone. group_of sub)"
    using Cons.IH [of "snd (releaseDASubscription rt (snd p, w))"] by (cases p) (simp add: releaseEach_def)
  with release_closes [of "snd p" w] show ?case by (cases p) auto
qed (simp add: releaseEach_def)

lemma delete_serves:
  "deleteEach rt t now ids (svc, w) = (results, svc', w') \<Longrightarrow> serves opened t (svc, w) (svc', w')"
proof (induction ids arbitrary: svc w results)
  case (Cons i ids)
  obtain found svc1 where l: "subscription_lookup t i now svc = (found, svc1)" by (rule prod.exhaust)
  show ?case
  proof (cases found)
    case None
    then show ?thesis using Cons l lookup_serves(2) [OF l] by (auto split: prod.splits)
  next
    case (Some sub)
    let ?svc = "svc1\<lparr>subscriptions := AList.delete i (subscriptions svc1)\<rparr>" and ?w = "snd (releaseDASubscription rt (sub, w))"
    have "serves opened t (svc1, w) (?svc, ?w)"
      using lookup_serves(3) [OF l Some] release_closes by (intro serves_delete) auto
    then have "serves opened t (svc, w) (?svc, ?w)" by (rule serves_trans [OF lookup_serves(1) [OF l]])
    moreover obtain rs where "deleteEach rt t now ids (?svc, ?w) = (rs, svc', w')"
      using Cons.prems l Some by (auto split: prod.splits)
    ultimately show ?thesis using Cons.IH serves_trans by blast
  qed
qed simp

lemma retire_closes:
  assumes "set gone = {p \<in> set (subscriptions svc). \<not> P p}" "opened w \<subseteq> groups svc"
  shows "opened (releaseEach rt gone w) \<subseteq> groups (svc\<lparr>subscriptions := filter P (subscriptions svc)\<rparr>)"
proof
  fix g assume g: "g \<in> opened (releaseEach rt gone w)"
  with release_each [of gone w] assms(2) obtain k sub where p: "(k, sub) \<in> set (subscriptions svc)" "g \<in> group_of sub"
    by (auto simp: groups_def)
  with g release_each [of gone w] assms(1) have "P (k, sub)" by auto
  with p show "g \<in> groups (svc\<lparr>subscriptions := filter P (subscriptions svc)\<rparr>)" by (auto simp: groups_def)
qed

lemma release_session_serves:
  assumes "subscription_ReleaseSession rank rt t (svc, w) = (svc', w')"
  shows "serves opened t (svc, w) (svc', w')"
proof (rule servesI)
  let ?P = "\<lambda>(_ :: uint32, sub). usSessionToken sub \<noteq> t"
  let ?gone = "filter (\<lambda>(_, sub). usSessionToken sub = t) (iterate rank 0 (subscriptions svc))"
  assume ok: "svc_ok svc"
  have e: "svc' = svc\<lparr>subscriptions := filter ?P (subscriptions svc)\<rparr>" "w' = releaseEach rt ?gone w"
    using assms by (auto simp: subscription_ReleaseSession_def)
  have "opened w \<subseteq> groups svc \<Longrightarrow> opened w' \<subseteq> groups svc'" unfolding e by (rule retire_closes) auto
  then show "serves opened t (svc, w) (svc', w')" using svc_ok_filter [OF ok, of ?P] by (simp add: serves_def e others_def)
qed

lemma expire_keeps:
  assumes "subscription_ExpireStale outside rank rt now (svc, w) = (n, svc', w')" "svc_ok svc"
  shows "svc_ok svc'" "opened w \<subseteq> groups svc \<Longrightarrow> opened w' \<subseteq> groups svc'"
proof -
  let ?P = "\<lambda>(_ :: uint32, sub). \<not> subscription_expired outside sub now"
  let ?gone = "filter (\<lambda>(_, sub). subscription_expired outside sub now) (iterate rank 0 (subscriptions svc))"
  have e: "svc' = svc\<lparr>subscriptions := filter ?P (subscriptions svc)\<rparr>" "w' = releaseEach rt ?gone w"
    using assms by (auto simp: subscription_ExpireStale_def Let_def)
  show "svc_ok svc'" unfolding e by (rule svc_ok_filter [OF assms(2)])
  show "opened w \<subseteq> groups svc \<Longrightarrow> opened w' \<subseteq> groups svc'" unfolding e by (rule retire_closes) auto
qed

end

section \<open>The operations\<close>

lemma owned_put_items:
  "items_changed sub sub' \<Longrightarrow> owned opened (sub, w) (sub', w)"
  using items_changed_simps by (intro owned_same) blast

lemma sub_ok_table: "sub_ok limits i sub \<Longrightarrow> item_table_ok sub" by (simp add: sub_ok_def item_table_ok_def)

lemma items_changed_ok:
  assumes "items_changed sub sub'" "sub_ok limits i sub" "item_table_ok sub'" "int (length (usItems sub')) \<le> MaxMonitoredItems limits"
  shows "sub_ok limits i sub'"
  using assms by (intro items_changed_sub_ok [OF assms(1,2)]) (simp_all add: item_table_ok_def)

text \<open>Registering the accepted items, building the group, and what follows either way.\<close>

context da_ledger
begin

lemma accepted_rebuild:
  assumes "sub_ok limits i sub" "list_all (\<lambda>item. miHeld item = None) accepted"
    and "int (length (usItems sub)) + int (length accepted) \<le> MaxMonitoredItems limits"
    and "rebuildDASubscription outside rank rt (fold registerItem accepted sub, w) = (er, sub1, w')"
  shows "sub_ok limits i sub1 \<and> same_terms sub sub1 \<and> owned opened (sub, w) (sub1, w') \<and>
    miID ` set accepted \<subseteq> fst ` set (usItems sub1)"
proof -
  let ?sub = "fold registerItem accepted sub"
  have r: "item_table_ok ?sub" "length (usItems ?sub) \<le> length (usItems sub) + length accepted"
      "miID ` set accepted \<subseteq> fst ` set (usItems ?sub)"
    using register_all [OF sub_ok_table [OF assms(1)] assms(2)] by auto
  have c: "items_changed sub ?sub" by (rule items_changed_fold) simp
  have "sub_ok limits i ?sub" using r(2) assms(3) by (intro items_changed_ok [OF c assms(1) r(1)]) linarith
  moreover have d: "da_changed ?sub sub1" "owned opened (?sub, w) (sub1, w')" using rebuild_owned [OF assms(4)] by auto
  moreover have "owned opened (sub, w) (sub1, w')" by (rule owned_trans [OF owned_put_items [OF c] d(2)])
  moreover have "same_terms sub sub1"
    using items_changed_simps [OF c] da_changed_simps [OF d(1)] same_terms_trans by blast
  ultimately show ?thesis using r(3) da_changed_simps [OF d(1)] da_changed_sub_ok [OF d(1)] by simp
qed

lemma rebuilt_items:
  assumes "sub_ok limits i sub" "list_all (\<lambda>item. miHeld item = None) accepted" "miID ` set accepted \<subseteq> fst ` set (usItems sub)"
  shows "sub_ok limits i (fold (\<lambda>item. put_item (miID item) (reviseItem r item)) accepted sub)"
    "sub_ok limits i (fold removeItem accepted sub)"
proof -
  let ?f = "\<lambda>item. put_item (miID item) (reviseItem r item)"
  have n: "int (length (usItems sub)) \<le> MaxMonitoredItems limits" using assms(1) by (simp add: sub_ok_def)
  have c: "items_changed sub (fold ?f accepted sub)" "items_changed sub (fold removeItem accepted sub)"
    by (rule items_changed_fold, simp)+
  show "sub_ok limits i (fold ?f accepted sub)"
    using revise_all [OF sub_ok_table [OF assms(1)] assms(2,3), of r] n by (intro items_changed_ok [OF c(1) assms(1)]) simp_all
  show "sub_ok limits i (fold removeItem accepted sub)"
    using remove_all [OF sub_ok_table [OF assms(1)], of accepted] n by (intro items_changed_ok [OF c(2) assms(1)]) linarith+
qed

lemma create_items_serves:
  assumes "CreateMonitoredItems outside rank rt t request now (svc, s, w) = (r, svc', s', w')"
  shows "serves opened t (svc, w) (svc', w')"
proof -
  let ?i = "iqSubscriptionID request"
  obtain found svc1 where l: "subscription_lookup t ?i now svc = (found, svc1)" by (rule prod.exhaust)
  consider (same) "svc' = svc \<and> w' = w" | (touched) "svc' = svc1 \<and> w' = w"
    | (found) sub where "found = Some sub" "int (length (usItems sub)) + int (length (ItemsToCreate request)) \<le> MaxMonitoredItems (ssLimits svc1)"
        "TimestampsToReturn_Valid (iqTimestampsToReturn request)" "ItemsToCreate request \<noteq> []"
    using assms l lookup_serves(2) [OF l] by (cases found) (fastforce simp: CreateMonitoredItems_def Let_def split: if_splits)+
  then show ?thesis
  proof cases
    case (found sub)
    obtain prepared sub1 s1 where p:
      "prepareItems (ssLimits svc1) (iqTimestampsToReturn request) (ItemsToCreate request) (sub, s) = (prepared, sub1, s1)"
      by (metis surj_pair)
    have q: "prepared_from sub sub1" "length prepared = length (ItemsToCreate request)"
        "list_all (\<lambda>item. miHeld item = None) (acceptedItems prepared)" using prepare_items [OF p] by auto
    have t: "same_terms sub sub1" "usItems sub1 = usItems sub" "usDA sub1 = usDA sub" using prepared_same [OF q(1)] by auto
    have room: "int (length (usItems sub1)) + int (length (acceptedItems prepared)) \<le> MaxMonitoredItems (ssLimits svc1)"
      using found(2) q(2) t(2) accepted_length [of prepared] by simp
    obtain er sub2 w2 where b: "rebuildDASubscription outside rank rt (fold registerItem (acceptedItems prepared) sub1, w) = (er, sub2, w2)"
      by (metis surj_pair)
    have built: "sub_ok (ssLimits svc1) ?i sub2 \<and> same_terms sub sub2 \<and> owned opened (sub, w) (sub2, w2) \<and>
        miID ` set (acceptedItems prepared) \<subseteq> fst ` set (usItems sub2)" if "sub_ok (ssLimits svc1) ?i sub"
      using accepted_rebuild [OF prepared_sub_ok [OF q(1) that] q(3) room b]
      by (auto intro: same_terms_trans [OF t(1)] owned_trans [OF owned_same [OF t(3)]])
    have finished: "serves opened t (svc, w) (put_subscription ?i sub3 svc1, w2)"
      if "items_changed sub2 sub3" "sub_ok (ssLimits svc1) ?i sub \<Longrightarrow> sub_ok (ssLimits svc1) ?i sub3" for sub3
    proof (rule serves_change [OF l [unfolded found(1)]], intro conjI)
      assume ok: "sub_ok (ssLimits svc1) ?i sub"
      show "same_terms sub sub3" using built [OF ok] items_changed_simps [OF that(1)] same_terms_trans by blast
      show "owned opened (sub, w) (sub3, w2)"
        by (rule owned_trans [OF _ owned_put_items [OF that(1)]]) (use built [OF ok] in blast)
    qed (rule that(2))
    let ?revised = "fold (\<lambda>item. put_item (miID item) (reviseItem (daRevisedInterval sub2) item)) (acceptedItems prepared) sub2"
    have "items_changed sub2 ?revised" "items_changed sub2 (fold removeItem (acceptedItems prepared) sub2)"
      by (rule items_changed_fold, simp)+
    then have "serves opened t (svc, w) (put_subscription ?i ?revised svc1, w2)"
        "serves opened t (svc, w) (put_subscription ?i (fold removeItem (acceptedItems prepared) sub2) svc1, w2)"
      using built q(3) by (intro finished rebuilt_items; blast)+
    moreover have "serves opened t (svc, w) (put_subscription ?i sub1 svc1, w)"
      using t prepared_sub_ok [OF q(1)] by (intro serves_change [OF l [unfolded found(1)]]) (simp add: owned_same)
    moreover have "(svc', w') = (put_subscription ?i sub1 svc1, w) \<or> (svc', w') = (put_subscription ?i ?revised svc1, w2) \<or>
        (svc', w') = (put_subscription ?i (fold removeItem (acceptedItems prepared) sub2) svc1, w2)"
      using assms l found p b by (cases er) (auto simp: CreateMonitoredItems_def Let_def split: if_splits)
    ultimately show ?thesis by auto
  qed (use lookup_serves(1) [OF l] in simp_all)
qed

lemma delete_items_serves:
  assumes "DeleteMonitoredItems outside rank rt t request now (svc, s, w) = (r, svc', s', w')"
  shows "serves opened t (svc, w) (svc', w')"
proof -
  let ?i = "xqSubscriptionID request"
  obtain found svc1 where l: "subscription_lookup t ?i now svc = (found, svc1)" by (rule prod.exhaust)
  show ?thesis
  proof (cases "MonitoredItemIDs request = [] \<or> found = None")
    case True
    then have "(svc', w') = (svc, w)"
      using assms l lookup_serves(2) [OF l] by (auto simp: DeleteMonitoredItems_def split: if_splits)
    then show ?thesis by simp
  next
    case False
    then obtain sub where sub: "found = Some sub" by auto
    obtain results removed sub1 where d: "deleteItems (MonitoredItemIDs request) sub = (results, removed, sub1)" by (metis surj_pair)
    obtain er sub2 w2 where b: "rebuildDASubscription outside rank rt (sub1, w) = (er, sub2, w2)" by (metis surj_pair)
    obtain sub3 w3 where c: "releaseDASubscription rt (sub2, w2) = (sub3, w3)" by (rule prod.exhaust)
    have g: "da_changed sub1 sub2 \<and> owned opened (sub1, w) (sub2, w2)" "da_changed sub2 sub3 \<and> owned opened (sub2, w2) (sub3, w3)"
      using rebuild_owned [OF b] release_owned [OF c] by auto
    have step: "serves opened t (svc, w) (put_subscription ?i sub' svc1, w'')"
      if "da_changed sub1 sub'" "owned opened (sub1, w) (sub', w'')" for sub' w''
    proof (rule serves_change [OF l [unfolded sub]], intro conjI)
      assume ok: "sub_ok (ssLimits svc1) ?i sub"
      have e: "items_changed sub sub1" "item_table_ok sub1" "length (usItems sub1) \<le> length (usItems sub)"
        using delete_items [OF d sub_ok_table [OF ok]] by auto
      show "same_terms sub sub'"
        using items_changed_simps [OF e(1)] da_changed_simps [OF that(1)] same_terms_trans by blast
      show "owned opened (sub, w) (sub', w'')" by (rule owned_trans [OF owned_put_items [OF e(1)] that(2)])
      have "int (length (usItems sub1)) \<le> MaxMonitoredItems (ssLimits svc1)" using ok e(3) unfolding sub_ok_def by linarith
      then show "sub_ok (ssLimits svc1) ?i sub'"
        using items_changed_ok [OF e(1) ok e(2)] da_changed_sub_ok [OF that(1)] by simp
    qed
    have "da_changed sub1 sub3" using g da_changed_trans by blast
    then have "serves opened t (svc, w) (put_subscription ?i sub3 svc1, w3)"
      by (rule step) (rule owned_trans [OF conjunct2 [OF g(1)] conjunct2 [OF g(2)]])
    moreover have "serves opened t (svc, w) (put_subscription ?i sub1 svc1, w)" by (rule step) (simp_all add: owned_same)
    moreover have "serves opened t (svc, w) (put_subscription ?i sub2 svc1, w2)" using g by (intro step) blast+
    moreover have "(svc', w') \<in> {(put_subscription ?i sub1 svc1, w), (put_subscription ?i sub2 svc1, w2), (put_subscription ?i sub3 svc1, w3)}"
      using assms l False sub d b c by (cases er) (auto simp: DeleteMonitoredItems_def Let_def split: if_splits)
    ultimately show ?thesis by auto
  qed
qed

end

lemma keep_session_serves: "serves opened t (svc, w) (keepSessionAlive t now svc, w)"
proof (rule servesI)
  assume ok: "svc_ok svc"
  let ?f = "\<lambda>sub. if usSessionToken sub = t then sub\<lparr>lastKeptAlive := now\<rparr> else sub"
  have k: "subscriptions (keepSessionAlive t now svc) = map (\<lambda>(i, sub). (i, ?f sub)) (subscriptions svc)"
      "ssLimits (keepSessionAlive t now svc) = ssLimits svc"
    by (simp_all add: keepSessionAlive_def)
  have f: "sub_ok limits i (?f sub) = sub_ok limits i sub" "group_of (?f sub) = group_of sub" for limits i sub
    by (simp_all add: sub_ok_def queue_ok_def items_ok_def held_ok_def group_of_def)
  have "svc_ok (keepSessionAlive t now svc)"
    using ok unfolding svc_ok_def table_wf_def k by (simp add: list_all_iff case_prod_beta f comp_def)
  moreover have "filter (\<lambda>(_, sub). usSessionToken sub \<noteq> t) (map (\<lambda>(i, sub). (i, ?f sub)) subs) =
      filter (\<lambda>(_, sub). usSessionToken sub \<noteq> t) subs" for subs :: "(uint32 \<times> uaSubscription) list"
    by (induction subs) auto
  then have "others t (keepSessionAlive t now svc) = others t svc" by (simp add: others_def k)
  moreover have "groups (keepSessionAlive t now svc) = groups svc" by (simp add: groups_def k f case_prod_beta)
  ultimately show "serves opened t (svc, w) (keepSessionAlive t now svc, w)" by (simp add: serves_def k)
qed

lemma better_subscription:
  "betterSubscription t p best = Some q \<Longrightarrow> best = Some q \<or> p = q \<and> usSessionToken (snd q) = t"
  by (cases p) (auto simp: betterSubscription_def split: if_splits option.splits)

lemma better_fold:
  "fold (betterSubscription t) xs best = Some q \<Longrightarrow> best = Some q \<or> q \<in> set xs \<and> usSessionToken (snd q) = t"
proof (induction xs arbitrary: best)
  case (Cons x xs)
  then show ?case using Cons.IH [of "betterSubscription t x best"] better_subscription [of t x best q] by auto
qed simp

lemma next_publishable:
  "nextPublishable rank t svc = Some (i, sub) \<Longrightarrow> (i, sub) \<in> set (subscriptions svc) \<and> usSessionToken sub = t"
  unfolding nextPublishable_def by (drule better_fold) simp

context da_ledger
begin

lemma try_publish_serves:
  assumes "tryPublish outside rank ranks sent rt t request acks now (svc, s, w) = (r, svc', s', w')"
  shows "serves opened t (svc, w) (svc', w')"
proof (rule serves_trans [OF keep_session_serves servesI])
  let ?svc = "keepSessionAlive t now svc"
  assume ok: "svc_ok ?svc"
  show "serves opened t (?svc, w) (svc', w')"
  proof (cases "nextPublishable rank t ?svc")
    case (Some p)
    obtain i sub where p: "p = (i, sub)" by (cases p)
    have n: "(i, sub) \<in> set (subscriptions ?svc)" "usSessionToken sub = t" using next_publishable Some p by auto
    then have m: "map_of (subscriptions ?svc) i = Some sub" using ok by (auto simp: svc_ok_def table_wf_def)
    have sub: "sub_ok (ssLimits ?svc) i sub" "items_ok sub" using svc_ok_lookup [OF ok m] by (auto simp: sub_ok_def)
    obtain sub1 s1 w1 where c: "collect outside ranks rt now (sub, s, w) = (sub1, s1, w1)" by (metis surj_pair)
    obtain message sub2 where b: "buildMessage (ssLimits ?svc) now sub1 = (message, sub2)" by (rule prod.exhaust)
    have d: "collects sub sub1" "owned opened (sub, w) (sub1, w1)" using collect_collects [OF sub(2) c] by auto
    have "same_terms sub sub2" "usDA sub2 = usDA sub1" 
      using collects_frame [OF d(1)] build_frame [OF b] by (auto intro: same_terms_trans)
    moreover have "sub_ok (ssLimits ?svc) i sub2"
      using build_sub_ok [OF _ collects_sub_ok [OF d(1) sub(1)] b] ok by (simp add: svc_ok_def)
    moreover have "svc' = put_subscription i sub2 ?svc" "w' = w1"
      using assms Some p c b by (auto simp: tryPublish_def Let_def split: option.splits)
    moreover have "owned opened (sub, w) (sub2, w1)" if "usDA sub2 = usDA sub1" by (rule owned_trans [OF d(2) owned_same [OF that]])
    ultimately show ?thesis by (auto intro: serves_put [OF m n(2)])
  qed (use assms in \<open>simp add: tryPublish_def\<close>)
qed

lemma publish_loop_serves:
  "publishLoop outside rt t request acks cycles (svc, s, w) = (r, svc', s', w') \<Longrightarrow> serves opened t (svc, w) (svc', w')"
proof (induction cycles arbitrary: svc s w)
  case (Cons c cycles)
  obtain r1 svc1 s1 w1 where p: "tryPublish outside (cySubscriptions c) (cyItems c) (cySent c) rt t request acks (cyNow c) (svc, s, w) =
    (r1, svc1, s1, w1)" by (metis surj_pair)
  have "(svc', w') = (svc1, w1) \<or> publishLoop outside rt t request acks cycles (svc1, s1, w1) = (r, svc', s', w')"
    using Cons.prems p by (auto split: sum.splits option.splits)
  then show ?case using Cons.IH try_publish_serves [OF p] by (auto intro: serves_trans)
qed simp

lemma publish_serves:
  assumes "Publish outside rt t request now cycles (svc, s, w) = (r, svc', s', w')"
  shows "serves opened t (svc, w) (svc', w')"
proof -
  obtain acks svc1 where a: "acknowledgeEach t now (Acknowledgements request) svc = (acks, svc1)" by (rule prod.exhaust)
  have "publishLoop outside rt t request acks cycles (svc1, s, w) = (r, svc', s', w')"
    using assms a by (simp add: Publish_def acknowledge_def)
  from serves_trans [OF acknowledge_serves [OF a] publish_loop_serves [OF this]] show ?thesis .
qed

end

section \<open>The service as a machine\<close>

text \<open>What a session can ask for, each request with its time, orders of iteration and result.\<close>

inductive session_step :: "(float64 \<Rightarrow> int) \<Rightarrow> 'w SubscriptionRuntime \<Rightarrow> gostring \<Rightarrow> 'w subscribing \<Rightarrow> 'w subscribing \<Rightarrow> bool"
  for outside rt t where
  create: "CreateSubscription outside t request now svc = Some (r, svc') \<Longrightarrow> session_step outside rt t (svc, s, w) (svc', s, w)"
| create_items: "CreateMonitoredItems outside rank rt t request now st = (r, st') \<Longrightarrow> session_step outside rt t st st'"
| delete_items: "DeleteMonitoredItems outside rank rt t request now st = (r, st') \<Longrightarrow> session_step outside rt t st st'"
| delete: "DeleteSubscriptions rt t request now (svc, w) = (r, svc', w') \<Longrightarrow> session_step outside rt t (svc, s, w) (svc', s, w')"
| mode: "SetPublishingMode t request now svc = (r, svc') \<Longrightarrow> session_step outside rt t (svc, s, w) (svc', s, w)"
| publish: "Publish outside rt t request now cycles st = (r, st') \<Longrightarrow> session_step outside rt t st st'"
| republish: "Republish t request now svc = (r, svc') \<Longrightarrow> session_step outside rt t (svc, s, w) (svc', s, w)"
| ended: "subscription_ReleaseSession rank rt t (svc, w) = (svc', w') \<Longrightarrow> session_step outside rt t (svc, s, w) (svc', s, w')"

text \<open>The rest of the program changes the address space, and the DA server its values; neither opens a group.\<close>

inductive service_step :: "(float64 \<Rightarrow> int) \<Rightarrow> 'w SubscriptionRuntime \<Rightarrow> ('w \<Rightarrow> gostring set) \<Rightarrow> 'w subscribing \<Rightarrow> 'w subscribing \<Rightarrow> bool"
  for outside rt opened where
  session: "session_step outside rt t st st' \<Longrightarrow> service_step outside rt opened st st'"
| expire: "subscription_ExpireStale outside rank rt now (svc, w) = (n, svc', w') \<Longrightarrow>
    service_step outside rt opened (svc, s, w) (svc', s, w')"
| environment: "opened w' \<subseteq> opened w \<Longrightarrow> service_step outside rt opened (svc, s, w) (svc, s', w')"

definition service_start :: "('w \<Rightarrow> gostring set) \<Rightarrow> 'w subscribing \<Rightarrow> bool" where
  "service_start opened = (\<lambda>(svc, s, w). (\<exists>limits seed. NewSubscriptionService limits seed = Inr svc) \<and> opened w = {})"

definition service_inv :: "('w \<Rightarrow> gostring set) \<Rightarrow> 'w subscribing \<Rightarrow> bool" where
  "service_inv opened = (\<lambda>(svc, s, w). svc_ok svc \<and> opened w \<subseteq> groups svc)"

lemma new_service_ok: "NewSubscriptionService limits seed = Inr svc \<Longrightarrow> svc_ok svc \<and> subscriptions svc = []"
  by (auto simp: NewSubscriptionService_def svc_ok_def SubscriptionLimits_validate_def split: option.splits if_splits)

context da_ledger
begin

lemma delete_all_serves: "DeleteSubscriptions rt t request now (svc, w) = (r, svc', w') \<Longrightarrow> serves opened t (svc, w) (svc', w')"
  using delete_serves [of t now "dqSubscriptionIDs request" svc w _ svc' w']
  by (auto simp: DeleteSubscriptions_def split: if_splits prod.splits)

end

lemma mode_serves: "SetPublishingMode t request now svc = (r, svc') \<Longrightarrow> serves opened t (svc, w) (svc', w)"
  using set_serves [of "pqPublishingEnabled request" t now "pqSubscriptionIDs request" svc _ svc' opened w]
  by (auto simp: SetPublishingMode_def split: if_splits prod.splits)

lemma republish_serves: "Republish t request now svc = (r, svc') \<Longrightarrow> serves opened t (svc, w) (svc', w)"
  using lookup_serves(1) [of t "rbSubscriptionID request" now svc _ svc' opened w]
  by (auto simp: Republish_def split: option.splits prod.splits)

context da_ledger
begin

lemma session_step_serves:
  assumes "session_step outside rt t (svc, s, w) (svc', s', w')"
  shows "serves opened t (svc, w) (svc', w')"
  using assms
  by cases
    (simp_all add: create_serves create_items_serves delete_items_serves delete_all_serves mode_serves publish_serves
      republish_serves release_session_serves)

end

sublocale da_ledger \<subseteq> machine: state_machine "service_start opened" "service_step outside rt opened" "service_inv opened" for outside
proof
  show "service_start opened st \<Longrightarrow> service_inv opened st" for st
    using new_service_ok by (cases st) (auto simp: service_start_def service_inv_def)
  show "service_inv opened st'" if "service_inv opened st" "service_step outside rt opened st st'" for st st'
    using that(2,1)
  proof cases
    case (session t)
    then show ?thesis using that session_step_serves by (cases st, cases st') (fastforce simp: service_inv_def serves_def)
  next
    case (expire rank now svc w n svc' w' s)
    then show ?thesis using that expire_keeps [OF expire(3)] by (simp add: service_inv_def)
  next
    case (environment w' w svc s s')
    then show ?thesis using that by (auto simp: service_inv_def)
  qed
qed

section \<open>What the service guarantees\<close>

context da_ledger
begin

lemma groups_held:
  "reachable (service_start opened) (service_step outside rt opened) (svc, s, w) \<Longrightarrow> svc_ok svc \<and> opened w \<subseteq> groups svc"
  using machine.reachable_inv [of outside "(svc, s, w)"] by (simp add: service_inv_def)

end

text \<open>A runtime with one group, and a service with a subscription that monitors an item.\<close>

definition ledger_sample :: "gostring list SubscriptionRuntime" where
  "ledger_sample = \<lparr>Subscribe = \<lambda>_ w. (Inr \<lparr>siID = [103], RevisedUpdateRate = 10 ^ 9\<rparr>, [103] # w),
     Unsubscribe = \<lambda>i w. removeAll i w, rtDone = \<lambda>_ _. False, rtDrain = \<lambda>_ w. ([], w)\<rparr>"

lemma ledger_sample: "da_ledger ledger_sample set"
  by unfold_locales (auto simp: ledger_sample_def)

definition new_service_sample :: SubscriptionService where
  "new_service_sample = \<lparr>ssLimits = DefaultSubscriptionLimits, subscriptions = [], nextID = 0\<rparr>"

definition create_sample :: CreateSubscriptionRequest where
  "create_sample = \<lparr>sqHeader = request_header_sample, RequestedPublishingInterval = 0, RequestedLifetimeCount = 0,
     RequestedMaxKeepAliveCount = 3, sqMaxNotificationsPerPublish = 0, sqPublishingEnabled = True, Priority = 0\<rparr>"

definition items_sample :: CreateMonitoredItemsRequest where
  "items_sample = \<lparr>iqHeader = request_header_sample, iqSubscriptionID = 1, iqTimestampsToReturn = TimestampsBoth,
     ItemsToCreate = [\<lparr>ItemToMonitor = read_value_sample (ItemNodeID [120]) AttributeValue, mqMonitoringMode = MonitoringModeReporting,
       RequestedParameters = \<lparr>mpClientHandle = 7, mpSamplingInterval = 0, mpFilter = NullExtensionObject, QueueSize = 1,
         DiscardOldest = True\<rparr>\<rparr>]\<rparr>"

definition subscription_sample :: uaSubscription where
  "subscription_sample = \<lparr>usID = 1, usSessionToken = [116], publishingEnabled = True, publishingInterval = f64_of_nat 100,
     keepAliveCount = 3, lifetimeCount = 9, maxNotifications = 0, usPriority = 0,
     usItems = [], nextItemID = 0, byHandle = [], heldOrder = [], usDeadband = 0, deadbandSet = False, usDA = None,
     sequenceNumber = 0, usPending = [], retransmit = [], retransmitOrder = [], keepAliveTicks = 0,
     messageSent = False, lastKeptAlive = 0\<rparr>"

definition created_sample :: "SubscriptionService" where
  "created_sample = \<lparr>ssLimits = DefaultSubscriptionLimits, subscriptions = [(1, subscription_sample)], nextID = 1\<rparr>"

lemma revised_sample:
  "revisePublishingInterval outside DefaultSubscriptionLimits 0 = f64_of_nat 100"
  "reviseKeepAliveCount DefaultSubscriptionLimits 3 = 3" "reviseLifetimeCount 0 3 = 9"
proof -
  have "f64_le 0 0" by code_simp
  then show "revisePublishingInterval outside DefaultSubscriptionLimits 0 = f64_of_nat 100"
    by (simp add: revisePublishingInterval_def DefaultSubscriptionLimits_def timeMillisecond_def go_quot_nonneg Let_def)
qed code_simp+

lemma create_sample_returns: "\<exists>r. CreateSubscription outside [116] create_sample 0 new_service_sample = Some (r, created_sample)"
proof -
  have "allocateID new_service_sample = Some 1" by (simp add: allocateID_def new_service_sample_def allocateLoop.simps)
  moreover have "MaxSubscriptions DefaultSubscriptionLimits = 8" by (simp add: DefaultSubscriptionLimits_def)
  ultimately show ?thesis
    by (simp add: CreateSubscription_def new_service_sample_def created_sample_def subscription_sample_def create_sample_def Let_def revised_sample)
qed

lemma item_sample:
  obtains node s where "ResolveNode (ItemNodeID [120]) 50000 empty_space = ((Some node, NodeKindItem), s)" "\<not> AccessRightsKnown node"
proof -
  have "(case ResolveNode (ItemNodeID [120]) 50000 empty_space of ((Some node, NodeKindItem), s) \<Rightarrow> \<not> AccessRightsKnown node | _ \<Rightarrow> False)"
    by code_simp
  then show thesis using that by (auto split: prod.splits option.splits NodeKind.splits)
qed

lemma monitoring_sample:
  obtains r sub s where "CreateMonitoredItems outside rank ledger_sample [116] items_sample 0 (created_sample, empty_space, []) =
      (Inr r, created_sample\<lparr>subscriptions := [(1, sub)]\<rparr>, s, [[103]])" "usSessionToken sub = [116]" "keepAliveCount sub = 3"
proof -
  obtain node s where n: "ResolveNode (ItemNodeID [120]) 50000 empty_space = ((Some node, NodeKindItem), s)" "\<not> AccessRightsKnown node"
    by (rule item_sample)
  have "deadbandForFilter NullExtensionObject DefaultBinaryLimits = (0, StatusGood)" by code_simp
  moreover have "MonitoringMode_Valid MonitoringModeReporting" "TimestampsToReturn_Valid TimestampsBoth" "\<not> f32_less f32_zero 0" by code_simp+
  moreover have "slMaxNodes DefaultSubscriptionLimits = 50000" "MaxMonitoredItems DefaultSubscriptionLimits = 100"
    by (simp_all add: DefaultSubscriptionLimits_def)
  ultimately show thesis
    using n that
    by (simp add: CreateMonitoredItems_def items_sample_def created_sample_def subscription_sample_def subscription_lookup_def put_subscription_def
      prepareMonitoredItem_def read_value_sample_def Let_def acceptedItems_def map_filter_simps registerItem_def rebuildDASubscription_def
      iterate_def ledger_sample_def releaseDASubscription_def put_item_def)
qed

lemma created_sample_reachable:
  assumes "opened [] = {}"
  shows "reachable (service_start opened) (service_step outside ledger_sample opened) (created_sample, empty_space, [])"
proof (rule reachable.later [OF reachable.initial])
  have "NewSubscriptionService DefaultSubscriptionLimits 0 = Inr new_service_sample"
    by (simp add: NewSubscriptionService_def SubscriptionLimits_validate_def DefaultSubscriptionLimits_def timeMillisecond_def new_service_sample_def)
  then show "service_start opened (new_service_sample, empty_space, [])" using assms by (auto simp: service_start_def)
  show "service_step outside ledger_sample opened (new_service_sample, empty_space, []) (created_sample, empty_space, [])"
    using create_sample_returns [of outside] by (auto intro: service_step.session session_step.create)
qed

lemma monitoring_sample_reachable:
  assumes "opened [] = {}"
  obtains sub s where "reachable (service_start opened) (service_step outside ledger_sample opened)
      (created_sample\<lparr>subscriptions := [(1, sub)]\<rparr>, s, [[103]])" "usSessionToken sub = [116]" "keepAliveCount sub = 3"
proof (rule monitoring_sample [of outside "\<lambda>_ _. 0"])
  fix r sub s assume m: "CreateMonitoredItems outside (\<lambda>_ _. 0) ledger_sample [116] items_sample 0 (created_sample, empty_space, []) =
      (Inr r, created_sample\<lparr>subscriptions := [(1, sub)]\<rparr>, s, [[103]])" "usSessionToken sub = [116]" "keepAliveCount sub = 3"
  have "service_step outside ledger_sample opened (created_sample, empty_space, []) (created_sample\<lparr>subscriptions := [(1, sub)]\<rparr>, s, [[103]])"
    using m(1) by (blast intro: service_step.session session_step.create_items)
  from that [OF reachable.later [OF created_sample_reachable [of opened, OF assms] this] m(2,3)] show thesis .
qed

text \<open>Claim C11: whatever the sessions ask for, in any order and with any answers of the DA runtime, the
  service holds at most the allowed number of subscriptions, under distinct identifiers that are
  not zero and are their own; each has a publishing interval and a keep-alive count within the
  limits and fewer silent cycles than the count, at most the allowed number of items, each under
  its identifier, and at most the allowed number of messages to send again, each under its own
  sequence number; and a value held back for an item is queued for its turn.\<close>

theorem subscriptions_bounded:
  assumes "reachable (service_start (\<lambda>_. {})) (service_step outside rt (\<lambda>_. {})) (svc, s, w)"
  shows "int (length (subscriptions svc)) \<le> MaxSubscriptions (ssLimits svc) \<and> distinct (map fst (subscriptions svc)) \<and>
    list_all (\<lambda>(i, sub). i \<noteq> 0 \<and> usID sub = i \<and>
      (\<exists>d. slMinPublishingInterval (ssLimits svc) \<le> d \<and> d \<le> MaxPublishingInterval (ssLimits svc) \<and>
        publishingInterval sub = f64_of_nat (nat (d div 10 ^ 6))) \<and>
      MinKeepAliveCount (ssLimits svc) \<le> keepAliveCount sub \<and> keepAliveCount sub \<le> MaxKeepAliveCount (ssLimits svc) \<and>
      keepAliveTicks sub < keepAliveCount sub \<and>
      int (length (usItems sub)) \<le> MaxMonitoredItems (ssLimits svc) \<and> distinct (map fst (usItems sub)) \<and>
      list_all (\<lambda>(k, item). miID item = k \<and> (miHeld item \<noteq> None \<longrightarrow> k \<in> set (heldOrder sub))) (usItems sub) \<and>
      int (length (retransmit sub)) \<le> MaxRetransmissionQueue (ssLimits svc) \<and> distinct (map fst (retransmit sub)) \<and>
      list_all (\<lambda>(k, message). nmSequenceNumber message = k) (retransmit sub)) (subscriptions svc)"
proof -
  have ok: "svc_ok svc" using untracked.machine.reachable_inv [OF assms] by (simp add: service_inv_def)
  have "length (retransmit sub) \<le> length (retransmitOrder sub)" if "queue_ok limits sub" for limits sub
  proof -
    have "length (retransmit sub) = card (fst ` set (retransmit sub))"
      using that distinct_card [of "map fst (retransmit sub)"] by (simp add: queue_ok_def table_wf_def)
    also have "\<dots> \<le> card (set (retransmitOrder sub))" using that by (intro card_mono) (simp_all add: queue_ok_def)
    finally show ?thesis using card_length order_trans by blast
  qed
  then have queue: "int (length (retransmit sub)) \<le> MaxRetransmissionQueue limits" "distinct (map fst (retransmit sub))"
      "list_all (\<lambda>(k, message). nmSequenceNumber message = k) (retransmit sub)" if "queue_ok limits sub" for limits sub
    using that by (fastforce simp: queue_ok_def table_wf_def)+
  have items: "distinct (map fst (usItems sub))"
      "list_all (\<lambda>(k, item). miID item = k \<and> (miHeld item \<noteq> None \<longrightarrow> k \<in> set (heldOrder sub))) (usItems sub)"
    if "items_ok sub" "held_ok sub" for sub
    using that by (auto simp: items_ok_def table_wf_def held_ok_def list_all_iff)
  have "list_all (\<lambda>(i, sub). i \<noteq> 0 \<and> sub_ok (ssLimits svc) i sub) (subscriptions svc)"
      "int (length (subscriptions svc)) \<le> MaxSubscriptions (ssLimits svc)" "distinct (map fst (subscriptions svc))"
    using ok by (simp_all add: svc_ok_def table_wf_def)
  then show ?thesis
    by (intro conjI, simp, simp, elim list.pred_mono_strong)
      (simp add: split_paired_all sub_ok_def interval_ok_def queue [of "ssLimits svc"] items del: not_None_eq)
qed

theorem subscriptions_bounded_witness:
  "\<exists>sub s. reachable (service_start (\<lambda>_. {})) (service_step (\<lambda>_. 0) ledger_sample (\<lambda>_. {}))
      (created_sample\<lparr>subscriptions := [(1, sub)]\<rparr>, s, [[103]]) \<and>
     int (length (usItems sub)) \<le> 100 \<and> int (length (retransmit sub)) \<le> 64 \<and> keepAliveTicks sub < keepAliveCount sub"
proof (rule monitoring_sample_reachable [of "\<lambda>_. {}" "\<lambda>_. 0"])
  fix sub s assume r: "reachable (service_start (\<lambda>_. {})) (service_step (\<lambda>_. 0) ledger_sample (\<lambda>_. {}))
    (created_sample\<lparr>subscriptions := [(1, sub)]\<rparr>, s, [[103]])"
  with subscriptions_bounded [OF r] show ?thesis by (auto simp: created_sample_def DefaultSubscriptionLimits_def)
qed simp

text \<open>Claim C10: sessions do not reach each other's subscriptions: whatever a session asks for, and however the
  DA runtime answers, the subscriptions of every other session stay as they are, in their order, with
  their items, their pending notifications, the messages kept for sending again and their lifetime.\<close>

theorem sessions_isolated:
  assumes "reachable (service_start (\<lambda>_. {})) (service_step outside rt (\<lambda>_. {})) (svc, s, w)"
    and "session_step outside rt t (svc, s, w) (svc', s', w')"
  shows "filter (\<lambda>(_, sub). usSessionToken sub \<noteq> t) (subscriptions svc') =
    filter (\<lambda>(_, sub). usSessionToken sub \<noteq> t) (subscriptions svc) \<and> ssLimits svc' = ssLimits svc"
proof -
  have "svc_ok svc" using untracked.machine.reachable_inv [OF assms(1)] by (simp add: service_inv_def)
  with untracked.session_step_serves [OF assms(2)] show ?thesis by (simp add: serves_def others_def)
qed

theorem sessions_isolated_witness:
  "\<exists>sub s r svc' w'. usSessionToken sub = [116] \<and>
     DeleteSubscriptions ledger_sample [117] \<lparr>dqHeader = request_header_sample, dqSubscriptionIDs = [1]\<rparr> 0
       (created_sample\<lparr>subscriptions := [(1, sub)]\<rparr>, [[103]]) = (r, svc', w') \<and>
     filter (\<lambda>(_, sub). usSessionToken sub \<noteq> [117]) (subscriptions svc') = [(1, sub)]"
proof (rule monitoring_sample_reachable [of "\<lambda>_. {}" "\<lambda>_. 0"])
  fix sub s assume r: "reachable (service_start (\<lambda>_. {})) (service_step (\<lambda>_. 0) ledger_sample (\<lambda>_. {}))
    (created_sample\<lparr>subscriptions := [(1, sub)]\<rparr>, s, [[103]])" and t: "usSessionToken sub = [116]"
  let ?request = "\<lparr>dqHeader = request_header_sample, dqSubscriptionIDs = [1]\<rparr>"
  obtain a svc' w' where d: "DeleteSubscriptions ledger_sample [117] ?request 0
      (created_sample\<lparr>subscriptions := [(1, sub)]\<rparr>, [[103]]) = (a, svc', w')" by (metis surj_pair)
  have "filter (\<lambda>(_, sub). usSessionToken sub \<noteq> [117]) (subscriptions svc') = [(1, sub)]"
    using sessions_isolated [OF r session_step.delete [OF d]] t by simp
  with d t show ?thesis by blast
qed simp



end
