(* ===== verification/Publishing.thy ===== *)
theory Publishing
  imports SubscriptionLaws
begin

text \<open>
  What a client sees of a subscription: a Publish is answered after a bounded number of publishing
  cycles, notifications arrive once and in order under consecutive sequence numbers, and the
  messages kept for sending again are a bounded queue.
\<close>

section \<open>Publish returns\<close>

text \<open>The silent cycles a session's subscriptions have left before each must say something.\<close>

definition silence_left :: "gostring \<Rightarrow> uint32 \<times> uaSubscription \<Rightarrow> nat" where
  "silence_left t = (\<lambda>(_, sub). if usSessionToken sub = t then unat (keepAliveCount sub) - unat (keepAliveTicks sub) else 0)"

definition silence :: "gostring \<Rightarrow> SubscriptionService \<Rightarrow> nat" where
  "silence t svc = sum_list (map (silence_left t) (subscriptions svc))"

lemma sum_update:
  fixes f :: "'k \<times> 'v \<Rightarrow> nat"
  shows "map_of al i = Some x \<Longrightarrow> sum_list (map f (AList.update i y al)) + f (i, x) = sum_list (map f al) + f (i, y)"
  by (induction al) (auto split: if_splits)

lemma sum_member:
  fixes f :: "'k \<times> 'v \<Rightarrow> nat"
  shows "map_of al i = Some x \<Longrightarrow> f (i, x) \<le> sum_list (map f al)"
  by (rule member_le_sum_list) (auto dest: map_of_SomeD)

lemma silence_kept: "silence t (keepSessionAlive t now svc) = silence t svc"
proof -
  have "silence_left t (case p of (i, sub) \<Rightarrow> (i, if usSessionToken sub = t then sub\<lparr>lastKeptAlive := now\<rparr> else sub)) = silence_left t p" for p
    by (cases p) (simp add: silence_left_def)
  then show ?thesis by (simp add: silence_def keepSessionAlive_def comp_def)
qed

lemma silent_build:
  assumes "buildMessage limits now sub = (None, sub')" "keepAliveTicks sub < keepAliveCount sub"
  shows "unat (keepAliveTicks sub') = Suc (unat (keepAliveTicks sub))" "unat (keepAliveTicks sub') < unat (keepAliveCount sub')"
    "keepAliveCount sub' = keepAliveCount sub" "usSessionToken sub' = usSessionToken sub"
proof -
  have e: "sub' = sub\<lparr>keepAliveTicks := keepAliveTicks sub + 1\<rparr>" "keepAliveTicks sub + 1 < keepAliveCount sub"
    using assms(1) by (auto simp: buildMessage_def Let_def split: if_splits)
  have "unat (keepAliveCount sub) < 2 ^ LENGTH(32)" by (rule unsigned_less)
  then have "unat (keepAliveTicks sub) + 1 < 2 ^ 32" using assms(2) by (simp add: word_less_nat_alt)
  then have "unat (keepAliveTicks sub + 1) = Suc (unat (keepAliveTicks sub))"
    by (simp add: unat_word_ariths(1))
  with e show "unat (keepAliveTicks sub') = Suc (unat (keepAliveTicks sub))" "unat (keepAliveTicks sub') < unat (keepAliveCount sub')"
    "keepAliveCount sub' = keepAliveCount sub" "usSessionToken sub' = usSessionToken sub"
    by (simp_all add: word_less_nat_alt)
qed

text \<open>A cycle without an answer takes one from what is left, and leaves some.\<close>

lemma silent_cycle:
  assumes "tryPublish outside rank ranks sent rt t request acks now (svc, s, w) = (Inr None, svc', s', w')" "svc_ok svc"
  shows "silence t svc' < silence t svc \<and> 0 < silence t svc'"
proof -
  let ?svc = "keepSessionAlive t now svc"
  have ok: "svc_ok ?svc" using keep_session_serves [of "\<lambda>_. {}" t svc w now] assms(2) by (simp add: serves_def)
  obtain i sub where n: "nextPublishable rank t ?svc = Some (i, sub)"
    using assms(1) by (cases "nextPublishable rank t ?svc") (auto simp: tryPublish_def)
  have m: "map_of (subscriptions ?svc) i = Some sub" "usSessionToken sub = t"
    using next_publishable [OF n] ok by (auto simp: svc_ok_def table_wf_def)
  have sub: "items_ok sub" "keepAliveTicks sub < keepAliveCount sub" using svc_ok_lookup [OF ok m(1)] by (auto simp: sub_ok_def)
  obtain sub1 s1 w1 where c: "collect outside ranks rt now (sub, s, w) = (sub1, s1, w1)" by (metis surj_pair)
  obtain message sub2 where b: "buildMessage (ssLimits ?svc) now sub1 = (message, sub2)" by (rule prod.exhaust)
  have r: "message = None" "svc' = put_subscription i sub2 ?svc"
    using assms(1) n c b by (auto simp: tryPublish_def Let_def split: option.splits)
  have f: "keepAliveTicks sub1 = keepAliveTicks sub" "keepAliveCount sub1 = keepAliveCount sub" "usSessionToken sub1 = usSessionToken sub"
    using collects_frame untracked.collect_collects [OF sub(1) c] by (auto simp: same_terms_def)
  have k: "unat (keepAliveTicks sub2) = Suc (unat (keepAliveTicks sub))" "unat (keepAliveTicks sub2) < unat (keepAliveCount sub2)"
      "keepAliveCount sub2 = keepAliveCount sub" "usSessionToken sub2 = t"
    using silent_build [OF b [unfolded r(1)]] f sub(2) m(2) by auto
  then have left: "silence_left t (i, sub) = Suc (silence_left t (i, sub2))" "0 < silence_left t (i, sub2)"
    using m(2) by (simp_all add: silence_left_def)
  have "silence t svc' + silence_left t (i, sub) = silence t ?svc + silence_left t (i, sub2)"
    using sum_update [OF m(1), of "silence_left t" sub2] by (simp add: silence_def r(2) put_subscription_def)
  moreover have "silence_left t (i, sub2) \<le> silence t svc'"
    unfolding silence_def by (rule sum_member) (simp add: r(2) put_subscription_def update_conv')
  ultimately show ?thesis using left silence_kept [of t now svc] by simp
qed

lemma publish_answers:
  "svc_ok svc \<Longrightarrow> silence t svc \<le> length cycles \<Longrightarrow> cycles \<noteq> [] \<Longrightarrow>
     fst (publishLoop outside rt t request acks cycles (svc, s, w)) \<noteq> None"
proof (induction cycles arbitrary: svc s w)
  case (Cons c cycles)
  obtain r svc1 s1 w1 where p: "tryPublish outside (cySubscriptions c) (cyItems c) (cySent c) rt t request acks (cyNow c) (svc, s, w) =
    (r, svc1, s1, w1)" by (metis surj_pair)
  show ?case
  proof (cases "r = Inr None")
    case True
    have q: "silence t svc1 < silence t svc" "0 < silence t svc1" using silent_cycle [OF p [unfolded True] Cons.prems(1)] by auto
    have "svc_ok svc1" using untracked.try_publish_serves [OF p] Cons.prems(1) by (simp add: serves_def)
    moreover have "silence t svc1 \<le> length cycles" "cycles \<noteq> []" using q Cons.prems(2) by auto
    ultimately have "fst (publishLoop outside rt t request acks cycles (svc1, s1, w1)) \<noteq> None" by (rule Cons.IH)
    then show ?thesis using p True by simp
  qed (use p in \<open>auto split: sum.splits option.splits\<close>)
qed simp

text \<open>Acknowledging changes neither the subscriptions a session has nor their keep-alive.\<close>

definition keep_alives :: "SubscriptionService \<Rightarrow> (uint32 \<times> gostring \<times> uint32 \<times> uint32) list" where
  "keep_alives svc = map (\<lambda>(i, sub). (i, usSessionToken sub, keepAliveCount sub, keepAliveTicks sub)) (subscriptions svc)"

lemma map_update_same: "map_of al i = Some x \<Longrightarrow> f (i, y) = f (i, x) \<Longrightarrow> map f (AList.update i y al) = map f al"
  by (induction al) (auto split: if_splits)

lemma keep_alives_put:
  assumes "map_of (subscriptions svc) i = Some sub" "usSessionToken sub' = usSessionToken sub"
    "keepAliveCount sub' = keepAliveCount sub" "keepAliveTicks sub' = keepAliveTicks sub"
  shows "keep_alives (put_subscription i sub' svc) = keep_alives svc"
  unfolding keep_alives_def put_subscription_def using assms by (simp add: map_update_same)

lemma keep_alives_lookup:
  assumes "subscription_lookup t i now svc = (found, svc')"
  shows "keep_alives svc' = keep_alives svc"
  using assms by (auto simp: subscription_lookup_def Let_def keep_alives_put split: option.splits if_splits)

lemma keep_alives_acknowledge: "keep_alives (snd (acknowledgeEach t now acks svc)) = keep_alives svc"
proof (induction acks arbitrary: svc)
  case (Cons a acks)
  obtain found svc1 where l: "subscription_lookup t (akSubscriptionID a) now svc = (found, svc1)" by (rule prod.exhaust)
  have k: "keep_alives svc1 = keep_alives svc" using keep_alives_lookup [OF l] .
  show ?case
  proof (cases found)
    case (Some sub)
    have "map_of (subscriptions svc1) (akSubscriptionID a) = Some sub" using lookup_serves(3) [OF l Some] by simp
    from keep_alives_put [OF this] show ?thesis using Cons.IH k l Some by (simp add: Let_def split_def)
  qed (use Cons.IH k l in \<open>simp add: Let_def split_def\<close>)
qed simp



text \<open>
  A cycle serves a subscription of the highest priority, whether it has something to say or not:
  while one of a higher priority exists, the notifications of another wait.
\<close>

lemma better_covers:
  "fold (betterSubscription t) xs best = Some (i, sub) \<Longrightarrow>
     (\<forall>(j, other) \<in> set xs. usSessionToken other = t \<longrightarrow> usPriority other \<le> usPriority sub) \<and>
     (\<forall>j other. best = Some (j, other) \<longrightarrow> usPriority other \<le> usPriority sub)"
proof (induction xs arbitrary: best)
  case (Cons x xs)
  obtain k y where x: "x = (k, y)" by (cases x)
  show ?case
  proof (cases "usSessionToken y = t")
    case True
    show ?thesis
      using Cons.IH [of "betterSubscription t x best"] Cons.prems True
      by (cases best) (fastforce simp: x betterSubscription_def split: if_splits)+
  qed (use Cons in \<open>simp add: x betterSubscription_def\<close>)
qed simp

lemma highest_priority_only:
  assumes "nextPublishable rank t svc = Some (i, sub)" "(j, other) \<in> set (subscriptions svc)" "usSessionToken other = t"
  shows "usPriority other \<le> usPriority sub"
  using better_covers [OF assms(1) [unfolded nextPublishable_def]] assms(2,3) by auto

section \<open>Delivery\<close>

text \<open>
  What the messages kept for sending again mean: a queue of the last messages, in which a new one
  takes the place of the oldest when there is no room, and an acknowledged one is taken out.
\<close>

definition keep_message :: "int \<Rightarrow> NotificationMessage \<Rightarrow> NotificationMessage list \<Rightarrow> NotificationMessage list" where
  "keep_message limit m kept = drop (Suc (length kept) - nat limit) kept @ [m]"

definition forget_message :: "uint32 \<Rightarrow> NotificationMessage list \<Rightarrow> NotificationMessage list" where
  "forget_message k kept = filter (\<lambda>m. nmSequenceNumber m \<noteq> k) kept"

definition kept_message :: "NotificationMessage list \<Rightarrow> uint32 \<Rightarrow> NotificationMessage option" where
  "kept_message kept k = List.find (\<lambda>m. nmSequenceNumber m = k) kept"

text \<open>The subscription holds that queue.\<close>

definition holds :: "uaSubscription \<Rightarrow> NotificationMessage list \<Rightarrow> bool" where
  "holds sub kept \<longleftrightarrow> retransmitOrder sub = map nmSequenceNumber kept \<and> distinct (map nmSequenceNumber kept) \<and>
     map_of (retransmit sub) = kept_message kept"

lemma kept_none: "kept_message kept k = None \<longleftrightarrow> k \<notin> nmSequenceNumber ` set kept"
  by (auto simp: kept_message_def find_None_iff)

lemma kept_append: "kept_message (xs @ ys) k = (case kept_message xs k of None \<Rightarrow> kept_message ys k | Some m \<Rightarrow> Some m)"
  by (induction xs) (auto simp: kept_message_def)

lemma kept_one: "kept_message [m] k = (if nmSequenceNumber m = k then Some m else None)"
  by (simp add: kept_message_def)

lemma kept_forget: "kept_message (forget_message k kept) = (kept_message kept)(k := None)"
  by (induction kept) (auto simp: kept_message_def forget_message_def fun_eq_iff)

lemma forget_order: "distinct (map nmSequenceNumber kept) \<Longrightarrow> remove1 k (map nmSequenceNumber kept) = map nmSequenceNumber (forget_message k kept)"
  by (simp add: forget_message_def distinct_remove1_removeAll removeAll_filter_not_eq filter_map comp_def eq_commute)

lemma drop_oldest_keeps:
  assumes "0 < limit" "dropOldest limit (map nmSequenceNumber kept) queue = (order, queue')"
    "distinct (map nmSequenceNumber kept)" "map_of queue = kept_message kept"
  shows "order = map nmSequenceNumber (drop (Suc (length kept) - nat limit) kept) \<and>
    map_of queue' = kept_message (drop (Suc (length kept) - nat limit) kept)"
  using assms
proof (induction kept arbitrary: queue)
  case (Cons m kept)
  show ?case
  proof (cases "int (length (m # kept)) \<ge> limit")
    case True
    have "map_of (AList.delete (nmSequenceNumber m) queue) = (kept_message (m # kept))(nmSequenceNumber m := None)"
      using Cons.prems(4) by (simp add: delete_conv')
    also have "\<dots> = kept_message kept"
      using Cons.prems(3) kept_none [of kept "nmSequenceNumber m"] by (auto simp: kept_message_def fun_eq_iff)
    finally have "order = map nmSequenceNumber (drop (Suc (length kept) - nat limit) kept) \<and>
        map_of queue' = kept_message (drop (Suc (length kept) - nat limit) kept)"
      using Cons.prems(1-3) True by (intro Cons.IH) auto
    moreover have "Suc (length (m # kept)) - nat limit = Suc (Suc (length kept) - nat limit)" using True Cons.prems(1) by simp
    ultimately show ?thesis by simp
  qed (use Cons.prems in auto)
qed simp

lemma queue_holds:
  assumes "0 < MaxRetransmissionQueue limits" "holds sub kept" "nmSequenceNumber m \<notin> nmSequenceNumber ` set kept"
  shows "holds (queueForRetransmission limits m sub) (keep_message (MaxRetransmissionQueue limits) m kept)"
proof -
  let ?n = "Suc (length kept) - nat (MaxRetransmissionQueue limits)"
  obtain order queue where d: "dropOldest (MaxRetransmissionQueue limits) (map nmSequenceNumber kept) (retransmit sub) = (order, queue)"
    by (rule prod.exhaust)
  have q: "order = map nmSequenceNumber (drop ?n kept)" "map_of queue = kept_message (drop ?n kept)"
    using drop_oldest_keeps [OF assms(1) d] assms(2) by (auto simp: holds_def)
  have new: "nmSequenceNumber m \<notin> nmSequenceNumber ` set (drop ?n kept)" using assms(3) set_drop_subset by fastforce
  have "distinct (map nmSequenceNumber (drop ?n kept))" using assms(2) by (simp add: holds_def drop_map [symmetric])
  moreover have "map_of (AList.update (nmSequenceNumber m) m queue) = kept_message (drop ?n kept @ [m])"
    using q(2) new kept_none [of "drop ?n kept" "nmSequenceNumber m"]
    by (auto simp: fun_eq_iff update_conv' kept_append kept_one split: option.splits)
  ultimately show ?thesis
    using q(1) new d assms(2) by (auto simp: holds_def queueForRetransmission_def keep_message_def)
qed

lemma acknowledge_holds:
  assumes "holds sub kept"
  shows "holds (sub\<lparr>retransmit := AList.delete k (retransmit sub), retransmitOrder := remove1 k (retransmitOrder sub)\<rparr>) (forget_message k kept)"
  using assms by (auto simp: holds_def delete_conv' kept_forget forget_order) (simp add: forget_message_def distinct_map_filter)

text \<open>
  One subscription with what was queued for it, what was sent and what is kept. A collection adds
  notifications, a publishing cycle sends a message, an acknowledgement forgets one, and the other
  requests leave the notifications and messages alone.
\<close>

record delivery =
  dlSub :: uaSubscription
  dlQueued :: "MonitoredItemNotification list"
  dlSent :: "NotificationMessage list"
  dlKept :: "NotificationMessage list"

definition same_delivery :: "uaSubscription \<Rightarrow> uaSubscription \<Rightarrow> bool" where
  "same_delivery sub sub' \<longleftrightarrow> usPending sub' = usPending sub \<and> retransmit sub' = retransmit sub \<and>
     retransmitOrder sub' = retransmitOrder sub \<and> sequenceNumber sub' = sequenceNumber sub"

definition delivery_start :: "SubscriptionLimits \<Rightarrow> delivery \<Rightarrow> bool" where
  "delivery_start limits d \<longleftrightarrow> (\<exists>outside t request now svc r svc'. svc_ok svc \<and> ssLimits svc = limits \<and>
     CreateSubscription outside t request now svc = Some (Inr r, svc') \<and> map_of (subscriptions svc') (spSubscriptionID r) = Some (dlSub d)) \<and>
     dlQueued d = [] \<and> dlSent d = [] \<and> dlKept d = []"

inductive delivery_step :: "(float64 \<Rightarrow> int) \<Rightarrow> 'w SubscriptionRuntime \<Rightarrow> SubscriptionLimits \<Rightarrow> delivery \<Rightarrow> delivery \<Rightarrow> bool"
  for outside rt limits where
  collected: "collect outside rank rt now (dlSub d, s, w) = (sub', s', w') \<Longrightarrow>
    delivery_step outside rt limits d
      (d\<lparr>dlSub := sub', dlQueued := dlQueued d @ drop (length (usPending (dlSub d))) (usPending sub')\<rparr>)"
| silent: "buildMessage limits now (dlSub d) = (None, sub') \<Longrightarrow> delivery_step outside rt limits d (d\<lparr>dlSub := sub'\<rparr>)"
| kept_alive: "buildMessage limits now (dlSub d) = (Some m, sub') \<Longrightarrow> \<not> HasData m \<Longrightarrow>
    delivery_step outside rt limits d (d\<lparr>dlSub := sub'\<rparr>)"
| sent: "buildMessage limits now (dlSub d) = (Some m, sub') \<Longrightarrow> HasData m \<Longrightarrow>
    delivery_step outside rt limits d (d\<lparr>dlSub := sub', dlSent := dlSent d @ [m],
      dlKept := keep_message (MaxRetransmissionQueue limits) m (dlKept d)\<rparr>)"
| acknowledged: "delivery_step outside rt limits d
    (d\<lparr>dlSub := (dlSub d)\<lparr>retransmit := AList.delete k (retransmit (dlSub d)), retransmitOrder := remove1 k (retransmitOrder (dlSub d))\<rparr>,
      dlKept := forget_message k (dlKept d)\<rparr>)"
| requested: "same_delivery (dlSub d) sub' \<Longrightarrow> items_ok sub' \<Longrightarrow> delivery_step outside rt limits d (d\<lparr>dlSub := sub'\<rparr>)"

definition numbered :: "NotificationMessage list \<Rightarrow> bool" where
  "numbered sent \<longleftrightarrow> map nmSequenceNumber sent = map of_nat [1..<Suc (length sent)]"

definition delivery_inv :: "SubscriptionLimits \<Rightarrow> delivery \<Rightarrow> bool" where
  "delivery_inv limits d \<longleftrightarrow> 2 \<le> MaxRetransmissionQueue limits \<and> 0 < slMaxNotificationsPerPublish limits \<and> items_ok (dlSub d) \<and>
     concat (map nmNotifications (dlSent d)) @ usPending (dlSub d) = dlQueued d \<and>
     numbered (dlSent d) \<and> sequenceNumber (dlSub d) = of_nat (length (dlSent d)) \<and>
     list_all (\<lambda>m. nmNotifications m \<noteq> [] \<and> int (length (nmNotifications m)) \<le> slMaxNotificationsPerPublish limits) (dlSent d) \<and>
     set (dlKept d) \<subseteq> set (dlSent d) \<and> (length (dlSent d) < 2 ^ 32 \<longrightarrow> holds (dlSub d) (dlKept d))"

lemma build_sent:
  assumes "buildMessage limits now sub = (Some m, sub')" "HasData m" "0 < slMaxNotificationsPerPublish limits"
  shows "usPending sub = nmNotifications m @ usPending sub'" "nmNotifications m \<noteq> []"
    "int (length (nmNotifications m)) \<le> slMaxNotificationsPerPublish limits"
    "nmSequenceNumber m = sequenceNumber sub + 1" "sequenceNumber sub' = sequenceNumber sub + 1" "items_ok sub' = items_ok sub"
    "\<exists>sub1. same_delivery (sub1\<lparr>usPending := usPending sub, sequenceNumber := sequenceNumber sub\<rparr>) sub \<and>
       sub' = queueForRetransmission limits m sub1"
proof -
  define maximum where "maximum = (if maxNotifications sub > 0 \<and> uint (maxNotifications sub) < slMaxNotificationsPerPublish limits
    then uint (maxNotifications sub) else slMaxNotificationsPerPublish limits)"
  define count where "count = (if int (length (usPending sub)) > maximum then nat maximum else length (usPending sub))"
  define sub1 where "sub1 = sub\<lparr>usPending := drop count (usPending sub), keepAliveTicks := 0, messageSent := True,
    sequenceNumber := sequenceNumber sub + 1\<rparr>"
  have e: "m = \<lparr>nmSequenceNumber = sequenceNumber sub + 1, nmPublishTime = now, nmNotifications = take count (usPending sub), HasData = True\<rparr>"
      "sub' = queueForRetransmission limits m sub1" "usPending sub \<noteq> []"
    using assms(1,2) by (auto simp: buildMessage_def Let_def sub1_def count_def maximum_def split: if_splits)
  have "0 < maximum" "maximum \<le> slMaxNotificationsPerPublish limits"
    using assms(3) by (auto simp: maximum_def word_less_def)
  then have "0 < count" "int (length (take count (usPending sub))) \<le> slMaxNotificationsPerPublish limits"
    using e(3) by (auto simp: count_def)
  then show "usPending sub = nmNotifications m @ usPending sub'" "nmNotifications m \<noteq> []"
      "int (length (nmNotifications m)) \<le> slMaxNotificationsPerPublish limits"
      "nmSequenceNumber m = sequenceNumber sub + 1" "sequenceNumber sub' = sequenceNumber sub + 1" "items_ok sub' = items_ok sub"
    using e(3) unfolding e(1,2) by (auto simp: queueForRetransmission_def sub1_def items_ok_def split: prod.splits)
  show "\<exists>sub1. same_delivery (sub1\<lparr>usPending := usPending sub, sequenceNumber := sequenceNumber sub\<rparr>) sub \<and>
       sub' = queueForRetransmission limits m sub1"
    by (rule exI [of _ sub1]) (simp add: e(2) sub1_def same_delivery_def)
qed

lemma build_unsent:
  assumes "buildMessage limits now sub = (message, sub')" "\<And>m. message = Some m \<Longrightarrow> \<not> HasData m"
  shows "same_delivery sub sub' \<and> items_ok sub' = items_ok sub"
proof -
  have "\<not> publishingEnabled sub \<or> usPending sub = []"
  proof (rule ccontr)
    assume "\<not> (\<not> publishingEnabled sub \<or> usPending sub = [])"
    then have "\<exists>m. message = Some m \<and> HasData m" using assms(1) by (auto simp: buildMessage_def Let_def)
    then show False using assms(2) by blast
  qed
  then show ?thesis using assms(1) by (auto simp: buildMessage_def Let_def same_delivery_def items_ok_def split: if_splits)
qed

lemma same_delivery_inv: "delivery_inv limits d \<Longrightarrow> same_delivery (dlSub d) sub' \<Longrightarrow> items_ok sub' \<Longrightarrow> delivery_inv limits (d\<lparr>dlSub := sub'\<rparr>)"
  by (simp add: delivery_inv_def same_delivery_def holds_def)

lemma number_fresh:
  assumes "numbered sent" "Suc (length sent) < 2 ^ 32"
  shows "(of_nat (Suc (length sent)) :: uint32) \<notin> nmSequenceNumber ` set sent"
proof -
  have "unat (of_nat k :: uint32) = k" if "k < 2 ^ 32" for k using that by (simp only: unat_of_nat) simp
  then have "(of_nat k :: uint32) \<noteq> of_nat (Suc (length sent))" if "k \<le> length sent" for k
    using that assms(2) by (metis Suc_n_not_le_n le_imp_less_Suc order_less_trans)
  moreover have "nmSequenceNumber ` set sent = of_nat ` {1..<Suc (length sent)}"
    using assms(1) unfolding numbered_def by (metis list.set_map set_upt)
  ultimately show ?thesis by (auto simp del: of_nat_Suc) (metis less_Suc_eq_le)
qed

lemma sent_inv:
  assumes inv: "delivery_inv limits d" and b: "buildMessage limits now (dlSub d) = (Some m, sub')" "HasData m"
  shows "delivery_inv limits (d\<lparr>dlSub := sub', dlSent := dlSent d @ [m], dlKept := keep_message (MaxRetransmissionQueue limits) m (dlKept d)\<rparr>)"
proof -
  have i: "2 \<le> MaxRetransmissionQueue limits" "0 < slMaxNotificationsPerPublish limits" "items_ok (dlSub d)"
      "concat (map nmNotifications (dlSent d)) @ usPending (dlSub d) = dlQueued d" "numbered (dlSent d)"
      "sequenceNumber (dlSub d) = of_nat (length (dlSent d))" "set (dlKept d) \<subseteq> set (dlSent d)"
      "list_all (\<lambda>m. nmNotifications m \<noteq> [] \<and> int (length (nmNotifications m)) \<le> slMaxNotificationsPerPublish limits) (dlSent d)"
      "length (dlSent d) < 2 ^ 32 \<Longrightarrow> holds (dlSub d) (dlKept d)"
    using inv by (simp_all add: delivery_inv_def)
  note s = build_sent [OF b i(2)]
  have m: "nmSequenceNumber m = of_nat (Suc (length (dlSent d)))" using s(4) i(6) by simp
  have "holds sub' (keep_message (MaxRetransmissionQueue limits) m (dlKept d))" if "Suc (length (dlSent d)) < 2 ^ 32"
  proof -
    obtain sub1 where s1: "same_delivery (sub1\<lparr>usPending := usPending (dlSub d), sequenceNumber := sequenceNumber (dlSub d)\<rparr>) (dlSub d)"
        "sub' = queueForRetransmission limits m sub1" using s(7) by blast
    have "holds sub1 (dlKept d)" using i(9) that s1(1) by (simp add: holds_def same_delivery_def)
    moreover have "nmSequenceNumber m \<notin> nmSequenceNumber ` set (dlKept d)" using number_fresh [OF i(5) that] i(7) by (auto simp: m)
    ultimately show ?thesis unfolding s1(2) using i(1) by (intro queue_holds) simp_all
  qed
  moreover have "set (keep_message (MaxRetransmissionQueue limits) m (dlKept d)) \<subseteq> set (dlSent d @ [m])"
    using i(7) set_drop_subset by (fastforce simp: keep_message_def)
  moreover have "numbered (dlSent d @ [m])" using i(5) m by (simp add: numbered_def)
  ultimately show ?thesis using i s(1-3,5,6) by (simp add: delivery_inv_def)
qed

lemma delivery_step_inv:
  assumes "delivery_inv limits d" "delivery_step outside rt limits d d'"
  shows "delivery_inv limits d'"
  using assms(2,1)
proof cases
  case (collected rank now s w sub' s' w')
  have c: "collects (dlSub d) sub'"
    using untracked.collect_collects [OF _ collected(2)] assms(1) by (auto simp: delivery_inv_def)
  obtain new where "usPending sub' = usPending (dlSub d) @ new" using collects_frame [OF c] by blast
  moreover have "items_ok sub'"
    using c assms(1) value_step_items da_changed_simps by (fastforce simp: collects_def delivery_inv_def items_ok_def)
  ultimately show ?thesis
    using collects_frame [OF c] assms(1) unfolding collected(1)
    by (auto simp: delivery_inv_def holds_def append_assoc [symmetric] simp del: append_assoc)
next
  case (silent now sub')
  then show ?thesis using build_unsent [OF silent(2)] same_delivery_inv [OF assms(1)] assms(1) by (simp add: delivery_inv_def)
next
  case (kept_alive now m sub')
  then show ?thesis using build_unsent [OF kept_alive(2)] same_delivery_inv [OF assms(1)] assms(1) by (simp add: delivery_inv_def)
next
  case (sent now m sub')
  then show ?thesis using sent_inv [OF assms(1) sent(2,3)] by simp
next
  case (acknowledged k)
  then show ?thesis using assms(1) acknowledge_holds [of "dlSub d" "dlKept d" k]
    by (auto simp: delivery_inv_def items_ok_def forget_message_def)
next
  case (requested sub')
  then show ?thesis using same_delivery_inv [OF assms(1)] by simp
qed

lemma created_empty:
  assumes "CreateSubscription outside t request now svc = Some (Inr r, svc')" "map_of (subscriptions svc') (spSubscriptionID r) = Some sub"
  shows "usItems sub = [] \<and> usPending sub = [] \<and> sequenceNumber sub = 0 \<and> retransmit sub = [] \<and> retransmitOrder sub = []"
  using assms by (auto simp: CreateSubscription_def Let_def update_conv' split: if_splits option.splits)

lemma delivery_start_inv:
  assumes "delivery_start limits d"
  shows "delivery_inv limits d"
proof -
  obtain outside t request now svc r svc' where c: "svc_ok svc" "ssLimits svc = limits"
      "CreateSubscription outside t request now svc = Some (Inr r, svc')" "map_of (subscriptions svc') (spSubscriptionID r) = Some (dlSub d)"
      and e: "dlQueued d = []" "dlSent d = []" "dlKept d = []"
    using assms by (auto simp: delivery_start_def)
  have sub: "usItems (dlSub d) = [] \<and> usPending (dlSub d) = [] \<and> sequenceNumber (dlSub d) = 0 \<and> retransmit (dlSub d) = [] \<and>
      retransmitOrder (dlSub d) = []"
    using created_empty [OF c(3,4)] .
  have "SubscriptionLimits_validate limits = None" using c(1,2) by (auto simp: svc_ok_def)
  from valid_limits [OF this] sub e show ?thesis
    by (simp add: delivery_inv_def holds_def items_ok_def numbered_def kept_message_def fun_eq_iff)
qed

interpretation deliveries: state_machine "delivery_start limits" "delivery_step outside rt limits" "delivery_inv limits" for outside rt limits
  by unfold_locales (auto intro: delivery_start_inv delivery_step_inv)


definition unreadable_sample :: monitoredItem where
  "unreadable_sample = \<lparr>miID = 1, miClientHandle = 7, miItemID = [120], miNodeID = ItemNodeID [120], miMode = MonitoringModeReporting,
     miTimestamps = TimestampsBoth, notReadable = True, samplingInterval = 0, miHeld = None, lastReported = zeroTime, semanticGeneration = 0\<rparr>"

definition delivery_sample :: delivery where
  "delivery_sample = \<lparr>dlSub = subscription_sample\<lparr>usItems := [(1, unreadable_sample)]\<rparr>, dlQueued = [], dlSent = [], dlKept = []\<rparr>"

lemma delivery_sample_reachable:
  "reachable (delivery_start DefaultSubscriptionLimits) (delivery_step outside rt DefaultSubscriptionLimits) delivery_sample"
proof (rule reachable.later [OF reachable.initial])
  let ?d = "\<lparr>dlSub = subscription_sample, dlQueued = [], dlSent = [], dlKept = []\<rparr>"
  obtain r where r: "CreateSubscription (\<lambda>_. 0) [116] create_sample 0 new_service_sample = Some (r, created_sample)"
    using create_sample_returns by blast
  then obtain a where a: "r = Inr a" "spSubscriptionID a = 1"
    by (auto simp: CreateSubscription_def Let_def new_service_sample_def created_sample_def split: if_splits option.splits)
  have "svc_ok new_service_sample"
    by (simp add: svc_ok_def new_service_sample_def SubscriptionLimits_validate_def DefaultSubscriptionLimits_def timeMillisecond_def)
  moreover have "ssLimits new_service_sample = DefaultSubscriptionLimits" 
      "map_of (subscriptions created_sample) (spSubscriptionID a) = Some subscription_sample"
    by (simp_all add: new_service_sample_def created_sample_def a(2))
  ultimately show "delivery_start DefaultSubscriptionLimits ?d"
    unfolding delivery_start_def using r [unfolded a(1)] by (simp, blast)
  have "same_delivery (dlSub ?d) (dlSub delivery_sample)" "items_ok (dlSub delivery_sample)"
    by (simp_all add: same_delivery_def delivery_sample_def items_ok_def table_wf_def unreadable_sample_def)
  from delivery_step.requested [OF this, of outside rt DefaultSubscriptionLimits]
  show "delivery_step outside rt DefaultSubscriptionLimits ?d delivery_sample" by (simp add: delivery_sample_def)
qed


end
