(* ===== verification/Listener.thy ===== *)
theory Listener
  imports Browsing Publishing
begin

text \<open>
  The connections of the UA listener, from \<^verbatim>\<open>src/internal/opcua/listener.go\<close>: the message loop of a
  connection, secure messages and their chunks, and the dispatch of a request to the services that
  the theories below this one model. A listener is one record of those services. The reads of a
  connection are a byte string and its writes a list of byte strings. What the code asks of the
  outside during one message, times, random bytes, iteration orders and whether the socket takes a
  write, is a record of arguments, \<open>turn\<close>.
\<close>

section \<open>Configuration\<close>

definition StatusBadSecurityPolicyRejected :: StatusCode where "StatusBadSecurityPolicyRejected = 0x80550000"
definition StatusBadSessionNotActivated :: StatusCode where "StatusBadSessionNotActivated = 0x80270000"
definition StatusBadResponseTooLarge :: StatusCode where "StatusBadResponseTooLarge = 0x80B90000"
definition StatusBadTooManyPublishRequests :: StatusCode where "StatusBadTooManyPublishRequests = 0x80780000"

record ListenerConfig =
  lcReceiveBufferSize :: uint32
  lcSendBufferSize :: uint32
  lcMaxMessageSize :: uint32
  lcMaxChunkCount :: uint32
  HelloTimeout :: int
  ReadTimeout :: int
  WriteTimeout :: int
  MaxConnections :: int
  lcBinary :: BinaryLimits
  lcChannels :: ChannelLimits
  lcSessions :: SessionLimits
  lcBrowse :: BrowseLimits
  lcDataAccess :: DataAccessLimits
  lcPopulation :: PopulationLimits
  lcSubscriptions :: SubscriptionLimits
  lcAddressSpace :: AddressSpaceConfig
  lcEndpoint :: EndpointConfig

text \<open>The endpoint and the address space have no default; they are arguments.\<close>

definition DefaultListenerConfig :: "AddressSpaceConfig \<Rightarrow> EndpointConfig \<Rightarrow> ListenerConfig" where
  "DefaultListenerConfig space endpoint = \<lparr>lcReceiveBufferSize = 65536, lcSendBufferSize = 65536,
     lcMaxMessageSize = push_bit 20 1, lcMaxChunkCount = 32, HelloTimeout = 30 * 10 ^ 9, ReadTimeout = 60 * 10 ^ 9,
     WriteTimeout = 30 * 10 ^ 9, MaxConnections = 16, lcBinary = DefaultBinaryLimits, lcChannels = DefaultChannelLimits,
     lcSessions = DefaultSessionLimits, lcBrowse = DefaultBrowseLimits, lcDataAccess = DefaultDataAccessLimits,
     lcPopulation = DefaultPopulationLimits, lcSubscriptions = DefaultSubscriptionLimits, lcAddressSpace = space,
     lcEndpoint = endpoint\<rparr>"

definition maximumHelloTimeout :: int where "maximumHelloTimeout = 120 * 10 ^ 9"

definition config_addressSpace :: "ListenerConfig \<Rightarrow> AddressSpaceConfig" where
  "config_addressSpace config = (let
     resolved = (lcAddressSpace config)\<lparr>acApplicationURI := ecApplicationURI (lcEndpoint config)\<rparr>;
     resolved = (if acProductURI resolved = [] then resolved\<lparr>acProductURI := ecProductURI (lcEndpoint config)\<rparr> else resolved)
     in if ProductName resolved = [] then resolved\<lparr>ProductName := ecApplicationName (lcEndpoint config)\<rparr> else resolved)"

definition ListenerConfig_validate :: "ListenerConfig \<Rightarrow> go_error option" where
  "ListenerConfig_validate config =
     (if lcReceiveBufferSize config < MinimumBufferSize \<or> lcSendBufferSize config < MinimumBufferSize then Some PlainError
      else if HelloTimeout config \<le> 0 \<or> ReadTimeout config \<le> 0 \<or> WriteTimeout config \<le> 0 then Some PlainError
      else if HelloTimeout config > maximumHelloTimeout then Some PlainError
      else if MaxConnections config \<le> 0 then Some PlainError
      else if (ucast (lcReceiveBufferSize config) :: uint64) > of_int (MaxMessageBytes (lcBinary config)) \<or>
        (ucast (lcSendBufferSize config) :: uint64) > of_int (MaxMessageBytes (lcBinary config)) then Some PlainError
      else case validate_limits (lcBinary config) of Some er \<Rightarrow> Some er | None \<Rightarrow>
      (case ChannelLimits_validate (lcChannels config) of Some er \<Rightarrow> Some er | None \<Rightarrow>
      (case SessionLimits_validate (lcSessions config) of Some er \<Rightarrow> Some er | None \<Rightarrow>
      (case BrowseLimits_validate (lcBrowse config) of Some er \<Rightarrow> Some er | None \<Rightarrow>
      (case DataAccessLimits_validate (lcDataAccess config) of Some er \<Rightarrow> Some er | None \<Rightarrow>
      (case PopulationLimits_validate (lcPopulation config) of Some er \<Rightarrow> Some er | None \<Rightarrow>
      (case SubscriptionLimits_validate (lcSubscriptions config) of Some er \<Rightarrow> Some er | None \<Rightarrow>
      (case EndpointConfig_validate (lcEndpoint config) of Some er \<Rightarrow> Some er | None \<Rightarrow>
         AddressSpaceConfig_validate (config_addressSpace config)))))))))"

section \<open>The listener\<close>

text \<open>
  The DA runtime is absent (\<^verbatim>\<open>nil\<close>) when \<open>lsData\<close> is None; without it no operation reaches \<open>lsPopulator\<close>.
  \<open>lsWorld\<close> is the state of the DA runtime.
\<close>

record 'w Listener =
  lsConfig :: ListenerConfig
  lsRegistry :: ChannelRegistry
  lsEndpoints :: EndpointService
  lsSessions :: SessionRegistry
  lsSpace :: AddressSpace
  lsBrowse :: BrowseService
  lsData :: "DataAccessLimits option"
  lsPopulator :: Populator
  lsSubs :: "SubscriptionService option"
  lsWorld :: 'w

definition serverLimits :: "ListenerConfig \<Rightarrow> ServerLimits" where
  "serverLimits config = \<lparr>MinPublishingInterval = slMinPublishingInterval (lcSubscriptions config),
     MaxBrowseContinuationPoints = MaxContinuationPoints (lcBrowse config),
     MaxNodesPerRead = dlMaxNodesPerRead (lcDataAccess config), MaxNodesPerWrite = dlMaxNodesPerWrite (lcDataAccess config),
     MaxNodesPerBrowse = blMaxNodesPerBrowse (lcBrowse config)\<rparr>"

definition NewListenerWithRuntime ::
  "ListenerConfig \<Rightarrow> bool \<Rightarrow> uint32 \<Rightarrow> uint32 \<Rightarrow> gotime \<Rightarrow> 'w \<Rightarrow> go_error + 'w Listener" where
  "NewListenerWithRuntime config attached channelIDSeed tokenIDSeed now w =
     (case ListenerConfig_validate config of Some er \<Rightarrow> Inl er | None \<Rightarrow>
     (case NewChannelRegistry (lcChannels config) channelIDSeed tokenIDSeed of Inl er \<Rightarrow> Inl er | Inr registry \<Rightarrow>
     (case NewEndpointService (lcEndpoint config) of Inl er \<Rightarrow> Inl er | Inr endpoints \<Rightarrow>
     (case NewSessionRegistry (lcSessions config) of Inl er \<Rightarrow> Inl er | Inr sessions \<Rightarrow>
     (case NewAddressSpace ((config_addressSpace config)\<lparr>acLimits := serverLimits config\<rparr>) now of Inl er \<Rightarrow> Inl er | Inr space \<Rightarrow>
     (case NewBrowseService (lcBrowse config) of Inl er \<Rightarrow> Inl er | Inr browse \<Rightarrow>
       let listener = \<lparr>lsConfig = config, lsRegistry = registry, lsEndpoints = endpoints, lsSessions = sessions,
         lsSpace = space, lsBrowse = browse, lsData = None,
         lsPopulator = \<lparr>poLimits = lcPopulation config, browsed = Map.empty, inflight = Map.empty\<rparr>,
         lsSubs = None, lsWorld = w\<rparr>
       in if \<not> attached then Inr listener
          else case DataAccessLimits_validate (lcDataAccess config) of Some er \<Rightarrow> Inl er | None \<Rightarrow>
            (case NewPopulator (lcPopulation config) of Inl er \<Rightarrow> Inl er | Inr populator \<Rightarrow>
            (case NewSubscriptionService (lcSubscriptions config) channelIDSeed of Inl er \<Rightarrow> Inl er | Inr subs \<Rightarrow>
              Inr (listener\<lparr>lsData := Some (lcDataAccess config), lsPopulator := populator, lsBrowse := AttachPopulator browse,
                lsSubs := Some subs\<rparr>)))))))))"

section \<open>What the outside gives\<close>

record 'w world =
  woOutside :: "float64 \<Rightarrow> int"
  woFormat :: "Variant \<Rightarrow> gostring"
  woRuntime :: "'w Runtime"
  woGroups :: "'w SubscriptionRuntime"

record 'w turn =
  tuAccept :: gotime
  tuNow :: gotime
  tuFault :: gotime
  tuRandom1 :: "byte list option"
  tuRandom2 :: "byte list option"
  tuAwait :: "nat \<Rightarrow> 'w populating \<Rightarrow> 'w populating option"
  tuRank :: "nat \<Rightarrow> gostring \<Rightarrow> nat"
  tuRandoms :: "nat \<Rightarrow> byte list option"
  tuChannels :: "nat \<Rightarrow> nat"
  tuOrder :: map_order
  tuWritten :: "go_error option"

section \<open>Sessions\<close>

text \<open>The hook that \<^verbatim>\<open>NewListenerWithRuntime\<close> registers for the end of a session.\<close>

definition endSession :: "'w world \<Rightarrow> 'w turn \<Rightarrow> SessionInfo \<Rightarrow> 'w Listener \<Rightarrow> 'w Listener" where
  "endSession wo tu info l = (case lsSubs l of
       None \<Rightarrow> l
     | Some subs \<Rightarrow> (case subscription_ReleaseSession (tuOrder tu) (woGroups wo) (SessionInfo_Key info) (subs, lsWorld l) of
         (subs, w) \<Rightarrow> l\<lparr>lsSubs := Some subs, lsWorld := w,
           lsBrowse := snd (ReleaseSession (SessionInfo_Key info) (lsBrowse l))\<rparr>))"

definition endSessions :: "'w world \<Rightarrow> 'w turn \<Rightarrow> SessionInfo list \<Rightarrow> 'w Listener \<Rightarrow> 'w Listener" where
  "endSessions wo tu ended l = fold (endSession wo tu) ended l"

definition sessionSecurity :: "uint32 \<Rightarrow> 'w Listener \<Rightarrow> go_error + SessionSecurity" where
  "sessionSecurity channelID l = (case Lookup channelID (lsRegistry l) of
       Inl er \<Rightarrow> Inl er
     | Inr channel \<Rightarrow> Inr \<lparr>ssMode = ciSecurityMode channel, ssPolicyURI = ecSecurityPolicyURI (lcEndpoint (lsConfig l)),
         ssAnonymousIdentityOnly = AnonymousIdentityOnly (lsEndpoints l)\<rparr>)"

definition activatedSession ::
  "'w world \<Rightarrow> 'w turn \<Rightarrow> RequestHeader \<Rightarrow> uint32 \<Rightarrow> 'w Listener \<Rightarrow> (go_error + gostring) \<times> 'w Listener" where
  "activatedSession wo tu header channelID l =
     (case session_Lookup (woOutside wo) (AuthenticationToken header) channelID (tuNow tu) (lsSessions l) of
        (found, ended, sessions) \<Rightarrow>
          let l = endSessions wo tu ended (l\<lparr>lsSessions := sessions\<rparr>)
          in case found of
              Inl er \<Rightarrow> (Inl er, l)
            | Inr info \<Rightarrow> if \<not> siActivated info then (Inl (uacpError StatusBadSessionNotActivated), l)
                else (Inr (SessionInfo_Key info), l))"

section \<open>Dispatch\<close>

text \<open>
  What \<^verbatim>\<open>dispatchService\<close> reports: an encoded response, a service failure with the request handle to
  echo, or an error that closes the connection. None when a service does not return.
\<close>

datatype service_outcome = Answer "byte list" | Fault uint32 go_error | Fatal go_error

type_synonym 'w dispatched = "(service_outcome \<times> 'w Listener) option"

definition errNoDataSource :: go_error where "errNoDataSource = CodecError StatusBadNotConnected"

definition answer :: "(Encoder \<Rightarrow> Encoder) \<Rightarrow> Encoder \<Rightarrow> service_outcome" where
  "answer write encoder = (case Bytes (write encoder) of Inl er \<Rightarrow> Fatal er | Inr body \<Rightarrow> Answer body)"

text \<open>The steps the cases share: decoding the request, requiring its session, requiring the source.\<close>

definition decoded :: "'q reader \<Rightarrow> Decoder \<Rightarrow> 'w Listener \<Rightarrow> ('q \<Rightarrow> 'w dispatched) \<Rightarrow> 'w dispatched" where
  "decoded reader decoder l serve = (case reader decoder of
       Inl er \<Rightarrow> Some (Fatal er, l) | Inr (request, _) \<Rightarrow> serve request)"

definition inSession ::
  "'w world \<Rightarrow> 'w turn \<Rightarrow> RequestHeader \<Rightarrow> uint32 \<Rightarrow> 'w Listener \<Rightarrow> (gostring \<Rightarrow> 'w Listener \<Rightarrow> 'w dispatched) \<Rightarrow> 'w dispatched" where
  "inSession wo tu header channelID l serve = (case activatedSession wo tu header channelID l of
       (Inl er, l) \<Rightarrow> Some (Fault (rqRequestHandle header) er, l)
     | (Inr session, l) \<Rightarrow> serve session l)"

definition withData :: "RequestHeader \<Rightarrow> 'w Listener \<Rightarrow> (DataAccessLimits \<Rightarrow> 'w dispatched) \<Rightarrow> 'w dispatched" where
  "withData header l serve = (case lsData l of
       None \<Rightarrow> Some (Fault (rqRequestHandle header) errNoDataSource, l) | Some limits \<Rightarrow> serve limits)"

definition withSubs :: "RequestHeader \<Rightarrow> 'w Listener \<Rightarrow> (SubscriptionService \<Rightarrow> 'w dispatched) \<Rightarrow> 'w dispatched" where
  "withSubs header l serve = (case lsSubs l of
       None \<Rightarrow> Some (Fault (rqRequestHandle header) errNoDataSource, l) | Some subs \<Rightarrow> serve subs)"

definition replied ::
  "RequestHeader \<Rightarrow> Encoder \<Rightarrow> ('p \<Rightarrow> Encoder \<Rightarrow> Encoder) \<Rightarrow> go_error + 'p \<Rightarrow> 'w Listener \<Rightarrow> 'w dispatched" where
  "replied header encoder write r l = (case r of
       Inl er \<Rightarrow> Some (Fault (rqRequestHandle header) er, l)
     | Inr response \<Rightarrow> Some (answer (write response) encoder, l))"

definition serveGetEndpoints :: "'w turn \<Rightarrow> Encoder \<Rightarrow> Decoder \<Rightarrow> 'w Listener \<Rightarrow> 'w dispatched" where
  "serveGetEndpoints tu encoder decoder l = decoded ReadGetEndpointsRequest decoder l (\<lambda>request.
     Some (answer (WriteGetEndpointsResponse (GetEndpoints (lsEndpoints l) request (tuNow tu))) encoder, l))"

definition serveCreateSession :: "'w world \<Rightarrow> 'w turn \<Rightarrow> uint32 \<Rightarrow> Encoder \<Rightarrow> Decoder \<Rightarrow> 'w Listener \<Rightarrow> 'w dispatched" where
  "serveCreateSession wo tu channelID encoder decoder l = decoded ReadCreateSessionRequest decoder l (\<lambda>request.
     case sessionSecurity channelID l of
         Inl er \<Rightarrow> Some (Fault (rqRequestHandle (csqHeader request)) er, l)
       | Inr security \<Rightarrow> (case session_Create (woOutside wo) (tuRandom1 tu) (tuRandom2 tu) channelID security request (tuNow tu) (lsSessions l) of
           (Inl er, sessions) \<Rightarrow> Some (Fault (rqRequestHandle (csqHeader request)) er, l\<lparr>lsSessions := sessions\<rparr>)
         | (Inr (session, serverNonce), sessions) \<Rightarrow>
             Some (answer (WriteCreateSessionResponse
               \<lparr>cspHeader = plain_response (tuNow tu) (rqRequestHandle (csqHeader request)) StatusGood,
                cspSessionID = SessionInfo.siID session, cspAuthenticationToken = siToken session,
                RevisedSessionTimeout = siTimeout session, cspServerNonce = serverNonce, ServerCertificate = [],
                ServerEndpoints = [esEndpoint (lsEndpoints l)], ServerSoftwareCertificates = [],
                ServerSignature = \<lparr>Algorithm = [], sdSignature = []\<rparr>,
                MaxRequestMessageSize = lcMaxMessageSize (lsConfig l)\<rparr>) encoder, l\<lparr>lsSessions := sessions\<rparr>)))"

definition serveActivateSession :: "'w world \<Rightarrow> 'w turn \<Rightarrow> uint32 \<Rightarrow> Encoder \<Rightarrow> Decoder \<Rightarrow> 'w Listener \<Rightarrow> 'w dispatched" where
  "serveActivateSession wo tu channelID encoder decoder l = decoded ReadActivateSessionRequest decoder l (\<lambda>request.
     case sessionSecurity channelID l of
         Inl er \<Rightarrow> Some (Fault (rqRequestHandle (asqHeader request)) er, l)
       | Inr security \<Rightarrow> (case session_Activate (woOutside wo) (tuRandom1 tu) (AuthenticationToken (asqHeader request)) channelID
             security request (AnonymousPolicyID (lcEndpoint (lsConfig l))) (tuNow tu) (lsSessions l) of
           (r, ended, sessions) \<Rightarrow>
             let l = endSessions wo tu ended (l\<lparr>lsSessions := sessions\<rparr>)
             in replied (asqHeader request) encoder (\<lambda>serverNonce. WriteActivateSessionResponse
                  \<lparr>aspHeader = plain_response (tuNow tu) (rqRequestHandle (asqHeader request)) StatusGood,
                   aspServerNonce = serverNonce, aspResults = [], aspDiagnostics = []\<rparr>) r l))"

definition serveCloseSession :: "'w world \<Rightarrow> 'w turn \<Rightarrow> uint32 \<Rightarrow> Encoder \<Rightarrow> Decoder \<Rightarrow> 'w Listener \<Rightarrow> 'w dispatched" where
  "serveCloseSession wo tu channelID encoder decoder l = decoded ReadCloseSessionRequest decoder l (\<lambda>request.
     case session_Close (woOutside wo) (AuthenticationToken (clqHeader request)) channelID (tuNow tu) (lsSessions l) of
       (er, ended, sessions) \<Rightarrow>
         let l = endSessions wo tu ended (l\<lparr>lsSessions := sessions\<rparr>)
         in case er of
             Some er \<Rightarrow> Some (Fault (rqRequestHandle (clqHeader request)) er, l)
           | None \<Rightarrow> Some (answer (WriteCloseSessionResponse
               \<lparr>clpHeader = plain_response (tuNow tu) (rqRequestHandle (clqHeader request)) StatusGood\<rparr>) encoder, l))"

definition serveBrowse :: "'w world \<Rightarrow> 'w turn \<Rightarrow> uint32 \<Rightarrow> Encoder \<Rightarrow> Decoder \<Rightarrow> 'w Listener \<Rightarrow> 'w dispatched" where
  "serveBrowse wo tu channelID encoder decoder l = decoded ReadBrowseRequest decoder l (\<lambda>request.
     inSession wo tu (bqHeader request) channelID l (\<lambda>session l.
       case Service_Browse (tuAwait tu) (woRuntime wo) (tuRank tu) (tuRandoms tu) (tuChannels tu) session request (tuNow tu)
           (lsBrowse l, lsPopulator l, lsSpace l, lsWorld l) of
         (r, browse, populator, space, w) \<Rightarrow> replied (bqHeader request) encoder WriteBrowseResponse r
           (l\<lparr>lsBrowse := browse, lsPopulator := populator, lsSpace := space, lsWorld := w\<rparr>)))"

definition serveBrowseNext :: "'w world \<Rightarrow> 'w turn \<Rightarrow> uint32 \<Rightarrow> Encoder \<Rightarrow> Decoder \<Rightarrow> 'w Listener \<Rightarrow> 'w dispatched" where
  "serveBrowseNext wo tu channelID encoder decoder l = decoded ReadBrowseNextRequest decoder l (\<lambda>request.
     inSession wo tu (nqHeader request) channelID l (\<lambda>session l.
       case Service_BrowseNext (tuRandoms tu) session request (tuNow tu) (lsBrowse l) of
         (r, browse) \<Rightarrow> replied (nqHeader request) encoder WriteBrowseNextResponse r (l\<lparr>lsBrowse := browse\<rparr>)))"

definition serveRead :: "'w world \<Rightarrow> 'w turn \<Rightarrow> uint32 \<Rightarrow> Encoder \<Rightarrow> Decoder \<Rightarrow> 'w Listener \<Rightarrow> 'w dispatched" where
  "serveRead wo tu channelID encoder decoder l = decoded ReadReadRequest decoder l (\<lambda>request.
     inSession wo tu (rqHeader request) channelID l (\<lambda>session l. withData (rqHeader request) l (\<lambda>limits.
       case Service_Read (woFormat wo) (woRuntime wo) limits request (tuNow tu) (lsSpace l, lsWorld l) of
         (r, space, w) \<Rightarrow> replied (rqHeader request) encoder WriteReadResponse r (l\<lparr>lsSpace := space, lsWorld := w\<rparr>))))"

definition serveWrite :: "'w world \<Rightarrow> 'w turn \<Rightarrow> uint32 \<Rightarrow> Encoder \<Rightarrow> Decoder \<Rightarrow> 'w Listener \<Rightarrow> 'w dispatched" where
  "serveWrite wo tu channelID encoder decoder l = decoded ReadWriteRequest decoder l (\<lambda>request.
     inSession wo tu (wqHeader request) channelID l (\<lambda>session l. withData (wqHeader request) l (\<lambda>limits.
       case Service_Write (woRuntime wo) limits request (tuNow tu) (lsSpace l, lsWorld l) of
         (r, space, w) \<Rightarrow> replied (wqHeader request) encoder WriteWriteResponse r (l\<lparr>lsSpace := space, lsWorld := w\<rparr>))))"

definition serveCreateSubscription :: "'w world \<Rightarrow> 'w turn \<Rightarrow> uint32 \<Rightarrow> Encoder \<Rightarrow> Decoder \<Rightarrow> 'w Listener \<Rightarrow> 'w dispatched" where
  "serveCreateSubscription wo tu channelID encoder decoder l = decoded ReadCreateSubscriptionRequest decoder l (\<lambda>request.
     inSession wo tu (sqHeader request) channelID l (\<lambda>session l. withSubs (sqHeader request) l (\<lambda>subs.
       case CreateSubscription (woOutside wo) session request (tuNow tu) subs of
         None \<Rightarrow> None
       | Some (r, subs) \<Rightarrow> replied (sqHeader request) encoder WriteCreateSubscriptionResponse r (l\<lparr>lsSubs := Some subs\<rparr>))))"

definition serveCreateMonitoredItems :: "'w world \<Rightarrow> 'w turn \<Rightarrow> uint32 \<Rightarrow> Encoder \<Rightarrow> Decoder \<Rightarrow> 'w Listener \<Rightarrow> 'w dispatched" where
  "serveCreateMonitoredItems wo tu channelID encoder decoder l = decoded ReadCreateMonitoredItemsRequest decoder l (\<lambda>request.
     inSession wo tu (iqHeader request) channelID l (\<lambda>session l. withSubs (iqHeader request) l (\<lambda>subs.
       case CreateMonitoredItems (woOutside wo) (tuOrder tu) (woGroups wo) session request (tuNow tu) (subs, lsSpace l, lsWorld l) of
         (r, subs, space, w) \<Rightarrow> replied (iqHeader request) encoder WriteCreateMonitoredItemsResponse r
           (l\<lparr>lsSubs := Some subs, lsSpace := space, lsWorld := w\<rparr>))))"

definition serveDeleteMonitoredItems :: "'w world \<Rightarrow> 'w turn \<Rightarrow> uint32 \<Rightarrow> Encoder \<Rightarrow> Decoder \<Rightarrow> 'w Listener \<Rightarrow> 'w dispatched" where
  "serveDeleteMonitoredItems wo tu channelID encoder decoder l = decoded ReadDeleteMonitoredItemsRequest decoder l (\<lambda>request.
     inSession wo tu (xqHeader request) channelID l (\<lambda>session l. withSubs (xqHeader request) l (\<lambda>subs.
       case DeleteMonitoredItems (woOutside wo) (tuOrder tu) (woGroups wo) session request (tuNow tu) (subs, lsSpace l, lsWorld l) of
         (r, subs, space, w) \<Rightarrow> replied (xqHeader request) encoder WriteDeleteMonitoredItemsResponse r
           (l\<lparr>lsSubs := Some subs, lsSpace := space, lsWorld := w\<rparr>))))"

definition serveDeleteSubscriptions :: "'w world \<Rightarrow> 'w turn \<Rightarrow> uint32 \<Rightarrow> Encoder \<Rightarrow> Decoder \<Rightarrow> 'w Listener \<Rightarrow> 'w dispatched" where
  "serveDeleteSubscriptions wo tu channelID encoder decoder l = decoded ReadDeleteSubscriptionsRequest decoder l (\<lambda>request.
     inSession wo tu (dqHeader request) channelID l (\<lambda>session l. withSubs (dqHeader request) l (\<lambda>subs.
       case Subscriptions.DeleteSubscriptions (woGroups wo) session request (tuNow tu) (subs, lsWorld l) of
         (r, subs, w) \<Rightarrow> replied (dqHeader request) encoder WriteDeleteSubscriptionsResponse r
           (l\<lparr>lsSubs := Some subs, lsWorld := w\<rparr>))))"

definition serveRepublish :: "'w world \<Rightarrow> 'w turn \<Rightarrow> uint32 \<Rightarrow> Encoder \<Rightarrow> Decoder \<Rightarrow> 'w Listener \<Rightarrow> 'w dispatched" where
  "serveRepublish wo tu channelID encoder decoder l = decoded ReadRepublishRequest decoder l (\<lambda>request.
     inSession wo tu (rbHeader request) channelID l (\<lambda>session l. withSubs (rbHeader request) l (\<lambda>subs.
       case Republish session request (tuNow tu) subs of
         (r, subs) \<Rightarrow> replied (rbHeader request) encoder WriteRepublishResponse r (l\<lparr>lsSubs := Some subs\<rparr>))))"

definition serveSetPublishingMode :: "'w world \<Rightarrow> 'w turn \<Rightarrow> uint32 \<Rightarrow> Encoder \<Rightarrow> Decoder \<Rightarrow> 'w Listener \<Rightarrow> 'w dispatched" where
  "serveSetPublishingMode wo tu channelID encoder decoder l = decoded ReadSetPublishingModeRequest decoder l (\<lambda>request.
     inSession wo tu (pqHeader request) channelID l (\<lambda>session l. withSubs (pqHeader request) l (\<lambda>subs.
       case SetPublishingMode session request (tuNow tu) subs of
         (r, subs) \<Rightarrow> replied (pqHeader request) encoder WriteSetPublishingModeResponse r (l\<lparr>lsSubs := Some subs\<rparr>))))"

definition dispatchService ::
  "'w world \<Rightarrow> 'w turn \<Rightarrow> uint32 \<Rightarrow> uint32 \<Rightarrow> Decoder \<Rightarrow> 'w Listener \<Rightarrow> 'w dispatched" where
  "dispatchService wo tu channelID identifier decoder l = (case NewEncoder (lcBinary (lsConfig l)) of
       Inl er \<Rightarrow> Some (Fatal er, l)
     | Inr encoder \<Rightarrow>
         if identifier = GetEndpointsRequestEncodingID then serveGetEndpoints tu encoder decoder l
         else if identifier = CreateSessionRequestEncodingID then serveCreateSession wo tu channelID encoder decoder l
         else if identifier = ActivateSessionRequestEncodingID then serveActivateSession wo tu channelID encoder decoder l
         else if identifier = CloseSessionRequestEncodingID then serveCloseSession wo tu channelID encoder decoder l
         else if identifier = BrowseRequestEncodingID then serveBrowse wo tu channelID encoder decoder l
         else if identifier = BrowseNextRequestEncodingID then serveBrowseNext wo tu channelID encoder decoder l
         else if identifier = ReadRequestEncodingID then serveRead wo tu channelID encoder decoder l
         else if identifier = WriteRequestEncodingID then serveWrite wo tu channelID encoder decoder l
         else if identifier = CreateSubscriptionRequestEncodingID then serveCreateSubscription wo tu channelID encoder decoder l
         else if identifier = CreateMonitoredItemsRequestEncodingID then serveCreateMonitoredItems wo tu channelID encoder decoder l
         else if identifier = DeleteMonitoredItemsRequestEncodingID then serveDeleteMonitoredItems wo tu channelID encoder decoder l
         else if identifier = DeleteSubscriptionsRequestEncodingID then serveDeleteSubscriptions wo tu channelID encoder decoder l
         else if identifier = RepublishRequestEncodingID then serveRepublish wo tu channelID encoder decoder l
         else if identifier = SetPublishingModeRequestEncodingID then serveSetPublishingMode wo tu channelID encoder decoder l
         else Some (answer (WriteServiceFault (NewServiceFault 0 StatusBadServiceUnsupported (tuNow tu))) encoder, l))"

section \<open>Connections\<close>

text \<open>
  \<open>csVersion\<close> is the protocol version of the \<^verbatim>\<open>ChannelService\<close>, whose registry is the listener's. \<open>csOutput\<close>
  is what was written to the socket. Before the Hello the two sequences are \<^verbatim>\<open>nil\<close> in Go and are not used.
\<close>

record connectionState =
  negotiated :: bool
  receiveSize :: uint32
  sendSize :: uint32
  incoming :: ChunkAccumulator
  csMaxMessageSize :: uint32
  csVersion :: uint32
  receiveSequence :: SequenceValidator
  sendSequence :: SequenceValidator
  csChannelID :: uint32
  publishing :: int
  csOutput :: "byte list list"

definition newConnection :: "ListenerConfig \<Rightarrow> connectionState" where
  "newConnection config = \<lparr>negotiated = False, receiveSize = lcReceiveBufferSize config, sendSize = lcSendBufferSize config,
     incoming = NewChunkAccumulator 0 (of_int (MaxMessageBytes (lcBinary config))) StatusBadRequestTooLarge,
     csMaxMessageSize = lcMaxMessageSize config, csVersion = 0,
     receiveSequence = NewSequenceValidator SequenceNumberingLegacy, sendSequence = NewSequenceValidator SequenceNumberingLegacy,
     csChannelID = 0, publishing = 0, csOutput = []\<rparr>"

text \<open>A connection and the listener it belongs to. An operation reports the error that ends the connection.\<close>

type_synonym 'w served = "connectionState \<times> 'w Listener"

definition errConnectionFinished :: go_error where "errConnectionFinished = PlainError"

definition conn_write :: "'w turn \<Rightarrow> byte list \<Rightarrow> connectionState \<Rightarrow> go_error option \<times> connectionState" where
  "conn_write tu data state = (case tuWritten tu of
       Some er \<Rightarrow> (Some er, state) | None \<Rightarrow> (None, state\<lparr>csOutput := csOutput state @ [data]\<rparr>))"

definition writeMessage ::
  "ListenerConfig \<Rightarrow> 'w turn \<Rightarrow> MessageType \<Rightarrow> byte \<Rightarrow> byte list \<Rightarrow> connectionState \<Rightarrow> go_error option \<times> connectionState" where
  "writeMessage config tu messageType chunk body state =
     (case EncodeMessageHeader messageType chunk (int (length body)) (lcSendBufferSize config) of
        Inl er \<Rightarrow> (Some er, state) | Inr header \<Rightarrow> conn_write tu (header @ body) state)"

definition securityHeader ::
  "ListenerConfig \<Rightarrow> ChannelSecurityToken \<Rightarrow> gostring \<Rightarrow> bool \<Rightarrow> Encoder \<Rightarrow> go_error + Encoder" where
  "securityHeader config token securityPolicyURI asymmetric encoder =
     (if asymmetric then
        (case EncodeAsymmetricSecurityHeader \<lparr>SecurityPolicyURI = securityPolicyURI, SenderCertificate = [],
             ReceiverCertificateThumbprint = []\<rparr> 0 (lcBinary config) of
           Inl er \<Rightarrow> Inl er | Inr security \<Rightarrow> Inr (ewrite security encoder))
      else Inr (WriteUInt32 (TokenID token) encoder))"

definition writeSecureMessage ::
  "ListenerConfig \<Rightarrow> 'w turn \<Rightarrow> MessageType \<Rightarrow> ChannelSecurityToken \<Rightarrow> uint32 \<Rightarrow> byte list \<Rightarrow> gostring \<Rightarrow> bool \<Rightarrow>
     connectionState \<Rightarrow> go_error option \<times> connectionState" where
  "writeSecureMessage config tu messageType token requestID serviceBody securityPolicyURI asymmetric state =
     (case NewEncoder (lcBinary config) of Inl er \<Rightarrow> (Some er, state) | Inr encoder \<Rightarrow>
     (case securityHeader config token securityPolicyURI asymmetric encoder of Inl er \<Rightarrow> (Some er, state) | Inr encoder \<Rightarrow>
       let (number, sequence) = sequence_next (sendSequence state);
           state = state\<lparr>sendSequence := sequence\<rparr>
       in case Bytes (seqw [WriteUInt32 number, WriteUInt32 requestID, ewrite serviceBody] encoder) of
           Inl er \<Rightarrow> (Some er, state)
         | Inr body \<Rightarrow>
             if csMaxMessageSize state > 0 \<and> int (length serviceBody) > uint (csMaxMessageSize state) then
               (Some (uacpError StatusBadResponseTooLarge), state)
             else case EncodeSecureConversationHeader \<lparr>scType = messageType, scChunk = ChunkFinal, scSize = 0,
                 scChannelID = SecureChannelID token\<rparr> (int (length body)) (sendSize state) of
               Inl er \<Rightarrow> (Some er, state) | Inr header \<Rightarrow> conn_write tu (header @ body) state))"

definition fault_status :: "go_error \<Rightarrow> StatusCode" where
  "fault_status er = (case er of CodecError status \<Rightarrow> status | _ \<Rightarrow> StatusBadInternalError)"

record secureMessageParts =
  smChannelID :: uint32
  smToken :: ChannelSecurityToken
  smSequence :: SequenceHeader
  smPayload :: "byte list"
  smSecurityPolicyURI :: gostring

definition writeServiceFault ::
  "ListenerConfig \<Rightarrow> 'w turn \<Rightarrow> secureMessageParts \<Rightarrow> uint32 \<Rightarrow> go_error \<Rightarrow> connectionState \<Rightarrow> go_error option \<times> connectionState" where
  "writeServiceFault config tu parts requestHandle er state =
     (case encode_with (WriteServiceFault (NewServiceFault requestHandle (fault_status er) (tuFault tu))) (lcBinary config) of
        Inl er \<Rightarrow> (Some er, state)
      | Inr body \<Rightarrow> writeSecureMessage config tu MessageTypeSecure (smToken parts) (RequestID (smSequence parts)) body [] False state)"

text \<open>\<open>reason\<close> is the text of an error, which is not modelled.\<close>

definition writeProtocolError ::
  "ListenerConfig \<Rightarrow> 'w turn \<Rightarrow> (go_error \<Rightarrow> gostring) \<Rightarrow> go_error \<Rightarrow> connectionState \<Rightarrow> connectionState" where
  "writeProtocolError config tu reason cause state = (case cause of
       CodecError status \<Rightarrow> (case EncodeProtocolError \<lparr>peError = status, Reason = reason cause\<rparr> (lcBinary config) of
           Inl er \<Rightarrow> state
         | Inr encoded \<Rightarrow> snd (writeMessage config tu MessageTypeError ChunkFinal encoded state))
     | _ \<Rightarrow> state)"

section \<open>Secure messages\<close>

text \<open>The security header of a chunk: the policy of an OPN, or the token of another message.\<close>

definition readSecurity ::
  "ListenerConfig \<Rightarrow> 'w turn \<Rightarrow> bool \<Rightarrow> uint32 \<Rightarrow> byte list \<Rightarrow> Decoder \<Rightarrow> connectionState \<Rightarrow> ChannelRegistry \<Rightarrow>
     (go_error + ChannelSecurityToken \<times> gostring \<times> int) \<times> ChannelRegistry" where
  "readSecurity config tu asymmetric channelID body decoder state registry =
     (if asymmetric then
        (case DecodeAsymmetricSecurityHeader (drop 4 body)
             (MaxSenderCertificateSize (uint (receiveSize state)) MaxSecurityPolicyURIBytes 0 0) (lcBinary config) of
           Inl er \<Rightarrow> (Inl er, registry)
         | Inr (security, used) \<Rightarrow>
             if SenderCertificate security \<noteq> [] \<or> ReceiverCertificateThumbprint security \<noteq> [] then
               (Inl (uacpError StatusBadSecurityPolicyRejected), registry)
             else if SecurityPolicyURI security \<noteq> ecSecurityPolicyURI (lcEndpoint config) then
               (Inl (uacpError StatusBadSecurityPolicyRejected), registry)
             else (Inr (zeroToken, SecurityPolicyURI security, 4 + used), registry))
      else (case ReadUInt32 decoder of
          Inl er \<Rightarrow> (Inl er, registry)
        | Inr (tokenID, _) \<Rightarrow> (case Accept channelID tokenID (tuAccept tu) registry of
              (Inl er, registry) \<Rightarrow> (Inl er, registry)
            | (Inr channel, registry) \<Rightarrow> (Inr (ciToken channel, [], 8), registry))))"

definition splitSecureMessage ::
  "'w turn \<Rightarrow> bool \<Rightarrow> byte list \<Rightarrow> 'w served \<Rightarrow> (go_error + secureMessageParts) \<times> 'w served" where
  "splitSecureMessage tu asymmetric body = (\<lambda>(state, l). let config = lsConfig l in
     case NewDecoder body (lcBinary config) of Inl er \<Rightarrow> (Inl er, state, l) | Inr decoder \<Rightarrow>
     (case ReadUInt32 decoder of Inl er \<Rightarrow> (Inl er, state, l) | Inr (channelID, decoder) \<Rightarrow>
     (case readSecurity config tu asymmetric channelID body decoder state (lsRegistry l) of
        (Inl er, registry) \<Rightarrow> (Inl er, state, l\<lparr>lsRegistry := registry\<rparr>)
      | (Inr (token, policy, consumed), registry) \<Rightarrow>
          let l = l\<lparr>lsRegistry := registry\<rparr>
          in if int (length body) < consumed + SequenceHeaderSize then (Inl decodingError, state, l)
             else case DecodeSequenceHeader (take (nat SequenceHeaderSize) (drop (nat consumed) body)) (lcBinary config) of
                 Inl er \<Rightarrow> (Inl er, state, l)
               | Inr header \<Rightarrow> (case sequence_accept (SequenceNumber header) (receiveSequence state) of
                     Inl er \<Rightarrow> (Inl er, state, l)
                   | Inr sequence \<Rightarrow> (Inr \<lparr>smChannelID = channelID, smToken = token, smSequence = header,
                       smPayload = drop (nat (consumed + SequenceHeaderSize)) body, smSecurityPolicyURI = policy\<rparr>,
                       state\<lparr>receiveSequence := sequence\<rparr>, l)))))"

definition acceptableRequestBytes :: "ListenerConfig \<Rightarrow> uint32 \<Rightarrow> uint32" where
  "acceptableRequestBytes config announced = (let ceiling = of_int (MaxMessageBytes (lcBinary config))
     in if announced = 0 \<or> announced > ceiling then ceiling else announced)"

section \<open>Handling a message\<close>

text \<open>None when a service does not return.\<close>

type_synonym 'w handled = "(go_error option \<times> 'w served) option"

definition handleHello :: "'w turn \<Rightarrow> byte list \<Rightarrow> 'w served \<Rightarrow> 'w handled" where
  "handleHello tu body = (\<lambda>(state, l). let config = lsConfig l in
     if negotiated state then Some (Some (uacpError StatusBadTcpMessageTypeInvalid), state, l)
     else case DecodeHello body (lcBinary config) of Inl er \<Rightarrow> Some (Some er, state, l) | Inr hello \<Rightarrow>
     (case NegotiateAcknowledge hello (lcReceiveBufferSize config) (lcSendBufferSize config) (lcMaxMessageSize config)
         (lcMaxChunkCount config) of Inl er \<Rightarrow> Some (Some er, state, l) | Inr ack \<Rightarrow>
     (case EncodeAcknowledge ack (lcBinary config) of Inl er \<Rightarrow> Some (Some er, state, l) | Inr encoded \<Rightarrow>
     (case writeMessage config tu MessageTypeAcknowledge ChunkFinal encoded state of
        (Some er, state) \<Rightarrow> Some (Some er, state, l)
      | (None, state) \<Rightarrow> Some (None, state\<lparr>negotiated := True, receiveSize := ackReceive ack, sendSize := ackSend ack,
          csMaxMessageSize := helloMaxMessage hello,
          incoming := NewChunkAccumulator (ackMaxChunks ack) (acceptableRequestBytes config (ackMaxMessage ack)) StatusBadRequestTooLarge,
          csVersion := helloVersion hello, receiveSequence := NewSequenceValidator SequenceNumberingLegacy,
          sendSequence := NewSequenceValidator SequenceNumberingLegacy\<rparr>, l)))))"

text \<open>The payload of an OPN or CLO: its type identifier and its request.\<close>

definition readPayload :: "ListenerConfig \<Rightarrow> byte list \<Rightarrow> uint32 \<Rightarrow> 'q reader \<Rightarrow> go_error + 'q" where
  "readPayload config payload expected reader =
     (case NewDecoder payload (lcBinary config) of Inl er \<Rightarrow> Inl er | Inr decoder \<Rightarrow>
     (case ReadServiceTypeID decoder of Inl er \<Rightarrow> Inl er | Inr (identifier, decoder) \<Rightarrow>
       if identifier \<noteq> expected then Inl (uacpError StatusBadServiceUnsupported)
       else case reader decoder of Inl er \<Rightarrow> Inl er | Inr (request, _) \<Rightarrow> Inr request))"

definition handleOpenChannel :: "'w turn \<Rightarrow> byte list \<Rightarrow> 'w served \<Rightarrow> 'w handled" where
  "handleOpenChannel tu body st =
     (if \<not> negotiated (fst st) then Some (Some (uacpError StatusBadTcpMessageTypeInvalid), st)
      else case splitSecureMessage tu True body st of
          (Inl er, st) \<Rightarrow> Some (Some er, st)
        | (Inr parts, state, l) \<Rightarrow> (let config = lsConfig l in
            case readPayload config (smPayload parts) OpenSecureChannelRequestEncodingID ReadOpenSecureChannelRequest of
                Inl er \<Rightarrow> Some (Some er, state, l)
              | Inr request \<Rightarrow> (case OpenSecureChannel (csVersion state) request (smChannelID parts) (tuNow tu) (lsRegistry l) of
                    None \<Rightarrow> None
                  | Some (Inl er, registry) \<Rightarrow> Some (Some er, state, l\<lparr>lsRegistry := registry\<rparr>)
                  | Some (Inr response, registry) \<Rightarrow> (let
                      l = l\<lparr>lsRegistry := registry\<rparr>;
                      state = state\<lparr>csChannelID := SecureChannelID (SecurityToken response)\<rparr>
                      in case encode_with (WriteOpenSecureChannelResponse response) (lcBinary config) of
                          Inl er \<Rightarrow> Some (Some er, state, l)
                        | Inr serviceBody \<Rightarrow> (case writeSecureMessage config tu MessageTypeOpenChannel (SecurityToken response)
                              (RequestID (smSequence parts)) serviceBody (smSecurityPolicyURI parts) True state of
                            (er, state) \<Rightarrow> Some (er, state, l))))))"

definition handleCloseChannel :: "'w turn \<Rightarrow> byte list \<Rightarrow> 'w served \<Rightarrow> 'w handled" where
  "handleCloseChannel tu body st =
     (if \<not> negotiated (fst st) then Some (Some (uacpError StatusBadTcpMessageTypeInvalid), st)
      else case splitSecureMessage tu False body st of
          (Inl er, st) \<Rightarrow> Some (Some er, st)
        | (Inr parts, state, l) \<Rightarrow>
            (case readPayload (lsConfig l) (smPayload parts) CloseSecureChannelRequestEncodingID ReadCloseSecureChannelRequest of
                Inl er \<Rightarrow> Some (Some er, state, l)
              | Inr request \<Rightarrow> (case CloseSecureChannel request (smChannelID parts) (tuNow tu) (lsRegistry l) of
                    (Inl er, registry) \<Rightarrow> Some (Some er, state, l\<lparr>lsRegistry := registry\<rparr>)
                  | (Inr response, registry) \<Rightarrow> Some (Some errConnectionFinished, state, l\<lparr>lsRegistry := registry\<rparr>))))"

section \<open>Publish\<close>

text \<open>A Publish that is held: what the goroutine that answers it knows.\<close>

record heldPublish =
  hpParts :: secureMessageParts
  hpRequest :: PublishRequest
  hpSession :: gostring
  hpKey :: gostring
  hpNow :: gotime

definition maxOutstandingPublishesPerConnection :: int where "maxOutstandingPublishesPerConnection = 64"

definition publishPrecondition :: "'w Listener \<Rightarrow> go_error option" where
  "publishPrecondition l = (case lsSubs l of None \<Rightarrow> Some errNoDataSource | Some _ \<Rightarrow> None)"

definition faulted ::
  "'w turn \<Rightarrow> secureMessageParts \<Rightarrow> uint32 \<Rightarrow> go_error \<Rightarrow> 'w served \<Rightarrow> go_error option \<times> 'w served" where
  "faulted tu parts handle er = (\<lambda>(state, l). case writeServiceFault (lsConfig l) tu parts handle er state of
     (result, state) \<Rightarrow> (result, state, l))"

definition handlePublish ::
  "'w world \<Rightarrow> 'w turn \<Rightarrow> secureMessageParts \<Rightarrow> Decoder \<Rightarrow> 'w served \<Rightarrow> heldPublish option \<times> go_error option \<times> 'w served" where
  "handlePublish wo tu parts decoder = (\<lambda>(state, l).
     case ReadPublishRequest decoder of Inl er \<Rightarrow> (None, Some er, state, l) | Inr (request, _) \<Rightarrow>
     (let handle = rqRequestHandle (uqHeader request) in
      case publishPrecondition l of Some er \<Rightarrow> (None, faulted tu parts handle er (state, l)) | None \<Rightarrow>
     (case activatedSession wo tu (uqHeader request) (smChannelID parts) l of
        (Inl er, l) \<Rightarrow> (None, faulted tu parts handle er (state, l))
      | (Inr session, l) \<Rightarrow>
          if publishing state + 1 > maxOutstandingPublishesPerConnection then
            (None, faulted tu parts handle (uacpError StatusBadTooManyPublishRequests) (state, l))
          else case BeginRequest (AuthenticationToken (uqHeader request)) (lsSessions l) of
              (None, sessions) \<Rightarrow> (None, faulted tu parts handle (uacpError StatusBadSessionIDInvalid) (state, l\<lparr>lsSessions := sessions\<rparr>))
            | (Some key, sessions) \<Rightarrow> (Some \<lparr>hpParts = parts, hpRequest = request, hpSession = session, hpKey = key, hpNow = tuNow tu\<rparr>,
                None, state\<lparr>publishing := publishing state + 1\<rparr>, l\<lparr>lsSessions := sessions\<rparr>))))"

text \<open>
  The goroutine of a held Publish: \<open>terminated\<close> when the session ended first, \<open>gone\<close> when the
  connection did. The write's own error is dropped. \<open>later\<close> is the time the request is released.
\<close>

definition answerPublish ::
  "'w world \<Rightarrow> 'w turn \<Rightarrow> bool \<Rightarrow> bool \<Rightarrow> publish_cycle list \<Rightarrow> gotime \<Rightarrow> heldPublish \<Rightarrow> 'w served \<Rightarrow> 'w served" where
  "answerPublish wo tu terminated gone cycles later waiting = (\<lambda>(state, l).
     case lsSubs l of None \<Rightarrow> (state, l) | Some subs \<Rightarrow>
     (case Publish (woOutside wo) (woGroups wo) (hpSession waiting) (hpRequest waiting) (hpNow waiting) cycles (subs, lsSpace l, lsWorld l) of
        (result, subs, space, w) \<Rightarrow> (let
          l = l\<lparr>lsSubs := Some subs, lsSpace := space, lsWorld := w\<rparr>;
          handle = rqRequestHandle (uqHeader (hpRequest waiting));
          fault = (\<lambda>er. fst (snd (faulted tu (hpParts waiting) handle er (state, l))));
          state = (case result of
              Some (Inr response) \<Rightarrow> (case encode_with (WritePublishResponse response) (lcBinary (lsConfig l)) of
                  Inl er \<Rightarrow> state
                | Inr body \<Rightarrow> snd (writeSecureMessage (lsConfig l) tu MessageTypeSecure (smToken (hpParts waiting))
                    (RequestID (smSequence (hpParts waiting))) body [] False state))
            | Some (Inl er) \<Rightarrow> if terminated then fault (uacpError StatusBadSessionClosed) else if gone then state else fault er
            | None \<Rightarrow> if terminated then fault (uacpError StatusBadSessionClosed) else state)
          in (state\<lparr>publishing := publishing state - 1\<rparr>, l\<lparr>lsSessions := EndRequest (hpKey waiting) later (lsSessions l)\<rparr>))))"

section \<open>Requests\<close>

definition serviceResponse ::
  "'w turn \<Rightarrow> secureMessageParts \<Rightarrow> service_outcome \<Rightarrow> 'w served \<Rightarrow> go_error option \<times> 'w served" where
  "serviceResponse tu parts outcome = (\<lambda>(state, l). case outcome of
       Fatal er \<Rightarrow> (Some er, state, l)
     | Fault handle er \<Rightarrow> faulted tu parts handle er (state, l)
     | Answer body \<Rightarrow> (case writeSecureMessage (lsConfig l) tu MessageTypeSecure (smToken parts)
           (RequestID (smSequence parts)) body [] False state of (result, state) \<Rightarrow> (result, state, l)))"

definition handleRequest ::
  "'w world \<Rightarrow> 'w turn \<Rightarrow> secureMessageParts \<Rightarrow> byte list \<Rightarrow> 'w served \<Rightarrow> (heldPublish option \<times> go_error option \<times> 'w served) option" where
  "handleRequest wo tu parts payload = (\<lambda>(state, l).
     case NewDecoder payload (lcBinary (lsConfig l)) of Inl er \<Rightarrow> Some (None, Some er, state, l) | Inr decoder \<Rightarrow>
     (case ReadServiceTypeID decoder of Inl er \<Rightarrow> Some (None, Some er, state, l) | Inr (identifier, decoder) \<Rightarrow>
       if identifier = PublishRequestEncodingID then Some (handlePublish wo tu parts decoder (state, l))
       else case dispatchService wo tu (smChannelID parts) identifier decoder l of
           None \<Rightarrow> None
         | Some (outcome, l) \<Rightarrow> Some (None, serviceResponse tu parts outcome (state, l))))"

definition handleSecureMessage ::
  "'w world \<Rightarrow> 'w turn \<Rightarrow> byte \<Rightarrow> byte list \<Rightarrow> 'w served \<Rightarrow> (heldPublish option \<times> go_error option \<times> 'w served) option" where
  "handleSecureMessage wo tu chunk body st =
     (if \<not> negotiated (fst st) then Some (None, Some (uacpError StatusBadTcpMessageTypeInvalid), st)
      else case splitSecureMessage tu False body st of
          (Inl er, st) \<Rightarrow> Some (None, Some er, st)
        | (Inr parts, state, l) \<Rightarrow>
            if chunk = ChunkAbort then Some (None, None, state\<lparr>incoming := chunk_reset (incoming state)\<rparr>, l)
            else if chunk = ChunkIntermediate then (case chunk_append (smPayload parts) (incoming state) of
                Inl er \<Rightarrow> Some (None, Some er, state, l)
              | Inr accumulated \<Rightarrow> Some (None, None, state\<lparr>incoming := accumulated\<rparr>, l))
            else case chunk_append (smPayload parts) (incoming state) of
                Inl er \<Rightarrow> Some (None, Some er, state\<lparr>incoming := chunk_reset (incoming state)\<rparr>, l)
              | Inr accumulated \<Rightarrow>
                  handleRequest wo tu parts (abody accumulated) (state\<lparr>incoming := chunk_reset accumulated\<rparr>, l))"

definition handleMessage ::
  "'w world \<Rightarrow> 'w turn \<Rightarrow> MessageHeader \<Rightarrow> byte list \<Rightarrow> 'w served \<Rightarrow> (heldPublish option \<times> go_error option \<times> 'w served) option" where
  "handleMessage wo tu header body st =
     (if mhType header = MessageTypeHello then map_option (\<lambda>r. (None, r)) (handleHello tu body st)
      else if mhType header = MessageTypeOpenChannel then map_option (\<lambda>r. (None, r)) (handleOpenChannel tu body st)
      else if mhType header = MessageTypeCloseChannel then map_option (\<lambda>r. (None, r)) (handleCloseChannel tu body st)
      else if mhType header = MessageTypeSecure then handleSecureMessage wo tu (mhChunk header) body st
      else Some (None, Some (uacpError StatusBadTcpMessageTypeInvalid), st))"

text \<open>One message of the byte stream; a stream that ends early is an error of the transport.\<close>

definition readMessage :: "byte list \<Rightarrow> uint32 \<Rightarrow> go_error + MessageHeader \<times> byte list \<times> byte list" where
  "readMessage stream receiveBufferSize =
     (if length stream < nat HeaderSize then Inl PlainError
      else case DecodeMessageHeader (take (nat HeaderSize) stream) receiveBufferSize of
          Inl er \<Rightarrow> Inl er
        | Inr header \<Rightarrow> (let rest = drop (nat HeaderSize) stream; size = nat (BodySize header)
            in if length rest < size then Inl PlainError else Inr (header, take size rest, drop size rest)))"

text \<open>
  One round of the loop of \<^verbatim>\<open>serveConnection\<close>: the rest of the stream while the connection goes on, None
  in its place once it is over.
\<close>

definition serveMessage ::
  "'w world \<Rightarrow> 'w turn \<Rightarrow> (go_error \<Rightarrow> gostring) \<Rightarrow> byte list \<Rightarrow> 'w served \<Rightarrow>
     (byte list option \<times> heldPublish option \<times> 'w served) option" where
  "serveMessage wo tu reason stream = (\<lambda>(state, l).
     case readMessage stream (receiveSize state) of
       Inl er \<Rightarrow> Some (None, None, writeProtocolError (lsConfig l) tu reason er state, l)
     | Inr (header, body, rest) \<Rightarrow> (case handleMessage wo tu header body (state, l) of
           None \<Rightarrow> None
         | Some (waiting, Some er, state, l) \<Rightarrow>
             Some (None, waiting, writeProtocolError (lsConfig l) tu reason er state, l)
         | Some (waiting, None, state, l) \<Rightarrow> Some (Some rest, waiting, state, l)))"

section \<open>Accepting connections\<close>

text \<open>
  A connection is a number here. \<open>acSlots\<close> is how many tokens are in the channel \<^verbatim>\<open>slots\<close>. A round of the
  accept loop gives the connection it serves, or refuses and closes it.
\<close>

record acceptor =
  acClosed :: bool
  acListening :: bool
  acConns :: "nat list"
  acSlots :: int

definition newAcceptor :: acceptor where
  "newAcceptor = \<lparr>acClosed = False, acListening = False, acConns = [], acSlots = 0\<rparr>"

definition startServe :: "acceptor \<Rightarrow> acceptor" where
  "startServe a = (if acClosed a then a else a\<lparr>acListening := True\<rparr>)"

definition track :: "nat \<Rightarrow> acceptor \<Rightarrow> bool \<times> acceptor" where
  "track conn a = (if acClosed a then (False, a) else (True, a\<lparr>acConns := List.insert conn (acConns a)\<rparr>))"

definition untrack :: "nat \<Rightarrow> acceptor \<Rightarrow> acceptor" where
  "untrack conn a = a\<lparr>acConns := removeAll conn (acConns a)\<rparr>"

definition acceptConnection :: "ListenerConfig \<Rightarrow> nat \<Rightarrow> acceptor \<Rightarrow> bool \<times> acceptor" where
  "acceptConnection config conn a =
     (if acSlots a \<ge> MaxConnections config then (False, a)
      else case track conn (a\<lparr>acSlots := acSlots a + 1\<rparr>) of
          (False, a) \<Rightarrow> (False, a\<lparr>acSlots := acSlots a - 1\<rparr>)
        | (True, a) \<Rightarrow> (True, a))"

definition endConnection :: "nat \<Rightarrow> acceptor \<Rightarrow> acceptor" where
  "endConnection conn a = (let a = untrack conn a in a\<lparr>acSlots := acSlots a - 1\<rparr>)"

text \<open>The connections \<^verbatim>\<open>Close\<close> drops, and the state it leaves.\<close>

definition listener_Close :: "acceptor \<Rightarrow> nat list \<times> acceptor" where
  "listener_Close a = (if acClosed a then ([], a) else (acConns a, a\<lparr>acClosed := True, acListening := False\<rparr>))"

section \<open>Housekeeping\<close>

definition ExpireStaleChannels :: "'w world \<Rightarrow> 'w turn \<Rightarrow> gotime \<Rightarrow> 'w Listener \<Rightarrow> 'w Listener" where
  "ExpireStaleChannels wo tu now l = (let
     l = l\<lparr>lsRegistry := snd (ExpireStale now (lsRegistry l))\<rparr>;
     (ended, sessions) = session_ExpireStale (woOutside wo) now (lsSessions l);
     l = endSessions wo tu ended (l\<lparr>lsSessions := sessions\<rparr>);
     l = l\<lparr>lsBrowse := snd (ExpireContinuationPoints now (lsBrowse l))\<rparr>
     in case lsSubs l of
         None \<Rightarrow> l
       | Some subs \<Rightarrow> (case subscription_ExpireStale (woOutside wo) (tuOrder tu) (woGroups wo) now (subs, lsWorld l) of
           (_, subs, w) \<Rightarrow> l\<lparr>lsSubs := Some subs, lsWorld := w\<rparr>))"

definition InvalidateAddressSpace :: "'w Listener \<Rightarrow> 'w Listener" where
  "InvalidateAddressSpace l = (case lsData l of None \<Rightarrow> l | Some _ \<Rightarrow> l\<lparr>lsPopulator := Invalidate (lsPopulator l)\<rparr>)"

text \<open>What \<^verbatim>\<open>Shutdown\<close> does to the services, once the connections are dropped.\<close>

definition listener_Shutdown :: "'w world \<Rightarrow> 'w turn \<Rightarrow> 'w Listener \<Rightarrow> 'w Listener" where
  "listener_Shutdown wo tu l = (case TerminateAll (lsSessions l) of
     (ended, sessions) \<Rightarrow> endSessions wo tu ended (l\<lparr>lsSessions := sessions\<rparr>))"

definition publishIdleTimeout :: "ListenerConfig \<Rightarrow> int" where
  "publishIdleTimeout config = i64 (i64 (MaxPublishingInterval (lcSubscriptions config) *
     uint (MaxKeepAliveCount (lcSubscriptions config))) + ReadTimeout config)"

text \<open>How long the loop of a connection waits for the next message.\<close>

definition readDeadline :: "ListenerConfig \<Rightarrow> connectionState \<Rightarrow> int" where
  "readDeadline config state = (if publishing state > 0 then publishIdleTimeout config else ReadTimeout config)"

end
