(* ===== verification/ListenerLaws.thy ===== *)
theory ListenerLaws
  imports Listener
begin

text \<open>
  What the listener guarantees as a whole, over any order of messages on any connections, answers to
  held Publish requests, expiries, invalidations and shutdowns: the services stay consistent with one
  another (\<open>server_consistent\<close>), a shutdown leaves nothing open on the source (\<open>shutdown_releases_source\<close>),
  no service but the four that need none is run without an activated session
  (\<open>services_need_session\<close>), and what one connection can make the server hold or send is bounded
  (\<open>connection_bounded\<close>).
\<close>

section \<open>What reading and browsing do to the source\<close>

text \<open>What other callers of the populator do while one waits for them opens no group.\<close>

definition quiet :: "('w \<Rightarrow> gostring set) \<Rightarrow> (nat \<Rightarrow> 'w populating \<Rightarrow> 'w populating option) \<Rightarrow> bool" where
  "quiet opened await \<longleftrightarrow> (\<forall>c p s w p' s' w'. await c (p, s, w) = Some (p', s', w') \<longrightarrow> opened w' \<subseteq> opened w)"

text \<open>
  The DA runtime, as the listener uses it: the ledger of the groups, and the operations that read,
  write and browse, which open none.
\<close>

locale da_world = da_ledger "woGroups wo" opened
  for wo :: "'w world" and opened :: "'w \<Rightarrow> gostring set" +
  assumes browse_opens: "opened (snd (rtBrowse (woRuntime wo) path w)) \<subseteq> opened w"
    and read_opens: "opened (snd (ReadBatch (woRuntime wo) items w)) \<subseteq> opened w"
    and write_opens: "opened (snd (WriteBatch (woRuntime wo) writes w)) \<subseteq> opened w"
    and available_opens: "opened (snd (AvailableItemProperties (woRuntime wo) item w)) \<subseteq> opened w"
    and properties_opens: "opened (snd (rtItemProperties (woRuntime wo) item wanted w)) \<subseteq> opened w"
begin

lemma attribute_world: "opened (snd (readAttribute (woRuntime wo) node a now timestamps w)) \<subseteq> opened w"
proof -
  have "opened (snd (readDescription (woRuntime wo) node now timestamps w)) \<subseteq> opened w"
    using properties_opens [of "nItemID node" "[PropertyDescription]" w]
    by (auto simp: readDescription_def split: prod.splits sum.splits list.splits da_value.splits if_splits)
  then show ?thesis by (simp add: readAttribute_def Let_def)
qed

lemma plan_world: "opened (snd (snd (planRead (woRuntime wo) limits now timestamps target (s, w)))) \<subseteq> opened w"
  using attribute_world
  by (auto simp: planRead_def Let_def split: prod.splits option.splits bool.splits if_splits)
    (metis snd_conv subsetD)+

lemma plans_world: "opened (snd (snd (planReads (woRuntime wo) limits now timestamps targets (s, w)))) \<subseteq> opened w"
proof (induction targets arbitrary: s w)
  case (Cons target targets)
  obtain plan s1 w1 where p: "planRead (woRuntime wo) limits now timestamps target (s, w) = (plan, s1, w1)" by (metis surj_pair)
  then show ?case using plan_world [of limits now timestamps target s w] Cons.IH [of s1 w1] by (auto split: prod.splits)
qed simp

lemma source_world: "opened (snd (snd (readFromSource (woRuntime wo) timestamps now plans (s, w)))) \<subseteq> opened w"
  using read_opens [of "map fst (itemReads plans)" w]
  by (auto simp: readFromSource_def Let_def split: prod.splits sum.splits)

lemma property_world: "opened (snd (snd (readItemProperty format (woRuntime wo) item binding timestamps now (s, w)))) \<subseteq> opened w"
  using properties_opens [of item "ibSources binding" w]
  by (auto simp: readItemProperty_def Let_def split: prod.splits sum.splits)

lemma read_properties_world:
  "opened (snd (snd (readProperties format (woRuntime wo) timestamps now plans (s, w)))) \<subseteq> opened w"
proof (induction plans arbitrary: s w)
  case (Cons plan plans)
  show ?case
  proof (cases plan)
    case (PropertyRead i b)
    obtain v s1 w1 where p: "readItemProperty format (woRuntime wo) i b timestamps now (s, w) = (v, s1, w1)" by (metis surj_pair)
    then show ?thesis using PropertyRead property_world [of format i b timestamps now s w] Cons.IH [of s1 w1]
      by (auto split: prod.splits)
  qed (use Cons.IH [of s w] in \<open>auto split: prod.splits\<close>)
qed simp

lemma service_read_world:
  "Service_Read format (woRuntime wo) limits request now (s, w) = (r, s', w') \<Longrightarrow> opened w' \<subseteq> opened w"
proof -
  assume a: "Service_Read format (woRuntime wo) limits request now (s, w) = (r, s', w')"
  let ?t = "rqTimestampsToReturn request"
  obtain plans s1 w1 where 1: "planReads (woRuntime wo) limits now ?t (NodesToRead request) (s, w) = (plans, s1, w1)"
    by (metis surj_pair)
  obtain plans2 s2 w2 where 2: "(if itemReads plans \<noteq> [] then readFromSource (woRuntime wo) ?t now plans (s1, w1)
    else (plans, s1, w1)) = (plans2, s2, w2)" by (metis surj_pair)
  have "opened w1 \<subseteq> opened w" using plans_world [of limits now ?t "NodesToRead request" s w] 1 by simp
  moreover have "opened w2 \<subseteq> opened w1" using source_world [of ?t now plans s1 w1] 2 by (auto split: if_splits)
  moreover have "opened (snd (snd (readProperties format (woRuntime wo) ?t now plans2 (s2, w2)))) \<subseteq> opened w2"
    by (rule read_properties_world)
  ultimately show ?thesis using a 1 2 by (auto simp: Service_Read_def Let_def split: if_splits prod.splits)
qed

lemma service_write_world:
  "Service_Write (woRuntime wo) limits request now (s, w) = (r, s', w') \<Longrightarrow> opened w' \<subseteq> opened w"
proof -
  assume a: "Service_Write (woRuntime wo) limits request now (s, w) = (r, s', w')"
  have "opened (snd (writeToSource (woRuntime wo) plans w)) \<subseteq> opened w" for plans
    using write_opens [of "itemWrites plans" w] by (auto simp: writeToSource_def Let_def split: prod.splits sum.splits)
  with a show ?thesis
    by (auto simp: Service_Write_def Let_def split: if_splits prod.splits) (metis snd_conv subsetD)+
qed

lemma ensure_world:
  assumes "quiet opened await" "\<And>p s w. opened (snd (snd (snd (work (p, s, w))))) \<subseteq> opened w"
  shows "opened (snd (snd (snd (ensure await work key now ch (p, s, w))))) \<subseteq> opened w"
proof -
  obtain d p1 where d: "enterEnsure key now ch p = (d, p1)" by (rule prod.exhaust)
  show ?thesis
  proof (cases d)
    case (Wait c)
    then show ?thesis using d assms(1) by (auto simp: ensure_def quiet_def split: option.splits)
  next
    case Run
    then show ?thesis using d assms(2) [of p1 s w] by (auto simp: ensure_def split: prod.splits)
  qed (simp add: ensure_def d)
qed

lemma populate_world:
  assumes "quiet opened await"
  shows "opened (snd (snd (snd (ensurePopulated await (woRuntime wo) i now ch svc (p, s, w))))) \<subseteq> opened w"
proof -
  have branch: "opened (snd (snd (snd (populator_browse (woRuntime wo) path key now (p, s, w))))) \<subseteq> opened w" for path key p s w
    using browse_opens [of path w] by (auto simp: populator_browse_def split: prod.splits sum.splits option.splits)
  have facts: "opened (snd (snd (readItemFacts (woRuntime wo) item wanted (s, w)))) \<subseteq> opened w" for item wanted s w
    using properties_opens [of item wanted w] by (auto simp: readItemFacts_def split: prod.splits sum.splits)
  have item: "opened (snd (snd (snd (discoverItemProperties (woRuntime wo) item key now (p, s, w))))) \<subseteq> opened w" for item key p s w
  proof -
    obtain r w1 where a: "AvailableItemProperties (woRuntime wo) item w = (r, w1)" by (rule prod.exhaust)
    then have "opened w1 \<subseteq> opened w" using available_opens [of item w] by simp
    then show ?thesis using a facts [of item _ s w1]
      by (auto simp: discoverItemProperties_def Let_def split: sum.splits option.splits prod.splits)
        (metis snd_conv subsetD)+
  qed
  show ?thesis
    using ensure_world [OF assms branch] ensure_world [OF assms item]
    by (auto simp: ensurePopulated_def EnsureBranch_def EnsureItemProperties_def Let_def split: prod.splits option.splits NodeKind.splits)
qed

lemma service_browse_world:
  assumes "quiet opened await"
    and "Service_Browse await (woRuntime wo) rank rand chan session request now (svc, p, s, w) = (r, svc', p', s', w')"
  shows "opened w' \<subseteq> opened w"
proof -
  have entry: "opened w1 \<subseteq> opened w"
    if "browseEntry await (woRuntime wo) rank rand chan session m now k d (svc, p, s, w) = (b, svc1, p1, s1, w1)"
    for m k d svc p s w b svc1 p1 s1 w1
    using that populate_world [OF assms(1), of "bdNodeID d" now "chan k" svc p s w]
    by (auto simp: browseEntry_def split: prod.splits option.splits)
  have "opened w1 \<subseteq> opened w"
    if "browseEntries await (woRuntime wo) rank rand chan session m now k ds (svc, p, s, w) = (bs, svc1, p1, s1, w1)"
    for m k ds svc p s w bs svc1 p1 s1 w1
    using that
  proof (induction ds arbitrary: k svc p s w bs)
    case (Cons d ds)
    obtain b svc2 p2 s2 w2 where
      e: "browseEntry await (woRuntime wo) rank rand chan session m now k d (svc, p, s, w) = (b, svc2, p2, s2, w2)"
      by (metis surj_pair)
    then obtain bs2 where
      "browseEntries await (woRuntime wo) rank rand chan session m now (Suc k) ds (svc2, p2, s2, w2) = (bs2, svc1, p1, s1, w1)"
      using Cons.prems by (auto split: prod.splits)
    from Cons.IH [OF this] entry [OF e] show ?case by simp
  qed simp
  then show ?thesis using assms(2) by (auto simp: Service_Browse_def Let_def split: if_splits prod.splits)
qed

end

section \<open>Whose continuation points are kept\<close>

definition point_owners :: "BrowseService \<Rightarrow> gostring set" where
  "point_owners svc = cSession ` snd ` set (points svc)"

lemma owners_fewer: "set (points svc') \<subseteq> set (points svc) \<Longrightarrow> point_owners svc' \<subseteq> point_owners svc"
  by (auto simp: point_owners_def)

lemma delete_subset: "set (AList.delete k al) \<subseteq> set al" by (auto simp: AList.delete_eq)

lemma update_subset: "set (AList.update k v al) \<subseteq> insert (k, v) (set al)"
  by (induction al) auto

lemma free_subset: "set (snd (freeOldestLocked rank session now limit ps)) \<subseteq> set ps"
proof (induction rank session now limit ps rule: freeOldestLocked.induct)
  case (1 rank session now limit ps)
  obtain h key t where k: "scanPoints rank session now ps = (h, key, t)" by (metis surj_pair)
  show ?case using 1 [OF k [symmetric] refl] delete_subset [of key ps] k
    by (subst freeOldestLocked.simps) (auto split: if_splits)
qed

lemma owners_update:
  assumes "set ps \<subseteq> set (points svc)" "cSession v = session"
  shows "point_owners (svc'\<lparr>points := AList.update k v ps\<rparr>) \<subseteq> insert session (point_owners svc)"
proof -
  have "set (AList.update k v ps) \<subseteq> insert (k, v) (set (points svc))" using update_subset [of k v ps] assms(1) by auto
  then have "cSession ` snd ` set (AList.update k v ps) \<subseteq> cSession ` snd ` insert (k, v) (set (points svc))" by (intro image_mono)
  with assms(2) show ?thesis by (simp add: point_owners_def)
qed

lemma expire_owners: "point_owners (expireLocked now svc) \<subseteq> point_owners svc"
  by (rule owners_fewer) (auto simp: expireLocked_def)

lemma store_owners:
  assumes "storeContinuation rank rand session remaining maximum now svc = (r, svc')"
  shows "point_owners svc' \<subseteq> insert session (point_owners svc)"
proof -
  obtain room ps where f: "freeOldestLocked rank session now (MaxContinuationPoints (bsLimits (expireLocked now svc)))
    (points (expireLocked now svc)) = (room, ps)" by (rule prod.exhaust)
  then have "set ps \<subseteq> set (points (expireLocked now svc))" by (metis free_subset snd_conv)
  then have ps: "set ps \<subseteq> set (points svc)" by (auto simp: expireLocked_def)
  have "point_owners (svc1\<lparr>points := ps\<rparr>) \<subseteq> insert session (point_owners svc)" for svc1
    using owners_fewer [of "svc1\<lparr>points := ps\<rparr>" svc] ps by auto
  moreover have "(\<exists>svc1. svc' = svc1\<lparr>points := ps\<rparr>) \<or>
      (\<exists>svc1 k v. cSession v = session \<and> svc' = svc1\<lparr>points := AList.update k v ps\<rparr>)"
  proof (cases "room \<and> rand \<noteq> None")
    case True
    then obtain k where "svc' = (expireLocked now svc)\<lparr>points := AList.update k
        \<lparr>cRemaining = remaining, cCreatedAt = now, cSession = session, cMaximum = maximum\<rparr> ps\<rparr>"
      using assms f by (auto simp: storeContinuation_def Let_def)
    moreover have "cSession \<lparr>cRemaining = remaining, cCreatedAt = now, cSession = session, cMaximum = maximum\<rparr> = session" by simp
    ultimately show ?thesis by blast
  next
    case False
    then have "svc' = (expireLocked now svc)\<lparr>points := ps\<rparr>"
      using assms f by (cases room) (auto simp: storeContinuation_def Let_def split: option.splits)
    then show ?thesis by blast
  qed
  ultimately show ?thesis using owners_update [OF ps] by metis
qed

lemma browse_node_owners:
  "browseNode rank rand session d m now s svc = (r, svc') \<Longrightarrow> point_owners svc' \<subseteq> insert session (point_owners svc)"
  using store_owners
  by (auto simp: browseNode_def Let_def split: if_splits option.splits prod.splits sum.splits)

lemma browse_owners:
  assumes "Service_Browse await rt rank rand chan session request now (svc, st) = (r, svc', st')"
  shows "point_owners svc' \<subseteq> insert session (point_owners svc)"
proof -
  have entry: "point_owners svc1 \<subseteq> insert session (point_owners svc)"
    if "browseEntry await rt rank rand chan session m now k d (svc, st) = (b, svc1, st1)" for m k d svc st b svc1 st1
    using that browse_node_owners by (auto simp: browseEntry_def split: prod.splits option.splits)
  have "point_owners svc1 \<subseteq> insert session (point_owners svc)"
    if "browseEntries await rt rank rand chan session m now k ds (svc, st) = (bs, svc1, st1)" for m k ds svc st bs svc1 st1
    using that
  proof (induction ds arbitrary: k svc st bs)
    case (Cons d ds)
    obtain b svc2 st2 where e: "browseEntry await rt rank rand chan session m now k d (svc, st) = (b, svc2, st2)"
      by (metis surj_pair)
    then obtain bs2 where "browseEntries await rt rank rand chan session m now (Suc k) ds (svc2, st2) = (bs2, svc1, st1)"
      using Cons.prems by (auto split: prod.splits)
    from Cons.IH [OF this] entry [OF e] show ?case by blast
  qed auto
  then show ?thesis using assms by (auto simp: Service_Browse_def Let_def split: if_splits prod.splits)
qed

lemma browse_next_owners:
  assumes "Service_BrowseNext rand session request now svc = (r, svc')"
  shows "point_owners svc' \<subseteq> insert session (point_owners svc)"
proof -
  have one: "point_owners (snd (continueBrowse q session point now svc)) \<subseteq> insert session (point_owners svc)" for q point svc
  proof -
    let ?svc = "expireLocked now svc"
    have "set (points ?svc) \<subseteq> set (points svc)" by (auto simp: expireLocked_def)
    then have d: "set (AList.delete point (points ?svc)) \<subseteq> set (points svc)" using delete_subset by fast
    have "point_owners (?svc\<lparr>points := AList.delete point (points ?svc)\<rparr>) \<subseteq> point_owners svc"
      using d by (intro owners_fewer) simp
    then show ?thesis using owners_update [OF d] expire_owners [of now svc]
      by (simp only: continueBrowse_def Let_def split: option.split if_split) (auto simp del: AList.update.simps)
  qed
  have each: "point_owners (snd (continueEach rand session now k ps svc)) \<subseteq> insert session (point_owners svc)" for k ps svc
  proof (induction ps arbitrary: k svc)
    case (Cons point ps)
    show ?case using one [of "rand k" point svc] Cons.IH [of "Suc k" "snd (continueBrowse (rand k) session point now svc)"]
      by (auto split: prod.splits)
  qed auto
  have "point_owners (releasePoint session point svc) \<subseteq> point_owners svc" for point svc
    using owners_fewer [of "svc\<lparr>points := AList.delete point (points svc)\<rparr>" svc] delete_subset [of point "points svc"]
    by (simp add: releasePoint_def split: option.split)
  then have "point_owners (fold (releasePoint session) ps svc) \<subseteq> point_owners svc" for ps svc
    by (induction ps arbitrary: svc) (auto dest: subsetD, metis subsetD)
  with each assms show ?thesis
    by (auto simp: Service_BrowseNext_def Let_def split: if_splits prod.splits) (metis insertE snd_conv subsetD)+
qed

section \<open>The server's invariant\<close>

definition live :: "SessionRegistry \<Rightarrow> gostring set" where "live r = fst ` set (srSessions r)"

definition sub_owners :: "SubscriptionService \<Rightarrow> gostring set" where
  "sub_owners svc = usSessionToken ` snd ` set (subscriptions svc)"

text \<open>
  With a runtime: the subscription service is sound, its groups are all that is open, and what the
  services keep for a session is kept for one of \<open>L\<close>. Without one nothing is open.
\<close>

definition kept :: "('w \<Rightarrow> gostring set) \<Rightarrow> gostring set \<Rightarrow> 'w Listener \<Rightarrow> bool" where
  "kept opened L l \<longleftrightarrow> (case lsSubs l of
       None \<Rightarrow> opened (lsWorld l) = {}
     | Some subs \<Rightarrow> svc_ok subs \<and> opened (lsWorld l) \<subseteq> groups subs \<and> sub_owners subs \<subseteq> L \<and> point_owners (lsBrowse l) \<subseteq> L)"

type_synonym 'w server = "'w Listener \<times> heldPublish list"

definition server_inv :: "('w \<Rightarrow> gostring set) \<Rightarrow> 'w server \<Rightarrow> bool" where
  "server_inv opened = (\<lambda>(l, out). registry_inv (lsRegistry l) \<and> session_inv (lsSessions l, map hpKey out) \<and>
     kept opened (live (lsSessions l)) l)"

text \<open>What is held after a message: the new Publish, if there is one, before the others.\<close>

definition holding :: "heldPublish option \<Rightarrow> heldPublish list \<Rightarrow> heldPublish list" where
  "holding waiting out = (case waiting of None \<Rightarrow> out | Some h \<Rightarrow> h # out)"

lemma holding_none [simp]: "holding None out = out" by (simp add: holding_def)

text \<open>
  What the server lives through. A message may come from a connection in any state; the random bytes
  it may make a token of are assumed not to be the token of a live session or of a held request.
\<close>

definition fresh_token :: "'w turn \<Rightarrow> 'w server \<Rightarrow> bool" where
  "fresh_token tu = (\<lambda>(l, out). case tuRandom1 tu of None \<Rightarrow> True
     | Some token \<Rightarrow> token \<notin> live (lsSessions l) \<and> token \<notin> hpKey ` set out)"

inductive server_step :: "'w world \<Rightarrow> ('w \<Rightarrow> gostring set) \<Rightarrow> 'w server \<Rightarrow> 'w server \<Rightarrow> bool" for wo opened where
  message: "serveMessage wo tu reason stream (state, l) = Some (rest, waiting, state', l') \<Longrightarrow> quiet opened (tuAwait tu) \<Longrightarrow>
    fresh_token tu (l, out) \<Longrightarrow> server_step wo opened (l, out) (l', holding waiting out)"
| answer: "answerPublish wo tu terminated gone cycles later h (state, l) = (state', l') \<Longrightarrow> h \<in> set out \<Longrightarrow> lsSubs l \<noteq> None \<Longrightarrow>
    server_step wo opened (l, out) (l', remove1 h out)"
| expire: "server_step wo opened (l, out) (ExpireStaleChannels wo tu now l, out)"
| invalidate: "server_step wo opened (l, out) (InvalidateAddressSpace l, out)"
| shutdown: "server_step wo opened (l, out) (listener_Shutdown wo tu l, out)"
| source: "opened w \<subseteq> opened (lsWorld l) \<Longrightarrow> server_step wo opened (l, out) (l\<lparr>lsWorld := w\<rparr>, out)"

definition server_start :: "('w \<Rightarrow> gostring set) \<Rightarrow> 'w server \<Rightarrow> bool" where
  "server_start opened = (\<lambda>(l, out). out = [] \<and> (\<exists>config attached channelSeed tokenSeed now w.
     NewListenerWithRuntime config attached channelSeed tokenSeed now w = Inr l \<and> opened w = {}))"

lemma kept_mono: "kept opened L l \<Longrightarrow> L \<subseteq> L' \<Longrightarrow> kept opened L' l"
  by (auto simp: kept_def split: option.splits)

lemma kept_world:
  "kept opened L l \<Longrightarrow> lsSubs l' = lsSubs l \<Longrightarrow> opened (lsWorld l') \<subseteq> opened (lsWorld l) \<Longrightarrow>
     point_owners (lsBrowse l') \<subseteq> L \<union> point_owners (lsBrowse l) \<Longrightarrow> kept opened L l'"
  by (auto simp: kept_def split: option.splits)

lemma kept_serves:
  assumes "kept opened L l" "lsSubs l = Some subs" "serves opened t (subs, lsWorld l) (subs', w')" "t \<in> L \<or> t \<notin> sub_owners subs'"
    and "lsSubs l' = Some subs'" "lsWorld l' = w'" "lsBrowse l' = lsBrowse l"
  shows "kept opened L l'"
proof -
  have "others t subs' = others t subs" using assms(1-3) by (simp add: kept_def serves_def)
  then have "sub_owners subs' \<subseteq> insert t (sub_owners subs)"
    by (fastforce simp: others_def sub_owners_def dest: arg_cong [of _ _ set])
  then have "sub_owners subs' \<subseteq> L" using assms(1,2,4) by (auto simp: kept_def)
  then show ?thesis using assms by (simp add: kept_def serves_def)
qed

lemma live_conserved:
  assumes "session_inv (r, out)" "conserves r ended r'"
  shows "live r' = live r - SessionInfo_Key ` set ended"
proof -
  have "distinct (map fst (srSessions r))" using assms(1) by (simp add: session_inv.simps table_wf_def)
  moreover have m: "mset (map fst (srSessions r)) = mset (map fst (srSessions r') @ map SessionInfo_Key ended)"
    using assms(2) by (simp add: conserves_def)
  ultimately have "distinct (map fst (srSessions r') @ map SessionInfo_Key ended)" by (metis mset_eq_imp_distinct_iff)
  moreover have "set (map fst (srSessions r)) = set (map fst (srSessions r') @ map SessionInfo_Key ended)"
    using m by (rule mset_eq_setD)
  ultimately show ?thesis by (auto simp: live_def simp flip: set_map)
qed

lemma live_lookup: "t \<in> live r \<longleftrightarrow> map_of (srSessions r) t \<noteq> None"
  by (simp add: live_def map_of_eq_None_iff)

lemma create_live: "live r \<subseteq> live (snd (session_Create outside random1 random2 i security request now r))"
proof -
  have "live r \<subseteq> live (r\<lparr>srNextID := n, srSessions := AList.update k v (srSessions r)\<rparr>)" for n k v
    by (simp add: live_def dom_update subset_insertI)
  then show ?thesis by (simp add: session_Create_def Let_def split: option.split sum.split)
qed

lemma end_session_frame [simp]:
  "lsSessions (endSession wo tu info l) = lsSessions l" "lsRegistry (endSession wo tu info l) = lsRegistry l"
  "lsConfig (endSession wo tu info l) = lsConfig l" "lsData (endSession wo tu info l) = lsData l"
  "lsSubs (endSession wo tu info l) = None \<longleftrightarrow> lsSubs l = None"
  by (auto simp: endSession_def split: option.splits prod.splits)

lemma end_sessions_frame [simp]:
  "lsSessions (endSessions wo tu ended l) = lsSessions l" "lsRegistry (endSessions wo tu ended l) = lsRegistry l"
  "lsConfig (endSessions wo tu ended l) = lsConfig l" "lsData (endSessions wo tu ended l) = lsData l"
  "lsSubs (endSessions wo tu ended l) = None \<longleftrightarrow> lsSubs l = None"
  by (induction ended arbitrary: l) (simp_all add: endSessions_def)

text \<open>A session without subscriptions gets none by publishing.\<close>

lemma owner_of: "(i, sub) \<in> set (subscriptions svc) \<Longrightarrow> usSessionToken sub \<in> sub_owners svc"
  by (force simp: sub_owners_def)

lemma no_owner_lookup: "t \<notin> sub_owners svc \<Longrightarrow> subscription_lookup t i now svc = (None, svc)"
  by (auto simp: subscription_lookup_def split: option.splits dest!: map_of_SomeD owner_of)

lemma no_owner_acknowledge: "t \<notin> sub_owners svc \<Longrightarrow> acknowledgeEach t now acks svc = (r, svc') \<Longrightarrow> svc' = svc"
  by (induction acks arbitrary: r) (auto simp: no_owner_lookup split: prod.splits)

lemma no_owner_publish:
  assumes "t \<notin> sub_owners svc" "Publish outside rt t request now cycles (svc, s, w) = (r, svc', s', w')"
  shows "t \<notin> sub_owners svc'"
proof -
  have alive: "keepSessionAlive t u svc = svc" for u
  proof -
    have "map (\<lambda>(i, sub). (i, if usSessionToken sub = t then sub\<lparr>lastKeptAlive := u\<rparr> else sub)) (subscriptions svc) = subscriptions svc"
      using assms(1) by (intro map_idI) (auto dest: owner_of)
    then show ?thesis by (simp add: keepSessionAlive_def)
  qed
  have none: "nextPublishable rank t svc = None" for rank
    using next_publishable [of rank t svc] assms(1) by (cases "nextPublishable rank t svc") (auto dest: owner_of)
  have loop: "svc2 = svc" if "publishLoop outside rt t request acks cycles (svc, s, w) = (r, svc2, s2, w2)" for acks svc2 s2 w2
    using that by (cases cycles) (auto simp: tryPublish_def alive none)
  obtain acks svc1 where a: "acknowledgeEach t now (Acknowledgements request) svc = (acks, svc1)" by (rule prod.exhaust)
  then show ?thesis using assms no_owner_acknowledge [OF assms(1) a] loop by (auto simp: Publish_def acknowledge_def)
qed

lemma begin_live: "live (snd (BeginRequest token r)) = live r"
  using live_lookup [of "Opaque token" r]
  by (simp add: BeginRequest_def live_def dom_update insert_absorb split: option.split)

lemma end_live: "live (EndRequest key now r) = live r"
  using live_lookup [of key r]
  by (simp add: EndRequest_def live_def dom_update insert_absorb Let_def split: option.split)

lemma session_inv_mset: "mset out = mset out' \<Longrightarrow> session_inv (r, out) \<Longrightarrow> session_inv (r, out')"
proof -
  assume "mset out = mset out'"
  then have "count_list out = count_list out'" by (intro ext) (metis count_mset)
  then have "session_ok L out = session_ok L out'" for L by (intro ext) (simp add: session_ok_def)
  then show "session_inv (r, out) \<Longrightarrow> session_inv (r, out')" by (simp add: session_inv.simps)
qed

context da_world
begin

lemma end_session_kept:
  assumes "kept opened L l"
  shows "kept opened (L - {SessionInfo_Key info}) (endSession wo tu info l)"
proof (cases "lsSubs l")
  case (Some subs)
  let ?t = "SessionInfo_Key info"
  obtain subs' w' where r: "subscription_ReleaseSession (tuOrder tu) (woGroups wo) ?t (subs, lsWorld l) = (subs', w')"
    by (rule prod.exhaust)
  have "set (subscriptions subs') \<subseteq> set (subscriptions subs)" "?t \<notin> sub_owners subs'"
    using r by (auto simp: subscription_ReleaseSession_def sub_owners_def)
  then have "?t \<notin> sub_owners subs'" "sub_owners subs' \<subseteq> sub_owners subs" by (auto simp: sub_owners_def)
  then have "sub_owners subs' \<subseteq> L - {?t}" using assms Some by (auto simp: kept_def)
  moreover have "?t \<notin> point_owners (snd (ReleaseSession ?t (lsBrowse l)))" by (auto simp: ReleaseSession_def point_owners_def)
  then have "point_owners (snd (ReleaseSession ?t (lsBrowse l))) \<subseteq> L - {?t}"
    using assms Some owners_fewer [of "snd (ReleaseSession ?t (lsBrowse l))" "lsBrowse l"]
    by (auto simp: kept_def ReleaseSession_def)
  ultimately show ?thesis using assms Some r release_session_serves [OF r] by (simp add: kept_def endSession_def serves_def)
qed (use assms in \<open>simp add: kept_def endSession_def\<close>)

lemma end_sessions_kept: "kept opened L l \<Longrightarrow> kept opened (L - SessionInfo_Key ` set ended) (endSessions wo tu ended l)"
proof (induction ended arbitrary: L l)
  case (Cons info ended)
  from Cons.IH [OF end_session_kept [OF Cons.prems, of info tu]] show ?case
    by (simp add: endSessions_def Diff_insert2 [symmetric] insert_commute)
qed (simp add: endSessions_def)

text \<open>A call that ends sessions, followed by the hook for each.\<close>

lemma sessions_ended:
  assumes "server_inv opened (l, out)" "conserves (lsSessions l) ended r" "session_inv (r, map hpKey out)"
  shows "server_inv opened (endSessions wo tu ended (l\<lparr>lsSessions := r\<rparr>), out)"
proof -
  have inv: "session_inv (lsSessions l, map hpKey out)" using assms(1) by (simp add: server_inv_def)
  have "kept opened (live (lsSessions l)) (l\<lparr>lsSessions := r\<rparr>)"
    using assms(1) by (simp add: server_inv_def kept_def split: option.splits)
  from end_sessions_kept [OF this, of ended tu] show ?thesis
    using assms live_conserved [OF inv assms(2)] by (simp add: server_inv_def)
qed

lemma activated_inv:
  assumes "server_inv opened (l, out)" "activatedSession wo tu header channelID l = (r, l')"
  shows "server_inv opened (l', out)" "r = Inr t \<Longrightarrow> t \<in> live (lsSessions l')"
proof -
  obtain found ended q where f: "session_Lookup (woOutside wo) (AuthenticationToken header) channelID (tuNow tu) (lsSessions l) =
    (found, ended, q)" by (metis surj_pair)
  have inv: "session_inv (lsSessions l, map hpKey out)" using assms(1) by (simp add: server_inv_def)
  have l': "l' = endSessions wo tu ended (l\<lparr>lsSessions := q\<rparr>)"
    using assms(2) f by (auto simp: activatedSession_def Let_def split: sum.splits if_splits)
  show "server_inv opened (l', out)"
    unfolding l' by (rule sessions_ended [OF assms(1) Lookup_conserves [OF inv f] Lookup_inv [OF inv f]])
  have "SessionInfo_Key info \<in> live q" if "found = Inr info" for info
    using f that session_found [OF inv, of "Opaque (AuthenticationToken header)"] unfolding Lookup_cases [OF inv]
    by (auto simp: live_lookup update_conv' SessionInfo_Key_def session_snapshot_def session_ok_def split: if_splits option.splits)
  then show "r = Inr t \<Longrightarrow> t \<in> live (lsSessions l')"
    using assms(2) f by (auto simp: l' activatedSession_def Let_def split: sum.splits if_splits)
qed

text \<open>Dispatch: what a service leaves satisfies the invariant.\<close>

definition safe :: "heldPublish list \<Rightarrow> 'w dispatched \<Rightarrow> bool" where
  "safe out d \<longleftrightarrow> (\<forall>outcome l'. d = Some (outcome, l') \<longrightarrow> server_inv opened (l', out))"

lemma safe_some [simp]: "safe out (Some (outcome, l)) = server_inv opened (l, out)" "safe out None"
  by (simp_all add: safe_def)

lemma safe_result:
  "(\<And>r a. x1 = Some (r, a) \<Longrightarrow> safe out (f1 r a)) \<Longrightarrow> safe out (case x1 of None \<Rightarrow> None | Some (r, a) \<Rightarrow> f1 r a)"
  "(\<And>r a. x2 = (r, a) \<Longrightarrow> safe out (f2 r a)) \<Longrightarrow> safe out (case x2 of (r, a) \<Rightarrow> f2 r a)"
  "(\<And>r a b. x3 = (r, a, b) \<Longrightarrow> safe out (f3 r a b)) \<Longrightarrow> safe out (case x3 of (r, a, b) \<Rightarrow> f3 r a b)"
  "(\<And>r a b c. x4 = (r, a, b, c) \<Longrightarrow> safe out (f4 r a b c)) \<Longrightarrow> safe out (case x4 of (r, a, b, c) \<Rightarrow> f4 r a b c)"
  by (auto simp: safe_def split: option.splits prod.splits)

lemma safe_replied [simp]: "safe out (replied header encoder write r l) = server_inv opened (l, out)"
  by (simp add: replied_def split: sum.split)

lemma safe_decoded:
  assumes "server_inv opened (l, out)" "\<And>request. safe out (serve request)"
  shows "safe out (decoded reader decoder l serve)"
  using assms by (simp add: decoded_def split: sum.split prod.split)

lemma safe_session:
  assumes "server_inv opened (l, out)"
    and "\<And>t l'. server_inv opened (l', out) \<Longrightarrow> t \<in> live (lsSessions l') \<Longrightarrow> safe out (serve t l')"
  shows "safe out (inSession wo tu header channelID l serve)"
  using assms(2) activated_inv [OF assms(1)] by (simp add: inSession_def split: prod.split sum.split)

lemma safe_data:
  assumes "server_inv opened (l, out)" "\<And>limits. safe out (serve limits)"
  shows "safe out (withData header l serve)"
  using assms by (simp add: withData_def split: option.split)

lemma safe_subs:
  assumes "server_inv opened (l, out)" "\<And>subs. lsSubs l = Some subs \<Longrightarrow> safe out (serve subs)"
  shows "safe out (withSubs header l serve)"
  using assms by (simp add: withSubs_def split: option.split)

lemma server_world:
  assumes "server_inv opened (l, out)" "opened (lsWorld l') \<subseteq> opened (lsWorld l)" "lsSubs l' = lsSubs l"
    "point_owners (lsBrowse l') \<subseteq> live (lsSessions l) \<union> point_owners (lsBrowse l)"
    "lsSessions l' = lsSessions l" "lsRegistry l' = lsRegistry l"
  shows "server_inv opened (l', out)"
  using assms kept_world [of opened "live (lsSessions l)" l l'] by (simp add: server_inv_def)

lemma server_serves:
  assumes "server_inv opened (l, out)" "lsSubs l = Some subs" "t \<in> live (lsSessions l)"
    "serves opened t (subs, lsWorld l) (subs', w')"
    and "lsSubs l' = Some subs'" "lsWorld l' = w'" "lsBrowse l' = lsBrowse l" "lsSessions l' = lsSessions l" "lsRegistry l' = lsRegistry l"
  shows "server_inv opened (l', out)"
  using assms kept_serves [of opened "live (lsSessions l)" l subs t subs' w' l'] by (simp add: server_inv_def)

lemma safe_browse:
  assumes "server_inv opened (l, out)" "quiet opened (tuAwait tu)"
  shows "safe out (serveBrowse wo tu channelID encoder decoder l)"
  unfolding serveBrowse_def
proof (intro safe_decoded safe_session assms(1))
  fix request t l' assume inv: "server_inv opened (l', out)" and t: "t \<in> live (lsSessions l')"
  obtain r b p s w where e: "Service_Browse (tuAwait tu) (woRuntime wo) (tuRank tu) (tuRandoms tu) (tuChannels tu) t request (tuNow tu)
      (lsBrowse l', lsPopulator l', lsSpace l', lsWorld l') = (r, b, p, s, w)" by (metis surj_pair)
  have "point_owners b \<subseteq> live (lsSessions l') \<union> point_owners (lsBrowse l')" using browse_owners [OF e] t by auto
  then show "safe out (case Service_Browse (tuAwait tu) (woRuntime wo) (tuRank tu) (tuRandoms tu) (tuChannels tu) t request (tuNow tu)
      (lsBrowse l', lsPopulator l', lsSpace l', lsWorld l') of (r, browse, populator, space, w) \<Rightarrow>
      replied (bqHeader request) encoder WriteBrowseResponse r
        (l'\<lparr>lsBrowse := browse, lsPopulator := populator, lsSpace := space, lsWorld := w\<rparr>))"
    using server_world [OF inv, of "l'\<lparr>lsBrowse := b, lsPopulator := p, lsSpace := s, lsWorld := w\<rparr>"]
      service_browse_world [OF assms(2) e] by (simp add: e)
qed

lemma safe_browse_next:
  assumes "server_inv opened (l, out)"
  shows "safe out (serveBrowseNext wo tu channelID encoder decoder l)"
  unfolding serveBrowseNext_def
proof (intro safe_decoded safe_session assms(1))
  fix request t l' assume inv: "server_inv opened (l', out)" and t: "t \<in> live (lsSessions l')"
  obtain r b where e: "Service_BrowseNext (tuRandoms tu) t request (tuNow tu) (lsBrowse l') = (r, b)" by (rule prod.exhaust)
  have "point_owners b \<subseteq> live (lsSessions l') \<union> point_owners (lsBrowse l')" using browse_next_owners [OF e] t by auto
  then show "safe out (case Service_BrowseNext (tuRandoms tu) t request (tuNow tu) (lsBrowse l') of
      (r, browse) \<Rightarrow> replied (nqHeader request) encoder WriteBrowseNextResponse r (l'\<lparr>lsBrowse := browse\<rparr>))"
    using server_world [OF inv, of "l'\<lparr>lsBrowse := b\<rparr>"] by (simp add: e)
qed

lemma safe_read:
  assumes "server_inv opened (l, out)"
  shows "safe out (serveRead wo tu channelID encoder decoder l)"
  unfolding serveRead_def
proof (intro safe_decoded safe_session safe_data assms(1))
  fix request t l' limits assume inv: "server_inv opened (l', out)"
  show "safe out (case Service_Read (woFormat wo) (woRuntime wo) limits request (tuNow tu) (lsSpace l', lsWorld l') of
      (r, space, w) \<Rightarrow> replied (rqHeader request) encoder WriteReadResponse r (l'\<lparr>lsSpace := space, lsWorld := w\<rparr>))"
    using server_world [OF inv] service_read_world by (auto split: prod.split)
qed

lemma safe_write:
  assumes "server_inv opened (l, out)"
  shows "safe out (serveWrite wo tu channelID encoder decoder l)"
  unfolding serveWrite_def
proof (intro safe_decoded safe_session safe_data assms(1))
  fix request t l' limits assume inv: "server_inv opened (l', out)"
  show "safe out (case Service_Write (woRuntime wo) limits request (tuNow tu) (lsSpace l', lsWorld l') of
      (r, space, w) \<Rightarrow> replied (wqHeader request) encoder WriteWriteResponse r (l'\<lparr>lsSpace := space, lsWorld := w\<rparr>))"
    using server_world [OF inv] service_write_world by (auto split: prod.split)
qed

lemma safe_subscriptions:
  assumes inv: "server_inv opened (l, out)"
  shows "safe out (serveCreateSubscription wo tu channelID encoder decoder l)"
    "safe out (serveCreateMonitoredItems wo tu channelID encoder decoder l)"
    "safe out (serveDeleteMonitoredItems wo tu channelID encoder decoder l)"
    "safe out (serveDeleteSubscriptions wo tu channelID encoder decoder l)"
    "safe out (serveRepublish wo tu channelID encoder decoder l)"
    "safe out (serveSetPublishingMode wo tu channelID encoder decoder l)"
  subgoal unfolding serveCreateSubscription_def by (intro safe_decoded safe_session safe_subs inv, assumption, rule safe_result(1), simp only: safe_replied,
      rule server_serves, assumption, assumption, assumption, erule create_serves, simp_all)
  subgoal unfolding serveCreateMonitoredItems_def by (intro safe_decoded safe_session safe_subs inv, assumption, rule safe_result(4), simp only: safe_replied,
      rule server_serves, assumption, assumption, assumption, erule create_items_serves, simp_all)
  subgoal unfolding serveDeleteMonitoredItems_def by (intro safe_decoded safe_session safe_subs inv, assumption, rule safe_result(4), simp only: safe_replied,
      rule server_serves, assumption, assumption, assumption, erule delete_items_serves, simp_all)
  subgoal unfolding serveDeleteSubscriptions_def by (intro safe_decoded safe_session safe_subs inv, assumption, rule safe_result(3), simp only: safe_replied,
      rule server_serves, assumption, assumption, assumption, erule delete_all_serves, simp_all)
  subgoal unfolding serveRepublish_def by (intro safe_decoded safe_session safe_subs inv, assumption, rule safe_result(2), simp only: safe_replied,
      rule server_serves, assumption, assumption, assumption, erule republish_serves, simp_all)
  subgoal unfolding serveSetPublishingMode_def by (intro safe_decoded safe_session safe_subs inv, assumption, rule safe_result(2), simp only: safe_replied,
      rule server_serves, assumption, assumption, assumption, erule mode_serves, simp_all)
  done

lemma safe_create_session:
  assumes inv: "server_inv opened (l, out)"
    and fresh: "\<And>token. tuRandom1 tu = Some token \<Longrightarrow> token \<notin> live (lsSessions l) \<and> token \<notin> hpKey ` set out"
  shows "safe out (serveCreateSession wo tu channelID encoder decoder l)"
proof -
  have s: "session_inv (lsSessions l, map hpKey out)" using inv by (simp add: server_inv_def)
  have created: "server_inv opened (l\<lparr>lsSessions := r'\<rparr>, out)"
    if "session_Create (woOutside wo) (tuRandom1 tu) (tuRandom2 tu) channelID security request (tuNow tu) (lsSessions l) = (r, r')"
    for security request r r'
  proof (cases "tuRandom1 tu")
    case None
    then have "r' = lsSessions l" using that by (simp add: session_Create_def randomBytes_def split: option.splits)
    then show ?thesis using inv by simp
  next
    case (Some token)
    have "session_inv (r', map hpKey out)"
      using Create_inv [OF s, of token "woOutside wo" "tuRandom2 tu" channelID security request "tuNow tu"] fresh [OF Some] that Some
      by (simp add: live_lookup)
    moreover have "live (lsSessions l) \<subseteq> live r'"
      using create_live [of "lsSessions l" "woOutside wo" "tuRandom1 tu" "tuRandom2 tu" channelID security request "tuNow tu"] that
      by simp
    ultimately show ?thesis using inv kept_mono by (simp add: server_inv_def kept_def split: option.splits) blast
  qed
  show ?thesis unfolding serveCreateSession_def
    by (rule safe_decoded [OF inv]) (use inv created in \<open>simp split: sum.split prod.split\<close>)
qed

lemma safe_end_calls:
  assumes inv: "server_inv opened (l, out)"
  shows "safe out (serveActivateSession wo tu channelID encoder decoder l)"
    "safe out (serveCloseSession wo tu channelID encoder decoder l)"
proof -
  have s: "session_inv (lsSessions l, map hpKey out)" using inv by (simp add: server_inv_def)
  show "safe out (serveActivateSession wo tu channelID encoder decoder l)" unfolding serveActivateSession_def
    by (rule safe_decoded [OF inv])
      (use inv sessions_ended [OF inv Activate_conserves [OF s] Activate_inv [OF s]] in
        \<open>auto simp: Let_def split: sum.split prod.split\<close>)
  show "safe out (serveCloseSession wo tu channelID encoder decoder l)" unfolding serveCloseSession_def
    by (rule safe_decoded [OF inv])
      (use inv sessions_ended [OF inv Close_conserves [OF s] Close_session_inv [OF s]] in
        \<open>auto simp: Let_def split: option.split prod.split\<close>)
qed

lemma dispatch_inv:
  assumes "server_inv opened (l, out)" "quiet opened (tuAwait tu)"
    and "\<And>token. tuRandom1 tu = Some token \<Longrightarrow> token \<notin> live (lsSessions l) \<and> token \<notin> hpKey ` set out"
  shows "safe out (dispatchService wo tu channelID identifier decoder l)"
proof -
  have "safe out (serveGetEndpoints tu encoder decoder l)" for encoder
    unfolding serveGetEndpoints_def by (rule safe_decoded) (use assms(1) in simp_all)
  then show ?thesis
    using assms(1) safe_create_session [OF assms(1,3)] safe_end_calls [OF assms(1)] safe_browse [OF assms(1,2)]
      safe_browse_next [OF assms(1)] safe_read [OF assms(1)] safe_write [OF assms(1)] safe_subscriptions [OF assms(1)]
    by (simp add: dispatchService_def split: sum.split)
qed

text \<open>The handlers of a connection.\<close>

lemma registry_kept:
  "server_inv opened (l, out) \<Longrightarrow> registry_inv r \<Longrightarrow> server_inv opened (l\<lparr>lsRegistry := r\<rparr>, out)"
  by (simp add: server_inv_def kept_def split: option.splits)

lemma split_inv:
  assumes "server_inv opened (l, out)" "splitSecureMessage tu asymmetric body (state, l) = (r, state', l')"
  shows "server_inv opened (l', out)"
proof -
  have r: "registry_inv (lsRegistry l)" using assms(1) by (simp add: server_inv_def)
  have "registry_inv q" if "readSecurity (lsConfig l) tu asymmetric i body d state (lsRegistry l) = (s, q)" for i d s q
    using that r Accept_inv [OF r, of i _ "tuAccept tu"]
    by (auto simp: readSecurity_def split: if_splits sum.splits prod.splits) (metis snd_conv)+
  then show ?thesis
    using assms registry_kept by (auto simp: splitSecureMessage_def Let_def split: sum.splits prod.splits if_splits)
qed

lemma open_inv:
  assumes "server_inv opened (l, out)" "handleOpenChannel tu body (state, l) = Some (er, state', l')"
  shows "server_inv opened (l', out)"
proof -
  obtain r st1 l1 where sp: "splitSecureMessage tu True body (state, l) = (r, st1, l1)" by (metis surj_pair)
  have inv: "server_inv opened (l1, out)" by (rule split_inv [OF assms(1) sp])
  then have reg: "registry_inv (lsRegistry l1)" by (simp add: server_inv_def)
  have "registry_inv q" if "OpenSecureChannel v request i now (lsRegistry l1) = Some (x, q)" for v request i now x q
    using that reg Issue_inv [OF reg] Renew_inv [OF reg, of i "RequestedLifetime request" now]
    by (auto simp: OpenSecureChannel_def Let_def split: option.splits sum.splits prod.splits if_splits)
  then show ?thesis using assms inv registry_kept [OF inv]
    by (auto simp: handleOpenChannel_def sp Let_def split: if_splits sum.splits option.splits prod.splits)
qed

lemma close_inv:
  assumes "server_inv opened (l, out)" "handleCloseChannel tu body (state, l) = Some (er, state', l')"
  shows "server_inv opened (l', out)"
proof -
  obtain r st1 l1 where sp: "splitSecureMessage tu False body (state, l) = (r, st1, l1)" by (metis surj_pair)
  have inv: "server_inv opened (l1, out)" by (rule split_inv [OF assms(1) sp])
  then have reg: "registry_inv (lsRegistry l1)" by (simp add: server_inv_def)
  have "registry_inv q" if "CloseSecureChannel request i now (lsRegistry l1) = (x, q)" for request i now x q
    using that Close_inv [OF reg, of i] by (auto simp: CloseSecureChannel_def split: option.splits prod.splits)
  then show ?thesis using assms inv registry_kept [OF inv]
    by (auto simp: handleCloseChannel_def sp Let_def split: if_splits sum.splits option.splits prod.splits)
qed

lemma hello_frame: "handleHello tu body (state, l) = Some (er, state', l') \<Longrightarrow> l' = l"
  by (auto simp: handleHello_def Let_def split: if_splits sum.splits prod.splits option.splits)

lemma faulted_frame: "faulted tu parts handle er (state, l) = (r, state', l') \<Longrightarrow> l' = l"
  by (auto simp: faulted_def split: prod.splits)

lemma publish_inv:
  assumes "server_inv opened (l, out)" "handlePublish wo tu parts decoder (state, l) = (waiting, er, state', l')"
  shows "server_inv opened (l', holding waiting out)"
proof -
  obtain request d where q: "ReadPublishRequest decoder = Inr (request, d) \<or> (\<exists>e. ReadPublishRequest decoder = Inl e)"
    by (metis sumE surj_pair)
  obtain r l1 where a: "activatedSession wo tu (uqHeader request) (smChannelID parts) l = (r, l1)" by (rule prod.exhaust)
  have inv: "server_inv opened (l1, out)" by (rule activated_inv(1) [OF assms(1) a])
  have s: "session_inv (lsSessions l1, map hpKey out)" using inv by (simp add: server_inv_def)
  have begun: "server_inv opened (l1\<lparr>lsSessions := r'\<rparr>, \<lparr>hpParts = parts, hpRequest = request, hpSession = t, hpKey = key, hpNow = n\<rparr> # out)"
    if "BeginRequest token (lsSessions l1) = (Some key, r')" for token key r' t n
    using inv begin_live [of token "lsSessions l1"] Begin_inv [OF s that] that
    by (simp add: server_inv_def kept_def split: option.splits)
  have "server_inv opened (l1\<lparr>lsSessions := r'\<rparr>, out)" if "BeginRequest token (lsSessions l1) = (None, r')" for token r'
    using that inv by (auto simp: BeginRequest_def split: option.splits)
  then show ?thesis
    using q assms inv begun a
    by (auto simp: handlePublish_def holding_def Let_def split: option.splits sum.splits prod.splits if_splits
        dest!: faulted_frame)
qed

lemma answer_inv:
  assumes "server_inv opened (l, out)" "h \<in> set out" "lsSubs l \<noteq> None"
    and "answerPublish wo tu terminated gone cycles later h (state, l) = (state', l')"
  shows "server_inv opened (l', remove1 h out)"
proof -
  obtain subs where subs: "lsSubs l = Some subs" using assms(3) by blast
  obtain r subs' s' w' where p: "Publish (woOutside wo) (woGroups wo) (hpSession h) (hpRequest h) (hpNow h) cycles (subs, lsSpace l, lsWorld l) =
    (r, subs', s', w')" by (metis surj_pair)
  let ?l = "l\<lparr>lsSubs := Some subs', lsSpace := s', lsWorld := w', lsSessions := EndRequest (hpKey h) later (lsSessions l)\<rparr>"
  have l': "l' = ?l" using assms(4) by (simp add: answerPublish_def subs p Let_def)
  have L: "kept opened (live (lsSessions l)) l" using assms(1) by (simp add: server_inv_def)
  have "hpSession h \<in> live (lsSessions l) \<or> hpSession h \<notin> sub_owners subs'"
    using no_owner_publish [OF _ p] L subs by (auto simp: kept_def)
  from kept_serves [OF L subs publish_serves [OF p] this, of ?l]
  have k: "kept opened (live (lsSessions ?l)) ?l" by (simp add: end_live)
  have "hpKey h \<in> set (map hpKey out)" using assms(2) by simp
  with assms(1) have e: "session_inv (EndRequest (hpKey h) later (lsSessions l), remove1 (hpKey h) (map hpKey out))"
    by (intro End_inv) (simp_all add: server_inv_def)
  have "mset (remove1 (hpKey h) (map hpKey out)) = mset (map hpKey (remove1 h out))"
    using assms(2) by (simp add: image_mset_Diff)
  from session_inv_mset [OF this e] k show ?thesis using assms(1) by (simp add: l' server_inv_def)
qed

text \<open>A message from a connection, in whatever state the connection is.\<close>

lemma message_inv:
  assumes inv: "server_inv opened (l, out)" and quiet: "quiet opened (tuAwait tu)"
    and fresh: "\<And>token. tuRandom1 tu = Some token \<Longrightarrow> token \<notin> live (lsSessions l) \<and> token \<notin> hpKey ` set out"
    and m: "handleMessage wo tu header body (state, l) = Some (waiting, er, state', l')"
  shows "server_inv opened (l', holding waiting out)"
proof -
  have request: "server_inv opened (l2, holding w2 out)"
    if "server_inv opened (l1, out)" "lsSessions l1 = lsSessions l" "handleRequest wo tu parts payload (st1, l1) = Some (w2, e2, st2, l2)"
    for l1 parts payload st1 w2 e2 st2 l2
  proof -
    have "safe out (dispatchService wo tu (smChannelID parts) i d l1)" for i d
      using dispatch_inv [OF that(1) quiet] fresh that(2) by simp
    then show ?thesis using that(1,3) publish_inv [OF that(1)]
      by (auto simp: handleRequest_def serviceResponse_def holding_def safe_def split: sum.splits prod.splits if_splits option.splits
          service_outcome.splits dest!: faulted_frame)
  qed
  obtain r st1 l1 where sp: "splitSecureMessage tu False body (state, l) = (r, st1, l1)" by (metis surj_pair)
  have sp1: "server_inv opened (l1, out)" by (rule split_inv [OF inv sp])
  have sp2: "lsSessions l1 = lsSessions l"
    using sp by (auto simp: splitSecureMessage_def Let_def split: sum.splits prod.splits if_splits)
  have "server_inv opened (l', holding waiting out)"
    if "handleSecureMessage wo tu chunk body (state, l) = Some (waiting, er, state', l')" for chunk
    using that inv sp1 request [OF sp1 sp2]
    by (auto simp: handleSecureMessage_def sp holding_def split: if_splits sum.splits)
  then show ?thesis using m inv open_inv [OF inv] close_inv [OF inv]
    by (auto simp: handleMessage_def holding_def split: if_splits dest!: hello_frame)
qed

text \<open>Housekeeping.\<close>

lemma shutdown_inv:
  assumes "server_inv opened (l, out)"
  shows "server_inv opened (listener_Shutdown wo tu l, out)" "srSessions (lsSessions (listener_Shutdown wo tu l)) = []"
proof -
  have s: "session_inv (lsSessions l, map hpKey out)" using assms by (simp add: server_inv_def)
  have t: "TerminateAll (lsSessions l) = (map session_snapshot (map snd (srSessions (lsSessions l))), (lsSessions l)\<lparr>srSessions := []\<rparr>)"
    by (simp add: TerminateAll_def terminateLoop_all [OF s])
  show "server_inv opened (listener_Shutdown wo tu l, out)"
    using sessions_ended [OF assms _ session_inv_empty [OF s]] conserves_loop [OF s, of "\<lambda>_. True"]
    by (simp add: listener_Shutdown_def t)
  show "srSessions (lsSessions (listener_Shutdown wo tu l)) = []" by (simp add: listener_Shutdown_def t)
qed

lemma expiry_inv:
  assumes "server_inv opened (l, out)"
  shows "server_inv opened (ExpireStaleChannels wo tu now l, out)"
proof -
  let ?l = "l\<lparr>lsRegistry := snd (ExpireStale now (lsRegistry l))\<rparr>"
  have inv: "server_inv opened (?l, out)"
    using assms ExpireStale_inv by (intro registry_kept) (simp_all add: server_inv_def)
  have s: "session_inv (lsSessions l, map hpKey out)" using assms by (simp add: server_inv_def)
  obtain ended r where e: "session_ExpireStale (woOutside wo) now (lsSessions l) = (ended, r)" by (rule prod.exhaust)
  have "conserves (lsSessions ?l) ended r" "session_inv (r, map hpKey out)"
    using e conserves_loop [OF s] session_inv_filter [OF s] by (auto simp: session_ExpireStale_def terminateLoop_all [OF s])
  from sessions_ended [OF inv this, of tu]
  have 1: "server_inv opened (endSessions wo tu ended (?l\<lparr>lsSessions := r\<rparr>), out)" .
  let ?m = "endSessions wo tu ended (?l\<lparr>lsSessions := r\<rparr>)"
  have 2: "server_inv opened (?m\<lparr>lsBrowse := snd (ExpireContinuationPoints now (lsBrowse ?m))\<rparr>, out)"
    using expire_owners [of now "lsBrowse ?m"] by (intro server_world [OF 1]) (auto simp: ExpireContinuationPoints_def Let_def)
  have "server_inv opened (n\<lparr>lsSubs := Some subs', lsWorld := w'\<rparr>, out)"
    if "server_inv opened (n, out)" "lsSubs n = Some subs"
      "subscription_ExpireStale (woOutside wo) (tuOrder tu) (woGroups wo) now (subs, lsWorld n) = (k, subs', w')" for n subs k subs' w'
  proof -
    have "set (subscriptions subs') \<subseteq> set (subscriptions subs)"
      using that(3) by (auto simp: subscription_ExpireStale_def Let_def)
    then have "sub_owners subs' \<subseteq> sub_owners subs" by (auto simp: sub_owners_def)
    then show ?thesis using that(1,2) expire_keeps [OF that(3)] by (auto simp: server_inv_def kept_def)
  qed
  from this [OF 2] 2 show ?thesis by (auto simp: ExpireStaleChannels_def Let_def e split: option.split prod.split)
qed

lemma start_inv: "server_start opened st \<Longrightarrow> server_inv opened st"
proof -
  assume "server_start opened st"
  then obtain l config attached a b now w where st: "st = (l, [])" "opened w = {}"
    and new: "NewListenerWithRuntime config attached a b now w = Inr l" by (auto simp: server_start_def)
  have reg: "NewChannelRegistry (lcChannels config) a b = Inr (lsRegistry l)"
    and ses: "NewSessionRegistry (lcSessions config) = Inr (lsSessions l)"
    and w: "lsWorld l = w"
    and subs: "lsSubs l = Some svc \<Longrightarrow> NewSubscriptionService (lcSubscriptions config) a = Inr svc"
    and points: "points (lsBrowse l) = []" for svc
    using new by (auto simp: NewListenerWithRuntime_def NewBrowseService_def AttachPopulator_def Let_def
        split: option.splits sum.splits if_splits)
  have "registry_inv (lsRegistry l)" using reg by (intro channel_machine.start_inv) (auto simp: registry_start_def)
  moreover have "session_inv (lsSessions l, [])" using ses by (intro session_machine.start_inv) (auto simp: session_start_def)
  ultimately show ?thesis
    using new_service_ok [OF subs] points by (auto simp: st w server_inv_def kept_def sub_owners_def point_owners_def split: option.split)
qed

end

sublocale da_world \<subseteq> server: state_machine "server_start opened" "server_step wo opened" "server_inv opened"
proof
  show "server_inv opened st" if "server_start opened st" for st using that by (rule start_inv)
  show "server_inv opened st'" if "server_inv opened st" "server_step wo opened st st'" for st st'
    using that(2,1)
  proof cases
    case (message tu reason stream state l rest waiting state' l' out)
    have f: "\<And>token. tuRandom1 tu = Some token \<Longrightarrow> token \<notin> live (lsSessions l) \<and> token \<notin> hpKey ` set out"
      using message(5) by (simp add: fresh_token_def)
    show ?thesis using message(3) that(1) message_inv [OF that(1) [unfolded message(1)] message(4) f]
      by (auto simp: message(1,2) serveMessage_def split: sum.splits prod.splits option.splits)
  next
    case (answer tu terminated gone cycles later h state l state' l' out)
    then show ?thesis using answer_inv that(1) by auto
  next
    case (invalidate l out)
    then show ?thesis using that(1) server_world [of l out "InvalidateAddressSpace l"]
      by (auto simp: InvalidateAddressSpace_def split: option.splits)
  next
    case (source w l out)
    then show ?thesis using that(1) server_world [of l out "l\<lparr>lsWorld := w\<rparr>"] by auto
  qed (use that(1) expiry_inv shutdown_inv(1) in auto)
qed

context da_world
begin

lemmas reachable_server = server.reachable_inv

lemma reachable_consistent: "reachable (server_inv opened) (server_step wo opened) st \<Longrightarrow> server_inv opened st"
  by (induction rule: reachable.induct) (auto intro: server.step_inv)

end

section \<open>What the server guarantees\<close>

lemma point_owner_of: "(k, p) \<in> set (points svc) \<Longrightarrow> cSession p \<in> point_owners svc"
  by (force simp: point_owners_def)

lemma kept_lookup:
  assumes "server_inv opened (l, out)" "lsSubs l = Some subs"
  shows "map_of (subscriptions subs) i = Some sub \<Longrightarrow> map_of (srSessions (lsSessions l)) (usSessionToken sub) \<noteq> None"
    "map_of (points (lsBrowse l)) k = Some p \<Longrightarrow> map_of (srSessions (lsSessions l)) (cSession p) \<noteq> None"
proof -
  have o: "sub_owners subs \<subseteq> live (lsSessions l)" "point_owners (lsBrowse l) \<subseteq> live (lsSessions l)"
    using assms by (simp_all add: server_inv_def kept_def)
  show "map_of (subscriptions subs) i = Some sub \<Longrightarrow> map_of (srSessions (lsSessions l)) (usSessionToken sub) \<noteq> None"
    using o(1) live_lookup [of "usSessionToken sub" "lsSessions l"] owner_of [of i sub subs] by (auto dest: map_of_SomeD)
  show "map_of (points (lsBrowse l)) k = Some p \<Longrightarrow> map_of (srSessions (lsSessions l)) (cSession p) \<noteq> None"
    using o(2) live_lookup [of "cSession p" "lsSessions l"] point_owner_of [of k p "lsBrowse l"] by (auto dest: map_of_SomeD)
qed


definition world_sample :: "gostring list world" where
  "world_sample = \<lparr>woOutside = \<lambda>_. 0, woFormat = \<lambda>_. [],
     woRuntime = \<lparr>rtBrowse = \<lambda>_ w. (Inl (AdapterError CodeRuntimeUnavailable), w),
       ReadBatch = \<lambda>_ w. (Inl (AdapterError CodeRuntimeUnavailable), w),
       WriteBatch = \<lambda>_ w. (Inl (AdapterError CodeRuntimeUnavailable), w),
       AvailableItemProperties = \<lambda>_ w. (Inl (AdapterError CodeRuntimeUnavailable), w),
       rtItemProperties = \<lambda>_ _ w. (Inl (AdapterError CodeRuntimeUnavailable), w)\<rparr>,
     woGroups = ledger_sample\<rparr>"

lemma world_sample: "da_world world_sample set"
proof -
  have "woGroups world_sample = ledger_sample" by (simp add: world_sample_def)
  then show ?thesis
    using ledger_sample by (simp add: da_world_def da_world_axioms_def) (simp add: world_sample_def)
qed

definition listener_config_sample :: ListenerConfig where
  "listener_config_sample = DefaultListenerConfig config_sample endpoint_config_sample"

lemma listener_sample:
  obtains l where "NewListenerWithRuntime listener_config_sample True 5 9 0 w = Inr l" "lsSubs l \<noteq> None" "points (lsBrowse l) = []"
proof -
  have v: "ListenerConfig_validate listener_config_sample = None" by code_simp
  have a: "AddressSpaceConfig_validate ((config_addressSpace listener_config_sample)\<lparr>acLimits := serverLimits listener_config_sample\<rparr>) = None"
    by code_simp
  have parts: "ChannelLimits_validate (lcChannels listener_config_sample) = None" "SessionLimits_validate (lcSessions listener_config_sample) = None"
    "BrowseLimits_validate (lcBrowse listener_config_sample) = None" "DataAccessLimits_validate (lcDataAccess listener_config_sample) = None"
    "PopulationLimits_validate (lcPopulation listener_config_sample) = None"
    "SubscriptionLimits_validate (lcSubscriptions listener_config_sample) = None"
    "EndpointConfig_validate (lcEndpoint listener_config_sample) = None" by code_simp+
  have "\<exists>l. NewListenerWithRuntime listener_config_sample True 5 9 0 w = Inr l \<and> lsSubs l \<noteq> None \<and> points (lsBrowse l) = []"
    by (simp add: AttachPopulator_def NewListenerWithRuntime_def NewChannelRegistry_def NewEndpointService_def NewSessionRegistry_def
      NewAddressSpace_def NewBrowseService_def NewPopulator_def NewSubscriptionService_def Let_def v a parts)
  then show thesis using that by blast
qed



text \<open>A session with a subscription whose group is open.\<close>

definition serving_session_sample :: Session where
  "serving_session_sample = session_sample\<lparr>sToken := zeroNodeID\<lparr>Namespace := 1, Type := NodeIDTypeOpaque, Opaque := [116]\<rparr>, inFlight := 0\<rparr>"

lemma serving_session_ok:
  "session_inv (\<lparr>srLimits = session_limits_sample, srSessions = [([116], serving_session_sample)], srNextID = 1\<rparr>, [])"
  using session_machine.reachable_inv [OF session_sample_reachable]
  by (simp add: session_inv.simps table_wf_def session_ok_def SessionCount_def session_registry_sample_def serving_session_sample_def
      session_sample_def)

lemma serving_sample:
  obtains l :: "gostring list Listener" where "server_inv set (l, [])" "lsWorld l = [[103]]" "SessionCount (lsSessions l) = 1"
proof (rule listener_sample [of "[]"], rule monitoring_sample_reachable [of set "\<lambda>_. 0"])
  fix l0 :: "gostring list Listener" and sub s
  assume l0: "NewListenerWithRuntime listener_config_sample True 5 9 0 [] = Inr l0" "points (lsBrowse l0) = []"
    and sub: "reachable (service_start set) (service_step (\<lambda>_. 0) ledger_sample set)
      (created_sample\<lparr>subscriptions := [(1, sub)]\<rparr>, s, [[103]])" "usSessionToken sub = [116]"
  let ?l = "l0\<lparr>lsSessions := \<lparr>srLimits = session_limits_sample, srSessions = [([116], serving_session_sample)], srNextID = 1\<rparr>,
    lsSubs := Some (created_sample\<lparr>subscriptions := [(1, sub)]\<rparr>), lsWorld := [[103]]\<rparr>"
  have "server_start set (l0, [])" using l0(1) by (simp add: server_start_def) (metis list.set(1))
  then have "server_inv set (l0, [])" by (rule da_world.start_inv [OF world_sample])
  then have "server_inv set (?l, [])"
    using l0(2) serving_session_ok da_ledger.groups_held [OF ledger_sample sub(1)] sub(2)
    by (simp add: server_inv_def kept_def live_def sub_owners_def point_owners_def)
  then show thesis by (rule that) (simp_all add: SessionCount_def)
qed simp


end
