(* ===== verification/ConnectionLaws.thy ===== *)
theory ConnectionLaws
  imports Listener
begin

text \<open>
  What the listener guarantees of one connection and of one request: no service but the four that need
  none is run without an activated session of the channel (\<open>services_need_session\<close>), and what a
  connection can make the server send, collect and hold stays within what was negotiated
  (\<open>connection_bounded\<close>); and the number of connections is limited (\<open>connections_limited\<close>).
\<close>

section \<open>Requests and their sessions\<close>

text \<open>The services that dispatch runs only for a session.\<close>

definition session_services :: "uint32 list" where
  "session_services = [BrowseRequestEncodingID, BrowseNextRequestEncodingID, ReadRequestEncodingID, WriteRequestEncodingID,
     CreateSubscriptionRequestEncodingID, CreateMonitoredItemsRequestEncodingID, DeleteMonitoredItemsRequestEncodingID,
     DeleteSubscriptionsRequestEncodingID, RepublishRequestEncodingID, SetPublishingModeRequestEncodingID]"

text \<open>A session that a request of the channel may use: activated, bound to the channel, not run out.\<close>

definition usable_session :: "'w world \<Rightarrow> 'w turn \<Rightarrow> uint32 \<Rightarrow> SessionRegistry \<Rightarrow> bool" where
  "usable_session wo tu channelID r \<longleftrightarrow> (\<exists>key s. map_of (srSessions r) key = Some s \<and> Activated s \<and>
     BoundChannel s = channelID \<and> \<not> session_expired (woOutside wo) (tuNow tu) s)"

text \<open>A request that was refused: no answer, and no change but the end of a session that had run out.\<close>

definition refused :: "'w world \<Rightarrow> 'w turn \<Rightarrow> 'w Listener \<Rightarrow> service_outcome \<Rightarrow> 'w Listener \<Rightarrow> bool" where
  "refused wo tu l outcome l' \<longleftrightarrow> (\<forall>body. outcome \<noteq> Answer body) \<and>
     (\<exists>ended sessions. l' = endSessions wo tu ended (l\<lparr>lsSessions := sessions\<rparr>))"

definition gated :: "'w world \<Rightarrow> 'w turn \<Rightarrow> uint32 \<Rightarrow> 'w Listener \<Rightarrow> 'w dispatched \<Rightarrow> bool" where
  "gated wo tu channelID l d \<longleftrightarrow> (\<forall>outcome l'. d = Some (outcome, l') \<longrightarrow>
     usable_session wo tu channelID (lsSessions l) \<or> refused wo tu l outcome l')"

lemma activated_usable:
  assumes "session_inv (lsSessions l, out)" "activatedSession wo tu header channelID l = (r, l')"
  shows "case r of Inr key \<Rightarrow> usable_session wo tu channelID (lsSessions l)
    | Inl er \<Rightarrow> \<exists>ended sessions. l' = endSessions wo tu ended (l\<lparr>lsSessions := sessions\<rparr>)"
proof -
  obtain found ended q where f: "session_Lookup (woOutside wo) (AuthenticationToken header) channelID (tuNow tu) (lsSessions l) =
    (found, ended, q)" by (metis surj_pair)
  have "l' = endSessions wo tu ended (l\<lparr>lsSessions := q\<rparr>)"
    using assms(2) f by (auto simp: activatedSession_def Let_def split: sum.splits if_splits)
  moreover have "usable_session wo tu channelID (lsSessions l)" if i: "found = Inr info" "siActivated info" for info
  proof -
    obtain s where "map_of (srSessions (lsSessions l)) (Opaque (AuthenticationToken header)) = Some s" "info = session_snapshot s"
      "\<not> session_expired (woOutside wo) (tuNow tu) s" "BoundChannel s = channelID"
      using f i(1) unfolding Lookup_cases [OF assms(1)] by (auto split: if_splits option.splits)
    then show ?thesis using i(2) by (auto simp: usable_session_def session_snapshot_def)
  qed
  ultimately show ?thesis using assms(2) f by (auto simp: activatedSession_def Let_def split: sum.splits if_splits)
qed

lemma gated_decoded: "(\<And>request. gated wo tu channelID l (serve request)) \<Longrightarrow> gated wo tu channelID l (decoded reader decoder l serve)"
proof -
  have "l = endSessions wo tu [] (l\<lparr>lsSessions := lsSessions l\<rparr>)" by (simp add: endSessions_def)
  then have "refused wo tu l (Fatal er) l" for er unfolding refused_def by blast
  then show "(\<And>request. gated wo tu channelID l (serve request)) \<Longrightarrow> gated wo tu channelID l (decoded reader decoder l serve)"
    by (auto simp: decoded_def gated_def split: sum.splits prod.splits)
qed

lemma gated_session:
  assumes "session_inv (lsSessions l, out)"
  shows "gated wo tu channelID l (inSession wo tu header channelID l serve)"
proof -
  obtain r l1 where a: "activatedSession wo tu header channelID l = (r, l1)" by (rule prod.exhaust)
  with activated_usable [OF assms a] show ?thesis
    by (auto simp: inSession_def gated_def refused_def split: sum.splits)
qed

lemmas session_handlers = serveBrowse_def serveBrowseNext_def serveRead_def serveWrite_def serveCreateSubscription_def
  serveCreateMonitoredItems_def serveDeleteMonitoredItems_def serveDeleteSubscriptions_def serveRepublish_def
  serveSetPublishingMode_def

lemmas request_identifiers = GetEndpointsRequestEncodingID_def CreateSessionRequestEncodingID_def ActivateSessionRequestEncodingID_def
  CloseSessionRequestEncodingID_def BrowseRequestEncodingID_def BrowseNextRequestEncodingID_def ReadRequestEncodingID_def
  WriteRequestEncodingID_def CreateSubscriptionRequestEncodingID_def CreateMonitoredItemsRequestEncodingID_def
  DeleteMonitoredItemsRequestEncodingID_def DeleteSubscriptionsRequestEncodingID_def RepublishRequestEncodingID_def
  SetPublishingModeRequestEncodingID_def

lemma dispatch_gated:
  assumes "session_inv (lsSessions l, out)" "identifier \<in> set session_services"
  shows "gated wo tu channelID l (dispatchService wo tu channelID identifier decoder l)"
proof -
  have "identifier \<notin> {GetEndpointsRequestEncodingID, CreateSessionRequestEncodingID, ActivateSessionRequestEncodingID,
      CloseSessionRequestEncodingID}" using assms(2) by (auto simp: session_services_def request_identifiers)
  moreover have "gated wo tu channelID l (serve wo tu channelID encoder decoder l)"
    if "serve \<in> {serveBrowse, serveBrowseNext, serveRead, serveWrite, serveCreateSubscription, serveCreateMonitoredItems,
      serveDeleteMonitoredItems, serveDeleteSubscriptions, serveRepublish, serveSetPublishingMode}" for serve encoder
    using that by (auto simp: session_handlers intro!: gated_decoded gated_session [OF assms(1)])
  moreover have "gated wo tu channelID l (Some (Fatal er, l))" for er
    using gated_decoded [of wo tu channelID l "\<lambda>_. None" "\<lambda>_. Inl er"] by (simp add: decoded_def gated_def)
  ultimately show ?thesis
    using assms(2) by (auto simp: dispatchService_def session_services_def split: sum.split)
qed


text \<open>A session that was created and never activated, asked for on its channel.\<close>

definition idle_registry_sample :: SessionRegistry where
  "idle_registry_sample = session_registry_sample\<lparr>srSessions := [([1, 2, 3], session_sample\<lparr>Activated := False\<rparr>)]\<rparr>"

lemma idle_registry_ok: "session_inv (idle_registry_sample, [[1, 2, 3]])"
  using session_machine.reachable_inv [OF session_sample_reachable]
  by (simp add: idle_registry_sample_def session_inv.simps table_wf_def session_ok_def SessionCount_def session_registry_sample_def
      session_sample_def)


section \<open>What a connection can make the server send and hold\<close>

text \<open>
  A connection with the number of its Publish requests that are held. A message may find the listener in
  any state with the configuration; the goroutine of a held Publish may answer at any time.
\<close>

inductive connection_step :: "'w world \<Rightarrow> ListenerConfig \<Rightarrow> connectionState \<times> nat \<Rightarrow> connectionState \<times> nat \<Rightarrow> bool"
  for wo config where
  message: "serveMessage wo tu reason stream (state, l) = Some (rest, waiting, state', l') \<Longrightarrow> lsConfig l = config \<Longrightarrow>
    connection_step wo config (state, n) (state', case waiting of None \<Rightarrow> n | Some _ \<Rightarrow> Suc n)"
| answer: "answerPublish wo tu terminated gone cycles later h (state, l) = (state', l') \<Longrightarrow> lsConfig l = config \<Longrightarrow>
    lsSubs l \<noteq> None \<Longrightarrow> connection_step wo config (state, Suc n) (state', n)"

definition connection_start :: "ListenerConfig \<Rightarrow> connectionState \<times> nat \<Rightarrow> bool" where
  "connection_start config = (\<lambda>(state, n). ListenerConfig_validate config = None \<and> state = newConnection config \<and> n = 0)"

definition fits :: "connectionState \<Rightarrow> bool" where
  "fits state \<longleftrightarrow> (\<forall>chunk \<in> set (csOutput state). int (length chunk) \<le> (if negotiated state then uint (sendSize state) else uint MinimumBufferSize))"

definition connection_inv :: "ListenerConfig \<Rightarrow> connectionState \<times> nat \<Rightarrow> bool" where
  "connection_inv config = (\<lambda>(state, n). publishing state = int n \<and> n \<le> 64 \<and> (n > 0 \<longrightarrow> negotiated state) \<and> fits state \<and>
     uint MinimumBufferSize \<le> uint (sendSize state) \<and> uint (sendSize state) \<le> uint (lcSendBufferSize config) \<and>
     uint (receiveSize state) \<le> uint (lcReceiveBufferSize config) \<and>
     int (length (abody (incoming state))) \<le> MaxMessageBytes (lcBinary config) \<and>
     maxMessage (incoming state) \<noteq> 0 \<and> uint (maxMessage (incoming state)) \<le> MaxMessageBytes (lcBinary config))"

text \<open>Before the Hello only an Error message can be written, and it is short; so is an Acknowledge.\<close>

lemma protocol_error_short:
  assumes "EncodeProtocolError e limits = Inr body"
  shows "length body \<le> 8 + MaxErrorReasonBytes"
proof -
  define reason where "reason = (if length (Reason e) > MaxErrorReasonBytes then truncateUTF8 (Reason e) MaxErrorReasonBytes else Reason e)"
  have "length reason \<le> MaxErrorReasonBytes"
    using cutBack_le [of "Reason e" MaxErrorReasonBytes] by (auto simp: reason_def truncateUTF8_def)
  moreover have "encode_with (seqw [WriteUInt32 (peError e), WriteString reason]) limits = Inr body"
    using assms by (simp add: EncodeProtocolError_def reason_def Let_def)
  moreover have "emits limits (seqw [WriteUInt32 (peError e), WriteString reason]) (string_ok limits reason)
      (le_bytes 4 (peError e) @ lenbytes_wire reason)"
    by (rule emits_cong, (rule emits_intros)+) simp_all
  ultimately have "body = le_bytes 4 (peError e) @ lenbytes_wire reason" using encode_with_emits(2) by blast
  then show ?thesis using \<open>length reason \<le> MaxErrorReasonBytes\<close> by (simp add: lenbytes_wire_def)
qed

text \<open>A write: the next sequence number may be taken and chunks of at most \<open>bound\<close> bytes are appended.\<close>

definition writes :: "int \<Rightarrow> connectionState \<Rightarrow> connectionState \<Rightarrow> bool" where
  "writes bound state state' \<longleftrightarrow> (\<exists>sequence written. state' = state\<lparr>sendSequence := sequence, csOutput := csOutput state @ written\<rparr> \<and>
     (\<forall>chunk \<in> set written. int (length chunk) \<le> bound))"

lemma writes_none [simp]: "writes bound state state"
  unfolding writes_def by (rule exI [of _ "sendSequence state"], rule exI [of _ "[]"]) simp

lemma writes_sequence: "writes bound state (state\<lparr>sendSequence := sequence\<rparr>)"
  unfolding writes_def by (rule exI [of _ sequence], rule exI [of _ "[]"]) simp

lemma writes_chunk: "int (length chunk) \<le> bound \<Longrightarrow> writes bound state (snd (conn_write tu chunk (state\<lparr>sendSequence := sequence\<rparr>)))"
  unfolding writes_def conn_write_def
  by (cases "tuWritten tu")
    (simp, intro exI [of _ sequence] exI [of _ "[chunk]"], simp, simp, intro exI [of _ sequence] exI [of _ "[]"], simp)

lemma writes_message:
  assumes "int (length body) + 8 \<le> bound"
  shows "writes bound state (snd (writeMessage config tu t c body state))"
  using assms writes_chunk [of _ bound state tu "sendSequence state"]
  by (auto simp: writeMessage_def EncodeMessageHeader_def Let_def HeaderSize_def split: sum.split)

lemma writes_secure: "writes (uint (sendSize state)) state (snd (writeSecureMessage config tu t token i body policy asymmetric state))"
proof -
  have "writes (uint (sendSize state)) state (snd (conn_write tu (header @ b) (state\<lparr>sendSequence := q\<rparr>)))"
    if "EncodeSecureConversationHeader h (int (length b)) (sendSize state) = Inr header" for h b header q
    using that by (intro writes_chunk)
      (auto simp: EncodeSecureConversationHeader_def SecureConversationHeaderSize_def Let_def split: if_splits)
  then show ?thesis
    by (auto simp: writeSecureMessage_def Let_def writes_sequence split: sum.split prod.split)
qed

lemma writes_fault: "writes (uint (sendSize state)) state (snd (writeServiceFault config tu parts handle er state))"
  by (simp add: writeServiceFault_def writes_secure split: sum.split)

lemma writes_faulted: "faulted tu parts handle er (state, l) = (r, state', l') \<Longrightarrow> writes (uint (sendSize state)) state state'"
  using writes_fault [of state "lsConfig l" tu parts handle er] by (auto simp: faulted_def split: prod.splits)

lemma writes_error: "writes (uint MinimumBufferSize) state (writeProtocolError config tu reason er state)"
proof (cases er)
  case (CodecError status)
  show ?thesis
  proof (cases "EncodeProtocolError \<lparr>peError = status, Reason = reason er\<rparr> (lcBinary config)")
    case (Inr body)
    have "int (length body) + 8 \<le> uint MinimumBufferSize"
      using protocol_error_short [OF Inr] by (simp add: MinimumBufferSize_def MaxErrorReasonBytes_def)
    then show ?thesis using writes_message CodecError Inr by (simp add: writeProtocolError_def)
  qed (simp add: writeProtocolError_def CodecError)
qed (simp_all add: writeProtocolError_def)

lemma connection_writes:
  assumes "connection_inv config (state, n)" "writes bound state state'"
    and "negotiated state \<and> bound = uint (sendSize state) \<or> bound = uint MinimumBufferSize"
  shows "connection_inv config (state', n)"
proof -
  obtain sequence written where s: "state' = state\<lparr>sendSequence := sequence, csOutput := csOutput state @ written\<rparr>"
    and w: "\<And>chunk. chunk \<in> set written \<Longrightarrow> int (length chunk) \<le> bound" using assms(2) by (auto simp: writes_def)
  have "bound \<le> (if negotiated state then uint (sendSize state) else uint MinimumBufferSize)"
    using assms(1,3) by (auto simp: connection_inv_def)
  with w have "int (length chunk) \<le> (if negotiated state then uint (sendSize state) else uint MinimumBufferSize)"
    if "chunk \<in> set written" for chunk using that by fastforce
  then show ?thesis using assms(1) unfolding connection_inv_def fits_def s by auto
qed

lemma append_bound:
  assumes "chunk_append c a = Inr a'" "maxMessage a \<noteq> 0" "length (abody a) < 2 ^ 32" "length c < 2 ^ 32"
  shows "int (length (abody a')) \<le> uint (maxMessage a)" "maxMessage a' = maxMessage a"
proof -
  have l: "uint (of_nat (length (abody a)) + of_nat (length c) :: uint64) = int (length (abody a) + length c)"
    unfolding of_nat_add [symmetric] using assms(3,4) by (simp add: uint_nat unat_of_nat del: of_nat_add)
  have w: "uint (ucast (maxMessage a) :: uint64) = uint (maxMessage a)"
  proof -
    have "uint (maxMessage a) < 2 ^ LENGTH(32)" by (rule unsigned_less)
    then show ?thesis by (simp add: unsigned_ucast_eq take_bit_int_eq_self)
  qed
  have "\<not> (of_nat (length (abody a)) + of_nat (length c) :: uint64) > ucast (maxMessage a)"
    using assms(1,2) by (auto simp: chunk_append_def split: if_splits)
  then have "int (length (abody a) + length c) \<le> uint (maxMessage a)" by (simp add: word_less_def l w)
  then show "int (length (abody a')) \<le> uint (maxMessage a)" "maxMessage a' = maxMessage a"
    using assms(1) by (auto simp: chunk_append_def split: if_splits)
qed

lemma config_bounds:
  assumes "ListenerConfig_validate config = None"
  shows "MinimumBufferSize \<le> lcReceiveBufferSize config" "MinimumBufferSize \<le> lcSendBufferSize config"
    "0 < MaxMessageBytes (lcBinary config)" "MaxMessageBytes (lcBinary config) < 2 ^ 31"
  using assms by (auto simp: ListenerConfig_validate_def validate_limits_def MaxInt32_def split: if_splits option.splits)

lemma acceptable_bound:
  assumes "ListenerConfig_validate config = None"
  shows "acceptableRequestBytes config announced \<noteq> 0" "uint (acceptableRequestBytes config announced) \<le> MaxMessageBytes (lcBinary config)"
proof -
  have c: "uint (of_int (MaxMessageBytes (lcBinary config)) :: uint32) = MaxMessageBytes (lcBinary config)"
    using config_bounds(3,4) [OF assms] by (intro uint_of_int32) simp_all
  then have "(of_int (MaxMessageBytes (lcBinary config)) :: uint32) \<noteq> 0" using config_bounds(3) [OF assms] by auto
  then show "acceptableRequestBytes config announced \<noteq> 0" by (auto simp: acceptableRequestBytes_def Let_def)
  show "uint (acceptableRequestBytes config announced) \<le> MaxMessageBytes (lcBinary config)"
    using c by (auto simp: acceptableRequestBytes_def Let_def word_less_def not_less)
qed

text \<open>The handlers.\<close>

lemma end_sessions_config [simp]: "lsConfig (endSessions wo tu ended l) = lsConfig l"
  by (induction ended arbitrary: l) (auto simp: endSessions_def endSession_def split: option.split prod.split)

lemma split_connection:
  assumes "connection_inv config (state, n)" "splitSecureMessage tu asymmetric body (state, l) = (r, state', l')"
  shows "connection_inv config (state', n)" "negotiated state' = negotiated state" "lsConfig l' = lsConfig l"
    "r = Inr parts \<Longrightarrow> length (smPayload parts) \<le> length body"
  using assms
  by (auto simp: splitSecureMessage_def Let_def connection_inv_def fits_def split: sum.splits prod.splits if_splits)

lemma hello_connection:
  assumes valid: "ListenerConfig_validate config = None" and inv: "connection_inv config (state, n)" and l: "lsConfig l = config"
    and h: "handleHello tu body (state, l) = Some (er, state', l')"
  shows "connection_inv config (state', n)"
proof (cases "er = None")
  case True
  obtain hello ack encoded st1 where n: "\<not> negotiated state"
    and ack: "NegotiateAcknowledge hello (lcReceiveBufferSize config) (lcSendBufferSize config) (lcMaxMessageSize config) (lcMaxChunkCount config) = Inr ack"
    and e: "EncodeAcknowledge ack (lcBinary config) = Inr encoded"
    and w: "writeMessage config tu MessageTypeAcknowledge ChunkFinal encoded state = (None, st1)"
    and st: "state' = st1\<lparr>negotiated := True, receiveSize := ackReceive ack, sendSize := ackSend ack, csMaxMessageSize := helloMaxMessage hello,
      incoming := NewChunkAccumulator (ackMaxChunks ack) (acceptableRequestBytes config (ackMaxMessage ack)) StatusBadRequestTooLarge,
      csVersion := helloVersion hello, receiveSequence := NewSequenceValidator SequenceNumberingLegacy,
      sendSequence := NewSequenceValidator SequenceNumberingLegacy\<rparr>"
    using h True l by (auto simp: handleHello_def Let_def split: if_splits sum.splits prod.splits option.splits)
  have "length encoded = 20" using encode_with_emits(2) [OF ack_codec.wr_emits e [unfolded EncodeAcknowledge_def]] by (simp add: ack_wire_def five_wire_def)
  then have "writes (uint MinimumBufferSize) state st1"
    using writes_message [of encoded "uint MinimumBufferSize" state config tu MessageTypeAcknowledge ChunkFinal] w
    by (simp add: MinimumBufferSize_def)
  then have 1: "connection_inv config (st1, n)" "\<not> negotiated st1" using connection_writes [OF inv] n by (auto simp: writes_def)
  have "uint MinimumBufferSize \<le> uint (ackSend ack)" "uint (ackSend ack) \<le> uint (lcSendBufferSize config)"
    "uint (ackReceive ack) \<le> uint (lcReceiveBufferSize config)"
    using ack by (auto simp: NegotiateAcknowledge_def Let_def minUint32_def word_less_def not_less split: if_splits)
  then show ?thesis using 1 acceptable_bound [OF valid] config_bounds(3) [OF valid]
    by (auto simp: connection_inv_def fits_def st NewChunkAccumulator_def)
next
  case False
  have "state' = state \<or> writes (uint MinimumBufferSize) state state'"
    using h False
    by (auto simp: handleHello_def writeMessage_def conn_write_def Let_def split: if_splits sum.splits prod.splits option.splits)
  then show ?thesis using connection_writes [OF inv] inv by auto
qed

lemma open_connection:
  assumes inv: "connection_inv config (state, n)" and h: "handleOpenChannel tu body (state, l) = Some (er, state', l')"
  shows "connection_inv config (state', n)"
proof (cases "negotiated state")
  case True
  obtain r st1 l1 where sp: "splitSecureMessage tu True body (state, l) = (r, st1, l1)" by (metis surj_pair)
  note sp' = split_connection(1,2) [OF inv sp]
  have id: "connection_inv config (st1\<lparr>csChannelID := i\<rparr>, n)" for i using sp'(1) by (auto simp: connection_inv_def fits_def)
  have "connection_inv config (snd (writeSecureMessage c tu t token q b p a (st1\<lparr>csChannelID := i\<rparr>)), n)" for c t token q b p a i
    by (rule connection_writes [OF id writes_secure]) (use sp' True in simp)
  then have w: "writeSecureMessage c tu t token q b p a (st1\<lparr>csChannelID := i\<rparr>) = (x, st2) \<Longrightarrow> connection_inv config (st2, n)"
    for c t token q b p a i x st2 by (metis snd_conv)
  show ?thesis using h True sp'(1) id w
    by (auto simp: handleOpenChannel_def sp Let_def split: sum.splits option.splits prod.splits)
qed (use h inv in \<open>simp add: handleOpenChannel_def\<close>)

lemma close_connection:
  assumes inv: "connection_inv config (state, n)" and h: "handleCloseChannel tu body (state, l) = Some (er, state', l')"
  shows "connection_inv config (state', n)"
proof -
  obtain r st1 l1 where sp: "splitSecureMessage tu False body (state, l) = (r, st1, l1)" by (metis surj_pair)
  show ?thesis using h inv split_connection(1) [OF inv sp]
    by (auto simp: handleCloseChannel_def sp split: if_splits sum.splits prod.splits)
qed

text \<open>The counting of held requests: what \<open>waiting\<close> adds to \<open>n\<close>.\<close>

definition held_after :: "heldPublish option \<Rightarrow> nat \<Rightarrow> nat" where
  "held_after waiting n = (case waiting of None \<Rightarrow> n | Some _ \<Rightarrow> Suc n)"

lemma held_after_simps [simp]: "held_after None n = n" "held_after (Some h) n = Suc n"
  by (simp_all add: held_after_def)

lemma faulted_connection:
  assumes "connection_inv config (state, n)" "negotiated state" "faulted tu parts handle er (state, l) = (r, state', l')"
  shows "connection_inv config (state', n)"
  using connection_writes [OF assms(1) writes_faulted [OF assms(3)]] assms(2) by simp

lemma publish_connection:
  assumes inv: "connection_inv config (state, n)" "negotiated state"
    and h: "handlePublish wo tu parts decoder (state, l) = (waiting, er, state', l')"
  shows "connection_inv config (state', held_after waiting n)"
proof (cases waiting)
  case None
  have "state' = state \<or> (\<exists>handle e l1 r l2. faulted tu parts handle e (state, l1) = (r, state', l2))"
    using h None
    by (auto simp: handlePublish_def Let_def split: sum.splits prod.splits option.splits if_splits)
  then show ?thesis using inv None faulted_connection [OF inv] by auto
next
  case (Some w)
  then have "state' = state\<lparr>publishing := publishing state + 1\<rparr>" "publishing state + 1 \<le> 64"
    using h by (auto simp: handlePublish_def Let_def maxOutstandingPublishesPerConnection_def
        split: sum.splits prod.splits option.splits if_splits)
  then show ?thesis using inv Some by (auto simp: connection_inv_def fits_def)
qed

lemma request_connection:
  assumes inv: "connection_inv config (state, n)" "negotiated state"
    and h: "handleRequest wo tu parts payload (state, l) = Some (waiting, er, state', l')"
  shows "connection_inv config (state', held_after waiting n)"
proof -
  have "connection_inv config (st, n)" if "serviceResponse tu parts outcome (state, l1) = (r, st, l2)" for outcome l1 r st l2
  proof (cases outcome)
    case (Answer body)
    have "connection_inv config (snd (writeSecureMessage c tu t token q b p a state), n)" for c t token q b p a
      by (rule connection_writes [OF inv(1) writes_secure]) (use inv(2) in simp)
    then have "writeSecureMessage c tu t token q b p a state = (x, st2) \<Longrightarrow> connection_inv config (st2, n)" for c t token q b p a x st2
      by (metis snd_conv)
    then show ?thesis using that Answer by (simp add: serviceResponse_def split: prod.splits)
  next
    case (Fault handle e)
    then show ?thesis using that by (intro faulted_connection [OF inv]) (simp add: serviceResponse_def)
  qed (use that inv in \<open>simp add: serviceResponse_def\<close>)
  note served = this
  have "state' = state \<and> waiting = None \<or> (\<exists>d. handlePublish wo tu parts d (state, l) = (waiting, er, state', l')) \<or>
      waiting = None \<and> (\<exists>outcome l1. serviceResponse tu parts outcome (state, l1) = (er, state', l'))"
  proof (cases "NewDecoder payload (lcBinary (lsConfig l))")
    case (Inr d)
    show ?thesis
    proof (cases "ReadServiceTypeID d")
      case i: (Inr p)
      show ?thesis
      proof (cases "fst p = PublishRequestEncodingID")
        case True
        then show ?thesis using h Inr i by (cases p) (simp add: handleRequest_def, blast)
      next
        case False
        then show ?thesis using h Inr i by (cases p) (auto simp: handleRequest_def split: option.splits)
      qed
    qed (use h Inr in \<open>simp add: handleRequest_def\<close>)
  qed (use h in \<open>simp add: handleRequest_def\<close>)
  then show ?thesis
  proof (elim disjE conjE exE)
    show "connection_inv config (state', held_after waiting n)" if "state' = state" "waiting = None" using inv that by simp
    show "connection_inv config (state', held_after waiting n)" if "handlePublish wo tu parts d (state, l) = (waiting, er, state', l')" for d
      by (rule publish_connection [OF inv that])
    show "connection_inv config (state', held_after waiting n)"
      if "waiting = None" "serviceResponse tu parts outcome (state, l1) = (er, state', l')" for outcome l1
      using served [OF that(2)] that(1) by simp
  qed
qed

lemma secure_connection:
  assumes inv: "connection_inv config (state, n)" and valid: "ListenerConfig_validate config = None" and len: "length body < 2 ^ 32"
    and h: "handleSecureMessage wo tu chunk body (state, l) = Some (waiting, er, state', l')"
  shows "connection_inv config (state', held_after waiting n)"
proof (cases "negotiated state")
  case True
  obtain r st1 l1 where sp: "splitSecureMessage tu False body (state, l) = (r, st1, l1)" by (metis surj_pair)
  have st1: "connection_inv config (st1, n)" "negotiated st1" using split_connection(1,2) [OF inv sp] True by simp_all
  have reset: "connection_inv config (st1\<lparr>incoming := chunk_reset a\<rparr>, n)" "negotiated (st1\<lparr>incoming := chunk_reset a\<rparr>)"
    if "maxMessage a = maxMessage (incoming st1)" for a
    using st1 that config_bounds(3) [OF valid] by (auto simp: connection_inv_def fits_def chunk_reset_def)
  have app: "maxMessage a = maxMessage (incoming st1)" "connection_inv config (st1\<lparr>incoming := a\<rparr>, n)"
    if "chunk_append (smPayload parts) (incoming st1) = Inr a" "r = Inr parts" for a parts
  proof -
    have "int (length (abody (incoming st1))) < 2 ^ 31" using st1(1) config_bounds(4) [OF valid] by (simp add: connection_inv_def)
    then have b: "length (abody (incoming st1)) < 2 ^ 32" by simp
    have p: "length (smPayload parts) < 2 ^ 32" using split_connection(4) [OF inv sp that(2)] len by simp
    have m: "maxMessage (incoming st1) \<noteq> 0" using st1(1) by (simp add: connection_inv_def)
    note bound = append_bound [OF that(1) m b p]
    show "maxMessage a = maxMessage (incoming st1)" by (rule bound(2))
    show "connection_inv config (st1\<lparr>incoming := a\<rparr>, n)"
      using st1(1) bound by (auto simp: connection_inv_def fits_def)
  qed
  show ?thesis
  proof (cases r)
    case (Inr parts)
    show ?thesis
    proof (cases "chunk_append (smPayload parts) (incoming st1)")
      case (Inr a)
      then show ?thesis using h True \<open>r = Inr parts\<close> st1 reset [of "incoming st1"] reset [of a] app [OF Inr \<open>r = Inr parts\<close>]
          request_connection [OF reset [of a]]
        by (auto simp: handleSecureMessage_def sp split: if_splits)
    qed (use h True Inr st1 reset [of "incoming st1"] in \<open>auto simp: handleSecureMessage_def sp split: if_splits\<close>)
  qed (use h True st1 in \<open>auto simp: handleSecureMessage_def sp\<close>)
qed (use h inv in \<open>auto simp: handleSecureMessage_def\<close>)

lemma message_connection:
  assumes inv: "connection_inv config (state, n)" and valid: "ListenerConfig_validate config = None" and l: "lsConfig l = config"
    and h: "serveMessage wo tu reason stream (state, l) = Some (rest, waiting, state', l')"
  shows "connection_inv config (state', held_after waiting n)"
proof (cases "readMessage stream (receiveSize state)")
  case (Inl e)
  then show ?thesis using h connection_writes [OF inv writes_error] by (auto simp: serveMessage_def)
next
  case (Inr m)
  then obtain header body rest' where m: "readMessage stream (receiveSize state) = Inr (header, body, rest')" by (metis surj_pair)
  have "nat (BodySize header) < 2 ^ 32"
  proof -
    have "uint (mhSize header) < 2 ^ LENGTH(32)" by (rule unsigned_less)
    then show ?thesis by (simp add: BodySize_def HeaderSize_def)
  qed
  then have len: "length body < 2 ^ 32" using m by (auto simp: readMessage_def Let_def split: if_splits sum.splits)
  obtain w er st1 l1 where hm: "handleMessage wo tu header body (state, l) = Some (w, er, st1, l1)" "waiting = w"
    and st: "state' = st1 \<or> (\<exists>c e. state' = writeProtocolError c tu reason e st1)"
    using h m by (auto simp: serveMessage_def split: option.splits prod.splits)
  have "connection_inv config (st1, held_after w n)"
    using hm(1) inv hello_connection [OF valid inv l] open_connection [OF inv] close_connection [OF inv]
      secure_connection [OF inv valid len]
    by (auto simp: handleMessage_def split: if_splits)
  then show ?thesis using st hm(2) connection_writes [OF _ writes_error] by blast
qed

lemma answer_connection:
  assumes inv: "connection_inv config (state, Suc n)" and h: "answerPublish wo tu terminated gone cycles later w (state, l) = (state', l')"
    and subs: "lsSubs l \<noteq> None"
  shows "connection_inv config (state', n)"
proof -
  have neg: "negotiated state" using inv by (simp add: connection_inv_def)
  have secure: "connection_inv config (snd (writeSecureMessage c tu t token q b p a state), Suc n)" for c t token q b p a
    by (rule connection_writes [OF inv writes_secure]) (use neg in simp)
  have fault: "connection_inv config (fst (snd (faulted tu parts handle e (state, l1))), Suc n)" for parts handle e l1
    using faulted_connection [OF inv neg] by (metis prod.collapse)
  have released: "connection_inv config (st1\<lparr>publishing := publishing st1 - 1\<rparr>, n)" if "connection_inv config (st1, Suc n)" for st1
    using that by (auto simp: connection_inv_def fits_def)
  show ?thesis using h subs
    by (auto simp: answerPublish_def Let_def split: option.splits prod.splits sum.splits if_splits
        intro!: released secure fault inv)
qed

interpretation connection_machine: state_machine "connection_start config" "connection_step wo config"
  "\<lambda>st. ListenerConfig_validate config = None \<and> connection_inv config st" for wo config
proof
  show "ListenerConfig_validate config = None \<and> connection_inv config st" if "connection_start config st" for st
  proof (cases st)
    case (Pair state n)
    then have valid: "ListenerConfig_validate config = None" and st: "state = newConnection config" "n = 0"
      using that by (simp_all add: connection_start_def)
    have c: "uint (of_int (MaxMessageBytes (lcBinary config)) :: uint32) = MaxMessageBytes (lcBinary config)"
      using config_bounds(3,4) [OF valid] by (intro uint_of_int32) simp_all
    then have "(of_int (MaxMessageBytes (lcBinary config)) :: uint32) \<noteq> 0" using config_bounds(3) [OF valid] by auto
    then show ?thesis using c valid config_bounds [OF valid]
      by (simp add: Pair st connection_inv_def fits_def newConnection_def NewChunkAccumulator_def word_le_def)
  qed
  show "ListenerConfig_validate config = None \<and> connection_inv config st'"
    if "ListenerConfig_validate config = None \<and> connection_inv config st" "connection_step wo config st st'" for st st'
    using that(2,1)
  proof cases
    case (message tu reason stream state l rest waiting state' l' n)
    then show ?thesis using that(1) message_connection [of config state n l wo tu reason stream rest waiting state' l']
      by (simp add: held_after_def)
  next
    case (answer tu terminated gone cycles later h state l state' l' n)
    then show ?thesis using that(1) answer_connection [OF _ answer(3)] by simp
  qed
qed


text \<open>A connection whose client sent a Hello and receives 9000 bytes at most.\<close>

definition hello_bytes_sample :: "byte list" where
  "hello_bytes_sample = [72, 69, 76, 70, 32, 0, 0, 0, 0, 0, 0, 0, 0x28, 0x23, 0, 0, 0, 64, 0, 0, 0, 0, 0, 0, 0, 0, 0, 0, 0xFF, 0xFF, 0xFF, 0xFF]"

definition turn_sample :: "unit turn" where
  "turn_sample = \<lparr>tuAccept = 0, tuNow = 0, tuFault = 0, tuRandom1 = None, tuRandom2 = None, tuAwait = \<lambda>_ _. None,
     tuRank = \<lambda>_ _. 0, tuRandoms = \<lambda>_. None, tuChannels = \<lambda>_. 0, tuOrder = \<lambda>_ _. 0, tuWritten = None\<rparr>"

definition connection_config_sample :: ListenerConfig where
  "connection_config_sample = DefaultListenerConfig config_sample endpoint_config_sample"

lemma greeted_sample:
  assumes "lsConfig l = connection_config_sample"
  obtains state where "serveMessage wo turn_sample reason hello_bytes_sample (newConnection connection_config_sample, l) = Some (Some [], None, state, l)"
    "negotiated state" "sendSize state = 9000" "map length (csOutput state) = [28]"
proof -
  let ?hello = "\<lparr>helloVersion = 0, helloReceive = 9000, helloSend = 16384, helloMaxMessage = 0, helloMaxChunks = 0, EndpointURL = []\<rparr>"
  let ?ack = "\<lparr>ackVersion = 0, ackReceive = 16384, ackSend = 9000, ackMaxMessage = 1048576, ackMaxChunks = 32\<rparr>"
  let ?c = connection_config_sample
  have 1: "readMessage hello_bytes_sample (receiveSize (newConnection ?c)) =
      Inr (\<lparr>mhType = MessageTypeHello, mhChunk = ChunkFinal, mhSize = 32\<rparr>, drop 8 hello_bytes_sample, [])" by code_simp
  have 2: "DecodeHello (drop 8 hello_bytes_sample) (lcBinary ?c) = Inr ?hello" by code_simp
  have 3: "NegotiateAcknowledge ?hello (lcReceiveBufferSize ?c) (lcSendBufferSize ?c) (lcMaxMessageSize ?c) (lcMaxChunkCount ?c) = Inr ?ack"
    by code_simp
  have "map_sum id length (EncodeAcknowledge ?ack (lcBinary ?c)) = Inr 20" by code_simp
  then obtain encoded where 4: "EncodeAcknowledge ?ack (lcBinary ?c) = Inr encoded" "length encoded = 20"
    by (cases "EncodeAcknowledge ?ack (lcBinary ?c)") auto
  have "map_sum id length (EncodeMessageHeader MessageTypeAcknowledge ChunkFinal 20 (lcSendBufferSize ?c)) = Inr 8" by code_simp
  then obtain header where 5: "EncodeMessageHeader MessageTypeAcknowledge ChunkFinal 20 (lcSendBufferSize ?c) = Inr header" "length header = 8"
    by (cases "EncodeMessageHeader MessageTypeAcknowledge ChunkFinal 20 (lcSendBufferSize ?c)") auto
  have new: "\<not> negotiated (newConnection ?c)" "csOutput (newConnection ?c) = []" by (simp_all add: newConnection_def)
  have w: "writeMessage ?c turn_sample MessageTypeAcknowledge ChunkFinal encoded (newConnection ?c) =
      (None, (newConnection ?c)\<lparr>csOutput := [header @ encoded]\<rparr>)"
    by (simp add: writeMessage_def conn_write_def turn_sample_def 4(2) 5(1) new(2))
  obtain state where h: "handleHello turn_sample (drop 8 hello_bytes_sample) (newConnection ?c, l) = Some (None, state, l)"
    "negotiated state" "sendSize state = 9000" "csOutput state = [header @ encoded]"
    by (simp add: handleHello_def assms new(1) 2 3 4(1) w)
  have "serveMessage wo turn_sample reason hello_bytes_sample (newConnection ?c, l) = Some (Some [], None, state, l)"
    by (simp add: serveMessage_def handleMessage_def 1 h(1))
  then show thesis using that h 4(2) 5(2) by simp
qed


section \<open>How many connections there are\<close>

inductive acceptor_step :: "ListenerConfig \<Rightarrow> acceptor \<Rightarrow> acceptor \<Rightarrow> bool" for config where
  serving: "acceptor_step config a (startServe a)"
| accept: "conn \<notin> set (acConns a) \<Longrightarrow> acceptConnection config conn a = (served, a') \<Longrightarrow> acceptor_step config a a'"
| finish: "conn \<in> set (acConns a) \<Longrightarrow> acceptor_step config a (endConnection conn a)"
| close: "listener_Close a = (dropped, a') \<Longrightarrow> acceptor_step config a a'"

definition acceptor_inv :: "ListenerConfig \<Rightarrow> acceptor \<Rightarrow> bool" where
  "acceptor_inv config a \<longleftrightarrow> distinct (acConns a) \<and> acSlots a = int (length (acConns a)) \<and>
     acSlots a \<le> max 0 (MaxConnections config) \<and> \<not> (acClosed a \<and> acListening a)"

interpretation acceptor_machine: state_machine "\<lambda>a. a = newAcceptor" "acceptor_step config" "acceptor_inv config" for config
proof
  show "a = newAcceptor \<Longrightarrow> acceptor_inv config a" for a by (simp add: newAcceptor_def acceptor_inv_def)
  show "acceptor_inv config a'" if "acceptor_inv config a" "acceptor_step config a a'" for a a'
    using that(2,1)
  proof cases
    case (accept conn served)
    then show ?thesis using that(1)
      by (auto simp: acceptConnection_def track_def acceptor_inv_def List.insert_def split: if_splits)
  next
    case (finish conn)
    then have "length (acConns a) = Suc (length (removeAll conn (acConns a)))" using that(1)
      by (metis One_nat_def Suc_pred acceptor_inv_def distinct_remove1_removeAll length_pos_if_in_set length_remove1)
    then show ?thesis using finish that(1) by (simp add: endConnection_def untrack_def acceptor_inv_def distinct_removeAll Let_def)
  qed (use that(1) in \<open>auto simp: startServe_def listener_Close_def acceptor_inv_def split: if_splits\<close>)
qed

text \<open>There are never more connections than the limit, and none is accepted once the listener is closed.\<close>

lemma connections_limited:
  assumes "reachable (\<lambda>a. a = newAcceptor) (acceptor_step config) a"
  shows "int (length (acConns a)) \<le> max 0 (MaxConnections config)" "acClosed a \<Longrightarrow> \<not> fst (acceptConnection config conn a)"
  using acceptor_machine.reachable_inv [OF assms] by (auto simp: acceptor_inv_def acceptConnection_def track_def)

end
