(* ===== verification/Spec2Isabelle.thy ===== *)
theory Spec2Isabelle
  imports DateTime ListenerLaws ConnectionLaws
begin

text \<open>
  A verification library for the OPC DA access adapter, a server that offers the items of a
  classic OPC DA source to OPC UA clients.

  \<^bold>\<open>The program.\<close> A client opens a TCP connection and exchanges Hello and Acknowledge messages
  (\<^verbatim>\<open>uacp.go\<close>), opens a secure channel whose chunks carry tokens and sequence numbers (\<^verbatim>\<open>uasc.go\<close>,
  \<^verbatim>\<open>channel.go\<close>, \<^verbatim>\<open>service.go\<close>), asks for endpoints (\<^verbatim>\<open>endpoints.go\<close>), creates and activates a session
  (\<^verbatim>\<open>session.go\<close>) and then browses, reads, writes and subscribes (\<^verbatim>\<open>browse.go\<close>, \<^verbatim>\<open>readwrite.go\<close>,
  \<^verbatim>\<open>subscription.go\<close>). Every message is written and read by one binary codec (\<^verbatim>\<open>binary.go\<close>, \<^verbatim>\<open>nodeid.go\<close>,
  \<^verbatim>\<open>variant.go\<close>, \<^verbatim>\<open>datetime.go\<close>). The address space (\<^verbatim>\<open>addressspace.go\<close>, \<^verbatim>\<open>serverstatus.go\<close>,
  \<^verbatim>\<open>itemproperties.go\<close>) is filled from the source on demand (\<^verbatim>\<open>population.go\<close>); values, qualities and
  errors are mapped by \<^verbatim>\<open>mapping.go\<close>. The DA side (\<^verbatim>\<open>src/internal/opcda\<close>) is an interface, \<^verbatim>\<open>Runtime\<close>,
  whose implementation calls COM, with a platform-independent core: types, limits, validation of
  written values, the reconnect delay, registrations and the coalescing queue of subscriptions.

  \<^bold>\<open>How it is modelled.\<close> Strings and byte slices are lists of bytes, machine integers words of their
  width, \<^verbatim>\<open>int\<close> and durations integers (with \<open>i64\<close> where a product may wrap), floats their IEEE
  bits, times integers of nanoseconds. An encoder and a decoder are records that every operation
  updates; an error is a value of \<open>go_error\<close>, \<open>da_error\<close> or \<open>population_error\<close>. A registry
  behind a lock is a record, each method that holds the lock one function on it, and the
  interleavings of methods are step relations. Code outside the repository, or that only exists
  on Windows, is an argument: the DA runtime is a record of functions over its own state, random
  bytes and the iteration order of Go maps are arguments of the operations that use them.

  \<^bold>\<open>Theories.\<close>

  \<^item> \<open>Prelude\<close>, \<open>Tables\<close>, \<open>Machines\<close>: words and bytes, association lists with an invariant per
    entry, and the locale \<open>state_machine\<close> that every stateful component interprets.
  \<^item> \<open>Binary\<close>, \<open>Codec\<close>: encoder, decoder and their primitive operations (\<^verbatim>\<open>binary.go\<close>, \<^verbatim>\<open>datetime.go\<close>);
    \<open>emits\<close>, \<open>parses\<close> and \<open>within\<close> say what an operation writes, reads back and never exceeds, and the
    locale \<open>codec\<close> turns them into round trips. \<open>DateTime\<close>, \<open>Floats\<close> and \<open>Utf8\<close> hold what Go's
    library does with times, floats and runes.
  \<^item> \<open>NodeIds\<close>, \<open>Headers\<close>, \<open>Variants\<close>, \<open>VariantLaws\<close>: the structures of \<^verbatim>\<open>nodeid.go\<close> and \<^verbatim>\<open>variant.go\<close>.
    The decoders of Variant and DataValue call each other; they run on fuel, the number of bytes
    left, which is proved enough, since every level consumes a byte.
  \<^item> \<open>Uacp\<close>, \<open>Uasc\<close>, \<open>Channels\<close>, \<open>Services\<close>, \<open>Endpoints\<close>: connection, chunks, channel registry, channel
    service and discovery. The search for a free channel identifier is a partial function, and is proved
    to return.
  \<^item> \<open>SessionMessages\<close>, \<open>Sessions\<close>: the session services and their registry.
  \<^item> \<open>DaTypes\<close>, \<open>DaArrays\<close>, \<open>DaRuntime\<close>, \<open>DaSubscribe\<close>: the platform-independent DA core.
  \<^item> \<open>DaMapping\<close>, \<open>Conversion\<close>: qualities, errors and values between DA and UA.
  \<^item> \<open>NodeModel\<close>, \<open>StandardNodes\<close>, \<open>Space\<close>, \<open>ItemProperties\<close>, \<open>SpaceInvariant\<close>: nodes and their identifiers, the
    server's own nodes, the operations of the address space and their invariant.
  \<^item> \<open>DataAccessMessages\<close>, \<open>DataAccess\<close>: the Read and Write services.
  \<^item> \<open>Population\<close>, \<open>BrowseMessages\<close>, \<open>Browsing\<close>: filling the space on demand, with its single-flight protocol,
    and the Browse services with their continuation points.
  \<^item> \<open>SubscriptionMessages\<close>, \<open>Deadband\<close>, \<open>Subscriptions\<close>: the messages of the subscription services, monitoring
    filters (\<^verbatim>\<open>deadband.go\<close>) and the services themselves: subscriptions, monitored items, publishing,
    acknowledgement and expiry (\<^verbatim>\<open>subscription.go\<close>).
  \<^item> \<open>SubscriptionLaws\<close>, \<open>Publishing\<close>: what these services keep. The locale \<open>da_ledger\<close> is what they rely
    on from the DA runtime; a \<open>serves\<close> step keeps the invariant, leaves other sessions alone and loses no
    group, and every request is one. \<open>Publishing\<close> holds what a client sees of them.
  \<^item> \<open>Listener\<close>: the listener (\<^verbatim>\<open>listener.go\<close>), one record of all services: configuration, the message loop of
    a connection, secure messages, the dispatch of every service, Publish requests that are held and answered
    later, accepting connections, expiry and shutdown.
  \<^item> \<open>ListenerLaws\<close>, \<open>ConnectionLaws\<close>: the composition. The steps of \<open>server_step\<close> are whole messages from any
    connection in any state, answers to held requests, expiries and shutdowns, in any order; the locale
    \<open>da_world\<close> extends \<open>da_ledger\<close> by what the rest of the DA runtime promises. \<open>connection_step\<close> is the life of
    one connection.

  \<^bold>\<open>What is shown.\<close> Round trips of every message up to the stated normalisations, with no decoder
  reading past its input; the exact conditions under which limits, written values and requests
  are accepted, where products of machine integers cannot wrap; the invariants of the channel
  and session registries, of the address space and of the continuation points in every
  interleaving; that tokens, sessions and continuation points are usable exactly by their owner
  and until they expire; that a Read or Write answers each entry in its place and a Browse gives
  every matching reference once over its pages; that filling the space stays within its node
  budget and asks the source once; that subscriptions stay within their limits, do not reach across
  sessions and lose no DA group, that a Publish is answered after a bounded number of cycles, and
  that notifications arrive once, in order and under consecutive numbers; that the DA queue delivers the latest value of each item and
  loses no wake-up; that DA qualities and values reach a client unchanged in severity and bits.
  Of the whole server: that subscriptions and continuation points always belong to live sessions and open DA
  groups to subscriptions, that a shutdown leaves nothing open on the source, that no service but the four
  that need none runs without an activated session of the channel, and that a connection can make the
  server hold or send only what was negotiated.

  \<^bold>\<open>Bounds.\<close> Fuel appears only in the Variant decoder; all other loops are structural or have a
  measure. A Publish is given the list of publishing cycles it waits for. Time is unbounded, so a difference of times never saturates as \<^verbatim>\<open>time.Time.Sub\<close> does
  beyond 292 years.

  \<^bold>\<open>Not modelled.\<close> The COM client of Windows, whose behaviour is that of COM and the DA server; the
  generated gRPC code; the listener's goroutines, sockets and timers, so the methods of one message are not interleaved with those of another; the HTTP, gRPC and MCP front ends and the configuration loader, which
  translate requests to the same DA core; the probes used for validation against live servers.
\<close>

end
